(* ===== verification/Prelude.thy ===== *)
theory Prelude
  imports "HOL-Library.Word" "HOL-Library.Signed_Division" "HOL-Library.List_Lexorder"
    "HOL-Library.Char_ord" "HOL-Library.Product_Lexorder"
begin

text \<open>
  Shared vocabulary of the development: the integer conversions of the Rust
  standard library the code relies on, results as sums, iterator idioms
  (collecting into a result, \<open>max_by_key\<close>, \<open>split_once\<close>), and the generic
  lemmas the components share.  A Rust \<open>i64\<close> is an \<open>int\<close> with its bounds
  written out, so that saturating, checked and narrowing operations are visible
  where the source spells them; unsigned fields whose width matters are words.
\<close>

named_theorems int_width \<open>unfolding the bounded integer operations\<close>
named_theorems result_simps \<open>computing with results held in sums\<close>

section \<open>Names for the shared types\<close>

text \<open>Instants are counted in nanoseconds from the Unix epoch, as \<open>jiff::Timestamp\<close> holds them.\<close>
type_synonym instant = int
type_synonym u8 = "8 word"
type_synonym u32 = "32 word"
type_synonym u64 = "64 word"
type_synonym ('e, 'a) result = "'e + 'a"

section \<open>Signed 64-bit integers as bounded integers\<close>

definition i64_max :: int where "i64_max = 2 ^ 63 - 1"
definition i64_min :: int where "i64_min = - (2 ^ 63)"
definition in_i64 :: "int \<Rightarrow> bool" where "in_i64 x \<longleftrightarrow> i64_min \<le> x \<and> x \<le> i64_max"

definition sat_i64 :: "int \<Rightarrow> int" where
  "sat_i64 x = (if x < i64_min then i64_min else if i64_max < x then i64_max else x)"

definition saturating_add :: "int \<Rightarrow> int \<Rightarrow> int" where
  "saturating_add a b = sat_i64 (a + b)"

definition saturating_sub :: "int \<Rightarrow> int \<Rightarrow> int" where
  "saturating_sub a b = sat_i64 (a - b)"

definition checked_add :: "int \<Rightarrow> int \<Rightarrow> int option" where
  "checked_add a b = (if in_i64 (a + b) then Some (a + b) else None)"

definition try_i64 :: "int \<Rightarrow> int option" where
  "try_i64 x = (if in_i64 x then Some x else None)"

definition try_u32 :: "int \<Rightarrow> u32 option" where
  "try_u32 x = (if 0 \<le> x \<and> x < 2 ^ 32 then Some (word_of_int x) else None)"

definition u32_max :: u32 where "u32_max = 4294967295"

lemmas [int_width] = i64_max_def i64_min_def in_i64_def sat_i64_def saturating_add_def
  saturating_sub_def checked_add_def try_i64_def

lemma i64_min_le_max [simp]: "i64_min \<le> i64_max"
  by (simp add: int_width)

lemma in_i64_zero [simp]: "in_i64 0"
  by (simp add: int_width)

lemma sat_i64_id: "in_i64 x \<Longrightarrow> sat_i64 x = x"
  by (simp add: int_width)

lemma in_i64_sat [simp]: "in_i64 (sat_i64 x)"
  by (simp add: int_width)

lemma sat_i64_mono: "x \<le> y \<Longrightarrow> sat_i64 x \<le> sat_i64 y"
  by (simp add: int_width)

lemma checked_add_Some [simp]: "checked_add a b = Some c \<longleftrightarrow> in_i64 (a + b) \<and> c = a + b"
  by (auto simp: checked_add_def)

lemma try_i64_Some [simp]: "try_i64 x = Some y \<longleftrightarrow> in_i64 x \<and> y = x"
  by (auto simp: try_i64_def)

lemma uint_u32_less [simp]: "uint (w :: u32) < 4294967296"
  using uint_lt2p [of w] by simp

lemma uint_u32_le: "uint (w :: u32) \<le> 4294967295"
  using uint_u32_less [of w] by linarith

lemma uint_u32_max [simp]: "uint u32_max = 4294967295"
  by (simp add: u32_max_def)

lemma try_u32_Some: "try_u32 x = Some w \<Longrightarrow> uint w = x"
  by (auto simp: try_u32_def uint_word_of_int split: if_splits)

lemma try_u32_uint [simp]: "try_u32 (uint w) = Some w"
  by (simp add: try_u32_def)

section \<open>Results and options\<close>

fun res_bind :: "('e, 'a) result \<Rightarrow> ('a \<Rightarrow> ('e, 'b) result) \<Rightarrow> ('e, 'b) result" where
  "res_bind (Inl e) f = Inl e"
| "res_bind (Inr x) f = f x"

definition ok_or :: "'e \<Rightarrow> 'a option \<Rightarrow> ('e, 'a) result" where
  "ok_or e x = (case x of None \<Rightarrow> Inl e | Some v \<Rightarrow> Inr v)"

lemma res_bind_Inr: "res_bind r f = Inr y \<longleftrightarrow> (\<exists>x. r = Inr x \<and> f x = Inr y)"
  by (cases r) auto

lemma res_bind_Inl: "res_bind r f = Inl e \<longleftrightarrow> r = Inl e \<or> (\<exists>x. r = Inr x \<and> f x = Inl e)"
  by (cases r) auto

lemma ok_or_Inr [simp]: "ok_or e x = Inr y \<longleftrightarrow> x = Some y"
  by (auto simp: ok_or_def split: option.splits)

lemma ok_or_Some [simp]: "ok_or e (Some x) = Inr x"
  by (simp add: ok_or_def)

lemma ok_or_None [simp]: "ok_or e None = Inl e"
  by (simp add: ok_or_def)

lemmas [result_simps] = res_bind_Inr res_bind_Inl

text \<open>Collecting an iterator of results into one result: the first error wins.\<close>

fun traverse :: "('a \<Rightarrow> ('e, 'b) result) \<Rightarrow> 'a list \<Rightarrow> ('e, 'b list) result" where
  "traverse f [] = Inr []"
| "traverse f (x # xs) = res_bind (f x) (\<lambda>y. res_bind (traverse f xs) (\<lambda>ys. Inr (y # ys)))"

lemma traverse_Inr: "traverse f xs = Inr ys \<longleftrightarrow> map f xs = map Inr ys"
proof (induction xs arbitrary: ys)
  case Nil
  show ?case by auto
next
  case (Cons x xs)
  show ?case by (cases ys) (auto simp: result_simps Cons.IH)
qed

lemma traverse_length: "traverse f xs = Inr ys \<Longrightarrow> length ys = length xs"
  by (auto simp: traverse_Inr dest: map_eq_imp_length_eq)

lemma traverse_map_Inr [simp]: "(\<And>x. f x = Inr (g x)) \<Longrightarrow> traverse f xs = Inr (map g xs)"
  by (simp add: traverse_Inr)

lemma traverse_nth:
  "traverse f xs = Inr ys \<Longrightarrow> i < length xs \<Longrightarrow> f (xs ! i) = Inr (ys ! i)"
  using traverse_length [of f xs ys] by (auto simp: traverse_Inr dest: arg_cong [where f = "\<lambda>l. l ! i"])

text \<open>A checked sum, as \<open>try_fold\<close> over \<open>i64::checked_add\<close> computes it.\<close>

fun checked_sum :: "int \<Rightarrow> int list \<Rightarrow> int option" where
  "checked_sum acc [] = Some acc"
| "checked_sum acc (x # xs) =
     (case checked_add acc x of None \<Rightarrow> None | Some s \<Rightarrow> checked_sum s xs)"

lemma checked_sum_Some: "checked_sum acc xs = Some s \<Longrightarrow> s = acc + sum_list xs"
  by (induction xs arbitrary: acc) (fastforce split: option.splits)+

lemma checked_sum_in_i64: "in_i64 acc \<Longrightarrow> checked_sum acc xs = Some s \<Longrightarrow> in_i64 s"
  by (induction xs arbitrary: acc) (auto split: option.splits)

section \<open>Iterator idioms\<close>

text \<open>\<open>Iterator::max_by_key\<close>: the last element among those of the greatest key.\<close>

definition max_by_key :: "('a \<Rightarrow> 'k::linorder) \<Rightarrow> 'a list \<Rightarrow> 'a option" where
  "max_by_key f xs = (case xs of [] \<Rightarrow> None
     | y # ys \<Rightarrow> Some (foldl (\<lambda>m z. if f m \<le> f z then z else m) y ys))"

lemma foldl_max_in: "foldl (\<lambda>m z. if f m \<le> f z then z else m) y ys \<in> insert y (set ys)"
  by (induction ys arbitrary: y) auto

lemma foldl_max_ge:
  fixes f :: "'a \<Rightarrow> 'k::linorder"
  shows "z \<in> insert y (set ys) \<Longrightarrow> f z \<le> f (foldl (\<lambda>m z. if f m \<le> f z then z else m) y ys)"
proof (induction ys arbitrary: y z)
  case Nil
  then show ?case by simp
next
  case (Cons w ys)
  let ?m = "if f y \<le> f w then w else y"
  have m: "f ?m \<le> f (foldl (\<lambda>m z. if f m \<le> f z then z else m) ?m ys)"
    by (rule Cons.IH) simp
  from Cons.prems consider "z = y" | "z = w" | "z \<in> set ys" by auto
  then show ?case
  proof cases
    case 3
    then show ?thesis using Cons.IH [of z ?m] by simp
  qed (use m in \<open>auto split: if_splits\<close>)
qed

lemma max_by_key_None [simp]: "max_by_key f xs = None \<longleftrightarrow> xs = []"
  by (simp add: max_by_key_def split: list.splits)

lemma max_by_key_Some:
  assumes "max_by_key f xs = Some x"
  shows "x \<in> set xs" and "\<And>y. y \<in> set xs \<Longrightarrow> f y \<le> f x"
  using assms foldl_max_in [of f] foldl_max_ge [of _ _ _ f]
  by (auto simp: max_by_key_def split: list.splits)

text \<open>\<open>Ord::clamp\<close>, for bounds in order.\<close>

definition ord_clamp :: "'a::linorder \<Rightarrow> 'a \<Rightarrow> 'a \<Rightarrow> 'a" where
  "ord_clamp lo hi x = (if x < lo then lo else if hi < x then hi else x)"

lemma ord_clamp_bounds: "lo \<le> hi \<Longrightarrow> lo \<le> ord_clamp lo hi x \<and> ord_clamp lo hi x \<le> hi"
  by (auto simp: ord_clamp_def)

lemma ord_clamp_id: "lo \<le> x \<Longrightarrow> x \<le> hi \<Longrightarrow> ord_clamp lo hi x = x"
  by (auto simp: ord_clamp_def)

text \<open>\<open>str::split_once\<close>: the text before and after the first separator.\<close>

fun split_once :: "'a \<Rightarrow> 'a list \<Rightarrow> ('a list \<times> 'a list) option" where
  "split_once c [] = None"
| "split_once c (x # xs) = (if x = c then Some ([], xs)
     else map_option (\<lambda>(a, b). (x # a, b)) (split_once c xs))"

lemma split_once_append: "c \<notin> set a \<Longrightarrow> split_once c (a @ c # b) = Some (a, b)"
  by (induction a) auto

lemma split_once_Some: "split_once c xs = Some (a, b) \<longleftrightarrow> xs = a @ c # b \<and> c \<notin> set a"
proof (induction xs arbitrary: a)
  case (Cons x xs)
  show ?case by (cases a) (auto simp: Cons.IH)
qed auto

lemma split_once_None: "split_once c xs = None \<longleftrightarrow> c \<notin> set xs"
  by (induction xs) auto

text \<open>Sorting by a key commutes with mapping, and depends on the key's order only.\<close>

lemma insort_key_map: "map h (insort_key (\<lambda>x. f (h x)) x xs) = insort_key f (h x) (map h xs)"
  by (induction xs) auto

lemma sort_key_map: "sort_key f (map h xs) = map h (sort_key (\<lambda>x. f (h x)) xs)"
  by (induction xs) (simp_all add: insort_key_map)

lemma insort_key_order:
  assumes "\<And>y. y \<in> set xs \<Longrightarrow> f x \<le> f y \<longleftrightarrow> g x \<le> g y"
  shows "insort_key f x xs = insort_key g x xs"
  using assms by (induction xs) auto

lemma sort_key_order:
  assumes "\<And>x y. x \<in> set xs \<Longrightarrow> y \<in> set xs \<Longrightarrow> f x \<le> f y \<longleftrightarrow> g x \<le> g y"
  shows "sort_key f xs = sort_key g xs"
  using assms
proof (induction xs)
  case (Cons x xs)
  then have "sort_key f xs = sort_key g xs" by simp
  then show ?case using Cons.prems by (auto intro: insort_key_order)
qed simp

section \<open>Decimal text\<close>

definition is_ascii_digit :: "char \<Rightarrow> bool" where
  "is_ascii_digit c \<longleftrightarrow> CHR ''0'' \<le> c \<and> c \<le> CHR ''9''"

definition digit_value :: "char \<Rightarrow> nat" where
  "digit_value c = of_char c - 48"

definition dec_value :: "string \<Rightarrow> nat" where
  "dec_value = foldl (\<lambda>n c. 10 * n + digit_value c) 0"

text \<open>Decimal text of a number, as \<open>to_string\<close> writes it.\<close>

fun dec_string :: "nat \<Rightarrow> string" where
  "dec_string n = (if n < 10 then [char_of (48 + n)] else dec_string (n div 10) @ [char_of (48 + n mod 10)])"

declare dec_string.simps [simp del]

lemma of_char_digit: "n < 10 \<Longrightarrow> (of_char (char_of (48 + n) :: char) :: nat) = 48 + n"
  by (simp add: of_char_of)

lemma digit_char [simp]:
  assumes "n < 10"
  shows "digit_value (char_of (48 + n)) = n" "is_ascii_digit (char_of (48 + n))"
  using assms by (auto simp: digit_value_def is_ascii_digit_def less_eq_char_def of_char_digit)

lemma dec_value_snoc [simp]: "dec_value (s @ [c]) = 10 * dec_value s + digit_value c"
  by (simp add: dec_value_def)

lemma dec_string_digits: "list_all is_ascii_digit (dec_string n) \<and> dec_string n \<noteq> []"
  by (induction n rule: dec_string.induct) (subst (1 2) dec_string.simps, simp)

lemma dec_value_string [simp]: "dec_value (dec_string n) = n"
proof (induction n rule: dec_string.induct)
  case (1 n)
  show ?case
  proof (cases "n < 10")
    case True
    then show ?thesis by (subst dec_string.simps) (simp add: dec_value_def)
  next
    case False
    then have "dec_string n = dec_string (n div 10) @ [char_of (48 + n mod 10)]"
      by (simp add: dec_string.simps [of n])
    then show ?thesis using 1 False by simp
  qed
qed

lemma dec_string_length: "n < 10 ^ Suc k \<Longrightarrow> length (dec_string n) \<le> Suc k"
proof (induction k arbitrary: n)
  case 0
  then show ?case by (simp add: dec_string.simps [of n])
next
  case (Suc k)
  show ?case
  proof (cases "n < 10")
    case False
    have "n div 10 < 10 ^ Suc k" using Suc.prems by (simp add: div_less_iff_less_mult mult.commute)
    from Suc.IH [OF this] False show ?thesis by (simp add: dec_string.simps [of n])
  qed (simp add: dec_string.simps [of n])
qed

section \<open>Rounding division\<close>

text \<open>\<open>/\<close> on Rust's signed integers truncates toward zero.\<close>

definition rust_div :: "int \<Rightarrow> int \<Rightarrow> int" where
  "rust_div a b = a sdiv b"

lemma rust_div_nonneg: "0 \<le> a \<Longrightarrow> 0 < b \<Longrightarrow> rust_div a b = a div b"
  by (simp add: rust_div_def signed_divide_int_def sgn_if)

end
