(* ===== verification/GatePolicy.thy ===== *)
theory GatePolicy
  imports Prelude
begin

text \<open>
  A fleet's approval policy and what it says about one action:
  \<open>afd_fleet_runtime/src/config/{condition,gates,anomaly}\<close> and \<open>afd_gate/src/gate/mod.rs\<close>.
  Text is a list of bytes, as the code's comparisons and splits see it.  The event body is a
  \<open>serde_json\<close> value; its object is an association list of distinct keys.
\<close>

section \<open>JSON values\<close>

datatype 's json =
    JNull
  | JBool bool
  | JNumber int
  | JString 's
  | JArray "'s json list"
  | JObject "('s \<times> 's json) list"

fun as_object :: "'s json \<Rightarrow> ('s \<times> 's json) list option" where
  "as_object (JObject fs) = Some fs"
| "as_object _ = None"

fun as_string :: "'s json \<Rightarrow> 's option" where
  "as_string (JString s) = Some s"
| "as_string _ = None"

section \<open>Conditions\<close>

text \<open>\<open>str::split_once\<close> on a multi-byte separator: the first occurrence.\<close>

fun split_once_at :: "'a list \<Rightarrow> 'a list \<Rightarrow> ('a list \<times> 'a list) option" where
  "split_once_at sep xs = (if take (length sep) xs = sep \<and> length sep \<le> length xs
     then Some ([], drop (length sep) xs)
     else (case xs of [] \<Rightarrow> None
       | y # ys \<Rightarrow> map_option (\<lambda>(a, b). (y # a, b)) (split_once_at sep ys)))"

declare split_once_at.simps [simp del]

definition trim_spaces :: "string \<Rightarrow> string" where
  "trim_spaces s = rev (dropWhile ((=) CHR '' '') (rev (dropWhile ((=) CHR '' '') s)))"

definition quote_char :: char where "quote_char = CHR 0x27"

text \<open>\<open>strip_prefix(QUOTE)\<close> then \<open>strip_suffix(QUOTE)\<close>, or the text itself.\<close>

definition unquote :: "string \<Rightarrow> string" where
  "unquote s = (if s \<noteq> [] \<and> hd s = quote_char \<and> tl s \<noteq> [] \<and> last (tl s) = quote_char
     then butlast (tl s) else s)"

record condition =
  field :: string
  cond_value :: string
  negate :: bool

definition op_equal :: string where "op_equal = '' == ''"
definition op_not_equal :: string where "op_not_equal = '' != ''"

definition cond_split :: "string \<Rightarrow> string \<Rightarrow> (string \<times> string) option" where
  "cond_split cond op = map_option (\<lambda>(f, rhs). (trim_spaces f, unquote (trim_spaces rhs)))
     (split_once_at op cond)"

definition condition_parse :: "string \<Rightarrow> condition option" where
  "condition_parse cond = (case cond_split cond op_equal of
       Some (f, v) \<Rightarrow> Some \<lparr>field = f, cond_value = v, negate = False\<rparr>
     | None \<Rightarrow> map_option (\<lambda>(f, v). \<lparr>field = f, cond_value = v, negate = True\<rparr>)
         (cond_split cond op_not_equal))"

definition is_satisfied_by :: "condition \<Rightarrow> string \<Rightarrow> bool" where
  "is_satisfied_by c actual \<longleftrightarrow> (actual = cond_value c) \<noteq> negate c"

section \<open>Rules and policies\<close>

datatype behavior = BehaviorApprove | BehaviorAutoKill

record gate_rule =
  rule_tool :: string
  rule_action :: string
  rule_condition :: "string option"
  rule_behavior :: behavior
  gate_kind :: string
  blast_radius :: string

datatype anomaly_pattern = SameAction

record anomaly_rule =
  pattern :: anomaly_pattern
  repeats :: u32
  window_s :: u32

record gate_policy =
  rules :: "gate_rule list"
  anomaly_rules :: "anomaly_rule list"
  policy_timeout :: int

datatype config_error = MissingRequiredField string | InvalidThreshold string string
  | InvalidBudget string string

text \<open>The authored shapes, before they are proved.\<close>

record raw_gate_rule =
  raw_tool :: "string option"
  raw_action :: "string option"
  raw_condition :: "string option"
  raw_behavior :: behavior
  raw_gate_kind :: string
  raw_blast_radius :: string

record raw_anomaly_rule =
  raw_pattern :: "anomaly_pattern option"
  threshold_count :: "u32 option"
  threshold_window_s :: "u32 option"

record raw_gates =
  raw_rules :: "raw_gate_rule list option"
  raw_anomaly_rules :: "raw_anomaly_rule list option"
  raw_timeout_ms :: "int option"

definition gate_rule_try_from :: "raw_gate_rule \<Rightarrow> (config_error, gate_rule) result" where
  "gate_rule_try_from r =
     res_bind (ok_or (MissingRequiredField ''tool'') (raw_tool r)) (\<lambda>t.
     res_bind (ok_or (MissingRequiredField ''action'') (raw_action r)) (\<lambda>a.
       Inr \<lparr>rule_tool = t, rule_action = a, rule_condition = raw_condition r,
            rule_behavior = raw_behavior r, gate_kind = raw_gate_kind r,
            blast_radius = raw_blast_radius r\<rparr>))"

definition max_anomaly_repeats :: u32 where "max_anomaly_repeats = 10000"
definition max_anomaly_window_s :: u32 where "max_anomaly_window_s = 86400"

definition threshold :: "string \<Rightarrow> u32 option \<Rightarrow> u32 \<Rightarrow> (config_error, u32) result" where
  "threshold fld authored cap = (case authored of None \<Rightarrow> Inl (MissingRequiredField fld)
     | Some v \<Rightarrow> if cap < v then Inl (InvalidThreshold fld ''it is above the cap'')
         else if v = 0 then Inl (InvalidThreshold fld ''zero would trip on the first action and never stop'')
         else Inr v)"

definition anomaly_rule_try_from :: "raw_anomaly_rule \<Rightarrow> (config_error, anomaly_rule) result" where
  "anomaly_rule_try_from r =
     res_bind (ok_or (MissingRequiredField ''pattern'') (raw_pattern r)) (\<lambda>p.
     res_bind (threshold ''threshold_count'' (threshold_count r) max_anomaly_repeats) (\<lambda>n.
     res_bind (threshold ''threshold_window_s'' (threshold_window_s r) max_anomaly_window_s) (\<lambda>w.
       Inr \<lparr>pattern = p, repeats = n, window_s = w\<rparr>)))"

text \<open>Spans are in nanoseconds, as \<open>Duration\<close> holds them.\<close>

definition default_timeout :: int where "default_timeout = 60 * 60 * 1000000000"
definition max_timeout :: int where "max_timeout = 24 * 60 * 60 * 1000000000"

definition clamp_timeout :: "int option \<Rightarrow> int" where
  "clamp_timeout authored = (case authored of None \<Rightarrow> default_timeout
     | Some ms \<Rightarrow> if 0 < ms then min (ms * 1000000) max_timeout else default_timeout)"

definition gate_policy_try_from :: "raw_gates \<Rightarrow> (config_error, gate_policy) result" where
  "gate_policy_try_from g =
     res_bind (traverse gate_rule_try_from (case raw_rules g of None \<Rightarrow> [] | Some rs \<Rightarrow> rs)) (\<lambda>rs.
     res_bind (traverse anomaly_rule_try_from (case raw_anomaly_rules g of None \<Rightarrow> [] | Some as \<Rightarrow> as)) (\<lambda>as.
       Inr \<lparr>rules = rs, anomaly_rules = as, policy_timeout = clamp_timeout (raw_timeout_ms g)\<rparr>))"

section \<open>Which rule fires\<close>

definition wildcard :: string where "wildcard = ''*''"

definition matches_action :: "gate_rule \<Rightarrow> string \<Rightarrow> string \<Rightarrow> bool" where
  "matches_action r tool action \<longleftrightarrow> (rule_tool r = wildcard \<or> rule_tool r = tool)
     \<and> (rule_action r = wildcard \<or> rule_action r = action)"

text \<open>The context's answer for a field: a string, or nothing.\<close>

definition context_field :: "string json option \<Rightarrow> string \<Rightarrow> string option" where
  "context_field ctx f = Option.bind ctx (\<lambda>v. Option.bind (as_object v) (\<lambda>fs.
     Option.bind (map_of fs f) as_string))"

definition fires :: "gate_rule \<Rightarrow> string json option \<Rightarrow> bool" where
  "fires r ctx = (case rule_condition r of None \<Rightarrow> True
     | Some text \<Rightarrow> (case condition_parse text of None \<Rightarrow> True
        | Some c \<Rightarrow> (case context_field ctx (field c) of None \<Rightarrow> True
            | Some actual \<Rightarrow> is_satisfied_by c actual)))"

definition match_rule :: "gate_policy \<Rightarrow> string \<Rightarrow> string \<Rightarrow> string json option \<Rightarrow> gate_rule option" where
  "match_rule p tool action ctx = List.find (\<lambda>r. matches_action r tool action \<and> fires r ctx) (rules p)"

datatype decision = AutoApprove | RequiresApproval | AutoKill

definition decision_of :: "gate_rule option \<Rightarrow> decision" where
  "decision_of matched = (case matched of None \<Rightarrow> AutoApprove
     | Some r \<Rightarrow> (case rule_behavior r of BehaviorApprove \<Rightarrow> RequiresApproval
        | BehaviorAutoKill \<Rightarrow> AutoKill))"

section \<open>Lemmas\<close>

lemma split_once_at_here: "split_once_at sep (sep @ b) = Some ([], b)"
  by (subst split_once_at.simps) simp

lemma split_once_at_later:
  "take (length sep) (y # ys) \<noteq> sep \<Longrightarrow>
     split_once_at sep (y # ys) = map_option (\<lambda>(a, b). (y # a, b)) (split_once_at sep ys)"
  by (subst split_once_at.simps) simp

lemma split_once_at_Nil: "sep \<noteq> [] \<Longrightarrow> split_once_at sep [] = None"
  by (subst split_once_at.simps) auto

text \<open>The operators split at their own occurrence when the field holds neither of their marks.\<close>

lemma op_chars:
  "op_equal = [CHR '' '', CHR ''='', CHR ''='', CHR '' '']"
  "op_not_equal = [CHR '' '', CHR ''!'', CHR ''='', CHR '' '']"
  by (simp_all add: op_equal_def op_not_equal_def)

lemma split_equal:
  "CHR ''='' \<notin> set f \<Longrightarrow> split_once_at op_equal (f @ op_equal @ b) = Some (f, b)"
proof (induction f)
  case Nil
  show ?case using split_once_at_here [of op_equal b] by simp
next
  case (Cons y f)
  then have "take (length op_equal) (y # f @ op_equal @ b) \<noteq> op_equal"
    by (cases f) (auto simp: op_chars)
  from split_once_at_later [OF this] Cons show ?case by simp
qed

lemma split_not_equal:
  "CHR ''!'' \<notin> set f \<Longrightarrow> split_once_at op_not_equal (f @ op_not_equal @ b) = Some (f, b)"
proof (induction f)
  case Nil
  show ?case using split_once_at_here [of op_not_equal b] by simp
next
  case (Cons y f)
  then have "take (length op_not_equal) (y # f @ op_not_equal @ b) \<noteq> op_not_equal"
    by (cases f) (auto simp: op_chars)
  from split_once_at_later [OF this] Cons show ?case by simp
qed

lemma split_equal_absent:
  assumes "\<And>u v. xs \<noteq> u @ [CHR ''='', CHR ''=''] @ v"
  shows "split_once_at op_equal xs = None"
  using assms
proof (induction xs)
  case Nil
  show ?case by (rule split_once_at_Nil) (simp add: op_chars)
next
  case (Cons y ys)
  have "take (length op_equal) (y # ys) \<noteq> op_equal"
  proof
    assume t: "take (length op_equal) (y # ys) = op_equal"
    have "op_equal = [CHR '' ''] @ [CHR ''='', CHR ''=''] @ [CHR '' '']" by (simp add: op_chars)
    with t have "y # ys = [CHR '' ''] @ [CHR ''='', CHR ''=''] @ ([CHR '' ''] @ drop (length op_equal) (y # ys))"
      by (metis append_take_drop_id append.assoc)
    with Cons.prems show False by blast
  qed
  moreover have "split_once_at op_equal ys = None"
  proof (rule Cons.IH)
    fix u v show "ys \<noteq> u @ [CHR ''='', CHR ''=''] @ v"
      using Cons.prems [of "y # u" v] by auto
  qed
  ultimately show ?case by (simp add: split_once_at_later)
qed

lemma trim_quoted [simp]: "trim_spaces (quote_char # v @ [quote_char]) = quote_char # v @ [quote_char]"
  by (simp add: trim_spaces_def quote_char_def)

lemma unquote_quoted [simp]: "unquote (quote_char # v @ [quote_char]) = v"
  by (simp add: unquote_def)

text \<open>Authored order: the rule that matches is the first that could.\<close>

lemma match_rule_Some:
  "match_rule p tool action ctx = Some r \<longleftrightarrow>
     (\<exists>i < length (rules p). rules p ! i = r \<and> matches_action r tool action \<and> fires r ctx
       \<and> (\<forall>j < i. \<not> (matches_action (rules p ! j) tool action \<and> fires (rules p ! j) ctx)))"
  by (auto simp: match_rule_def find_Some_iff)

lemma match_rule_None:
  "match_rule p tool action ctx = None \<longleftrightarrow>
     (\<forall>r \<in> set (rules p). \<not> (matches_action r tool action \<and> fires r ctx))"
  by (auto simp: match_rule_def find_None_iff)

lemma decision_of_simps [simp]:
  "decision_of matched = AutoApprove \<longleftrightarrow> matched = None"
  by (auto simp: decision_of_def split: option.splits behavior.splits)

lemma fires_undecidable:
  assumes "\<And>text c. rule_condition r = Some text \<Longrightarrow> condition_parse text = Some c
      \<Longrightarrow> context_field ctx (field c) = None"
  shows "fires r ctx"
  using assms by (auto simp: fires_def split: option.splits)

lemma clamp_timeout_bounds: "0 < clamp_timeout t \<and> clamp_timeout t \<le> max_timeout"
  by (auto simp: clamp_timeout_def default_timeout_def max_timeout_def split: option.splits)

section \<open>What a policy guarantees\<close>

text \<open>A gate an author wrote cannot be skipped by a body that hides the answer: when a rule names
  the action and the event body does not positively contradict its condition (it is absent, not an
  object, lacks the field, holds a non-string, or the condition does not parse), the action is not
  approved automatically, whatever the other rules are.\<close>

theorem undecidable_condition_gates:
  assumes "r \<in> set (rules p)" "matches_action r tool action"
    "\<And>text c. rule_condition r = Some text \<Longrightarrow> condition_parse text = Some c
      \<Longrightarrow> context_field ctx (field c) = None"
  shows "decision_of (match_rule p tool action ctx) \<noteq> AutoApprove"
  using fires_undecidable [OF assms(3)] assms(1,2) by (auto simp: match_rule_None)

text \<open>A policy that was accepted has proved bounds: every anomaly threshold is between one and its
  cap, the timeout is positive and at most a day, and every rule is the authored rule at its place.\<close>

theorem accepted_policy_is_bounded:
  assumes "gate_policy_try_from g = Inr p"
  shows "(\<forall>a \<in> set (anomaly_rules p). 1 \<le> repeats a \<and> repeats a \<le> max_anomaly_repeats
      \<and> 1 \<le> window_s a \<and> window_s a \<le> max_anomaly_window_s)
    \<and> 0 < policy_timeout p \<and> policy_timeout p \<le> max_timeout
    \<and> map rule_tool (rules p) = map (the \<circ> raw_tool) (case raw_rules g of None \<Rightarrow> [] | Some rs \<Rightarrow> rs)
    \<and> map rule_behavior (rules p) = map raw_behavior (case raw_rules g of None \<Rightarrow> [] | Some rs \<Rightarrow> rs)"
proof -
  let ?raw = "case raw_rules g of None \<Rightarrow> [] | Some rs \<Rightarrow> rs"
  let ?araw = "case raw_anomaly_rules g of None \<Rightarrow> [] | Some as \<Rightarrow> as"
  from assms have rs: "traverse gate_rule_try_from ?raw = Inr (rules p)"
    and as: "traverse anomaly_rule_try_from ?araw = Inr (anomaly_rules p)"
    and t: "policy_timeout p = clamp_timeout (raw_timeout_ms g)"
    by (auto simp: gate_policy_try_from_def result_simps)
  have th: "threshold f v cap = Inr w \<Longrightarrow> 1 \<le> w \<and> w \<le> cap" for f v cap w
    by (auto simp: threshold_def not_less word_le_nat_alt Suc_le_eq unat_gt_0 split: option.splits if_splits)
  have "1 \<le> repeats a \<and> repeats a \<le> max_anomaly_repeats \<and> 1 \<le> window_s a \<and> window_s a \<le> max_anomaly_window_s"
    if "a \<in> set (anomaly_rules p)" for a
  proof -
    from as have "map anomaly_rule_try_from ?araw = map Inr (anomaly_rules p)" by (simp add: traverse_Inr)
    then have "Inr ` set (anomaly_rules p) = anomaly_rule_try_from ` set ?araw"
      by (metis list.set_map)
    with that obtain r where "anomaly_rule_try_from r = Inr a" by (metis imageE imageI)
    then show ?thesis by (auto simp: anomaly_rule_try_from_def result_simps dest: th)
  qed
  moreover have "map rule_tool ys = map (the \<circ> raw_tool) xs \<and> map rule_behavior ys = map raw_behavior xs"
    if "traverse gate_rule_try_from xs = Inr ys" for xs ys
    using that by (induction xs arbitrary: ys) (auto simp: result_simps gate_rule_try_from_def)
  ultimately show ?thesis using rs clamp_timeout_bounds t by auto
qed

text \<open>A condition reads back as it was written: for a trimmed field free of operator marks, the
  quoted form of an equality parses to that field and exactly that value, whatever the value holds,
  and so does an inequality whose text holds no doubled equals sign.\<close>

theorem written_condition_reads_back:
  assumes "trim_spaces f = f" "CHR ''='' \<notin> set f" "CHR ''!'' \<notin> set f"
  shows "condition_parse (f @ op_equal @ quote_char # v @ [quote_char])
      = Some \<lparr>field = f, cond_value = v, negate = False\<rparr>
    \<and> (CHR ''='' \<notin> set v \<longrightarrow> condition_parse (f @ op_not_equal @ quote_char # v @ [quote_char])
      = Some \<lparr>field = f, cond_value = v, negate = True\<rparr>)"
proof -
  have no: "split_once_at op_equal (f @ op_not_equal @ quote_char # v @ [quote_char]) = None"
    if v: "CHR ''='' \<notin> set v"
  proof (rule split_equal_absent)
    fix u w show "f @ op_not_equal @ quote_char # v @ [quote_char] \<noteq> u @ [CHR ''='', CHR ''=''] @ w"
    proof
      assume e: "f @ op_not_equal @ quote_char # v @ [quote_char] = u @ [CHR ''='', CHR ''=''] @ w"
      have "length (filter ((=) CHR ''='') (f @ op_not_equal @ quote_char # v @ [quote_char])) = 1"
        using assms(2) v by (auto simp: op_chars quote_char_def filter_empty_conv)
      moreover have "2 \<le> length (filter ((=) CHR ''='') (u @ [CHR ''='', CHR ''=''] @ w))" by simp
      ultimately show False using e by simp
    qed
  qed
  show ?thesis
    using split_equal [OF assms(2), of "quote_char # v @ [quote_char]"]
      split_not_equal [OF assms(3), of "quote_char # v @ [quote_char]"] no assms(1)
    by (simp add: condition_parse_def cond_split_def)
qed

end
