(* ===== verification/Cards.thy ===== *)
theory Cards
  imports GatePolicy
begin

text \<open>
  The two halves of an approval card: what the daemon and the workspace state
  (\<open>afd_gate/src/gate/detail.rs\<close>) and what a model claims (\<open>gate/claim.rs\<close>).  Model prose is a
  list of Unicode scalar values, because the sanitizer works on characters while the caps count
  UTF-8 bytes.  Rendering a JSON value back to text is the serializer's, an argument here.
\<close>

section \<open>Characters\<close>

type_synonym uchar = nat
type_synonym utext = "uchar list"

definition utf8_len :: "uchar \<Rightarrow> nat" where
  "utf8_len c = (if c < 0x80 then 1 else if c < 0x800 then 2 else if c < 0x10000 then 3 else 4)"

definition byte_len :: "utext \<Rightarrow> nat" where
  "byte_len t = sum_list (map utf8_len t)"

text \<open>ASCII text as scalar values.\<close>

definition ascii :: "string \<Rightarrow> utext" where "ascii = map of_char"

text \<open>\<open>char::is_control\<close>: general category Cc.\<close>

definition is_control :: "uchar \<Rightarrow> bool" where
  "is_control c \<longleftrightarrow> c < 0x20 \<or> (0x7F \<le> c \<and> c \<le> 0x9F)"

definition is_forgeable :: "uchar \<Rightarrow> bool" where
  "is_forgeable c \<longleftrightarrow> is_control c \<or> (0x202A \<le> c \<and> c \<le> 0x202E) \<or> (0x2066 \<le> c \<and> c \<le> 0x2069)"

section \<open>The model's half\<close>

definition max_proposed_action_bytes :: nat where "max_proposed_action_bytes = 512"
definition max_evidence_bytes :: nat where "max_evidence_bytes = 1024"
definition no_evidence :: utext where "no_evidence = ascii ''{}''"
definition replacement :: uchar where "replacement = of_char CHR '' ''"
definition field_proposed_action :: utext where "field_proposed_action = ascii ''proposed_action''"
definition field_evidence :: utext where "field_evidence = ascii ''evidence''"
definition field_message :: utext where "field_message = ascii ''message''"

text \<open>\<open>split_at(floor_char_boundary(cap))\<close>: the longest prefix of whole characters within the cap.\<close>

fun bounded :: "utext \<Rightarrow> nat \<Rightarrow> utext" where
  "bounded [] cap = []"
| "bounded (c # cs) cap = (if utf8_len c \<le> cap then c # bounded cs (cap - utf8_len c) else [])"

definition card_safe :: "utext \<Rightarrow> utext" where
  "card_safe = map (\<lambda>c. if is_forgeable c then replacement else c)"

definition evidence_of :: "(utext json \<Rightarrow> utext option) \<Rightarrow> utext json \<Rightarrow> utext option" where
  "evidence_of render offered = (case render offered of None \<Rightarrow> None
     | Some j \<Rightarrow> if byte_len j \<le> max_evidence_bytes then Some j else None)"

record claim_text =
  proposed_action :: utext
  evidence :: utext

definition claim_prose :: "utext json option \<Rightarrow> utext" where
  "claim_prose ctx = (case Option.bind (Option.bind ctx as_object) (\<lambda>body.
       case map_of body field_proposed_action of Some v \<Rightarrow> Some v
       | None \<Rightarrow> map_of body field_message) of
     None \<Rightarrow> [] | Some v \<Rightarrow> (case as_string v of None \<Rightarrow> [] | Some t \<Rightarrow> t))"

definition claim_of :: "(utext json \<Rightarrow> utext option) \<Rightarrow> utext json option \<Rightarrow> claim_text" where
  "claim_of render ctx = \<lparr>
     proposed_action = card_safe (bounded (claim_prose ctx) max_proposed_action_bytes),
     evidence = (case Option.bind (Option.bind (Option.bind ctx as_object)
         (\<lambda>body. map_of body field_evidence)) (evidence_of render) of
       None \<Rightarrow> no_evidence | Some j \<Rightarrow> j) \<rparr>"

section \<open>The daemon's half\<close>

record 'b stated =
  st_tool :: string
  st_action :: string
  st_summary :: string
  st_kind :: string
  st_radius :: string
  st_binding :: "'b option"
  st_timeout :: int

definition stated_of :: "string \<Rightarrow> string \<Rightarrow> string \<Rightarrow> 'b option \<Rightarrow> int \<Rightarrow> 'b stated" where
  "stated_of tool action summary binding timeout = \<lparr>st_tool = tool, st_action = action,
     st_summary = summary, st_kind = [], st_radius = [], st_binding = binding, st_timeout = timeout\<rparr>"

definition stated_under :: "'b stated \<Rightarrow> gate_rule \<Rightarrow> 'b stated" where
  "stated_under s r = s\<lparr>st_kind := gate_kind r, st_radius := blast_radius r\<rparr>"

section \<open>Lemmas\<close>

lemma utf8_len_pos [simp]: "0 < utf8_len c"
  by (simp add: utf8_len_def)

lemma replacement_safe [simp]: "\<not> is_forgeable replacement" "utf8_len replacement = 1"
  by (simp_all add: is_forgeable_def is_control_def replacement_def utf8_len_def)

lemma bounded_bytes: "byte_len (bounded t cap) \<le> cap"
  by (induction t cap rule: bounded.induct) (auto simp: byte_len_def)

lemma bounded_prefix: "\<exists>rest. t = bounded t cap @ rest"
  by (induction t cap rule: bounded.induct) auto

lemma bounded_whole: "byte_len t \<le> cap \<Longrightarrow> bounded t cap = t"
  by (induction t cap rule: bounded.induct) (auto simp: byte_len_def)

text \<open>Cutting earlier than the cap would need a next character that does not fit.\<close>

lemma bounded_longest:
  "bounded t cap \<noteq> t \<Longrightarrow> \<exists>c rest. t = bounded t cap @ c # rest \<and> cap < byte_len (bounded t cap) + utf8_len c"
proof (induction t cap rule: bounded.induct)
  case (2 c cs cap)
  then show ?case by (cases "utf8_len c \<le> cap") (auto simp: byte_len_def)
qed simp

lemma card_safe_bytes: "byte_len (card_safe t) \<le> byte_len t"
proof (induction t)
  case (Cons c t)
  have "utf8_len (if is_forgeable c then replacement else c) \<le> utf8_len c"
    using utf8_len_pos [of c] by (simp add: Suc_le_eq)
  with Cons show ?case by (simp add: card_safe_def byte_len_def)
qed (simp add: card_safe_def byte_len_def)

lemma card_safe_clean: "\<forall>c \<in> set (card_safe t). \<not> is_forgeable c"
  by (auto simp: card_safe_def)

lemma card_safe_id: "\<forall>c \<in> set t. \<not> is_forgeable c \<Longrightarrow> card_safe t = t"
  by (simp add: card_safe_def map_idI)

section \<open>What a card guarantees\<close>

text \<open>A model's half of a card cannot imitate the daemon's: whatever the event body is, the
  proposed action holds no line break, control or reordering character and at most 512 bytes, the
  evidence is the serializer's own text within its cap or the empty object, prose that is
  already safe and short survives unchanged, and longer prose is cut at the last character that fits.\<close>

theorem claim_is_card_safe:
  "(\<forall>c \<in> set (proposed_action (claim_of render ctx)). \<not> is_forgeable c)
    \<and> byte_len (proposed_action (claim_of render ctx)) \<le> max_proposed_action_bytes
    \<and> byte_len (evidence (claim_of render ctx)) \<le> max_evidence_bytes
    \<and> (evidence (claim_of render ctx) = no_evidence \<or> (\<exists>v. render v = Some (evidence (claim_of render ctx))))
    \<and> (byte_len (claim_prose ctx) \<le> max_proposed_action_bytes \<and> (\<forall>c \<in> set (claim_prose ctx). \<not> is_forgeable c)
        \<longrightarrow> proposed_action (claim_of render ctx) = claim_prose ctx)
    \<and> (max_proposed_action_bytes < byte_len (claim_prose ctx) \<longrightarrow> (\<exists>kept c rest. claim_prose ctx = kept @ c # rest
        \<and> proposed_action (claim_of render ctx) = card_safe kept
        \<and> max_proposed_action_bytes < byte_len kept + utf8_len c))"
proof -
  let ?t = "claim_prose ctx" and ?m = max_proposed_action_bytes
  have a: "proposed_action (claim_of render ctx) = card_safe (bounded ?t ?m)"
    by (simp add: claim_of_def)
  have e: "evidence (claim_of render ctx) = no_evidence
      \<or> (\<exists>v. render v = Some (evidence (claim_of render ctx)) \<and> byte_len (evidence (claim_of render ctx)) \<le> max_evidence_bytes)"
    by (auto simp: claim_of_def evidence_of_def bind_eq_Some_conv split: option.splits if_splits)
  have "byte_len no_evidence \<le> max_evidence_bytes"
    by (simp add: no_evidence_def ascii_def byte_len_def utf8_len_def max_evidence_bytes_def)
  moreover have "byte_len (card_safe (bounded ?t ?m)) \<le> ?m"
    using card_safe_bytes bounded_bytes order_trans by blast
  moreover have "\<exists>kept c rest. ?t = kept @ c # rest \<and> card_safe (bounded ?t ?m) = card_safe kept
      \<and> ?m < byte_len kept + utf8_len c" if "?m < byte_len ?t"
  proof -
    have "bounded ?t ?m \<noteq> ?t" using bounded_bytes [of ?t ?m] that by auto
    from bounded_longest [OF this] show ?thesis by blast
  qed
  ultimately show ?thesis
    using e by (auto simp: a card_safe_clean bounded_whole card_safe_id)
qed

end
