(* ===== verification/Ids.thy ===== *)
theory Ids
  imports Prelude
begin

text \<open>
  Canonical entity identifiers, \<open>afd_core/src/id.rs\<close>: 36 bytes of lowercase
  dashed hex, version nibble 7, RFC 4122 variant.  The parser never folds case,
  so an accepted identifier is its own text and one entity has one spelling.
\<close>

datatype id_violation = WrongLength | Misplaced | WrongVersion | WrongVariant

definition text_len :: nat where "text_len = 36"
definition dash_offsets :: "nat list" where "dash_offsets = [8, 13, 18, 23]"
definition version_offset :: nat where "version_offset = 14"
definition variant_offset :: nat where "variant_offset = 19"

definition lower_hex_digit :: "char \<Rightarrow> bool" where
  "lower_hex_digit c \<longleftrightarrow> (CHR ''0'' \<le> c \<and> c \<le> CHR ''9'') \<or> (CHR ''a'' \<le> c \<and> c \<le> CHR ''f'')"

definition offset_broken :: "nat \<times> char \<Rightarrow> bool" where
  "offset_broken ob = (case ob of (offset, byte) \<Rightarrow>
     if offset \<in> set dash_offsets then byte \<noteq> CHR ''-'' else \<not> lower_hex_digit byte)"

definition first_violation :: "string \<Rightarrow> id_violation option" where
  "first_violation text =
     (if length text \<noteq> text_len then Some WrongLength
      else if list_ex offset_broken (enumerate 0 text) then Some Misplaced
      else if text ! version_offset \<noteq> CHR ''7'' then Some WrongVersion
      else if text ! variant_offset \<in> set ''89ab'' then None
      else Some WrongVariant)"

text \<open>\<open>Uuid7(Box<str>)\<close> holds the text it was parsed from.\<close>

datatype uuid7 = Uuid7 (as_str: string)

definition uuid7_parse :: "string \<Rightarrow> (id_violation, uuid7) result" where
  "uuid7_parse text = (case first_violation text of
     Some reason \<Rightarrow> Inl reason | None \<Rightarrow> Inr (Uuid7 text))"

instantiation uuid7 :: linorder
begin
definition less_eq_uuid7 :: "uuid7 \<Rightarrow> uuid7 \<Rightarrow> bool" where
  "less_eq_uuid7 a b \<longleftrightarrow> as_str a \<le> as_str b"
definition less_uuid7 :: "uuid7 \<Rightarrow> uuid7 \<Rightarrow> bool" where
  "less_uuid7 a b \<longleftrightarrow> as_str a < as_str b"
instance
  by standard (auto simp: less_eq_uuid7_def less_uuid7_def uuid7.expand)
end

lemma uuid7_parse_Inr: "uuid7_parse t = Inr u \<longleftrightarrow> first_violation t = None \<and> u = Uuid7 t"
  by (auto simp: uuid7_parse_def split: option.splits)

lemma uuid7_parse_as_str: "uuid7_parse t = Inr u \<Longrightarrow> as_str u = t"
  by (simp add: uuid7_parse_Inr)

lemma list_ex_enumerate:
  "list_ex P (enumerate k xs) \<longleftrightarrow> (\<exists>i < length xs. P (k + i, xs ! i))"
proof (induction xs arbitrary: k)
  case Nil
  show ?case by simp
next
  case (Cons x xs)
  show ?case
    by (auto simp: Cons.IH less_Suc_eq_0_disj)
qed

lemma first_violation_None:
  "first_violation t = None \<longleftrightarrow>
     length t = 36 \<and> (\<forall>i < 36. \<not> offset_broken (i, t ! i)) \<and> t ! 14 = CHR ''7''
     \<and> t ! 19 \<in> set ''89ab''"
  by (auto simp: first_violation_def list_ex_enumerate text_len_def version_offset_def
      variant_offset_def)

text \<open>No accepted byte is an uppercase letter: the spelling is canonical.\<close>

lemma canonical_byte:
  assumes "first_violation t = None" "c \<in> set t"
  shows "lower_hex_digit c \<or> c = CHR ''-''"
proof -
  from assms(2) obtain i where i: "i < length t" "t ! i = c" by (auto simp: in_set_conv_nth)
  with assms(1) have "\<not> offset_broken (i, c)" by (auto simp: first_violation_None)
  then show ?thesis by (auto simp: offset_broken_def split: if_splits)
qed

lemma canonical_no_separator:
  "first_violation t = None \<Longrightarrow> CHR ''|'' \<notin> set t"
  using canonical_byte [of t "CHR ''|''"] by (auto simp: lower_hex_digit_def less_eq_char_def)

end
