(* ===== verification/Gates.thy ===== *)
theory Gates
  imports Cards Ids
begin

text \<open>
  The approval gate pass of \<open>afd_gate/src/gate/\<close>: the recorded-gate lookup and its two stores
  (\<open>store/mod.rs\<close>, \<open>pending.rs\<close>, \<open>decision.rs\<close>), the runaway brake (\<open>anomaly.rs\<close> over
  \<open>afd_dragonfly/src/kv.rs\<close>), raising a card (\<open>park.rs\<close>) and the order they compose in
  (\<open>route.rs\<close>, \<open>pass.rs\<close>, \<open>first.rs\<close>).  Which statement or command is answered is a predicate
  of the environment, so every fault path is a branch; the serializer's readings and the entropy
  source's draws are fields of the environment too.  Log lines and the live-tail frame are left out.
\<close>

section \<open>Vocabularies\<close>

datatype answer = Approved | Denied

fun answer_as_str :: "answer \<Rightarrow> string" where
  "answer_as_str Approved = ''approve''"
| "answer_as_str Denied = ''deny''"

definition answer_parse :: "string \<Rightarrow> answer option" where
  "answer_parse stored = (if stored = ''approve'' then Some Approved
     else if stored = ''deny'' then Some Denied else None)"

datatype gate_status = StPending | StApproved | StDenied | StTimedOut | StAutoKilled

fun status_as_str :: "gate_status \<Rightarrow> string" where
  "status_as_str StPending = ''pending''"
| "status_as_str StApproved = ''approved''"
| "status_as_str StDenied = ''denied''"
| "status_as_str StTimedOut = ''timed_out''"
| "status_as_str StAutoKilled = ''auto_killed''"

definition status_parse :: "string \<Rightarrow> gate_status option" where
  "status_parse s = List.find (\<lambda>st. status_as_str st = s) [StPending, StApproved, StDenied, StTimedOut, StAutoKilled]"

fun answer_of_status :: "gate_status \<Rightarrow> answer option" where
  "answer_of_status StPending = None"
| "answer_of_status StApproved = Some Approved"
| "answer_of_status StDenied = Some Denied"
| "answer_of_status StTimedOut = Some Denied"
| "answer_of_status StAutoKilled = Some Denied"

datatype evaluation = EvApproved | EvDenied | EvPending | EvExpired

fun evaluate :: "answer option \<Rightarrow> bool \<Rightarrow> evaluation" where
  "evaluate (Some Approved) lapsed = EvApproved"
| "evaluate (Some Denied) lapsed = EvDenied"
| "evaluate None lapsed = (if lapsed then EvExpired else EvPending)"

datatype ref_state = RefFound | RefAbsent | RefUnreadable
datatype route = EvaluateRecorded | RoutePass | RouteKill | RequestNew | RouteWait

fun route_of :: "ref_state \<Rightarrow> decision option \<Rightarrow> route" where
  "route_of RefFound d = EvaluateRecorded"
| "route_of RefAbsent None = RoutePass"
| "route_of RefUnreadable None = RoutePass"
| "route_of RefAbsent (Some AutoApprove) = RoutePass"
| "route_of RefUnreadable (Some AutoApprove) = RoutePass"
| "route_of RefAbsent (Some AutoKill) = RouteKill"
| "route_of RefUnreadable (Some AutoKill) = RouteKill"
| "route_of RefUnreadable (Some RequiresApproval) = RouteWait"
| "route_of RefAbsent (Some RequiresApproval) = RequestNew"

datatype waiting = Parked | Pending | Unreadable
datatype refused = RefusedDenied | RefusedExpired
datatype trigger = Anomaly | Policy
datatype verdict = Pass | Await waiting | Refuse refused | Killed trigger | Unavailable

section \<open>The two stores\<close>

record gate_row =
  g_id :: uuid7
  g_fleet_id :: string
  g_workspace_id :: string
  g_action_id :: string
  g_tool_name :: string
  g_action_name :: string
  g_gate_type :: string
  g_proposed_action :: utext
  g_evidence :: utext
  g_blast_radius :: string
  g_expires_at :: instant
  g_status :: string
  g_created_at :: instant
  g_event_id :: string
  g_stated_binding :: "string option"

text \<open>A cached value or a counter with the instant its key expires at.\<close>

record gate_store =
  cached :: "string \<rightharpoonup> string \<times> instant"
  counters :: "string \<rightharpoonup> int \<times> instant"
  gate_rows :: "gate_row list"
  fleet_status :: "string \<rightharpoonup> string"

datatype gate_op = GetReference | SelectEventGate | GetResponse | SelectStatus | Increment nat
  | InsertGate | SetReference | PauseFleet

datatype gate_fault = GateQueue | GateQuery | GateIdentity | GateUnwritable

record 'b gate_env =
  answers :: "gate_op \<Rightarrow> bool"
  mint_action :: "uuid7 option"
  mint_gate :: "uuid7 option"
  db_clock :: instant
  queue_clock :: instant
  decode_ref :: "string \<Rightarrow> uuid7 option"
  encode_ref :: "uuid7 \<Rightarrow> string option"
  parse_context :: "string \<Rightarrow> string json option"
  parse_prose :: "string \<Rightarrow> utext json option"
  render_json :: "utext json \<Rightarrow> utext option"
  encode_binding :: "'b \<Rightarrow> string option"

definition event_ref_key :: "string \<Rightarrow> string \<Rightarrow> string" where
  "event_ref_key fleet event = ''fleet:gate:byevent:'' @ fleet @ '':'' @ event"

definition response_key :: "string \<Rightarrow> string" where
  "response_key action = ''fleet:gate:response:'' @ action"

definition anomaly_key :: "string \<Rightarrow> string \<Rightarrow> string \<Rightarrow> string" where
  "anomaly_key fleet tool action = ''fleet:anomaly:'' @ fleet @ '':'' @ tool @ '':'' @ action"

definition ref_grace :: int where "ref_grace = 10 * 60 * 1000000000"
definition ref_minimum :: int where "ref_minimum = 2 * 60 * 60 * 1000000000"

text \<open>In whole seconds, as the expiry argument takes them.\<close>

definition reference_lifetime :: "int \<Rightarrow> int" where
  "reference_lifetime timeout = (let secs = max (timeout + ref_grace) ref_minimum div 1000000000 in
     case try_i64 secs of Some s \<Rightarrow> s | None \<Rightarrow> i64_max)"

definition get_string :: "'b gate_env \<Rightarrow> gate_op \<Rightarrow> string \<Rightarrow> gate_store \<Rightarrow> (gate_fault, string option) result" where
  "get_string env op k st = (if \<not> answers env op then Inl GateQueue
     else Inr (case cached st k of None \<Rightarrow> None
       | Some (v, until) \<Rightarrow> if queue_clock env < until then Some v else None))"

definition set_for :: "'b gate_env \<Rightarrow> gate_op \<Rightarrow> string \<Rightarrow> string \<Rightarrow> int \<Rightarrow> gate_store
    \<Rightarrow> (gate_fault, gate_store) result" where
  "set_for env op k v ttl st = (if \<not> answers env op then Inl GateQueue
     else Inr (st\<lparr>cached := (cached st)(k \<mapsto> (v, queue_clock env + ttl * 1000000000))\<rparr>))"

text \<open>\<open>ORDER BY created_at DESC, id DESC LIMIT 1\<close>.\<close>

definition newest_gate :: "(gate_row \<Rightarrow> bool) \<Rightarrow> gate_store \<Rightarrow> gate_row option" where
  "newest_gate p st = max_by_key (\<lambda>r. (g_created_at r, g_id r)) (filter p (gate_rows st))"

definition recorded :: "'b gate_env \<Rightarrow> uuid7 \<Rightarrow> string \<Rightarrow> gate_store \<Rightarrow> (gate_fault, uuid7 option) result" where
  "recorded env fleet event st =
     res_bind (get_string env GetReference (event_ref_key (as_str fleet) event) st) (\<lambda>stored.
       case Option.bind stored (decode_ref env) of Some r \<Rightarrow> Inr (Some r)
       | None \<Rightarrow> if \<not> answers env SelectEventGate then Inl GateQuery
           else (case newest_gate (\<lambda>r. g_fleet_id r = as_str fleet \<and> g_event_id r = event) st of
               None \<Rightarrow> Inr None
             | Some row \<Rightarrow> (case uuid7_parse (g_action_id row) of
                   Inl _ \<Rightarrow> Inl GateIdentity | Inr i \<Rightarrow> Inr (Some i))))"

definition record_ref :: "'b gate_env \<Rightarrow> uuid7 \<Rightarrow> string \<Rightarrow> uuid7 \<Rightarrow> int \<Rightarrow> gate_store
    \<Rightarrow> (gate_fault, gate_store) result" where
  "record_ref env fleet event reference timeout st =
     res_bind (ok_or GateUnwritable (encode_ref env reference)) (\<lambda>text.
       set_for env SetReference (event_ref_key (as_str fleet) event) text (reference_lifetime timeout) st)"

definition standing_of :: "'b gate_env \<Rightarrow> string \<Rightarrow> gate_store
    \<Rightarrow> (gate_fault, (gate_status option \<times> bool) option) result" where
  "standing_of env action st = (if \<not> answers env SelectStatus then Inl GateQuery
     else Inr (map_option (\<lambda>r. (status_parse (g_status r), g_expires_at r \<le> db_clock env))
       (newest_gate (\<lambda>r. g_action_id r = action) st)))"

definition evaluate_ref :: "'b gate_env \<Rightarrow> uuid7 \<Rightarrow> gate_store \<Rightarrow> (gate_fault, evaluation) result" where
  "evaluate_ref env reference st =
     res_bind (get_string env GetResponse (response_key (as_str reference)) st) (\<lambda>mirrored.
       case Option.bind mirrored answer_parse of Some a \<Rightarrow> Inr (evaluate (Some a) False)
       | None \<Rightarrow> res_bind (standing_of env (as_str reference) st) (\<lambda>standing.
           case standing of None \<Rightarrow> Inr EvPending
           | Some (status, lapsed) \<Rightarrow> Inr (evaluate (Option.bind status answer_of_status) lapsed)))"

section \<open>The runaway brake\<close>

text \<open>\<open>INCR\<close>, and \<open>EXPIRE\<close> only on the first increment.\<close>

definition increment_in_window :: "instant \<Rightarrow> string \<Rightarrow> u32 \<Rightarrow> gate_store \<Rightarrow> int \<times> gate_store" where
  "increment_in_window now k window st = (let (n, until) = (case counters st k of
         None \<Rightarrow> (1, now + uint window * 1000000000)
       | Some (n, until) \<Rightarrow> if now < until then (n + 1, until) else (1, now + uint window * 1000000000))
     in (n, st\<lparr>counters := (counters st)(k \<mapsto> (n, until))\<rparr>))"

datatype anomaly = Normal | AnomalyKill

fun count_rules :: "'b gate_env \<Rightarrow> string \<Rightarrow> nat \<Rightarrow> anomaly_rule list \<Rightarrow> gate_store \<Rightarrow> anomaly \<times> gate_store" where
  "count_rules env k i [] st = (Normal, st)"
| "count_rules env k i (r # rs) st =
     (if \<not> answers env (Increment i) then (Normal, st)
      else let (n, st') = increment_in_window (queue_clock env) k (window_s r) st in
        if uint (repeats r) \<le> n then (AnomalyKill, st') else count_rules env k (Suc i) rs st')"

definition anomaly_of :: "'b gate_env \<Rightarrow> uuid7 \<Rightarrow> string \<Rightarrow> string \<Rightarrow> anomaly_rule list \<Rightarrow> gate_store
    \<Rightarrow> anomaly \<times> gate_store" where
  "anomaly_of env fleet tool action rs st =
     count_rules env (anomaly_key (as_str fleet) tool action) 0 rs st"

section \<open>Raising a card\<close>

record 'b check_request =
  c_fleet_id :: uuid7
  c_workspace_id :: uuid7
  c_event_id :: string
  c_event_type :: string
  c_actor :: string
  c_request_json :: string
  c_gates :: "gate_policy option"
  c_binding :: "'b option"

text \<open>A rule's timeout as the deadline column holds it, in whole milliseconds.\<close>

definition gate_timeout :: "int \<Rightarrow> int" where
  "gate_timeout span = (span div 1000000) * 1000000"

definition pending_row :: "'b gate_env \<Rightarrow> uuid7 \<Rightarrow> 'b check_request \<Rightarrow> 'b stated \<Rightarrow> claim_text \<Rightarrow> uuid7
    \<Rightarrow> string option \<Rightarrow> gate_row" where
  "pending_row env gid req s c reference binding = \<lparr>g_id = gid, g_fleet_id = as_str (c_fleet_id req),
     g_workspace_id = as_str (c_workspace_id req), g_action_id = as_str reference,
     g_tool_name = st_tool s, g_action_name = st_action s, g_gate_type = st_kind s,
     g_proposed_action = proposed_action c, g_evidence = evidence c, g_blast_radius = st_radius s,
     g_expires_at = db_clock env + gate_timeout (st_timeout s), g_status = status_as_str StPending,
     g_created_at = db_clock env, g_event_id = c_event_id req, g_stated_binding = binding\<rparr>"

definition record_row :: "'b gate_env \<Rightarrow> 'b check_request \<Rightarrow> 'b stated \<Rightarrow> claim_text \<Rightarrow> uuid7 \<Rightarrow> gate_store
    \<Rightarrow> (gate_fault, gate_store) result" where
  "record_row env req s c reference st =
     res_bind (ok_or GateIdentity (mint_gate env)) (\<lambda>gid.
     res_bind (case st_binding s of None \<Rightarrow> Inr None
               | Some b \<Rightarrow> res_bind (ok_or GateUnwritable (encode_binding env b)) (\<lambda>t. Inr (Some t))) (\<lambda>binding.
       if \<not> answers env InsertGate then Inl GateQuery
       else Inr (st\<lparr>gate_rows := gate_rows st @ [pending_row env gid req s c reference binding]\<rparr>)))"

datatype parked = Awaiting uuid7 | ParkUnavailable

definition park :: "'b gate_env \<Rightarrow> 'b check_request \<Rightarrow> 'b stated \<Rightarrow> claim_text \<Rightarrow> gate_store \<Rightarrow> parked \<times> gate_store" where
  "park env req s c st = (case mint_action env of None \<Rightarrow> (ParkUnavailable, st)
     | Some reference \<Rightarrow> (case record_row env req s c reference st of
           Inl _ \<Rightarrow> (ParkUnavailable, st)
         | Inr st1 \<Rightarrow> (case record_ref env (c_fleet_id req) (c_event_id req) reference (st_timeout s) st1 of
             Inl _ \<Rightarrow> (ParkUnavailable, st1)
           | Inr st2 \<Rightarrow> (Awaiting reference, st2))))"

section \<open>The pass\<close>

definition pause_fleet :: "'b gate_env \<Rightarrow> uuid7 \<Rightarrow> gate_store \<Rightarrow> gate_store" where
  "pause_fleet env fleet st = (if answers env PauseFleet \<and> fleet_status st (as_str fleet) \<noteq> None
     then st\<lparr>fleet_status := (fleet_status st)(as_str fleet \<mapsto> ''paused'')\<rparr> else st)"

text \<open>\<open>stop\<close>: a failed pause does not change the verdict.\<close>

definition stop_fleet :: "'b gate_env \<Rightarrow> 'b check_request \<Rightarrow> trigger \<Rightarrow> gate_store \<Rightarrow> verdict \<times> gate_store" where
  "stop_fleet env req t st = (Killed t, pause_fleet env (c_fleet_id req) st)"

definition raise_card :: "'b gate_env \<Rightarrow> 'b check_request \<Rightarrow> 'b stated \<Rightarrow> gate_store \<Rightarrow> verdict \<times> gate_store" where
  "raise_card env req s st =
     (case park env req s (claim_of (render_json env) (parse_prose env (c_request_json req))) st of
        (Awaiting _, st') \<Rightarrow> (Await Parked, st') | (ParkUnavailable, st') \<Rightarrow> (Unavailable, st'))"

definition judge_first_encounter :: "'b gate_env \<Rightarrow> 'b check_request \<Rightarrow> ref_state \<Rightarrow> gate_store
    \<Rightarrow> verdict \<times> gate_store" where
  "judge_first_encounter env req state st = (case c_gates req of None \<Rightarrow> (Pass, st)
     | Some policy \<Rightarrow>
       let (tripped, st1) = anomaly_of env (c_fleet_id req) (c_event_type req) (c_actor req) (anomaly_rules policy) st
       in if tripped = AnomalyKill then stop_fleet env req Anomaly st1
          else let matched = match_rule policy (c_event_type req) (c_actor req)
                     (parse_context env (c_request_json req))
            in (case route_of state (Some (decision_of matched)) of
                  RoutePass \<Rightarrow> (Pass, st1)
                | RouteKill \<Rightarrow> stop_fleet env req Policy st1
                | RouteWait \<Rightarrow> (Await Unreadable, st1)
                | RequestNew \<Rightarrow>
                    let s = stated_of (c_event_type req) (c_actor req) (c_event_id req) (c_binding req)
                              (policy_timeout policy)
                    in raise_card env req (case matched of None \<Rightarrow> s | Some r \<Rightarrow> stated_under s r) st1
                | EvaluateRecorded \<Rightarrow> (Await Unreadable, st1)))"

definition resolve_recorded :: "'b gate_env \<Rightarrow> uuid7 \<Rightarrow> gate_store \<Rightarrow> verdict" where
  "resolve_recorded env reference st = (case evaluate_ref env reference st of
       Inr EvApproved \<Rightarrow> Pass
     | Inr EvDenied \<Rightarrow> Refuse RefusedDenied
     | Inr EvExpired \<Rightarrow> Refuse RefusedExpired
     | Inr EvPending \<Rightarrow> Await Pending
     | Inl _ \<Rightarrow> Await Unreadable)"

definition check :: "'b gate_env \<Rightarrow> 'b check_request \<Rightarrow> gate_store \<Rightarrow> verdict \<times> gate_store" where
  "check env req st = (case recorded env (c_fleet_id req) (c_event_id req) st of
       Inr (Some reference) \<Rightarrow> (resolve_recorded env reference st, st)
     | Inr None \<Rightarrow> judge_first_encounter env req RefAbsent st
     | Inl _ \<Rightarrow> judge_first_encounter env req RefUnreadable st)"

section \<open>Keys and rows\<close>

lemma reference_key_is_not_a_response [simp]:
  "response_key a \<noteq> event_ref_key f e" "event_ref_key f e \<noteq> response_key a"
  by (simp_all add: response_key_def event_ref_key_def)

lemma status_parse_as_str [simp]: "status_parse (status_as_str s) = Some s"
  by (cases s) (simp_all add: status_parse_def)

lemma get_string_Inr:
  "get_string env op k st = Inr v \<longleftrightarrow> answers env op
     \<and> v = (case cached st k of None \<Rightarrow> None | Some (t, until) \<Rightarrow> if queue_clock env < until then Some t else None)"
  by (auto simp: get_string_def)

lemma newest_gate_None: "newest_gate p st = None \<longleftrightarrow> (\<forall>r \<in> set (gate_rows st). \<not> p r)"
  by (auto simp: newest_gate_def max_by_key_None filter_empty_conv)

lemma newest_gate_unique:
  assumes "filter p (gate_rows st) = [r]"
  shows "newest_gate p st = Some r"
  using assms by (simp add: newest_gate_def max_by_key_def)

text \<open>A gate the lookup calls absent has no row either: the durable half was read and is empty.\<close>

lemma recorded_absent:
  "recorded env fleet event st = Inr None \<Longrightarrow>
     \<forall>r \<in> set (gate_rows st). \<not> (g_fleet_id r = as_str fleet \<and> g_event_id r = event)"
  by (auto simp: recorded_def result_simps newest_gate_None split: sum.splits option.splits if_splits)

text \<open>What an answer rests on: the mirrored word, or the newest row of the action.\<close>

lemma evaluate_ref_decided:
  assumes "evaluate_ref env i st = Inr (evaluate (Some a) lapsed)"
  shows "get_string env GetResponse (response_key (as_str i)) st = Inr (Some (answer_as_str a))
    \<or> (\<exists>row s. newest_gate (\<lambda>r. g_action_id r = as_str i) st = Some row
         \<and> status_parse (g_status row) = Some s \<and> answer_of_status s = Some a)"
  using assms
  by (cases a) (auto simp: evaluate_ref_def result_simps standing_of_def answer_parse_def bind_eq_Some_conv
      split: sum.splits option.splits if_splits elim!: evaluate.elims)

lemma judge_first_encounter_unasked:
  assumes "judge_first_encounter env req state st = (v, st')" "c_gates req = Some p"
    "decision_of (match_rule p (c_event_type req) (c_actor req) (parse_context env (c_request_json req))) \<noteq> AutoApprove"
  shows "v \<noteq> Pass"
proof -
  let ?m = "match_rule p (c_event_type req) (c_actor req) (parse_context env (c_request_json req))"
  obtain tripped st1 where t: "anomaly_of env (c_fleet_id req) (c_event_type req) (c_actor req) (anomaly_rules p) st
      = (tripped, st1)" by fastforce
  have r: "route_of state (Some (decision_of ?m)) \<noteq> RoutePass"
    using assms(3) by (cases state; cases "decision_of ?m") auto
  show ?thesis
    using assms(1) r by (auto simp: judge_first_encounter_def assms(2) t Let_def stop_fleet_def raise_card_def
      split: if_splits route.splits prod.splits parked.splits)
qed

lemma judge_first_encounter_no_refusal:
  "judge_first_encounter env req state st \<noteq> (Refuse r, st')"
  by (auto simp: judge_first_encounter_def Let_def stop_fleet_def raise_card_def
      split: option.splits if_splits route.splits prod.splits parked.splits)

section \<open>A human decides\<close>

text \<open>C18: Nothing but a recorded answer decides a gated event: whenever the policy would not approve
  it automatically and the pass lets it run, and whenever the pass refuses it at all, whatever was
  unreadable on the way, a reference was already recorded for the event, the store is untouched, and
  the verdict is that reference's: an approval for a run, a denial or a lapsed deadline for a refusal.
  An approval is the mirrored word or the newest row of the action, read back as approved.\<close>

theorem only_a_recorded_answer_decides:
  assumes run: "check env req st = (v, st')"
    and gated: "v = Pass \<and> c_gates req = Some p \<and> decision_of (match_rule p (c_event_type req) (c_actor req)
        (parse_context env (c_request_json req))) \<noteq> AutoApprove \<or> v = Refuse r"
  shows "st' = st \<and> (\<exists>reference. recorded env (c_fleet_id req) (c_event_id req) st = Inr (Some reference)
    \<and> (v = Pass \<and> evaluate_ref env reference st = Inr EvApproved
         \<and> (get_string env GetResponse (response_key (as_str reference)) st = Inr (Some ''approve'')
            \<or> (\<exists>row. newest_gate (\<lambda>g. g_action_id g = as_str reference) st = Some row
                 \<and> status_parse (g_status row) = Some StApproved))
       \<or> v = Refuse RefusedDenied \<and> evaluate_ref env reference st = Inr EvDenied
       \<or> v = Refuse RefusedExpired \<and> evaluate_ref env reference st = Inr EvExpired))"
proof -
  have first: False if "judge_first_encounter env req state st = (v, st')" for state
    using gated judge_first_encounter_unasked [OF that] judge_first_encounter_no_refusal [of env req state st]
      that by auto
  from run first obtain reference where rec: "recorded env (c_fleet_id req) (c_event_id req) st = Inr (Some reference)"
    and v: "v = resolve_recorded env reference st" "st' = st"
    unfolding check_def by (cases "recorded env (c_fleet_id req) (c_event_id req) st")
      (fastforce split: option.splits)+
  have ap: "get_string env GetResponse (response_key (as_str reference)) st = Inr (Some ''approve'')
        \<or> (\<exists>row. newest_gate (\<lambda>g. g_action_id g = as_str reference) st = Some row
             \<and> status_parse (g_status row) = Some StApproved)" if "evaluate_ref env reference st = Inr EvApproved"
  proof -
    have "answer_of_status t = Some Approved \<Longrightarrow> t = StApproved" for t by (cases t) auto
    with evaluate_ref_decided [of env reference st Approved False] that show ?thesis by auto
  qed
  have decided: "v = Pass \<and> evaluate_ref env reference st = Inr EvApproved
      \<or> v = Refuse RefusedDenied \<and> evaluate_ref env reference st = Inr EvDenied
      \<or> v = Refuse RefusedExpired \<and> evaluate_ref env reference st = Inr EvExpired"
  proof -
    have "v = Pass \<or> (\<exists>r. v = Refuse r)" using gated by blast
    then show ?thesis unfolding v(1) resolve_recorded_def
      by (simp split: sum.splits evaluation.splits)
  qed
  show ?thesis
    using rec v(2) decided ap by (intro conjI exI [of _ reference]) auto
qed

section \<open>A parked question\<close>

text \<open>What a human's answer does to the rows of an action.\<close>

definition answer_rows :: "string \<Rightarrow> gate_status \<Rightarrow> gate_store \<Rightarrow> gate_store" where
  "answer_rows action s st = st\<lparr>gate_rows := map (\<lambda>r. if g_action_id r = action
     then r\<lparr>g_status := status_as_str s\<rparr> else r) (gate_rows st)\<rparr>"

lemma increment_in_window_frame:
  "increment_in_window now k w st = (n, st') \<Longrightarrow>
     gate_rows st' = gate_rows st \<and> cached st' = cached st \<and> fleet_status st' = fleet_status st"
  by (auto simp: increment_in_window_def Let_def split: option.splits prod.splits if_splits)

lemma count_rules_frame:
  "count_rules env k i rs st = (a, st') \<Longrightarrow>
     gate_rows st' = gate_rows st \<and> cached st' = cached st \<and> fleet_status st' = fleet_status st"
proof (induction env k i rs st rule: count_rules.induct)
  case (2 env k i r rs st)
  obtain n st1 where i: "increment_in_window (queue_clock env) k (window_s r) st = (n, st1)" by fastforce
  show ?case
  proof (cases "answers env (Increment i) \<and> n < uint (repeats r)")
    case True
    with 2(1) [of "(n, st1)" n st1] 2(2) i increment_in_window_frame [OF i] show ?thesis by simp
  next
    case False
    with 2(2) i increment_in_window_frame [OF i] show ?thesis by (auto split: if_splits)
  qed
qed simp

lemma anomaly_frame:
  "anomaly_of env fleet tool action rs st = (a, st') \<Longrightarrow>
     gate_rows st' = gate_rows st \<and> cached st' = cached st \<and> fleet_status st' = fleet_status st"
  by (simp add: anomaly_of_def count_rules_frame)

lemma raise_card_parked:
  assumes "raise_card env req s st0 = (Await Parked, st1)"
  shows "\<exists>i row enc. mint_action env = Some i \<and> encode_ref env i = Some enc
    \<and> g_action_id row = as_str i \<and> g_fleet_id row = as_str (c_fleet_id req) \<and> g_event_id row = c_event_id req
    \<and> g_status row = ''pending'' \<and> g_expires_at row = db_clock env + gate_timeout (st_timeout s)
    \<and> gate_rows st1 = gate_rows st0 @ [row]
    \<and> cached st1 = (cached st0)(event_ref_key (as_str (c_fleet_id req)) (c_event_id req) \<mapsto>
         (enc, queue_clock env + reference_lifetime (st_timeout s) * 1000000000))"
proof -
  from assms obtain i c where "park env req s c st0 = (Awaiting i, st1)"
    by (auto simp: raise_card_def split: prod.splits parked.splits)
  then obtain st2 where i: "mint_action env = Some i"
    and row: "record_row env req s c i st0 = Inr st2"
    and ref: "record_ref env (c_fleet_id req) (c_event_id req) i (st_timeout s) st2 = Inr st1"
    by (auto simp: park_def split: option.splits sum.splits)
  from row obtain gid b where st2: "st2 = st0\<lparr>gate_rows := gate_rows st0 @ [pending_row env gid req s c i b]\<rparr>"
    by (auto simp: record_row_def result_simps split: if_splits)
  from ref obtain enc where enc: "encode_ref env i = Some enc"
    and st1: "set_for env SetReference (event_ref_key (as_str (c_fleet_id req)) (c_event_id req)) enc
       (reference_lifetime (st_timeout s)) st2 = Inr st1"
    by (auto simp: record_ref_def result_simps ok_or_def split: option.splits)
  show ?thesis
    using i enc st1
    by (intro exI [of _ i] exI [of _ "pending_row env gid req s c i b"] exI [of _ enc])
      (auto simp: set_for_def st2 pending_row_def split: if_splits)
qed

lemma parked_store:
  assumes "check env req st = (Await Parked, st1)"
  shows "\<exists>i p row enc. mint_action env = Some i \<and> c_gates req = Some p \<and> encode_ref env i = Some enc
    \<and> g_action_id row = as_str i \<and> g_fleet_id row = as_str (c_fleet_id req) \<and> g_event_id row = c_event_id req
    \<and> g_status row = ''pending'' \<and> g_expires_at row = db_clock env + gate_timeout (policy_timeout p)
    \<and> gate_rows st1 = gate_rows st @ [row]
    \<and> cached st1 = (cached st)(event_ref_key (as_str (c_fleet_id req)) (c_event_id req) \<mapsto>
         (enc, queue_clock env + reference_lifetime (policy_timeout p) * 1000000000))
    \<and> recorded env (c_fleet_id req) (c_event_id req) st = Inr None"
proof -
  have not_res: "resolve_recorded env i st \<noteq> Await Parked" for i
    by (simp add: resolve_recorded_def split: sum.split evaluation.split)
  have raised: "judge_first_encounter env req RefUnreadable st \<noteq> (Await Parked, st1)"
    by (auto simp: judge_first_encounter_def Let_def stop_fleet_def raise_card_def
        split: option.splits if_splits route.splits prod.splits decision.splits elim!: route_of.elims)
  from assms not_res raised have rec: "recorded env (c_fleet_id req) (c_event_id req) st = Inr None"
    and j: "judge_first_encounter env req RefAbsent st = (Await Parked, st1)"
    by (auto simp: check_def split: sum.splits option.splits)
  from j obtain p where p: "c_gates req = Some p" by (auto simp: judge_first_encounter_def split: option.splits)
  obtain t st0 where a: "anomaly_of env (c_fleet_id req) (c_event_type req) (c_actor req) (anomaly_rules p) st = (t, st0)"
    by fastforce
  from j obtain s where raised: "raise_card env req s st0 = (Await Parked, st1)"
    and s: "st_timeout s = policy_timeout p"
    by (auto simp: judge_first_encounter_def p a Let_def stop_fleet_def stated_of_def stated_under_def
        split: if_splits route.splits option.splits)
  from raise_card_parked [OF raised] show ?thesis
    using p rec anomaly_frame [OF a] by (auto simp: s)
qed

text \<open>The later read of a parked question, through the cached reference or the durable row.\<close>

lemma recorded_after_park:
  assumes "check env req st = (Await Parked, st1)" "mint_action env = Some i" "uuid7_parse (as_str i) = Inr i"
    "answers env' = (\<lambda>_. True)" "\<forall>enc. encode_ref env i = Some enc \<longrightarrow> decode_ref env' enc = Some i"
  shows "recorded env' (c_fleet_id req) (c_event_id req) (answer_rows (as_str i) s st1) = Inr (Some i)"
proof -
  let ?st = "answer_rows (as_str i) s st1"
  let ?p = "\<lambda>r. g_fleet_id r = as_str (c_fleet_id req) \<and> g_event_id r = c_event_id req"
  from parked_store [OF assms(1)] obtain i' row enc lives where i: "mint_action env = Some i'" and r: "g_action_id row = as_str i'"
      "g_fleet_id row = as_str (c_fleet_id req)" "g_event_id row = c_event_id req"
      "gate_rows st1 = gate_rows st @ [row]" "encode_ref env i' = Some enc"
      "cached st1 = (cached st)(event_ref_key (as_str (c_fleet_id req)) (c_event_id req) \<mapsto>
         (enc, lives))"
    and none: "recorded env (c_fleet_id req) (c_event_id req) st = Inr None" by blast
  have [simp]: "i' = i" using i assms(2) by simp
  have "filter ?p (gate_rows ?st) = [row\<lparr>g_status := status_as_str s\<rparr>]"
    using recorded_absent [OF none] r by (auto simp: answer_rows_def filter_empty_conv)
  from newest_gate_unique [OF this] have new: "newest_gate ?p ?st = Some (row\<lparr>g_status := status_as_str s\<rparr>)" .
  show ?thesis
    using assms(3-5) r(1,5,6) new
    by (simp add: recorded_def get_string_def answer_rows_def)
qed

lemma evaluated_after_park:
  assumes "check env req st = (Await Parked, st1)" "mint_action env = Some i" "c_gates req = Some p"
    "\<forall>r \<in> set (gate_rows st). g_action_id r \<noteq> as_str i" "cached st (response_key (as_str i)) = None"
    "answers env' = (\<lambda>_. True)"
  shows "evaluate_ref env' i (answer_rows (as_str i) s st1)
      = Inr (evaluate (answer_of_status s) (db_clock env + gate_timeout (policy_timeout p) \<le> db_clock env'))"
proof -
  let ?st = "answer_rows (as_str i) s st1"
  from parked_store [OF assms(1)] assms(2,3) obtain row enc where r: "g_action_id row = as_str i"
      "gate_rows st1 = gate_rows st @ [row]" "g_expires_at row = db_clock env + gate_timeout (policy_timeout p)"
      "cached st1 = (cached st)(event_ref_key (as_str (c_fleet_id req)) (c_event_id req) \<mapsto>
         (enc, queue_clock env + reference_lifetime (policy_timeout p) * 1000000000))" by auto
  have "filter (\<lambda>r. g_action_id r = as_str i) (gate_rows ?st) = [row\<lparr>g_status := status_as_str s\<rparr>]"
    using assms(4) r by (auto simp: answer_rows_def filter_empty_conv)
  from newest_gate_unique [OF this] show ?thesis
    using assms(5,6) r by (simp add: evaluate_ref_def get_string_def standing_of_def answer_rows_def)
qed

text \<open>A parked question is decided by its answer and by nothing else: once a check parked an
  event under a fresh action identifier, a later check of the same event, under any policy, type,
  actor or body and whether or not the cached reference survived, passes when the row says approved,
  refuses as denied when it says denied, timed out or auto-killed, and while it says pending waits
  until the database clock reaches the raised deadline and refuses as expired from then on.\<close>

theorem parked_question_decides:
  assumes parked: "check env req st = (Await Parked, st1)" "mint_action env = Some i" "c_gates req = Some p"
    and fresh: "\<forall>r \<in> set (gate_rows st). g_action_id r \<noteq> as_str i" "cached st (response_key (as_str i)) = None"
    and id: "uuid7_parse (as_str i) = Inr i"
    and later: "answers env' = (\<lambda>_. True)"
    and codec: "\<forall>enc. encode_ref env i = Some enc \<longrightarrow> decode_ref env' enc = Some i"
    and same: "c_fleet_id req' = c_fleet_id req" "c_event_id req' = c_event_id req"
  shows "check env' req' (answer_rows (as_str i) s st1) =
    ((case s of StApproved \<Rightarrow> Pass
      | StPending \<Rightarrow> if db_clock env + gate_timeout (policy_timeout p) \<le> db_clock env'
                    then Refuse RefusedExpired else Await Pending
      | _ \<Rightarrow> Refuse RefusedDenied), answer_rows (as_str i) s st1)"
  using recorded_after_park [OF parked(1,2) id later codec, of s]
    evaluated_after_park [OF parked fresh later, of s]
  by (cases s) (simp_all add: check_def same resolve_recorded_def)

section \<open>The brake counts\<close>

text \<open>One increment inside a live window.\<close>

lemma increment_live:
  "counters st k = Some (n, until) \<Longrightarrow> now < until \<Longrightarrow>
     increment_in_window now k w st = (n + 1, st\<lparr>counters := (counters st)(k \<mapsto> (n + 1, until))\<rparr>)"
  by (simp add: increment_in_window_def)

lemma increment_fresh:
  "counters st k = None \<Longrightarrow> increment_in_window now k w st =
     (1, st\<lparr>counters := (counters st)(k \<mapsto> (1, now + uint w * 1000000000))\<rparr>)"
  by (simp add: increment_in_window_def)

text \<open>A sequence of first encounters of one action, at the given instants.\<close>

fun encounters :: "'b gate_env \<Rightarrow> uuid7 \<Rightarrow> string \<Rightarrow> string \<Rightarrow> anomaly_rule list \<Rightarrow> instant list \<Rightarrow> gate_store
    \<Rightarrow> anomaly list \<times> gate_store" where
  "encounters env fleet tool action rs [] st = ([], st)"
| "encounters env fleet tool action rs (t # ts) st =
     (let (a, st1) = anomaly_of (env\<lparr>queue_clock := t\<rparr>) fleet tool action rs st;
          (as, st2) = encounters env fleet tool action rs ts st1 in (a # as, st2))"

lemma encounters_live:
  assumes "\<And>i. answers env (Increment i)" "\<forall>t \<in> set ts. t < until"
    "counters st (anomaly_key (as_str fleet) tool action) = Some (n, until)"
  shows "fst (encounters env fleet tool action [r] ts st)
      = map (\<lambda>j. if uint (repeats r) \<le> n + int j then AnomalyKill else Normal) [1 ..< Suc (length ts)]"
  using assms
proof (induction ts arbitrary: n st)
  case (Cons t ts)
  let ?k = "anomaly_key (as_str fleet) tool action"
  let ?st = "st\<lparr>counters := (counters st)(?k \<mapsto> (n + 1, until))\<rparr>"
  have a: "anomaly_of (env\<lparr>queue_clock := t\<rparr>) fleet tool action [r] st
      = (if uint (repeats r) \<le> n + 1 then AnomalyKill else Normal, ?st)"
    using Cons.prems increment_live [of st ?k n until t "window_s r"] by (simp add: anomaly_of_def)
  have ih: "fst (encounters env fleet tool action [r] ts ?st)
      = map (\<lambda>j. if uint (repeats r) \<le> n + 1 + int j then AnomalyKill else Normal) [1 ..< Suc (length ts)]"
    by (rule Cons.IH) (use Cons.prems in auto)
  have "[1 ..< Suc (length (t # ts))] = 1 # map Suc [1 ..< Suc (length ts)]"
    by (simp add: map_Suc_upt upt_conv_Cons del: upt_Suc)
  then show ?case
    using a ih by (simp add: Let_def split_def comp_def add.assoc add.commute [of 1] del: upt_Suc)
qed simp

text \<open>One rule is an exact brake: from a fresh counter, with every encounter inside the window the
  first one opened, the first \<open>repeats - 1\<close> encounters of an action are admitted and every later
  one stops the fleet; a policy with no anomaly rule never counts and never stops one.\<close>

theorem one_rule_trips_exactly:
  assumes "\<And>i. answers env (Increment i)" "counters st (anomaly_key (as_str fleet) tool action) = None"
    "\<forall>t' \<in> set ts. t' < t + uint (window_s r) * 1000000000"
  shows "fst (encounters env fleet tool action [r] (t # ts) st)
      = map (\<lambda>j. if uint (repeats r) \<le> int j then AnomalyKill else Normal) [1 ..< Suc (Suc (length ts))]
    \<and> encounters env fleet tool action [] ts st = (replicate (length ts) Normal, st)"
proof

  let ?k = "anomaly_key (as_str fleet) tool action" and ?u = "t + uint (window_s r) * 1000000000"
  let ?st = "st\<lparr>counters := (counters st)(?k \<mapsto> (1, ?u))\<rparr>"
  have a: "anomaly_of (env\<lparr>queue_clock := t\<rparr>) fleet tool action [r] st
      = (if uint (repeats r) \<le> 1 then AnomalyKill else Normal, ?st)"
    using assms(1,2) increment_fresh [of st ?k t "window_s r"] by (simp add: anomaly_of_def)
  have ih: "fst (encounters env fleet tool action [r] ts ?st)
      = map (\<lambda>j. if uint (repeats r) \<le> 1 + int j then AnomalyKill else Normal) [1 ..< Suc (length ts)]"
    by (rule encounters_live [where until = ?u]) (use assms in auto)
  have "[1 ..< Suc (Suc (length ts))] = 1 # map Suc [1 ..< Suc (length ts)]"
    by (simp add: map_Suc_upt upt_conv_Cons del: upt_Suc)
  then show "fst (encounters env fleet tool action [r] (t # ts) st)
      = map (\<lambda>j. if uint (repeats r) \<le> int j then AnomalyKill else Normal) [1 ..< Suc (Suc (length ts))]"
    using a ih by (simp add: Let_def split_def comp_def del: upt_Suc)
  show "encounters env fleet tool action [] ts st = (replicate (length ts) Normal, st)"
    by (induction ts arbitrary: st) (simp_all add: anomaly_of_def)
qed

text \<open>Two rules share one counter: each rule increments the same key, so a policy of any first
  rule that does not trip and a second rule of two repeats stops a fleet on the first encounter of an
  action, and the second rule's window is never the one that counts.\<close>

theorem two_rules_share_one_counter:
  assumes "\<And>i. answers env (Increment i)" "counters st (anomaly_key (as_str fleet) tool action) = None"
    "1 < repeats r1" "repeats r2 = 2" "window_s r1 \<noteq> 0"
  shows "fst (anomaly_of env fleet tool action [r1, r2] st) = AnomalyKill
    \<and> counters (snd (anomaly_of env fleet tool action [r1, r2] st)) (anomaly_key (as_str fleet) tool action)
        = Some (2, queue_clock env + uint (window_s r1) * 1000000000)"
proof -
  let ?k = "anomaly_key (as_str fleet) tool action"
  let ?u = "queue_clock env + uint (window_s r1) * 1000000000"
  have r1: "\<not> uint (repeats r1) \<le> 1" using assms(3) by (simp add: word_less_def)
  have w: "queue_clock env < ?u"
    using assms(5) by (simp add: word_neq_0_conv word_less_def)
  show ?thesis
    using assms(1,4) r1 increment_fresh [OF assms(2), of "queue_clock env" "window_s r1"]
      increment_live [OF _ w, of "st\<lparr>counters := (counters st)(?k \<mapsto> (1, ?u))\<rparr>" ?k 1 "window_s r2"]
    by (simp add: anomaly_of_def)
qed

end
