(* ===== verification/Pricing.thy ===== *)
theory Pricing
  imports Ids
begin

text \<open>
  What a request costs: \<open>afd_billing/src/nanos.rs\<close>, \<open>price/mod.rs\<close>,
  \<open>price/rate.rs\<close>, the usage lines of \<open>afd_wire/src/usage/mod.rs\<close> and the
  issue-time estimate of \<open>rates.rs\<close>.  A price book is the list of a model's
  dated tiers; a rater picks one tier per line and turns the line into nanos.
\<close>

section \<open>Nanos\<close>

type_synonym nanos = int

definition nanos_per_usd :: int where "nanos_per_usd = 1000000000"
definition run_nanos_per_sec :: int where "run_nanos_per_sec = 100000"
definition tokens_per_mtok :: int where "tokens_per_mtok = 1000000"
definition ms_per_sec :: int where "ms_per_sec = 1000"
definition estimate_floor_input_tokens :: u32 where "estimate_floor_input_tokens = 100"
definition estimate_floor_output_tokens :: u32 where "estimate_floor_output_tokens = 100"

definition nanos_saturating_add :: "nanos \<Rightarrow> nanos \<Rightarrow> nanos" where
  "nanos_saturating_add a b = saturating_add a b"

definition nanos_covers :: "nanos \<Rightarrow> nanos \<Rightarrow> bool" where
  "nanos_covers balance cost \<longleftrightarrow> cost \<le> balance"

definition nanos_has_reached :: "nanos \<Rightarrow> nanos \<Rightarrow> bool" where
  "nanos_has_reached spent ceiling \<longleftrightarrow> ceiling \<le> spent"

section \<open>Usage lines\<close>

definition daemon_seq_base :: u32 where "daemon_seq_base = 2147483648"
definition runner_seq_max :: u32 where "runner_seq_max = daemon_seq_base - 1"
definition decision_seq_base :: u32 where "decision_seq_base = 3 * 1073741824"
definition daemon_seq_max :: u32 where "daemon_seq_max = decision_seq_base - 1"

record request_usage =
  r_seq :: u32
  r_at :: instant
  r_input_tokens :: u32
  r_cached_input_tokens :: u32
  r_cache_write_tokens :: u32
  r_cache_write_5m_tokens :: u32
  r_cache_write_1h_tokens :: u32
  r_output_tokens :: u32

record usage_line =
  seq :: u32
  at :: instant
  input_tokens :: u32
  cached_input_tokens :: u32
  cache_write_tokens :: u32
  cache_write_5m_tokens :: u32
  cache_write_1h_tokens :: u32
  output_tokens :: u32
  runtime_ms :: u32

definition request_line :: "request_usage \<Rightarrow> usage_line" where
  "request_line r = \<lparr> seq = r_seq r, at = r_at r, input_tokens = r_input_tokens r,
     cached_input_tokens = r_cached_input_tokens r, cache_write_tokens = r_cache_write_tokens r,
     cache_write_5m_tokens = r_cache_write_5m_tokens r,
     cache_write_1h_tokens = r_cache_write_1h_tokens r,
     output_tokens = r_output_tokens r, runtime_ms = 0 \<rparr>"

definition runtime_line :: "u32 \<Rightarrow> instant \<Rightarrow> u32 \<Rightarrow> usage_line" where
  "runtime_line s t ms = \<lparr> seq = s, at = t, input_tokens = 0, cached_input_tokens = 0,
     cache_write_tokens = 0, cache_write_5m_tokens = 0, cache_write_1h_tokens = 0,
     output_tokens = 0, runtime_ms = ms \<rparr>"

text \<open>The whole prompt is summed in \<open>u64\<close>.\<close>

definition whole_prompt :: "usage_line \<Rightarrow> u64" where
  "whole_prompt u = ucast (input_tokens u) + ucast (cached_input_tokens u)
     + ucast (cache_write_tokens u) + ucast (cache_write_5m_tokens u)
     + ucast (cache_write_1h_tokens u)"

section \<open>The price book\<close>

record price =
  effective_from :: instant
  effective_until :: "instant option"
  prompt_tokens_above :: int
  input_nanos_per_mtok :: int
  cached_input_nanos_per_mtok :: int
  cache_write_nanos_per_mtok :: "int option"
  cache_write_5m_nanos_per_mtok :: "int option"
  cache_write_1h_nanos_per_mtok :: "int option"
  output_nanos_per_mtok :: int
  source_url :: string
  verified_at :: instant
  conditions :: string

record tier =
  tier_id :: uuid7
  tier_price :: price

type_synonym price_book = "tier list"

definition tier_covers :: "tier \<Rightarrow> instant \<Rightarrow> bool" where
  "tier_covers t now \<longleftrightarrow> effective_from (tier_price t) \<le> now \<and>
     (case effective_until (tier_price t) of None \<Rightarrow> True | Some until \<Rightarrow> now < until)"

definition tier_admits :: "tier \<Rightarrow> u64 \<Rightarrow> bool" where
  "tier_admits t prompt = (let threshold = prompt_tokens_above (tier_price t)
     in threshold = 0 \<or> threshold < uint prompt)"

definition quote :: "price_book \<Rightarrow> instant \<Rightarrow> u64 \<Rightarrow> tier option" where
  "quote book now prompt =
     max_by_key (\<lambda>t. prompt_tokens_above (tier_price t))
       (filter (\<lambda>t. tier_covers t now \<and> tier_admits t prompt) book)"

text \<open>One tier's reservation, \<open>None\<close> when it does not fit in 64 bits.\<close>

definition tier_reservation :: "u32 \<Rightarrow> u32 \<Rightarrow> tier \<Rightarrow> nanos option" where
  "tier_reservation inp out t =
     (let p = tier_price t;
          input_rate = Max {input_nanos_per_mtok p, cached_input_nanos_per_mtok p,
            (case cache_write_nanos_per_mtok p of None \<Rightarrow> input_nanos_per_mtok p | Some r \<Rightarrow> r)};
          million = 1000000;
          i = rust_div (uint inp * input_rate + million - 1) million + 2;
          o' = rust_div (uint out * output_nanos_per_mtok p + million - 1) million
      in try_i64 (i + o'))"

fun collect_options :: "'a option list \<Rightarrow> 'a list option" where
  "collect_options [] = Some []"
| "collect_options (None # xs) = None"
| "collect_options (Some x # xs) = map_option ((#) x) (collect_options xs)"

definition decision_reservation :: "price_book \<Rightarrow> instant \<Rightarrow> u32 \<Rightarrow> u32 \<Rightarrow> nanos option" where
  "decision_reservation book now inp out =
     (case collect_options (map (tier_reservation inp out)
             (filter (\<lambda>t. tier_covers t now) book)) of
        None \<Rightarrow> None
      | Some [] \<Rightarrow> None
      | Some (x # xs) \<Rightarrow> Some (Max (set (x # xs))))"

section \<open>The rater\<close>

datatype posture = Platform | SelfManaged

record window =
  win_from :: instant
  win_until :: instant

definition window_clamp :: "window \<Rightarrow> instant \<Rightarrow> instant" where
  "window_clamp w t = ord_clamp (win_from w) (max (win_until w) (win_from w)) t"

record rated_line =
  usage :: usage_line
  rated_price :: "uuid7 option"
  charged :: nanos
  unpriced_tokens :: u64

text \<open>The failures of the billing crate that are values of this model.\<close>

datatype billing_error =
    ChargeOverflow
  | RowMalformed
  | WalletMissing
  | ChargesCursorInvalid
  | QueryFailed
  | Entropy
  | DatastoreUnavailable

definition ceil_div :: "int \<Rightarrow> int \<Rightarrow> int" where
  "ceil_div numerator denominator = rust_div (numerator + denominator - 1) denominator"

definition tokens_of :: "usage_line \<Rightarrow> u64" where
  "tokens_of u = whole_prompt u + ucast (output_tokens u)"

definition categories :: "usage_line \<Rightarrow> price \<Rightarrow> (u32 \<times> int option) list" where
  "categories u p =
    [ (input_tokens u, Some (input_nanos_per_mtok p)),
      (cached_input_tokens u, Some (cached_input_nanos_per_mtok p)),
      (cache_write_tokens u, cache_write_nanos_per_mtok p),
      (cache_write_5m_tokens u, cache_write_5m_nanos_per_mtok p),
      (cache_write_1h_tokens u, cache_write_1h_nanos_per_mtok p),
      (output_tokens u, Some (output_nanos_per_mtok p)) ]"

fun cost_step :: "int \<times> u64 \<Rightarrow> u32 \<times> int option \<Rightarrow> int \<times> u64" where
  "cost_step (cost, unpriced) (tokens, Some r) =
     (cost + ceil_div (uint tokens * r) tokens_per_mtok, unpriced)"
| "cost_step (cost, unpriced) (tokens, None) = (cost, unpriced + ucast tokens)"

definition token_cost :: "usage_line \<Rightarrow> price \<Rightarrow> int \<times> u64" where
  "token_cost u p = foldl cost_step (0, 0) (categories u p)"

definition runtime_cost :: "usage_line \<Rightarrow> int" where
  "runtime_cost u = ceil_div (uint (runtime_ms u) * run_nanos_per_sec) ms_per_sec"

definition rate :: "price_book \<Rightarrow> posture \<Rightarrow> window \<Rightarrow> usage_line
    \<Rightarrow> (billing_error, rated_line) result" where
  "rate book pos w line =
     (let u = line\<lparr>at := window_clamp w (at line)\<rparr>;
          (price, tokens, unpriced) =
            (case pos of
               SelfManaged \<Rightarrow> (None, 0, 0)
             | Platform \<Rightarrow>
                 (case quote book (at u) (whole_prompt u) of
                    None \<Rightarrow> (None, 0, tokens_of u)
                  | Some t \<Rightarrow> (let (cost, unpriced) = token_cost u (tier_price t)
                      in (Some (tier_id t), cost, unpriced))))
      in case try_i64 (runtime_cost u + tokens) of
           None \<Rightarrow> Inl ChargeOverflow
         | Some c \<Rightarrow> Inr \<lparr> usage = u, rated_price = price, charged = c,
             unpriced_tokens = unpriced \<rparr>)"

section \<open>The issue-time estimate\<close>

datatype estimate = Priced nanos | Unpriceable

fun estimate_floor :: "estimate \<Rightarrow> nanos" where
  "estimate_floor (Priced n) = n"
| "estimate_floor Unpriceable = 0"

definition floor_line :: "instant \<Rightarrow> usage_line" where
  "floor_line now = \<lparr> seq = 0, at = now, input_tokens = estimate_floor_input_tokens,
     cached_input_tokens = 0, cache_write_tokens = 0, cache_write_5m_tokens = 0,
     cache_write_1h_tokens = 0, output_tokens = estimate_floor_output_tokens, runtime_ms = 0 \<rparr>"

definition price_floor :: "price_book \<Rightarrow> instant \<Rightarrow> (billing_error, estimate) result" where
  "price_floor book now =
     (case rate book Platform \<lparr> win_from = now, win_until = now \<rparr> (floor_line now) of
        Inl e \<Rightarrow> Inl e
      | Inr rated \<Rightarrow> (case rated_price rated of
          Some _ \<Rightarrow> Inr (Priced (charged rated)) | None \<Rightarrow> Inr Unpriceable))"

text \<open>\<open>Accounts::estimate\<close>, over the book the catalogue read answers.\<close>

definition estimate_on :: "(billing_error, price_book) result \<Rightarrow> posture \<Rightarrow> instant
    \<Rightarrow> (billing_error, estimate) result" where
  "estimate_on loaded pos now =
     (if pos = SelfManaged then Inr (Priced 0) else res_bind loaded (\<lambda>book. price_floor book now))"

fun posture_as_str :: "posture \<Rightarrow> string" where
  "posture_as_str Platform = ''platform''"
| "posture_as_str SelfManaged = ''self_managed''"

definition posture_parse :: "string \<Rightarrow> posture option" where
  "posture_parse stored =
     (if stored = ''platform'' then Some Platform
      else if stored = ''self_managed'' then Some SelfManaged else None)"

section \<open>Well-formed books\<close>

text \<open>The catalogue's check constraints: no rate and no threshold is negative.\<close>

definition price_nonneg :: "price \<Rightarrow> bool" where
  "price_nonneg p \<longleftrightarrow> 0 \<le> prompt_tokens_above p \<and> 0 \<le> input_nanos_per_mtok p
     \<and> 0 \<le> cached_input_nanos_per_mtok p \<and> 0 \<le> output_nanos_per_mtok p
     \<and> pred_option ((\<le>) 0) (cache_write_nanos_per_mtok p)
     \<and> pred_option ((\<le>) 0) (cache_write_5m_nanos_per_mtok p)
     \<and> pred_option ((\<le>) 0) (cache_write_1h_nanos_per_mtok p)"

definition book_nonneg :: "price_book \<Rightarrow> bool" where
  "book_nonneg book \<longleftrightarrow> list_all (\<lambda>t. price_nonneg (tier_price t)) book"

text \<open>The exact cost of one category, in millionths of a nano.\<close>

fun exact_micro :: "u32 \<times> int option \<Rightarrow> int" where
  "exact_micro (tokens, Some r) = uint tokens * r"
| "exact_micro (tokens, None) = 0"

fun unpriced_of :: "u32 \<times> int option \<Rightarrow> int" where
  "unpriced_of (tokens, Some r) = 0"
| "unpriced_of (tokens, None) = uint tokens"

fun category_cost :: "u32 \<times> int option \<Rightarrow> int" where
  "category_cost (tokens, Some r) = ceil_div (uint tokens * r) tokens_per_mtok"
| "category_cost (tokens, None) = 0"

section \<open>Lemmas\<close>

lemma ceil_div_bracket:
  assumes "0 \<le> n" "0 < d"
  shows "n \<le> d * ceil_div n d" and "d * ceil_div n d < n + d" and "0 \<le> ceil_div n d"
proof -
  have c: "ceil_div n d = (n + d - 1) div d"
    using assms by (simp add: ceil_div_def rust_div_nonneg)
  have m: "d * ((n + d - 1) div d) = n + d - 1 - (n + d - 1) mod d"
    by (simp add: minus_mod_eq_mult_div)
  have b: "0 \<le> (n + d - 1) mod d" "(n + d - 1) mod d < d"
    using assms by auto
  show "n \<le> d * ceil_div n d" "d * ceil_div n d < n + d" using c m b by auto
  show "0 \<le> ceil_div n d" using c assms by (simp add: pos_imp_zdiv_nonneg_iff)
qed

lemma ceil_div_mono:
  assumes "0 \<le> m" "m \<le> n" "0 < d"
  shows "ceil_div m d \<le> ceil_div n d"
  using assms by (simp add: ceil_div_def rust_div_nonneg zdiv_mono1)

lemma ceil_div_add:
  assumes "0 \<le> m" "0 \<le> n" "0 < d"
  shows "ceil_div m d + ceil_div n d \<le> ceil_div (m + n) d + 1"
proof (rule ccontr)
  assume "\<not> ?thesis"
  then have "ceil_div (m + n) d + 2 \<le> ceil_div m d + ceil_div n d" by simp
  then have "d * (ceil_div (m + n) d + 2) \<le> d * (ceil_div m d + ceil_div n d)"
    using assms(3) by (intro mult_left_mono) auto
  moreover have "m + n \<le> d * ceil_div (m + n) d"
    using assms by (intro ceil_div_bracket) auto
  moreover have "d * ceil_div m d < m + d" "d * ceil_div n d < n + d"
    using assms by (auto intro: ceil_div_bracket)
  ultimately show False by (simp add: algebra_simps)
qed

lemma ceil_div_zero [simp]: "0 < d \<Longrightarrow> ceil_div 0 d = 0"
  by (simp add: ceil_div_def rust_div_nonneg)

lemma tokens_per_mtok_pos [simp]: "0 < tokens_per_mtok"
  by (simp add: tokens_per_mtok_def)

lemma runtime_cost_eq: "runtime_cost u = 100 * uint (runtime_ms u)"
proof -
  have "x * 100000 + 999 = 999 + 100 * x * 1000" for x :: int by simp
  then have "(x * 100000 + 999) div 1000 = 100 * x" for x :: int
    by (simp only: div_mult_self1)
  then show ?thesis
    by (simp add: runtime_cost_def ceil_div_def run_nanos_per_sec_def ms_per_sec_def rust_div_nonneg)
qed

lemma foldl_cost_step:
  "foldl cost_step (c, w) cs =
     (c + sum_list (map category_cost cs), w + sum_list (map (\<lambda>x. case snd x of None \<Rightarrow> ucast (fst x) | Some _ \<Rightarrow> 0) cs))"
proof (induction cs arbitrary: c w)
  case Nil
  show ?case by simp
next
  case (Cons x cs)
  show ?case by (cases x; cases "snd x") (auto simp: Cons.IH algebra_simps)
qed

lemma uint_ucast_u64 [simp]: "uint (ucast (t :: u32) :: u64) = uint t"
  by (simp add: uint_up_ucast is_up)

lemma uint_add_u64: "uint (a :: u64) + uint b < 2 ^ 64 \<Longrightarrow> uint (a + b) = uint a + uint b"
  using uint_add_lem [of a b] by simp

lemma uint_whole_prompt:
  "uint (whole_prompt u) = uint (input_tokens u) + uint (cached_input_tokens u)
     + uint (cache_write_tokens u) + uint (cache_write_5m_tokens u)
     + uint (cache_write_1h_tokens u)"
  using uint_u32_le [of "input_tokens u"] uint_u32_le [of "cached_input_tokens u"]
    uint_u32_le [of "cache_write_tokens u"] uint_u32_le [of "cache_write_5m_tokens u"]
    uint_u32_le [of "cache_write_1h_tokens u"]
  by (simp add: whole_prompt_def uint_add_u64)

lemma uint_tokens_of: "uint (tokens_of u) = uint (whole_prompt u) + uint (output_tokens u)"
  using uint_u32_le [of "input_tokens u"] uint_u32_le [of "cached_input_tokens u"]
    uint_u32_le [of "cache_write_tokens u"] uint_u32_le [of "cache_write_5m_tokens u"]
    uint_u32_le [of "cache_write_1h_tokens u"] uint_u32_le [of "output_tokens u"]
  by (simp add: tokens_of_def uint_add_u64 uint_whole_prompt)

lemma token_cost_fst: "fst (token_cost u p) = sum_list (map category_cost (categories u p))"
  by (simp add: token_cost_def foldl_cost_step)

lemma token_cost_snd:
  "uint (snd (token_cost u p)) = sum_list (map unpriced_of (categories u p))"
  using uint_u32_le [of "cache_write_tokens u"] uint_u32_le [of "cache_write_5m_tokens u"]
    uint_u32_le [of "cache_write_1h_tokens u"]
  unfolding token_cost_def foldl_cost_step
  by (cases "cache_write_nanos_per_mtok p"; cases "cache_write_5m_nanos_per_mtok p";
      cases "cache_write_1h_nanos_per_mtok p") (simp_all add: categories_def uint_add_u64)

lemma window_clamp_inside:
  "win_from w \<le> window_clamp w t \<and> window_clamp w t \<le> max (win_until w) (win_from w)"
  unfolding window_clamp_def by (rule ord_clamp_bounds) simp

lemma collect_options_Some: "collect_options xs = Some ys \<longleftrightarrow> xs = map Some ys"
proof (induction xs arbitrary: ys)
  case (Cons x xs)
  show ?case by (cases x; cases ys) (auto simp: Cons.IH)
qed auto

lemma quote_Some:
  assumes "quote book now prompt = Some t"
  shows "t \<in> set book" "tier_covers t now" "tier_admits t prompt"
    and "\<And>t'. t' \<in> set book \<Longrightarrow> tier_covers t' now \<Longrightarrow> tier_admits t' prompt
       \<Longrightarrow> prompt_tokens_above (tier_price t') \<le> prompt_tokens_above (tier_price t)"
  using max_by_key_Some [OF assms [unfolded quote_def]] by auto

lemma quote_None:
  "quote book now prompt = None \<longleftrightarrow> (\<forall>t \<in> set book. tier_covers t now \<longrightarrow> \<not> tier_admits t prompt)"
  by (auto simp: quote_def filter_empty_conv)

lemma book_nonneg_tier: "book_nonneg book \<Longrightarrow> t \<in> set book \<Longrightarrow> price_nonneg (tier_price t)"
  by (auto simp: book_nonneg_def list_all_iff)

lemma category_cost_bracket:
  assumes "pred_option ((\<le>) 0) (snd c)"
  shows "exact_micro c \<le> tokens_per_mtok * category_cost c"
    and "tokens_per_mtok * category_cost c < exact_micro c + tokens_per_mtok"
    and "0 \<le> category_cost c"
proof -
  obtain tk r where c: "c = (tk, r)" by (cases c)
  show "exact_micro c \<le> tokens_per_mtok * category_cost c"
    and "tokens_per_mtok * category_cost c < exact_micro c + tokens_per_mtok"
    and "0 \<le> category_cost c"
    using assms by (cases r; auto simp: c intro: ceil_div_bracket)+
qed

lemma category_costs_bracket:
  assumes "list_all (\<lambda>c. pred_option ((\<le>) 0) (snd c)) cs"
  shows "sum_list (map exact_micro cs) \<le> tokens_per_mtok * sum_list (map category_cost cs)
     \<and> tokens_per_mtok * sum_list (map category_cost cs)
          \<le> sum_list (map exact_micro cs) + int (length cs) * (tokens_per_mtok - 1)"
  using assms
proof (induction cs)
  case (Cons c cs)
  from Cons.prems have c: "pred_option ((\<le>) 0) (snd c)" by simp
  from Cons show ?case
    using category_cost_bracket(1,2) [OF c] by (auto simp: algebra_simps)
qed simp

lemma categories_nonneg:
  "price_nonneg p \<Longrightarrow> list_all (\<lambda>c. pred_option ((\<le>) 0) (snd c)) (categories u p)"
  by (simp add: categories_def price_nonneg_def)

text \<open>The rater, unfolded along its branches.\<close>

lemma rate_Inr:
  "rate book pos w line = Inr r \<longleftrightarrow>
     (let u = line\<lparr>at := window_clamp w (at line)\<rparr>;
          (price, tokens, unpriced) =
            (case pos of SelfManaged \<Rightarrow> (None, 0, 0)
             | Platform \<Rightarrow> (case quote book (at u) (whole_prompt u) of
                 None \<Rightarrow> (None, 0, tokens_of u)
               | Some t \<Rightarrow> (Some (tier_id t), fst (token_cost u (tier_price t)),
                   snd (token_cost u (tier_price t)))))
      in in_i64 (runtime_cost u + tokens)
         \<and> r = \<lparr> usage = u, rated_price = price, charged = runtime_cost u + tokens,
                 unpriced_tokens = unpriced \<rparr>)"
  by (auto simp: rate_def Let_def try_i64_def split: posture.splits option.splits prod.splits)

lemma runtime_cost_at [simp]: "runtime_cost (u\<lparr>at := t\<rparr>) = runtime_cost u"
  by (simp add: runtime_cost_def)

lemma whole_prompt_at [simp]: "whole_prompt (u\<lparr>at := t\<rparr>) = whole_prompt u"
  by (simp add: whole_prompt_def)

lemma tokens_of_at [simp]: "tokens_of (u\<lparr>at := t\<rparr>) = tokens_of u"
  by (simp add: tokens_of_def)

lemma categories_at [simp]: "categories (u\<lparr>at := t\<rparr>) p = categories u p"
  by (simp add: categories_def)

lemma token_cost_at [simp]: "token_cost (u\<lparr>at := t\<rparr>) p = token_cost u p"
  by (simp add: token_cost_def)

lemma rate_usage: "rate book pos w line = Inr r \<Longrightarrow> usage r = line\<lparr>at := window_clamp w (at line)\<rparr>"
  by (auto simp: rate_Inr Let_def split: prod.splits)

lemma rate_charged_in_i64: "rate book pos w line = Inr r \<Longrightarrow> in_i64 (charged r)"
  by (auto simp: rate_Inr Let_def split: prod.splits)

lemma rate_charged_nonneg:
  assumes "book_nonneg book" "rate book pos w line = Inr r"
  shows "0 \<le> charged r"
proof -
  have "0 \<le> sum_list (map category_cost (categories line (tier_price t)))"
    if "quote book (window_clamp w (at line)) (whole_prompt line) = Some t" for t
  proof (rule sum_list_nonneg)
    fix x assume "x \<in> set (map category_cost (categories line (tier_price t)))"
    then show "0 \<le> x"
      using categories_nonneg [OF book_nonneg_tier [OF assms(1) quote_Some(1) [OF that]]]
      by (auto simp: list_all_iff intro: category_cost_bracket(3))
  qed
  then show ?thesis
    using assms(2)
    by (auto simp: rate_Inr Let_def runtime_cost_eq token_cost_fst
        split: posture.splits option.splits prod.splits)
qed

section \<open>What the rater and the reservation guarantee\<close>

text \<open>Pricing never under-bills and over-bills by less than one nano per token
  category: for a platform line covered by a tier, the charge in millionths of a nano lies
  between the exact cost (every category's tokens times its rate, plus the runtime at 100 nanos
  per millisecond) and that cost plus six nanos.\<close>

theorem rate_charge_bracket:
  assumes nonneg: "book_nonneg book"
    and tier: "quote book (window_clamp w (at line)) (whole_prompt line) = Some t"
    and rated: "rate book Platform w line = Inr r"
  shows "let exact = sum_list (map exact_micro (categories line (tier_price t)))
                       + tokens_per_mtok * (100 * uint (runtime_ms line))
         in exact \<le> tokens_per_mtok * charged r
            \<and> tokens_per_mtok * charged r < exact + 6 * tokens_per_mtok"
proof -
  let ?cs = "categories line (tier_price t)"
  have "charged r = 100 * uint (runtime_ms line) + sum_list (map category_cost ?cs)"
    using rated tier by (auto simp: rate_Inr Let_def runtime_cost_eq token_cost_fst)
  moreover have "list_all (\<lambda>c. pred_option ((\<le>) 0) (snd c)) ?cs"
    using book_nonneg_tier [OF nonneg quote_Some(1) [OF tier]] by (rule categories_nonneg)
  then have "sum_list (map exact_micro ?cs) \<le> tokens_per_mtok * sum_list (map category_cost ?cs)
     \<and> tokens_per_mtok * sum_list (map category_cost ?cs)
        \<le> sum_list (map exact_micro ?cs) + int (length ?cs) * (tokens_per_mtok - 1)"
    by (rule category_costs_bracket)
  moreover have "length ?cs = 6" by (simp add: categories_def)
  ultimately show ?thesis by (simp add: Let_def algebra_simps tokens_per_mtok_def)
qed

text \<open>No token is silently free: under the platform's key, the tokens of the categories
  the chosen tier prices and the tokens the line reports as unpriced add up to every token of
  the line, and with no covering tier all of them are unpriced and nothing but runtime is
  charged.\<close>

theorem rate_accounts_every_token:
  assumes "rate book Platform w line = Inr r"
  shows "case quote book (window_clamp w (at line)) (whole_prompt line) of
      None \<Rightarrow> unpriced_tokens r = tokens_of line \<and> charged r = 100 * uint (runtime_ms line)
             \<and> rated_price r = None
    | Some t \<Rightarrow> uint (unpriced_tokens r)
          + sum_list (map (\<lambda>(n, p). if p = None then 0 else uint n)
              (categories line (tier_price t))) = uint (tokens_of line)
        \<and> rated_price r = Some (tier_id t)"
proof (cases "quote book (window_clamp w (at line)) (whole_prompt line)")
  case None
  with assms show ?thesis by (auto simp: rate_Inr Let_def runtime_cost_eq)
next
  case (Some t)
  then have "uint (unpriced_tokens r) = sum_list (map unpriced_of (categories line (tier_price t)))"
    and "rated_price r = Some (tier_id t)"
    using assms token_cost_snd [of line "tier_price t"] by (auto simp: rate_Inr Let_def)
  then show ?thesis
    using Some
    by (cases "cache_write_nanos_per_mtok (tier_price t)";
        cases "cache_write_5m_nanos_per_mtok (tier_price t)";
        cases "cache_write_1h_nanos_per_mtok (tier_price t)")
      (simp_all add: categories_def uint_tokens_of uint_whole_prompt)
qed

text \<open>The three prompt categories, each rounded up on its own, stay within the reservation.\<close>

lemma three_categories_le:
  assumes r: "0 \<le> r1" "r1 \<le> m" "0 \<le> r2" "r2 \<le> m" "0 \<le> r3" "r3 \<le> m"
    and n: "0 \<le> a" "0 \<le> b" "0 \<le> c" "a + b + c \<le> n" and d: "0 < d"
  shows "ceil_div (a * r1) d + ceil_div (b * r2) d + ceil_div (c * r3) d \<le> ceil_div (n * m) d + 2"
proof -
  have m: "0 \<le> m" using r(1,2) by linarith
  have up: "ceil_div (x * q) d \<le> ceil_div (x * m) d" if "0 \<le> x" "0 \<le> q" "q \<le> m" for x q
    using that d by (intro ceil_div_mono mult_left_mono mult_nonneg_nonneg) auto
  have "ceil_div (a * m) d + ceil_div (b * m) d \<le> ceil_div (a * m + b * m) d + 1"
    using n m d by (intro ceil_div_add) auto
  moreover have "ceil_div (a * m + b * m) d + ceil_div (c * m) d
      \<le> ceil_div (a * m + b * m + c * m) d + 1"
    using n m d by (intro ceil_div_add) auto
  moreover have "ceil_div (a * m + b * m + c * m) d \<le> ceil_div (n * m) d"
  proof (rule ceil_div_mono)
    have "(a + b + c) * m \<le> n * m" using n m by (intro mult_right_mono) auto
    then show "a * m + b * m + c * m \<le> n * m" by (simp add: algebra_simps)
  qed (use n m d in auto)
  ultimately show ?thesis
    using up [of a r1] up [of b r2] up [of c r3] r n by linarith
qed

lemma tier_reservation_covers:
  assumes p: "price_nonneg (tier_price t)" and res: "tier_reservation inp out t = Some n"
    and z: "cache_write_5m_tokens u = 0" "cache_write_1h_tokens u = 0"
    and le: "uint (whole_prompt u) \<le> uint inp" "output_tokens u \<le> out"
  shows "fst (token_cost u (tier_price t)) \<le> n" and "0 \<le> n"
proof -
  let ?p = "tier_price t"
  let ?m = "Max {input_nanos_per_mtok ?p, cached_input_nanos_per_mtok ?p,
            (case cache_write_nanos_per_mtok ?p of None \<Rightarrow> input_nanos_per_mtok ?p | Some r \<Rightarrow> r)}"
  let ?w = "case cache_write_nanos_per_mtok ?p of None \<Rightarrow> 0 | Some r \<Rightarrow> r"
  note nn = p [unfolded price_nonneg_def]
  have n: "n = ceil_div (uint inp * ?m) tokens_per_mtok + 2
      + ceil_div (uint out * output_nanos_per_mtok ?p) tokens_per_mtok"
    using res by (auto simp: tier_reservation_def Let_def ceil_div_def tokens_per_mtok_def)
  have m: "0 \<le> ?m" "input_nanos_per_mtok ?p \<le> ?m" "cached_input_nanos_per_mtok ?p \<le> ?m"
    "?w \<le> ?m" "0 \<le> ?w"
    using nn by (auto split: option.split simp: le_max_iff_disj)
  show "0 \<le> n"
    using n ceil_div_bracket(3) [of "uint inp * ?m" tokens_per_mtok] m(1)
      ceil_div_bracket(3) [of "uint out * output_nanos_per_mtok ?p" tokens_per_mtok] nn by simp
  have three: "ceil_div (uint (input_tokens u) * input_nanos_per_mtok ?p) tokens_per_mtok
      + ceil_div (uint (cached_input_tokens u) * cached_input_nanos_per_mtok ?p) tokens_per_mtok
      + ceil_div (uint (cache_write_tokens u) * ?w) tokens_per_mtok
      \<le> ceil_div (uint inp * ?m) tokens_per_mtok + 2"
    using le(1) z m nn by (intro three_categories_le) (auto simp: uint_whole_prompt)
  have out: "ceil_div (uint (output_tokens u) * output_nanos_per_mtok ?p) tokens_per_mtok
      \<le> ceil_div (uint out * output_nanos_per_mtok ?p) tokens_per_mtok"
    using le(2) nn by (intro ceil_div_mono mult_right_mono) (auto simp: word_le_def)
  have w: "category_cost (cache_write_tokens u, cache_write_nanos_per_mtok ?p)
      = ceil_div (uint (cache_write_tokens u) * ?w) tokens_per_mtok"
    by (cases "cache_write_nanos_per_mtok ?p") auto
  have zero: "category_cost (0, r) = 0" for r by (cases r) auto
  show "fst (token_cost u (tier_price t)) \<le> n"
    unfolding token_cost_fst n using three out
    by (simp add: categories_def w z zero)
qed

lemma decision_reservation_Some:
  assumes "decision_reservation book now inp out = Some res"
  shows "\<exists>t \<in> set book. tier_covers t now \<and> tier_reservation inp out t = Some res"
    and "\<And>t. t \<in> set book \<Longrightarrow> tier_covers t now
       \<Longrightarrow> \<exists>n. tier_reservation inp out t = Some n \<and> n \<le> res"
proof -
  let ?ts = "filter (\<lambda>t. tier_covers t now) book"
  obtain x xs where xs: "collect_options (map (tier_reservation inp out) ?ts) = Some (x # xs)"
    and res: "res = Max (set (x # xs))"
    using assms by (auto simp: decision_reservation_def split: option.splits list.splits)
  from xs have m: "map (tier_reservation inp out) ?ts = map Some (x # xs)"
    by (simp only: collect_options_Some)
  have s: "Some ` set (x # xs) = tier_reservation inp out ` set ?ts"
    using arg_cong [OF m, of set] by simp
  have "res \<in> set (x # xs)" unfolding res by (rule Max_in) auto
  then have "Some res \<in> tier_reservation inp out ` set ?ts" using s by blast
  then show "\<exists>t \<in> set book. tier_covers t now \<and> tier_reservation inp out t = Some res" by auto
  fix t assume "t \<in> set book" "tier_covers t now"
  then have "tier_reservation inp out t \<in> Some ` set (x # xs)" using s by auto
  then show "\<exists>n. tier_reservation inp out t = Some n \<and> n \<le> res"
    unfolding res by (auto simp del: set_simps intro: Max_ge)
qed

text \<open>C40: A reservation bounds the price of the use it was quoted for: of a book whose prices are not
  negative, as the checks of both price tables keep them, a line of at most the quoted prompt and output
  tokens (with no lifetime-specific cache writes and no runtime) is rated by the same book at the same
  instant at no more than the reservation, whichever covering tier it falls in and however its cache
  categories round.  It bounds the use quoted and no other: a receipt that reports more tokens than were
  quoted is rated at what it reports.\<close>

theorem reservation_bounds_the_quoted_use:
  assumes nonneg: "book_nonneg book"
    and reserved: "decision_reservation book now inp out = Some res"
    and rated: "rate book Platform \<lparr>win_from = now, win_until = now\<rparr> line = Inr r"
    and shape: "cache_write_5m_tokens line = 0" "cache_write_1h_tokens line = 0"
      "runtime_ms line = 0"
    and within: "uint (whole_prompt line) \<le> uint inp" "output_tokens line \<le> out"
  shows "charged r \<le> res"
proof -
  have now: "window_clamp \<lparr>win_from = now, win_until = now\<rparr> (at line) = now"
    by (simp add: window_clamp_def ord_clamp_def)
  show ?thesis
  proof (cases "quote book now (whole_prompt line)")
    case None
    obtain t where t: "t \<in> set book" "tier_reservation inp out t = Some res"
      using decision_reservation_Some(1) [OF reserved] by auto
    have "0 \<le> res"
      using tier_reservation_covers(2) [OF book_nonneg_tier [OF nonneg t(1)] t(2) shape(1,2) within] .
    with None rated show ?thesis
      by (auto simp: rate_Inr Let_def now runtime_cost_eq shape)
  next
    case (Some t)
    note q = quote_Some [OF Some]
    obtain n where n: "tier_reservation inp out t = Some n" "n \<le> res"
      using decision_reservation_Some(2) [OF reserved q(1,2)] by auto
    have "fst (token_cost line (tier_price t)) \<le> n"
      using tier_reservation_covers(1) [OF book_nonneg_tier [OF nonneg q(1)] n(1) shape(1,2) within] .
    with Some n(2) rated show ?thesis
      by (auto simp: rate_Inr Let_def now runtime_cost_eq shape)
  qed
qed

end
