(* ===== verification/Ledger.thy ===== *)
theory Ledger
  imports Pricing
begin

text \<open>
  The built-in biller, \<open>afd_billing/src/biller/mod.rs\<close>, \<open>biller/outage/mod.rs\<close>,
  \<open>ledger/mod.rs\<close>, \<open>ledger/lines.rs\<close> and \<open>ledger/settle.rs\<close>, with the
  statements of \<open>ledger/sql/\<close> they run.  The store is the two tables the statements
  touch: \<open>billing.usage_lines\<close> as the list of its rows and \<open>billing.wallets\<close> as a map.
  A failed statement rolls its transaction back, so an error returns no new store.
  Row times are kept as written (the millisecond rounding of the columns is not modelled).
\<close>

section \<open>Work, payer and settlement\<close>

datatype work_key = FleetLease uuid7 | AuthoringAttempt uuid7

fun work_type :: "work_key \<Rightarrow> string" where
  "work_type (FleetLease _) = ''fleet_lease''"
| "work_type (AuthoringAttempt _) = ''authoring_attempt''"

fun work_id :: "work_key \<Rightarrow> uuid7" where
  "work_id (FleetLease i) = i"
| "work_id (AuthoringAttempt i) = i"

record account =
  tenant :: uuid7
  workspace :: uuid7

datatype attribution =
    AttrFleet (attr_fleet: uuid7) (attr_fleet_name: string) (attr_event_id: string)
  | SetupChat

record settlement =
  work :: work_key
  payer :: account
  attr :: attribution
  provider :: string
  model :: string
  s_posture :: posture
  lines :: "rated_line list"

record receipt =
  settled_lines :: nat
  r_charged :: nanos
  r_taken :: nanos

definition zero_receipt :: receipt where
  "zero_receipt = \<lparr>settled_lines = 0, r_charged = 0, r_taken = 0\<rparr>"

section \<open>Funds\<close>

datatype funds = Covered | Short (available: nanos) (asked: nanos) | Unconfirmed

definition funds_of :: "nanos \<Rightarrow> nanos \<Rightarrow> funds" where
  "funds_of left ask = (if ask \<le> left then Covered else Short (max left 0) ask)"

record balance =
  bal_balance :: nanos
  bal_unsettled :: nanos
  bal_exhausted_at :: "instant option"

definition balance_left :: "balance \<Rightarrow> nanos" where
  "balance_left b = saturating_sub (bal_balance b) (bal_unsettled b)"

record ask =
  ask_work :: work_key
  ask_payer :: account
  ask_next :: nanos

section \<open>The store\<close>

record usage_row =
  line_id :: uuid7
  row_work_type :: string
  row_work_id :: string
  row_seq :: int
  row_tenant_id :: string
  row_workspace_id :: string
  row_fleet_id :: "string option"
  row_fleet_name :: "string option"
  row_event_id :: "string option"
  row_attempt_id :: "string option"
  row_provider :: string
  row_model :: string
  row_posture :: string
  requested_at :: instant
  input_token_count :: int
  cached_input_token_count :: int
  cache_write_token_count :: int
  cache_write_5m_token_count :: int
  cache_write_1h_token_count :: int
  output_token_count :: int
  row_runtime_ms :: int
  price_id :: "string option"
  unpriced_token_count :: int
  charged_nanos :: int
  settled_at :: "instant option"
  logged_at :: instant

record wallet =
  balance_nanos :: nanos
  exhausted_at :: "instant option"

record billing_db =
  usage_lines :: "usage_row list"
  wallets :: "string \<rightharpoonup> wallet"

section \<open>Logging lines\<close>

definition row_of :: "settlement \<Rightarrow> instant \<Rightarrow> uuid7 \<Rightarrow> int \<Rightarrow> rated_line \<Rightarrow> usage_row" where
  "row_of s now lid unpriced l =
     (let u = usage l;
          (fleet, fleet_name, event, attempt) =
            (case attr s of
               AttrFleet f n e \<Rightarrow> (Some (as_str f), Some n, Some e, None)
             | SetupChat \<Rightarrow> (None, None, None, Some (as_str (work_id (work s)))))
      in \<lparr> line_id = lid, row_work_type = work_type (work s),
           row_work_id = as_str (work_id (work s)), row_seq = uint (seq u),
           row_tenant_id = as_str (tenant (payer s)),
           row_workspace_id = as_str (workspace (payer s)),
           row_fleet_id = fleet, row_fleet_name = fleet_name, row_event_id = event,
           row_attempt_id = attempt, row_provider = provider s, row_model = model s,
           row_posture = posture_as_str (s_posture s), requested_at = at u,
           input_token_count = uint (input_tokens u),
           cached_input_token_count = uint (cached_input_tokens u),
           cache_write_token_count = uint (cache_write_tokens u),
           cache_write_5m_token_count = uint (cache_write_5m_tokens u),
           cache_write_1h_token_count = uint (cache_write_1h_tokens u),
           output_token_count = uint (output_tokens u), row_runtime_ms = uint (runtime_ms u),
           price_id = map_option as_str (rated_price l), unpriced_token_count = unpriced,
           charged_nanos = charged l, settled_at = None, logged_at = now \<rparr>)"

text \<open>\<open>(work_type, work_id, seq)\<close>, the table's unique key.\<close>

definition line_key :: "usage_row \<Rightarrow> string \<times> string \<times> int" where
  "line_key r = (row_work_type r, row_work_id r, row_seq r)"

text \<open>
  \<open>insert_lines.sql\<close>, one row: the check constraint first, then the conflict clause,
  then the primary key.  The inserted rows are collected for the trailing sum.
\<close>

fun insert_rows :: "usage_row list \<Rightarrow> usage_row list \<Rightarrow> usage_row list
    \<Rightarrow> (billing_error, usage_row list \<times> usage_row list) result" where
  "insert_rows [] table fresh = Inr (table, fresh)"
| "insert_rows (r # rs) table fresh =
     (if charged_nanos r < 0 then Inl QueryFailed
      else if line_key r \<in> line_key ` set table then insert_rows rs table fresh
      else if line_id r \<in> line_id ` set table then Inl QueryFailed
      else insert_rows rs (table @ [r]) (fresh @ [r]))"

definition insert_lines_sql :: "usage_row list \<Rightarrow> billing_db
    \<Rightarrow> (billing_error, nanos \<times> billing_db) result" where
  "insert_lines_sql rows db =
     res_bind (insert_rows rows (usage_lines db) []) (\<lambda>(table, fresh).
       res_bind (ok_or QueryFailed (try_i64 (sum_list (map charged_nanos
           (filter (\<lambda>r. row_seq r < uint daemon_seq_base) fresh)))))
         (\<lambda>total. Inr (total, db\<lparr>usage_lines := table\<rparr>)))"

text \<open>\<open>mint i\<close> is the identifier the entropy source yields for the i-th line, if any.\<close>

definition log_lines :: "(nat \<Rightarrow> uuid7 option) \<Rightarrow> instant \<Rightarrow> settlement \<Rightarrow> billing_db
    \<Rightarrow> (billing_error, nanos \<times> billing_db) result" where
  "log_lines mint now s db =
     (if lines s = [] then Inr (0, db)
      else res_bind (traverse (\<lambda>i. ok_or Entropy (mint i)) [0 ..< length (lines s)]) (\<lambda>ids.
        res_bind (traverse (\<lambda>l. ok_or ChargeOverflow (try_i64 (uint (unpriced_tokens l)))) (lines s))
          (\<lambda>unpriced. insert_lines_sql
             (map (\<lambda>(lid, u, l). row_of s now lid u l) (zip ids (zip unpriced (lines s)))) db)))"

section \<open>Charging\<close>

definition settle_hit :: "work_key \<Rightarrow> int set \<Rightarrow> usage_row \<Rightarrow> bool" where
  "settle_hit w seqs r \<longleftrightarrow> row_work_type r = work_type w \<and> row_work_id r = as_str (work_id w)
     \<and> settled_at r = None \<and> row_seq r \<in> seqs"

text \<open>\<open>settle_lines.sql\<close>: stamps the hit rows and answers what they cost.\<close>

definition settle_lines_sql :: "work_key \<Rightarrow> int set \<Rightarrow> instant \<Rightarrow> billing_db
    \<Rightarrow> int list \<times> billing_db" where
  "settle_lines_sql w seqs now db =
     (map charged_nanos (filter (settle_hit w seqs) (usage_lines db)),
      db\<lparr>usage_lines := map (\<lambda>r. if settle_hit w seqs r then r\<lparr>settled_at := Some now\<rparr> else r)
           (usage_lines db)\<rparr>)"

text \<open>\<open>debit_wallet.sql\<close>: whether a row was debited, and the store after it.\<close>

definition debit_wallet_sql :: "string \<Rightarrow> nanos \<Rightarrow> instant \<Rightarrow> billing_db
    \<Rightarrow> (billing_error, bool \<times> billing_db) result" where
  "debit_wallet_sql t amount now db =
     (case wallets db t of
        None \<Rightarrow> Inr (False, db)
      | Some w \<Rightarrow>
          (case try_i64 (balance_nanos w - amount) of
             None \<Rightarrow> Inl QueryFailed
           | Some b \<Rightarrow> Inr (True, db\<lparr>wallets := (wallets db)(t \<mapsto>
               \<lparr> balance_nanos = b,
                 exhausted_at = (if b \<le> 0 then
                     (case exhausted_at w of None \<Rightarrow> Some now | Some e \<Rightarrow> Some e) else None) \<rparr>)\<rparr>)))"

definition charge :: "instant \<Rightarrow> settlement \<Rightarrow> billing_db
    \<Rightarrow> (billing_error, receipt \<times> billing_db) result" where
  "charge now s db =
     (let seqs = set (map (\<lambda>l. uint (seq (usage l))) (lines s));
          (charged, db1) = settle_lines_sql (work s) seqs now db
      in res_bind (ok_or ChargeOverflow (checked_sum 0 charged)) (\<lambda>total.
           if total = 0 then Inr (zero_receipt\<lparr>settled_lines := length charged\<rparr>, db1)
           else res_bind (debit_wallet_sql (as_str (tenant (payer s))) total now db1)
             (\<lambda>(debited, db2). Inr (\<lparr> settled_lines = length charged, r_charged = total,
                r_taken = (if debited then total else 0) \<rparr>, db2))))"

text \<open>\<open>LedgerBiller::settle\<close>: log, then charge, in one transaction.\<close>

definition ledger_settle :: "(nat \<Rightarrow> uuid7 option) \<times> instant \<Rightarrow> settlement \<Rightarrow> billing_db
    \<Rightarrow> (billing_error, receipt \<times> billing_db) result" where
  "ledger_settle env s db =
     (case env of (mint, now) \<Rightarrow>
       res_bind (log_lines mint now s db) (\<lambda>(_, db1). charge now s db1))"

section \<open>Reading a balance\<close>

text \<open>\<open>select_balance.sql\<close> under \<open>Biller::balance\<close>.\<close>

definition unsettled_of :: "string \<Rightarrow> billing_db \<Rightarrow> int" where
  "unsettled_of t db = sum_list (map charged_nanos
     (filter (\<lambda>r. row_tenant_id r = t \<and> settled_at r = None) (usage_lines db)))"

definition ledger_balance :: "string \<Rightarrow> billing_db \<Rightarrow> (billing_error, balance) result" where
  "ledger_balance t db =
     (case wallets db t of
        None \<Rightarrow> Inl WalletMissing
      | Some w \<Rightarrow>
          (case try_i64 (unsettled_of t db) of
             None \<Rightarrow> Inl QueryFailed
           | Some owed \<Rightarrow> Inr \<lparr> bal_balance = balance_nanos w, bal_unsettled = owed,
               bal_exhausted_at = exhausted_at w \<rparr>))"

definition ledger_check :: "ask \<Rightarrow> billing_db \<Rightarrow> (billing_error, funds) result" where
  "ledger_check a db =
     res_bind (ledger_balance (as_str (tenant (ask_payer a))) db)
       (\<lambda>b. Inr (funds_of (balance_left b) (ask_next a)))"

section \<open>Outage policy\<close>

datatype outage_policy = OutageOpen | OutageClosed

text \<open>
  \<open>is_unanswered\<close>: the datastore was unreachable, or a statement gave up waiting.  Which
  query failures are lost connections or timeouts is read off the driver's error, so the
  classification is an argument.
\<close>

definition policy_check :: "(billing_error \<Rightarrow> bool) \<Rightarrow> outage_policy
    \<Rightarrow> (billing_error, funds) result \<Rightarrow> (billing_error, funds) result" where
  "policy_check is_unanswered policy inner =
     (case (inner, policy) of
        (Inl fault, OutageOpen) \<Rightarrow> if is_unanswered fault then Inr Unconfirmed else inner
      | (answer, _) \<Rightarrow> answer)"

section \<open>The store's invariant\<close>

text \<open>The table's unique key, primary key and check constraint.\<close>

definition db_wf :: "billing_db \<Rightarrow> bool" where
  "db_wf db \<longleftrightarrow> distinct (map line_key (usage_lines db)) \<and> distinct (map line_id (usage_lines db))
     \<and> list_all (\<lambda>r. 0 \<le> charged_nanos r) (usage_lines db)"

definition settlement_key :: "settlement \<Rightarrow> rated_line \<Rightarrow> string \<times> string \<times> int" where
  "settlement_key s l = (work_type (work s), as_str (work_id (work s)), uint (seq (usage l)))"

text \<open>Every line of the settlement is logged and stamped settled.\<close>

definition charged_for :: "settlement \<Rightarrow> billing_db \<Rightarrow> bool" where
  "charged_for s db \<longleftrightarrow> (\<forall>l \<in> set (lines s). \<exists>r \<in> set (usage_lines db).
     line_key r = settlement_key s l \<and> settled_at r \<noteq> None)"

lemma row_of_simps [simp]:
  "line_key (row_of s now i u l) = settlement_key s l"
  "charged_nanos (row_of s now i u l) = charged l"
  "settled_at (row_of s now i u l) = None"
  "row_tenant_id (row_of s now i u l) = as_str (tenant (payer s))"
  "row_seq (row_of s now i u l) = uint (seq (usage l))"
  by (simp_all add: row_of_def line_key_def settlement_key_def Let_def split: attribution.split)

lemma insert_rows_Inr:
  assumes "insert_rows rs tb fr = Inr (tb', fr')"
  shows "\<exists>new. tb' = tb @ new \<and> fr' = fr @ new \<and> set new \<subseteq> set rs
     \<and> (\<forall>r \<in> set rs. 0 \<le> charged_nanos r \<and> line_key r \<in> line_key ` set tb')
     \<and> (distinct (map line_key tb) \<longrightarrow> distinct (map line_key tb'))
     \<and> (distinct (map line_id tb) \<longrightarrow> distinct (map line_id tb'))"
  using assms
proof (induction rs arbitrary: tb fr)
  case Nil
  then show ?case by simp
next
  case (Cons r rs)
  from Cons.prems have r: "0 \<le> charged_nanos r" by (auto split: if_splits)
  show ?case
  proof (cases "line_key r \<in> line_key ` set tb")
    case True
    with Cons.prems r have "insert_rows rs tb fr = Inr (tb', fr')" by simp
    from Cons.IH [OF this] True r show ?thesis by fastforce
  next
    case False
    with Cons.prems r have i: "line_id r \<notin> line_id ` set tb"
      and ins: "insert_rows rs (tb @ [r]) (fr @ [r]) = Inr (tb', fr')"
      by (auto split: if_splits)
    from Cons.IH [OF ins] False i r show ?thesis by fastforce
  qed
qed

lemma insert_rows_present:
  "\<forall>r \<in> set rs. 0 \<le> charged_nanos r \<and> line_key r \<in> line_key ` set tb
     \<Longrightarrow> insert_rows rs tb fr = Inr (tb, fr)"
  by (induction rs) auto

text \<open>What a successful log leaves behind: the old rows and some new, unsettled ones.\<close>

lemma log_lines_Inr:
  assumes "log_lines mint now s db = Inr (n, db1)"
  shows "\<exists>new. db1 = db\<lparr>usage_lines := usage_lines db @ new\<rparr>
     \<and> (\<forall>r \<in> set new. \<exists>i u l. l \<in> set (lines s) \<and> r = row_of s now i u l)
     \<and> (\<forall>l \<in> set (lines s). 0 \<le> charged l \<and> settlement_key s l \<in> line_key ` set (usage_lines db1))
     \<and> (db_wf db \<longrightarrow> db_wf db1)"
proof (cases "lines s = []")
  case True
  with assms show ?thesis by (auto simp: log_lines_def intro!: exI [of _ "[]"])
next
  case False
  with assms obtain ids unpriced where
    ids: "traverse (\<lambda>i. ok_or Entropy (mint i)) [0 ..< length (lines s)] = Inr ids"
    and un: "traverse (\<lambda>l. ok_or ChargeOverflow (try_i64 (uint (unpriced_tokens l)))) (lines s)
       = Inr unpriced"
    and ins: "insert_lines_sql (map (\<lambda>(lid, u, l). row_of s now lid u l)
         (zip ids (zip unpriced (lines s)))) db = Inr (n, db1)"
    by (auto simp: log_lines_def result_simps)
  let ?rows = "map (\<lambda>(lid, u, l). row_of s now lid u l) (zip ids (zip unpriced (lines s)))"
  from ins obtain tb' fr' where tb: "insert_rows ?rows (usage_lines db) [] = Inr (tb', fr')"
    and db1: "db1 = db\<lparr>usage_lines := tb'\<rparr>"
    by (auto simp: insert_lines_sql_def result_simps)
  have len: "length ids = length (lines s)" "length unpriced = length (lines s)"
    using traverse_length [OF ids] traverse_length [OF un] by auto
  have ex: "\<exists>i u. row_of s now i u l \<in> set ?rows" if "l \<in> set (lines s)" for l
  proof -
    from that obtain k where k: "k < length (lines s)" "lines s ! k = l"
      by (auto simp: in_set_conv_nth)
    then have "?rows ! k = row_of s now (ids ! k) (unpriced ! k) l" "k < length ?rows"
      using len by simp_all
    then show ?thesis by (metis nth_mem)
  qed
  from insert_rows_Inr [OF tb] obtain new where new: "tb' = usage_lines db @ new"
    "set new \<subseteq> set ?rows"
    "\<forall>r \<in> set ?rows. 0 \<le> charged_nanos r \<and> line_key r \<in> line_key ` set tb'"
    "distinct (map line_key (usage_lines db)) \<longrightarrow> distinct (map line_key tb')"
    "distinct (map line_id (usage_lines db)) \<longrightarrow> distinct (map line_id tb')"
    by blast
  have rows: "\<exists>i u l. l \<in> set (lines s) \<and> r = row_of s now i u l" if "r \<in> set ?rows" for r
    using that by (auto dest!: set_zip_rightD)
  have key: "0 \<le> charged l \<and> settlement_key s l \<in> line_key ` set tb'" if l: "l \<in> set (lines s)" for l
    using ex [OF l] new(3) by (metis row_of_simps(1,2))
  have "db_wf db1" if "db_wf db"
    using that new by (fastforce simp: db_wf_def db1 list_all_iff)
  with new rows key show ?thesis
    unfolding db1 by (intro exI [of _ new]) (auto simp: subset_iff)
qed

lemma log_lines_present:
  assumes "\<forall>l \<in> set (lines s). settlement_key s l \<in> line_key ` set (usage_lines db)"
    and "log_lines mint now s db = Inr (n, db1)"
  shows "db1 = db"
proof (cases "lines s = []")
  case True
  with assms(2) show ?thesis by (simp add: log_lines_def)
next
  case False
  let ?rows = "\<lambda>ids unpriced. map (\<lambda>(lid, u, l). row_of s now lid u l) (zip ids (zip unpriced (lines s)))"
  from assms(2) False obtain ids unpriced tb fr where
    tb: "insert_rows (?rows ids unpriced) (usage_lines db) [] = Inr (tb, fr)"
    and db1: "db1 = db\<lparr>usage_lines := tb\<rparr>"
    by (auto simp: log_lines_def insert_lines_sql_def result_simps)
  have "\<forall>r \<in> set (?rows ids unpriced). 0 \<le> charged_nanos r"
    using insert_rows_Inr [OF tb] by blast
  moreover have "\<forall>r \<in> set (?rows ids unpriced). line_key r \<in> line_key ` set (usage_lines db)"
    using assms(1) by (auto dest!: set_zip_rightD)
  ultimately have "insert_rows (?rows ids unpriced) (usage_lines db) [] = Inr (usage_lines db, [])"
    by (intro insert_rows_present) auto
  with tb db1 show ?thesis by simp
qed

section \<open>Charging: which rows, how much\<close>

lemma settle_hit_key:
  "settle_hit (work s) (((\<lambda>l. uint (seq (usage l))) ` set (lines s))) r
     \<longleftrightarrow> settled_at r = None \<and> line_key r \<in> settlement_key s ` set (lines s)"
  by (auto simp: settle_hit_def line_key_def settlement_key_def)

definition hit :: "settlement \<Rightarrow> usage_row \<Rightarrow> bool" where
  "hit s r \<longleftrightarrow> settled_at r = None \<and> line_key r \<in> settlement_key s ` set (lines s)"

definition stamp :: "settlement \<Rightarrow> instant \<Rightarrow> usage_row \<Rightarrow> usage_row" where
  "stamp s now r = (if hit s r then r\<lparr>settled_at := Some now\<rparr> else r)"

definition hit_total :: "settlement \<Rightarrow> billing_db \<Rightarrow> int" where
  "hit_total s db = sum_list (map charged_nanos (filter (hit s) (usage_lines db)))"

lemma stamp_simps [simp]:
  "line_key (stamp s now r) = line_key r" "line_id (stamp s now r) = line_id r"
  "charged_nanos (stamp s now r) = charged_nanos r"
  "row_tenant_id (stamp s now r) = row_tenant_id r"
  "settled_at (stamp s now r) = None \<longleftrightarrow> settled_at r = None \<and> \<not> hit s r"
  by (simp_all add: stamp_def line_key_def)

lemma charge_Inr:
  assumes "charge now s db = Inr (r, db')"
  shows "usage_lines db' = map (stamp s now) (usage_lines db)"
    and "settled_lines r = length (filter (hit s) (usage_lines db))"
    and "r_charged r = hit_total s db"
    and "r_taken r = (if wallets db (as_str (tenant (payer s))) = None then 0 else hit_total s db)"
    and "\<And>t. map_option balance_nanos (wallets db' t) =
          map_option (\<lambda>w. balance_nanos w -
            (if t = as_str (tenant (payer s)) then hit_total s db else 0)) (wallets db t)"
proof -
  let ?seqs = "((\<lambda>l. uint (seq (usage l))) ` set (lines s))"
  let ?db1 = "snd (settle_lines_sql (work s) ?seqs now db)"
  let ?ch = "map charged_nanos (filter (hit s) (usage_lines db))"
  have hits: "settle_hit (work s) ?seqs = hit s"
    by (rule ext) (simp only: settle_hit_key hit_def)
  have sql: "settle_lines_sql (work s) ?seqs now db
      = (?ch, db\<lparr>usage_lines := map (stamp s now) (usage_lines db)\<rparr>)"
    unfolding settle_lines_sql_def hits stamp_def [abs_def] by simp
  from assms obtain total where total: "checked_sum 0 ?ch = Some total"
    and rest: "(if total = 0 then Inr (zero_receipt\<lparr>settled_lines := length ?ch\<rparr>,
          db\<lparr>usage_lines := map (stamp s now) (usage_lines db)\<rparr>)
       else res_bind (debit_wallet_sql (as_str (tenant (payer s))) total now
          (db\<lparr>usage_lines := map (stamp s now) (usage_lines db)\<rparr>))
        (\<lambda>(debited, db2). Inr (\<lparr> settled_lines = length ?ch, r_charged = total,
           r_taken = (if debited then total else 0) \<rparr>, db2))) = Inr (r, db')"
    by (auto simp: charge_def Let_def sql result_simps)
  have t: "total = hit_total s db"
    using checked_sum_Some [OF total] by (simp add: hit_total_def)
  show "usage_lines db' = map (stamp s now) (usage_lines db)"
    and "settled_lines r = length (filter (hit s) (usage_lines db))"
    and "r_charged r = hit_total s db"
    and "r_taken r = (if wallets db (as_str (tenant (payer s))) = None then 0 else hit_total s db)"
    using rest
    by (auto simp: t result_simps debit_wallet_sql_def zero_receipt_def split: if_splits option.splits)
  show "map_option balance_nanos (wallets db' u) =
          map_option (\<lambda>w. balance_nanos w -
            (if u = as_str (tenant (payer s)) then hit_total s db else 0)) (wallets db u)" for u
    using rest
    by (auto simp: t result_simps debit_wallet_sql_def zero_receipt_def option.map_ident
        split: if_splits option.splits)
qed

lemma charge_wf:
  assumes "charge now s db = Inr (r, db')" "db_wf db"
  shows "db_wf db'"
proof -
  have "line_key \<circ> stamp s now = line_key" "line_id \<circ> stamp s now = line_id" by auto
  with assms(2) show ?thesis
    by (simp add: db_wf_def charge_Inr(1) [OF assms(1)] list_all_iff)
qed

lemma charge_nothing:
  assumes "\<forall>r \<in> set (usage_lines db). \<not> hit s r"
  shows "charge now s db = Inr (zero_receipt, db)"
proof -
  let ?seqs = "((\<lambda>l. uint (seq (usage l))) ` set (lines s))"
  have hits: "settle_hit (work s) ?seqs = hit s"
    by (rule ext) (simp only: settle_hit_key hit_def)
  have "settle_lines_sql (work s) ?seqs now db = ([], db)"
    using assms by (simp add: settle_lines_sql_def hits filter_empty_conv map_idI)
  then show ?thesis
    by (simp add: charge_def Let_def zero_receipt_def)
qed

section \<open>The biller contract\<close>

text \<open>
  The \<open>Biller\<close> trait as its clients rely on it: a settlement that was charged once is never
  charged again, whatever runs in between.
\<close>

locale biller =
  fixes settle :: "'env \<Rightarrow> settlement \<Rightarrow> 's \<Rightarrow> (billing_error, receipt \<times> 's) result"
    and invar :: "'s \<Rightarrow> bool"
    and settled_for :: "settlement \<Rightarrow> 's \<Rightarrow> bool"
  assumes settle_invar: "invar db \<Longrightarrow> settle env s db = Inr (r, db') \<Longrightarrow> invar db'"
    and settle_marks: "invar db \<Longrightarrow> settle env s db = Inr (r, db') \<Longrightarrow> settled_for s db'"
    and settled_stays: "invar db \<Longrightarrow> settled_for s db \<Longrightarrow> settle env s' db = Inr (r, db')
          \<Longrightarrow> settled_for s db'"
    and settled_once: "invar db \<Longrightarrow> settled_for s db \<Longrightarrow> settle env s db = Inr (r, db')
          \<Longrightarrow> r = zero_receipt \<and> db' = db"
begin

lemma settle_twice:
  assumes "invar db" "settle env s db = Inr (r, db1)" "settle env' s db1 = Inr (r', db2)"
  shows "r' = zero_receipt \<and> db2 = db1"
  using assms settle_invar settle_marks settled_once by blast

lemma settle_between:
  assumes "invar db" "settle env s db = Inr (r, db1)" "settle env' s' db1 = Inr (r', db2)"
    "settle env'' s db2 = Inr (r'', db3)"
  shows "r'' = zero_receipt \<and> db3 = db2"
  using assms settle_invar settle_marks settled_stays settled_once by metis

end

lemma charged_for_append:
  assumes "charged_for s db" "usage_lines db' = map f (usage_lines db @ new)"
    and "\<And>r. line_key (f r) = line_key r" "\<And>r. settled_at r \<noteq> None \<Longrightarrow> settled_at (f r) \<noteq> None"
  shows "charged_for s db'"
  unfolding charged_for_def
proof
  fix l assume "l \<in> set (lines s)"
  with assms(1) obtain r where "r \<in> set (usage_lines db)" "line_key r = settlement_key s l"
    "settled_at r \<noteq> None"
    by (auto simp: charged_for_def)
  with assms(2-4) show "\<exists>r \<in> set (usage_lines db'). line_key r = settlement_key s l \<and> settled_at r \<noteq> None"
    by (intro bexI [of _ "f r"]) auto
qed

text \<open>A successful settlement, seen from the tables.\<close>

lemma ledger_settle_Inr:
  assumes "ledger_settle (mint, now) s db = Inr (r, db')"
  obtains new db1 where "db1 = db\<lparr>usage_lines := usage_lines db @ new\<rparr>"
    "\<forall>x \<in> set new. \<exists>i u l. l \<in> set (lines s) \<and> x = row_of s now i u l"
    "\<forall>l \<in> set (lines s). 0 \<le> charged l \<and> settlement_key s l \<in> line_key ` set (usage_lines db1)"
    "db_wf db \<longrightarrow> db_wf db1" "charge now s db1 = Inr (r, db')"
    "usage_lines db' = map (stamp s now) (usage_lines db @ new)"
proof -
  from assms obtain n db1 where l: "log_lines mint now s db = Inr (n, db1)"
    and c: "charge now s db1 = Inr (r, db')"
    by (auto simp: ledger_settle_def result_simps)
  from log_lines_Inr [OF l] obtain new where n: "db1 = db\<lparr>usage_lines := usage_lines db @ new\<rparr>"
    "\<forall>x \<in> set new. \<exists>i u l. l \<in> set (lines s) \<and> x = row_of s now i u l"
    "\<forall>l \<in> set (lines s). 0 \<le> charged l \<and> settlement_key s l \<in> line_key ` set (usage_lines db1)"
    "db_wf db \<longrightarrow> db_wf db1"
    by blast
  show thesis
    using that [OF n c] charge_Inr(1) [OF c] n(1) by simp
qed

lemma stamp_hit_settled:
  assumes "line_key x = settlement_key s l" "l \<in> set (lines s)"
  shows "settled_at (stamp s now x) \<noteq> None"
  using assms by (auto simp: hit_def)

lemma charged_for_no_hit:
  assumes "db_wf db" "charged_for s db"
  shows "\<forall>x \<in> set (usage_lines db). \<not> hit s x"
proof
  fix x assume x: "x \<in> set (usage_lines db)"
  show "\<not> hit s x"
  proof
    assume "hit s x"
    then obtain l where l: "l \<in> set (lines s)" "line_key x = settlement_key s l"
      and u: "settled_at x = None" by (auto simp: hit_def)
    from assms(2) l(1) obtain y where y: "y \<in> set (usage_lines db)"
      "line_key y = settlement_key s l" "settled_at y \<noteq> None" by (auto simp: charged_for_def)
    have "x = y"
      using assms(1) x y l(2) by (auto simp: db_wf_def distinct_map inj_on_def)
    with u y(3) show False by simp
  qed
qed

interpretation lb: biller ledger_settle db_wf charged_for
proof (unfold_locales)
  fix env :: "(nat \<Rightarrow> uuid7 option) \<times> instant" and s s' r db db'
  assume wf: "db_wf db"
  obtain mint now where env: "env = (mint, now)" by (cases env)
  {
    assume "ledger_settle env s db = Inr (r, db')"
    then have l: "ledger_settle (mint, now) s db = Inr (r, db')" by (simp add: env)
    from ledger_settle_Inr [OF l] obtain new db1 where d: "db_wf db \<longrightarrow> db_wf db1"
      "charge now s db1 = Inr (r, db')" by metis
    with wf show "db_wf db'" using charge_wf by blast
    from ledger_settle_Inr [OF l] obtain new db1 where n: "db1 = db\<lparr>usage_lines := usage_lines db @ new\<rparr>"
      "\<forall>l \<in> set (lines s). 0 \<le> charged l \<and> settlement_key s l \<in> line_key ` set (usage_lines db1)"
      "usage_lines db' = map (stamp s now) (usage_lines db @ new)" by metis
    show "charged_for s db'"
      unfolding charged_for_def
    proof
      fix l assume l: "l \<in> set (lines s)"
      with n(1,2) obtain x where "x \<in> set (usage_lines db @ new)" "line_key x = settlement_key s l"
        by fastforce
      then show "\<exists>x \<in> set (usage_lines db'). line_key x = settlement_key s l \<and> settled_at x \<noteq> None"
        using n(3) stamp_hit_settled [of x s l now] l
        by (intro bexI [of _ "stamp s now x"]) (auto simp del: stamp_simps(5))
    qed
  }
  {
    assume c: "charged_for s db" and "ledger_settle env s' db = Inr (r, db')"
    then have l: "ledger_settle (mint, now) s' db = Inr (r, db')" by (simp add: env)
    from ledger_settle_Inr [OF l] obtain new where
      "usage_lines db' = map (stamp s' now) (usage_lines db @ new)" by metis
    with c show "charged_for s db'" by (rule charged_for_append) auto
  }
  {
    assume c: "charged_for s db" and "ledger_settle env s db = Inr (r, db')"
    then obtain n db1 where l: "log_lines mint now s db = Inr (n, db1)"
      and ch: "charge now s db1 = Inr (r, db')"
      by (auto simp: env ledger_settle_def result_simps)
    have "\<forall>l \<in> set (lines s). settlement_key s l \<in> line_key ` set (usage_lines db)"
      using c unfolding charged_for_def by (metis image_eqI)
    then have "db1 = db" using l by (rule log_lines_present)
    then show "r = zero_receipt \<and> db' = db"
      using ch charge_nothing [OF charged_for_no_hit [OF wf c]] by simp
  }
qed

section \<open>What settlement guarantees\<close>

text \<open>C1: Settlement is idempotent on each line's (work, seq): settling the same settlement
  again, at any later time, under any minted identifiers and even with another settlement in
  between, charges nothing, debits nothing and leaves the store as it was.\<close>

theorem settle_never_charges_twice:
  assumes "db_wf db" "ledger_settle env s db = Inr (r, db1)"
    "ledger_settle env' other db1 = Inr (r', db2)" "ledger_settle env'' s db2 = Inr (r'', db3)"
  shows "r'' = zero_receipt \<and> db3 = db2"
  using assms by (rule lb.settle_between)

text \<open>What a payer has left, ignoring the 64-bit saturation of the read.\<close>

definition left_of :: "string \<Rightarrow> billing_db \<Rightarrow> int option" where
  "left_of t db = map_option (\<lambda>w. balance_nanos w - unsettled_of t db) (wallets db t)"

lemma unsettled_append:
  "usage_lines db' = usage_lines db @ new \<Longrightarrow> unsettled_of t db'
     = unsettled_of t db + sum_list (map charged_nanos (filter (\<lambda>r. row_tenant_id r = t \<and> settled_at r = None) new))"
  by (simp add: unsettled_of_def)

lemma unsettled_stamp_list:
  "sum_list (map charged_nanos (filter (\<lambda>r. row_tenant_id r = t \<and> settled_at r = None) (map (stamp s now) xs)))
   = sum_list (map charged_nanos (filter (\<lambda>r. row_tenant_id r = t \<and> settled_at r = None) xs))
     - sum_list (map charged_nanos (filter (\<lambda>r. row_tenant_id r = t \<and> hit s r) xs))"
  by (induction xs) (auto simp: hit_def)

lemma charge_preserves_left:
  assumes ch: "charge now s db = Inr (r, db')"
    and mine: "\<forall>x \<in> set (usage_lines db). hit s x \<longrightarrow> row_tenant_id x = as_str (tenant (payer s))"
  shows "left_of t db' = left_of t db"
proof -
  have hits: "filter (\<lambda>r. row_tenant_id r = t \<and> hit s r) (usage_lines db)
      = (if t = as_str (tenant (payer s)) then filter (hit s) (usage_lines db) else [])"
    using mine by (auto simp: filter_empty_conv intro!: filter_cong)
  have "unsettled_of t db' = unsettled_of t db
      - (if t = as_str (tenant (payer s)) then hit_total s db else 0)"
    unfolding unsettled_of_def charge_Inr(1) [OF ch] unsettled_stamp_list hits
    by (simp add: hit_total_def)
  then show ?thesis
    using charge_Inr(5) [OF ch, of t]
    by (cases "wallets db t"; cases "wallets db' t") (auto simp: left_of_def split: if_splits)
qed

text \<open>Charging is neutral and logging is what spends: after a settlement every payer with
  a wallet has left exactly what it had, less the cost of the lines this call logged for the
  first time (nothing for any payer but the settlement's), provided the lines of one work belong
  to one payer.\<close>

theorem settle_spends_only_fresh_lines:
  assumes settle: "ledger_settle env s db = Inr (r, db')"
    and mine: "\<forall>x \<in> set (usage_lines db). line_key x \<in> settlement_key s ` set (lines s)
       \<longrightarrow> row_tenant_id x = as_str (tenant (payer s))"
  shows "left_of t db' = map_option (\<lambda>n. n - (if t = as_str (tenant (payer s))
       then sum_list (map charged_nanos (drop (length (usage_lines db)) (usage_lines db'))) else 0))
     (left_of t db)"
proof -
  obtain mint now where env: "env = (mint, now)" by (cases env)
  from ledger_settle_Inr [OF settle [unfolded env]] obtain new db1 where
    db1: "db1 = db\<lparr>usage_lines := usage_lines db @ new\<rparr>"
    and new: "\<forall>x \<in> set new. \<exists>i u l. l \<in> set (lines s) \<and> x = row_of s now i u l"
    and ch: "charge now s db1 = Inr (r, db')"
    and ls: "usage_lines db' = map (stamp s now) (usage_lines db @ new)"
    by metis
  have "\<forall>x \<in> set (usage_lines db1). hit s x \<longrightarrow> row_tenant_id x = as_str (tenant (payer s))"
    using mine new by (fastforce simp: db1 hit_def)
  then have "left_of t db' = left_of t db1" by (rule charge_preserves_left [OF ch])
  moreover have "filter (\<lambda>x. row_tenant_id x = t \<and> settled_at x = None) new
      = (if t = as_str (tenant (payer s)) then new else [])"
    using new by (auto simp: filter_id_conv filter_empty_conv)
  then have "unsettled_of t db1 = unsettled_of t db
      + (if t = as_str (tenant (payer s)) then sum_list (map charged_nanos new) else 0)"
    using unsettled_append [of db1 db new t] by (simp add: db1)
  moreover have "drop (length (usage_lines db)) (usage_lines db') = map (stamp s now) new"
    by (simp add: ls)
  then have "map charged_nanos (drop (length (usage_lines db)) (usage_lines db')) = map charged_nanos new"
    by simp
  ultimately show ?thesis
    by (auto simp: left_of_def db1 option.map_comp comp_def intro: option.map_cong)
qed

end
