(* ===== verification/Admission.thy ===== *)
theory Admission
  imports Gates Ledger
begin

text \<open>
  What a lease may be issued or renewed for: the fleet's ceilings
  (\<open>afd_fleet_runtime/src/config/budget.rs\<close>, \<open>afd_billing/src/budget.rs\<close>, \<open>limits/mod.rs\<close>),
  the money gates of the issue (\<open>afd_fleet/src/lease/admit/\<close>) and of the renewal
  (\<open>lease/coverage.rs\<close>), and what an approval verdict means to the issue (\<open>admit/verdict.rs\<close>).
  The biller and the two reads are arguments, as the code takes them: \<open>bal\<close> and \<open>chk\<close> are the
  biller's operations, \<open>loaded\<close> what the price catalogue answered, \<open>spent\<close> what the usage log did.
\<close>

section \<open>Ceilings\<close>

datatype budget_error = BudgetMissing string | InvalidBudget string string

definition daily_nanos_field :: string where "daily_nanos_field = ''daily_nanos''"
definition monthly_nanos_field :: string where "monthly_nanos_field = ''monthly_nanos''"
definition max_daily_nanos :: int where "max_daily_nanos = 1000000000000"
definition max_monthly_nanos :: int where "max_monthly_nanos = 10000000000000"
definition max_nanos_digits :: nat where "max_nanos_digits = 19"
definition invalid_integer :: string where
  "invalid_integer = ''expected an unsigned decimal string of integer nanos''"
definition non_positive :: string where "non_positive = ''a ceiling must be greater than zero''"
definition above_cap :: string where "above_cap = ''it is above the cap''"

text \<open>Text of digits only, so \<open>str::parse\<close> fails on nothing but a value past 64 bits.\<close>

definition ceiling_parse :: "string \<Rightarrow> string \<Rightarrow> int \<Rightarrow> (budget_error, nanos) result" where
  "ceiling_parse fld text cap =
     (if length text < 1 \<or> max_nanos_digits < length text \<or> \<not> list_all is_ascii_digit text
      then Inl (InvalidBudget fld invalid_integer)
      else case try_i64 (int (dec_value text)) of
          None \<Rightarrow> Inl (InvalidBudget fld invalid_integer)
        | Some n \<Rightarrow> if 1 \<le> n \<and> n \<le> cap then Inr n
            else Inl (InvalidBudget fld (if n \<le> 0 then non_positive else above_cap)))"

definition ceiling_serialize :: "nanos \<Rightarrow> string" where
  "ceiling_serialize n = dec_string (nat n)"

record budget =
  daily :: nanos
  monthly :: "nanos option"

record raw_budget =
  raw_daily_nanos :: "string option"
  raw_monthly_nanos :: "string option"

definition budget_try_from :: "raw_budget \<Rightarrow> (budget_error, budget) result" where
  "budget_try_from v =
     res_bind (ok_or (BudgetMissing daily_nanos_field) (raw_daily_nanos v)) (\<lambda>dt.
     res_bind (ceiling_parse daily_nanos_field dt max_daily_nanos) (\<lambda>d.
     res_bind (case raw_monthly_nanos v of None \<Rightarrow> Inr None
         | Some mt \<Rightarrow> res_bind (ceiling_parse monthly_nanos_field mt max_monthly_nanos) (\<lambda>m. Inr (Some m)))
       (\<lambda>m. Inr \<lparr>daily = d, monthly = m\<rparr>)))"

record spend =
  spend_day :: nanos
  spend_month :: nanos

datatype budget_verdict = BudgetAdmit | DayExceeded | MonthExceeded

definition against :: "budget \<Rightarrow> spend \<Rightarrow> (nanos \<Rightarrow> nanos \<Rightarrow> bool) \<Rightarrow> budget_verdict" where
  "against b s exceeds = (if exceeds (spend_day s) (daily b) then DayExceeded
     else case monthly b of None \<Rightarrow> BudgetAdmit
       | Some m \<Rightarrow> if exceeds (spend_month s) m then MonthExceeded else BudgetAdmit)"

definition budget_covers_spend :: "budget \<Rightarrow> spend \<Rightarrow> budget_verdict" where
  "budget_covers_spend b s = against b s nanos_has_reached"

definition covers_reservation :: "budget \<Rightarrow> spend \<Rightarrow> budget_verdict" where
  "covers_reservation b projected = against b projected (\<lambda>spent limit. limit < spent)"

text \<open>
  \<open>select_fleet_spend.sql\<close>: the two sums, over the lines logged since each floor.  The instant
  the UTC month opened is the calendar's, an argument; the day floor is cut to the millisecond.
\<close>

definition day_span :: int where "day_span = 24 * 60 * 60 * 1000000000"

definition day_floor :: "instant \<Rightarrow> instant" where
  "day_floor now = (now - day_span) div 1000000 * 1000000"

definition spent_since :: "string \<Rightarrow> string \<Rightarrow> instant \<Rightarrow> billing_db \<Rightarrow> int" where
  "spent_since ws fleet floor db = sum_list (map charged_nanos (filter (\<lambda>r. row_workspace_id r = ws
     \<and> row_fleet_id r = Some fleet \<and> floor \<le> logged_at r) (usage_lines db)))"

definition fleet_spend :: "instant \<Rightarrow> instant \<Rightarrow> uuid7 \<Rightarrow> uuid7 \<Rightarrow> billing_db
    \<Rightarrow> (billing_error, spend) result" where
  "fleet_spend month_floor now ws fleet db =
     res_bind (ok_or QueryFailed (try_i64 (spent_since (as_str ws) (as_str fleet) (day_floor now) db))) (\<lambda>d.
     res_bind (ok_or QueryFailed (try_i64 (spent_since (as_str ws) (as_str fleet) month_floor db))) (\<lambda>m.
       Inr \<lparr>spend_day = d, spend_month = m\<rparr>))"

section \<open>Answers of an admission\<close>

record refusal =
  refusal_label :: string
  refusal_detail :: string

definition labelled :: "string \<Rightarrow> refusal" where
  "labelled l = \<lparr>refusal_label = l, refusal_detail = []\<rparr>"

record billed =
  billed_tenant_id :: uuid7
  billed_posture :: posture
  billed_provider :: string
  billed_model :: string

datatype admission = Admit billed | AdRefuse refusal | AdRetry (retry_at: string) | AdAwait waiting
datatype declined = DeRefuse refusal | DeRetry string | DeAwait waiting

fun admitted :: "admission \<Rightarrow> (declined, billed) result" where
  "admitted (Admit b) = Inr b"
| "admitted (AdRefuse r) = Inl (DeRefuse r)"
| "admitted (AdRetry t) = Inl (DeRetry t)"
| "admitted (AdAwait w) = Inl (DeAwait w)"

fun admission_of_declined :: "declined \<Rightarrow> admission" where
  "admission_of_declined (DeRefuse r) = AdRefuse r"
| "admission_of_declined (DeRetry t) = AdRetry t"
| "admission_of_declined (DeAwait w) = AdAwait w"

definition balance_exhausted :: string where "balance_exhausted = ''balance_exhausted''"
definition tenant_resolve_failed :: string where "tenant_resolve_failed = ''tenant_resolve_failed''"
definition budget_breach :: string where "budget_breach = ''budget_breach''"
definition approval_denied :: string where "approval_denied = ''approval_denied''"
definition approval_expired :: string where "approval_expired = ''approval_expired''"

fun of_gate :: "verdict \<Rightarrow> admission option" where
  "of_gate Pass = None"
| "of_gate (Await w) = Some (AdAwait w)"
| "of_gate (Refuse RefusedDenied) = Some (AdRefuse (labelled approval_denied))"
| "of_gate (Refuse RefusedExpired) = Some (AdRefuse (labelled approval_expired))"
| "of_gate (Killed _) = Some (AdRetry ''gate_auto_kill'')"
| "of_gate Unavailable = Some (AdRetry ''approval_gate'')"

section \<open>What a gate's own fault decides\<close>

datatype on_fault = FaultAdmits | FaultRetries

record money_gate =
  gate_event :: string
  gate_on_fault :: on_fault

definition balance_gate_posture :: money_gate where
  "balance_gate_posture = \<lparr>gate_event = ''lease_balance_unavailable'', gate_on_fault = FaultAdmits\<rparr>"
definition budget_gate_posture :: money_gate where
  "budget_gate_posture = \<lparr>gate_event = ''lease_budget_unavailable'', gate_on_fault = FaultAdmits\<rparr>"
definition payer_gate_posture :: money_gate where
  "payer_gate_posture = \<lparr>gate_event = ''lease_tenant_lookup_failed'', gate_on_fault = FaultRetries\<rparr>"

definition absorb :: "money_gate \<Rightarrow> billing_error \<Rightarrow> declined option" where
  "absorb g fault = (case gate_on_fault g of FaultAdmits \<Rightarrow> None | FaultRetries \<Rightarrow> Some (DeRetry (gate_event g)))"

section \<open>The issue's money gates\<close>

record admit_request =
  ad_workspace_id :: uuid7
  ad_fleet_id :: uuid7
  ad_event_id :: string
  ad_budget :: budget
  ad_posture :: posture
  ad_provider :: string
  ad_model :: string

type_synonym catalogue = "string \<Rightarrow> string \<Rightarrow> (billing_error, price_book) result"

definition unowned_workspace :: "uuid7 \<Rightarrow> declined" where
  "unowned_workspace ws = DeRefuse (labelled tenant_resolve_failed)"

definition payer_gate :: "(billing_error, uuid7 option) result \<Rightarrow> uuid7
    \<Rightarrow> (billing_error, (declined, uuid7) result) result" where
  "payer_gate read ws = (case read of Inr (Some found) \<Rightarrow> Inr (Inr found)
     | Inr None \<Rightarrow> Inr (Inl (unowned_workspace ws))
     | Inl fault \<Rightarrow> res_bind (ok_or fault (absorb payer_gate_posture fault)) (\<lambda>d. Inr (Inl d)))"

definition balance_gate :: "catalogue \<Rightarrow> (account \<Rightarrow> (billing_error, balance) result) \<Rightarrow> admit_request
    \<Rightarrow> uuid7 \<Rightarrow> instant \<Rightarrow> declined option" where
  "balance_gate loaded bal req t now =
     (case estimate_on (loaded (ad_provider req) (ad_model req)) (ad_posture req) now of
        Inl fault \<Rightarrow> absorb balance_gate_posture fault
      | Inr estimate \<Rightarrow> (case bal \<lparr>tenant = t, workspace = ad_workspace_id req\<rparr> of
            Inl fault \<Rightarrow> if fault = WalletMissing then None else absorb balance_gate_posture fault
          | Inr fs \<Rightarrow> if nanos_covers (balance_left fs) (estimate_floor estimate) then None
              else Some (DeRefuse (labelled balance_exhausted))))"

definition fleet_budget_gate :: "(uuid7 \<Rightarrow> uuid7 \<Rightarrow> (billing_error, spend) result) \<Rightarrow> admit_request
    \<Rightarrow> declined option" where
  "fleet_budget_gate spent req = (case spent (ad_workspace_id req) (ad_fleet_id req) of
       Inl fault \<Rightarrow> absorb budget_gate_posture fault
     | Inr s \<Rightarrow> if budget_covers_spend (ad_budget req) s = BudgetAdmit then None
         else Some (DeRefuse (labelled budget_breach)))"

definition money_gates :: "catalogue \<Rightarrow> (account \<Rightarrow> (billing_error, balance) result)
    \<Rightarrow> (uuid7 \<Rightarrow> uuid7 \<Rightarrow> (billing_error, spend) result) \<Rightarrow> (billing_error, uuid7 option) result
    \<Rightarrow> admit_request \<Rightarrow> instant \<Rightarrow> (billing_error, admission) result" where
  "money_gates loaded bal spent read req now =
     res_bind (payer_gate read (ad_workspace_id req)) (\<lambda>p. case p of
         Inl stop \<Rightarrow> Inr (admission_of_declined stop)
       | Inr t \<Rightarrow> (case balance_gate loaded bal req t now of
             Some stop \<Rightarrow> Inr (admission_of_declined stop)
           | None \<Rightarrow> (case fleet_budget_gate spent req of
                 Some stop \<Rightarrow> Inr (admission_of_declined stop)
               | None \<Rightarrow> Inr (Admit \<lparr>billed_tenant_id = t, billed_posture = ad_posture req,
                   billed_provider = ad_provider req, billed_model = ad_model req\<rparr>))))"

section \<open>The renewal's money gates\<close>

text \<open>The faults of a config read.  Every kind but the first three shares \<open>is_config_permanent\<close>'s
  false arm, and one constructor stands for them.\<close>

datatype config_fault = VaultDataInvalid | ConfigUnreadable | SetupUnavailable | Infrastructure

definition is_config_permanent :: "config_fault \<Rightarrow> bool" where
  "is_config_permanent f \<longleftrightarrow> f \<in> {VaultDataInvalid, ConfigUnreadable, SetupUnavailable}"

datatype renewal_refusal = RenewalNoCredits | BudgetExhausted

record renewing =
  rn_fleet_id :: uuid7
  rn_workspace_id :: uuid7
  rn_tenant_id :: uuid7
  rn_posture :: string
  rn_provider :: string
  rn_model :: string

definition posture_of :: "renewing \<Rightarrow> posture" where
  "posture_of l = (case posture_parse (rn_posture l) of Some p \<Rightarrow> p | None \<Rightarrow> Platform)"

definition funds_cover :: "catalogue \<Rightarrow> (ask \<Rightarrow> (billing_error, funds) result) \<Rightarrow> renewing \<Rightarrow> uuid7
    \<Rightarrow> instant \<Rightarrow> (renewal_refusal, unit) result" where
  "funds_cover loaded chk l key now =
     (case res_bind (estimate_on (loaded (rn_provider l) (rn_model l)) (posture_of l) now) (\<lambda>e.
         chk \<lparr>ask_work = FleetLease key, ask_payer = \<lparr>tenant = rn_tenant_id l, workspace = rn_workspace_id l\<rparr>,
              ask_next = estimate_floor e\<rparr>) of
        Inr (Short _ _) \<Rightarrow> Inl RenewalNoCredits
      | _ \<Rightarrow> Inr ())"

definition budget_covers :: "(uuid7 \<Rightarrow> (config_fault, budget option) result)
    \<Rightarrow> (uuid7 \<Rightarrow> uuid7 \<Rightarrow> (billing_error, spend) result) \<Rightarrow> renewing \<Rightarrow> (renewal_refusal, unit) result" where
  "budget_covers config spent l = (case config (rn_fleet_id l) of
       Inr None \<Rightarrow> Inr ()
     | Inl f \<Rightarrow> if is_config_permanent f then Inl BudgetExhausted else Inr ()
     | Inr (Some b) \<Rightarrow> (case spent (rn_workspace_id l) (rn_fleet_id l) of
           Inl _ \<Rightarrow> Inr ()
         | Inr s \<Rightarrow> if budget_covers_spend b s = BudgetAdmit then Inr () else Inl BudgetExhausted))"

definition gate_renewal :: "catalogue \<Rightarrow> (ask \<Rightarrow> (billing_error, funds) result)
    \<Rightarrow> (uuid7 \<Rightarrow> (config_fault, budget option) result) \<Rightarrow> (uuid7 \<Rightarrow> uuid7 \<Rightarrow> (billing_error, spend) result)
    \<Rightarrow> renewing \<Rightarrow> uuid7 \<Rightarrow> instant \<Rightarrow> (renewal_refusal, unit) result" where
  "gate_renewal loaded chk config spent l key now =
     res_bind (funds_cover loaded chk l key now) (\<lambda>_. budget_covers config spent l)"

section \<open>Lemmas\<close>

lemma absorb_simps [simp]:
  "absorb balance_gate_posture f = None" "absorb budget_gate_posture f = None"
  "absorb payer_gate_posture f = Some (DeRetry ''lease_tenant_lookup_failed'')"
  by (simp_all add: absorb_def balance_gate_posture_def budget_gate_posture_def payer_gate_posture_def)

lemma admitted_of_declined [simp]: "admitted (admission_of_declined d) = Inl d"
  by (cases d) simp_all

lemma against_admit:
  "against b s ex = BudgetAdmit \<longleftrightarrow> \<not> ex (spend_day s) (daily b) \<and> (\<forall>m. monthly b = Some m \<longrightarrow> \<not> ex (spend_month s) m)"
  by (simp add: against_def split: option.split)

text \<open>The check and the gate read one number the same way.\<close>

lemma funds_of_Short: "(\<exists>a b. funds_of left n = Short a b) \<longleftrightarrow> \<not> nanos_covers left n"
  by (auto simp: funds_of_def nanos_covers_def)

lemma posture_of_written [simp]: "rn_posture l = posture_as_str p \<Longrightarrow> posture_of l = p"
  by (cases p) (simp_all add: posture_of_def posture_parse_def)

section \<open>Exact ceilings\<close>

text \<open>A ceiling is read exactly or refused: parsing a field answers a value precisely when the text
  is one to nineteen ASCII digits whose decimal value lies between one and the cap, and then it is
  that value; every ceiling within the cap is read back from the text it serializes to.\<close>

theorem ceiling_parse_exact:
  assumes "cap \<le> i64_max"
  shows "ceiling_parse fld text cap = Inr n \<longleftrightarrow> 1 \<le> length text \<and> length text \<le> 19
      \<and> list_all is_ascii_digit text \<and> n = int (dec_value text) \<and> 1 \<le> n \<and> n \<le> cap"
    (is "?parse = (?len \<and> ?rest)")
proof -
  have "in_i64 n" if "1 \<le> n" "n \<le> cap"
    using that assms by (simp add: in_i64_def i64_min_def)
  then show ?thesis
    by (auto simp: ceiling_parse_def max_nanos_digits_def try_i64_def Suc_le_eq split: if_splits option.splits)
qed

lemma ceiling_round_trip:
  assumes "1 \<le> n" "n \<le> cap" "cap < 10 ^ 19" "cap \<le> i64_max"
  shows "ceiling_parse fld (ceiling_serialize n) cap = Inr n"
proof -
  have "n < 10 ^ Suc 18" using assms(2,3) by simp
  then have "nat n < 10 ^ Suc 18" using assms(1)
    by (metis nat_less_iff of_nat_numeral of_nat_power zero_le_one order_trans)
  from dec_string_length [OF this] have "length (dec_string (nat n)) \<le> 19" by simp
  moreover have "1 \<le> length (dec_string (nat n))"
    using dec_string_digits [of "nat n"] by (simp add: Suc_le_eq)
  moreover have "in_i64 n" using assms by (simp add: in_i64_def i64_min_def)
  ultimately show ?thesis
    using dec_string_digits [of "nat n"] assms
    by (auto simp: ceiling_parse_def ceiling_serialize_def max_nanos_digits_def try_i64_def)
qed

definition budget_serialize :: "budget \<Rightarrow> raw_budget" where
  "budget_serialize b = \<lparr>raw_daily_nanos = Some (ceiling_serialize (daily b)),
     raw_monthly_nanos = map_option ceiling_serialize (monthly b)\<rparr>"

text \<open>A budget survives its store: an accepted budget has a positive daily ceiling within its cap
  and, where it has one, a positive monthly ceiling within its own, and reading back what it
  serializes to gives the same budget, so the ceiling that admits a run and the one that stops it
  are one number.\<close>

theorem budget_round_trip:
  assumes "budget_try_from v = Inr b"
  shows "1 \<le> daily b \<and> daily b \<le> max_daily_nanos
    \<and> (\<forall>m. monthly b = Some m \<longrightarrow> 1 \<le> m \<and> m \<le> max_monthly_nanos)
    \<and> budget_try_from (budget_serialize b) = Inr b"
proof -
  have bounds: "1 \<le> n \<and> n \<le> cap" if "ceiling_parse f t cap = Inr n" for f t cap n
    using that by (auto simp: ceiling_parse_def split: if_splits option.splits)
  have caps: "max_daily_nanos < 10 ^ 19" "max_daily_nanos \<le> i64_max"
    "max_monthly_nanos < 10 ^ 19" "max_monthly_nanos \<le> i64_max"
    by (simp_all add: max_daily_nanos_def max_monthly_nanos_def i64_max_def)
  from assms have d: "1 \<le> daily b" "daily b \<le> max_daily_nanos"
    by (auto simp: budget_try_from_def result_simps dest: bounds)
  from assms have m: "\<forall>m. monthly b = Some m \<longrightarrow> 1 \<le> m \<and> m \<le> max_monthly_nanos"
    by (auto simp: budget_try_from_def result_simps dest: bounds split: option.splits)
  have "ceiling_parse daily_nanos_field (ceiling_serialize (daily b)) max_daily_nanos = Inr (daily b)"
    by (rule ceiling_round_trip) (use d caps in auto)
  moreover have "\<forall>m. monthly b = Some m \<longrightarrow>
      ceiling_parse monthly_nanos_field (ceiling_serialize m) max_monthly_nanos = Inr m"
    using m caps by (blast intro: ceiling_round_trip)
  ultimately show ?thesis
    using d m by (auto simp: budget_try_from_def budget_serialize_def ok_or_def split: option.splits)
qed

section \<open>The money gates\<close>

text \<open>A refusal at the money gates is always earned: the gates never fail, and they end an event
  only when the workspace has no payer, when an answered balance is below an answered floor, or when
  an answered spend has reached a ceiling of the budget; every read that did not answer leaves the
  event admitted, except the payer's, which leaves it leasable.\<close>

theorem money_gates_decide:
  "\<exists>a. money_gates loaded bal spent read req now = Inr a
    \<and> ((\<exists>r. a = AdRefuse r) \<longleftrightarrow> read = Inr None
        \<or> (\<exists>t. read = Inr (Some t)
           \<and> ((\<exists>e b. estimate_on (loaded (ad_provider req) (ad_model req)) (ad_posture req) now = Inr e
                 \<and> bal \<lparr>tenant = t, workspace = ad_workspace_id req\<rparr> = Inr b \<and> balance_left b < estimate_floor e)
             \<or> (\<exists>s. spent (ad_workspace_id req) (ad_fleet_id req) = Inr s
                 \<and> (daily (ad_budget req) \<le> spend_day s
                    \<or> (\<exists>m. monthly (ad_budget req) = Some m \<and> m \<le> spend_month s))))))
    \<and> ((\<exists>t. a = AdRetry t) \<longleftrightarrow> (\<exists>f. read = Inl f)) \<and> (\<forall>w. a \<noteq> AdAwait w)"
proof (cases read)
  case (Inl f)
  then show ?thesis by (simp add: money_gates_def payer_gate_def)
next
  case (Inr p)
  show ?thesis
  proof (cases p)
    case None
    with Inr show ?thesis by (simp add: money_gates_def payer_gate_def unowned_workspace_def)
  next
    case (Some t)
    let ?short = "\<exists>e b. estimate_on (loaded (ad_provider req) (ad_model req)) (ad_posture req) now = Inr e
       \<and> bal \<lparr>tenant = t, workspace = ad_workspace_id req\<rparr> = Inr b \<and> balance_left b < estimate_floor e"
    let ?over = "\<exists>s. spent (ad_workspace_id req) (ad_fleet_id req) = Inr s \<and> (daily (ad_budget req) \<le> spend_day s
       \<or> (\<exists>m. monthly (ad_budget req) = Some m \<and> m \<le> spend_month s))"
    have b: "balance_gate loaded bal req t now
        = (if ?short then Some (DeRefuse (labelled balance_exhausted)) else None)"
      by (auto simp: balance_gate_def nanos_covers_def not_le split: sum.splits)
    have f: "fleet_budget_gate spent req = (if ?over then Some (DeRefuse (labelled budget_breach)) else None)"
      by (auto simp: fleet_budget_gate_def budget_covers_spend_def against_admit nanos_has_reached_def
          not_le split: sum.splits)
    show ?thesis using Inr Some by (auto simp: money_gates_def payer_gate_def b f)
  qed
qed

text \<open>C21: Issue and renewal share one policy: over the same ledger, catalogue and usage log, whatever
  reads fail and whichever way the biller's outage policy falls, a lease whose row names the payer,
  posture, provider and model of an issue, and whose stored ceiling is the issue's, is renewed by the
  money gates exactly when the issue would be admitted.\<close>

theorem issue_and_renewal_agree:
  assumes row: "rn_workspace_id l = ad_workspace_id req" "rn_fleet_id l = ad_fleet_id req" "rn_tenant_id l = t"
    "rn_posture l = posture_as_str (ad_posture req)" "rn_provider l = ad_provider req" "rn_model l = ad_model req"
    and config: "config (ad_fleet_id req) = Inr (Some (ad_budget req))"
    and bal: "bal = (\<lambda>p. case down of Some f \<Rightarrow> Inl f | None \<Rightarrow> ledger_balance (as_str (tenant p)) db)"
    and chk: "chk = (\<lambda>a. policy_check is_unanswered policy
        (case down of Some f \<Rightarrow> Inl f | None \<Rightarrow> ledger_check a db))"
  shows "gate_renewal loaded chk config spent l key now = Inr ()
     \<longleftrightarrow> (\<exists>b. money_gates loaded bal spent (Inr (Some t)) req now = Inr (Admit b))"
proof -
  let ?est = "estimate_on (loaded (ad_provider req) (ad_model req)) (ad_posture req) now"
  have posture: "posture_of l = ad_posture req" by (rule posture_of_written [OF row(4)])
  have fund: "funds_cover loaded chk l key now = Inr () \<longleftrightarrow> balance_gate loaded bal req t now = None"
  proof (cases ?est)
    case (Inl f)
    then show ?thesis by (simp add: funds_cover_def balance_gate_def row posture)
  next
    case (Inr e)
    show ?thesis
    proof (cases "bal \<lparr>tenant = t, workspace = ad_workspace_id req\<rparr>")
      case (Inl f)
      have "chk \<lparr>ask_work = FleetLease key, ask_payer = \<lparr>tenant = t, workspace = ad_workspace_id req\<rparr>,
          ask_next = estimate_floor e\<rparr> \<in> {Inl f, Inr Unconfirmed}"
        using Inl by (auto simp: bal chk policy_check_def ledger_check_def split: option.splits outage_policy.splits)
      with Inr Inl show ?thesis by (auto simp: funds_cover_def balance_gate_def row posture)
    next
      case (Inr b)
      have "chk \<lparr>ask_work = FleetLease key, ask_payer = \<lparr>tenant = t, workspace = ad_workspace_id req\<rparr>,
          ask_next = estimate_floor e\<rparr> = Inr (funds_of (balance_left b) (estimate_floor e))"
        using Inr by (auto simp: bal chk policy_check_def ledger_check_def split: option.splits outage_policy.splits)
      with \<open>?est = Inr e\<close> Inr show ?thesis
        by (auto simp: funds_cover_def balance_gate_def row posture funds_of_def nanos_covers_def)
    qed
  qed
  have budget: "budget_covers config spent l = Inr () \<longleftrightarrow> fleet_budget_gate spent req = None"
    by (auto simp: budget_covers_def fleet_budget_gate_def row config split: sum.splits)
  have unit: "(\<exists>x. r = Inr x) \<longleftrightarrow> r = Inr ()" for r :: "(renewal_refusal, unit) result" by simp
  have issue: "(\<exists>b. money_gates loaded bal spent (Inr (Some t)) req now = Inr (Admit b))
      \<longleftrightarrow> balance_gate loaded bal req t now = None \<and> fleet_budget_gate spent req = None"
    by (auto simp: money_gates_def payer_gate_def split: option.splits elim!: admission_of_declined.elims)
  show ?thesis
    unfolding issue fund [symmetric] budget [symmetric] by (simp add: gate_renewal_def res_bind_Inr)
qed

text \<open>A stored ceiling that cannot be parsed stops a run, and nothing else that is unreadable does:
  a renewal is refused exactly when the biller answers that the payer is short, when the config read
  failed for good, or when an answered spend has reached an answered ceiling, with the credit refusal
  taking precedence.\<close>

theorem renewal_refusals:
  "gate_renewal loaded chk config spent l key now =
    (if \<exists>e a n. estimate_on (loaded (rn_provider l) (rn_model l)) (posture_of l) now = Inr e
        \<and> chk \<lparr>ask_work = FleetLease key, ask_payer = \<lparr>tenant = rn_tenant_id l, workspace = rn_workspace_id l\<rparr>,
               ask_next = estimate_floor e\<rparr> = Inr (Short a n)
     then Inl RenewalNoCredits
     else if config (rn_fleet_id l) \<in> {Inl VaultDataInvalid, Inl ConfigUnreadable, Inl SetupUnavailable}
        \<or> (\<exists>b s. config (rn_fleet_id l) = Inr (Some b) \<and> spent (rn_workspace_id l) (rn_fleet_id l) = Inr s
            \<and> (daily b \<le> spend_day s \<or> (\<exists>m. monthly b = Some m \<and> m \<le> spend_month s)))
     then Inl BudgetExhausted else Inr ())"
proof -
  let ?short = "\<exists>e a n. estimate_on (loaded (rn_provider l) (rn_model l)) (posture_of l) now = Inr e
     \<and> chk \<lparr>ask_work = FleetLease key, ask_payer = \<lparr>tenant = rn_tenant_id l, workspace = rn_workspace_id l\<rparr>,
            ask_next = estimate_floor e\<rparr> = Inr (Short a n)"
  let ?over = "config (rn_fleet_id l) \<in> {Inl VaultDataInvalid, Inl ConfigUnreadable, Inl SetupUnavailable}
     \<or> (\<exists>b s. config (rn_fleet_id l) = Inr (Some b) \<and> spent (rn_workspace_id l) (rn_fleet_id l) = Inr s
         \<and> (daily b \<le> spend_day s \<or> (\<exists>m. monthly b = Some m \<and> m \<le> spend_month s)))"
  have "funds_cover loaded chk l key now = (if ?short then Inl RenewalNoCredits else Inr ())"
    by (auto simp: funds_cover_def result_simps split: sum.splits funds.splits)
  moreover have "budget_covers config spent l = (if ?over then Inl BudgetExhausted else Inr ())"
    by (auto simp: budget_covers_def is_config_permanent_def budget_covers_spend_def against_admit
        nanos_has_reached_def not_le split: sum.splits option.splits)
  ultimately show ?thesis by (simp add: gate_renewal_def)
qed

section \<open>What a ceiling sees\<close>

lemma spent_since_settle [simp]:
  "spent_since ws fleet floor (snd (settle_lines_sql w seqs now db)) = spent_since ws fleet floor db"
proof -
  let ?f = "\<lambda>r. if settle_hit w seqs r then r\<lparr>settled_at := Some now\<rparr> else r"
  have "filter (\<lambda>r. row_workspace_id r = ws \<and> row_fleet_id r = Some fleet \<and> floor \<le> logged_at r) (map ?f xs)
      = map ?f (filter (\<lambda>r. row_workspace_id r = ws \<and> row_fleet_id r = Some fleet \<and> floor \<le> logged_at r) xs)" for xs
    by (induction xs) auto
  moreover have "map charged_nanos (map ?f xs) = map charged_nanos xs" for xs by (induction xs) auto
  ultimately show ?thesis by (simp add: spent_since_def settle_lines_sql_def del: map_map)
qed

lemma spent_since_debit:
  "debit_wallet_sql t amount now db = Inr (d, db') \<Longrightarrow> spent_since ws fleet floor db' = spent_since ws fleet floor db"
  by (auto simp: debit_wallet_sql_def spent_since_def split: option.splits)

lemma spent_since_charge:
  assumes "charge now s db = Inr (r, db')"
  shows "spent_since ws fleet floor db' = spent_since ws fleet floor db"
proof -
  obtain c db1 where c: "settle_lines_sql (work s) (set (map (\<lambda>l. uint (seq (usage l))) (lines s))) now db = (c, db1)"
    by fastforce
  have "spent_since ws fleet floor db1 = spent_since ws fleet floor db"
    using spent_since_settle [of ws fleet floor "work s" _ now db] c by (metis snd_conv)
  with assms c show ?thesis
    by (auto simp: charge_def Let_def result_simps spent_since_debit split: if_splits)
qed

text \<open>A ceiling sees spend as it is logged, not as it is charged: once a fleet's lines are
  settled at an instant no earlier than a window's floor, the window holds exactly what it held
  plus the cost of the lines this call logged for the first time, whatever the wallet held; and
  another fleet's window, or a window that opened later, holds what it held.\<close>

theorem logged_cost_reaches_the_ceiling:
  assumes "ledger_settle (mint, now) s db = Inr (r, db')" "attr s = AttrFleet f nm ev"
  shows "spent_since ws fleet floor db' = spent_since ws fleet floor db
    + (if ws = as_str (workspace (payer s)) \<and> fleet = as_str f \<and> floor \<le> now
       then sum_list (map charged_nanos (drop (length (usage_lines db)) (usage_lines db'))) else 0)"
proof -
  from assms(1) obtain n db1 where log: "log_lines mint now s db = Inr (n, db1)" and ch: "charge now s db1 = Inr (r, db')"
    by (auto simp: ledger_settle_def result_simps)
  from log_lines_Inr [OF log] obtain new where new: "db1 = db\<lparr>usage_lines := usage_lines db @ new\<rparr>"
    "\<forall>x \<in> set new. \<exists>i u l. l \<in> set (lines s) \<and> x = row_of s now i u l" by blast
  let ?in = "\<lambda>x. row_workspace_id x = ws \<and> row_fleet_id x = Some fleet \<and> floor \<le> logged_at x"
  let ?mine = "ws = as_str (workspace (payer s)) \<and> fleet = as_str f \<and> floor \<le> now"
  have "\<forall>x \<in> set new. ?in x \<longleftrightarrow> ?mine"
    using new(2) assms(2) by (auto simp: row_of_def Let_def)
  then have fl: "filter ?in new = (if ?mine then new else [])"
    by (cases ?mine) (auto simp: filter_id_conv filter_empty_conv)
  have one: "spent_since ws fleet floor db1 = spent_since ws fleet floor db
      + (if ?mine then sum_list (map charged_nanos new) else 0)"
    by (simp add: spent_since_def new(1) fl)
  have "map charged_nanos (usage_lines db') = map charged_nanos (usage_lines db1)"
    using ch by (auto simp: charge_def settle_lines_sql_def debit_wallet_sql_def Let_def result_simps
        split: if_splits option.splits)
  then have "map charged_nanos (drop (length (usage_lines db)) (usage_lines db')) = map charged_nanos new"
    by (metis drop_map append_eq_conv_conj map_append length_map new(1) billing_db.select_convs(1)
        billing_db.surjective billing_db.update_convs(1))
  with one show ?thesis using spent_since_charge [OF ch] by simp
qed

end
