(* ===== verification/Slots.thy ===== *)
theory Slots
  imports Ids
begin

text \<open>
  The per-fleet lease slot of \<open>runner.fleet_slots\<close>: the part of \<open>claim_admission_head.sql\<close> that wins it
  (the whole statement is in Claims), the two releases of \<open>afd_fleet/src/lease/affinity.rs\<close>
  (\<open>release_fleet_slot.sql\<close>, \<open>release_unleased_slot.sql\<close>), the two statements of \<open>afd_runner\<close> that clear
  a runner's holds and lapse its slots, and the fence rule of \<open>lease/fence/mod.rs\<close> and
  \<open>lease/standing/mod.rs\<close>.  A statement runs at instants of the database clock, which are arguments;
  the columns \<open>created_at\<close> and \<open>updated_at\<close> are not modelled.  The token a claim mints is a bounded
  integer: a token past the column's range fails the statement, as PostgreSQL's \<open>bigint\<close> does.
\<close>

section \<open>Spans of the lease clock\<close>

definition from_millis :: "int \<Rightarrow> int" where "from_millis n = n * 1000000"
definition from_secs :: "int \<Rightarrow> int" where "from_secs n = n * 1000000000"

definition lease_ttl :: int where "lease_ttl = from_secs 30"
definition max_runtime :: int where "max_runtime = from_secs (12 * 60 * 60)"
definition runner_offline_after :: int where "runner_offline_after = lease_ttl * 3"
definition sandbox_hold_idle :: int where "sandbox_hold_idle = from_secs (10 * 60)"

lemmas span_defs = from_millis_def from_secs_def lease_ttl_def max_runtime_def
  runner_offline_after_def sandbox_hold_idle_def

section \<open>Faults\<close>

datatype lease_error =
    LeaseQuery | LeaseRowMalformed | SequenceCorrupt | LeaseNotFound | LeaseLost
  | LeaseMaxRuntime | StaleFence | LeaseBilling string

section \<open>The fence\<close>

datatype fence = Fence (as_i64: int)

definition as_u64 :: "fence \<Rightarrow> u64" where
  "as_u64 f = (if as_i64 f < 0 then 0 else word_of_int (as_i64 f))"

definition fence_current :: "int \<Rightarrow> int \<Rightarrow> bool" where
  "fence_current own live_seq \<longleftrightarrow> live_seq \<le> own"

definition fence_holds :: "int \<Rightarrow> int \<Rightarrow> u64 \<Rightarrow> bool" where
  "fence_holds own live_seq presented \<longleftrightarrow>
     fence_current own live_seq \<and> 0 \<le> own \<and> word_of_int own = presented"

text \<open>A lease's own token beside its fleet's live sequence.\<close>

record standing_fence =
  own_token :: int
  live_token :: int

definition standing_fence_new :: "int \<Rightarrow> int \<Rightarrow> (lease_error, standing_fence) result" where
  "standing_fence_new own live_seq =
     (if own < 0 \<or> live_seq < 0 then Inl SequenceCorrupt
      else Inr \<lparr>own_token = own, live_token = live_seq\<rparr>)"

section \<open>The slot row and the runners it asks about\<close>

record slot =
  last_runner_id :: "string option"
  fencing_token :: int
  slot_expires_at :: instant
  hold_expires_at :: "instant option"

record runner_row =
  last_seen_at :: instant
  runner_status :: string
  degraded_reason :: "string option"
  worker_count :: int
  lease_version :: int
  last_lease_type :: "string option"
  decision_platform_model_id :: "string option"

type_synonym slots = "string \<rightharpoonup> slot"
type_synonym runners = "string \<rightharpoonup> runner_row"

definition runner_status_active :: string where "runner_status_active = ''active''"

text \<open>\<open>NOT EXISTS (... last_seen_at > now - $4 AND status = $5 AND degraded_reason IS NULL)\<close>, negated.\<close>

definition runner_live :: "instant \<Rightarrow> runners \<Rightarrow> string option \<Rightarrow> bool" where
  "runner_live now rs who = (case who of None \<Rightarrow> False | Some r \<Rightarrow>
     (case rs r of None \<Rightarrow> False
      | Some row \<Rightarrow> now - runner_offline_after < last_seen_at row
          \<and> runner_status row = runner_status_active \<and> degraded_reason row = None))"

section \<open>Winning the slot\<close>

record won =
  won_token :: int
  won_expires_at :: instant
  won_held :: bool
  won_holder :: "string option"

text \<open>Whether the statement's \<open>ON CONFLICT ... WHERE\<close> lets a runner take an existing slot.\<close>

definition winnable :: "instant \<Rightarrow> runners \<Rightarrow> string \<Rightarrow> slot \<Rightarrow> bool" where
  "winnable now rs runner s \<longleftrightarrow> slot_expires_at s < now
     \<and> (case hold_expires_at s of None \<Rightarrow> True
        | Some h \<Rightarrow> h \<le> now \<or> last_runner_id s = Some runner \<or> \<not> runner_live now rs (last_runner_id s))"

text \<open>\<open>skipped\<close>: another transaction holds the row's lock, which \<open>SKIP LOCKED\<close> does not wait for.  The clock
  is read twice, once before the conflict is judged and once for the deadline written over an existing row;
  a runner that is gone fails the row's foreign key.\<close>

definition claim_slot :: "instant \<Rightarrow> instant \<Rightarrow> bool \<Rightarrow> runners \<Rightarrow> string \<Rightarrow> string \<Rightarrow> slots
    \<Rightarrow> (lease_error, won option \<times> slots) result" where
  "claim_slot checked written skipped rs fleet runner ss = (case ss fleet of
       None \<Rightarrow> if rs runner = None then Inl LeaseQuery
         else Inr (Some \<lparr>won_token = 1, won_expires_at = checked + lease_ttl, won_held = False, won_holder = None\<rparr>,
           ss(fleet \<mapsto> \<lparr>last_runner_id = Some runner, fencing_token = 1,
                        slot_expires_at = checked + lease_ttl, hold_expires_at = None\<rparr>))
     | Some s \<Rightarrow>
         if skipped \<or> \<not> winnable checked rs runner s then Inr (None, ss)
         else if rs runner = None then Inl LeaseQuery
         else res_bind (ok_or LeaseQuery (checked_add (fencing_token s) 1)) (\<lambda>token. Inr
           (Some \<lparr>won_token = token, won_expires_at = written + lease_ttl,
                  won_held = (case hold_expires_at s of None \<Rightarrow> False | Some h \<Rightarrow> checked < h),
                  won_holder = last_runner_id s\<rparr>,
            ss(fleet \<mapsto> \<lparr>last_runner_id = Some runner, fencing_token = token,
                         slot_expires_at = written + lease_ttl,
                         hold_expires_at = (if last_runner_id s = Some runner
                                            then hold_expires_at s else None)\<rparr>))))"

section \<open>Releasing\<close>

text \<open>A claim that issued no lease: the slot lapses, and the sticky hint goes unless a live hold needs it.\<close>

definition release :: "instant \<Rightarrow> uuid7 \<Rightarrow> fence \<Rightarrow> slots \<Rightarrow> slots" where
  "release now fleet_id f ss = (case ss (as_str fleet_id) of None \<Rightarrow> ss
     | Some s \<Rightarrow> if fencing_token s \<noteq> as_i64 f then ss
         else ss(as_str fleet_id \<mapsto> s\<lparr>slot_expires_at := now - from_millis 1,
             last_runner_id := (case hold_expires_at s of None \<Rightarrow> None
                | Some h \<Rightarrow> if now < h then last_runner_id s else None)\<rparr>))"

text \<open>A finished run: the slot lapses and records the hold the sandbox is kept under, capped.\<close>

definition release_through :: "instant \<Rightarrow> uuid7 \<Rightarrow> fence \<Rightarrow> instant option \<Rightarrow> slots \<Rightarrow> slots" where
  "release_through now fleet_id f asked_hold ss = (case ss (as_str fleet_id) of None \<Rightarrow> ss
     | Some s \<Rightarrow> if fencing_token s \<noteq> as_i64 f then ss
         else ss(as_str fleet_id \<mapsto> s\<lparr>slot_expires_at := now - from_millis 1,
             hold_expires_at := (case asked_hold of None \<Rightarrow> None
                | Some h \<Rightarrow> if now < h then Some (min h (now + sandbox_hold_idle)) else None)\<rparr>))"

section \<open>A runner's slots\<close>

text \<open>\<open>clear_dropped_holds.sql\<close>: a beat clears the holds its runner did not list; \<open>settled\<close> says of a slot that
  it was not written within the last beat, and a closing runner's list is final.\<close>

definition clear_dropped_holds_sql :: "string \<Rightarrow> string list \<Rightarrow> (string \<Rightarrow> bool) \<Rightarrow> bool \<Rightarrow> slots \<Rightarrow> slots" where
  "clear_dropped_holds_sql runner listed settled is_final ss = (\<lambda>fleet. map_option (\<lambda>s.
     if last_runner_id s = Some runner \<and> hold_expires_at s \<noteq> None \<and> (is_final \<or> settled fleet) \<and> fleet \<notin> set listed
     then s\<lparr>hold_expires_at := None\<rparr> else s) (ss fleet))"

text \<open>\<open>expire_active_lease_slots.sql\<close>: a runner found dead lapses the slots it last took and still runs a lease
  on; \<open>leased\<close> says of a fleet that the runner has an active lease of it.\<close>

definition expire_active_lease_slots_sql :: "instant \<Rightarrow> string \<Rightarrow> int \<Rightarrow> (string \<Rightarrow> bool) \<Rightarrow> slots \<Rightarrow> slots" where
  "expire_active_lease_slots_sql now runner back leased ss = (\<lambda>fleet. map_option (\<lambda>s.
     if last_runner_id s = Some runner \<and> now - back < slot_expires_at s \<and> leased fleet
     then s\<lparr>slot_expires_at := now - back\<rparr> else s) (ss fleet))"

section \<open>Lemmas\<close>

lemma claim_slot_Some:
  assumes "claim_slot checked written skipped rs fleet runner ss = Inr (Some w, ss')"
  obtains s' where "ss' = ss(fleet \<mapsto> s')" "won_token w = fencing_token s'"
    "slot_expires_at s' = won_expires_at w" "last_runner_id s' = Some runner"
    "won_expires_at w = checked + lease_ttl \<or> won_expires_at w = written + lease_ttl"
    "ss fleet = None \<and> fencing_token s' = 1 \<and> \<not> won_held w
     \<or> (\<exists>s. ss fleet = Some s \<and> winnable checked rs runner s \<and> fencing_token s' = fencing_token s + 1
          \<and> won_holder w = last_runner_id s)"
  using assms
  by (auto simp: claim_slot_def result_simps split: option.splits if_splits)

lemma claim_slot_None:
  "claim_slot checked written skipped rs fleet runner ss = Inr (None, ss') \<Longrightarrow> ss' = ss"
  by (auto simp: claim_slot_def result_simps split: option.splits if_splits)

text \<open>Every statement but the claim leaves every token as it was.\<close>

definition tokens_kept :: "slots \<Rightarrow> slots \<Rightarrow> bool" where
  "tokens_kept ss ss' \<longleftrightarrow> (\<forall>k. map_option fencing_token (ss' k) = map_option fencing_token (ss k))"

lemma tokens_kept_by:
  "tokens_kept ss ss" "tokens_kept ss (release now fleet f ss)" "tokens_kept ss (release_through now fleet f h ss)"
  "tokens_kept ss (clear_dropped_holds_sql runner listed settled is_final ss)"
  "tokens_kept ss (expire_active_lease_slots_sql now runner back leased ss)"
  by (auto simp: tokens_kept_def release_def release_through_def clear_dropped_holds_sql_def
      expire_active_lease_slots_sql_def option.map_comp intro!: option.map_cong split: option.splits)

lemma release_superseded:
  assumes "ss (as_str fleet) = Some s" "fencing_token s \<noteq> as_i64 f"
  shows "release now fleet f ss = ss" "release_through now fleet f h ss = ss"
  using assms by (simp_all add: release_def release_through_def)

end
