(* ===== verification/Capacity.thy ===== *)
theory Capacity
  imports Slots "HOL-Library.Word"
begin

unbundle bit_operations_syntax

text \<open>
  How a physical host's workers are shared between fleet leases and authoring attempts:
  \<open>afd_wire/src/lease/kinds.rs\<close>, \<open>afd_runner/src/capacity/mod.rs\<close> and
  \<open>capacity/choice.rs\<close> with their statements.  The two lease tables are seen here through the
  columns the census reads.
\<close>

section \<open>Accepted kinds\<close>

datatype lease_kind = FleetKind | AuthoringKind

fun kind_as_str :: "lease_kind \<Rightarrow> string" where
  "kind_as_str FleetKind = ''fleet''"
| "kind_as_str AuthoringKind = ''authoring''"

fun kind_other :: "lease_kind \<Rightarrow> lease_kind" where
  "kind_other FleetKind = AuthoringKind"
| "kind_other AuthoringKind = FleetKind"

datatype accepted_kinds = AcceptedKinds (kinds_bits: u8)

definition accepts_fleet :: accepted_kinds where "accepts_fleet = AcceptedKinds 1"
definition accepts_authoring :: accepted_kinds where "accepts_authoring = AcceptedKinds 2"
definition accepts_all :: accepted_kinds where "accepts_all = AcceptedKinds 3"

definition kinds_contains :: "accepted_kinds \<Rightarrow> lease_kind \<Rightarrow> bool" where
  "kinds_contains a k = (let bit = (case k of FleetKind \<Rightarrow> kinds_bits accepts_fleet
       | AuthoringKind \<Rightarrow> kinds_bits accepts_authoring) in kinds_bits a AND bit \<noteq> 0)"

definition kinds_try_from :: "lease_kind list \<Rightarrow> (string, accepted_kinds) result" where
  "kinds_try_from ks =
     (if ks = [FleetKind] then Inr accepts_fleet
      else if ks = [AuthoringKind] then Inr accepts_authoring
      else if ks = [FleetKind, AuthoringKind] \<or> ks = [AuthoringKind, FleetKind] then Inr accepts_all
      else Inl ''accepted_kinds must contain one or two distinct supported kinds'')"

definition kinds_into :: "accepted_kinds \<Rightarrow> lease_kind list" where
  "kinds_into a = filter (kinds_contains a) [FleetKind, AuthoringKind]"

section \<open>The host row and its census\<close>

definition lease_status_active :: string where "lease_status_active = ''active''"
definition lease_status_reported :: string where "lease_status_reported = ''reported''"

text \<open>The columns of \<open>runner.leases\<close> and \<open>authoring.attempts\<close> the census counts on.\<close>

record occupant =
  occ_runner :: string
  occ_status :: string
  occ_expires_at :: instant

record capacity =
  cap_now :: instant
  cap_workers :: int
  cap_occupied :: nat
  claims_allowed :: bool
  renewals_allowed :: bool
  cap_lease_version :: int
  cap_decision_selected :: bool

definition renewable_state :: "string \<Rightarrow> bool" where
  "renewable_state state \<longleftrightarrow> state \<in> {''active'', ''cordoned'', ''draining''}"

definition census_sql :: "instant \<Rightarrow> string \<Rightarrow> occupant list \<Rightarrow> occupant list \<Rightarrow> nat" where
  "census_sql now runner fleet_leases attempts =
     (let live = (\<lambda>o'. occ_runner o' = runner \<and> occ_status o' = lease_status_active
                     \<and> now < occ_expires_at o')
      in length (filter live fleet_leases) + length (filter live attempts))"

definition capacity_lock :: "instant \<Rightarrow> runners \<Rightarrow> occupant list \<Rightarrow> occupant list \<Rightarrow> uuid7
    \<Rightarrow> capacity option" where
  "capacity_lock now rs fleet_leases attempts runner_id = (case rs (as_str runner_id) of
       None \<Rightarrow> None
     | Some host \<Rightarrow> Some \<lparr>cap_now = now, cap_workers = worker_count host,
         cap_occupied = census_sql now (as_str runner_id) fleet_leases attempts,
         claims_allowed = (degraded_reason host = None \<and> runner_status host = runner_status_active),
         renewals_allowed = (degraded_reason host = None \<and> renewable_state (runner_status host)),
         cap_lease_version = lease_version host,
         cap_decision_selected = (decision_platform_model_id host \<noteq> None)\<rparr>)"

definition can_claim :: "capacity \<Rightarrow> bool" where
  "can_claim c \<longleftrightarrow> claims_allowed c \<and> int (cap_occupied c) < cap_workers c"

definition can_renew :: "capacity \<Rightarrow> bool" where
  "can_renew c \<longleftrightarrow> renewals_allowed c \<and> int (cap_occupied c) \<le> cap_workers c"

section \<open>The durable alternation\<close>

record ticket =
  revision :: int
  preferred :: lease_kind
  accepted :: accepted_kinds

definition ticket_order :: "ticket \<Rightarrow> lease_kind list" where
  "ticket_order t = filter (kinds_contains (accepted t)) [preferred t, kind_other (preferred t)]"

definition permits :: "ticket \<Rightarrow> capacity \<Rightarrow> lease_kind \<Rightarrow> bool" where
  "permits t c k \<longleftrightarrow> revision t = cap_lease_version c \<and> kinds_contains (accepted t) k"

definition claim_offer :: "runners \<Rightarrow> uuid7 \<Rightarrow> accepted_kinds \<Rightarrow> ticket option" where
  "claim_offer rs runner a = (case rs (as_str runner) of None \<Rightarrow> None
     | Some host \<Rightarrow> Some \<lparr>revision = lease_version host,
         preferred = (if last_lease_type host = Some (kind_as_str AuthoringKind)
                      then FleetKind else AuthoringKind), accepted = a\<rparr>)"

text \<open>\<open>record_choice.sql\<close>: whether the choice was recorded, and the host rows after it.\<close>

definition record_choice :: "uuid7 \<Rightarrow> capacity \<Rightarrow> lease_kind \<Rightarrow> runners
    \<Rightarrow> (lease_error, bool \<times> runners) result" where
  "record_choice runner c k rs = (case rs (as_str runner) of None \<Rightarrow> Inr (False, rs)
     | Some host \<Rightarrow>
         if lease_version host \<noteq> cap_lease_version c then Inr (False, rs)
         else res_bind (ok_or LeaseQuery (checked_add (lease_version host) 1)) (\<lambda>v. Inr (True,
           rs(as_str runner \<mapsto> host\<lparr>lease_version := v, last_lease_type := Some (kind_as_str k)\<rparr>))))"

section \<open>Lemmas\<close>

lemma kinds_contains_simps [simp]:
  "kinds_contains accepts_fleet FleetKind" "\<not> kinds_contains accepts_fleet AuthoringKind"
  "\<not> kinds_contains accepts_authoring FleetKind" "kinds_contains accepts_authoring AuthoringKind"
  "kinds_contains accepts_all k"
  by (cases k; simp add: kinds_contains_def accepts_fleet_def accepts_authoring_def accepts_all_def)+

lemma kinds_roundtrip: "kinds_try_from ks = Inr a \<Longrightarrow> set (kinds_into a) = set ks \<and> ks \<noteq> [] \<and> distinct ks"
  by (auto simp: kinds_try_from_def kinds_into_def split: if_splits)

lemma kind_cases: "k' = k \<or> k' = kind_other k"
  by (cases k; cases k') auto

lemma kind_other_neq [simp]: "kind_other k \<noteq> k" "k \<noteq> kind_other k"
  by (cases k; simp)+

lemma ticket_order_set: "set (ticket_order t) = {k. kinds_contains (accepted t) k}"
proof (rule set_eqI)
  fix k
  show "k \<in> set (ticket_order t) \<longleftrightarrow> k \<in> {k. kinds_contains (accepted t) k}"
    using kind_cases [of k "preferred t"] by (auto simp: ticket_order_def)
qed

lemma ticket_order_distinct: "distinct (ticket_order t)"
  by (simp add: ticket_order_def)

lemma capacity_lock_Some:
  assumes "capacity_lock now rs ls as runner = Some c"
  obtains host where "rs (as_str runner) = Some host" "cap_now c = now"
    "cap_workers c = worker_count host" "cap_occupied c = census_sql now (as_str runner) ls as"
    "cap_lease_version c = lease_version host"
    "claims_allowed c \<longrightarrow> degraded_reason host = None \<and> runner_status host = runner_status_active"
  using assms by (fastforce simp: capacity_lock_def split: option.splits)

lemma census_more:
  assumes "now < expires"
  shows "census_sql now r (\<lparr>occ_runner = r, occ_status = lease_status_active, occ_expires_at = expires\<rparr> # ls) as
      = Suc (census_sql now r ls as)"
    and "census_sql now r ls (\<lparr>occ_runner = r, occ_status = lease_status_active, occ_expires_at = expires\<rparr> # as)
      = Suc (census_sql now r ls as)"
  using assms by (simp_all add: census_sql_def Let_def)

text \<open>
  A host's placements by the daemon: each holds the host row, checks the ticket and the capacity
  it locked, records the choice and inserts one occupant.  Occupants also end and expire.
\<close>

record host_state =
  host_clock :: instant
  hosts :: runners
  fleet_occupants :: "occupant list"
  attempt_occupants :: "occupant list"

definition place :: "uuid7 \<Rightarrow> ticket \<Rightarrow> lease_kind \<Rightarrow> instant \<Rightarrow> host_state
    \<Rightarrow> (lease_error, bool \<times> host_state) result" where
  "place runner t k expires s =
     (case capacity_lock (host_clock s) (hosts s) (fleet_occupants s) (attempt_occupants s) runner of
        None \<Rightarrow> Inr (False, s)
      | Some c \<Rightarrow> if \<not> can_claim c \<or> expires \<le> cap_now c \<or> \<not> permits t c k then Inr (False, s)
          else res_bind (record_choice runner c k (hosts s)) (\<lambda>(recorded, rs).
            if \<not> recorded then Inr (False, s)
            else let occupant = \<lparr>occ_runner = as_str runner, occ_status = lease_status_active,
                     occ_expires_at = expires\<rparr>
              in Inr (True, (case k of
                  FleetKind \<Rightarrow> s\<lparr>hosts := rs, fleet_occupants := occupant # fleet_occupants s\<rparr>
                | AuthoringKind \<Rightarrow> s\<lparr>hosts := rs, attempt_occupants := occupant # attempt_occupants s\<rparr>))))"

definition occupied :: "uuid7 \<Rightarrow> host_state \<Rightarrow> nat" where
  "occupied runner s = census_sql (host_clock s) (as_str runner) (fleet_occupants s) (attempt_occupants s)"

lemma place_won:
  assumes "place runner t k expires s = Inr (True, s')"
  shows "\<exists>host. hosts s (as_str runner) = Some host \<and> int (occupied runner s) < worker_count host
      \<and> occupied runner s' = Suc (occupied runner s)
      \<and> revision t = lease_version host \<and> kinds_contains (accepted t) k
      \<and> hosts s' = (hosts s)(as_str runner \<mapsto> host\<lparr>lease_version := lease_version host + 1,
                        last_lease_type := Some (kind_as_str k)\<rparr>)
      \<and> host_clock s' = host_clock s"
proof -
  from assms obtain c rs where c: "capacity_lock (host_clock s) (hosts s) (fleet_occupants s)
        (attempt_occupants s) runner = Some c"
    and ok: "can_claim c" "cap_now c < expires" "permits t c k"
    and rc: "record_choice runner c k (hosts s) = Inr (True, rs)"
    and s': "s' = (case k of
        FleetKind \<Rightarrow> s\<lparr>hosts := rs, fleet_occupants := \<lparr>occ_runner = as_str runner,
          occ_status = lease_status_active, occ_expires_at = expires\<rparr> # fleet_occupants s\<rparr>
      | AuthoringKind \<Rightarrow> s\<lparr>hosts := rs, attempt_occupants := \<lparr>occ_runner = as_str runner,
          occ_status = lease_status_active, occ_expires_at = expires\<rparr> # attempt_occupants s\<rparr>)"
    by (auto simp: place_def Let_def result_simps split: option.splits if_splits)
  from c obtain host where h: "hosts s (as_str runner) = Some host" "cap_now c = host_clock s"
    "cap_workers c = worker_count host" "cap_occupied c = occupied runner s"
    "cap_lease_version c = lease_version host"
    unfolding occupied_def by (rule capacity_lock_Some)
  have rs: "rs = (hosts s)(as_str runner \<mapsto> host\<lparr>lease_version := lease_version host + 1,
      last_lease_type := Some (kind_as_str k)\<rparr>)"
    using rc h by (auto simp: record_choice_def result_simps split: if_splits)
  have "occupied runner s' = Suc (occupied runner s)"
    using s' ok(2) h(2) by (cases k) (simp_all add: occupied_def census_more)
  then show ?thesis
    using h ok rs s' by (cases k) (auto simp: can_claim_def permits_def)
qed

section \<open>What the shared host guarantees\<close>

text \<open>A host never runs more leases than its assigned workers by placement: a placement that
  succeeds leaves at most the assigned number of live leases, fleet and authoring together, and
  the ticket it used is spent, so a second placement under the same ticket writes nothing.\<close>

theorem placement_respects_workers:
  assumes "place runner t k expires s = Inr (True, s')"
  shows "(\<exists>host. hosts s (as_str runner) = Some host \<and> int (occupied runner s') \<le> worker_count host)
    \<and> place runner t k' expires' s' = Inr (False, s')"
proof -
  from place_won [OF assms] obtain host where h: "hosts s (as_str runner) = Some host"
    "int (occupied runner s) < worker_count host" "occupied runner s' = Suc (occupied runner s)"
    "revision t = lease_version host"
    "hosts s' (as_str runner) = Some (host\<lparr>lease_version := lease_version host + 1,
        last_lease_type := Some (kind_as_str k)\<rparr>)" by auto
  then show ?thesis
    by (auto simp: place_def capacity_lock_def permits_def)
qed

text \<open>Neither kind starves: after a placement of one kind, the next ticket a worker that
  accepts both kinds is offered prefers the other kind, and offers every kind it accepts once.\<close>

theorem placements_alternate:
  assumes "place runner t k expires s = Inr (True, s')"
    "claim_offer (hosts s') runner a = Some offer"
  shows "preferred offer = kind_other k \<and> set (ticket_order offer) = {k'. kinds_contains a k'}
    \<and> distinct (ticket_order offer) \<and> (kinds_contains a (kind_other k) \<longrightarrow> hd (ticket_order offer) = kind_other k)"
proof -
  from place_won [OF assms(1)] assms(2) have p: "preferred offer = kind_other k" "accepted offer = a"
    by (cases k; auto simp: claim_offer_def)+
  show ?thesis
    using p ticket_order_set [of offer] ticket_order_distinct [of offer] by (simp add: ticket_order_def)
qed

end
