(* ===== verification/Metering.thy ===== *)
theory Metering
  imports Ledger Capacity
begin

text \<open>
  Metering a running lease: the one statement a renewal and a report share
  (\<open>afd_fleet/src/lease/sql/meter_lease.sql\<close> under \<open>sql/meter.rs\<close>), the expired slice of
  \<open>bill_expired_slice.sql\<close>, and the pricing of what they measured (\<open>lease/usage/mod.rs\<close>,
  \<open>usage/original.rs\<close>).  A statement runs at one instant of the database clock and sees one
  store.  A span becomes milliseconds as \<open>EXTRACT(EPOCH ...) * 1000\<close> cast to an integer:
  rounded to the nearest, halves away from zero.  Spans of a task's remaining running time are
  exact here, where the statement goes through a double.
\<close>

section \<open>Rows\<close>

text \<open>The task columns of a lease, present together when the lease runs a task's slice.\<close>

record task_slice =
  task_id :: string
  task_generation :: int
  task_stop_generation :: int
  task_execution_deadline_at :: "instant option"
  task_runtime_accounted_at :: "instant option"
  task_started_at :: "instant option"

record lease_row =
  l_runner_id :: string
  l_fleet_id :: string
  l_workspace_id :: string
  l_tenant_id :: string
  l_event :: string
  l_fencing_token :: int
  l_created_at :: instant
  l_expires_at :: instant
  l_metered_at :: instant
  l_status :: string
  l_posture :: string
  l_provider :: string
  l_model :: string
  l_task :: "task_slice option"

record task_row =
  t_fleet_id :: string
  t_workspace_id :: string
  t_status :: string
  t_generation :: int
  t_stop_generation :: int
  t_expires_at :: instant
  max_model_nanos :: int
  used_model_nanos :: int
  reserved_model_nanos :: int
  max_running_nanos :: int
  used_running_nanos :: int
  max_decision_calls :: int
  used_decision_calls :: int
  t_terminal_at :: "instant option"
  t_resource_version :: int
  t_checkpoint_cleanup_at :: "instant option"

record admission_row =
  a_fleet_id :: string
  a_lease_fence :: "int option"
  a_settled_at :: "instant option"
  a_parked_at :: "instant option"

text \<open>
  \<open>lease_events\<close> names the event of a lease's event row; an admission is keyed by that name.
\<close>

record lease_db =
  lease_rows :: "string \<rightharpoonup> lease_row"
  lease_slots :: slots
  lease_events :: "string \<rightharpoonup> string"
  fleet_names :: "string \<rightharpoonup> string"
  admissions :: "string \<rightharpoonup> admission_row"
  tasks :: "string \<rightharpoonup> task_row"
  run_tally :: "string \<Rightarrow> nat \<times> nat"
  bills :: billing_db

definition task_running :: string where "task_running = ''running''"

section \<open>The metering statement\<close>

datatype ending = Renew | Settle (settle_succeeded: bool)

record slice =
  daemon_lines :: int
  checked_at :: instant
  started_at :: instant
  slice_runtime_ms :: int
  slice_tenant_id :: string
  slice_workspace_id :: string
  slice_fleet_id :: string
  slice_fleet_name :: "string option"
  slice_event_id :: string

record meter_answer =
  probe_found :: bool
  claimed_rows :: nat
  new_until :: "instant option"
  hard_cap :: "instant option"
  measured :: "slice option"

definition epoch_ms :: "int \<Rightarrow> int" where
  "epoch_ms d = (if 0 \<le> d then (2 * d + 1000000) div 2000000 else - ((1000000 - 2 * d) div 2000000))"

text \<open>\<open>LEAST\<close> over nullable columns: NULLs are passed over.\<close>

fun least :: "instant \<Rightarrow> instant option list \<Rightarrow> instant" where
  "least x [] = x"
| "least x (None # ys) = least x ys"
| "least x (Some y # ys) = least (min x y) ys"

definition count_daemon_lines :: "string \<Rightarrow> billing_db \<Rightarrow> int" where
  "count_daemon_lines lease b = int (length (filter (\<lambda>r. row_work_type r = ''fleet_lease''
     \<and> row_work_id r = lease \<and> uint daemon_seq_base \<le> row_seq r \<and> row_seq r < uint decision_seq_base)
     (usage_lines b)))"

text \<open>\<open>held_task\<close>: the lease's task, of the same fleet and workspace.\<close>

definition held_task :: "lease_db \<Rightarrow> lease_row \<Rightarrow> task_row option" where
  "held_task db l = (case l_task l of None \<Rightarrow> None
     | Some ts \<Rightarrow> (case tasks db (task_id ts) of None \<Rightarrow> None
        | Some t \<Rightarrow> if t_fleet_id t = l_fleet_id l \<and> t_workspace_id t = l_workspace_id l
            then Some t else None))"

text \<open>When the task's remaining running time is used up, if both sides are known.\<close>

definition running_deadline :: "task_slice \<Rightarrow> task_row option \<Rightarrow> instant option" where
  "running_deadline ts t = (case (task_runtime_accounted_at ts, t) of
     (Some from, Some row) \<Rightarrow> Some (from + (max_running_nanos row - used_running_nanos row))
   | _ \<Rightarrow> None)"

definition metered_until :: "instant \<Rightarrow> lease_row \<Rightarrow> instant" where
  "metered_until now l = max (l_metered_at l) (min now (l_expires_at l))"

definition capped_deadline :: "instant \<Rightarrow> lease_row \<Rightarrow> task_row option \<Rightarrow> instant" where
  "capped_deadline now l t = least (min (now + lease_ttl) (l_created_at l + max_runtime))
     (case l_task l of None \<Rightarrow> []
      | Some ts \<Rightarrow> [task_execution_deadline_at ts, map_option t_expires_at t, running_deadline ts t])"

definition still_ahead :: "instant \<Rightarrow> instant option \<Rightarrow> bool" where
  "still_ahead now d = (case d of None \<Rightarrow> False | Some t \<Rightarrow> now < t)"

text \<open>The task half of a renewal's guard: NULL in any comparison refuses.\<close>

definition task_permits :: "instant \<Rightarrow> lease_row \<Rightarrow> task_row option \<Rightarrow> bool" where
  "task_permits now l t = (case l_task l of None \<Rightarrow> True
     | Some ts \<Rightarrow> (case t of None \<Rightarrow> False
        | Some row \<Rightarrow> t_status row = task_running \<and> task_generation ts = t_generation row
            \<and> task_stop_generation ts = t_stop_generation row \<and> now < t_expires_at row
            \<and> used_model_nanos row < max_model_nanos row - reserved_model_nanos row
            \<and> still_ahead now (task_execution_deadline_at ts)
            \<and> still_ahead now (running_deadline ts t)))"

text \<open>The admission the lease answers is still owed under this lease's fence.\<close>

definition admission_open :: "lease_db \<Rightarrow> string \<Rightarrow> lease_row \<Rightarrow> bool" where
  "admission_open db event l = (case admissions db event of None \<Rightarrow> False
     | Some a \<Rightarrow> a_fleet_id a = l_fleet_id l \<and> a_lease_fence a = Some (l_fencing_token l)
         \<and> a_settled_at a = None)"

definition meter_guard :: "instant \<Rightarrow> ending \<Rightarrow> lease_db \<Rightarrow> string \<Rightarrow> lease_row \<Rightarrow> slot \<Rightarrow> bool" where
  "meter_guard now e db event l s \<longleftrightarrow>
     (case e of
        Settle _ \<Rightarrow> fencing_token s \<le> l_fencing_token l
      | Renew \<Rightarrow> l_fencing_token l = fencing_token s
          \<and> now < min (now + lease_ttl) (l_created_at l + max_runtime)
          \<and> now < l_expires_at l \<and> now < slot_expires_at s
          \<and> task_permits now l (held_task db l))
     \<and> admission_open db event l"

definition meter_probe :: "lease_db \<Rightarrow> string \<Rightarrow> string \<Rightarrow> (lease_row \<times> slot \<times> string) option" where
  "meter_probe db lease runner = (case lease_rows db lease of None \<Rightarrow> None
     | Some l \<Rightarrow> if l_runner_id l \<noteq> runner \<or> l_status l \<noteq> lease_status_active then None
         else (case (lease_slots db (l_fleet_id l), lease_events db (l_event l)) of
             (Some s, Some event) \<Rightarrow> Some (l, s, event) | _ \<Rightarrow> None))"

definition slice_of :: "lease_db \<Rightarrow> string \<Rightarrow> string \<Rightarrow> instant \<Rightarrow> lease_row \<Rightarrow> slice" where
  "slice_of db lease event until l = \<lparr>
     daemon_lines = count_daemon_lines lease (bills db), checked_at = until,
     started_at = l_created_at l, slice_runtime_ms = epoch_ms (until - l_metered_at l),
     slice_tenant_id = l_tenant_id l, slice_workspace_id = l_workspace_id l,
     slice_fleet_id = l_fleet_id l, slice_fleet_name = fleet_names db (l_fleet_id l),
     slice_event_id = event \<rparr>"

definition meter_writes :: "instant \<Rightarrow> ending \<Rightarrow> string \<Rightarrow> string \<Rightarrow> lease_row \<Rightarrow> slot \<Rightarrow> string
    \<Rightarrow> lease_db \<Rightarrow> lease_db" where
  "meter_writes now e lease runner l s event db = (let until = metered_until now l in case e of
     Renew \<Rightarrow> let capped = capped_deadline now l (held_task db l) in
       db\<lparr>lease_rows := (lease_rows db)(lease \<mapsto> l\<lparr>l_expires_at := capped, l_metered_at := until\<rparr>),
          lease_slots := (lease_slots db)(l_fleet_id l \<mapsto> s\<lparr>slot_expires_at := capped\<rparr>)\<rparr>
   | Settle succeeded \<Rightarrow>
       db\<lparr>lease_rows := (lease_rows db)(lease \<mapsto> l\<lparr>l_status := lease_status_reported, l_metered_at := until\<rparr>),
          admissions := (admissions db)(event := map_option
            (\<lambda>a. a\<lparr>a_settled_at := Some now, a_parked_at := None\<rparr>) (admissions db event)),
          run_tally := (run_tally db)(runner := (let (ok, failed) = run_tally db runner
            in if succeeded then (Suc ok, failed) else (ok, Suc failed)))\<rparr>)"

definition meter_lease_sql :: "instant \<Rightarrow> ending \<Rightarrow> string \<Rightarrow> string \<Rightarrow> lease_db
    \<Rightarrow> meter_answer \<times> lease_db" where
  "meter_lease_sql now e lease runner db = (case meter_probe db lease runner of
       None \<Rightarrow> (\<lparr>probe_found = False, claimed_rows = 0, new_until = None, hard_cap = None,
                 measured = None\<rparr>, db)
     | Some (l, s, event) \<Rightarrow>
         let cap = least (l_created_at l + max_runtime)
               (case l_task l of None \<Rightarrow> [] | Some ts \<Rightarrow> [task_execution_deadline_at ts])
         in if \<not> meter_guard now e db event l s
            then (\<lparr>probe_found = True, claimed_rows = 0, new_until = None, hard_cap = Some cap,
                   measured = None\<rparr>, db)
            else (\<lparr>probe_found = True, claimed_rows = 1,
                   new_until = Some (case e of Renew \<Rightarrow> capped_deadline now l (held_task db l)
                                     | Settle _ \<Rightarrow> l_expires_at l),
                   hard_cap = Some cap,
                   measured = Some (slice_of db lease event (metered_until now l) l)\<rparr>,
                  meter_writes now e lease runner l s event db))"

text \<open>\<open>bill_expired_slice.sql\<close>: the cursor of a lapsed, unreported lease moves to its deadline.\<close>

definition bill_expired_slice_sql :: "instant \<Rightarrow> string \<Rightarrow> lease_db
    \<Rightarrow> (slice \<times> lease_row) option \<times> lease_db" where
  "bill_expired_slice_sql now lease db = (case lease_rows db lease of None \<Rightarrow> (None, db)
     | Some l \<Rightarrow>
         if l_status l \<noteq> lease_status_reported \<and> l_expires_at l < now \<and> l_metered_at l < l_expires_at l
         then let event = (case lease_events db (l_event l) of None \<Rightarrow> l_event l | Some e \<Rightarrow> e) in
           (Some (slice_of db lease event (l_expires_at l) l, l),
            db\<lparr>lease_rows := (lease_rows db)(lease \<mapsto> l\<lparr>l_metered_at := l_expires_at l\<rparr>)\<rparr>)
         else (None, db))"

section \<open>Pricing a slice\<close>

record pricing =
  p_book :: price_book
  p_posture :: posture
  p_provider :: string
  p_model :: string

text \<open>\<open>Pricing::load\<close>: a catalogue that will not answer leaves the tokens unpriced.\<close>

definition pricing_load :: "posture \<Rightarrow> string \<Rightarrow> string \<Rightarrow> (billing_error, price_book) result \<Rightarrow> pricing" where
  "pricing_load pos prov mdl loaded = \<lparr>
     p_book = (if pos = SelfManaged then [] else case loaded of Inl _ \<Rightarrow> [] | Inr book \<Rightarrow> book),
     p_posture = pos, p_provider = prov, p_model = mdl\<rparr>"

definition runtime_only :: "posture \<Rightarrow> string \<Rightarrow> string \<Rightarrow> pricing" where
  "runtime_only pos prov mdl = \<lparr>p_book = [], p_posture = pos, p_provider = prov, p_model = mdl\<rparr>"

text \<open>A count as the line type holds it, saturating.\<close>

definition count_u32 :: "int \<Rightarrow> u32" where
  "count_u32 v = (case try_u32 (max v 0) of None \<Rightarrow> u32_max | Some w \<Rightarrow> w)"

definition daemon_seq :: "int \<Rightarrow> u32 option" where
  "daemon_seq n = (case try_u32 n of None \<Rightarrow> None
     | Some c \<Rightarrow> if uint daemon_seq_base + uint c < 2 ^ 32 \<and> daemon_seq_base + c \<le> daemon_seq_max
         then Some (daemon_seq_base + c) else None)"

definition runtime_line_of :: "slice \<Rightarrow> (lease_error, usage_line list) result" where
  "runtime_line_of sl = (let ms = count_u32 (slice_runtime_ms sl) in
     if ms > 0 then res_bind (ok_or SequenceCorrupt (daemon_seq (daemon_lines sl)))
       (\<lambda>s. Inr [runtime_line s (checked_at sl) ms])
     else Inr [])"

definition billing_fault :: "(billing_error, 'a) result \<Rightarrow> (lease_error, 'a) result" where
  "billing_fault r = (case r of Inl _ \<Rightarrow> Inl (LeaseBilling ''billing'') | Inr x \<Rightarrow> Inr x)"

definition parse_lease_id :: "string \<Rightarrow> (lease_error, uuid7) result" where
  "parse_lease_id text = (case uuid7_parse text of Inl _ \<Rightarrow> Inl LeaseRowMalformed | Inr i \<Rightarrow> Inr i)"

definition lease_settlement :: "pricing \<Rightarrow> uuid7 \<Rightarrow> slice \<Rightarrow> request_usage list
    \<Rightarrow> (lease_error, settlement option) result" where
  "lease_settlement p lease_id sl requests =
     res_bind (runtime_line_of sl) (\<lambda>runtime.
       let ls = map request_line requests @ runtime in
       if ls = [] then Inr None
       else let w = \<lparr>win_from = started_at sl, win_until = checked_at sl\<rparr> in
         res_bind (billing_fault (traverse (rate (p_book p) (p_posture p) w) ls)) (\<lambda>priced.
         res_bind (parse_lease_id (slice_tenant_id sl)) (\<lambda>ten.
         res_bind (parse_lease_id (slice_workspace_id sl)) (\<lambda>wsp.
         res_bind (parse_lease_id (slice_fleet_id sl)) (\<lambda>fl.
           Inr (Some \<lparr>work = FleetLease lease_id, payer = \<lparr>tenant = ten, workspace = wsp\<rparr>,
             attr = AttrFleet fl (case slice_fleet_name sl of None \<Rightarrow> slice_fleet_id sl | Some n \<Rightarrow> n)
                      (slice_event_id sl),
             provider = p_provider p, model = p_model p, s_posture = p_posture p,
             lines = priced\<rparr>))))))"

text \<open>\<open>usage::charged\<close>: what one settlement's lines cost, saturating.\<close>

definition settlement_charge :: "settlement option \<Rightarrow> nanos" where
  "settlement_charge s = (case s of None \<Rightarrow> 0
     | Some st \<Rightarrow> foldl (\<lambda>acc l. nanos_saturating_add acc (charged l)) 0 (lines st))"

text \<open>
  \<open>original_request_owner.sql\<close>: the scope known requests are still billed to, whatever the
  lease's state; it measures no run time.
\<close>

definition original_requests :: "instant \<Rightarrow> pricing \<Rightarrow> uuid7 \<Rightarrow> uuid7 \<Rightarrow> request_usage list \<Rightarrow> lease_db
    \<Rightarrow> (lease_error, settlement option) result" where
  "original_requests now p lease runner requests db =
     (if requests = [] then Inr None
      else case lease_rows db (as_str lease) of None \<Rightarrow> Inr None
      | Some l \<Rightarrow> if l_runner_id l \<noteq> as_str runner then Inr None
          else (case lease_events db (l_event l) of None \<Rightarrow> Inr None
            | Some event \<Rightarrow> lease_settlement p lease
                ((slice_of db (as_str lease) event (min now (l_expires_at l)) l)
                   \<lparr>daemon_lines := 0, slice_runtime_ms := 0\<rparr>) requests))"

section \<open>A task's measured usage\<close>

definition task_exhausted :: string where "task_exhausted = ''exhausted''"

text \<open>
  \<open>task/usage.rs\<close> over \<open>usage_owner.sql\<close> and \<open>usage_record.sql\<close>: the model cost and the run
  time reach the task's totals, and a task whose budget is used up is stopped.  The answer is
  whether the task may go on; a lease without a task may.
\<close>

definition task_spent :: "instant \<Rightarrow> task_row \<Rightarrow> int \<Rightarrow> int \<Rightarrow> bool" where
  "task_spent now t um ur \<longleftrightarrow> t_terminal_at t = None \<and>
     (max_model_nanos t - reserved_model_nanos t \<le> um \<or> max_running_nanos t \<le> ur \<or> t_expires_at t \<le> now)"

definition task_charged :: "instant \<Rightarrow> task_row \<Rightarrow> int \<Rightarrow> int \<Rightarrow> task_row" where
  "task_charged now t um ur = (let stop = task_spent now t um ur; bump = (if stop then 1 else 0) in
     t\<lparr>used_model_nanos := um, used_running_nanos := ur,
       t_status := (if stop then task_exhausted else t_status t),
       t_terminal_at := (if stop then Some now else t_terminal_at t),
       t_generation := t_generation t + bump, t_stop_generation := t_stop_generation t + bump,
       t_resource_version := t_resource_version t + 1,
       t_checkpoint_cleanup_at := (if stop then Some now else t_checkpoint_cleanup_at t)\<rparr>)"

definition usage_record :: "instant \<Rightarrow> string \<Rightarrow> nanos \<Rightarrow> lease_db \<Rightarrow> (lease_error, bool \<times> lease_db) result" where
  "usage_record now lease model_nanos db =
     (case lease_rows db lease of None \<Rightarrow> Inr (True, db)
      | Some l \<Rightarrow> (case l_task l of None \<Rightarrow> Inr (True, db)
      | Some ts \<Rightarrow>
          if task_started_at ts = None then Inr (False, db)
          else case task_runtime_accounted_at ts of None \<Rightarrow> Inl LeaseQuery
          | Some from \<Rightarrow>
            let until = max from (min (l_metered_at l) (l_expires_at l));
                db1 = db\<lparr>lease_rows := (lease_rows db)(lease \<mapsto>
                  l\<lparr>l_task := Some (ts\<lparr>task_runtime_accounted_at := Some until\<rparr>)\<rparr>)\<rparr>
            in (case held_task db l of None \<Rightarrow> Inr (False, db1)
               | Some t \<Rightarrow>
                 res_bind (ok_or LeaseQuery (checked_add (used_model_nanos t) model_nanos)) (\<lambda>um.
                 res_bind (ok_or LeaseQuery (checked_add (used_running_nanos t) (until - from))) (\<lambda>ur.
                   Inr (t_status (task_charged now t um ur) = task_running \<and> \<not> task_spent now t um ur,
                        db1\<lparr>tasks := (tasks db1)(task_id ts \<mapsto> task_charged now t um ur)\<rparr>))))))"

lemma task_charged_simps [simp]:
  "t_status (task_charged now t um ur) = (if task_spent now t um ur then task_exhausted else t_status t)"
  "t_fleet_id (task_charged now t um ur) = t_fleet_id t"
  "t_workspace_id (task_charged now t um ur) = t_workspace_id t"
  by (simp_all add: task_charged_def Let_def)

text \<open>\<open>log_measured\<close>: logs a measured window's lines inside the pass's own transaction.\<close>

type_synonym minting = "nat \<Rightarrow> uuid7 option"

definition log_measured :: "instant \<Rightarrow> minting \<Rightarrow> instant \<Rightarrow> settlement option \<Rightarrow> lease_db
    \<Rightarrow> (lease_error, bool \<times> lease_db) result" where
  "log_measured db_now mint now s db = (case s of None \<Rightarrow> Inr (True, db)
     | Some st \<Rightarrow> res_bind (billing_fault (log_lines mint now st (bills db))) (\<lambda>(fresh, b).
         usage_record db_now (as_str (work_id (work st))) fresh (db\<lparr>bills := b\<rparr>)))"

section \<open>The verbs\<close>

datatype renewed =
    Extended instant "settlement option"
  | MaxRuntime
  | Stopped "settlement option"
  | Lost

text \<open>\<open>RenewAnswer::verdict\<close>: why a renewal did not advance, judged at the host lock's instant.\<close>

definition renew_verdict :: "meter_answer \<Rightarrow> instant \<Rightarrow> renewed" where
  "renew_verdict a checked = (if \<not> probe_found a then Lost
     else case hard_cap a of Some cap \<Rightarrow> if cap \<le> checked then MaxRuntime else Lost | None \<Rightarrow> Lost)"

text \<open>
  \<open>Leases::extend\<close>.  \<open>host\<close> is what \<open>capacity::lock\<close> answered inside the transaction; a failure
  anywhere rolls the transaction back, so it answers no new store.
\<close>

definition record_stopped :: "instant \<Rightarrow> minting \<Rightarrow> instant \<Rightarrow> pricing \<Rightarrow> uuid7 \<Rightarrow> uuid7
    \<Rightarrow> request_usage list \<Rightarrow> renewed \<Rightarrow> lease_db \<Rightarrow> (lease_error, renewed \<times> lease_db) result" where
  "record_stopped db_now mint now p lease runner requests otherwise db =
     res_bind (original_requests db_now p lease runner requests db) (\<lambda>s.
       res_bind (log_measured db_now mint now s db) (\<lambda>(_, db').
         Inr (case s of None \<Rightarrow> otherwise | Some st \<Rightarrow> Stopped (Some st), db')))"

definition extend :: "instant \<Rightarrow> minting \<Rightarrow> instant \<Rightarrow> capacity option \<Rightarrow> pricing \<Rightarrow> uuid7 \<Rightarrow> uuid7
    \<Rightarrow> request_usage list \<Rightarrow> lease_db \<Rightarrow> (lease_error, renewed \<times> lease_db) result" where
  "extend db_now mint now host p lease runner requests db =
     (case host of
        None \<Rightarrow> record_stopped db_now mint now p lease runner requests Lost db
      | Some c \<Rightarrow>
          if \<not> can_renew c then record_stopped db_now mint now p lease runner requests Lost db
          else let (answer, db1) = meter_lease_sql db_now Renew (as_str lease) (as_str runner) db in
            (case new_until answer of
               None \<Rightarrow> record_stopped db_now mint now p lease runner requests
                         (renew_verdict answer (cap_now c)) db1
             | Some expires \<Rightarrow>
                 res_bind (case measured answer of None \<Rightarrow> Inr None
                           | Some sl \<Rightarrow> lease_settlement p lease sl requests) (\<lambda>s.
                   res_bind (log_measured db_now mint now s db1) (\<lambda>(allowed, db2).
                     Inr (if allowed then Extended expires s else Stopped s, db2)))))"

datatype settled = Claimed "settlement option" | AlreadySettled | Fenced

text \<open>\<open>disposition\<close>: why a claim matched nothing.\<close>

definition disposition :: "lease_db \<Rightarrow> string \<Rightarrow> string \<Rightarrow> settled" where
  "disposition db lease runner = (case lease_rows db lease of None \<Rightarrow> Fenced
     | Some l \<Rightarrow> if l_runner_id l = runner \<and> l_status l = lease_status_reported
         then AlreadySettled else Fenced)"

definition claim_and_settle :: "instant \<Rightarrow> minting \<Rightarrow> instant \<Rightarrow> pricing \<Rightarrow> uuid7 \<Rightarrow> uuid7
    \<Rightarrow> request_usage list \<Rightarrow> bool \<Rightarrow> lease_db \<Rightarrow> (lease_error, settled \<times> lease_db) result" where
  "claim_and_settle db_now mint now p lease runner requests succeeded db =
     (let (answer, db1) = meter_lease_sql db_now (Settle succeeded) (as_str lease) (as_str runner) db in
      if claimed_rows answer = 0 then Inr (disposition db1 (as_str lease) (as_str runner), db1)
      else res_bind (case measured answer of None \<Rightarrow> Inr None
             | Some sl \<Rightarrow> lease_settlement p lease sl requests) (\<lambda>s.
         res_bind (log_measured db_now mint now s db1) (\<lambda>(_, db2). Inr (Claimed s, db2))))"

text \<open>\<open>log_last_slice\<close> of the billing sweep, \<open>None\<close> when another pass got there first.\<close>

definition log_last_slice :: "instant \<Rightarrow> minting \<Rightarrow> instant \<Rightarrow> uuid7 \<Rightarrow> lease_db
    \<Rightarrow> (lease_error, settlement option \<times> lease_db) result" where
  "log_last_slice db_now mint now lease db =
     (let (found, db1) = bill_expired_slice_sql db_now (as_str lease) db in
      case found of None \<Rightarrow> Inr (None, db)
      | Some (sl, l) \<Rightarrow>
          let p = runtime_only (case posture_parse (l_posture l) of None \<Rightarrow> Platform | Some pos \<Rightarrow> pos)
                    (l_provider l) (l_model l)
          in res_bind (lease_settlement p lease sl []) (\<lambda>s.
               res_bind (log_measured db_now mint now s db1) (\<lambda>(_, db2). Inr (s, db2))))"

section \<open>Lemmas\<close>

lemma least_le_first: "least x ys \<le> x"
  by (induction x ys rule: least.induct) auto

lemma least_le: "Some y \<in> set ys \<Longrightarrow> least x ys \<le> y"
proof (induction x ys rule: least.induct)
  case (3 x z ys)
  have "least (min x z) ys \<le> z"
    using least_le_first [of "min x z" ys] by simp
  with 3 show ?case by auto
qed auto

lemma least_gt: "n < x \<Longrightarrow> (\<And>y. Some y \<in> set ys \<Longrightarrow> n < y) \<Longrightarrow> n < least x ys"
  by (induction x ys rule: least.induct) auto

lemma capped_bounds:
  "capped_deadline now l t \<le> now + lease_ttl"
  "capped_deadline now l t \<le> l_created_at l + max_runtime"
  unfolding capped_deadline_def
  by (rule order_trans [OF least_le_first], simp)+

lemma capped_ahead:
  assumes "meter_guard now Renew db event l s"
  shows "now < capped_deadline now l (held_task db l)"
  using assms
  by (auto simp: meter_guard_def capped_deadline_def task_permits_def still_ahead_def
      split: option.splits intro!: least_gt)

lemma epoch_ms_bound: "0 \<le> d \<Longrightarrow> 2000000 * epoch_ms d \<le> 2 * d + 1000000"
  by (simp add: epoch_ms_def)

lemma epoch_ms_nonneg: "0 \<le> d \<Longrightarrow> 0 \<le> epoch_ms d"
  by (simp add: epoch_ms_def pos_imp_zdiv_nonneg_iff)

lemma count_u32_le: "0 \<le> v \<Longrightarrow> uint (count_u32 v) \<le> v"
  by (auto simp: count_u32_def try_u32_def uint_word_of_int split: option.splits if_splits)

lemma metered_until_bounds:
  "l_metered_at l \<le> metered_until now l"
  "metered_until now l \<le> max (l_metered_at l) (l_expires_at l)"
  by (auto simp: metered_until_def)

text \<open>What the metering statement answers and writes, in one rule.\<close>

lemma meter_refused:
  assumes "meter_lease_sql now e lease runner db = (a, db')" "measured a = None"
  shows "db' = db \<and> claimed_rows a = 0 \<and> new_until a = None"
  using assms by (auto simp: meter_lease_sql_def Let_def split: option.splits if_splits prod.splits)

lemma meter_won:
  assumes "meter_lease_sql now e lease runner db = (a, db')" "measured a = Some sl"
  obtains l s event where "lease_rows db lease = Some l" "l_runner_id l = runner"
    "l_status l = lease_status_active" "lease_slots db (l_fleet_id l) = Some s"
    "meter_guard now e db event l s" "claimed_rows a = 1"
    "sl = slice_of db lease event (metered_until now l) l"
    "db' = meter_writes now e lease runner l s event db"
    "new_until a = Some (case e of Renew \<Rightarrow> capped_deadline now l (held_task db l) | Settle _ \<Rightarrow> l_expires_at l)"
proof (cases "meter_probe db lease runner")
  case None
  with assms show ?thesis by (auto simp: meter_lease_sql_def)
next
  case (Some q)
  then obtain l s event where q: "meter_probe db lease runner = Some (l, s, event)"
    by (cases q) auto
  from q have pr: "lease_rows db lease = Some l" "l_runner_id l = runner"
    "l_status l = lease_status_active" "lease_slots db (l_fleet_id l) = Some s"
    by (auto simp: meter_probe_def split: option.splits if_splits)
  show ?thesis
    by (rule that [OF pr]) (use assms q in \<open>auto simp: meter_lease_sql_def Let_def split: if_splits\<close>)
qed

lemma meter_answer_measured:
  assumes "meter_lease_sql now e lease runner db = (a, db')"
  shows "new_until a = None \<longleftrightarrow> measured a = None" "claimed_rows a = 0 \<longleftrightarrow> measured a = None"
  using assms by (auto simp: meter_lease_sql_def Let_def split: option.splits if_splits prod.splits)

text \<open>The fields of a lease row no usage record changes.\<close>

definition same_lease :: "lease_row option \<Rightarrow> lease_row option \<Rightarrow> bool" where
  "same_lease a b \<longleftrightarrow> rel_option (\<lambda>l l'. l_metered_at l' = l_metered_at l \<and> l_expires_at l' = l_expires_at l
     \<and> l_status l' = l_status l \<and> l_runner_id l' = l_runner_id l \<and> l_fleet_id l' = l_fleet_id l
     \<and> l_fencing_token l' = l_fencing_token l \<and> l_created_at l' = l_created_at l) a b"

lemma same_lease_refl [simp]: "same_lease a a"
  by (cases a) (simp_all add: same_lease_def)

lemma same_lease_Some:
  "same_lease (Some l) b \<Longrightarrow> \<exists>l'. b = Some l' \<and> l_metered_at l' = l_metered_at l
     \<and> l_expires_at l' = l_expires_at l \<and> l_status l' = l_status l \<and> l_runner_id l' = l_runner_id l
     \<and> l_fleet_id l' = l_fleet_id l \<and> l_fencing_token l' = l_fencing_token l \<and> l_created_at l' = l_created_at l"
  by (cases b) (simp_all add: same_lease_def)

lemma usage_record_shape:
  assumes "usage_record now lease n db = Inr (ok, db')"
  shows "db' = db \<or> (\<exists>l ts u. lease_rows db lease = Some l \<and> l_task l = Some ts
     \<and> lease_rows db' = (lease_rows db)(lease \<mapsto> l\<lparr>l_task := Some (ts\<lparr>task_runtime_accounted_at := u\<rparr>)\<rparr>)
     \<and> lease_slots db' = lease_slots db \<and> admissions db' = admissions db)"
proof (cases "lease_rows db lease")
  case None
  with assms show ?thesis by (simp add: usage_record_def)
next
  case (Some l)
  show ?thesis
  proof (cases "l_task l")
    case None
    with assms Some show ?thesis by (simp add: usage_record_def)
  next
    case (Some ts)
    note l = \<open>lease_rows db lease = Some l\<close>
    show ?thesis
    proof (cases "task_started_at ts = None")
      case True
      with assms l Some show ?thesis by (simp add: usage_record_def)
    next
      case False
      with assms l Some obtain acc where acc: "task_runtime_accounted_at ts = Some acc"
        by (cases "task_runtime_accounted_at ts") (auto simp: usage_record_def)
      show ?thesis
        using assms l Some False acc
        by (cases "held_task db l") (auto simp: usage_record_def Let_def result_simps)
    qed
  qed
qed

lemma usage_record_frame:
  assumes "usage_record now lease n db = Inr (ok, db')"
  shows "same_lease (lease_rows db k) (lease_rows db' k)" "lease_slots db' = lease_slots db"
    "k \<noteq> lease \<Longrightarrow> lease_rows db' k = lease_rows db k" "admissions db' = admissions db"
proof -
  from usage_record_shape [OF assms] show "same_lease (lease_rows db k) (lease_rows db' k)"
  proof (elim disjE exE conjE)
    fix l ts u
    assume "lease_rows db lease = Some l"
      "lease_rows db' = (lease_rows db)(lease \<mapsto> l\<lparr>l_task := Some (ts\<lparr>task_runtime_accounted_at := u\<rparr>)\<rparr>)"
    then show ?thesis by (cases "k = lease") (simp_all add: same_lease_def option.rel_refl)
  qed simp
  show "lease_slots db' = lease_slots db" "admissions db' = admissions db"
    "k \<noteq> lease \<Longrightarrow> lease_rows db' k = lease_rows db k"
    using usage_record_shape [OF assms] by auto
qed

lemma log_measured_frame:
  assumes "log_measured db_now mint now s db = Inr (ok, db')"
  shows "same_lease (lease_rows db k) (lease_rows db' k)" "lease_slots db' = lease_slots db"
    "(\<And>st. s = Some st \<Longrightarrow> k \<noteq> as_str (work_id (work st))) \<Longrightarrow> lease_rows db' k = lease_rows db k"
    "admissions db' = admissions db"
proof -
  have "s = None \<and> db' = db \<or> (\<exists>st fresh b. s = Some st
      \<and> usage_record db_now (as_str (work_id (work st))) fresh (db\<lparr>bills := b\<rparr>) = Inr (ok, db'))"
    using assms by (auto simp: log_measured_def result_simps split: option.splits)
  then consider "s = None" "db' = db"
    | st fresh b where "s = Some st"
      "usage_record db_now (as_str (work_id (work st))) fresh (db\<lparr>bills := b\<rparr>) = Inr (ok, db')"
    by blast
  note c = this
  have "same_lease (lease_rows db k) (lease_rows db' k) \<and> lease_slots db' = lease_slots db
      \<and> admissions db' = admissions db"
    by (rule c) (use usage_record_frame(1,2,4) in fastforce)+
  then show "same_lease (lease_rows db k) (lease_rows db' k)" "lease_slots db' = lease_slots db"
    "admissions db' = admissions db" by auto
  show "lease_rows db' k = lease_rows db k" if "\<And>st. s = Some st \<Longrightarrow> k \<noteq> as_str (work_id (work st))"
    by (rule c) (use that usage_record_frame(3) in fastforce)+
qed

lemma lease_settlement_work:
  assumes "lease_settlement p lease sl requests = Inr (Some st)"
  shows "work st = FleetLease lease"
  using assms by (auto simp: lease_settlement_def Let_def result_simps split: if_splits)

lemma original_requests_work:
  assumes "original_requests now p lease runner requests db = Inr (Some st)"
  shows "work st = FleetLease lease"
  using assms lease_settlement_work
  by (auto simp: original_requests_def split: if_splits option.splits)

text \<open>The run time a settlement's lines carry.\<close>

definition settlement_ms :: "settlement option \<Rightarrow> int" where
  "settlement_ms s = (case s of None \<Rightarrow> 0
     | Some st \<Rightarrow> sum_list (map (\<lambda>l. uint (runtime_ms (usage l))) (lines st)))"

lemma settlement_ms_None [simp]: "settlement_ms None = 0"
  by (simp add: settlement_ms_def)

lemma rate_runtime: "rate book pos w line = Inr r \<Longrightarrow> runtime_ms (usage r) = runtime_ms line"
  by (auto simp: rate_def Let_def split: option.splits prod.splits posture.splits)

lemma traverse_rate_runtime:
  "traverse (rate book pos w) ls = Inr rs \<Longrightarrow>
     map (\<lambda>l. uint (runtime_ms (usage l))) rs = map (\<lambda>l. uint (runtime_ms l)) ls"
proof (induction ls arbitrary: rs)
  case (Cons l ls)
  then show ?case by (auto simp: result_simps dest: rate_runtime)
qed simp

lemma billing_fault_Inr [simp]: "billing_fault r = Inr x \<longleftrightarrow> r = Inr x"
  by (cases r) (simp_all add: billing_fault_def)

lemma request_line_runtime [simp]: "runtime_ms (request_line r) = 0"
  by (simp add: request_line_def)

lemma sum_list_requests [simp]: "sum_list (map ((\<lambda>l. uint (runtime_ms l)) \<circ> request_line) rs) = 0"
  by (induction rs) simp_all

lemma lease_settlement_ms:
  assumes "lease_settlement p lease sl requests = Inr s" "0 \<le> slice_runtime_ms sl"
  shows "0 \<le> settlement_ms s" "settlement_ms s \<le> slice_runtime_ms sl"
proof -
  from assms(1) obtain rt where rt: "runtime_line_of sl = Inr rt"
    and rest: "(let ls = map request_line requests @ rt in if ls = [] then Inr None
       else let w = \<lparr>win_from = started_at sl, win_until = checked_at sl\<rparr> in
         res_bind (billing_fault (traverse (rate (p_book p) (p_posture p) w) ls)) (\<lambda>priced.
         res_bind (parse_lease_id (slice_tenant_id sl)) (\<lambda>ten.
         res_bind (parse_lease_id (slice_workspace_id sl)) (\<lambda>wsp.
         res_bind (parse_lease_id (slice_fleet_id sl)) (\<lambda>fl.
           Inr (Some \<lparr>work = FleetLease lease, payer = \<lparr>tenant = ten, workspace = wsp\<rparr>,
             attr = AttrFleet fl (case slice_fleet_name sl of None \<Rightarrow> slice_fleet_id sl | Some n \<Rightarrow> n)
                      (slice_event_id sl),
             provider = p_provider p, model = p_model p, s_posture = p_posture p,
             lines = priced\<rparr>)))))) = Inr s"
    unfolding lease_settlement_def res_bind_Inr by blast
  have "0 \<le> sum_list (map (\<lambda>l. uint (runtime_ms l)) rt)
      \<and> sum_list (map (\<lambda>l. uint (runtime_ms l)) rt) \<le> slice_runtime_ms sl"
    using rt assms(2) count_u32_le [OF assms(2)]
    by (auto simp: runtime_line_of_def Let_def result_simps runtime_line_def split: if_splits)
  moreover have "settlement_ms s = sum_list (map (\<lambda>l. uint (runtime_ms l)) rt)"
  proof (cases s)
    case None
    with rest show ?thesis by (auto simp: Let_def result_simps split: if_splits)
  next
    case (Some st)
    with rest obtain w where "traverse (rate (p_book p) (p_posture p) w) (map request_line requests @ rt)
        = Inr (lines st)"
      by (auto simp: Let_def result_simps split: if_splits)
    from traverse_rate_runtime [OF this] show ?thesis
      by (simp add: settlement_ms_def Some)
  qed
  ultimately show "0 \<le> settlement_ms s" "settlement_ms s \<le> slice_runtime_ms sl" by auto
qed

lemma original_requests_ms:
  assumes "original_requests now p lease runner requests db = Inr s"
  shows "settlement_ms s = 0"
proof -
  have "settlement_ms s = 0" if "lease_settlement p lease (sl\<lparr>slice_runtime_ms := 0\<rparr>) requests = Inr s" for sl
    using lease_settlement_ms [OF that] by simp
  then show ?thesis
    using assms by (auto simp: original_requests_def split: if_splits option.splits)
qed

end
