(* ===== verification/Keyset.thy ===== *)
theory Keyset
  imports Prelude
begin

text \<open>
  Keyset paging: a reader asks for at most \<open>limit\<close> rows strictly after the position of the
  last row it was given.  The interface is the locale \<open>keyset\<close>; its lemma says that walking the
  pages visits every row exactly once, in key order, whatever the page size.
\<close>

text \<open>One lap of a paged reader, with fuel for the number of pages.\<close>

fun keyset_walk :: "(nat \<Rightarrow> 'c option \<Rightarrow> 's \<Rightarrow> 'r list) \<Rightarrow> ('r \<Rightarrow> 'c) \<Rightarrow> nat \<Rightarrow> nat
    \<Rightarrow> 'c option \<Rightarrow> 's \<Rightarrow> 'r list" where
  "keyset_walk fetch cursor limit 0 after st = []"
| "keyset_walk fetch cursor limit (Suc pages) after st =
     (let page = fetch limit after st
      in if length page < limit then page
         else page @ keyset_walk fetch cursor limit pages (Some (cursor (last page))) st)"

lemma filter_after_last:
  fixes key :: "'r \<Rightarrow> 'k::linorder"
  assumes "sorted (map key (xs @ ys))" "distinct (map key (xs @ ys))" "xs \<noteq> []"
  shows "filter (\<lambda>r. key (last xs) < key r) (xs @ ys) = ys"
proof -
  have "sorted (map key (butlast xs @ [last xs]))" using assms(1,3) by (simp add: sorted_append)
  then have "key x \<le> key (last xs)" if "x \<in> set xs" for x
    using that assms(3) by (cases xs rule: rev_cases) (auto simp: sorted_append)
  moreover have "key (last xs) < key y" if "y \<in> set ys" for y
  proof -
    have "key (last xs) \<in> key ` set xs" "key y \<in> key ` set ys"
      using that last_in_set [OF assms(3)] by auto
    moreover have "key ` set xs \<inter> key ` set ys = {}" using assms(2) by simp
    ultimately have "key (last xs) \<noteq> key y" by (metis disjoint_iff)
    moreover have "key (last xs) \<le> key y"
      using assms(1) that last_in_set [OF assms(3)] by (auto simp: sorted_append)
    ultimately show ?thesis by simp
  qed
  ultimately show ?thesis
    by (auto simp: filter_empty_conv filter_id_conv not_less)
qed

locale keyset =
  fixes key :: "'r \<Rightarrow> 'k::linorder"
    and rows_of :: "'s \<Rightarrow> 'r list"
    and fetch :: "nat \<Rightarrow> 'c option \<Rightarrow> 's \<Rightarrow> 'r list"
    and cursor :: "'r \<Rightarrow> 'c"
    and pos :: "'c \<Rightarrow> 'k"
    and good :: "'s \<Rightarrow> bool"
  assumes fetch_first: "fetch limit None st = take limit (sort_key key (rows_of st))"
    and fetch_after: "fetch limit (Some c) st
          = take limit (sort_key key (filter (\<lambda>r. pos c < key r) (rows_of st)))"
    and pos_cursor: "pos (cursor r) = key r"
    and keys_distinct: "good st \<Longrightarrow> distinct (map key (rows_of st))"
begin

definition rest :: "'c option \<Rightarrow> 's \<Rightarrow> 'r list" where
  "rest after st = (case after of None \<Rightarrow> sort_key key (rows_of st)
     | Some c \<Rightarrow> filter (\<lambda>r. pos c < key r) (sort_key key (rows_of st)))"

lemma fetch_rest: "fetch limit after st = take limit (rest after st)"
  by (cases after) (simp_all add: rest_def fetch_first fetch_after filter_sort)

lemma rest_step:
  assumes "good st" "0 < limit" "limit \<le> length (rest after st)"
  shows "rest (Some (cursor (last (take limit (rest after st))))) st = drop limit (rest after st)"
proof -
  let ?S = "sort_key key (rows_of st)"
  let ?T = "rest after st"
  have S: "sorted (map key ?S)" "distinct (map key ?S)"
    using keys_distinct [OF assms(1)] by (auto simp: distinct_map)
  have T: "sorted (map key ?T)" "distinct (map key ?T)"
    using S by (auto simp: rest_def sorted_filter distinct_map inj_on_def split: option.split)
  have ne: "take limit ?T \<noteq> []" using assms(2,3) by auto
  have "filter (\<lambda>r. key (last (take limit ?T)) < key r) (take limit ?T @ drop limit ?T) = drop limit ?T"
    using T ne by (intro filter_after_last) simp_all
  moreover have "filter (\<lambda>r. key (last (take limit ?T)) < key r) ?T
      = filter (\<lambda>r. key (last (take limit ?T)) < key r) ?S"
  proof (cases after)
    case (Some c)
    have "last (take limit ?T) \<in> set ?T" using ne by (meson in_set_takeD last_in_set)
    then have "pos c < key (last (take limit ?T))" by (simp add: rest_def Some)
    then show ?thesis by (auto simp: rest_def Some intro!: filter_cong)
  qed (simp add: rest_def)
  ultimately show ?thesis by (simp add: rest_def [of "Some _"] pos_cursor)
qed

lemma walk_rest:
  assumes "good st" "0 < limit" "length (rest after st) < pages * limit"
  shows "keyset_walk fetch cursor limit pages after st = rest after st"
  using assms(3)
proof (induction pages arbitrary: after)
  case 0
  then show ?case by simp
next
  case (Suc pages)
  let ?T = "rest after st"
  show ?case
  proof (cases "length ?T < limit")
    case True
    then show ?thesis by (simp add: fetch_rest)
  next
    case False
    then have step: "rest (Some (cursor (last (take limit ?T)))) st = drop limit ?T"
      using assms(1,2) by (intro rest_step) auto
    have "length (drop limit ?T) < pages * limit" using Suc.prems False by simp
    then have "keyset_walk fetch cursor limit pages (Some (cursor (last (take limit ?T)))) st
        = drop limit ?T"
      using Suc.IH [of "Some (cursor (last (take limit ?T)))"] step by simp
    moreover have "fetch limit after st = take limit ?T" by (rule fetch_rest)
    ultimately show ?thesis using False by (simp add: Let_def)
  qed
qed

lemma walk_visits_all:
  assumes "good st" "0 < limit" "length (rows_of st) < pages * limit"
  shows "keyset_walk fetch cursor limit pages None st = sort_key key (rows_of st)"
  using walk_rest [of st limit None pages] assms by (simp add: rest_def)

end

end
