(* ===== verification/Decisions.thy ===== *)
theory Decisions
  imports Admission Metering Keyset
begin

text \<open>
  The physical decision calls of \<open>afd_fleet/src/task/decision/\<close>: reserving credit for a paid model
  call, issuing its one credential, accounting its receipt once and refunding what was never issued.
  A statement sees one store at one instant; one that violates a constraint of its table fails and
  rolls its transaction back.  What \<open>prepare::on\<close> rendered for a call (its request, its reviewed
  profile, its frozen prices) is an argument, and so is the digest of a receipt.
\<close>

section \<open>Vocabulary\<close>

datatype task_refusal = NotFound | StaleState | ReplayConflict | InvalidTarget | LimitExhausted
  | DecisionUnavailable | DecisionOverage | EffectUncertain | CheckpointIncompatible
  | StorageUnavailable | InputAmbiguous

datatype decision_error = TaskRefused task_refusal | OnLease lease_error | OnBilling billing_error
  | TaskState | TaskCounter string | DecisionQuery

datatype call_state = CallReserved | CallIssued | CallKnown | CallUnknown | CallNotSent

fun call_state_as_str :: "call_state \<Rightarrow> string" where
  "call_state_as_str CallReserved = ''reserved''"
| "call_state_as_str CallIssued = ''issued''"
| "call_state_as_str CallKnown = ''known''"
| "call_state_as_str CallUnknown = ''unknown''"
| "call_state_as_str CallNotSent = ''not_sent''"

definition call_state_parse :: "string \<Rightarrow> call_state option" where
  "call_state_parse s = List.find (\<lambda>st. call_state_as_str st = s)
     [CallReserved, CallIssued, CallKnown, CallUnknown, CallNotSent]"

datatype purpose = Intent | Goal

fun purpose_as_str :: "purpose \<Rightarrow> string" where
  "purpose_as_str Intent = ''intent''"
| "purpose_as_str Goal = ''goal''"

record decision_usage =
  du_input_tokens :: u32
  du_output_tokens :: u32
  du_cached_input_tokens :: u32
  du_cache_write_tokens :: u32

text \<open>\<open>checked_sub\<close> of the \<open>checked_add\<close> of the two subsets.\<close>

definition uncached_input :: "decision_usage \<Rightarrow> u32 option" where
  "uncached_input u = (let subsets = uint (du_cached_input_tokens u) + uint (du_cache_write_tokens u) in
     if 2 ^ 32 \<le> subsets \<or> uint (du_input_tokens u) < subsets then None
     else Some (word_of_int (uint (du_input_tokens u) - subsets)))"

datatype retry_delay = DelayUnspecified | WithinBudget int | TooLong
datatype unavailable_cause = CauseTimeout | CauseTransport | ProviderStatus int retry_delay | CauseResponse
datatype not_sent_cause = Preflight | Build

text \<open>A provider's result carries its usage, its reported model and answers the accounting never reads.\<close>

datatype 'p decision_receipt = ProviderReceipt "decision_usage option" "string option" 'p
  | is_unknown: UnknownReceipt unavailable_cause
  | NotSentReceipt not_sent_cause

section \<open>Rows\<close>

record profile =
  profile_model_id :: string
  profile_model :: string
  profile_revision_id :: string

record frozen_quote =
  fq_at :: instant
  fq_book :: price_book

record decision_call =
  dc_id :: string
  dc_runner_id :: string
  dc_lease_id :: string
  dc_source_admission_id :: string
  dc_fleet_id :: string
  dc_workspace_id :: string
  dc_tenant_id :: string
  dc_task_id :: "string option"
  dc_task_generation :: "int option"
  dc_fencing_token :: int
  dc_operation_id :: string
  dc_request_digest :: string
  dc_assessment_id :: string
  dc_assessment_key :: string
  dc_attempt_number :: int
  dc_retry_of :: "string option"
  dc_logical_expires_at :: instant
  dc_purpose :: string
  dc_status :: string
  dc_provider :: string
  dc_fleet_name :: string
  dc_profile :: profile
  dc_price :: frozen_quote
  dc_usage_sequence :: int
  dc_reserved_nanos :: nanos
  dc_issued_at :: "instant option"
  dc_accounted_at :: "instant option"
  dc_known_usage :: "decision_usage option"
  dc_charged_nanos :: "nanos option"
  dc_canonical_digest :: "string option"
  dc_failure_digest :: "string option"
  dc_failure_reason :: "unavailable_cause option"
  dc_failure_recorded_at :: "instant option"
  dc_reported_model :: "string option"
  dc_created_at :: instant

record fleet_row =
  f_workspace_id :: string
  f_status :: string

text \<open>
  The tables of the accounting beside the lease store: the retained calls, the private payload rows
  with their result, the items of a task by admission, and the enabled reviewed profiles.
\<close>

record 'p decision_db =
  leasing :: lease_db
  d_runners :: runners
  d_fleets :: "string \<rightharpoonup> fleet_row"
  enabled_profiles :: "(string \<times> string) list"
  task_items :: "(string \<times> string \<times> string \<times> string) list"
  calls :: "decision_call list"
  payload_results :: "string \<rightharpoonup> 'p decision_receipt option"

datatype lookup = LookupId string | LookupOperation string string | LookupAssessment string int

fun lookup_hits :: "lookup \<Rightarrow> decision_call \<Rightarrow> bool" where
  "lookup_hits (LookupId i) c = (dc_id c = i)"
| "lookup_hits (LookupOperation lease oper) c = (dc_lease_id c = lease \<and> dc_operation_id c = oper)"
| "lookup_hits (LookupAssessment key attempt) c = (dc_assessment_key c = key \<and> dc_attempt_number c = attempt)"

definition find_call :: "lookup \<Rightarrow> 'p decision_db \<Rightarrow> decision_call option" where
  "find_call k db = List.find (lookup_hits k) (calls db)"

definition call_issued :: "decision_call \<Rightarrow> bool" where "call_issued c \<longleftrightarrow> dc_issued_at c \<noteq> None"
definition call_accounted :: "decision_call \<Rightarrow> bool" where "call_accounted c \<longleftrightarrow> dc_accounted_at c \<noteq> None"

definition remaining_ms :: "instant \<Rightarrow> decision_call \<Rightarrow> int" where
  "remaining_ms now c = max 0 ((dc_logical_expires_at c - now) div 1000000)"

definition failure_age_ms :: "instant \<Rightarrow> decision_call \<Rightarrow> int option" where
  "failure_age_ms now c = map_option (\<lambda>t. epoch_ms (now - t)) (dc_failure_recorded_at c)"

definition state_of_call :: "decision_call \<Rightarrow> (decision_error, call_state) result" where
  "state_of_call c = ok_or TaskState (call_state_parse (dc_status c))"

definition call_id :: "string \<Rightarrow> (decision_error, uuid7) result" where
  "call_id text = (case uuid7_parse text of Inl _ \<Rightarrow> Inl (OnLease LeaseRowMalformed) | Inr i \<Rightarrow> Inr i)"

record task_lease =
  tl_lease_id :: uuid7
  tl_runner_id :: uuid7
  tl_fencing_token :: u64

definition owned_by :: "decision_call \<Rightarrow> task_lease \<Rightarrow> bool" where
  "owned_by c l \<longleftrightarrow> dc_runner_id c = as_str (tl_runner_id l) \<and> dc_lease_id c = as_str (tl_lease_id l)
     \<and> 0 \<le> dc_fencing_token c \<and> dc_fencing_token c = uint (tl_fencing_token l)"

section \<open>Classifying a receipt\<close>

datatype plan = Replay
  | PlanUnknown (plan_usage: "decision_usage option") (plan_canonical: bool)
  | PlanKnown decision_usage nanos settlement
  | PlanNotSent

definition frozen_rate :: "frozen_quote \<Rightarrow> usage_line \<Rightarrow> (billing_error, rated_line) result" where
  "frozen_rate q line = rate (fq_book q) Platform \<lparr>win_from = fq_at q, win_until = fq_at q\<rparr> line"

definition plan_unknown :: "decision_call \<Rightarrow> string \<Rightarrow> (decision_error, plan) result" where
  "plan_unknown c digest = (case dc_failure_digest c of
       Some saved \<Rightarrow> if saved = digest then Inr Replay else Inl (TaskRefused ReplayConflict)
     | None \<Rightarrow> Inr (PlanUnknown None False))"

definition plan_unpriced :: "decision_call \<Rightarrow> decision_usage \<Rightarrow> string \<Rightarrow> plan" where
  "plan_unpriced c u digest = (if dc_canonical_digest c = Some digest \<and> dc_known_usage c = Some u
     then Replay else PlanUnknown (Some u) True)"

definition decision_line :: "decision_call \<Rightarrow> decision_usage \<Rightarrow> u32 \<Rightarrow> u32 \<Rightarrow> usage_line" where
  "decision_line c u uncached s = \<lparr>seq = s, at = fq_at (dc_price c), input_tokens = uncached,
     cached_input_tokens = du_cached_input_tokens u, cache_write_tokens = du_cache_write_tokens u,
     cache_write_5m_tokens = 0, cache_write_1h_tokens = 0, output_tokens = du_output_tokens u,
     runtime_ms = 0\<rparr>"

definition decision_seq :: "int \<Rightarrow> (decision_error, u32) result" where
  "decision_seq n = (case try_u32 n of None \<Rightarrow> Inl (OnLease SequenceCorrupt)
     | Some s \<Rightarrow> if decision_seq_base \<le> s then Inr s else Inl (OnLease SequenceCorrupt))"

definition plan_known :: "decision_call \<Rightarrow> decision_usage \<Rightarrow> u32 \<Rightarrow> string \<Rightarrow> (decision_error, plan) result" where
  "plan_known c u uncached digest =
     res_bind (decision_seq (dc_usage_sequence c)) (\<lambda>s.
       case frozen_rate (dc_price c) (decision_line c u uncached s) of
         Inl _ \<Rightarrow> Inr (plan_unpriced c u digest)
       | Inr rated \<Rightarrow>
           if unpriced_tokens rated \<noteq> 0 then Inr (plan_unpriced c u digest)
           else res_bind (call_id (dc_lease_id c)) (\<lambda>lease.
             res_bind (call_id (dc_tenant_id c)) (\<lambda>ten.
             res_bind (call_id (dc_workspace_id c)) (\<lambda>wsp.
             res_bind (call_id (dc_fleet_id c)) (\<lambda>fl.
               Inr (PlanKnown u (charged rated) \<lparr>work = FleetLease lease,
                 payer = \<lparr>tenant = ten, workspace = wsp\<rparr>,
                 attr = AttrFleet fl (dc_fleet_name c) (dc_source_admission_id c),
                 provider = dc_provider c, model = profile_model (dc_profile c), s_posture = Platform,
                 lines = [rated]\<rparr>))))))"

definition classify :: "decision_call \<Rightarrow> 'p decision_receipt \<Rightarrow> string \<Rightarrow> (decision_error, plan) result" where
  "classify c r digest =
     (if dc_canonical_digest c = Some digest \<and> call_accounted c then Inr Replay
      else if is_unknown r \<and> dc_failure_digest c = Some digest then Inr Replay
      else if call_accounted c \<or> (dc_canonical_digest c \<noteq> None \<and> dc_canonical_digest c \<noteq> Some digest)
      then Inl (TaskRefused ReplayConflict)
      else if \<not> call_issued c then Inl (TaskRefused InvalidTarget)
      else case r of
        ProviderReceipt measured_usage _ _ \<Rightarrow>
          (case Option.bind measured_usage (\<lambda>u. map_option (Pair u) (uncached_input u)) of
             Some (u, uncached) \<Rightarrow> plan_known c u uncached digest
           | None \<Rightarrow> plan_unknown c digest)
      | UnknownReceipt _ \<Rightarrow> plan_unknown c digest
      | NotSentReceipt _ \<Rightarrow>
          if dc_failure_digest c = None \<and> dc_known_usage c = None then Inr PlanNotSent
          else Inl (TaskRefused ReplayConflict))"

section \<open>Recording\<close>

record accounting =
  acc_state :: call_state
  acc_usage :: "decision_usage option"
  acc_charged :: "nanos option"
  acc_canonical :: bool
  acc_failure :: bool
  acc_settlement :: "settlement option"

fun accounting_of :: "plan \<Rightarrow> accounting option" where
  "accounting_of Replay = None"
| "accounting_of (PlanUnknown u canonical) = Some \<lparr>acc_state = CallUnknown, acc_usage = u, acc_charged = None,
     acc_canonical = canonical, acc_failure = (\<not> canonical), acc_settlement = None\<rparr>"
| "accounting_of (PlanKnown u ch st) = Some \<lparr>acc_state = CallKnown, acc_usage = Some u, acc_charged = Some ch,
     acc_canonical = True, acc_failure = False, acc_settlement = Some st\<rparr>"
| "accounting_of PlanNotSent = Some \<lparr>acc_state = CallNotSent, acc_usage = None, acc_charged = Some 0,
     acc_canonical = True, acc_failure = False, acc_settlement = None\<rparr>"

text \<open>\<open>COALESCE\<close>.\<close>

fun or_else :: "'a option \<Rightarrow> 'a option \<Rightarrow> 'a option" where
  "or_else (Some x) y = Some x"
| "or_else None y = y"

text \<open>\<open>record.sql\<close> on the row it names, with the table's two check constraints.\<close>

definition recorded_row :: "instant \<Rightarrow> accounting \<Rightarrow> 'p decision_receipt \<Rightarrow> string \<Rightarrow> decision_call \<Rightarrow> decision_call" where
  "recorded_row now a r digest c = (let fdigest = (if acc_failure a then Some digest else None) in
     c\<lparr>dc_status := call_state_as_str (acc_state a),
       dc_accounted_at := (if acc_charged a \<noteq> None then or_else (dc_accounted_at c) (Some now) else dc_accounted_at c),
       dc_known_usage := or_else (dc_known_usage c) (acc_usage a),
       dc_charged_nanos := or_else (dc_charged_nanos c) (acc_charged a),
       dc_canonical_digest := or_else (dc_canonical_digest c) (if acc_canonical a then Some digest else None),
       dc_failure_digest := or_else (dc_failure_digest c) fdigest,
       dc_failure_reason := or_else (dc_failure_reason c)
         (case r of UnknownReceipt cause \<Rightarrow> Some cause | _ \<Rightarrow> None),
       dc_failure_recorded_at := (if dc_failure_digest c = None \<and> fdigest \<noteq> None then Some now
         else dc_failure_recorded_at c),
       dc_reported_model := or_else (dc_reported_model c)
         (case r of ProviderReceipt _ m _ \<Rightarrow> m | _ \<Rightarrow> None)\<rparr>)"

definition row_checks :: "decision_call \<Rightarrow> bool" where
  "row_checks c \<longleftrightarrow> (case dc_charged_nanos c of None \<Rightarrow> True | Some ch \<Rightarrow> 0 \<le> ch)
     \<and> (dc_known_usage c \<noteq> None \<longrightarrow> dc_issued_at c \<noteq> None)
     \<and> (dc_charged_nanos c \<noteq> None \<longrightarrow> dc_accounted_at c \<noteq> None)"

definition update_call :: "string \<Rightarrow> (decision_call \<Rightarrow> decision_call) \<Rightarrow> 'p decision_db \<Rightarrow> 'p decision_db" where
  "update_call i f db = db\<lparr>calls := map (\<lambda>c. if dc_id c = i then f c else c) (calls db)\<rparr>"

definition record_sql :: "instant \<Rightarrow> accounting \<Rightarrow> 'p decision_receipt \<Rightarrow> string \<Rightarrow> string \<Rightarrow> 'p decision_db
    \<Rightarrow> (decision_error, 'p decision_db) result" where
  "record_sql now a r digest i db = (case find_call (LookupId i) db of
       None \<Rightarrow> Inl DecisionQuery
     | Some c \<Rightarrow> if row_checks (recorded_row now a r digest c)
         then Inr (update_call i (recorded_row now a r digest) db) else Inl DecisionQuery)"

text \<open>\<open>account_task.sql\<close>: the new resource version, or nothing where the task is gone.\<close>

definition account_task_sql :: "string \<Rightarrow> string \<Rightarrow> string \<Rightarrow> nanos \<Rightarrow> nanos \<Rightarrow> lease_db
    \<Rightarrow> (decision_error, int option \<times> lease_db) result" where
  "account_task_sql i fleet ws reserved ch db = (case tasks db i of
       None \<Rightarrow> Inr (None, db)
     | Some t \<Rightarrow>
         if t_fleet_id t \<noteq> fleet \<or> t_workspace_id t \<noteq> ws then Inr (None, db)
         else if reserved_model_nanos t < reserved \<or> used_model_nanos t + ch < 0 then Inl DecisionQuery
         else let t' = t\<lparr>reserved_model_nanos := reserved_model_nanos t - reserved,
               used_model_nanos := min (used_model_nanos t + ch) i64_max,
               t_resource_version := t_resource_version t + 1\<rparr>
           in Inr (Some (t_resource_version t'), db\<lparr>tasks := (tasks db)(i \<mapsto> t')\<rparr>))"

record written =
  written_call :: decision_call
  replayed :: bool
  task_version :: "int option"

text \<open>\<open>Recording::write\<close>: the header, the usage line, the payload's result, then the task.\<close>

definition write_receipt :: "instant \<Rightarrow> minting \<Rightarrow> decision_call \<Rightarrow> 'p decision_receipt \<Rightarrow> string \<Rightarrow> plan
    \<Rightarrow> 'p decision_db \<Rightarrow> (decision_error, written \<times> 'p decision_db) result" where
  "write_receipt now mint c r digest plan db =
     res_bind (case accounting_of plan of
       None \<Rightarrow> Inr (None, db)
     | Some a \<Rightarrow>
         res_bind (record_sql now a r digest (dc_id c) db) (\<lambda>db1.
         res_bind (case acc_settlement a of None \<Rightarrow> Inr db1
           | Some st \<Rightarrow> (case log_lines mint now st (bills (leasing db1)) of
                 Inl f \<Rightarrow> Inl (OnBilling f)
               | Inr (_, b) \<Rightarrow> Inr (db1\<lparr>leasing := (leasing db1)\<lparr>bills := b\<rparr>\<rparr>))) (\<lambda>db2.
         let db3 = db2\<lparr>payload_results := (case payload_results db2 (dc_id c) of
             None \<Rightarrow> payload_results db2
           | Some _ \<Rightarrow> (payload_results db2)(dc_id c \<mapsto> Some r))\<rparr> in
         case (dc_task_id c, acc_charged a) of
           (Some t, Some ch) \<Rightarrow>
             res_bind (account_task_sql t (dc_fleet_id c) (dc_workspace_id c) (dc_reserved_nanos c) ch (leasing db3))
               (\<lambda>(v, l). Inr (v, db3\<lparr>leasing := l\<rparr>))
         | _ \<Rightarrow> Inr (None, db3))))
     (\<lambda>(version, db'). res_bind (ok_or (TaskRefused NotFound) (find_call (LookupId (dc_id c)) db'))
       (\<lambda>saved. Inr (\<lparr>written_call = saved, replayed = (accounting_of plan = None),
          task_version = version\<rparr>, db')))"

text \<open>\<open>record::record\<close>, from the presented fence to the commit.\<close>

definition record_receipt :: "instant \<Rightarrow> minting \<Rightarrow> task_lease \<Rightarrow> string \<Rightarrow> u64 \<Rightarrow> 'p decision_receipt \<Rightarrow> string
    \<Rightarrow> 'p decision_db \<Rightarrow> (decision_error, written \<times> 'p decision_db) result" where
  "record_receipt now mint l i presented r digest db =
     (if presented \<noteq> tl_fencing_token l then Inl (OnLease StaleFence)
      else case find_call (LookupId i) db of None \<Rightarrow> Inl (TaskRefused NotFound)
      | Some c \<Rightarrow> if \<not> owned_by c l then Inl (OnLease StaleFence)
          else res_bind (classify c r digest) (\<lambda>plan. write_receipt now mint c r digest plan db))"

section \<open>Budgets\<close>

definition call_nanos :: int where "call_nanos = 20000000"
definition source_calls_max :: int where "source_calls_max = 10"
definition logical_span :: int where "logical_span = 30 * 1000000000"

definition overage_sql :: "string \<Rightarrow> string \<Rightarrow> string option \<Rightarrow> string \<Rightarrow> string \<Rightarrow> 'p decision_db \<Rightarrow> bool" where
  "overage_sql lease source task fleet ws db = list_ex (\<lambda>c. dc_fleet_id c = fleet \<and> dc_workspace_id c = ws
     \<and> (case dc_charged_nanos c of None \<Rightarrow> False | Some ch \<Rightarrow> dc_reserved_nanos c < ch)
     \<and> (dc_lease_id c = lease \<or> dc_source_admission_id c = source
        \<or> (case task of None \<Rightarrow> False | Some t \<Rightarrow> dc_task_id c = Some t
            \<or> (t, dc_source_admission_id c, dc_fleet_id c, dc_workspace_id c) \<in> set (task_items db)))) (calls db)"

definition source_calls_sql :: "string \<Rightarrow> 'p decision_db \<Rightarrow> int" where
  "source_calls_sql source db = int (length (filter (\<lambda>c. dc_source_admission_id c = source
     \<and> dc_purpose c = purpose_as_str Intent) (calls db)))"

text \<open>The sum of the reservations no receipt accounted yet, under a filter.\<close>

definition pending_nanos :: "(decision_call \<Rightarrow> bool) \<Rightarrow> decision_call list \<Rightarrow> int" where
  "pending_nanos p cs = sum_list (map dc_reserved_nanos (filter (\<lambda>c. p c \<and> dc_accounted_at c = None) cs))"

definition required_credit :: "string \<Rightarrow> nanos \<Rightarrow> 'p decision_db \<Rightarrow> nanos" where
  "required_credit lease headroom db =
     nanos_saturating_add (pending_nanos (\<lambda>c. dc_lease_id c = lease) (calls db)) headroom"

text \<open>\<open>BUDGET\<close>: the fleet's spend in each window, and what its unresolved calls hold.\<close>

definition budget_sql :: "instant \<Rightarrow> instant \<Rightarrow> string \<Rightarrow> string \<Rightarrow> 'p decision_db \<Rightarrow> (decision_error, spend) result" where
  "budget_sql month_floor now ws fleet db =
     (let pending = pending_nanos (\<lambda>c. dc_workspace_id c = ws \<and> dc_fleet_id c = fleet) (calls db);
          d = spent_since ws fleet (day_floor now) (bills (leasing db));
          m = spent_since ws fleet month_floor (bills (leasing db)) in
      if in_i64 pending \<and> in_i64 d \<and> in_i64 m \<and> in_i64 (d + pending) \<and> in_i64 (m + pending)
      then Inr \<lparr>spend_day = d + pending, spend_month = m + pending\<rparr> else Inl DecisionQuery)"

text \<open>A task's context, as far as the budget reads it: counters refuse a negative column.\<close>

definition small_counter :: "string \<Rightarrow> int \<Rightarrow> (decision_error, int) result" where
  "small_counter column n = (if 0 \<le> n \<and> n < 2 ^ 32 then Inr n else Inl (TaskCounter column))"

definition counter :: "string \<Rightarrow> int \<Rightarrow> (decision_error, int) result" where
  "counter column n = (if 0 \<le> n \<and> n < 2 ^ 64 then Inr n else Inl (TaskCounter column))"

record task_budget =
  limit_model_nanos :: int
  limit_running_seconds :: int
  limit_decision_calls :: int
  usage_model_nanos :: int
  usage_reserved_nanos :: int
  usage_running_nanos :: int
  usage_decision_calls :: int

definition task_budget_of :: "task_row \<Rightarrow> (decision_error, task_budget) result" where
  "task_budget_of t =
     res_bind (small_counter ''max_running_nanos'' (rust_div (max_running_nanos t) 1000000000)) (\<lambda>secs.
     res_bind (small_counter ''max_decision_calls'' (max_decision_calls t)) (\<lambda>mx.
     res_bind (counter ''used_running_nanos'' (used_running_nanos t)) (\<lambda>run.
     res_bind (small_counter ''used_decision_calls'' (used_decision_calls t)) (\<lambda>n.
       Inr \<lparr>limit_model_nanos = max_model_nanos t, limit_running_seconds = secs, limit_decision_calls = mx,
         usage_model_nanos = used_model_nanos t, usage_reserved_nanos = reserved_model_nanos t,
         usage_running_nanos = run, usage_decision_calls = n\<rparr>))))"

definition check_goal :: "task_budget \<Rightarrow> int \<Rightarrow> bool \<Rightarrow> (decision_error, unit) result" where
  "check_goal t extra allocating =
     (let m = saturating_add (saturating_add (usage_model_nanos t) (usage_reserved_nanos t)) extra in
      if limit_model_nanos t < m \<or> limit_running_seconds t * 1000000000 \<le> usage_running_nanos t
         \<or> (allocating \<and> limit_decision_calls t \<le> usage_decision_calls t)
      then Inl (TaskRefused LimitExhausted) else Inr ())"

record native_lease =
  nl_lease_id :: string
  nl_fleet_id :: string
  nl_workspace_id :: string

record assessed =
  as_purpose :: purpose
  as_source_admission_id :: string
  as_execution_task :: "string option"

text \<open>\<open>paid_ready\<close>, then \<open>check_on\<close>.\<close>

definition paid_ready :: "native_lease \<Rightarrow> assessed \<Rightarrow> 'p decision_db \<Rightarrow> (decision_error, unit) result" where
  "paid_ready l x db = (if overage_sql (nl_lease_id l) (as_source_admission_id x)
       (if as_purpose x = Goal then as_execution_task x else None) (nl_fleet_id l) (nl_workspace_id l) db
     then Inl (TaskRefused DecisionOverage) else Inr ())"

definition check_on :: "instant \<Rightarrow> instant \<Rightarrow> (decision_error, budget option) result \<Rightarrow> native_lease \<Rightarrow> assessed
    \<Rightarrow> task_budget option \<Rightarrow> bool \<Rightarrow> 'p decision_db \<Rightarrow> (decision_error, unit) result" where
  "check_on month_floor now config l x task allocating db =
     res_bind (paid_ready l x db) (\<lambda>_.
     let extra = (if allocating then call_nanos else 0) in
     res_bind (if as_purpose x = Goal
       then res_bind (ok_or (TaskRefused InvalidTarget) task) (\<lambda>t. check_goal t extra allocating)
       else if allocating \<and> source_calls_max \<le> source_calls_sql (as_source_admission_id x) db
       then Inl (TaskRefused LimitExhausted) else Inr ()) (\<lambda>_.
     res_bind config (\<lambda>cfg.
     res_bind (ok_or (TaskRefused StaleState) cfg) (\<lambda>b.
     res_bind (budget_sql month_floor now (nl_workspace_id l) (nl_fleet_id l) db) (\<lambda>totals.
       if covers_reservation b \<lparr>spend_day = nanos_saturating_add (spend_day totals) extra,
             spend_month = nanos_saturating_add (spend_month totals) extra\<rparr> \<noteq> BudgetAdmit
       then Inl (TaskRefused LimitExhausted) else Inr ())))))"

section \<open>Reserving\<close>

text \<open>What \<open>prepare::on\<close> resolved and rendered for a call, under the lease the guard proved.\<close>

record prepared =
  pr_lease :: native_lease
  pr_tenant_id :: string
  pr_fleet_name :: string
  pr_fence :: int
  pr_checked_at :: instant
  pr_profile :: profile
  pr_provider :: string
  pr_assessed :: assessed
  pr_key :: string
  pr_execution :: "(string \<times> int) option"
  pr_quote :: frozen_quote

record reservation_input =
  ri_fencing_token :: u64
  ri_operation_id :: string
  ri_retry_of :: "string option"
  ri_source_admission_id :: string
  ri_digest :: string

text \<open>The task a goal call is charged to.\<close>

definition goal_of :: "prepared \<Rightarrow> (string \<times> int) option" where
  "goal_of p = (if as_purpose (pr_assessed p) = Goal then pr_execution p else None)"

datatype attempt = Original string | Retry decision_call

definition retry_allowed_after :: "unavailable_cause option \<Rightarrow> int option" where
  "retry_allowed_after cause = (case cause of
     Some (ProviderStatus status d) \<Rightarrow> if status = 429 \<or> status = 529
       then (case d of DelayUnspecified \<Rightarrow> Some 0 | WithinBudget ms \<Rightarrow> Some ms | TooLong \<Rightarrow> None) else None
   | _ \<Rightarrow> None)"

definition resolve_attempt :: "instant \<Rightarrow> prepared \<Rightarrow> string option \<Rightarrow> string \<Rightarrow> string \<Rightarrow> 'p decision_db
    \<Rightarrow> (decision_error, attempt) result" where
  "resolve_attempt now p parent digest aid db = (case parent of
     None \<Rightarrow> Inr (Original aid)
   | Some i \<Rightarrow>
       res_bind (ok_or (TaskRefused NotFound) (find_call (LookupId i) db)) (\<lambda>c.
       if dc_attempt_number c \<noteq> 0 \<or> \<not> call_issued c \<or> dc_assessment_key c \<noteq> pr_key p
          \<or> dc_request_digest c \<noteq> digest \<or> dc_fleet_id c \<noteq> nl_fleet_id (pr_lease p)
          \<or> dc_workspace_id c \<noteq> nl_workspace_id (pr_lease p)
          \<or> dc_logical_expires_at c \<le> pr_checked_at p
       then Inl (TaskRefused ReplayConflict)
       else res_bind (state_of_call c) (\<lambda>st. if st \<noteq> CallUnknown then Inl (TaskRefused ReplayConflict)
       else res_bind (ok_or (TaskRefused DecisionUnavailable) (retry_allowed_after (dc_failure_reason c))) (\<lambda>delay.
         case failure_age_ms now c of None \<Rightarrow> Inl (TaskRefused DecisionUnavailable)
         | Some elapsed \<Rightarrow> if elapsed < delay then Inl (TaskRefused DecisionUnavailable)
             else if payload_results db (dc_id c) = None then Inl (TaskRefused DecisionUnavailable)
             else Inr (Retry c)))))"

fun attempt_number :: "attempt \<Rightarrow> int" where
  "attempt_number (Original _) = 0"
| "attempt_number (Retry _) = 1"

fun attempt_assessment_id :: "attempt \<Rightarrow> string" where
  "attempt_assessment_id (Original a) = a"
| "attempt_assessment_id (Retry c) = dc_assessment_id c"

fun attempt_parent :: "attempt \<Rightarrow> decision_call option" where
  "attempt_parent (Original _) = None"
| "attempt_parent (Retry c) = Some c"

fun attempt_quote :: "attempt \<Rightarrow> frozen_quote \<Rightarrow> frozen_quote" where
  "attempt_quote (Original _) q = q"
| "attempt_quote (Retry c) q = dc_price c"

datatype allocation = AllocReserved decision_call | AllocExisting decision_call

definition classify_allocation :: "decision_call \<Rightarrow> (decision_error, allocation) result" where
  "classify_allocation c = res_bind (state_of_call c) (\<lambda>st.
     Inr (if st = CallReserved \<and> \<not> call_issued c \<and> \<not> call_accounted c then AllocReserved c else AllocExisting c))"

definition replay_matches :: "decision_call \<Rightarrow> reservation_input \<Rightarrow> bool \<Rightarrow> (decision_error, unit) result" where
  "replay_matches c inp operation =
     (if dc_request_digest c \<noteq> ri_digest inp \<or> dc_retry_of c \<noteq> ri_retry_of inp
         \<or> (operation \<and> dc_source_admission_id c \<noteq> ri_source_admission_id inp)
      then Inl (TaskRefused ReplayConflict) else Inr ())"

definition replay_operation :: "task_lease \<Rightarrow> reservation_input \<Rightarrow> decision_call \<Rightarrow> (decision_error, allocation) result" where
  "replay_operation l inp c = (if \<not> owned_by c l then Inl (OnLease StaleFence)
     else res_bind (replay_matches c inp True) (\<lambda>_. classify_allocation c))"

text \<open>\<open>sequence.sql\<close>, one past the lease's greatest.\<close>

definition sequence_sql :: "string \<Rightarrow> 'p decision_db \<Rightarrow> int" where
  "sequence_sql lease db = (case map dc_usage_sequence (filter (\<lambda>c. dc_lease_id c = lease) (calls db)) of
     [] \<Rightarrow> uint decision_seq_base | n # ns \<Rightarrow> Max (set (n # ns)) + 1)"

text \<open>The unique keys and checks of \<open>runner.decision_calls\<close>.\<close>

definition call_conflicts :: "decision_call \<Rightarrow> decision_call \<Rightarrow> bool" where
  "call_conflicts c d \<longleftrightarrow> dc_id c = dc_id d
     \<or> (dc_lease_id c = dc_lease_id d \<and> (dc_operation_id c = dc_operation_id d \<or> dc_usage_sequence c = dc_usage_sequence d))
     \<or> (dc_assessment_key c = dc_assessment_key d \<and> dc_attempt_number c = dc_attempt_number d)
     \<or> (dc_retry_of c \<noteq> None \<and> dc_retry_of c = dc_retry_of d)"

definition call_checks :: "decision_call \<Rightarrow> bool" where
  "call_checks c \<longleftrightarrow> 0 \<le> dc_fencing_token c \<and> 0 \<le> dc_usage_sequence c \<and> 0 \<le> dc_reserved_nanos c
     \<and> (dc_attempt_number c = 0 \<and> dc_retry_of c = None \<or> dc_attempt_number c = 1 \<and> dc_retry_of c \<noteq> None)
     \<and> (dc_task_id c = None \<and> dc_task_generation c = None
        \<or> dc_task_id c \<noteq> None \<and> (case dc_task_generation c of None \<Rightarrow> False | Some g \<Rightarrow> 0 < g))"

definition insert_call_sql :: "decision_call \<Rightarrow> 'p decision_db \<Rightarrow> (decision_error, 'p decision_db) result" where
  "insert_call_sql c db = (if list_ex (call_conflicts c) (calls db) \<or> \<not> call_checks c
       \<or> (case dc_retry_of c of None \<Rightarrow> False | Some i \<Rightarrow> find_call (LookupId i) db = None)
     then Inl DecisionQuery else Inr (db\<lparr>calls := calls db @ [c]\<rparr>))"

definition reserve_task_sql :: "string \<Rightarrow> string \<Rightarrow> string \<Rightarrow> nanos \<Rightarrow> lease_db \<Rightarrow> (decision_error, lease_db) result" where
  "reserve_task_sql i fleet ws n db = (case tasks db i of None \<Rightarrow> Inr db
     | Some t \<Rightarrow> if t_fleet_id t \<noteq> fleet \<or> t_workspace_id t \<noteq> ws then Inr db
         else if \<not> in_i64 (reserved_model_nanos t + n) \<or> 2 ^ 31 \<le> used_decision_calls t + 1 then Inl DecisionQuery
         else Inr (db\<lparr>tasks := (tasks db)(i \<mapsto> t\<lparr>reserved_model_nanos := reserved_model_nanos t + n,
           used_decision_calls := used_decision_calls t + 1, t_resource_version := t_resource_version t + 1\<rparr>)\<rparr>))"

definition intent_call :: "task_lease \<Rightarrow> reservation_input \<Rightarrow> string \<Rightarrow> prepared \<Rightarrow> attempt \<Rightarrow> int \<Rightarrow> decision_call" where
  "intent_call l inp i p a s = \<lparr>dc_id = i, dc_runner_id = as_str (tl_runner_id l), dc_lease_id = as_str (tl_lease_id l),
     dc_source_admission_id = as_source_admission_id (pr_assessed p), dc_fleet_id = nl_fleet_id (pr_lease p),
     dc_workspace_id = nl_workspace_id (pr_lease p), dc_tenant_id = pr_tenant_id p,
     dc_task_id = map_option fst (goal_of p), dc_task_generation = map_option snd (goal_of p),
     dc_fencing_token = pr_fence p, dc_operation_id = ri_operation_id inp, dc_request_digest = ri_digest inp,
     dc_assessment_id = attempt_assessment_id a, dc_assessment_key = pr_key p,
     dc_attempt_number = attempt_number a, dc_retry_of = map_option dc_id (attempt_parent a),
     dc_logical_expires_at = (case attempt_parent a of Some c \<Rightarrow> dc_logical_expires_at c
       | None \<Rightarrow> pr_checked_at p + logical_span),
     dc_purpose = purpose_as_str (as_purpose (pr_assessed p)), dc_status = call_state_as_str CallReserved,
     dc_provider = pr_provider p, dc_fleet_name = pr_fleet_name p, dc_profile = pr_profile p,
     dc_price = attempt_quote a (pr_quote p), dc_usage_sequence = s, dc_reserved_nanos = call_nanos,
     dc_issued_at = None, dc_accounted_at = None, dc_known_usage = None, dc_charged_nanos = None,
     dc_canonical_digest = None, dc_failure_digest = None, dc_failure_reason = None,
     dc_failure_recorded_at = None, dc_reported_model = None, dc_created_at = pr_checked_at p\<rparr>"

text \<open>\<open>Intent::save\<close>: the header, the payload row and the task's credit.\<close>

definition save_intent :: "task_lease \<Rightarrow> reservation_input \<Rightarrow> string \<Rightarrow> prepared \<Rightarrow> attempt \<Rightarrow> 'p decision_db
    \<Rightarrow> (decision_error, 'p decision_db) result" where
  "save_intent l inp i p a db =
     (let s = sequence_sql (as_str (tl_lease_id l)) db in
      res_bind (decision_seq s) (\<lambda>_.
      res_bind (insert_call_sql (intent_call l inp i p a s) db) (\<lambda>db1.
      let db2 = db1\<lparr>payload_results := (payload_results db1)(i \<mapsto> None)\<rparr> in
      case goal_of p of None \<Rightarrow> Inr db2
      | Some (t, _) \<Rightarrow> res_bind (reserve_task_sql t (nl_fleet_id (pr_lease p)) (nl_workspace_id (pr_lease p))
            call_nanos (leasing db2)) (\<lambda>ls. Inr (db2\<lparr>leasing := ls\<rparr>)))))"

text \<open>The task snapshot the preparation read in the same transaction.\<close>

definition execution_budget :: "prepared \<Rightarrow> 'p decision_db \<Rightarrow> (decision_error, task_budget option) result" where
  "execution_budget p db = (case pr_execution p of None \<Rightarrow> Inr None
     | Some (t, _) \<Rightarrow> (case tasks (leasing db) t of None \<Rightarrow> Inl (TaskRefused NotFound)
         | Some row \<Rightarrow> res_bind (task_budget_of row) (\<lambda>b. Inr (Some b))))"

definition block_profile_switch :: "string \<Rightarrow> string \<Rightarrow> string \<Rightarrow> string \<Rightarrow> 'p decision_db \<Rightarrow> bool" where
  "block_profile_switch fleet ws subject rev_id db = list_ex (\<lambda>c. dc_fleet_id c = fleet \<and> dc_workspace_id c = ws
     \<and> take (length subject + 1) (dc_assessment_key c) = subject @ ''/'' \<and> dc_accounted_at c = None
     \<and> profile_revision_id (dc_profile c) \<noteq> rev_id) (calls db)"

text \<open>What the lease guard answers: the fleet it runs on, its frozen profile and the assessed subject.\<close>

record guarded =
  gd_fleet_id :: string
  gd_workspace_id :: string
  gd_profile :: "profile option"
  gd_subject :: "(decision_error, string) result"

record 'p reserve_env =
  re_now :: instant
  re_month_floor :: instant
  re_call_id :: "uuid7 option"
  re_assessment_id :: "uuid7 option"
  re_guard :: "(decision_error, guarded) result"
  re_prepared :: "uuid7 \<Rightarrow> 'p decision_db \<Rightarrow> (decision_error, prepared) result"
  re_admin :: bool
  re_config :: "(decision_error, budget option) result"

definition allocate :: "'p reserve_env \<Rightarrow> task_lease \<Rightarrow> reservation_input \<Rightarrow> 'p decision_db
    \<Rightarrow> (decision_error, allocation \<times> 'p decision_db) result" where
  "allocate env l inp db =
     (if ri_fencing_token inp \<noteq> tl_fencing_token l then Inl (OnLease StaleFence)
      else case find_call (LookupOperation (as_str (tl_lease_id l)) (ri_operation_id inp)) db of
        Some c \<Rightarrow> res_bind (replay_operation l inp c) (\<lambda>a. Inr (a, db))
      | None \<Rightarrow>
        res_bind (re_guard env) (\<lambda>g.
        res_bind (ok_or (TaskRefused DecisionUnavailable) (gd_profile g)) (\<lambda>frozen.
        res_bind (gd_subject g) (\<lambda>subject.
        if block_profile_switch (gd_fleet_id g) (gd_workspace_id g) subject (profile_revision_id frozen) db
        then Inl (TaskRefused DecisionUnavailable)
        else res_bind (ok_or (OnBilling Entropy) (re_call_id env)) (\<lambda>cid.
        res_bind (ok_or (OnBilling Entropy) (re_assessment_id env)) (\<lambda>aid.
        res_bind (re_prepared env cid db) (\<lambda>p.
        res_bind (execution_budget p db) (\<lambda>task.
        res_bind (resolve_attempt (re_now env) p (ri_retry_of inp) (ri_digest inp) (as_str aid) db) (\<lambda>a.
        case find_call (LookupAssessment (pr_key p) (attempt_number a)) db of
          Some c \<Rightarrow> res_bind (replay_matches c inp False) (\<lambda>_.
            if owned_by c l then res_bind (classify_allocation c) (\<lambda>al. Inr (al, db)) else Inr (AllocExisting c, db))
        | None \<Rightarrow>
            if \<not> re_admin env then Inl (TaskRefused DecisionUnavailable)
            else res_bind (check_on (re_month_floor env) (re_now env) (re_config env) (pr_lease p) (pr_assessed p)
                task True db) (\<lambda>_.
              res_bind (save_intent l inp (as_str cid) p a db) (\<lambda>db'.
              res_bind (ok_or (TaskRefused NotFound) (find_call (LookupId (as_str cid)) db'))
                (\<lambda>c. Inr (AllocReserved c, db')))))))))))))"

section \<open>Issuing\<close>

record coverage =
  headroom :: nanos
  required :: nanos

text \<open>\<open>proposed_on\<close>: the lease as a renewal reads it, its floor price, and the credit its calls hold.\<close>

definition proposed_coverage :: "instant \<Rightarrow> catalogue \<Rightarrow> task_lease \<Rightarrow> 'p decision_db \<Rightarrow> (decision_error, coverage) result" where
  "proposed_coverage now loaded l db = (case lease_rows (leasing db) (as_str (tl_lease_id l)) of
       None \<Rightarrow> Inl (TaskRefused StaleState)
     | Some row \<Rightarrow> if l_runner_id row \<noteq> as_str (tl_runner_id l) \<or> l_status row \<noteq> lease_status_active
         then Inl (TaskRefused StaleState)
         else res_bind (ok_or (TaskRefused DecisionUnavailable) (posture_parse (l_posture row))) (\<lambda>pos.
           case estimate_on (loaded (l_provider row) (l_model row)) pos now of
             Inl f \<Rightarrow> Inl (OnBilling f)
           | Inr Unpriceable \<Rightarrow> Inl (TaskRefused DecisionUnavailable)
           | Inr (Priced h) \<Rightarrow> Inr \<lparr>headroom = h, required = required_credit (as_str (tl_lease_id l)) h db\<rparr>))"

definition cover :: "instant \<Rightarrow> catalogue \<Rightarrow> (ask \<Rightarrow> (billing_error, funds) result) \<Rightarrow> task_lease \<Rightarrow> decision_call
    \<Rightarrow> 'p decision_db \<Rightarrow> (decision_error, coverage) result" where
  "cover now loaded chk l c db =
     res_bind (proposed_coverage now loaded l db) (\<lambda>proposed.
     res_bind (call_id (dc_tenant_id c)) (\<lambda>ten.
     res_bind (call_id (dc_workspace_id c)) (\<lambda>wsp.
       case chk \<lparr>ask_work = FleetLease (tl_lease_id l), ask_payer = \<lparr>tenant = ten, workspace = wsp\<rparr>,
            ask_next = required proposed\<rparr> of
         Inl f \<Rightarrow> Inl (OnBilling f)
       | Inr Covered \<Rightarrow> Inr proposed
       | Inr _ \<Rightarrow> Inl (TaskRefused DecisionUnavailable))))"

text \<open>\<open>issue.sql\<close>: every authority the grant rests on, checked again at the grant's own instant.\<close>

definition issue_authority :: "instant \<Rightarrow> decision_call \<Rightarrow> 'p decision_db \<Rightarrow> bool" where
  "issue_authority now c db \<longleftrightarrow>
     (case lease_rows (leasing db) (dc_lease_id c) of None \<Rightarrow> False
      | Some row \<Rightarrow> l_runner_id row = dc_runner_id c \<and> l_status row = lease_status_active
          \<and> l_fleet_id row = dc_fleet_id c \<and> l_fencing_token row = dc_fencing_token c \<and> now < l_expires_at row
          \<and> (case d_runners db (l_runner_id row) of None \<Rightarrow> False | Some r \<Rightarrow> runner_status r = runner_status_active)
          \<and> (case lease_slots (leasing db) (l_fleet_id row) of None \<Rightarrow> False
             | Some s \<Rightarrow> fencing_token s = dc_fencing_token c \<and> last_runner_id s = Some (l_runner_id row)
                 \<and> now < slot_expires_at s)
          \<and> (case d_fleets db (l_fleet_id row) of None \<Rightarrow> False
             | Some f \<Rightarrow> f_workspace_id f = l_workspace_id row \<and> f_status f = ''active''))
     \<and> (profile_model_id (dc_profile c), profile_revision_id (dc_profile c)) \<in> set (enabled_profiles db)
     \<and> (case dc_task_id c of None \<Rightarrow> True
        | Some i \<Rightarrow> (case tasks (leasing db) i of None \<Rightarrow> False
            | Some t \<Rightarrow> t_fleet_id t = dc_fleet_id c \<and> t_workspace_id t = dc_workspace_id c
                \<and> dc_task_generation c = Some (t_generation t) \<and> t_status t = task_running
                \<and> now < t_expires_at t))"

definition issue_sql :: "instant \<Rightarrow> string \<Rightarrow> 'p decision_db \<Rightarrow> bool \<times> 'p decision_db" where
  "issue_sql now i db = (case find_call (LookupId i) db of None \<Rightarrow> (False, db)
     | Some c \<Rightarrow> if dc_status c = call_state_as_str CallReserved \<and> dc_issued_at c = None \<and> dc_accounted_at c = None
           \<and> now < dc_logical_expires_at c \<and> issue_authority now c db
         then (True, update_call i (\<lambda>c. c\<lparr>dc_status := call_state_as_str CallIssued, dc_issued_at := Some now\<rparr>) db)
         else (False, db))"

datatype emission = Dispatch decision_call | EmitExisting decision_call

text \<open>\<open>Issuance::on\<close>; \<open>verified\<close> is what the fresh authority read answered.\<close>

definition issue_call :: "instant \<Rightarrow> instant \<Rightarrow> (decision_error, budget option) result
    \<Rightarrow> ('p decision_db \<Rightarrow> (decision_error, native_lease \<times> assessed \<times> task_budget option) result)
    \<Rightarrow> coverage \<Rightarrow> task_lease \<Rightarrow> string \<Rightarrow> 'p decision_db \<Rightarrow> (decision_error, emission \<times> 'p decision_db) result" where
  "issue_call month_floor now config verified cov l i db =
     res_bind (verified db) (\<lambda>(nl, x, task).
     res_bind (check_on month_floor now config nl x task False db) (\<lambda>_.
     res_bind (ok_or (TaskRefused NotFound) (find_call (LookupId i) db)) (\<lambda>locked.
     res_bind (state_of_call locked) (\<lambda>st.
     if st \<noteq> CallReserved \<or> call_issued locked \<or> call_accounted locked then Inr (EmitExisting locked, db)
     else if required cov < required_credit (as_str (tl_lease_id l)) (headroom cov) db
     then Inl (TaskRefused DecisionUnavailable)
     else if payload_results db (dc_id locked) = None then Inl (TaskRefused DecisionUnavailable)
     else let (issued, db') = issue_sql now (dc_id locked) db in
       if issued then Inr (Dispatch locked, db') else Inl (TaskRefused StaleState)))))"

section \<open>Refunding what was never issued\<close>

definition preflight_receipt :: "'p decision_receipt" where "preflight_receipt = NotSentReceipt Preflight"

text \<open>\<open>expire_on\<close>, once its locks were granted.\<close>

definition expire_call :: "instant \<Rightarrow> minting \<Rightarrow> string \<Rightarrow> string \<Rightarrow> 'p decision_db
    \<Rightarrow> (decision_error, written option \<times> 'p decision_db) result" where
  "expire_call now mint i digest db = (case find_call (LookupId i) db of None \<Rightarrow> Inr (None, db)
     | Some c \<Rightarrow> if call_issued c \<or> call_accounted c \<or> remaining_ms now c \<noteq> 0 then Inr (None, db)
         else res_bind (write_receipt now mint c preflight_receipt digest PlanNotSent db)
           (\<lambda>(w, db'). Inr (Some w, db')))"

text \<open>\<open>expired_unissued.sql\<close>: the candidates past a position, up to the cycle's cutoff.\<close>

definition recovery_batch :: nat where "recovery_batch = 100"

definition call_position :: "decision_call \<Rightarrow> instant \<times> string" where
  "call_position c = (dc_logical_expires_at c, dc_id c)"

definition expired_calls :: "instant \<Rightarrow> 'p decision_db \<Rightarrow> decision_call list" where
  "expired_calls cutoff db = filter (\<lambda>c. dc_issued_at c = None \<and> dc_accounted_at c = None
     \<and> dc_logical_expires_at c \<le> cutoff) (calls db)"

definition expired_unissued :: "instant \<Rightarrow> nat \<Rightarrow> (instant \<times> string) option \<Rightarrow> 'p decision_db \<Rightarrow> decision_call list" where
  "expired_unissued cutoff limit after db = take limit (sort_key call_position
     (filter (\<lambda>c. case after of None \<Rightarrow> True | Some p \<Rightarrow> p < call_position c) (expired_calls cutoff db)))"

end
