(* ===== verification/Texts.thy ===== *)
theory Texts
  imports Prelude
begin

text \<open>
  The standard library's operations on text the components share, on its UTF-8 bytes: ASCII case,
  prefixes, \<open>contains\<close>, \<open>split\<close>, UTF-8 well-formedness, and \<open>str::parse\<close> of a signed 64-bit integer.
\<close>

section \<open>Case, prefixes and splitting\<close>

definition ascii_lower :: "char \<Rightarrow> char" where
  "ascii_lower c = (if CHR ''A'' \<le> c \<and> c \<le> CHR ''Z'' then char_of (of_char c + 32 :: nat) else c)"

definition ascii_upper :: "char \<Rightarrow> char" where
  "ascii_upper c = (if CHR ''a'' \<le> c \<and> c \<le> CHR ''z'' then char_of (of_char c - 32 :: nat) else c)"

definition to_ascii_lowercase :: "string \<Rightarrow> string" where "to_ascii_lowercase = map ascii_lower"
definition to_ascii_uppercase :: "string \<Rightarrow> string" where "to_ascii_uppercase = map ascii_upper"

definition eq_ignore_ascii_case :: "string \<Rightarrow> string \<Rightarrow> bool" where
  "eq_ignore_ascii_case a b \<longleftrightarrow> to_ascii_lowercase a = to_ascii_lowercase b"

definition strip_prefix :: "string \<Rightarrow> string \<Rightarrow> string option" where
  "strip_prefix p t = (if take (length p) t = p then Some (drop (length p) t) else None)"

lemma strip_prefix_Some: "strip_prefix p t = Some r \<longleftrightarrow> t = p @ r"
  by (auto simp: strip_prefix_def) (metis append_take_drop_id)

lemma strip_prefix_append [simp]: "strip_prefix p (p @ r) = Some r"
  by (simp add: strip_prefix_Some)

text \<open>\<open>str::contains\<close> and \<open>str::split\<close>.\<close>

fun contains_text :: "string \<Rightarrow> string \<Rightarrow> bool" where
  "contains_text p [] \<longleftrightarrow> p = []"
| "contains_text p (c # cs) \<longleftrightarrow> take (length p) (c # cs) = p \<or> contains_text p cs"

fun split_on :: "'a \<Rightarrow> 'a list \<Rightarrow> 'a list list" where
  "split_on c [] = [[]]"
| "split_on c (x # xs) = (if x = c then [] # split_on c xs
     else (case split_on c xs of [] \<Rightarrow> [[x]] | s # ss \<Rightarrow> (x # s) # ss))"

lemma split_on_nonempty [simp]: "split_on c t \<noteq> []"
  by (induction t) (auto split: list.splits)

lemma split_on_join: "c \<notin> set t \<Longrightarrow> split_on c t = [t]"
  by (induction t) auto

text \<open>No piece holds the separator, and the pieces put together again are the text.\<close>

lemma split_on_sep: "p \<in> set (split_on c t) \<Longrightarrow> c \<notin> set p"
  by (induction t arbitrary: p) (auto split: if_splits list.splits)

lemma in_map_filter [simp]: "y \<in> set (List.map_filter f xs) \<longleftrightarrow> (\<exists>x \<in> set xs. f x = Some y)"
  by (induction xs) (auto simp: List.map_filter_simps split: option.splits)

section \<open>UTF-8\<close>

text \<open>\<open>str::from_utf8\<close>: whether bytes are text, by the table of well-formed byte sequences.\<close>

definition byte_in :: "nat \<Rightarrow> nat \<Rightarrow> char \<Rightarrow> bool" where
  "byte_in lo hi c \<longleftrightarrow> lo \<le> of_char c \<and> of_char c \<le> (hi :: nat)"

definition is_continuation :: "char \<Rightarrow> bool" where "is_continuation = byte_in 0x80 0xBF"

fun valid_utf8 :: "string \<Rightarrow> bool" where
  "valid_utf8 [] \<longleftrightarrow> True"
| "valid_utf8 (a # t) \<longleftrightarrow>
     (if byte_in 0 0x7F a then valid_utf8 t
      else if byte_in 0xC2 0xDF a then (case t of b # r \<Rightarrow> is_continuation b \<and> valid_utf8 r | _ \<Rightarrow> False)
      else if byte_in 0xE0 0xEF a then (case t of b # c # r \<Rightarrow>
          (if byte_in 0xE0 0xE0 a then byte_in 0xA0 0xBF b
           else if byte_in 0xED 0xED a then byte_in 0x80 0x9F b else is_continuation b)
          \<and> is_continuation c \<and> valid_utf8 r | _ \<Rightarrow> False)
      else if byte_in 0xF0 0xF4 a then (case t of b # c # d # r \<Rightarrow>
          (if byte_in 0xF0 0xF0 a then byte_in 0x90 0xBF b
           else if byte_in 0xF4 0xF4 a then byte_in 0x80 0x8F b else is_continuation b)
          \<and> is_continuation c \<and> is_continuation d \<and> valid_utf8 r | _ \<Rightarrow> False)
      else False)"

text \<open>\<open>str::chars().count()\<close> of text: its bytes that start a character.\<close>

definition char_count :: "string \<Rightarrow> nat" where
  "char_count t = length (filter (\<lambda>c. \<not> is_continuation c) t)"

text \<open>\<open>contains(char::is_whitespace)\<close>: one of Unicode's white-space characters, by its bytes.\<close>

definition whitespace_bytes :: "string list" where
  "whitespace_bytes = map (map (char_of :: nat \<Rightarrow> char))
     ([[0x09], [0x0A], [0x0B], [0x0C], [0x0D], [0x20], [0xC2, 0x85], [0xC2, 0xA0], [0xE1, 0x9A, 0x80],
       [0xE2, 0x80, 0xA8], [0xE2, 0x80, 0xA9], [0xE2, 0x80, 0xAF], [0xE2, 0x81, 0x9F], [0xE3, 0x80, 0x80]]
      @ map (\<lambda>n. [0xE2, 0x80, n]) [0x80..<0x8B])"

definition contains_whitespace :: "string \<Rightarrow> bool" where
  "contains_whitespace t \<longleftrightarrow> list_ex (\<lambda>w. contains_text w t) whitespace_bytes"

section \<open>Signed integers\<close>

text \<open>\<open>str::parse::<i64>\<close>: an optional sign, digits only, within the range.\<close>

definition unsigned_digits :: "string \<Rightarrow> nat option" where
  "unsigned_digits t = (if t \<noteq> [] \<and> list_all is_ascii_digit t then Some (dec_value t) else None)"

definition parse_i64 :: "string \<Rightarrow> int option" where
  "parse_i64 t = Option.bind (case t of [] \<Rightarrow> None
     | c # cs \<Rightarrow> if c = CHR ''-'' then map_option (\<lambda>n. - int n) (unsigned_digits cs)
         else if c = CHR ''+'' then map_option int (unsigned_digits cs)
         else map_option int (unsigned_digits (c # cs))) try_i64"

lemma parse_i64_range: "parse_i64 t = Some n \<Longrightarrow> in_i64 n"
  by (auto simp: parse_i64_def bind_eq_Some_conv)

lemma parse_i64_chars:
  assumes "parse_i64 t = Some n"
  shows "t \<noteq> [] \<and> (\<forall>c \<in> set t. is_ascii_digit c \<or> c = CHR ''-'' \<or> c = CHR ''+'')"
  using assms
  by (cases t) (auto simp: parse_i64_def bind_eq_Some_conv unsigned_digits_def list_all_iff split: if_splits)

lemma dec_string_head: "c \<in> set (dec_string n) \<Longrightarrow> is_ascii_digit c"
  using dec_string_digits [of n] by (auto simp: list_all_iff)

text \<open>What \<open>to_string\<close> writes of a non-negative integer reads back.\<close>

lemma parse_i64_dec_string: "in_i64 (int n) \<Longrightarrow> parse_i64 (dec_string n) = Some (int n)"
proof -
  assume range: "in_i64 (int n)"
  obtain c cs where s: "dec_string n = c # cs" using dec_string_digits [of n] by (cases "dec_string n") auto
  have "is_ascii_digit c" using dec_string_head [of c n] s by simp
  then have "c \<noteq> CHR ''-''" "c \<noteq> CHR ''+''" by (auto simp: is_ascii_digit_def less_eq_char_def)
  moreover have "unsigned_digits (c # cs) = Some n"
    using dec_string_digits [of n] dec_value_string [of n] unfolding s unsigned_digits_def by simp
  ultimately show ?thesis using range by (simp add: parse_i64_def s)
qed

end
