(* ===== verification/Repositories.thy ===== *)
theory Repositories
  imports Decisions GatePolicy Texts
begin

text \<open>
  What a task may publish and where: a fleet's repository binding (\<open>afd_fleet_runtime/src/config/repository.rs\<close>),
  the pull request a task is bound to and the checks of its state (\<open>afd_fleet/src/task/github/\<close>), the change a
  runner asks to publish (\<open>afd_wire/src/task/effect.rs\<close>), the reproduction of its tree, and the reading of the
  provider's answers.  What the provider answers to a request is an argument, as are base64, SHA-256 and the
  YAML reader; the numbers of an answer are integers.
\<close>

section \<open>Bindings\<close>

datatype access = AccessRead | AccessWrite
datatype publication_mode = EventDraft | ExistingPrOnly
datatype reach = ReachRead | ReachWrite string

record validation_workflow =
  vw_path :: string
  vw_sha256 :: string

record repository_binding =
  rb_repositories :: "string list"
  rb_reach :: reach
  rb_publication :: publication_mode
  rb_workflows :: "validation_workflow list"

fun reach_access :: "reach \<Rightarrow> access" where
  "reach_access ReachRead = AccessRead"
| "reach_access (ReachWrite _) = AccessWrite"

fun reach_base :: "reach \<Rightarrow> string option" where
  "reach_base ReachRead = None"
| "reach_base (ReachWrite base) = Some base"

definition rb_access :: "repository_binding \<Rightarrow> access" where "rb_access b = reach_access (rb_reach b)"

definition rb_read_only :: "repository_binding \<Rightarrow> repository_binding" where
  "rb_read_only b = b\<lparr>rb_reach := ReachRead, rb_workflows := []\<rparr>"

definition rb_read_repository :: "repository_binding \<Rightarrow> string \<Rightarrow> repository_binding option" where
  "rb_read_repository b repository = map_option (\<lambda>held. b\<lparr>rb_repositories := [held], rb_reach := ReachRead, rb_workflows := []\<rparr>)
     (List.find (\<lambda>held. eq_ignore_ascii_case held repository) (rb_repositories b))"

text \<open>The binding's part of an authored runtime block.\<close>

record raw_binding =
  raw_repositories :: "string list option"
  raw_access :: "access option"
  raw_base :: "string option"
  raw_publication :: "publication_mode option"
  raw_workflows :: "validation_workflow list option"

datatype binding_refusal = PublicationWithoutWrite | WorkflowsNotReviewed | HalfDeclared | ReadWithBase | WriteWithoutBase

fun reach_of :: "access \<Rightarrow> string option \<Rightarrow> (binding_refusal, reach) result" where
  "reach_of AccessRead None = Inr ReachRead"
| "reach_of AccessRead (Some _) = Inl ReadWithBase"
| "reach_of AccessWrite None = Inl WriteWithoutBase"
| "reach_of AccessWrite (Some base) = Inr (ReachWrite base)"

definition rb_parse :: "raw_binding \<Rightarrow> (binding_refusal, repository_binding option) result" where
  "rb_parse raw =
     (let publication = (case raw_publication raw of None \<Rightarrow> EventDraft | Some p \<Rightarrow> p);
          workflows = (case raw_workflows raw of None \<Rightarrow> [] | Some w \<Rightarrow> w) in
      if publication = ExistingPrOnly \<and> raw_access raw \<noteq> Some AccessWrite then Inl PublicationWithoutWrite
      else if (publication = ExistingPrOnly) = (workflows = []) \<or> \<not> distinct (map vw_path workflows)
      then Inl WorkflowsNotReviewed
      else case (raw_repositories raw, raw_access raw, raw_base raw) of
        (None, None, None) \<Rightarrow> Inr None
      | (Some listed, Some access, base) \<Rightarrow> res_bind (reach_of access base) (\<lambda>r.
          Inr (Some \<lparr>rb_repositories = listed, rb_reach = r, rb_publication = publication, rb_workflows = workflows\<rparr>))
      | _ \<Rightarrow> Inl HalfDeclared)"

text \<open>A binding as a gate row records it.\<close>

record recorded_binding =
  rec_repositories :: "string list"
  rec_access :: access
  rec_base :: "string option"
  rec_publication :: "publication_mode option"
  rec_workflows :: "validation_workflow list"

definition rb_recorded :: "repository_binding \<Rightarrow> recorded_binding" where
  "rb_recorded b = \<lparr>rec_repositories = rb_repositories b, rec_access = rb_access b, rec_base = reach_base (rb_reach b),
     rec_publication = (if rb_publication b = ExistingPrOnly then Some (rb_publication b) else None),
     rec_workflows = rb_workflows b\<rparr>"

section \<open>Targets\<close>

record workflow =
  wf_id :: u64
  wf_path :: string
  wf_digest :: string

record bound_pr =
  pr_repository :: string
  pr_repository_id :: u64
  pr_installation_id :: u64
  pr_number :: u32
  pr_branch :: string
  pr_base :: string
  pr_head :: string
  pr_tree :: string
  pr_url :: string
  pr_workflows :: "workflow list"

text \<open>What a request to the provider fails with, and what a refusal of the daemon's own is.\<close>

datatype publish_error = OnTask decision_error | OnRemote | Rejected string

definition invalid_target :: "(publish_error, 'a) result" where "invalid_target = Inl (OnTask (TaskRefused InvalidTarget))"
definition stale_state :: "(publish_error, 'a) result" where "stale_state = Inl (OnTask (TaskRefused StaleState))"
definition effect_uncertain :: "(publish_error, 'a) result" where "effect_uncertain = Inl (OnTask (TaskRefused EffectUncertain))"

definition pr_within :: "bound_pr \<Rightarrow> repository_binding option \<Rightarrow> (publish_error, unit) result" where
  "pr_within p binding = (case binding of None \<Rightarrow> invalid_target
     | Some b \<Rightarrow>
         if rb_publication b \<noteq> ExistingPrOnly \<or> rb_access b \<noteq> AccessWrite \<or> reach_base (rb_reach b) \<noteq> Some (pr_base p)
            \<or> \<not> list_ex (\<lambda>r. eq_ignore_ascii_case r (pr_repository p)) (rb_repositories b)
            \<or> length (rb_workflows b) \<noteq> length (pr_workflows p)
            \<or> \<not> list_all (\<lambda>w. list_ex (\<lambda>a. vw_path a = wf_path w \<and> vw_sha256 a = wf_digest w) (rb_workflows b)) (pr_workflows p)
         then invalid_target else Inr ())"

text \<open>The pull request and the branch as the provider reads them.\<close>

record gh_repository =
  gr_id :: u64
  gr_full_name :: string
  gr_default_branch :: string

record gh_endpoint =
  ge_ref :: string
  ge_sha :: string
  ge_repo :: gh_repository

record pull_request =
  pl_number :: u32
  pl_state :: string
  pl_merged :: bool
  pl_head :: gh_endpoint
  pl_base :: gh_endpoint

record gh_branch =
  gb_protected :: bool
  gb_sha :: string

definition pr_check :: "pull_request \<Rightarrow> string \<Rightarrow> string \<Rightarrow> (publish_error, unit) result" where
  "pr_check pr repository base =
     (if pl_number pr = 0 \<or> pl_state pr \<noteq> ''open'' \<or> pl_merged pr \<or> gr_id (ge_repo (pl_head pr)) \<noteq> gr_id (ge_repo (pl_base pr))
         \<or> \<not> eq_ignore_ascii_case (gr_full_name (ge_repo (pl_base pr))) repository \<or> ge_ref (pl_base pr) \<noteq> base
         \<or> ge_ref (pl_head pr) = ge_ref (pl_base pr) \<or> ge_ref (pl_head pr) = gr_default_branch (ge_repo (pl_base pr))
      then invalid_target else Inr ())"

section \<open>The change a runner asks to publish\<close>

record file_change =
  fc_path :: string
  fc_contents :: "string option"

record effect_input =
  ei_operation_id :: string
  ei_fencing_token :: u64
  ei_task_id :: string
  ei_generation :: u64
  ei_source_item_id :: string
  ei_covered_input :: u64
  ei_expected_head :: string
  ei_tested_tree :: string
  ei_changes :: "file_change list"

text \<open>\<open>char::is_control\<close> on UTF-8 bytes: the C0 and C1 ranges and DEL.\<close>

fun has_control :: "string \<Rightarrow> bool" where
  "has_control [] \<longleftrightarrow> False"
| "has_control (c # cs) \<longleftrightarrow> byte_in 0 0x1F c \<or> c = CHR 0x7F
     \<or> (c = CHR 0xC2 \<and> (case cs of [] \<Rightarrow> False | d # _ \<Rightarrow> byte_in 0x80 0x9F d)) \<or> has_control cs"

definition file_path :: "string \<Rightarrow> bool" where
  "file_path value \<longleftrightarrow> (let parts = split_on CHR ''/'' value in
     length parts \<le> 32 \<and> CHR 0x5C \<notin> set value \<and> \<not> has_control value
     \<and> list_all (\<lambda>part. part \<notin> {[], ''.'', ''..''} \<and> \<not> eq_ignore_ascii_case part ''.git'') parts
     \<and> \<not> eq_ignore_ascii_case (hd parts) ''.gitmodules''
     \<and> \<not> (eq_ignore_ascii_case (hd parts) ''.github'' \<and>
          (case tl parts of [] \<Rightarrow> False | part # _ \<Rightarrow> eq_ignore_ascii_case part ''workflows'')))"

definition hex_digit :: "char \<Rightarrow> bool" where
  "hex_digit c \<longleftrightarrow> byte_in 0x30 0x39 c \<or> byte_in 0x61 0x66 c \<or> byte_in 0x41 0x46 c"

definition uuid7_pattern :: "string \<Rightarrow> bool" where
  "uuid7_pattern t \<longleftrightarrow> (case split_on CHR ''-'' t of
     [a, b, c, d, e] \<Rightarrow> list_all (list_all hex_digit) [a, b, c, d, e] \<and> map length [a, b, c, d, e] = [8, 4, 4, 4, 12]
       \<and> hd c = CHR ''7'' \<and> hd d \<in> set ''89aAbB''
   | _ \<Rightarrow> False)"

definition object_name :: "string \<Rightarrow> bool" where
  "object_name t \<longleftrightarrow> length t = 40 \<and> list_all (\<lambda>c. byte_in 0x30 0x39 c \<or> byte_in 0x61 0x66 c) t"

definition file_change_valid :: "file_change \<Rightarrow> bool" where
  "file_change_valid f \<longleftrightarrow> 1 \<le> length (fc_path f) \<and> length (fc_path f) \<le> 1024 \<and> file_path (fc_path f)
     \<and> (case fc_contents f of None \<Rightarrow> True | Some c \<Rightarrow> length c \<le> 1398104)"

definition effect_input_valid :: "effect_input \<Rightarrow> bool" where
  "effect_input_valid i \<longleftrightarrow> uuid7_pattern (ei_operation_id i) \<and> uuid7_pattern (ei_task_id i) \<and> 1 \<le> ei_generation i
     \<and> uuid7_pattern (ei_source_item_id i) \<and> object_name (ei_expected_head i) \<and> object_name (ei_tested_tree i)
     \<and> 1 \<le> length (ei_changes i) \<and> length (ei_changes i) \<le> 32 \<and> list_all file_change_valid (ei_changes i)"

section \<open>What the provider answers\<close>

record tree_entry =
  te_path :: string
  te_mode :: string
  te_sha :: string

record git_tree =
  gt_entries :: "tree_entry list"
  gt_truncated :: bool

record gh_commit =
  gc_sha :: string
  gc_tree :: string

record gh_file =
  gf_path :: string
  gf_sha :: string
  gf_kind :: string

record gh_blob =
  gl_content :: string
  gl_encoding :: string

record listed_workflow =
  lw_id :: u64
  lw_path :: string
  lw_state :: string

record gh_mutation =
  gm_repository :: string
  gm_branch :: string
  gm_expected_head :: string
  gm_client_id :: string
  gm_body :: string
  gm_additions :: "(string \<times> string) list"
  gm_deletions :: "string list"

type_synonym 'a answer = "(publish_error, 'a) result"

text \<open>One session: its installation, what each request is answered with, and the readers of what comes back.\<close>

record session =
  ss_installation :: u64
  ss_token :: string
  ss_expires_at :: instant
  ss_read_only :: bool
  ss_pull :: "string \<Rightarrow> string \<Rightarrow> u32 \<Rightarrow> pull_request answer"
  ss_branch :: "string \<Rightarrow> string \<Rightarrow> string \<Rightarrow> gh_branch answer"
  ss_commit :: "string \<Rightarrow> string \<Rightarrow> string \<Rightarrow> gh_commit answer"
  ss_tree :: "string \<Rightarrow> string \<Rightarrow> string \<Rightarrow> git_tree answer"
  ss_contents :: "string \<Rightarrow> string \<Rightarrow> string \<Rightarrow> gh_file list answer"
  ss_blob :: "string \<Rightarrow> string \<Rightarrow> string \<Rightarrow> gh_blob answer"
  ss_workflows :: "string \<Rightarrow> string \<Rightarrow> (u64 \<times> listed_workflow list) answer"
  ss_new_blob :: "string \<Rightarrow> string \<Rightarrow> string \<Rightarrow> string answer"
  ss_new_tree :: "string \<Rightarrow> string \<Rightarrow> string \<Rightarrow> (string \<times> string option) list \<Rightarrow> string answer"
  ss_mutate :: "gh_mutation \<Rightarrow> string json answer"
  ss_history :: "string \<Rightarrow> string \<Rightarrow> string \<Rightarrow> string json answer"
  ss_base64 :: "string \<Rightarrow> string option"
  ss_sha256 :: "string \<Rightarrow> string"
  ss_yaml :: "string \<Rightarrow> string json option"

fun check_each :: "('a \<Rightarrow> unit answer) \<Rightarrow> 'a list \<Rightarrow> unit answer" where
  "check_each f [] = Inr ()"
| "check_each f (x # xs) = res_bind (f x) (\<lambda>_. check_each f xs)"

definition owner_name :: "string \<Rightarrow> (string \<times> string) answer" where
  "owner_name repository = (case split_once CHR ''/'' repository of None \<Rightarrow> invalid_target | Some p \<Rightarrow> Inr p)"

definition json_get :: "string \<Rightarrow> string json \<Rightarrow> string json option" where
  "json_get k v = Option.bind (as_object v) (\<lambda>fs. map_of fs k)"

fun json_pointer :: "string list \<Rightarrow> string json \<Rightarrow> string json option" where
  "json_pointer [] v = Some v"
| "json_pointer (k # ks) v = Option.bind (json_get k v) (json_pointer ks)"

definition json_text :: "string list \<Rightarrow> string json \<Rightarrow> string option" where
  "json_text ks v = Option.bind (json_pointer ks v) as_string"

fun as_array :: "'s json \<Rightarrow> 's json list option" where
  "as_array (JArray vs) = Some vs"
| "as_array _ = None"

fun as_json_u64 :: "'s json \<Rightarrow> int option" where
  "as_json_u64 (JNumber n) = (if 0 \<le> n \<and> n < 2 ^ 64 then Some n else None)"
| "as_json_u64 _ = None"

section \<open>Reviewed workflows\<close>

fun split_by :: "('a \<Rightarrow> bool) \<Rightarrow> 'a list \<Rightarrow> 'a list list" where
  "split_by p [] = [[]]"
| "split_by p (x # xs) = (if p x then [] # split_by p xs
     else (case split_by p xs of [] \<Rightarrow> [[x]] | s # ss \<Rightarrow> (x # s) # ss))"

definition identifier_char :: "char \<Rightarrow> bool" where
  "identifier_char c \<longleftrightarrow> byte_in 0x30 0x39 c \<or> byte_in 0x61 0x7A c \<or> byte_in 0x41 0x5A c \<or> c = CHR ''_''"

fun has_secrets :: "string json \<Rightarrow> bool" where
  "has_secrets (JString text) \<longleftrightarrow> list_ex (\<lambda>i. eq_ignore_ascii_case i ''secrets'') (split_by (\<lambda>c. \<not> identifier_char c) text)"
| "has_secrets (JArray vs) \<longleftrightarrow> list_ex has_secrets vs"
| "has_secrets (JObject fs) \<longleftrightarrow> list_ex (\<lambda>f. eq_ignore_ascii_case (fst f) ''secrets'' \<or> has_secrets (snd f)) fs"
| "has_secrets _ \<longleftrightarrow> False"

definition read_permissions :: "string json option \<Rightarrow> bool" where
  "read_permissions v = (case v of None \<Rightarrow> False
     | Some p \<Rightarrow> as_string p = Some ''read-all''
         \<or> (case as_object p of None \<Rightarrow> False
            | Some m \<Rightarrow> list_all (\<lambda>f. as_string (snd f) \<in> {Some ''read'', Some ''none''}) m))"

definition hosted_runners :: "string list" where
  "hosted_runners = [''ubuntu-latest'', ''ubuntu-24.04'', ''ubuntu-22.04'', ''macos-latest'', ''windows-latest'']"

definition safe_job :: "string json \<Rightarrow> bool" where
  "safe_job job \<longleftrightarrow> json_get ''environment'' job = None \<and> json_get ''secrets'' job = None \<and> json_get ''uses'' job = None
     \<and> (case Option.bind (json_get ''runs-on'' job) as_string of None \<Rightarrow> False | Some host \<Rightarrow> host \<in> set hosted_runners)
     \<and> (json_get ''permissions'' job = None \<or> read_permissions (json_get ''permissions'' job))"

definition safe_document :: "string json \<Rightarrow> bool" where
  "safe_document d = (case Option.bind (json_get ''jobs'' d) as_object of None \<Rightarrow> False
     | Some jobs \<Rightarrow> read_permissions (json_get ''permissions'' d) \<and> jobs \<noteq> [] \<and> length jobs \<le> 32 \<and> \<not> has_secrets d
         \<and> json_get ''on'' d \<noteq> None \<and> list_all (\<lambda>j. safe_job (snd j)) jobs)"

definition safe :: "session \<Rightarrow> string \<Rightarrow> unit answer" where
  "safe ss text = (case ss_yaml ss text of None \<Rightarrow> invalid_target
     | Some d \<Rightarrow> if safe_document d then Inr () else invalid_target)"

definition verify_file :: "session \<Rightarrow> string \<Rightarrow> string \<Rightarrow> workflow list \<Rightarrow> gh_file \<Rightarrow> unit answer" where
  "verify_file ss owner name workflows f =
     (case List.find (\<lambda>w. wf_path w = gf_path f) workflows of None \<Rightarrow> invalid_target
      | Some kept \<Rightarrow> if gf_kind f \<noteq> ''file'' then invalid_target
          else res_bind (ss_blob ss owner name (gf_sha f)) (\<lambda>blob.
            if gl_encoding blob \<noteq> ''base64'' then invalid_target
            else case ss_base64 ss (filter (\<lambda>c. c \<noteq> CHR 0x0A) (gl_content blob)) of None \<Rightarrow> invalid_target
              | Some bytes \<Rightarrow> if 1024 * 1024 < length bytes \<or> ss_sha256 ss bytes \<noteq> wf_digest kept then invalid_target
                  else if \<not> valid_utf8 bytes then invalid_target else safe ss bytes))"

definition verify_workflows :: "session \<Rightarrow> string \<Rightarrow> string \<Rightarrow> string \<Rightarrow> workflow list \<Rightarrow> unit answer" where
  "verify_workflows ss owner name head workflows =
     res_bind (ss_contents ss owner name head) (\<lambda>files.
       if workflows = [] \<or> 16 < length workflows \<or> length files \<noteq> length workflows then invalid_target
       else check_each (verify_file ss owner name workflows) files)"

definition verify_default :: "session \<Rightarrow> string \<Rightarrow> string \<Rightarrow> string \<Rightarrow> workflow list \<Rightarrow> unit answer" where
  "verify_default ss owner name branch workflows =
     res_bind (ss_branch ss owner name branch) (\<lambda>b. verify_workflows ss owner name (gb_sha b) workflows)"

definition review_one :: "listed_workflow list \<Rightarrow> validation_workflow \<Rightarrow> workflow answer" where
  "review_one listed kept =
     (case List.find (\<lambda>w. lw_path w = vw_path kept \<and> lw_state w = ''active'') listed of None \<Rightarrow> invalid_target
      | Some w \<Rightarrow> Inr \<lparr>wf_id = lw_id w, wf_path = vw_path kept, wf_digest = vw_sha256 kept\<rparr>)"

definition review :: "session \<Rightarrow> string \<Rightarrow> string \<Rightarrow> string \<Rightarrow> string \<Rightarrow> validation_workflow list \<Rightarrow> workflow list answer" where
  "review ss owner name head default_branch reviewed =
     res_bind (ss_workflows ss owner name) (\<lambda>(total, listed).
       if uint total \<noteq> int (length reviewed) \<or> length listed \<noteq> length reviewed then invalid_target
       else res_bind (traverse (review_one listed) reviewed) (\<lambda>workflows.
         res_bind (verify_workflows ss owner name head workflows) (\<lambda>_.
         res_bind (verify_default ss owner name default_branch workflows) (\<lambda>_. Inr workflows))))"

section \<open>Binding a pull request\<close>

text \<open>\<open>str::split_whitespace\<close>, on the UTF-8 bytes of the whitespace characters.\<close>

definition whitespace_at :: "string \<Rightarrow> nat" where
  "whitespace_at t = (case List.find (\<lambda>w. take (length w) t = w) whitespace_bytes of None \<Rightarrow> 0 | Some w \<Rightarrow> length w)"

function words_of :: "string \<Rightarrow> string \<Rightarrow> string list" where
  "words_of word [] = (if word = [] then [] else [word])"
| "words_of word (c # cs) = (let n = whitespace_at (c # cs) in
     if n = 0 then words_of (word @ [c]) cs
     else (if word = [] then [] else [word]) @ words_of [] (drop n (c # cs)))"
  by pat_completeness auto
termination by (relation "measure (length \<circ> snd)") auto

definition trim_matches :: "(char \<Rightarrow> bool) \<Rightarrow> string \<Rightarrow> string" where
  "trim_matches p t = rev (dropWhile p (rev (dropWhile p t)))"

definition pull_url :: "string \<Rightarrow> u32 \<Rightarrow> string" where
  "pull_url repository number = ''https://github.com/'' @ repository @ ''/pull/'' @ dec_string (unat number)"

definition names_url :: "string \<Rightarrow> string \<Rightarrow> bool" where
  "names_url message url \<longleftrightarrow> list_ex (\<lambda>word. trim_matches (\<lambda>c. c \<in> set ''()<>,.'') word = url) (words_of [] message)"

definition prepare_pr :: "(string \<Rightarrow> session answer) \<Rightarrow> repository_binding option \<Rightarrow> string \<Rightarrow> u32 \<Rightarrow> string \<Rightarrow> bound_pr answer" where
  "prepare_pr read_session binding repository number message =
     (case binding of None \<Rightarrow> invalid_target
      | Some b \<Rightarrow>
        if rb_publication b \<noteq> ExistingPrOnly \<or> rb_access b \<noteq> AccessWrite
           \<or> \<not> list_ex (\<lambda>r. eq_ignore_ascii_case r repository) (rb_repositories b) then invalid_target
        else if \<not> names_url message (pull_url repository number) then invalid_target
        else res_bind (read_session repository) (\<lambda>ss.
          res_bind (owner_name repository) (\<lambda>(owner, name).
          res_bind (ss_pull ss owner name number) (\<lambda>pr.
          case reach_base (rb_reach b) of None \<Rightarrow> invalid_target
          | Some base \<Rightarrow> res_bind (pr_check pr repository base) (\<lambda>_.
            res_bind (ss_branch ss owner name (ge_ref (pl_head pr))) (\<lambda>branch.
            if gb_protected branch \<or> gb_sha branch \<noteq> ge_sha (pl_head pr) then invalid_target
            else res_bind (ss_commit ss owner name (ge_sha (pl_head pr))) (\<lambda>commit.
              if gc_sha commit \<noteq> ge_sha (pl_head pr) then invalid_target
              else res_bind (review ss owner name (ge_sha (pl_head pr)) (gr_default_branch (ge_repo (pl_base pr))) (rb_workflows b))
                (\<lambda>workflows. Inr \<lparr>pr_repository = gr_full_name (ge_repo (pl_base pr)), pr_repository_id = gr_id (ge_repo (pl_base pr)),
                  pr_installation_id = ss_installation ss, pr_number = number, pr_branch = ge_ref (pl_head pr),
                  pr_base = ge_ref (pl_base pr), pr_head = ge_sha (pl_head pr), pr_tree = gc_tree commit,
                  pr_url = pull_url repository number, pr_workflows = workflows\<rparr>))))))))"

definition pr_verify :: "session \<Rightarrow> bound_pr \<Rightarrow> unit answer" where
  "pr_verify ss p =
     res_bind (owner_name (pr_repository p)) (\<lambda>(owner, name).
     res_bind (ss_pull ss owner name (pr_number p)) (\<lambda>pr.
     res_bind (pr_check pr (pr_repository p) (pr_base p)) (\<lambda>_.
     res_bind (ss_branch ss owner name (pr_branch p)) (\<lambda>branch.
     if ge_ref (pl_head pr) \<noteq> pr_branch p \<or> gr_id (ge_repo (pl_base pr)) \<noteq> pr_repository_id p
        \<or> ss_installation ss \<noteq> pr_installation_id p \<or> gb_protected branch \<or> ge_sha (pl_head pr) \<noteq> pr_head p
        \<or> gb_sha branch \<noteq> pr_head p
     then stale_state
     else res_bind (verify_workflows ss owner name (pr_head p) (pr_workflows p)) (\<lambda>_.
       verify_default ss owner name (gr_default_branch (ge_repo (pl_base pr))) (pr_workflows p))))))"

section \<open>Reproducing the tested tree\<close>

text \<open>One path through the trees below \<open>tree\<close>: directories to the last component, which is a regular file.\<close>

fun regular_file :: "(string \<Rightarrow> git_tree answer) \<Rightarrow> bool \<Rightarrow> string \<Rightarrow> string list \<Rightarrow> unit answer" where
  "regular_file trees deleting tree [] = Inr ()"
| "regular_file trees deleting tree (component # components) = res_bind (trees tree) (\<lambda>t.
     if gt_truncated t then invalid_target
     else case List.find (\<lambda>e. te_path e = component) (gt_entries t) of
       None \<Rightarrow> if deleting then invalid_target else Inr ()
     | Some entry \<Rightarrow>
         if te_mode entry \<noteq> (if components = [] then ''100644'' else ''040000'') then invalid_target
         else regular_file trees deleting (te_sha entry) components)"

definition overlaps :: "string \<Rightarrow> string \<Rightarrow> bool" where
  "overlaps previous path \<longleftrightarrow> previous = path \<or> strip_prefix (path @ ''/'') previous \<noteq> None
     \<or> strip_prefix (previous @ ''/'') path \<noteq> None"

definition decoded_max :: nat where "decoded_max = 1024 * 1024"

text \<open>The loop over the changes: those before, the decoded bytes so far, those to come.\<close>

fun reproduce_changes :: "session \<Rightarrow> string \<Rightarrow> string \<Rightarrow> string \<Rightarrow> file_change list \<Rightarrow> nat \<Rightarrow> file_change list
    \<Rightarrow> (string \<times> string option) list answer" where
  "reproduce_changes ss owner name root earlier bytes [] = Inr []"
| "reproduce_changes ss owner name root earlier bytes (f # fs) =
     (if list_ex (\<lambda>e. overlaps (fc_path e) (fc_path f)) earlier then invalid_target
      else res_bind (regular_file (ss_tree ss owner name) (fc_contents f = None) root (split_on CHR ''/'' (fc_path f))) (\<lambda>_.
        case fc_contents f of
          None \<Rightarrow> res_bind (reproduce_changes ss owner name root (earlier @ [f]) bytes fs) (\<lambda>rest. Inr ((fc_path f, None) # rest))
        | Some content \<Rightarrow> (case ss_base64 ss content of None \<Rightarrow> invalid_target
            | Some decoded \<Rightarrow>
                if decoded_max < bytes + length decoded then Inl (OnTask (TaskRefused LimitExhausted))
                else res_bind (ss_new_blob ss owner name content) (\<lambda>sha.
                  res_bind (reproduce_changes ss owner name root (earlier @ [f]) (bytes + length decoded) fs) (\<lambda>rest.
                  Inr ((fc_path f, Some sha) # rest))))))"

definition reproduce :: "session \<Rightarrow> bound_pr \<Rightarrow> effect_input \<Rightarrow> unit answer" where
  "reproduce ss p i =
     res_bind (owner_name (pr_repository p)) (\<lambda>(owner, name).
     res_bind (ss_commit ss owner name (ei_expected_head i)) (\<lambda>commit.
     if gc_sha commit \<noteq> ei_expected_head i then invalid_target
     else res_bind (reproduce_changes ss owner name (gc_tree commit) [] 0 (ei_changes i)) (\<lambda>changes.
       res_bind (ss_new_tree ss owner name (gc_tree commit) changes) (\<lambda>sha.
       if sha \<noteq> ei_tested_tree i \<or> sha = gc_tree commit then invalid_target else Inr ()))))"

definition prepare_tree :: "session \<Rightarrow> bound_pr \<Rightarrow> effect_input \<Rightarrow> unit answer" where
  "prepare_tree ss p i = (if ei_expected_head i \<noteq> pr_head p then stale_state
     else res_bind (pr_verify ss p) (\<lambda>_. reproduce ss p i))"

section \<open>Publishing and reconciling\<close>

definition marker :: "string \<Rightarrow> string" where "marker effect = ''agentsfleet-effect:'' @ effect"

definition commit_matches :: "string json \<Rightarrow> string \<Rightarrow> string \<Rightarrow> bool" where
  "commit_matches commit parent tree \<longleftrightarrow> json_text [''tree'', ''oid''] commit = Some tree
     \<and> (case Option.bind (json_pointer [''parents'', ''nodes''] commit) as_array of
          Some [only] \<Rightarrow> Option.bind (json_get ''oid'' only) as_string = Some parent
        | _ \<Rightarrow> False)"

definition mutation_of :: "string \<Rightarrow> bound_pr \<Rightarrow> effect_input \<Rightarrow> gh_mutation" where
  "mutation_of effect p i = \<lparr>gm_repository = pr_repository p, gm_branch = pr_branch p, gm_expected_head = ei_expected_head i,
     gm_client_id = effect, gm_body = marker effect,
     gm_additions = List.map_filter (\<lambda>f. map_option (Pair (fc_path f)) (fc_contents f)) (ei_changes i),
     gm_deletions = map fc_path (filter (\<lambda>f. fc_contents f = None) (ei_changes i))\<rparr>"

definition commit_of :: "string json \<Rightarrow> string \<Rightarrow> string \<Rightarrow> string answer" where
  "commit_of response head tree =
     (case json_pointer [''data'', ''createCommitOnBranch'', ''commit''] response of None \<Rightarrow> effect_uncertain
      | Some commit \<Rightarrow>
          if json_get ''errors'' response \<noteq> None \<or> \<not> commit_matches commit head tree then effect_uncertain
          else case Option.bind (json_get ''oid'' commit) as_string of None \<Rightarrow> effect_uncertain | Some oid \<Rightarrow> Inr oid)"

definition publish_commit :: "session \<Rightarrow> string \<Rightarrow> bound_pr \<Rightarrow> effect_input \<Rightarrow> string answer" where
  "publish_commit ss effect p i = (if ei_expected_head i \<noteq> pr_head p then stale_state
     else res_bind (ss_mutate ss (mutation_of effect p i)) (\<lambda>response. commit_of response (ei_expected_head i) (ei_tested_tree i)))"

text \<open>\<open>str::lines\<close>.\<close>

definition text_lines :: "string \<Rightarrow> string list" where
  "text_lines t = (let ps = split_on CHR 0x0A t; strip = (\<lambda>l. if l \<noteq> [] \<and> last l = CHR 0x0D then butlast l else l) in
     map strip (butlast ps) @ (if last ps = [] then [] else [last ps]))"

datatype reconciled = ReconciledAs string | ReconciledUnknown

definition bears :: "string \<Rightarrow> string json \<Rightarrow> bool" where
  "bears effect commit \<longleftrightarrow> (case Option.bind (json_get ''message'' commit) as_string of None \<Rightarrow> False
     | Some message \<Rightarrow> marker effect \<in> set (text_lines message))"

definition scan_history :: "string \<Rightarrow> string \<Rightarrow> string \<Rightarrow> string json list \<Rightarrow> reconciled answer" where
  "scan_history effect head tree history =
     (case List.find (bears effect) history of None \<Rightarrow> Inr ReconciledUnknown
      | Some commit \<Rightarrow> if \<not> commit_matches commit head tree then Inr ReconciledUnknown
          else case Option.bind (json_get ''oid'' commit) as_string of None \<Rightarrow> effect_uncertain | Some oid \<Rightarrow> Inr (ReconciledAs oid))"

definition reconcile_locator :: "session \<Rightarrow> string \<Rightarrow> string \<Rightarrow> u64 \<Rightarrow> u64 \<Rightarrow> string \<Rightarrow> string \<Rightarrow> string \<Rightarrow> reconciled answer" where
  "reconcile_locator ss repository branch repository_id installation_id effect head tree =
     (if ss_installation ss \<noteq> installation_id then invalid_target
      else res_bind (owner_name repository) (\<lambda>(owner, name).
        res_bind (ss_history ss owner name (''refs/heads/'' @ branch)) (\<lambda>response.
        if json_get ''errors'' response \<noteq> None
           \<or> Option.bind (json_pointer [''data'', ''repository'', ''databaseId''] response) as_json_u64 \<noteq> Some (uint repository_id)
        then effect_uncertain
        else case Option.bind (json_pointer [''data'', ''repository'', ''ref'', ''target'', ''history'', ''nodes''] response) as_array of
          None \<Rightarrow> effect_uncertain
        | Some history \<Rightarrow> scan_history effect head tree history)))"

definition reconcile_pr :: "session \<Rightarrow> bound_pr \<Rightarrow> string \<Rightarrow> string \<Rightarrow> string \<Rightarrow> reconciled answer" where
  "reconcile_pr ss p effect head tree =
     reconcile_locator ss (pr_repository p) (pr_branch p) (pr_repository_id p) (pr_installation_id p) effect head tree"

end
