(* ===== verification/Publications.thy ===== *)
theory Publications
  imports Repositories
begin

text \<open>
  Publishing a task's repair: \<open>afd_fleet/src/task/effects/\<close> over \<open>task/guard.rs\<close> and \<open>task/execution.rs\<close>.
  An effect is reserved as an immutable row with a state beside it, issued at most once, pushed, and its
  receipt recorded or reconciled.  A transaction runs at one instant on one store; what its commit came to
  (it landed, it was rolled back, it landed and nobody heard) is an argument, and so is what the rest of the
  daemon did since the transaction before.  Columns no statement of these modules reads, and the timestamps
  beside them, are left out.
\<close>

section \<open>Tasks\<close>

datatype task_state = TsReady | TsRunning | TsWaiting | TsBlocked | TsPaused | TsDone | TsCancelled | TsExhausted

fun is_terminal :: "task_state \<Rightarrow> bool" where
  "is_terminal st \<longleftrightarrow> st \<in> {TsDone, TsCancelled, TsExhausted}"

fun task_state_as_str :: "task_state \<Rightarrow> string" where
  "task_state_as_str TsReady = ''ready''"
| "task_state_as_str TsRunning = ''running''"
| "task_state_as_str TsWaiting = ''waiting''"
| "task_state_as_str TsBlocked = ''blocked''"
| "task_state_as_str TsPaused = ''paused''"
| "task_state_as_str TsDone = ''done''"
| "task_state_as_str TsCancelled = ''cancelled''"
| "task_state_as_str TsExhausted = ''exhausted''"

definition task_state_of :: "string \<Rightarrow> (decision_error, task_state) result" where
  "task_state_of stored = ok_or TaskState (List.find (\<lambda>st. task_state_as_str st = stored)
     [TsReady, TsRunning, TsWaiting, TsBlocked, TsPaused, TsDone, TsCancelled, TsExhausted])"

datatype task_target = ApiOnly | ExistingPr bound_pr

record pub_task = task_row +
  pt_covered_input :: int
  pt_input :: int
  pt_effect_cursor :: int
  pt_watermark :: int
  pt_max_publications :: int
  pt_used_publications :: int
  pt_target :: task_target
  pt_accepted_revision :: string
  pt_max_leases :: int
  pt_used_leases :: int
  pt_checkpoint_sequence :: "int option"

record snapshot =
  sn_target :: task_target
  sn_generation :: int
  sn_stop_generation :: int
  sn_accepted_revision :: string
  sn_state :: task_state
  sn_covered_input :: int
  sn_expires_at :: instant
  sn_budget :: task_budget
  sn_max_publications :: int
  sn_used_publications :: int

definition snapshot_of :: "pub_task \<Rightarrow> (decision_error, snapshot) result" where
  "snapshot_of t =
     res_bind (task_state_of (t_status t)) (\<lambda>st.
     res_bind (counter ''resource_version'' (t_resource_version t)) (\<lambda>_.
     res_bind (counter ''generation'' (t_generation t)) (\<lambda>g.
     res_bind (counter ''stop_generation'' (t_stop_generation t)) (\<lambda>s.
     res_bind (counter ''covered_input_sequence'' (pt_covered_input t)) (\<lambda>covered.
     res_bind (counter ''input_sequence'' (pt_input t)) (\<lambda>_.
     res_bind (counter ''effect_cursor'' (pt_effect_cursor t)) (\<lambda>_.
     res_bind (counter ''confirmed_effect_watermark'' (pt_watermark t)) (\<lambda>_.
     res_bind (task_budget_of (task_row.truncate t)) (\<lambda>b.
     res_bind (small_counter ''max_publications'' (pt_max_publications t)) (\<lambda>mx.
     res_bind (small_counter ''used_publications'' (pt_used_publications t)) (\<lambda>used.
       Inr \<lparr>sn_target = pt_target t, sn_generation = g, sn_stop_generation = s, sn_accepted_revision = pt_accepted_revision t,
         sn_state = st, sn_covered_input = covered, sn_expires_at = t_expires_at t, sn_budget = b,
         sn_max_publications = mx, sn_used_publications = used\<rparr>)))))))))))"

section \<open>Rows\<close>

text \<open>An effect's row is append-only; its state, its private target and its read custody stand beside it.\<close>

record effect_row =
  ef_id :: string
  ef_task :: string
  ef_fleet :: string
  ef_workspace :: string
  ef_source_item :: string
  ef_lease :: string
  ef_runner :: string
  ef_fence :: int
  ef_generation :: int
  ef_stop_generation :: int
  ef_ordinal :: int
  ef_operation :: string
  ef_covered_input :: int
  ef_head :: string
  ef_tree :: string
  ef_digest :: string
  ef_issuance_expires_at :: instant
  ef_repository_id :: int
  ef_installation_id :: int

record effect_state =
  es_status :: string
  es_commit :: "string option"
  es_issued_at :: "instant option"
  es_confirmed_at :: "instant option"

record 'k recovery_row =
  rc_workspace :: string
  rc_envelope :: 'k
  rc_expires_at :: instant
  rc_due_at :: instant

record 'k pub_db =
  pd_tasks :: "string \<rightharpoonup> pub_task"
  pd_items :: "(string \<times> string \<times> string \<times> string) list"
  pd_effects :: "effect_row list"
  pd_states :: "string \<rightharpoonup> effect_state"
  pd_targets :: "string \<rightharpoonup> bound_pr"
  pd_recovery :: "string \<rightharpoonup> 'k recovery_row"
  pd_leases :: "string \<rightharpoonup> lease_row"
  pd_slots :: slots
  pd_events :: "string \<rightharpoonup> string"
  pd_fleets :: "string \<rightharpoonup> fleet_row"
  pd_capable :: "string \<rightharpoonup> bool"
  pd_person_allowed :: "string \<Rightarrow> bool"
  pd_config :: "string \<Rightarrow> string option \<Rightarrow> repository_binding option option answer"
  pd_approved :: "string \<Rightarrow> string \<Rightarrow> bool"
  pd_installs :: "string \<Rightarrow> string \<Rightarrow> bool"

datatype effect_phase = Prepared | Issued | Confirmed | Unknown | Refused

fun effect_phase_as_str :: "effect_phase \<Rightarrow> string" where
  "effect_phase_as_str Prepared = ''prepared''"
| "effect_phase_as_str Issued = ''issued''"
| "effect_phase_as_str Confirmed = ''confirmed''"
| "effect_phase_as_str Unknown = ''unknown''"
| "effect_phase_as_str Refused = ''refused''"

definition effect_phase_of :: "string \<Rightarrow> effect_phase option" where
  "effect_phase_of s = List.find (\<lambda>p. effect_phase_as_str p = s) [Prepared, Issued, Confirmed, Unknown, Refused]"

text \<open>The projection the statements select: the row, its target while the task lives, its state.\<close>

record effect =
  fx_row :: effect_row
  fx_target :: "bound_pr option"
  fx_state :: string
  fx_commit :: "string option"

definition effect_in :: "'k pub_db \<Rightarrow> effect_row \<Rightarrow> effect option" where
  "effect_in db e = map_option (\<lambda>s. \<lparr>fx_row = e, fx_target = pd_targets db (ef_id e), fx_state = es_status s, fx_commit = es_commit s\<rparr>)
     (pd_states db (ef_id e))"

definition find_effect :: "(effect_row \<Rightarrow> bool) \<Rightarrow> 'k pub_db \<Rightarrow> effect option" where
  "find_effect p db = Option.bind (List.find p (pd_effects db)) (effect_in db)"

definition target_of :: "effect \<Rightarrow> bound_pr answer" where
  "target_of x = ok_or (OnTask (TaskRefused NotFound)) (fx_target x)"

record task_effect =
  te_effect_id :: string
  te_ordinal :: int
  te_phase :: effect_phase
  te_expected_head :: string
  te_tested_tree :: string
  te_commit :: "string option"
  te_url :: string

definition on_task :: "(decision_error, 'a) result \<Rightarrow> 'a answer" where
  "on_task r = (case r of Inl e \<Rightarrow> Inl (OnTask e) | Inr x \<Rightarrow> Inr x)"

definition wire_of :: "effect \<Rightarrow> task_effect answer" where
  "wire_of x = (case effect_phase_of (fx_state x) of None \<Rightarrow> effect_uncertain
     | Some phase \<Rightarrow> res_bind (on_task (counter ''effect ordinal'' (ef_ordinal (fx_row x)))) (\<lambda>n.
         res_bind (target_of x) (\<lambda>p. Inr \<lparr>te_effect_id = ef_id (fx_row x), te_ordinal = n, te_phase = phase,
           te_expected_head = ef_head (fx_row x), te_tested_tree = ef_tree (fx_row x), te_commit = fx_commit x, te_url = pr_url p\<rparr>)))"

section \<open>The live owner\<close>

record held =
  hl_fleet :: string
  hl_workspace :: string
  hl_task :: "string option"
  hl_generation :: "int option"
  hl_stop_generation :: "int option"
  hl_fence :: int
  hl_fleet_status :: string
  hl_lease_expires_at :: instant
  hl_slot_expires_at :: instant

definition lease_not_found :: "'a answer" where "lease_not_found = Inl (OnTask (OnLease LeaseNotFound))"

text \<open>\<open>guard::lease\<close>: the scope and slot locks, then \<open>lease.sql\<close>, then the fence.\<close>

definition guard_lease :: "instant \<Rightarrow> task_lease \<Rightarrow> 'k pub_db \<Rightarrow> held answer" where
  "guard_lease now l db = (let runner = as_str (tl_runner_id l) in
     case pd_leases db (as_str (tl_lease_id l)) of None \<Rightarrow> lease_not_found
     | Some row \<Rightarrow>
       if l_runner_id row \<noteq> runner then lease_not_found
       else case pd_fleets db (l_fleet_id row) of None \<Rightarrow> Inl (OnTask (TaskRefused NotFound))
       | Some f \<Rightarrow>
         if f_workspace_id f \<noteq> l_workspace_id row then Inl (OnTask (TaskRefused NotFound))
         else case (pd_slots db (l_fleet_id row), pd_capable db runner) of
           (Some s, Some capable) \<Rightarrow>
             if l_status row \<noteq> lease_status_active \<or> last_runner_id s \<noteq> Some runner \<or> pd_events db (l_event row) \<noteq> Some (l_fleet_id row)
                \<or> l_expires_at row \<le> now \<or> slot_expires_at s \<le> now
                \<or> (case l_task row of None \<Rightarrow> False | Some sl \<Rightarrow> \<not> pd_person_allowed db (task_id sl))
             then lease_not_found
             else if \<not> capable \<or> \<not> fence_holds (l_fencing_token row) (fencing_token s) (tl_fencing_token l)
             then Inl (OnTask (OnLease StaleFence))
             else Inr \<lparr>hl_fleet = l_fleet_id row, hl_workspace = l_workspace_id row, hl_task = map_option task_id (l_task row),
               hl_generation = map_option task_generation (l_task row), hl_stop_generation = map_option task_stop_generation (l_task row),
               hl_fence = l_fencing_token row, hl_fleet_status = f_status f, hl_lease_expires_at = l_expires_at row,
               hl_slot_expires_at = slot_expires_at s\<rparr>
         | _ \<Rightarrow> lease_not_found)"

record owned =
  ow_held :: held
  ow_fleet :: uuid7
  ow_workspace :: uuid7
  ow_snapshot :: snapshot

definition guard_id :: "string \<Rightarrow> uuid7 answer" where
  "guard_id text = on_task (call_id text)"

definition task_at :: "'k pub_db \<Rightarrow> string \<Rightarrow> string \<Rightarrow> string \<Rightarrow> pub_task option" where
  "task_at db i fleet ws = (case pd_tasks db i of None \<Rightarrow> None
     | Some t \<Rightarrow> if t_fleet_id t = fleet \<and> t_workspace_id t = ws then Some t else None)"

definition attached :: "instant \<Rightarrow> held \<Rightarrow> 'k pub_db \<Rightarrow> owned answer" where
  "attached now h db =
     (if hl_fleet_status h \<noteq> ''active'' then stale_state
      else res_bind (guard_id (hl_fleet h)) (\<lambda>fleet.
        res_bind (guard_id (hl_workspace h)) (\<lambda>ws.
        res_bind (ok_or (OnTask (TaskRefused NotFound)) (hl_task h)) (\<lambda>text.
        res_bind (guard_id text) (\<lambda>i.
        res_bind (ok_or (OnTask (TaskRefused NotFound)) (task_at db (as_str i) (hl_fleet h) (hl_workspace h))) (\<lambda>t.
        res_bind (on_task (snapshot_of t)) (\<lambda>sn.
        if hl_generation h \<noteq> try_i64 (sn_generation sn) \<or> hl_stop_generation h \<noteq> try_i64 (sn_stop_generation sn)
           \<or> sn_state sn \<noteq> TsRunning \<or> sn_expires_at sn \<le> now then stale_state
        else if saturating_sub (limit_model_nanos (sn_budget sn)) (usage_reserved_nanos (sn_budget sn)) \<le> usage_model_nanos (sn_budget sn)
           \<or> limit_running_seconds (sn_budget sn) * 1000000000 \<le> usage_running_nanos (sn_budget sn)
        then Inl (OnTask (TaskRefused LimitExhausted))
        else Inr \<lparr>ow_held = h, ow_fleet = fleet, ow_workspace = ws, ow_snapshot = sn\<rparr>)))))))"

definition on_current :: "instant \<Rightarrow> held \<Rightarrow> effect_input \<Rightarrow> 'k pub_db \<Rightarrow> owned answer" where
  "on_current now h i db = (if hl_task h \<noteq> Some (ei_task_id i) then stale_state
     else res_bind (attached now h db) (\<lambda>o'. if sn_generation (ow_snapshot o') \<noteq> uint (ei_generation i) then stale_state else Inr o'))"

definition execution_load :: "instant \<Rightarrow> task_lease \<Rightarrow> effect_input \<Rightarrow> 'k pub_db \<Rightarrow> owned answer" where
  "execution_load now l i db = res_bind (guard_lease now l db) (\<lambda>h. on_current now h i db)"

section \<open>Reserving\<close>

definition preparation_seconds :: int where "preparation_seconds = 90"

text \<open>What the request's digest is taken over.\<close>

record canonical =
  cn_task :: "string \<times> u64"
  cn_source_item :: string
  cn_covered_input :: u64
  cn_head :: string
  cn_tree :: string
  cn_changes :: "file_change list"

definition canonical_of :: "effect_input \<Rightarrow> canonical" where
  "canonical_of i = \<lparr>cn_task = (ei_task_id i, ei_generation i), cn_source_item = ei_source_item_id i,
     cn_covered_input = ei_covered_input i, cn_head = ei_expected_head i, cn_tree = ei_tested_tree i, cn_changes = ei_changes i\<rparr>"

definition existing :: "string \<Rightarrow> string \<Rightarrow> 'k pub_db \<Rightarrow> effect option" where
  "existing task oper = find_effect (\<lambda>e. ef_task e = task \<and> ef_operation e = oper)"

definition unresolved_phases :: "string list" where
  "unresolved_phases = map effect_phase_as_str [Prepared, Issued, Unknown]"

definition available_sql :: "string \<Rightarrow> 'k pub_db \<Rightarrow> bool" where
  "available_sql task db \<longleftrightarrow> \<not> list_ex (\<lambda>e. ef_task e = task
     \<and> (case pd_states db (ef_id e) of None \<Rightarrow> False | Some s \<Rightarrow> es_status s \<in> set unresolved_phases)) (pd_effects db)"

definition binding_of :: "'k pub_db \<Rightarrow> string \<Rightarrow> string option \<Rightarrow> repository_binding option answer" where
  "binding_of db fleet rev_id = res_bind (pd_config db fleet rev_id) (ok_or (OnTask (TaskRefused InvalidTarget)))"

definition publication_context :: "owned \<Rightarrow> effect_input \<Rightarrow> 'k pub_db \<Rightarrow> (bound_pr \<times> int) answer" where
  "publication_context o' i db =
     (case sn_target (ow_snapshot o') of ApiOnly \<Rightarrow> invalid_target
      | ExistingPr _ \<Rightarrow> (case pd_tasks db (ei_task_id i) of
          Some t \<Rightarrow> (case pt_target t of ApiOnly \<Rightarrow> Inl (OnTask DecisionQuery)
            | ExistingPr p \<Rightarrow>
                let accepted_item = (ei_source_item_id i, ei_task_id i, t_fleet_id t, t_workspace_id t) \<in> set (pd_items db) in
                if \<not> accepted_item then stale_state
                else res_bind (on_task (counter ''input sequence'' (pt_input t))) (\<lambda>n.
                  if n \<noteq> uint (ei_covered_input i) \<or> sn_covered_input (ow_snapshot o') \<noteq> uint (ei_covered_input i)
                     \<or> pr_head p \<noteq> ei_expected_head i then stale_state
                  else res_bind (binding_of db (hl_fleet (ow_held o')) None) (\<lambda>config.
                    res_bind (pr_within p config) (\<lambda>_.
                    res_bind (binding_of db (hl_fleet (ow_held o')) (Some (sn_accepted_revision (ow_snapshot o')))) (\<lambda>kept.
                    res_bind (pr_within p kept) (\<lambda>_.
                    if \<not> available_sql (ei_task_id i) db
                       \<or> sn_max_publications (ow_snapshot o') \<le> sn_used_publications (ow_snapshot o')
                    then effect_uncertain else Inr (p, pt_input t)))))))
        | None \<Rightarrow> Inl (OnTask DecisionQuery)))"

text \<open>\<open>cursor.sql\<close>, \<open>insert.sql\<close> with the table's keys and checks, \<open>payload.sql\<close> and \<open>prepare.sql\<close>.\<close>

definition update_task :: "string \<Rightarrow> (pub_task \<Rightarrow> pub_task) \<Rightarrow> 'k pub_db \<Rightarrow> 'k pub_db" where
  "update_task i f db = (case pd_tasks db i of None \<Rightarrow> db | Some t \<Rightarrow> db\<lparr>pd_tasks := (pd_tasks db)(i \<mapsto> f t)\<rparr>)"

definition cursor_sql :: "string \<Rightarrow> 'k pub_db \<Rightarrow> (int \<times> 'k pub_db) answer" where
  "cursor_sql i db = (case pd_tasks db i of None \<Rightarrow> Inl (OnTask DecisionQuery)
     | Some t \<Rightarrow> if i64_max \<le> pt_effect_cursor t then Inl (OnTask DecisionQuery)
         else Inr (pt_effect_cursor t + 1, update_task i (\<lambda>t. t\<lparr>pt_effect_cursor := pt_effect_cursor t + 1,
             t_resource_version := t_resource_version t + 1\<rparr>) db))"

definition effect_checks :: "effect_row \<Rightarrow> 'k pub_db \<Rightarrow> bool" where
  "effect_checks e db \<longleftrightarrow> 0 < ef_generation e \<and> 0 \<le> ef_stop_generation e \<and> 0 < ef_ordinal e \<and> 0 \<le> ef_covered_input e
     \<and> list_all (\<lambda>o'. ef_id o' \<noteq> ef_id e \<and> \<not> (ef_task o' = ef_task e \<and> ef_ordinal o' = ef_ordinal e)
         \<and> \<not> (ef_task o' = ef_task e \<and> ef_operation o' = ef_operation e)) (pd_effects db)"

definition insert_effect :: "effect_row \<Rightarrow> bound_pr \<Rightarrow> 'k pub_db \<Rightarrow> 'k pub_db answer" where
  "insert_effect e p db = (if effect_checks e db
     then Inr (db\<lparr>pd_effects := pd_effects db @ [e], pd_targets := (pd_targets db)(ef_id e \<mapsto> p),
       pd_states := (pd_states db)(ef_id e \<mapsto> \<lparr>es_status = effect_phase_as_str Prepared, es_commit = None,
         es_issued_at = None, es_confirmed_at = None\<rparr>)\<rparr>)
     else Inl (OnTask DecisionQuery))"

definition signed_id :: "u64 \<Rightarrow> int answer" where
  "signed_id n = ok_or (OnTask (TaskRefused InvalidTarget)) (try_i64 (uint n))"

definition sql_counter :: "string \<Rightarrow> int \<Rightarrow> int answer" where
  "sql_counter column n = ok_or (OnTask (TaskCounter column)) (try_i64 n)"

definition new_effect :: "instant \<Rightarrow> task_lease \<Rightarrow> effect_input \<Rightarrow> owned \<Rightarrow> uuid7 \<Rightarrow> string \<Rightarrow> bound_pr \<Rightarrow> int \<Rightarrow> int \<Rightarrow> effect_row answer" where
  "new_effect now l i o' fresh digest p covered ordinal =
     res_bind (sql_counter ''generation'' (sn_generation (ow_snapshot o'))) (\<lambda>g.
     res_bind (sql_counter ''stop_generation'' (sn_stop_generation (ow_snapshot o'))) (\<lambda>s.
     res_bind (signed_id (pr_repository_id p)) (\<lambda>repository.
     res_bind (signed_id (pr_installation_id p)) (\<lambda>installation.
       Inr \<lparr>ef_id = as_str fresh, ef_task = ei_task_id i, ef_fleet = hl_fleet (ow_held o'), ef_workspace = hl_workspace (ow_held o'),
         ef_source_item = ei_source_item_id i, ef_lease = as_str (tl_lease_id l), ef_runner = as_str (tl_runner_id l),
         ef_fence = hl_fence (ow_held o'), ef_generation = g, ef_stop_generation = s, ef_ordinal = ordinal,
         ef_operation = ei_operation_id i, ef_covered_input = covered, ef_head = ei_expected_head i, ef_tree = ei_tested_tree i,
         ef_digest = digest, ef_issuance_expires_at = now + from_secs preparation_seconds,
         ef_repository_id = repository, ef_installation_id = installation\<rparr>))))"

text \<open>\<open>allocate::reserve\<close>: a replay is answered before anything is proved of the task.\<close>

definition reserve :: "(canonical \<Rightarrow> string) \<Rightarrow> uuid7 answer \<Rightarrow> instant \<Rightarrow> task_lease \<Rightarrow> effect_input \<Rightarrow> 'k pub_db
    \<Rightarrow> ((effect \<times> bool) \<times> 'k pub_db) answer" where
  "reserve sha fresh now l i db = (let digest = sha (canonical_of i) in
     res_bind (guard_lease now l db) (\<lambda>h.
     if hl_task h \<noteq> Some (ei_task_id i) then Inl (OnTask (TaskRefused NotFound))
     else case existing (ei_task_id i) (ei_operation_id i) db of
       Some x \<Rightarrow> if ef_digest (fx_row x) \<noteq> digest then Inl (OnTask (TaskRefused ReplayConflict)) else Inr ((x, True), db)
     | None \<Rightarrow>
       res_bind (on_current now h i db) (\<lambda>o'.
       res_bind (publication_context o' i db) (\<lambda>(p, covered).
       res_bind fresh (\<lambda>fid.
       res_bind (cursor_sql (ei_task_id i) db) (\<lambda>(ordinal, db1).
       res_bind (new_effect now l i o' fid digest p covered ordinal) (\<lambda>e.
       res_bind (insert_effect e p db1) (\<lambda>db2.
       res_bind (ok_or (OnTask (TaskRefused NotFound)) (existing (ei_task_id i) (ei_operation_id i) db2)) (\<lambda>x.
         Inr ((x, False), db2))))))))))"

section \<open>Issuing and its outcomes\<close>

record capability =
  cap_token :: string
  cap_repository :: string
  cap_branch :: string
  cap_installation_id :: u64
  cap_repository_id :: u64

record 'k sealed =
  sl_envelope :: 'k
  sl_expires_at :: instant

record permit =
  pm_deadline :: instant
  pm_effect_id :: string
  pm_target :: bound_pr
  pm_input :: effect_input

definition hold_authority :: "'k pub_db \<Rightarrow> string \<Rightarrow> string \<Rightarrow> u64 \<Rightarrow> unit answer" where
  "hold_authority db fleet ws installation =
     (if \<not> pd_approved db fleet ''github'' \<or> \<not> pd_installs db ws (dec_string (unat installation)) then invalid_target else Inr ())"

definition phase_is :: "effect_phase \<Rightarrow> effect_state \<Rightarrow> bool" where
  "phase_is p s \<longleftrightarrow> es_status s = effect_phase_as_str p"

text \<open>A statement over the state of one effect: whether it hit a row, and the store after it.\<close>

definition update_state :: "string \<Rightarrow> (effect_state \<Rightarrow> bool) \<Rightarrow> (effect_state \<Rightarrow> effect_state) \<Rightarrow> 'k pub_db \<Rightarrow> bool \<times> 'k pub_db" where
  "update_state i sel f db = (case pd_states db i of
       Some s \<Rightarrow> if sel s then (True, db\<lparr>pd_states := (pd_states db)(i \<mapsto> f s)\<rparr>) else (False, db)
     | None \<Rightarrow> (False, db))"

definition issue_effect_sql :: "instant \<Rightarrow> string \<Rightarrow> 'k pub_db \<Rightarrow> bool \<times> 'k pub_db" where
  "issue_effect_sql now i db = update_state i
     (\<lambda>s. phase_is Prepared s \<and> list_ex (\<lambda>e. ef_id e = i \<and> now < ef_issuance_expires_at e) (pd_effects db))
     (\<lambda>s. s\<lparr>es_status := effect_phase_as_str Issued, es_issued_at := Some now\<rparr>) db"

definition recovery_insert :: "instant \<Rightarrow> string \<Rightarrow> string \<Rightarrow> 'k sealed \<Rightarrow> 'k pub_db \<Rightarrow> 'k pub_db answer" where
  "recovery_insert now ws i sl db = (case pd_recovery db i of Some _ \<Rightarrow> Inl (OnTask DecisionQuery)
     | None \<Rightarrow> Inr (db\<lparr>pd_recovery := (pd_recovery db)(i \<mapsto> \<lparr>rc_workspace = ws, rc_envelope = sl_envelope sl,
         rc_expires_at = min (sl_expires_at sl) (now + from_secs 3600), rc_due_at = now\<rparr>)\<rparr>))"

definition i32_max :: int where "i32_max = 2 ^ 31 - 1"

definition debit_sql :: "string \<Rightarrow> 'k pub_db \<Rightarrow> 'k pub_db answer" where
  "debit_sql i db = (if (case pd_tasks db i of None \<Rightarrow> False | Some t \<Rightarrow> i32_max \<le> pt_used_publications t)
     then Inl (OnTask DecisionQuery)
     else Inr (update_task i (\<lambda>t. t\<lparr>pt_used_publications := pt_used_publications t + 1,
         t_resource_version := t_resource_version t + 1\<rparr>) db))"

text \<open>\<open>issue_context.sql\<close>: the input sequence and the target's head, which an API-only target has none of.\<close>

definition issue_context :: "'k pub_db \<Rightarrow> string \<Rightarrow> (int \<times> string) answer" where
  "issue_context db i = (case pd_tasks db i of None \<Rightarrow> Inl (OnTask DecisionQuery)
     | Some t \<Rightarrow> (case pt_target t of ApiOnly \<Rightarrow> Inl (OnTask DecisionQuery) | ExistingPr p \<Rightarrow> Inr (pt_input t, pr_head p)))"

definition issue :: "instant \<Rightarrow> task_lease \<Rightarrow> effect_input \<Rightarrow> effect \<Rightarrow> 'k sealed \<Rightarrow> 'k pub_db \<Rightarrow> (permit \<times> 'k pub_db) answer" where
  "issue now l i x sl db = (let e = fx_row x in
     res_bind (execution_load now l i db) (\<lambda>o'. let sn = ow_snapshot o'; h = ow_held o';
       deadline = min (min (hl_lease_expires_at h) (hl_slot_expires_at h)) (sn_expires_at sn) in
     if deadline \<le> now then stale_state
     else case try_i64 (sn_generation sn) of None \<Rightarrow> stale_state
     | Some g \<Rightarrow> if g \<noteq> ef_generation e then stale_state
       else res_bind (sql_counter ''stop_generation'' (sn_stop_generation sn)) (\<lambda>stop.
       if stop \<noteq> ef_stop_generation e \<or> sn_covered_input sn \<noteq> uint (ei_covered_input i)
          \<or> sn_max_publications sn \<le> sn_used_publications sn then stale_state
       else res_bind (issue_context db (ef_task e)) (\<lambda>(sequence, head).
         res_bind (on_task (counter ''input sequence'' sequence)) (\<lambda>n.
         if n \<noteq> uint (ei_covered_input i) \<or> head \<noteq> ef_head e then stale_state
         else res_bind (binding_of db (hl_fleet h) None) (\<lambda>config.
           res_bind (target_of x) (\<lambda>p.
           res_bind (pr_within p config) (\<lambda>_.
           res_bind (hold_authority db (as_str (ow_fleet o')) (as_str (ow_workspace o')) (pr_installation_id p)) (\<lambda>_.
           let (won, db1) = issue_effect_sql now (ef_id e) db in
           if \<not> won then effect_uncertain
           else res_bind (guard_id (ef_id e)) (\<lambda>_.
             res_bind (recovery_insert now (as_str (ow_workspace o')) (ef_id e) sl db1) (\<lambda>db2.
             res_bind (debit_sql (ef_task e) db2) (\<lambda>db3.
               Inr (\<lparr>pm_deadline = deadline, pm_effect_id = ef_id e, pm_target = p, pm_input = i\<rparr>, db3)))))))))))))"

text \<open>\<open>confirmed_task.sql\<close>, with the check that a watermark is at most the cursor.\<close>

definition advanced :: "int \<Rightarrow> string \<Rightarrow> string \<Rightarrow> string \<Rightarrow> pub_task \<Rightarrow> pub_task" where
  "advanced ordinal commit tree head t = t\<lparr>pt_watermark := max (pt_watermark t) ordinal,
     pt_target := (case pt_target t of ApiOnly \<Rightarrow> ApiOnly
       | ExistingPr p \<Rightarrow> if pr_head p = head then ExistingPr (p\<lparr>pr_head := commit, pr_tree := tree\<rparr>) else ExistingPr p),
     t_resource_version := t_resource_version t + 1\<rparr>"

definition confirmed_task_sql :: "string \<Rightarrow> int \<Rightarrow> string \<Rightarrow> string \<Rightarrow> string \<Rightarrow> 'k pub_db \<Rightarrow> 'k pub_db answer" where
  "confirmed_task_sql i ordinal commit tree head db =
     (if (case pd_tasks db i of None \<Rightarrow> False | Some t \<Rightarrow> pt_effect_cursor t < max (pt_watermark t) ordinal)
      then Inl (OnTask DecisionQuery) else Inr (update_task i (advanced ordinal commit tree head) db))"

definition confirm_sql :: "instant \<Rightarrow> string \<Rightarrow> string \<Rightarrow> 'k pub_db \<Rightarrow> bool \<times> 'k pub_db" where
  "confirm_sql now i commit = update_state i (\<lambda>s. phase_is Issued s \<or> phase_is Unknown s)
     (\<lambda>s. s\<lparr>es_status := effect_phase_as_str Confirmed, es_commit := Some commit, es_confirmed_at := Some now\<rparr>)"

definition drop_recovery :: "string \<Rightarrow> 'k pub_db \<Rightarrow> 'k pub_db" where
  "drop_recovery i db = db\<lparr>pd_recovery := (pd_recovery db)(i := None)\<rparr>"

text \<open>The identifiers of its scope are read before the transaction begins.\<close>

definition confirm_effect :: "instant \<Rightarrow> effect_row \<Rightarrow> string \<Rightarrow> 'k pub_db \<Rightarrow> (unit \<times> 'k pub_db) answer" where
  "confirm_effect now e commit db =
     res_bind (guard_id (ef_fleet e)) (\<lambda>_. res_bind (guard_id (ef_workspace e)) (\<lambda>_.
     let (won, db1) = confirm_sql now (ef_id e) commit db in
     res_bind (if won then confirmed_task_sql (ef_task e) (ef_ordinal e) commit (ef_tree e) (ef_head e) db1 else Inr db1) (\<lambda>db2.
       Inr ((), drop_recovery (ef_id e) db2))))"

definition state_sql :: "effect_phase \<Rightarrow> effect_phase \<Rightarrow> string \<Rightarrow> 'k pub_db \<Rightarrow> (unit \<times> 'k pub_db) answer" where
  "state_sql new previous i db = Inr ((), snd (update_state i (phase_is previous)
     (\<lambda>s. s\<lparr>es_status := effect_phase_as_str new\<rparr>) db))"

definition refuse :: "effect_row \<Rightarrow> 'k pub_db \<Rightarrow> (unit \<times> 'k pub_db) answer" where
  "refuse e = state_sql Refused Prepared (ef_id e)"

definition mark_unknown :: "effect_row \<Rightarrow> 'k pub_db \<Rightarrow> (unit \<times> 'k pub_db) answer" where
  "mark_unknown e = state_sql Unknown Issued (ef_id e)"

text \<open>\<open>maintenance::expire\<close>: read custody lapses, and with it only the hope of an answer.\<close>

definition expire_effect :: "effect_row \<Rightarrow> 'k pub_db \<Rightarrow> (unit \<times> 'k pub_db) answer" where
  "expire_effect e db = res_bind (state_sql Unknown Issued (ef_id e) db) (\<lambda>(_, db'). Inr ((), drop_recovery (ef_id e) db'))"

section \<open>Abandoning a preparation\<close>

definition original_owner_lives :: "instant \<Rightarrow> effect_row \<Rightarrow> 'k pub_db \<Rightarrow> bool" where
  "original_owner_lives now e db \<longleftrightarrow> (case pd_leases db (ef_lease e) of None \<Rightarrow> False
     | Some row \<Rightarrow> (case (pd_slots db (l_fleet_id row), task_at db (ef_task e) (ef_fleet e) (ef_workspace e)) of
         (Some s, Some t) \<Rightarrow> l_runner_id row = ef_runner e \<and> l_fencing_token row = ef_fence e \<and> l_status row = lease_status_active
           \<and> now < l_expires_at row \<and> now < slot_expires_at s \<and> last_runner_id s = Some (l_runner_id row)
           \<and> fencing_token s = ef_fence e \<and> t_generation t = ef_generation e \<and> t_stop_generation t = ef_stop_generation e
           \<and> t_status t = task_state_as_str TsRunning \<and> now < t_expires_at t
       | _ \<Rightarrow> False))"

definition abandon_sql :: "instant \<Rightarrow> effect_row \<Rightarrow> 'k pub_db \<Rightarrow> bool \<times> 'k pub_db" where
  "abandon_sql now e db = update_state (ef_id e)
     (\<lambda>s. phase_is Prepared s \<and> (ef_issuance_expires_at e \<le> now \<or> \<not> original_owner_lives now e db))
     (\<lambda>s. s\<lparr>es_status := effect_phase_as_str Refused\<rparr>) db"

definition abandon :: "instant \<Rightarrow> task_lease \<Rightarrow> effect_row \<Rightarrow> 'k pub_db \<Rightarrow> (bool \<times> 'k pub_db) answer" where
  "abandon now l e db = res_bind (guard_lease now l db) (\<lambda>h.
     if hl_task h \<noteq> Some (ef_task e) then Inl (OnTask (TaskRefused NotFound)) else Inr (abandon_sql now e db))"

section \<open>Reading\<close>

definition load_effect :: "instant \<Rightarrow> task_lease \<Rightarrow> string \<Rightarrow> 'k pub_db \<Rightarrow> (effect \<times> 'k pub_db) answer" where
  "load_effect now l i db = res_bind (guard_lease now l db) (\<lambda>h.
     res_bind (ok_or (OnTask (TaskRefused NotFound)) (find_effect (\<lambda>e. ef_id e = i \<and> ef_fleet e = hl_fleet h
       \<and> ef_workspace e = hl_workspace h \<and> Some (ef_task e) = hl_task h) db)) (\<lambda>x. Inr (x, db)))"

record effects_query =
  eq_task_id :: string
  eq_ordinal_after :: u64
  eq_starting_after :: "string option"
  eq_limit :: u32

record effects_page =
  ep_effects :: "task_effect list"
  ep_next_cursor :: "string option"

text \<open>\<open>ORDER BY e.ordinal LIMIT n\<close>, over the effects past an ordinal.\<close>

definition int_string :: "int \<Rightarrow> string" where
  "int_string n = (if n < 0 then CHR ''-'' # dec_string (nat (- n)) else dec_string (nat n))"

definition list_sql :: "string \<Rightarrow> string \<Rightarrow> string \<Rightarrow> int \<Rightarrow> nat \<Rightarrow> 'k pub_db \<Rightarrow> effect list" where
  "list_sql task fleet ws after n db = take n (sort_key (\<lambda>x. ef_ordinal (fx_row x)) (List.map_filter (effect_in db)
     (filter (\<lambda>e. ef_task e = task \<and> ef_fleet e = fleet \<and> ef_workspace e = ws \<and> after < ef_ordinal e) (pd_effects db))))"

definition list_effects :: "instant \<Rightarrow> task_lease \<Rightarrow> effects_query \<Rightarrow> 'k pub_db \<Rightarrow> effects_page answer" where
  "list_effects now l q db =
     (case (case eq_starting_after q of None \<Rightarrow> Some 0 | Some t \<Rightarrow> parse_i64 t) of
        None \<Rightarrow> Inl (Rejected ''Invalid effect cursor'')
      | Some after \<Rightarrow> if after < 0 then Inl (Rejected ''Invalid effect cursor'')
          else case try_i64 (uint (eq_ordinal_after q)) of None \<Rightarrow> Inl (Rejected ''Invalid effect watermark'')
          | Some watermark \<Rightarrow> res_bind (guard_lease now l db) (\<lambda>h.
              if hl_task h \<noteq> Some (eq_task_id q) then Inl (OnTask (TaskRefused NotFound))
              else let limit = unat (eq_limit q);
                       found = list_sql (eq_task_id q) (hl_fleet h) (hl_workspace h) (max after watermark) (limit + 1) db;
                       beyond = limit < length found;
                       shown = (if beyond then butlast found else found) in
                res_bind (traverse wire_of shown) (\<lambda>wires. Inr \<lparr>ep_effects = wires,
                  ep_next_cursor = (if beyond \<and> shown \<noteq> [] then Some (int_string (ef_ordinal (fx_row (last shown)))) else None)\<rparr>)))"

section \<open>The world around a handler\<close>

text \<open>
  The mutations that left for the provider stand beside the store.  Each transaction of a handler has an
  instant, a fate, and what everybody else did since the transaction before it.
\<close>

record 'k pub_world =
  pw_db :: "'k pub_db"
  pw_pushed :: "gh_mutation list"

datatype stage = AtReserve | AtPrepare | AtSeal | AtIssue | AtPush | AtReceipt | AtRefuse | AtLoad | AtAbandon | AtReload
  | AtReconcile | AtFinal | AtClaim | AtSettle nat

datatype fate = Landed | RolledBack | Unheard

record 'k github =
  hub_session :: "task_lease \<Rightarrow> session answer"
  hub_read_session :: "task_lease \<Rightarrow> string \<Rightarrow> session answer"
  hub_seal :: "string \<Rightarrow> string \<Rightarrow> capability \<Rightarrow> 'k answer"
  hub_open :: "string \<Rightarrow> string \<Rightarrow> 'k \<Rightarrow> capability answer"
  hub_reader :: "capability \<Rightarrow> session"

record 'k pub_env =
  pe_now :: "stage \<Rightarrow> instant"
  pe_fate :: "stage \<Rightarrow> fate"
  pe_meanwhile :: "stage \<Rightarrow> 'k pub_world \<Rightarrow> 'k pub_world"
  pe_sha :: "canonical \<Rightarrow> string"
  pe_fresh :: "uuid7 answer"
  pe_github :: "'k github option"

type_synonym ('k, 'a) handler = "'k pub_world \<Rightarrow> 'a answer \<times> 'k pub_world"

definition done_with :: "'a answer \<Rightarrow> ('k, 'a) handler" where "done_with r w = (r, w)"

definition and_then :: "('k, 'a) handler \<Rightarrow> ('a \<Rightarrow> ('k, 'b) handler) \<Rightarrow> ('k, 'b) handler" where
  "and_then m f w = (case m w of (Inl e, w') \<Rightarrow> (Inl e, w') | (Inr x, w') \<Rightarrow> f x w')"

definition or_refuse :: "('k, unit) handler \<Rightarrow> ('k, 'a) handler \<Rightarrow> ('a \<Rightarrow> ('k, 'b) handler) \<Rightarrow> ('k, 'b) handler" where
  "or_refuse cleanup m f w = (case m w of (Inl e, w') \<Rightarrow> and_then cleanup (\<lambda>_. done_with (Inl e)) w' | (Inr x, w') \<Rightarrow> f x w')"

text \<open>A transaction: its operation on the store as it is then, and what became of its commit.\<close>

definition transaction :: "'k pub_env \<Rightarrow> stage \<Rightarrow> (instant \<Rightarrow> 'k pub_db \<Rightarrow> ('a \<times> 'k pub_db) answer) \<Rightarrow> ('k, 'a) handler" where
  "transaction env at_stage oper w0 = (let w = pe_meanwhile env at_stage w0 in
     case oper (pe_now env at_stage) (pw_db w) of Inl e \<Rightarrow> (Inl e, w)
     | Inr (x, db) \<Rightarrow> (case pe_fate env at_stage of
         Landed \<Rightarrow> (Inr x, w\<lparr>pw_db := db\<rparr>)
       | RolledBack \<Rightarrow> (Inl (OnTask DecisionQuery), w)
       | Unheard \<Rightarrow> (Inl (OnTask DecisionQuery), w\<lparr>pw_db := db\<rparr>)))"

definition hub_of :: "'k pub_env \<Rightarrow> ('k, 'k github) handler" where
  "hub_of env = done_with (ok_or (OnTask (TaskRefused InvalidTarget)) (pe_github env))"

definition read_credential :: "session \<Rightarrow> (string \<times> instant) answer" where
  "read_credential ss = (if \<not> ss_read_only ss then invalid_target else Inr (ss_token ss, ss_expires_at ss))"

definition seal_recovery :: "'k github \<Rightarrow> instant \<Rightarrow> task_lease \<Rightarrow> string \<Rightarrow> string \<Rightarrow> bound_pr \<Rightarrow> 'k sealed answer" where
  "seal_recovery hub now l ws i p =
     res_bind (hub_read_session hub l (pr_repository p)) (\<lambda>ss.
     res_bind (read_credential ss) (\<lambda>(token, expires).
     if ss_installation ss \<noteq> pr_installation_id p \<or> expires \<le> now then invalid_target
     else res_bind (hub_seal hub ws i \<lparr>cap_token = token, cap_repository = pr_repository p, cap_branch = pr_branch p,
         cap_installation_id = pr_installation_id p, cap_repository_id = pr_repository_id p\<rparr>)
       (\<lambda>envelope. Inr \<lparr>sl_envelope = envelope, sl_expires_at = expires\<rparr>)))"

text \<open>The push: nothing leaves once the session's or the permit's deadline passed, or for another head.\<close>

definition push :: "instant \<Rightarrow> session \<Rightarrow> permit \<Rightarrow> ('k, string) handler" where
  "push now ss pm w =
     (if ei_expected_head (pm_input pm) \<noteq> pr_head (pm_target pm) \<or> min (ss_expires_at ss) (pm_deadline pm) \<le> now
      then (stale_state, w)
      else (publish_commit ss (pm_effect_id pm) (pm_target pm) (pm_input pm),
        w\<lparr>pw_pushed := pw_pushed w @ [mutation_of (pm_effect_id pm) (pm_target pm) (pm_input pm)]\<rparr>))"

text \<open>\<open>read::one\<close>: a preparation nobody can issue any more is abandoned and read again, and an effect whose
  outcome is open is reconciled.\<close>

definition read_abandoned :: "'k pub_env \<Rightarrow> task_lease \<Rightarrow> string \<Rightarrow> effect \<Rightarrow> ('k, effect) handler" where
  "read_abandoned env l i x = (if fx_state x \<noteq> effect_phase_as_str Prepared then done_with (Inr x)
     else and_then (transaction env AtAbandon (\<lambda>now. abandon now l (fx_row x))) (\<lambda>gone.
       if gone then transaction env AtReload (\<lambda>now. load_effect now l i) else done_with (Inr x)))"

definition record_reconciled :: "'k pub_env \<Rightarrow> task_lease \<Rightarrow> string \<Rightarrow> effect \<Rightarrow> reconciled \<Rightarrow> ('k, task_effect) handler" where
  "record_reconciled env l i x r = (case r of
       ReconciledAs commit \<Rightarrow>
         and_then (transaction env AtReconcile (\<lambda>now. confirm_effect now (fx_row x) commit)) (\<lambda>_.
         and_then (transaction env AtFinal (\<lambda>now. load_effect now l i)) (\<lambda>y. done_with (wire_of y)))
     | ReconciledUnknown \<Rightarrow> done_with (wire_of x))"

definition read_reconciled :: "'k pub_env \<Rightarrow> task_lease \<Rightarrow> string \<Rightarrow> effect \<Rightarrow> ('k, task_effect) handler" where
  "read_reconciled env l i x =
     (if fx_state x \<notin> {effect_phase_as_str Issued, effect_phase_as_str Unknown} then done_with (wire_of x)
      else and_then (hub_of env) (\<lambda>hub.
        and_then (done_with (target_of x)) (\<lambda>p.
        and_then (done_with (hub_read_session hub l (pr_repository p))) (\<lambda>ss.
        and_then (done_with (reconcile_pr ss p (ef_id (fx_row x)) (ef_head (fx_row x)) (ef_tree (fx_row x))))
          (record_reconciled env l i x)))))"

definition read_one :: "'k pub_env \<Rightarrow> task_lease \<Rightarrow> string \<Rightarrow> ('k, task_effect) handler" where
  "read_one env l i = and_then (transaction env AtLoad (\<lambda>now. load_effect now l i)) (\<lambda>x.
     and_then (read_abandoned env l i x) (read_reconciled env l i))"

text \<open>\<open>effects::publish\<close>: reserve, prepare, seal, issue, push, record, read back.\<close>

definition push_and_record :: "'k pub_env \<Rightarrow> effect_row \<Rightarrow> session \<Rightarrow> permit \<Rightarrow> ('k, unit) handler" where
  "push_and_record env e ss pm w = (case push (pe_now env AtPush) ss pm (pe_meanwhile env AtPush w) of
       (Inr commit, w') \<Rightarrow> transaction env AtReceipt (\<lambda>now. confirm_effect now e commit) w'
     | (Inl _, w') \<Rightarrow> transaction env AtReceipt (\<lambda>_. mark_unknown e) w')"

definition read_back :: "'k pub_env \<Rightarrow> task_lease \<Rightarrow> effect_row \<Rightarrow> bool \<Rightarrow> ('k, task_effect \<times> bool) handler" where
  "read_back env l e again = and_then (done_with (guard_id (ef_id e))) (\<lambda>u.
     and_then (read_one env l (as_str u)) (\<lambda>te. done_with (Inr (te, again))))"

definition publish_reserved :: "'k pub_env \<Rightarrow> task_lease \<Rightarrow> effect_input \<Rightarrow> effect \<Rightarrow> ('k, task_effect \<times> bool) handler" where
  "publish_reserved env l i x = (let e = fx_row x; refused = transaction env AtRefuse (\<lambda>_. refuse e) in
     and_then (hub_of env) (\<lambda>hub.
     or_refuse refused (done_with (hub_session hub l)) (\<lambda>ss.
     and_then (done_with (target_of x)) (\<lambda>p.
     or_refuse refused (done_with (prepare_tree ss p i)) (\<lambda>_.
     and_then (done_with (guard_id (ef_workspace e))) (\<lambda>ws.
     and_then (done_with (guard_id (ef_id e))) (\<lambda>u.
     or_refuse refused (done_with (seal_recovery hub (pe_now env AtSeal) l (as_str ws) (as_str u) p)) (\<lambda>sl.
     or_refuse refused (transaction env AtIssue (\<lambda>now. issue now l i x sl)) (\<lambda>pm.
     and_then (push_and_record env e ss pm) (\<lambda>_. read_back env l e False))))))))))"

definition publish :: "'k pub_env \<Rightarrow> task_lease \<Rightarrow> effect_input \<Rightarrow> ('k, task_effect \<times> bool) handler" where
  "publish env l i =
     and_then (transaction env AtReserve (\<lambda>now. reserve (pe_sha env) (pe_fresh env) now l i)) (\<lambda>(x, again).
       if again then read_back env l (fx_row x) True else publish_reserved env l i x)"

section \<open>Reconciling without an owner\<close>

definition concurrent_reads :: nat where "concurrent_reads = 4"
definition recheck_seconds :: int where "recheck_seconds = 60"

record maintained =
  mt_scanned :: nat
  mt_confirmed :: nat
  mt_unknown :: nat
  mt_expired :: nat
  mt_failed :: nat

text \<open>\<open>claim_recovery.sql\<close>: the rows due first, \<open>SKIP LOCKED\<close> leaving out those another sweep holds.\<close>

definition due_custody :: "instant \<Rightarrow> (string \<Rightarrow> bool) \<Rightarrow> 'k pub_db \<Rightarrow> (effect_row \<times> 'k recovery_row) list" where
  "due_custody now locked db = sort_key (\<lambda>(e, r). (rc_due_at r, ef_id e)) (List.map_filter
     (\<lambda>e. case pd_recovery db (ef_id e) of None \<Rightarrow> None
        | Some r \<Rightarrow> if rc_due_at r \<le> now \<and> \<not> locked (ef_id e) then Some (e, r) else None) (pd_effects db))"

definition claim_recovery :: "(string \<Rightarrow> bool) \<Rightarrow> instant \<Rightarrow> 'k pub_db \<Rightarrow> ((effect_row \<times> 'k recovery_row) list \<times> 'k pub_db) answer" where
  "claim_recovery locked now db = (let claimed = take concurrent_reads (due_custody now locked db) in
     Inr (claimed, foldl (\<lambda>d (e, r). d\<lparr>pd_recovery := (pd_recovery d)(ef_id e \<mapsto> r\<lparr>rc_due_at := now + from_secs recheck_seconds\<rparr>)\<rparr>)
       db claimed))"

datatype outcome = OutConfirmed | OutUnknown | OutExpired

definition open_recovery :: "'k github \<Rightarrow> instant \<Rightarrow> string \<Rightarrow> string \<Rightarrow> 'k recovery_row \<Rightarrow> (session \<times> capability) answer" where
  "open_recovery hub now ws i r = (if rc_expires_at r \<le> now then effect_uncertain
     else res_bind (hub_open hub ws i (rc_envelope r)) (\<lambda>c.
       Inr ((hub_reader hub c)\<lparr>ss_installation := cap_installation_id c, ss_token := cap_token c,
         ss_expires_at := rc_expires_at r, ss_read_only := True\<rparr>, c)))"

definition settle_claimed :: "'k pub_env \<Rightarrow> 'k github \<Rightarrow> nat \<Rightarrow> effect_row \<times> 'k recovery_row \<Rightarrow> ('k, outcome) handler" where
  "settle_claimed env hub n er = (let e = fst er; r = snd er; now = pe_now env (AtSettle n) in
     if rc_expires_at r \<le> now
     then and_then (transaction env (AtSettle n) (\<lambda>_. expire_effect e)) (\<lambda>_. done_with (Inr OutExpired))
     else and_then (done_with (guard_id (ef_workspace e))) (\<lambda>ws.
       and_then (done_with (guard_id (ef_id e))) (\<lambda>u.
       and_then (done_with (open_recovery hub now (as_str ws) (as_str u) r)) (\<lambda>(ss, c).
       and_then (done_with (reconcile_locator ss (cap_repository c) (cap_branch c) (cap_repository_id c) (cap_installation_id c)
         (ef_id e) (ef_head e) (ef_tree e))) (\<lambda>found. case found of
           ReconciledAs commit \<Rightarrow> and_then (transaction env (AtSettle n) (\<lambda>at_instant. confirm_effect at_instant e commit))
             (\<lambda>_. done_with (Inr OutConfirmed))
         | ReconciledUnknown \<Rightarrow> done_with (Inr OutUnknown))))))"

definition tallied :: "outcome answer \<Rightarrow> maintained \<Rightarrow> maintained" where
  "tallied r m = (let m1 = m\<lparr>mt_scanned := mt_scanned m + 1\<rparr> in case r of
     Inr OutConfirmed \<Rightarrow> m1\<lparr>mt_confirmed := mt_confirmed m + 1\<rparr>
   | Inr OutUnknown \<Rightarrow> m1\<lparr>mt_unknown := mt_unknown m + 1\<rparr>
   | Inr OutExpired \<Rightarrow> m1\<lparr>mt_expired := mt_expired m + 1\<rparr>
   | Inl _ \<Rightarrow> m1\<lparr>mt_failed := mt_failed m + 1\<rparr>)"

text \<open>The reads run beside each other; each row's transaction is its own, and here they end in the order claimed.\<close>

fun settle_all :: "'k pub_env \<Rightarrow> 'k github \<Rightarrow> nat \<Rightarrow> (effect_row \<times> 'k recovery_row) list \<Rightarrow> maintained \<Rightarrow> ('k, maintained) handler" where
  "settle_all env hub n [] m w = (Inr m, w)"
| "settle_all env hub n (er # ers) m w = (case settle_claimed env hub n er w of
     (r, w') \<Rightarrow> settle_all env hub (Suc n) ers (tallied r m) w')"

definition no_maintenance :: maintained where
  "no_maintenance = \<lparr>mt_scanned = 0, mt_confirmed = 0, mt_unknown = 0, mt_expired = 0, mt_failed = 0\<rparr>"

definition sweep :: "'k pub_env \<Rightarrow> (string \<Rightarrow> bool) \<Rightarrow> ('k, maintained) handler" where
  "sweep env locked = (case pe_github env of None \<Rightarrow> done_with (Inr no_maintenance)
     | Some hub \<Rightarrow> and_then (transaction env AtClaim (claim_recovery locked)) (\<lambda>claimed. settle_all env hub 0 claimed no_maintenance))"

section \<open>Human controls\<close>

datatype control = Pause | Resume | Cancel

fun requested :: "control \<Rightarrow> task_state" where
  "requested Pause = TsPaused"
| "requested Resume = TsReady"
| "requested Cancel = TsCancelled"

datatype control_error = ControlTask decision_error | Precondition string | ControlConflict task_state

definition refused_control :: "task_refusal \<Rightarrow> (control_error, 'a) result" where
  "refused_control r = Inl (ControlTask (TaskRefused r))"

definition on_control :: "(decision_error, 'a) result \<Rightarrow> (control_error, 'a) result" where
  "on_control r = (case r of Inl e \<Rightarrow> Inl (ControlTask e) | Inr x \<Rightarrow> Inr x)"

text \<open>\<open>lock_task.sql\<close>.\<close>

definition can_resume :: "instant \<Rightarrow> pub_task \<Rightarrow> bool" where
  "can_resume now t \<longleftrightarrow> now < t_expires_at t \<and> used_model_nanos t < max_model_nanos t - reserved_model_nanos t
     \<and> used_running_nanos t < max_running_nanos t \<and> pt_used_leases t < pt_max_leases t"

text \<open>\<open>control.sql\<close>.\<close>

definition controlled :: "instant \<Rightarrow> control \<Rightarrow> pub_task \<Rightarrow> pub_task" where
  "controlled now c t = t\<lparr>t_status := task_state_as_str (requested c), t_resource_version := t_resource_version t + 1,
     t_generation := t_generation t + 1, t_stop_generation := t_stop_generation t + (if c = Resume then 0 else 1),
     t_terminal_at := (if c = Cancel then Some now else t_terminal_at t),
     t_checkpoint_cleanup_at := (if pt_checkpoint_sequence t \<noteq> None then Some now else t_checkpoint_cleanup_at t)\<rparr>"

text \<open>\<open>guard::scope\<close>, then \<open>control::transition\<close>; the tag of what the caller read is a digest, an argument.\<close>

definition control_transition :: "(string \<Rightarrow> 'k pub_db \<Rightarrow> string) \<Rightarrow> instant \<Rightarrow> uuid7 \<Rightarrow> uuid7 \<Rightarrow> uuid7 \<Rightarrow> string \<Rightarrow> int \<Rightarrow> control
    \<Rightarrow> 'k pub_db \<Rightarrow> (control_error, (bool \<times> task_state) \<times> 'k pub_db) result" where
  "control_transition tag now fleet ws task expected_tag expected_generation c db =
     (if (case pd_fleets db (as_str fleet) of None \<Rightarrow> True | Some f \<Rightarrow> f_workspace_id f \<noteq> as_str ws) then refused_control NotFound
      else case task_at db (as_str task) (as_str fleet) (as_str ws) of None \<Rightarrow> refused_control NotFound
      | Some t \<Rightarrow>
        res_bind (on_control (snapshot_of t)) (\<lambda>_.
        if tag (as_str task) db \<noteq> expected_tag then Inl (Precondition (tag (as_str task) db))
        else res_bind (on_control (task_state_of (t_status t))) (\<lambda>previous.
          res_bind (on_control (counter ''generation'' (t_generation t))) (\<lambda>g.
          if g \<noteq> expected_generation then Inl (ControlConflict previous)
          else if previous = requested c then Inr ((False, previous), db)
          else if is_terminal previous \<or> (c = Resume \<and> previous \<notin> {TsPaused, TsBlocked}) then Inl (ControlConflict previous)
          else if c = Resume \<and> \<not> can_resume now t then refused_control LimitExhausted
          else Inr ((True, previous), update_task (as_str task) (controlled now c) db)))))"

end
