(* ===== verification/Intake.thy ===== *)
theory Intake
  imports Texts Ids
begin

text \<open>
  The admission ledger (\<open>afd_admission\<close>): one durable row per producer and key.  \<open>admission.rs\<close> (what a
  producer asks and its digest), \<open>admit.rs\<close>, \<open>stage/\<close> (the policy check, the budgets, the insert),
  \<open>repeat.rs\<close>, \<open>confirm.rs\<close>, \<open>backlog.rs\<close> and the statements they run, and \<open>budget/\<close> with its sampled
  ceiling.  SHA-256 with its hexadecimal rendering is an argument.
\<close>

section \<open>What a producer asks\<close>

datatype producer = Steer | WebhookProducer | WebhookApp | ScheduleFire | GateContinuation | TaskContinuation | SlackMention

fun producer_as_str :: "producer \<Rightarrow> string" where
  "producer_as_str Steer = ''steer''"
| "producer_as_str WebhookProducer = ''webhook''"
| "producer_as_str WebhookApp = ''webhook_app''"
| "producer_as_str ScheduleFire = ''schedule_fire''"
| "producer_as_str GateContinuation = ''gate_continuation''"
| "producer_as_str TaskContinuation = ''task_continuation''"
| "producer_as_str SlackMention = ''slack_mention''"

definition is_caller_keyed :: "producer \<Rightarrow> bool" where "is_caller_keyed p \<longleftrightarrow> p = Steer"

datatype event_type = ChatEvent | WebhookEvent | CronEvent | ContinuationEvent

fun event_type_as_str :: "event_type \<Rightarrow> string" where
  "event_type_as_str ChatEvent = ''chat''"
| "event_type_as_str WebhookEvent = ''webhook''"
| "event_type_as_str CronEvent = ''cron''"
| "event_type_as_str ContinuationEvent = ''continuation''"

definition event_type_parse :: "string \<Rightarrow> event_type option" where
  "event_type_parse stored = (if stored = ''chat'' then Some ChatEvent else if stored = ''webhook'' then Some WebhookEvent
     else if stored = ''cron'' then Some CronEvent else if stored = ''continuation'' then Some ContinuationEvent else None)"

datatype admission_key = Repeated string | Unrepeatable

datatype reply = NoReply | ReplyTo string string | InheritReply string

record asked =
  ask_producer :: producer
  ask_key :: admission_key
  ask_fleet :: string
  ask_workspace :: string
  ask_actor :: string
  ask_event_type :: event_type
  ask_request :: string
  ask_reply :: reply

definition digest_reply_to :: string where "digest_reply_to = ''reply_to''"
definition digest_reply_inherit :: string where "digest_reply_inherit = ''reply_inherit''"

text \<open>Each part is hashed with a NUL after it.\<close>

definition absorbed :: "string list \<Rightarrow> string" where
  "absorbed parts = concat (map (\<lambda>t. t @ [CHR 0x00]) parts)"

definition digest_parts :: "asked \<Rightarrow> string list" where
  "digest_parts a = [ask_actor a, event_type_as_str (ask_event_type a), ask_workspace a, ask_request a]
     @ (case ask_reply a of NoReply \<Rightarrow> []
        | ReplyTo connector address \<Rightarrow> [digest_reply_to, connector, address]
        | InheritReply event \<Rightarrow> [digest_reply_inherit, event])"

definition payload_digest :: "(string \<Rightarrow> string) \<Rightarrow> asked \<Rightarrow> string" where
  "payload_digest sha_hex a = sha_hex (absorbed (digest_parts a))"

record reply_binds =
  bind_connector :: "string option"
  bind_address :: "string option"
  bind_inherited :: "uuid7 option"

fun reply_binds_from :: "reply \<Rightarrow> reply_binds" where
  "reply_binds_from NoReply = \<lparr>bind_connector = None, bind_address = None, bind_inherited = None\<rparr>"
| "reply_binds_from (ReplyTo c a) = \<lparr>bind_connector = Some c, bind_address = Some a, bind_inherited = None\<rparr>"
| "reply_binds_from (InheritReply e) = \<lparr>bind_connector = None, bind_address = None,
     bind_inherited = (case uuid7_parse e of Inl _ \<Rightarrow> None | Inr u \<Rightarrow> Some u)\<rparr>"

section \<open>The tables\<close>

record admission_row =
  ad_id :: string
  ad_fleet :: string
  ad_workspace :: string
  ad_producer :: string
  ad_key :: string
  ad_digest :: string
  ad_actor :: string
  ad_event_type :: string
  ad_request :: string
  ad_reply :: "(string \<times> string) option"
  ad_created_at :: instant
  ad_updated_at :: instant
  ad_settled_at :: "instant option"
  ad_task :: "string option"
  ad_generation :: "int option"

text \<open>A fleet with the policy semantics of its head revision, and a task's generation.\<close>

record fleet_head =
  fh_id :: string
  fh_workspace :: string
  fh_policy :: "string option"

record task_head =
  th_id :: string
  th_fleet :: string
  th_workspace :: string
  th_generation :: int
  th_terminal :: bool

record intake_db =
  ledger_rows :: "admission_row list"
  fleet_heads :: "fleet_head list"
  task_heads :: "task_head list"

definition keyed :: "string \<Rightarrow> string \<Rightarrow> admission_row \<Rightarrow> bool" where
  "keyed p k r \<longleftrightarrow> ad_producer r = p \<and> ad_key r = k"

text \<open>The condition \<open>select_backlog.sql\<close> and \<open>fleet_budget.sql\<close> share: unsettled, and not a continuation of
  a task generation that is over.\<close>

definition waiting_row :: "intake_db \<Rightarrow> admission_row \<Rightarrow> bool" where
  "waiting_row db r \<longleftrightarrow> ad_settled_at r = None
     \<and> (ad_producer r \<noteq> producer_as_str TaskContinuation \<or> ad_generation r = None
        \<or> list_ex (\<lambda>t. ad_task r = Some (th_id t) \<and> th_fleet t = ad_fleet r \<and> th_workspace t = ad_workspace r
            \<and> ad_generation r = Some (th_generation t) \<and> \<not> th_terminal t) (task_heads db))"

definition repeated_sql :: "intake_db \<Rightarrow> string \<Rightarrow> string \<Rightarrow> admission_row option" where
  "repeated_sql db p k = List.find (keyed p k) (ledger_rows db)"

definition repeated_on_fleet_sql :: "intake_db \<Rightarrow> string \<Rightarrow> string \<Rightarrow> string \<Rightarrow> string \<Rightarrow> bool" where
  "repeated_on_fleet_sql db fleet workspace p k =
     list_ex (\<lambda>r. ad_fleet r = fleet \<and> ad_workspace r = workspace \<and> keyed p k r) (ledger_rows db)"

definition installed_policy_sql :: "intake_db \<Rightarrow> string \<Rightarrow> string \<Rightarrow> string option option" where
  "installed_policy_sql db fleet workspace = map_option fh_policy
     (List.find (\<lambda>f. fh_id f = fleet \<and> fh_workspace f = workspace) (fleet_heads db))"

definition fleet_budget_sql :: "intake_db \<Rightarrow> string \<Rightarrow> int \<Rightarrow> int \<Rightarrow> string \<Rightarrow> string \<Rightarrow> bool" where
  "fleet_budget_sql db fleet limit scan p k \<longleftrightarrow>
     limit \<le> int (length (take (nat scan) (filter (\<lambda>r. ad_fleet r = fleet \<and> waiting_row db r) (ledger_rows db))))
     \<and> \<not> list_ex (keyed p k) (ledger_rows db)"

definition backlog_sql :: "intake_db \<Rightarrow> nat" where
  "backlog_sql db = length (filter (waiting_row db) (ledger_rows db))"

text \<open>\<open>insert_admission.sql\<close>.  A row of this key is touched and answered; otherwise the row is inserted
  while the estimate is under the budget.  No row answered is \<open>Inr None\<close>; a taken row id or a missing
  fleet is a refused statement, which changes nothing.\<close>

definition inherited_reply :: "intake_db \<Rightarrow> string \<Rightarrow> uuid7 option \<Rightarrow> (string \<times> string) option" where
  "inherited_reply db fleet from_id = (case from_id of None \<Rightarrow> None
     | Some u \<Rightarrow> Option.bind (List.find (\<lambda>r. ad_fleet r = fleet \<and> ad_id r = as_str u \<and> ad_reply r \<noteq> None) (ledger_rows db)) ad_reply)"

definition reply_of :: "intake_db \<Rightarrow> string \<Rightarrow> reply_binds \<Rightarrow> (string \<times> string) option" where
  "reply_of db fleet b = (case (bind_connector b, bind_address b) of (Some c, Some a) \<Rightarrow> Some (c, a)
     | _ \<Rightarrow> inherited_reply db fleet (bind_inherited b))"

definition new_row :: "intake_db \<Rightarrow> string \<Rightarrow> asked \<Rightarrow> string \<Rightarrow> string \<Rightarrow> instant \<Rightarrow> admission_row" where
  "new_row db row_id a k digest now = \<lparr>ad_id = row_id, ad_fleet = ask_fleet a, ad_workspace = ask_workspace a,
     ad_producer = producer_as_str (ask_producer a), ad_key = k, ad_digest = digest, ad_actor = ask_actor a,
     ad_event_type = event_type_as_str (ask_event_type a), ad_request = ask_request a,
     ad_reply = reply_of db (ask_fleet a) (reply_binds_from (ask_reply a)),
     ad_created_at = now, ad_updated_at = now, ad_settled_at = None, ad_task = None, ad_generation = None\<rparr>"

definition touch :: "string \<Rightarrow> string \<Rightarrow> instant \<Rightarrow> admission_row \<Rightarrow> admission_row" where
  "touch p k now r = (if keyed p k r then r\<lparr>ad_updated_at := now\<rparr> else r)"

record ledger_answer =
  la_row :: admission_row
  la_inserted :: bool

definition insert_admission_sql :: "intake_db \<Rightarrow> string \<Rightarrow> asked \<Rightarrow> string \<Rightarrow> string \<Rightarrow> int \<Rightarrow> int \<Rightarrow> instant
    \<Rightarrow> (unit, intake_db \<times> ledger_answer option) result" where
  "insert_admission_sql db row_id a k digest budget estimate now =
     (let p = producer_as_str (ask_producer a) in
      case repeated_sql db p k of
        Some r \<Rightarrow> Inr (db\<lparr>ledger_rows := map (touch p k now) (ledger_rows db)\<rparr>,
                   Some \<lparr>la_row = r\<lparr>ad_updated_at := now\<rparr>, la_inserted = False\<rparr>)
      | None \<Rightarrow> if \<not> estimate < budget then Inr (db, None)
          else if list_ex (\<lambda>r. ad_id r = row_id) (ledger_rows db) \<or> \<not> list_ex (\<lambda>f. fh_id f = ask_fleet a) (fleet_heads db)
          then Inl ()
          else let r = new_row db row_id a k digest now in
            Inr (db\<lparr>ledger_rows := ledger_rows db @ [r]\<rparr>, Some \<lparr>la_row = r, la_inserted = True\<rparr>))"

section \<open>Errors and faults\<close>

datatype budget_scope = FleetScope | DeploymentScope

datatype intake_error = PolicyRefused | IntakeDatastore | IntakeQuery | OverBudget budget_scope nat
  | Exhausted | IntakeEntropy

fun is_over_capacity :: "intake_error \<Rightarrow> bool" where
  "is_over_capacity (OverBudget _ _) \<longleftrightarrow> True"
| "is_over_capacity Exhausted \<longleftrightarrow> True"
| "is_over_capacity _ \<longleftrightarrow> False"

fun intake_unavailable :: "intake_error \<Rightarrow> bool" where
  "intake_unavailable IntakeDatastore \<longleftrightarrow> True"
| "intake_unavailable (OverBudget _ _) \<longleftrightarrow> True"
| "intake_unavailable Exhausted \<longleftrightarrow> True"
| "intake_unavailable _ \<longleftrightarrow> False"

text \<open>What the world answers each call: a fault at a statement (already classified as refused or
  exhausted), and how a commit ends.  One whose answer is lost may have committed.\<close>

datatype commit_end = Committed | CommitRefused intake_error | CommittedUnheard intake_error

record intake_faults =
  at_acquire :: "intake_error option"
  at_begin :: "intake_error option"
  at_repeated :: "intake_error option"
  at_policy :: "intake_error option"
  at_budget :: "intake_error option"
  at_insert :: "intake_error option"
  at_commit :: commit_end
  at_find :: "intake_error option"

definition faulted :: "intake_error option \<Rightarrow> (intake_error, 'a) result \<Rightarrow> (intake_error, 'a) result" where
  "faulted f r = (case f of Some e \<Rightarrow> Inl e | None \<Rightarrow> r)"

section \<open>Budgets\<close>

definition fleet_backlog_budget :: nat where "fleet_backlog_budget = 10000"
definition deployment_backlog_budget :: nat where "deployment_backlog_budget = 100000"

record budgets =
  fleet_backlog :: nat
  deployment_backlog :: nat

definition default_budgets :: budgets where
  "default_budgets = \<lparr>fleet_backlog = fleet_backlog_budget, deployment_backlog = deployment_backlog_budget\<rparr>"

definition u64_max :: nat where "u64_max = 2 ^ 64 - 1"

definition to_i64 :: "nat \<Rightarrow> int" where
  "to_i64 n = (case try_i64 (int n) of Some x \<Rightarrow> x | None \<Rightarrow> i64_max)"

text \<open>\<open>limit.saturating_add(1)\<close> of a 64-bit count.\<close>

definition u64_succ :: "nat \<Rightarrow> nat" where "u64_succ n = min (n + 1) u64_max"

definition policy_semantics :: string where "policy_semantics = ''fleet-setup-v1''"

definition policy_check :: "intake_faults \<Rightarrow> intake_db \<Rightarrow> asked \<Rightarrow> string \<Rightarrow> (intake_error, unit) result" where
  "policy_check ff db a k = faulted (at_repeated ff)
     (if repeated_on_fleet_sql db (ask_fleet a) (ask_workspace a) (producer_as_str (ask_producer a)) k then Inr ()
      else faulted (at_policy ff)
        (if Option.bind (installed_policy_sql db (ask_fleet a) (ask_workspace a)) id \<noteq> Some policy_semantics
         then Inl PolicyRefused else Inr ()))"

definition check_fleet_budget :: "intake_faults \<Rightarrow> budgets \<Rightarrow> intake_db \<Rightarrow> asked \<Rightarrow> string \<Rightarrow> (intake_error, unit) result" where
  "check_fleet_budget ff bs db a k = faulted (at_budget ff)
     (if fleet_budget_sql db (ask_fleet a) (to_i64 (fleet_backlog bs)) (to_i64 (u64_succ (fleet_backlog bs)))
           (producer_as_str (ask_producer a)) k
      then Inl (OverBudget FleetScope (fleet_backlog bs)) else Inr ())"

definition insert_on :: "intake_faults \<Rightarrow> budgets \<Rightarrow> intake_db \<Rightarrow> string \<Rightarrow> asked \<Rightarrow> string \<Rightarrow> string \<Rightarrow> nat \<Rightarrow> instant
    \<Rightarrow> (intake_error, intake_db \<times> ledger_answer) result" where
  "insert_on ff bs db row_id a k digest estimate now =
     res_bind (policy_check ff db a k) (\<lambda>_.
     res_bind (check_fleet_budget ff bs db a k) (\<lambda>_.
     faulted (at_insert ff)
       (case insert_admission_sql db row_id a k digest (to_i64 (deployment_backlog bs)) (to_i64 estimate) now of
          Inl _ \<Rightarrow> Inl IntakeQuery
        | Inr (db', None) \<Rightarrow> Inl (OverBudget DeploymentScope (deployment_backlog bs))
        | Inr (db', Some l) \<Rightarrow> Inr (db', l))))"

section \<open>The sampled ceiling\<close>

definition sample_every :: nat where "sample_every = 1000"
definition sample_interval_ms :: int where "sample_interval_ms = 5000"
definition refusing_interval_ms :: int where "refusing_interval_ms = 500"

record ceiling =
  ceil_sampled :: nat
  ceil_since :: nat
  ceil_read_at :: "int option"
  ceil_sampling :: bool

definition ceiling_new :: ceiling where
  "ceiling_new = \<lparr>ceil_sampled = 0, ceil_since = 0, ceil_read_at = None, ceil_sampling = False\<rparr>"

text \<open>The words are atomics, each loaded and stored alone, so between two operations of one caller the others
  may move: every \<open>gap\<close> is what they made of the ceiling meanwhile.  The estimate loads two words.\<close>

definition estimate_of :: "nat \<Rightarrow> nat \<Rightarrow> nat" where
  "estimate_of sampled since = min (sampled + since) u64_max"

definition ceiling_estimate :: "(ceiling \<Rightarrow> ceiling) \<Rightarrow> ceiling \<Rightarrow> nat \<times> ceiling" where
  "ceiling_estimate gap c = (let sampled = ceil_sampled c; c' = gap c in (estimate_of sampled (ceil_since c'), c'))"

text \<open>\<open>fetch_add\<close> wraps.\<close>

definition ceiling_admitted :: "ceiling \<Rightarrow> ceiling" where
  "ceiling_admitted c = c\<lparr>ceil_since := (ceil_since c + 1) mod 2 ^ 64\<rparr>"

definition ceiling_due :: "(ceiling \<Rightarrow> ceiling) \<Rightarrow> int \<Rightarrow> nat \<Rightarrow> nat \<Rightarrow> ceiling \<Rightarrow> bool \<times> ceiling" where
  "ceiling_due gap now_ms estimate budget c = (case ceil_read_at c of None \<Rightarrow> (True, c)
     | Some read_at \<Rightarrow> let c' = gap c in
         (if sample_every \<le> ceil_since c' then True
          else (if budget \<le> estimate then refusing_interval_ms else sample_interval_ms)
               \<le> max 0 (saturating_sub now_ms read_at), c'))"

text \<open>A claim: whether it won the flag, and the count its figure will already include.\<close>

definition claim_flag :: "ceiling \<Rightarrow> bool \<times> ceiling" where
  "claim_flag c = (\<not> ceil_sampling c, c\<lparr>ceil_sampling := True\<rparr>)"

definition ceiling_claim :: "(ceiling \<Rightarrow> ceiling) \<Rightarrow> ceiling \<Rightarrow> (bool \<times> nat) \<times> ceiling" where
  "ceiling_claim gap c = (let (won, c1) = claim_flag c; c2 = gap c1 in ((won, ceil_since c2), c2))"

definition publish_sampled :: "nat \<Rightarrow> ceiling \<Rightarrow> ceiling" where "publish_sampled n c = c\<lparr>ceil_sampled := n\<rparr>"
definition publish_since :: "nat \<Rightarrow> ceiling \<Rightarrow> ceiling" where "publish_since counted c = c\<lparr>ceil_since := ceil_since c - counted\<rparr>"
definition publish_read_at :: "int \<Rightarrow> ceiling \<Rightarrow> ceiling" where "publish_read_at now_ms c = c\<lparr>ceil_read_at := Some now_ms\<rparr>"

definition claim_publish :: "(ceiling \<Rightarrow> ceiling) \<Rightarrow> (ceiling \<Rightarrow> ceiling) \<Rightarrow> bool \<times> nat \<Rightarrow> nat \<Rightarrow> int \<Rightarrow> ceiling \<Rightarrow> ceiling" where
  "claim_publish gap gap' claim n now_ms c =
     publish_read_at now_ms (gap' (publish_since (snd claim) (gap (publish_sampled n c))))"

definition claim_drop :: "bool \<times> nat \<Rightarrow> ceiling \<Rightarrow> ceiling" where
  "claim_drop claim c = (if fst claim then c\<lparr>ceil_sampling := False\<rparr> else c)"

text \<open>\<open>backlog\<close> is what the sampling read answered, when one was due and won; \<open>gaps\<close> are the other callers,
  one entry for every place between two of this caller's operations.\<close>

definition deployment_estimate :: "budgets \<Rightarrow> (intake_error, nat) result \<Rightarrow> int \<Rightarrow> (nat \<Rightarrow> ceiling \<Rightarrow> ceiling) \<Rightarrow> ceiling \<Rightarrow> nat \<times> ceiling" where
  "deployment_estimate bs backlog now_ms gaps c =
     (let (estimate, c1) = ceiling_estimate (gaps 0) c;
          (due, c2) = ceiling_due (gaps 2) now_ms estimate (deployment_backlog bs) (gaps 1 c1) in
      if \<not> due then (estimate, c2)
      else let (claim, c3) = ceiling_claim (gaps 4) (gaps 3 c2) in
        if \<not> fst claim then (estimate, claim_drop claim c3)
        else case backlog of
          Inr rows \<Rightarrow> let c4 = claim_publish (gaps 6) (gaps 7) claim rows now_ms (gaps 5 c3);
                (fresh, c5) = ceiling_estimate (gaps 9) (gaps 8 c4) in (fresh, claim_drop claim (gaps 10 c5))
        | Inl _ \<Rightarrow> (estimate, claim_drop claim (gaps 5 c3)))"

section \<open>Admitting\<close>

record intake_state =
  in_db :: intake_db
  in_ceiling :: ceiling

record intake_env =
  env_sha :: "string \<Rightarrow> string"
  env_budgets :: budgets
  env_now :: instant
  env_now_ms :: int
  env_row_id :: "(unit, uuid7) result"
  env_backlog :: "(intake_error, nat) result"
  env_gaps :: "nat \<Rightarrow> ceiling \<Rightarrow> ceiling"
  env_faults :: intake_faults

record admitted_answer =
  aa_replayed :: bool
  aa_stored :: admission_row

definition key_of :: "admission_key \<Rightarrow> uuid7 \<Rightarrow> string" where
  "key_of k row_id = (case k of Repeated t \<Rightarrow> t | Unrepeatable \<Rightarrow> as_str row_id)"

definition counted_in :: "ledger_answer \<Rightarrow> ceiling \<Rightarrow> ceiling" where
  "counted_in l c = (if la_inserted l then ceiling_admitted c else c)"

definition intake_commit :: "intake_env \<Rightarrow> uuid7 \<Rightarrow> asked \<Rightarrow> string \<Rightarrow> string \<Rightarrow> intake_state
    \<Rightarrow> (intake_error, ledger_answer) result \<times> intake_state" where
  "intake_commit env row_id a k digest st =
     (let ff = env_faults env;
          (estimate, c) = deployment_estimate (env_budgets env) (env_backlog env) (env_now_ms env) (env_gaps env) (in_ceiling st);
          st1 = st\<lparr>in_ceiling := c\<rparr> in
      case faulted (at_acquire ff) (faulted (at_begin ff)
          (insert_on ff (env_budgets env) (in_db st) (as_str row_id) a k digest estimate (env_now env))) of
        Inl e \<Rightarrow> (Inl e, st1)
      | Inr (db', l) \<Rightarrow> (case at_commit ff of
            Committed \<Rightarrow> (Inr l, \<lparr>in_db = db', in_ceiling = counted_in l (env_gaps env 11 c)\<rparr>)
          | CommitRefused e \<Rightarrow> (Inl e, st1)
          | CommittedUnheard e \<Rightarrow> (Inl e, st1\<lparr>in_db := db'\<rparr>)))"

definition admit :: "intake_env \<Rightarrow> asked \<Rightarrow> intake_state \<Rightarrow> (intake_error, admitted_answer) result \<times> intake_state" where
  "admit env a st = (case env_row_id env of Inl _ \<Rightarrow> (Inl IntakeEntropy, st)
     | Inr row_id \<Rightarrow> (case intake_commit env row_id a (key_of (ask_key a) row_id) (payload_digest (env_sha env) a) st of
           (Inl e, st') \<Rightarrow> (Inl e, st')
         | (Inr l, st') \<Rightarrow> (Inr \<lparr>aa_replayed = \<not> la_inserted l, aa_stored = la_row l\<rparr>, st')))"

text \<open>Staging inserts on the caller's transaction, from what \<open>prepare\<close> drew and read outside it; whether
  that transaction commits is the caller's.\<close>

record prepared_admission =
  prep_asked :: asked
  prep_row_id :: uuid7
  prep_estimate :: nat

definition prepare_admission :: "intake_env \<Rightarrow> asked \<Rightarrow> ceiling \<Rightarrow> (intake_error, prepared_admission) result \<times> ceiling" where
  "prepare_admission env a c = (case env_row_id env of Inl _ \<Rightarrow> (Inl IntakeEntropy, c)
     | Inr row_id \<Rightarrow> let (estimate, c') = deployment_estimate (env_budgets env) (env_backlog env) (env_now_ms env) (env_gaps env) c
         in (Inr \<lparr>prep_asked = a, prep_row_id = row_id, prep_estimate = estimate\<rparr>, c'))"

definition stage :: "intake_env \<Rightarrow> prepared_admission \<Rightarrow> intake_state \<Rightarrow> (intake_error, admitted_answer) result \<times> intake_state" where
  "stage env q st =
     (case insert_on (env_faults env) (env_budgets env) (in_db st) (as_str (prep_row_id q)) (prep_asked q)
         (key_of (ask_key (prep_asked q)) (prep_row_id q)) (payload_digest (env_sha env) (prep_asked q))
         (prep_estimate q) (env_now env) of
        Inl e \<Rightarrow> (Inl e, st)
      | Inr (db', l) \<Rightarrow> (Inr \<lparr>aa_replayed = \<not> la_inserted l, aa_stored = la_row l\<rparr>,
          \<lparr>in_db = db', in_ceiling = counted_in l (in_ceiling st)\<rparr>))"

definition find_repeated :: "intake_env \<Rightarrow> producer \<Rightarrow> string \<Rightarrow> intake_db \<Rightarrow> (intake_error, admission_row option) result" where
  "find_repeated env p k db = faulted (at_find (env_faults env)) (Inr (repeated_sql db (producer_as_str p) k))"

definition confirm :: "intake_env \<Rightarrow> producer \<Rightarrow> string \<Rightarrow> intake_db \<Rightarrow> (intake_error, string option) result" where
  "confirm env p k db = res_bind (find_repeated env p k db) (\<lambda>r. Inr (map_option ad_id r))"

end
