(* ===== verification/Waits.thy ===== *)
theory Waits
  imports Publications Intake
begin

text \<open>
  Waiting on other people's checks: \<open>afd_fleet/src/task/waits/\<close>, \<open>task/github/status.rs\<close> and
  \<open>task/continuation.rs\<close>.  A task that waits owns a row that names the exact head whose checks it awaits; a
  sweep claims a due row, reads the checks and either keeps waiting or admits one continuation.  A signed
  completion is kept in an inbox and signals the waits it matches, one per transaction.  A transaction runs at
  one instant; which rows another transaction holds, the entropy's draws, the digest and the classification of
  an error are arguments.  Counters that move by one per transition are taken to stay below the column's width.
\<close>

section \<open>Evidence\<close>

record check =
  ck_workflow :: u64
  ck_run :: "u64 option"
  ck_number :: "u64 option"
  ck_attempt :: "u32 option"
  ck_status :: string
  ck_conclusion :: "string option"

record evidence =
  sp_open :: bool
  sp_head :: string
  sp_checks :: "check list"

definition ck_completed :: "check \<Rightarrow> bool" where "ck_completed c \<longleftrightarrow> ck_status c = ''completed''"

definition checks_finished :: "bound_pr \<Rightarrow> evidence \<Rightarrow> bool" where
  "checks_finished p s \<longleftrightarrow> sp_open s \<and> sp_head s = pr_head p \<and> sp_checks s \<noteq> []
     \<and> length (sp_checks s) = length (pr_workflows p) \<and> list_all ck_completed (sp_checks s)"

definition all_green :: "bound_pr \<Rightarrow> evidence \<Rightarrow> bool" where
  "all_green p s \<longleftrightarrow> sp_open s \<and> sp_head s = pr_head p \<and> sp_checks s \<noteq> []
     \<and> length (sp_checks s) = length (pr_workflows p)
     \<and> list_all (\<lambda>c. ck_completed c \<and> ck_conclusion c = Some ''success'') (sp_checks s)"

record execution =
  ex_id :: u64
  ex_workflow :: u64
  ex_attempt :: u32
  ex_number :: u64
  ex_head :: string
  ex_status :: string
  ex_conclusion :: "string option"

definition run_after :: "execution \<Rightarrow> execution \<Rightarrow> bool" where
  "run_after r e \<longleftrightarrow> ex_number e < ex_number r \<or> (ex_number e = ex_number r
     \<and> (ex_attempt e < ex_attempt r \<or> (ex_attempt e = ex_attempt r \<and> ex_id e < ex_id r)))"

fun latest_runs :: "string \<Rightarrow> execution list \<Rightarrow> (u64 \<rightharpoonup> execution) \<Rightarrow> (u64 \<rightharpoonup> execution) answer" where
  "latest_runs head [] m = Inr m"
| "latest_runs head (r # rs) m = (if ex_head r \<noteq> head \<or> ex_id r = 0 \<or> ex_attempt r = 0 then invalid_target
     else latest_runs head rs (case m (ex_workflow r) of None \<Rightarrow> m(ex_workflow r \<mapsto> r)
       | Some e \<Rightarrow> if run_after r e then m(ex_workflow r \<mapsto> r) else m))"

definition check_of :: "(u64 \<rightharpoonup> execution) \<Rightarrow> workflow \<Rightarrow> check" where
  "check_of latest w = (case latest (wf_id w) of
       Some r \<Rightarrow> \<lparr>ck_workflow = wf_id w, ck_run = Some (ex_id r), ck_number = Some (ex_number r), ck_attempt = Some (ex_attempt r),
         ck_status = ex_status r, ck_conclusion = ex_conclusion r\<rparr>
     | None \<Rightarrow> \<lparr>ck_workflow = wf_id w, ck_run = None, ck_number = None, ck_attempt = None, ck_status = ''pending'',
         ck_conclusion = None\<rparr>)"

text \<open>\<open>Session::status\<close>; the runs of a head are a second request's answer.\<close>

definition pr_status :: "(string \<Rightarrow> string \<Rightarrow> string \<Rightarrow> (u64 \<times> execution list) answer) \<Rightarrow> session \<Rightarrow> bound_pr \<Rightarrow> evidence answer" where
  "pr_status runs ss p =
     (if ss_installation ss \<noteq> pr_installation_id p then invalid_target
      else res_bind (read_credential ss) (\<lambda>_.
        res_bind (owner_name (pr_repository p)) (\<lambda>(owner, name).
        res_bind (ss_pull ss owner name (pr_number p)) (\<lambda>pr.
        if pl_number pr \<noteq> pr_number p \<or> gr_id (ge_repo (pl_base pr)) \<noteq> pr_repository_id p
           \<or> gr_id (ge_repo (pl_head pr)) \<noteq> pr_repository_id p
           \<or> \<not> eq_ignore_ascii_case (gr_full_name (ge_repo (pl_base pr))) (pr_repository p)
           \<or> ge_ref (pl_head pr) \<noteq> pr_branch p \<or> ge_ref (pl_base pr) \<noteq> pr_base p
        then invalid_target
        else let is_open = (pl_state pr = ''open'' \<and> \<not> pl_merged pr) in
          if \<not> is_open \<or> ge_sha (pl_head pr) \<noteq> pr_head p
          then Inr \<lparr>sp_open = is_open, sp_head = ge_sha (pl_head pr), sp_checks = []\<rparr>
          else res_bind (runs owner name (pr_head p)) (\<lambda>(total, listed).
            if 100 < uint total \<or> int (length listed) \<noteq> uint total then invalid_target
            else res_bind (latest_runs (pr_head p) listed Map.empty) (\<lambda>latest.
              Inr \<lparr>sp_open = is_open, sp_head = ge_sha (pl_head pr), sp_checks = map (check_of latest) (pr_workflows p)\<rparr>))))))"

section \<open>The tables\<close>

record wait =
  wt_id :: string
  wt_task :: string
  wt_fleet :: string
  wt_workspace :: string
  wt_lease :: string
  wt_task_generation :: int
  wt_stop_generation :: int
  wt_generation :: int
  wt_installation :: int
  wt_repository :: int
  wt_number :: int
  wt_head :: string
  wt_checks :: "check list"
  wt_digest :: string
  wt_due_at :: instant
  wt_expires_at :: instant
  wt_cooldown :: instant
  wt_fallbacks :: int
  wt_initial_read :: "instant option"
  wt_signalled_at :: "instant option"
  wt_observed_at :: "instant option"
  wt_signals :: int
  wt_observed :: int
  wt_claim :: "(string \<times> instant) option"
  wt_consumed :: "(instant \<times> string) option"
  wt_cancelled :: "instant option"

text \<open>The columns of a task only this part reads, by the task's identifier.\<close>

record task_columns =
  tc_task :: string
  tc_used_fallback :: int
  tc_max_fallback :: int
  tc_wait_sequence :: "int option"
  tc_reason :: "string option"
  tc_reply_provider :: "string option"
  tc_reply_address :: "string option"
  tc_source :: string

record completion =
  cp_id :: string
  cp_workspace :: string
  cp_fleet :: "string option"
  cp_installation :: int
  cp_repository :: int
  cp_head :: string
  cp_workflow :: int
  cp_run :: int
  cp_run_number :: int
  cp_attempt :: int
  cp_conclusion :: string
  cp_digest :: string
  cp_received_at :: instant

record fanout =
  fo_completion :: string
  fo_after :: "string option"
  fo_next_at :: instant
  fo_finished :: "instant option"

text \<open>The tables of a task's publications and of the admission ledger beside them; which admissions a lease was
  issued for is the lease store's.\<close>

record 'k wait_db =
  wd_pub :: "'k pub_db"
  wd_columns :: "task_columns list"
  wd_waits :: "wait list"
  wd_completions :: "completion list"
  wd_fanout :: "fanout list"
  wd_intake :: intake_state
  wd_leased :: "string \<Rightarrow> bool"

definition open_wait :: "wait \<Rightarrow> bool" where "open_wait w \<longleftrightarrow> wt_consumed w = None \<and> wt_cancelled w = None"

definition columns_of :: "'k wait_db \<Rightarrow> string \<Rightarrow> task_columns option" where
  "columns_of db i = List.find (\<lambda>c. tc_task c = i) (wd_columns db)"

definition update_columns :: "string \<Rightarrow> (task_columns \<Rightarrow> task_columns) \<Rightarrow> 'k wait_db \<Rightarrow> 'k wait_db" where
  "update_columns i f db = db\<lparr>wd_columns := map (\<lambda>c. if tc_task c = i then f c else c) (wd_columns db)\<rparr>"

definition update_waits :: "(wait \<Rightarrow> bool) \<Rightarrow> (wait \<Rightarrow> wait) \<Rightarrow> 'k wait_db \<Rightarrow> 'k wait_db" where
  "update_waits sel f db = db\<lparr>wd_waits := map (\<lambda>w. if sel w then f w else w) (wd_waits db)\<rparr>"

section \<open>Arming and cancelling\<close>

definition signed_target :: "string \<Rightarrow> int \<Rightarrow> int answer" where
  "signed_target column n = ok_or (OnTask (TaskCounter column)) (try_i64 n)"

definition wait_checks :: "wait \<Rightarrow> wait list \<Rightarrow> bool" where
  "wait_checks w ws \<longleftrightarrow> 0 < wt_task_generation w \<and> 0 \<le> wt_stop_generation w \<and> 0 < wt_generation w \<and> 0 < wt_installation w
     \<and> 0 < wt_repository w \<and> 0 < wt_number w
     \<and> list_all (\<lambda>o'. wt_id o' \<noteq> wt_id w \<and> wt_lease o' \<noteq> wt_lease w
         \<and> \<not> (wt_task o' = wt_task w \<and> (wt_generation o' = wt_generation w \<or> open_wait o'))) ws"

text \<open>\<open>waits::arm\<close> over \<open>arm.sql\<close>: the sequence is allocated on the task's row.\<close>

definition arm :: "(evidence \<Rightarrow> string) \<Rightarrow> uuid7 answer \<Rightarrow> instant \<Rightarrow> string \<Rightarrow> string \<Rightarrow> bound_pr \<Rightarrow> evidence \<Rightarrow> 'k wait_db
    \<Rightarrow> (unit \<times> 'k wait_db) answer" where
  "arm digest fresh now task lease p seen db =
     res_bind fresh (\<lambda>i.
     res_bind (signed_target ''installation_id'' (uint (pr_installation_id p))) (\<lambda>installation.
     res_bind (signed_target ''repository_id'' (uint (pr_repository_id p))) (\<lambda>repository.
     if i32_max < uint (pr_number p) then Inl (OnTask (TaskCounter ''number''))
     else case (pd_tasks (wd_pub db) task, columns_of db task) of
       (Some t, Some c) \<Rightarrow>
         (let n = (case tc_wait_sequence c of None \<Rightarrow> 1 | Some k \<Rightarrow> k + 1);
              w = \<lparr>wt_id = as_str i, wt_task = task, wt_fleet = t_fleet_id t, wt_workspace = t_workspace_id t, wt_lease = lease,
                wt_task_generation = t_generation t, wt_stop_generation = t_stop_generation t, wt_generation = n,
                wt_installation = installation, wt_repository = repository, wt_number = uint (pr_number p), wt_head = pr_head p,
                wt_checks = sp_checks seen, wt_digest = digest seen, wt_due_at = now, wt_expires_at = t_expires_at t,
                wt_cooldown = now, wt_fallbacks = 0, wt_initial_read = None, wt_signalled_at = None, wt_observed_at = None,
                wt_signals = 0, wt_observed = 0, wt_claim = None, wt_consumed = None, wt_cancelled = None\<rparr> in
          if wait_checks w (wd_waits db)
          then Inr ((), (update_columns task (\<lambda>c. c\<lparr>tc_wait_sequence := Some n\<rparr>) db)\<lparr>wd_waits := wd_waits db @ [w]\<rparr>)
          else Inl (OnTask DecisionQuery))
     | _ \<Rightarrow> Inr ((), db))))"

definition cancel_waits :: "instant \<Rightarrow> string \<Rightarrow> 'k wait_db \<Rightarrow> 'k wait_db" where
  "cancel_waits now task = update_waits (\<lambda>w. wt_task w = task \<and> open_wait w) (\<lambda>w. w\<lparr>wt_cancelled := Some now\<rparr>)"

section \<open>Moving a task\<close>

definition over_tasks :: "('k pub_db \<Rightarrow> 'k pub_db) \<Rightarrow> 'k wait_db \<Rightarrow> 'k wait_db" where
  "over_tasks f db = db\<lparr>wd_pub := f (wd_pub db)\<rparr>"

definition over_ledger :: "(intake_db \<Rightarrow> intake_db) \<Rightarrow> 'k wait_db \<Rightarrow> 'k wait_db" where
  "over_ledger f db = db\<lparr>wd_intake := (wd_intake db)\<lparr>in_db := f (in_db (wd_intake db))\<rparr>\<rparr>"

text \<open>The ledger's view of a task is its generation and whether it is over.\<close>

definition move_head :: "string \<Rightarrow> int \<Rightarrow> bool \<Rightarrow> intake_db \<Rightarrow> intake_db" where
  "move_head task g over idb = idb\<lparr>task_heads := map (\<lambda>h. if th_id h = task then h\<lparr>th_generation := g, th_terminal := over\<rparr> else h)
     (task_heads idb)\<rparr>"

definition moved :: "instant \<Rightarrow> task_state \<Rightarrow> pub_task \<Rightarrow> pub_task" where
  "moved now st t = t\<lparr>t_status := task_state_as_str st, t_generation := t_generation t + 1, t_stop_generation := t_stop_generation t + 1,
     t_resource_version := t_resource_version t + 1, t_terminal_at := (if is_terminal st then Some now else t_terminal_at t),
     t_checkpoint_cleanup_at := Some now\<rparr>"

definition transition_sql :: "instant \<Rightarrow> string \<Rightarrow> task_state \<Rightarrow> string option \<Rightarrow> 'k wait_db \<Rightarrow> 'k wait_db" where
  "transition_sql now task st reason db = (case pd_tasks (wd_pub db) task of None \<Rightarrow> db
     | Some t \<Rightarrow> over_ledger (move_head task (t_generation (moved now st t)) (t_terminal_at (moved now st t) \<noteq> None))
         (update_columns task (\<lambda>c. c\<lparr>tc_reason := reason\<rparr>) (over_tasks (update_task task (moved now st)) db)))"

text \<open>\<open>retire_continuations.sql\<close>.\<close>

definition obsolete :: "'k wait_db \<Rightarrow> string \<Rightarrow> pub_task \<Rightarrow> Intake.admission_row \<Rightarrow> bool" where
  "obsolete db task t r \<longleftrightarrow> ad_task r = Some task \<and> ad_fleet r = t_fleet_id t \<and> ad_workspace r = t_workspace_id t
     \<and> ad_settled_at r = None \<and> ad_producer r = producer_as_str TaskContinuation \<and> ad_generation r \<noteq> Some (t_generation t)
     \<and> \<not> wd_leased db (ad_id r)"

definition retire :: "instant \<Rightarrow> string \<Rightarrow> 'k wait_db \<Rightarrow> 'k wait_db" where
  "retire now task db = (case pd_tasks (wd_pub db) task of None \<Rightarrow> db
     | Some t \<Rightarrow> over_ledger (\<lambda>idb. idb\<lparr>ledger_rows := map (\<lambda>r. if obsolete db task t r then r\<lparr>ad_settled_at := Some now\<rparr> else r)
         (ledger_rows idb)\<rparr>) db)"

definition stop_wait :: "instant \<Rightarrow> string \<Rightarrow> task_state \<Rightarrow> string \<Rightarrow> 'k wait_db \<Rightarrow> 'k wait_db" where
  "stop_wait now task st reason db = retire now task (transition_sql now task st (Some reason) (cancel_waits now task db))"

text \<open>\<open>control_admission.sql\<close>.\<close>

definition bind_admission :: "string \<Rightarrow> string \<Rightarrow> 'k wait_db \<Rightarrow> 'k wait_db" where
  "bind_admission task i db = (case pd_tasks (wd_pub db) task of None \<Rightarrow> db
     | Some t \<Rightarrow> over_ledger (\<lambda>idb. idb\<lparr>ledger_rows := map (\<lambda>r. if ad_id r = i \<and> ad_task r = None \<and> ad_fleet r = t_fleet_id t
           \<and> ad_workspace r = t_workspace_id t then r\<lparr>ad_task := Some task, ad_generation := Some (t_generation t)\<rparr> else r)
         (ledger_rows idb)\<rparr>) db)"

section \<open>The current owner\<close>

text \<open>\<open>owner.sql\<close>: an open wait with what is live of its task, which the claim keeps until its read is over.\<close>

record wait_view =
  wv_row :: wait
  wv_status :: string
  wv_generation :: int
  wv_stop_generation :: int
  wv_revision :: string
  wv_target :: bound_pr
  wv_used_fallback :: int
  wv_max_fallback :: int
  wv_reply_provider :: "string option"
  wv_reply_address :: "string option"
  wv_source :: string
  wv_within_limits :: bool
  wv_due :: bool
  wv_claim_valid :: bool

definition within_limits :: "instant \<Rightarrow> pub_task \<Rightarrow> bool" where
  "within_limits now t \<longleftrightarrow> now < t_expires_at t \<and> used_model_nanos t < max_model_nanos t - reserved_model_nanos t
     \<and> used_running_nanos t < max_running_nanos t \<and> pt_used_leases t < pt_max_leases t"

definition view_of :: "instant \<Rightarrow> wait \<Rightarrow> pub_task \<Rightarrow> bound_pr \<Rightarrow> task_columns \<Rightarrow> wait_view" where
  "view_of now w t p c = \<lparr>wv_row = w, wv_status = t_status t, wv_generation = t_generation t, wv_stop_generation = t_stop_generation t,
     wv_revision = pt_accepted_revision t, wv_target = p, wv_used_fallback = tc_used_fallback c, wv_max_fallback = tc_max_fallback c,
     wv_reply_provider = tc_reply_provider c, wv_reply_address = tc_reply_address c, wv_source = tc_source c,
     wv_within_limits = within_limits now t, wv_due = (wt_due_at w \<le> now \<and> wt_cooldown w \<le> now),
     wv_claim_valid = (case wt_claim w of None \<Rightarrow> False | Some (_, until) \<Rightarrow> now < until)\<rparr>"

definition wait_owner :: "instant \<Rightarrow> (string \<Rightarrow> bool) \<Rightarrow> string \<Rightarrow> 'k wait_db \<Rightarrow> wait_view option answer" where
  "wait_owner now locked i db = (case List.find (\<lambda>w. wt_id w = i \<and> open_wait w) (wd_waits db) of None \<Rightarrow> Inr None
     | Some w \<Rightarrow> if locked i then Inr None
         else (case (task_at (wd_pub db) (wt_task w) (wt_fleet w) (wt_workspace w), columns_of db (wt_task w)) of
             (Some t, Some c) \<Rightarrow> (case pt_target t of ApiOnly \<Rightarrow> Inl (OnTask DecisionQuery)
               | ExistingPr p \<Rightarrow> Inr (Some (view_of now w t p c)))
           | _ \<Rightarrow> Inr None))"

definition current :: "wait_view \<Rightarrow> bool" where
  "current v \<longleftrightarrow> (let w = wv_row v; p = wv_target v in wv_status v = task_state_as_str TsWaiting
     \<and> wt_task_generation w = wv_generation v \<and> wt_stop_generation w = wv_stop_generation v
     \<and> uint (pr_installation_id p) = \<bar>wt_installation w\<bar> \<and> uint (pr_repository_id p) = \<bar>wt_repository w\<bar>
     \<and> uint (pr_number p) = \<bar>wt_number w\<bar> \<and> pr_head p = wt_head w)"

definition signalled :: "wait \<Rightarrow> bool" where "signalled w \<longleftrightarrow> wt_observed w < wt_signals w"
definition fallback :: "wait \<Rightarrow> bool" where "fallback w \<longleftrightarrow> wt_initial_read w \<noteq> None \<and> \<not> signalled w"

text \<open>\<open>claim::authority\<close>: the accepted revision still allows the target, and so does the one in force.\<close>

definition read_authority :: "wait_view \<Rightarrow> 'k wait_db \<Rightarrow> repository_binding answer" where
  "read_authority v db = (let pub = wd_pub db; w = wv_row v; p = wv_target v in
     res_bind (binding_of pub (wt_fleet w) (Some (wv_revision v))) (\<lambda>kept.
     res_bind (pr_within p kept) (\<lambda>_.
     res_bind (binding_of pub (wt_fleet w) None) (\<lambda>live.
     res_bind (pr_within p live) (\<lambda>_.
     res_bind (guard_id (wt_fleet w)) (\<lambda>fleet.
     res_bind (guard_id (wt_workspace w)) (\<lambda>ws.
     res_bind (hold_authority pub (as_str fleet) (as_str ws) (pr_installation_id p)) (\<lambda>_.
     case Option.bind live (\<lambda>b. rb_read_repository b (pr_repository p)) of None \<Rightarrow> invalid_target | Some b \<Rightarrow> Inr b))))))))"

section \<open>Claiming a read\<close>

definition claim_ttl :: int where "claim_ttl = 30"

record candidate =
  cd_id :: string
  cd_task :: string
  cd_fleet :: string
  cd_workspace :: string

record read_permit =
  rp_workspace :: string
  rp_fleet :: string
  rp_event :: string
  rp_binding :: repository_binding
  rp_installation :: u64
  rp_deadline :: instant

record claimed_wait =
  cw_owner :: wait_view
  cw_claim :: string
  cw_permit :: read_permit

definition lock_scope :: "string \<Rightarrow> string \<Rightarrow> 'k wait_db \<Rightarrow> unit answer" where
  "lock_scope fleet ws db = (case pd_fleets (wd_pub db) fleet of None \<Rightarrow> Inl (OnTask (TaskRefused NotFound))
     | Some f \<Rightarrow> if f_workspace_id f \<noteq> ws then Inl (OnTask (TaskRefused NotFound)) else Inr ())"

definition charge_sql :: "string \<Rightarrow> 'k wait_db \<Rightarrow> 'k wait_db" where
  "charge_sql task db = update_columns task (\<lambda>c. c\<lparr>tc_used_fallback := tc_used_fallback c + 1,
       tc_reason := (if tc_max_fallback c \<le> tc_used_fallback c + 1 then Some ''dependency_read_limit'' else tc_reason c)\<rparr>)
     (over_tasks (update_task task (\<lambda>t. t\<lparr>t_resource_version := t_resource_version t + 1\<rparr>)) db)"

definition claim_row :: "instant \<Rightarrow> string \<Rightarrow> int \<Rightarrow> wait \<Rightarrow> wait" where
  "claim_row now u extra w = w\<lparr>wt_claim := Some (u, now + from_secs claim_ttl),
     wt_initial_read := (case wt_initial_read w of None \<Rightarrow> Some now | Some at_instant \<Rightarrow> Some at_instant),
     wt_due_at := now + from_secs claim_ttl, wt_fallbacks := wt_fallbacks w + extra\<rparr>"

definition claim_sql :: "instant \<Rightarrow> string \<Rightarrow> string \<Rightarrow> int \<Rightarrow> 'k wait_db \<Rightarrow> 'k wait_db" where
  "claim_sql now i u extra = update_waits (\<lambda>w. wt_id w = i) (claim_row now u extra)"

definition permit_for :: "instant \<Rightarrow> string \<Rightarrow> string \<Rightarrow> wait_view \<Rightarrow> repository_binding \<Rightarrow> read_permit" where
  "permit_for now fleet ws v b = \<lparr>rp_workspace = ws, rp_fleet = fleet, rp_event = wt_id (wv_row v), rp_binding = b,
     rp_installation = pr_installation_id (wv_target v), rp_deadline = min (now + from_secs claim_ttl) (wt_expires_at (wv_row v))\<rparr>"

text \<open>\<open>claim::claim\<close>, past its locks: a wait that is over, out of limits, not due or without authority is not read.\<close>

definition claim_owned :: "(publish_error \<Rightarrow> bool) \<Rightarrow> uuid7 answer \<Rightarrow> instant \<Rightarrow> string \<Rightarrow> string \<Rightarrow> wait_view \<Rightarrow> 'k wait_db
    \<Rightarrow> (claimed_wait option \<times> 'k wait_db) answer" where
  "claim_owned unavailable fresh now fleet ws v db = (let w = wv_row v in
     if \<not> current v then Inr (None, cancel_waits now (wt_task w) db)
     else if \<not> wv_within_limits v then Inr (None, stop_wait now (wt_task w) TsExhausted ''cumulative_limit_reached'' db)
     else if \<not> wv_due v \<or> wv_claim_valid v \<or> (fallback w \<and> wv_max_fallback v \<le> wv_used_fallback v) then Inr (None, db)
     else case read_authority v db of
       Inl e \<Rightarrow> if unavailable e then Inl e
         else Inr (None, stop_wait now (wt_task w) TsBlocked ''dependency_access_unavailable'' db)
     | Inr b \<Rightarrow> res_bind fresh (\<lambda>u. Inr (Some \<lparr>cw_owner = v, cw_claim = as_str u, cw_permit = permit_for now fleet ws v b\<rparr>,
         claim_sql now (wt_id w) (as_str u) (if fallback w then 1 else 0) (if fallback w then charge_sql (wt_task w) db else db))))"

definition claim_wait :: "(publish_error \<Rightarrow> bool) \<Rightarrow> (string \<Rightarrow> bool) \<Rightarrow> uuid7 answer \<Rightarrow> instant \<Rightarrow> candidate \<Rightarrow> 'k wait_db
    \<Rightarrow> (claimed_wait option \<times> 'k wait_db) answer" where
  "claim_wait unavailable locked fresh now c db =
     res_bind (guard_id (cd_fleet c)) (\<lambda>fleet.
     res_bind (guard_id (cd_workspace c)) (\<lambda>ws.
     res_bind (lock_scope (as_str fleet) (as_str ws) db) (\<lambda>_.
     res_bind (wait_owner now locked (cd_id c) db) (\<lambda>found. case found of None \<Rightarrow> Inr (None, db)
       | Some v \<Rightarrow> claim_owned unavailable fresh now (as_str fleet) (as_str ws) v db))))"

section \<open>Finishing a read\<close>

record probe =
  pb_owner :: wait_view
  pb_claim :: string
  pb_result :: "evidence answer"

definition fresh_check :: "check list \<Rightarrow> check \<Rightarrow> bool" where "fresh_check prior c \<longleftrightarrow> ck_completed c \<and> c \<notin> set prior"

definition actionable :: "evidence \<Rightarrow> wait \<Rightarrow> bool" where
  "actionable s w \<longleftrightarrow> sp_open s \<and> sp_head s = wt_head w \<and> list_ex (fresh_check (wt_checks w)) (sp_checks s)"

text \<open>\<open>continuation.rs\<close>: the admission a wake asks for; its key is the task's generation after the wake.\<close>

definition provider_ids :: "string list" where "provider_ids = [''slack'', ''github'', ''zoho'', ''jira'', ''linear'']"

definition quoted :: "string \<Rightarrow> string" where "quoted t = CHR 0x22 # t @ [CHR 0x22]"

definition continuation_payload :: "string \<Rightarrow> int \<Rightarrow> string" where
  "continuation_payload task g = ''{'' @ quoted ''kind'' @ '':'' @ quoted ''task_continuation'' @ '','' @ quoted ''task_id'' @ '':'' @ quoted task
     @ '','' @ quoted ''generation'' @ '':'' @ int_string g @ ''}''"

definition continuation_key :: "string \<Rightarrow> int \<Rightarrow> string" where "continuation_key task g = task @ '':'' @ int_string g"

definition recorded_reply :: "string option \<Rightarrow> string option \<Rightarrow> reply answer" where
  "recorded_reply connector address = (case (connector, address) of (None, None) \<Rightarrow> Inr NoReply
     | (Some p, Some a) \<Rightarrow> if p \<in> set provider_ids then Inr (ReplyTo p a) else invalid_target
     | _ \<Rightarrow> invalid_target)"

definition wake_of :: "wait_view \<Rightarrow> asked answer" where
  "wake_of v = (let w = wv_row v in
     res_bind (guard_id (wt_fleet w)) (\<lambda>fleet.
     res_bind (guard_id (wt_workspace w)) (\<lambda>ws.
     res_bind (guard_id (wt_task w)) (\<lambda>task.
     if wt_task_generation w < 0 then Inl (OnTask (TaskRefused LimitExhausted))
     else res_bind (guard_id (wv_source v)) (\<lambda>_.
     res_bind (recorded_reply (wv_reply_provider v) (wv_reply_address v)) (\<lambda>destination.
       Inr \<lparr>ask_producer = TaskContinuation, ask_key = Repeated (continuation_key (as_str task) (wt_task_generation w + 1)),
         ask_fleet = as_str fleet, ask_workspace = as_str ws, ask_actor = ''task:'' @ as_str task, ask_event_type = ContinuationEvent,
         ask_request = continuation_payload (as_str task) (wt_task_generation w + 1), ask_reply = destination\<rparr>))))))"

definition retry_delay_secs :: "int \<Rightarrow> int" where
  "retry_delay_secs n = (if n = 0 then 60 else if n = 1 then 120 else if n = 2 then 240 else 300)"

text \<open>\<open>update.sql\<close>: only the signals the claim saw are consumed; one that came since stays due.\<close>

definition updated :: "instant \<Rightarrow> check list \<Rightarrow> string \<Rightarrow> instant option \<Rightarrow> instant \<Rightarrow> int \<Rightarrow> int \<Rightarrow> wait \<Rightarrow> wait" where
  "updated now checks digest seen_at cooldown delay seen w = w\<lparr>wt_checks := checks, wt_digest := digest, wt_observed_at := seen_at,
     wt_observed := seen, wt_cooldown := max (wt_cooldown w) cooldown,
     wt_due_at := max (max (wt_cooldown w) cooldown) (if seen < wt_signals w then now else now + from_secs delay), wt_claim := None\<rparr>"

definition claimed_by :: "string \<Rightarrow> string \<Rightarrow> wait \<Rightarrow> bool" where
  "claimed_by i u w \<longleftrightarrow> wt_id w = i \<and> map_option fst (wt_claim w) = Some u \<and> open_wait w"

definition keep_waiting :: "(evidence \<Rightarrow> string) \<Rightarrow> instant \<Rightarrow> wait_view \<Rightarrow> probe \<Rightarrow> evidence option \<Rightarrow> instant option \<Rightarrow> 'k wait_db \<Rightarrow> 'k wait_db" where
  "keep_waiting digest now v pb seen cooldown =
     update_waits (claimed_by (wt_id (wv_row v)) (pb_claim pb))
       (updated now (case seen of None \<Rightarrow> wt_checks (wv_row v) | Some s \<Rightarrow> sp_checks s)
         (case seen of None \<Rightarrow> wt_digest (wv_row v) | Some s \<Rightarrow> digest s) (wt_signalled_at (wv_row (pb_owner pb)))
         (case cooldown of None \<Rightarrow> now | Some until \<Rightarrow> until) (retry_delay_secs (wt_fallbacks (wv_row v))) (wt_signals (wv_row (pb_owner pb))))"

definition consumed :: "instant \<Rightarrow> string \<Rightarrow> check list \<Rightarrow> string \<Rightarrow> wait \<Rightarrow> wait" where
  "consumed now admission checks digest w = w\<lparr>wt_consumed := Some (now, admission), wt_claim := None, wt_checks := checks, wt_digest := digest\<rparr>"

record wait_env =
  we_digest :: "evidence \<Rightarrow> string"
  we_unavailable :: "publish_error \<Rightarrow> bool"
  we_cooldown :: "publish_error \<Rightarrow> instant option"
  we_locked :: "string \<Rightarrow> bool"
  we_intake :: intake_env
  we_fault :: "intake_error \<Rightarrow> publish_error"

text \<open>\<open>finish::consume\<close>: a refused admission blocks the task, and its savepoint leaves nothing else behind.\<close>

definition consume :: "wait_env \<Rightarrow> instant \<Rightarrow> wait_view \<Rightarrow> string \<Rightarrow> prepared_admission option \<Rightarrow> evidence \<Rightarrow> 'k wait_db
    \<Rightarrow> (bool \<times> 'k wait_db) answer" where
  "consume env now v u prepared s db = (let w = wv_row v; task = wt_task w in
     case prepared of None \<Rightarrow> stale_state
     | Some q \<Rightarrow> (case Intake.stage (we_intake env) q (wd_intake db) of
         (Inl e, _) \<Rightarrow> if is_over_capacity e \<or> e = PolicyRefused
           then Inr (False, stop_wait now task TsBlocked ''continuation_unavailable'' db) else Inl (we_fault env e)
       | (Inr a, st) \<Rightarrow> let i = ad_id (aa_stored a) in
           Inr (True, update_waits (claimed_by (wt_id w) u) (consumed now i (sp_checks s) (we_digest env s))
             (bind_admission task i (retire now task (transition_sql now task TsReady None (db\<lparr>wd_intake := st\<rparr>)))))))"

definition apply_probe :: "wait_env \<Rightarrow> instant \<Rightarrow> wait_view \<Rightarrow> probe \<Rightarrow> prepared_admission option \<Rightarrow> 'k wait_db \<Rightarrow> (bool \<times> 'k wait_db) answer" where
  "apply_probe env now v pb prepared db = (let w = wv_row v in
     if \<not> wv_within_limits v then Inr (False, stop_wait now (wt_task w) TsExhausted ''cumulative_limit_reached'' db)
     else case read_authority v db of
       Inl e \<Rightarrow> if we_unavailable env e then Inl e
         else Inr (False, stop_wait now (wt_task w) TsBlocked ''dependency_access_unavailable'' db)
     | Inr _ \<Rightarrow> (case pb_result pb of
         Inl e \<Rightarrow> Inr (False, keep_waiting (we_digest env) now v pb None (we_cooldown env e) db)
       | Inr s \<Rightarrow>
           if \<not> sp_open s \<or> sp_head s \<noteq> wt_head w
           then Inr (False, stop_wait now (wt_task w) TsBlocked
             (if sp_open s then ''pull_request_head_changed'' else ''pull_request_closed'') db)
           else if actionable s w then consume env now v (pb_claim pb) prepared s db
           else Inr (False, keep_waiting (we_digest env) now v pb (Some s) None db)))"

text \<open>The admission is prepared before the transaction, for a probe that may wake.\<close>

definition prepare_wake :: "wait_env \<Rightarrow> probe \<Rightarrow> ceiling \<Rightarrow> prepared_admission option answer \<times> ceiling" where
  "prepare_wake env pb c = (case wake_of (pb_owner pb) of Inl e \<Rightarrow> (Inl e, c)
     | Inr a \<Rightarrow> (case pb_result pb of Inl _ \<Rightarrow> (Inr None, c)
       | Inr s \<Rightarrow> if actionable s (wv_row (pb_owner pb))
           then (case prepare_admission (we_intake env) a c of (Inl e, c') \<Rightarrow> (Inl (we_fault env e), c') | (Inr q, c') \<Rightarrow> (Inr (Some q), c'))
           else (Inr None, c)))"

definition finish_wait :: "wait_env \<Rightarrow> instant \<Rightarrow> probe \<Rightarrow> prepared_admission option \<Rightarrow> 'k wait_db \<Rightarrow> (bool \<times> 'k wait_db) answer" where
  "finish_wait env now pb prepared db = (let w = wv_row (pb_owner pb) in
     res_bind (lock_scope (wt_fleet w) (wt_workspace w) db) (\<lambda>_.
     res_bind (wait_owner now (we_locked env) (wt_id w) db) (\<lambda>found. case found of None \<Rightarrow> Inr (False, db)
       | Some v \<Rightarrow> if \<not> current v \<or> \<not> wv_claim_valid v \<or> map_option fst (wt_claim (wv_row v)) \<noteq> Some (pb_claim pb) then Inr (False, db)
           else apply_probe env now v pb prepared db)))"

section \<open>The inbox of completions\<close>

record verified_completion =
  vc_workspace :: uuid7
  vc_fleet :: "uuid7 option"
  vc_installation :: u64
  vc_repository :: u64
  vc_head :: string
  vc_workflow :: u64
  vc_run :: u64
  vc_run_number :: u64
  vc_attempt :: u32
  vc_conclusion :: string
  vc_digest :: string

definition positive_i64 :: "u64 \<Rightarrow> bool" where "positive_i64 n \<longleftrightarrow> 1 \<le> uint n \<and> uint n \<le> i64_max"

definition completion_valid :: "verified_completion \<Rightarrow> bool" where
  "completion_valid v \<longleftrightarrow> positive_i64 (vc_installation v) \<and> positive_i64 (vc_repository v) \<and> object_name (vc_head v)
     \<and> positive_i64 (vc_workflow v) \<and> positive_i64 (vc_run v) \<and> positive_i64 (vc_run_number v)
     \<and> 1 \<le> uint (vc_attempt v) \<and> uint (vc_attempt v) \<le> i32_max
     \<and> 1 \<le> length (vc_conclusion v) \<and> length (vc_conclusion v) \<le> 64
     \<and> list_all (\<lambda>c. byte_in 0x61 0x7A c \<or> c = CHR ''_'') (vc_conclusion v)
     \<and> length (vc_digest v) = 64 \<and> list_all (\<lambda>c. byte_in 0x30 0x39 c \<or> byte_in 0x61 0x66 c) (vc_digest v)"

definition concerns_a_task :: "verified_completion \<Rightarrow> 'k wait_db \<Rightarrow> bool" where
  "concerns_a_task v db \<longleftrightarrow> list_ex (\<lambda>c. case pd_tasks (wd_pub db) (tc_task c) of None \<Rightarrow> False
     | Some t \<Rightarrow> t_workspace_id t = as_str (vc_workspace v) \<and> (case vc_fleet v of None \<Rightarrow> True | Some f \<Rightarrow> t_fleet_id t = as_str f)
         \<and> (case pt_target t of ApiOnly \<Rightarrow> False | ExistingPr p \<Rightarrow> pr_installation_id p = vc_installation v
              \<and> pr_repository_id p = vc_repository v \<and> pr_head p = vc_head v)
         \<and> t_terminal_at t = None) (wd_columns db)"

definition same_run :: "completion \<Rightarrow> completion \<Rightarrow> bool" where
  "same_run a b \<longleftrightarrow> cp_workspace a = cp_workspace b \<and> cp_fleet a = cp_fleet b \<and> cp_installation a = cp_installation b
     \<and> cp_repository a = cp_repository b \<and> cp_run a = cp_run b \<and> cp_attempt a = cp_attempt b"

text \<open>\<open>completion::record\<close> over \<open>completion.sql\<close>: one receipt per attempt of a run, with its fan-out cursor.\<close>

definition received :: "instant \<Rightarrow> string \<Rightarrow> verified_completion \<Rightarrow> completion" where
  "received now i v = \<lparr>cp_id = i, cp_workspace = as_str (vc_workspace v), cp_fleet = map_option as_str (vc_fleet v),
     cp_installation = uint (vc_installation v), cp_repository = uint (vc_repository v), cp_head = vc_head v,
     cp_workflow = uint (vc_workflow v), cp_run = uint (vc_run v), cp_run_number = uint (vc_run_number v),
     cp_attempt = uint (vc_attempt v), cp_conclusion = vc_conclusion v, cp_digest = vc_digest v, cp_received_at = now\<rparr>"

definition record_completion :: "uuid7 answer \<Rightarrow> instant \<Rightarrow> verified_completion \<Rightarrow> 'k wait_db \<Rightarrow> (nat \<times> 'k wait_db) answer" where
  "record_completion fresh now v db = (if \<not> completion_valid v then Inr (0, db)
     else res_bind fresh (\<lambda>i. let c = received now (as_str i) v in
       if \<not> concerns_a_task v db \<or> list_ex (same_run c) (wd_completions db) then Inr (0, db)
       else if list_ex (\<lambda>o'. cp_id o' = cp_id c) (wd_completions db) then Inl (OnTask DecisionQuery)
       else Inr (1, db\<lparr>wd_completions := wd_completions db @ [c],
         wd_fanout := wd_fanout db @ [\<lparr>fo_completion = cp_id c, fo_after = None, fo_next_at = now, fo_finished = None\<rparr>]\<rparr>)))"

section \<open>Fan-out\<close>

definition pass_limit :: nat where "pass_limit = 64"

definition check_awaits :: "completion \<Rightarrow> check \<Rightarrow> bool" where
  "check_awaits c k \<longleftrightarrow> uint (ck_workflow k) = cp_workflow c
     \<and> (ck_run k = None
        \<or> (map_option uint (ck_run k) = Some (cp_run c) \<and> (case ck_attempt k of None \<Rightarrow> False | Some a \<Rightarrow> uint a \<le> cp_attempt c))
        \<or> (case ck_number k of None \<Rightarrow> False | Some n \<Rightarrow> uint n < cp_run_number c))"

text \<open>The open waits on a completion's head, and of those the ones it signals.\<close>

definition on_head :: "completion \<Rightarrow> wait \<Rightarrow> bool" where
  "on_head c w \<longleftrightarrow> wt_workspace w = cp_workspace c \<and> wt_installation w = cp_installation c \<and> wt_repository w = cp_repository c
     \<and> wt_head w = cp_head c \<and> open_wait w"

definition awaits :: "completion \<Rightarrow> wait \<Rightarrow> bool" where
  "awaits c w \<longleftrightarrow> on_head c w \<and> (case cp_fleet c of None \<Rightarrow> True | Some f \<Rightarrow> wt_fleet w = f) \<and> list_ex (check_awaits c) (wt_checks w)"

definition signal :: "instant \<Rightarrow> completion \<Rightarrow> wait \<Rightarrow> wait" where
  "signal now c w = w\<lparr>wt_signalled_at := Some (case wt_signalled_at w of None \<Rightarrow> cp_received_at c | Some s \<Rightarrow> max s (cp_received_at c)),
     wt_signals := wt_signals w + 1, wt_due_at := max (wt_cooldown w) (min (wt_due_at w) now)\<rparr>"

definition zero_uuid :: string where "zero_uuid = ''00000000-0000-0000-0000-000000000000''"

definition next_target :: "completion \<Rightarrow> string option \<Rightarrow> wait list \<Rightarrow> wait option" where
  "next_target c after ws = (case sort_key wt_id (filter (\<lambda>w. on_head c w
       \<and> (case after of None \<Rightarrow> zero_uuid | Some a \<Rightarrow> a) < wt_id w) ws) of [] \<Rightarrow> None | w # _ \<Rightarrow> Some w)"

definition update_fanout :: "string \<Rightarrow> (fanout \<Rightarrow> fanout) \<Rightarrow> 'k wait_db \<Rightarrow> 'k wait_db" where
  "update_fanout i f db = db\<lparr>wd_fanout := map (\<lambda>o'. if fo_completion o' = i then f o' else o') (wd_fanout db)\<rparr>"

text \<open>\<open>fanout_one.sql\<close>: one wait is examined and the cursor moves past it, or there is none left and it is finished.\<close>

definition fanout_one :: "(string \<Rightarrow> bool) \<Rightarrow> instant \<Rightarrow> string \<Rightarrow> 'k wait_db \<Rightarrow> (bool \<times> nat) option \<times> 'k wait_db" where
  "fanout_one locked now i db =
     (case List.find (\<lambda>o'. fo_completion o' = i \<and> fo_finished o' = None \<and> fo_next_at o' \<le> now \<and> \<not> locked i) (wd_fanout db) of
        None \<Rightarrow> (None, db)
      | Some o' \<Rightarrow> (case Option.bind (List.find (\<lambda>c. cp_id c = i) (wd_completions db))
            (\<lambda>c. map_option (Pair c) (next_target c (fo_after o') (wd_waits db))) of
          None \<Rightarrow> (Some (True, 0), update_fanout i (\<lambda>o'. o'\<lparr>fo_finished := Some now, fo_next_at := now\<rparr>) db)
        | Some (c, w) \<Rightarrow> (Some (False, if awaits c w then 1 else 0),
            update_fanout i (\<lambda>o'. o'\<lparr>fo_after := Some (wt_id w), fo_next_at := now\<rparr>)
              (update_waits (\<lambda>x. wt_id x = wt_id w \<and> awaits c x) (signal now c) db))))"

definition defer_fanout :: "instant \<Rightarrow> string \<Rightarrow> 'k wait_db \<Rightarrow> 'k wait_db" where
  "defer_fanout now i db = db\<lparr>wd_fanout := map (\<lambda>o'. if fo_completion o' = i \<and> fo_finished o' = None
     then o'\<lparr>fo_next_at := now + from_secs 30\<rparr> else o') (wd_fanout db)\<rparr>"

definition fanout_due :: "instant \<Rightarrow> 'k wait_db \<Rightarrow> string list" where
  "fanout_due now db = take pass_limit (map fo_completion (sort_key (\<lambda>o'. (fo_next_at o', fo_completion o'))
     (filter (\<lambda>o'. fo_finished o' = None \<and> fo_next_at o' \<le> now) (wd_fanout db))))"

text \<open>\<open>fanout::maintain\<close>: the first argument counts the rows a pass may still touch, \<open>fails\<close> the touches a
  statement fails on, which defer their completion.\<close>

fun fanout_pass :: "nat \<Rightarrow> (nat \<Rightarrow> bool) \<Rightarrow> (string \<Rightarrow> bool) \<Rightarrow> instant \<Rightarrow> string list \<Rightarrow> 'k wait_db \<Rightarrow> 'k wait_db" where
  "fanout_pass 0 fails locked now cs db = db"
| "fanout_pass (Suc n) fails locked now [] db = db"
| "fanout_pass (Suc n) fails locked now (c # cs) db =
     (if fails n then fanout_pass n fails locked now cs (defer_fanout now c db)
      else case fanout_one locked now c db of
        (Some (False, _), db') \<Rightarrow> fanout_pass n fails locked now (c # cs) db'
      | (_, db') \<Rightarrow> fanout_pass n fails locked now cs db')"

definition fanout_maintain :: "(nat \<Rightarrow> bool) \<Rightarrow> (string \<Rightarrow> bool) \<Rightarrow> instant \<Rightarrow> 'k wait_db \<Rightarrow> 'k wait_db" where
  "fanout_maintain fails locked now db = fanout_pass pass_limit fails locked now (fanout_due now db) db"

section \<open>Expiry and the sweep\<close>

definition completion_retention_hours :: int where "completion_retention_hours = 72"
definition completion_batch :: nat where "completion_batch = 256"

text \<open>\<open>lock_expired_task_completions\<close>: receipts whose fan-out is over, the oldest first.\<close>

definition collectable :: "(string \<Rightarrow> bool) \<Rightarrow> instant \<Rightarrow> 'k wait_db \<Rightarrow> string list" where
  "collectable locked now db = take completion_batch (map cp_id (sort_key (\<lambda>c. (cp_received_at c, cp_id c)) (filter
     (\<lambda>c. cp_received_at c \<le> now - from_secs (completion_retention_hours * 3600) \<and> \<not> locked (cp_id c)
        \<and> list_ex (\<lambda>o'. fo_completion o' = cp_id c \<and> fo_finished o' \<noteq> None) (wd_fanout db)) (wd_completions db))))"

definition collect_completions :: "(string \<Rightarrow> bool) \<Rightarrow> instant \<Rightarrow> 'k wait_db \<Rightarrow> 'k wait_db" where
  "collect_completions locked now db = (let gone = collectable locked now db in
     db\<lparr>wd_completions := filter (\<lambda>c. cp_id c \<notin> set gone) (wd_completions db),
       wd_fanout := filter (\<lambda>o'. fo_completion o' \<notin> set gone) (wd_fanout db)\<rparr>)"

definition spent_attempts :: "(string \<Rightarrow> bool) \<Rightarrow> string \<Rightarrow> pub_task \<Rightarrow> bool" where
  "spent_attempts live_lease task t \<longleftrightarrow> pt_max_leases t \<le> pt_used_leases t \<and> \<not> live_lease task"

text \<open>\<open>expire.sql\<close> and what follows it in its transaction.\<close>

definition expired :: "instant \<Rightarrow> pub_task \<Rightarrow> pub_task" where
  "expired now t = t\<lparr>t_status := task_state_as_str TsExhausted, t_generation := t_generation t + 1,
     t_stop_generation := t_stop_generation t + 1, t_resource_version := t_resource_version t + 1,
     t_terminal_at := Some now, t_checkpoint_cleanup_at := Some now\<rparr>"

definition expire_task :: "(string \<Rightarrow> bool) \<Rightarrow> instant \<Rightarrow> string \<Rightarrow> string \<Rightarrow> string \<Rightarrow> 'k wait_db \<Rightarrow> (bool \<times> 'k wait_db) answer" where
  "expire_task live_lease now fleet ws task db =
     res_bind (guard_id fleet) (\<lambda>_. res_bind (guard_id ws) (\<lambda>_. res_bind (guard_id task) (\<lambda>_.
     res_bind (lock_scope fleet ws db) (\<lambda>_. case pd_tasks (wd_pub db) task of None \<Rightarrow> Inr (False, db)
       | Some t \<Rightarrow> if t_terminal_at t = None \<and> (t_expires_at t \<le> now \<or> spent_attempts live_lease task t)
           then Inr (True, retire now task (cancel_waits now task (over_ledger (move_head task (t_generation t + 1) True)
             (update_columns task (\<lambda>c. c\<lparr>tc_reason := Some (if t_expires_at t \<le> now then ''wall_deadline_reached'' else ''lease_limit_reached'')\<rparr>)
               (over_tasks (update_task task (expired now)) db)))))
           else Inr (False, db)))))"

text \<open>\<open>due.sql\<close>: what a sweep looks at, soonest due first.\<close>

definition read_now :: "instant \<Rightarrow> 'k wait_db \<Rightarrow> wait \<Rightarrow> bool" where
  "read_now now db w \<longleftrightarrow> open_wait w \<and> (case wt_claim w of None \<Rightarrow> True | Some (_, until) \<Rightarrow> until \<le> now)
     \<and> wt_due_at w \<le> now \<and> wt_cooldown w \<le> now
     \<and> (case (pd_tasks (wd_pub db) (wt_task w), columns_of db (wt_task w)) of
          (Some t, Some c) \<Rightarrow> t_status t = task_state_as_str TsWaiting \<and> t_generation t = wt_task_generation w
            \<and> t_stop_generation t = wt_stop_generation w
            \<and> (wt_initial_read w = None \<or> signalled w \<or> tc_used_fallback c < tc_max_fallback c \<or> t_expires_at t \<le> now)
        | _ \<Rightarrow> False)"

definition candidates :: nat where "candidates = 64"

definition candidate_of :: "wait \<Rightarrow> candidate" where
  "candidate_of w = \<lparr>cd_id = wt_id w, cd_task = wt_task w, cd_fleet = wt_fleet w, cd_workspace = wt_workspace w\<rparr>"

definition due_sql :: "instant \<Rightarrow> 'k wait_db \<Rightarrow> candidate list" where
  "due_sql now db = map candidate_of (take candidates (sort_key (\<lambda>w. (wt_due_at w, wt_id w)) (filter (read_now now db) (wd_waits db))))"

text \<open>\<open>expired_tasks.sql\<close>: two bounded lists, the walls soonest first, and of both the first by identifier.\<close>

definition expired_batch :: nat where "expired_batch = 64"

definition open_tasks :: "'k wait_db \<Rightarrow> (string \<times> pub_task) list" where
  "open_tasks db = List.map_filter (\<lambda>c. case pd_tasks (wd_pub db) (tc_task c) of None \<Rightarrow> None
     | Some t \<Rightarrow> if t_terminal_at t = None then Some (tc_task c, t) else None) (wd_columns db)"

definition expired_tasks :: "(string \<Rightarrow> bool) \<Rightarrow> instant \<Rightarrow> 'k wait_db \<Rightarrow> (string \<times> string \<times> string) list" where
  "expired_tasks live_lease now db =
     (let wall = take expired_batch (sort_key (\<lambda>(i, t). (t_expires_at t, i)) (filter (\<lambda>(i, t). t_expires_at t \<le> now) (open_tasks db)));
          attempts = take expired_batch (sort_key fst (filter (\<lambda>(i, t). spent_attempts live_lease i t) (open_tasks db))) in
      take expired_batch (map (\<lambda>(i, t). (i, t_fleet_id t, t_workspace_id t)) (sort_key fst (remdups (wall @ attempts)))))"

text \<open>\<open>cleanup::maintain\<close>: a task whose transaction fails is left for the next pass.\<close>

definition expire_one :: "(string \<Rightarrow> bool) \<Rightarrow> instant \<Rightarrow> string \<times> string \<times> string \<Rightarrow> 'k wait_db \<Rightarrow> 'k wait_db" where
  "expire_one live_lease now o' db = (case o' of (task, fleet, ws) \<Rightarrow>
     (case expire_task live_lease now fleet ws task db of Inl _ \<Rightarrow> db | Inr (_, db') \<Rightarrow> db'))"

definition cleanup_maintain :: "(string \<Rightarrow> bool) \<Rightarrow> (string \<Rightarrow> bool) \<Rightarrow> instant \<Rightarrow> 'k wait_db \<Rightarrow> 'k wait_db" where
  "cleanup_maintain locked live_lease now db = (let db1 = collect_completions locked now db in
     fold (expire_one live_lease now) (expired_tasks live_lease now db1) db1)"

text \<open>\<open>maintenance::maintain\<close>.  The read between a candidate's two transactions is of its head alone, under the
  permit its claim gave; \<open>meanwhile\<close> is what the other readers and the rest of the daemon do during it.\<close>

record wait_tally =
  wm_checked :: nat
  wm_woken :: nat
  wm_deferred :: nat

record 'k wait_pass =
  ps_env :: wait_env
  ps_locked :: "string \<Rightarrow> bool"
  ps_fresh :: "string \<Rightarrow> uuid7 answer"
  ps_now :: instant
  ps_mint :: "(read_permit \<Rightarrow> session answer) option"
  ps_runs :: "string \<Rightarrow> string \<Rightarrow> string \<Rightarrow> (u64 \<times> execution list) answer"
  ps_late :: "string \<Rightarrow> bool"
  ps_meanwhile :: "string \<Rightarrow> 'k wait_db \<Rightarrow> 'k wait_db"
  ps_then :: "string \<Rightarrow> instant"

definition read_dependency :: "'k wait_pass \<Rightarrow> claimed_wait \<Rightarrow> evidence answer" where
  "read_dependency ps cw = (if ps_late ps (wt_id (wv_row (cw_owner cw))) then Inl OnRemote
     else case ps_mint ps of None \<Rightarrow> invalid_target
       | Some mint \<Rightarrow> res_bind (mint (cw_permit cw)) (\<lambda>ss. pr_status (ps_runs ps) ss (wv_target (cw_owner cw))))"

definition deferred_one :: "wait_tally \<Rightarrow> wait_tally" where "deferred_one n = n\<lparr>wm_deferred := wm_deferred n + 1\<rparr>"
definition woken_one :: "wait_tally \<Rightarrow> wait_tally" where "woken_one n = n\<lparr>wm_woken := wm_woken n + 1\<rparr>"
definition checked_one :: "wait_tally \<Rightarrow> wait_tally" where "checked_one n = n\<lparr>wm_checked := wm_checked n + 1\<rparr>"

definition finish_read :: "'k wait_pass \<Rightarrow> probe \<Rightarrow> 'k wait_db \<Rightarrow> bool answer \<times> 'k wait_db" where
  "finish_read ps pb db = (case prepare_wake (ps_env ps) pb (in_ceiling (wd_intake db)) of
     (Inl e, c) \<Rightarrow> (Inl e, db\<lparr>wd_intake := (wd_intake db)\<lparr>in_ceiling := c\<rparr>\<rparr>)
   | (Inr q, c) \<Rightarrow> (let db1 = db\<lparr>wd_intake := (wd_intake db)\<lparr>in_ceiling := c\<rparr>\<rparr> in
       case finish_wait (ps_env ps) (ps_then ps (wt_id (wv_row (pb_owner pb)))) pb q db1 of
         Inl e \<Rightarrow> (Inl e, db1) | Inr (woken, db2) \<Rightarrow> (Inr woken, db2)))"

definition visit :: "'k wait_pass \<Rightarrow> candidate \<Rightarrow> wait_tally \<times> 'k wait_db \<Rightarrow> wait_tally \<times> 'k wait_db" where
  "visit ps c = (\<lambda>(n, db). case claim_wait (we_unavailable (ps_env ps)) (ps_locked ps) (ps_fresh ps (cd_id c)) (ps_now ps) c db of
     Inl _ \<Rightarrow> (deferred_one n, db)
   | Inr (None, db1) \<Rightarrow> (n, db1)
   | Inr (Some cw, db1) \<Rightarrow>
       (let pb = \<lparr>pb_owner = cw_owner cw, pb_claim = cw_claim cw, pb_result = read_dependency ps cw\<rparr> in
        case finish_read ps pb (ps_meanwhile ps (cd_id c) db1) of
          (Inr True, db2) \<Rightarrow> (woken_one (checked_one n), db2)
        | (_, db2) \<Rightarrow> (deferred_one (checked_one n), db2)))"

definition maintain_waits :: "'k wait_pass \<Rightarrow> (nat \<Rightarrow> bool) \<Rightarrow> (string \<Rightarrow> bool) \<Rightarrow> (string \<Rightarrow> bool) \<Rightarrow> (string \<Rightarrow> bool) \<Rightarrow> 'k wait_db
    \<Rightarrow> wait_tally \<times> 'k wait_db" where
  "maintain_waits ps fails receipts_held cursors_held live_lease db =
     (let db1 = fanout_maintain fails cursors_held (ps_now ps) (cleanup_maintain receipts_held live_lease (ps_now ps) db) in
      fold (visit ps) (due_sql (ps_now ps) db1) (\<lparr>wm_checked = 0, wm_woken = 0, wm_deferred = 0\<rparr>, db1))"

end
