(* ===== verification/Claims.thy ===== *)
theory Claims
  imports Waits
begin

text \<open>
  Claiming a fleet's work: the candidate scan of \<open>select_ledger_candidates.sql\<close>, the one statement that
  wins a fleet's slot, stamps its oldest unsettled admission with the token it minted and expires the
  lease the admission had (\<open>claim_admission_head.sql\<close>), and the transaction and loop around it
  (\<open>afd_fleet/src/lease/assign/ledger.rs\<close>, \<open>lease/envelope.rs\<close>, \<open>lease/reclaim.rs\<close>).  The statement chooses
  the head and judges its gates on the tables as they were when it began, and writes them as they are once
  it holds their locks: \<open>ce_before\<close> is the former, the store it is applied to the latter.  Then the slots
  as a state machine under claims, releases and everything else the daemon does, and what it guarantees.
\<close>

section \<open>Rows\<close>

text \<open>An admission with the columns its delivery uses.\<close>

record ledger_row = Intake.admission_row +
  lr_sequence :: int
  lr_event_created_at :: instant
  lr_delivered_at :: "instant option"
  lr_parked_at :: "instant option"
  lr_fence :: "int option"

text \<open>A fleet, and whether its head revision's definition has a decision policy, neither absent nor null.\<close>

record claim_fleet =
  cf_id :: string
  cf_workspace :: string
  cf_status :: string
  cf_decides :: bool
  cf_tags :: "string list"

text \<open>A host, and whether its capability report holds the task capability; none before it reported.\<close>

record claim_host =
  ch_durable :: bool
  ch_report :: "bool option"
  ch_labels :: "string list"

record claim_gate =
  cg_fleet :: string
  cg_event :: "string option"
  cg_resolved_at :: "instant option"
  cg_expires_at :: instant

text \<open>An event row is its fleet and the admission it narrates; \<open>cd_expired\<close> is the expired count of the
  runners' lifetime counters.\<close>

record claim_db =
  cd_slots :: slots
  cd_runners :: runners
  cd_hosts :: "string \<rightharpoonup> claim_host"
  cd_fleets :: "claim_fleet list"
  cd_ledger :: "ledger_row list"
  cd_tasks :: "string \<rightharpoonup> pub_task"
  cd_gates :: "claim_gate list"
  cd_events :: "string \<rightharpoonup> string \<times> string"
  cd_leases :: "(string \<times> lease_row) list"
  cd_expired :: "string \<rightharpoonup> int"

section \<open>What may be claimed\<close>

definition task_capable :: "claim_host \<Rightarrow> bool" where
  "task_capable h \<longleftrightarrow> ch_durable h \<and> ch_report h = Some True"

definition host_suits :: "claim_host \<Rightarrow> claim_fleet \<Rightarrow> bool" where
  "host_suits h f \<longleftrightarrow> task_capable h \<or> \<not> cf_decides f"

text \<open>An admission bound to a task waits until the task is at its generation, live and within its limits.\<close>

definition task_ready :: "instant \<Rightarrow> claim_db \<Rightarrow> claim_host \<Rightarrow> ledger_row \<Rightarrow> bool" where
  "task_ready now db h r \<longleftrightarrow> ad_task r = None \<and> ad_generation r = None
     \<or> (case Option.bind (ad_task r) (cd_tasks db) of None \<Rightarrow> False
        | Some t \<Rightarrow> ad_generation r = Some (t_generation t) \<and> t_fleet_id t = ad_fleet r \<and> t_workspace_id t = ad_workspace r
            \<and> task_capable h \<and> t_status t \<in> {task_state_as_str TsReady, task_state_as_str TsRunning}
            \<and> t_terminal_at t = None \<and> within_limits now t)"

fun oldest :: "ledger_row list \<Rightarrow> ledger_row option" where
  "oldest [] = None"
| "oldest (r # rs) = (case oldest rs of None \<Rightarrow> Some r
     | Some m \<Rightarrow> if lr_sequence r \<le> lr_sequence m then Some r else Some m)"

definition gate_blocks :: "instant \<Rightarrow> claim_db \<Rightarrow> ledger_row \<Rightarrow> bool" where
  "gate_blocks now db r \<longleftrightarrow> list_ex (\<lambda>g. cg_fleet g = ad_fleet r \<and> cg_resolved_at g = None
     \<and> (cg_event g = None \<or> cg_event g = Some (ad_id r) \<and> now < cg_expires_at g)) (cd_gates db)"

definition runnable_row :: "instant \<Rightarrow> claim_db \<Rightarrow> ledger_row \<Rightarrow> bool" where
  "runnable_row now db r \<longleftrightarrow> lr_parked_at r = None \<or> \<not> gate_blocks now db r"

section \<open>Candidates\<close>

definition slot_open :: "instant \<Rightarrow> claim_db \<Rightarrow> string \<Rightarrow> claim_fleet \<Rightarrow> bool" where
  "slot_open now db runner f \<longleftrightarrow> (case cd_slots db (cf_id f) of None \<Rightarrow> True
     | Some s \<Rightarrow> winnable now (cd_runners db) runner s)"

definition waiting_head :: "instant \<Rightarrow> claim_db \<Rightarrow> claim_host \<Rightarrow> string \<Rightarrow> ledger_row option" where
  "waiting_head now db h fleet = oldest (filter (\<lambda>r. ad_fleet r = fleet \<and> ad_settled_at r = None \<and> task_ready now db h r) (cd_ledger db))"

definition candidate_fleet :: "instant \<Rightarrow> claim_db \<Rightarrow> string \<Rightarrow> claim_host \<Rightarrow> claim_fleet \<Rightarrow> bool" where
  "candidate_fleet now db runner h f \<longleftrightarrow> cf_status f = ''active'' \<and> host_suits h f \<and> slot_open now db runner f
     \<and> set (cf_tags f) \<subseteq> set (ch_labels h)
     \<and> (case waiting_head now db h (cf_id f) of None \<Rightarrow> False | Some r \<Rightarrow> runnable_row now db r)"

definition max_candidates_per_poll :: nat where "max_candidates_per_poll = 64"

text \<open>The order: fleets the runner holds a sandbox of, the doorbell's hint, fleets it ran last before those
  another did and those none did, then \<open>rank\<close>, what \<open>random()\<close> gave each.\<close>

definition select_candidates :: "(string \<Rightarrow> nat) \<Rightarrow> instant \<Rightarrow> string \<Rightarrow> string list \<Rightarrow> string option \<Rightarrow> claim_db \<Rightarrow> string list" where
  "select_candidates rank now runner held hint db = (case cd_hosts db runner of None \<Rightarrow> []
     | Some h \<Rightarrow> let fleets = map cf_id (filter (candidate_fleet now db runner h) (cd_fleets db));
           last = (\<lambda>f. case Option.bind (cd_slots db f) last_runner_id of None \<Rightarrow> 2 | Some r \<Rightarrow> if r = runner then 0 else (1 :: nat)) in
         take max_candidates_per_poll
           (sort_key (\<lambda>f. if f \<in> set held then 0 else 1 :: nat)
           (sort_key (\<lambda>f. if hint = Some f then 0 else 1 :: nat)
           (sort_key last
           (sort_key rank fleets)))))"

section \<open>The claim's statement\<close>

text \<open>What the world does to one claim: the clock at its readings, the locks others hold, the tables as the
  statement first saw them, and the calls that fail.  A commit whose answer is lost may have committed.\<close>

datatype claim_end = ClaimCommitted | ClaimRefused | ClaimUnheard

record claim_env =
  ce_now :: instant
  ce_checked :: instant
  ce_written :: instant
  ce_slot_skipped :: bool
  ce_row_skipped :: "string \<Rightarrow> bool"
  ce_before :: claim_db
  ce_begin_fails :: bool
  ce_query_fails :: bool
  ce_rollback_fails :: bool
  ce_commit :: claim_end

record claim_row =
  cr_event_id :: string
  cr_workspace_id :: string
  cr_actor :: string
  cr_event_type :: string
  cr_request_json :: string
  cr_event_created_at :: instant
  cr_redelivered :: bool
  cr_fencing_token :: int
  cr_lease_expires_at :: instant
  cr_held :: bool
  cr_holder :: "string option"
  cr_reused_tenant_id :: "string option"
  cr_reused_posture :: "string option"
  cr_reused_model :: "string option"

definition claim_head :: "instant \<Rightarrow> claim_db \<Rightarrow> string \<Rightarrow> string \<Rightarrow> ledger_row option" where
  "claim_head now db fleet runner = (case (cd_hosts db runner, List.find (\<lambda>f. cf_id f = fleet) (cd_fleets db)) of
       (Some h, Some f) \<Rightarrow> if \<not> host_suits h f then None
         else oldest (filter (\<lambda>r. ad_fleet r = fleet \<and> ad_workspace r = cf_workspace f \<and> ad_settled_at r = None
                                   \<and> task_ready now db h r) (cd_ledger db))
     | _ \<Rightarrow> None)"

text \<open>The head once its row is locked, if it still is unsettled and no gate keeps it parked.\<close>

definition stamped_row :: "claim_env \<Rightarrow> string \<Rightarrow> string \<Rightarrow> claim_db \<Rightarrow> ledger_row option" where
  "stamped_row env fleet runner db = (case claim_head (ce_checked env) (ce_before env) fleet runner of None \<Rightarrow> None
     | Some h \<Rightarrow> if ce_row_skipped env (ad_id h) then None
         else (case List.find (\<lambda>r. ad_id r = ad_id h) (cd_ledger db) of None \<Rightarrow> None
           | Some r \<Rightarrow> if ad_settled_at r = None \<and> runnable_row (ce_checked env) (ce_before env) r then Some r else None))"

definition stamp_head :: "instant \<Rightarrow> string \<Rightarrow> int \<Rightarrow> ledger_row \<Rightarrow> ledger_row" where
  "stamp_head now event token r = (if ad_id r = event then r\<lparr>lr_fence := Some token, ad_updated_at := now\<rparr> else r)"

fun newest_lease :: "(string \<times> lease_row) list \<Rightarrow> (string \<times> lease_row) option" where
  "newest_lease [] = None"
| "newest_lease (l # ls) = (case newest_lease ls of None \<Rightarrow> Some l
     | Some m \<Rightarrow> if l_fencing_token (snd m) \<le> l_fencing_token (snd l) then Some l else Some m)"

definition prior_lease :: "claim_db \<Rightarrow> string \<Rightarrow> string \<Rightarrow> (string \<times> lease_row) option" where
  "prior_lease db fleet event = newest_lease (filter (\<lambda>(i, l). l_fleet_id l = fleet
     \<and> cd_events db (l_event l) = Some (fleet, event)) (cd_leases db))"

text \<open>The prior lease, if it still runs, ends as expired and counts against its runner.\<close>

definition expire_lease :: "string \<Rightarrow> string \<times> lease_row \<Rightarrow> string \<times> lease_row" where
  "expire_lease i il = (if fst il = i \<and> l_status (snd il) = lease_status_active
     then (fst il, (snd il)\<lparr>l_status := ''expired''\<rparr>) else il)"

definition expire_prior :: "(string \<times> lease_row) option \<Rightarrow> claim_db \<Rightarrow> (lease_error, claim_db) result" where
  "expire_prior prior db = (case prior of None \<Rightarrow> Inr db
     | Some (i, _) \<Rightarrow> (case List.find (\<lambda>(j, l). j = i \<and> l_status l = lease_status_active) (cd_leases db) of None \<Rightarrow> Inr db
         | Some (_, l) \<Rightarrow> res_bind (case cd_expired db (l_runner_id l) of None \<Rightarrow> Inr 1
               | Some n \<Rightarrow> ok_or LeaseQuery (checked_add n 1)) (\<lambda>n.
             Inr (db\<lparr>cd_leases := map (expire_lease i) (cd_leases db),
                     cd_expired := (cd_expired db)(l_runner_id l \<mapsto> n)\<rparr>))))"

definition claim_head_sql :: "claim_env \<Rightarrow> string \<Rightarrow> string \<Rightarrow> claim_db
    \<Rightarrow> (lease_error, claim_row option \<times> claim_db) result" where
  "claim_head_sql env fleet runner db =
     res_bind (claim_slot (ce_checked env) (ce_written env) (ce_slot_skipped env) (cd_runners db) fleet runner (cd_slots db))
       (\<lambda>(won, ss). case won of None \<Rightarrow> Inr (None, db)
        | Some w \<Rightarrow> let db1 = db\<lparr>cd_slots := ss\<rparr> in
            (case stamped_row env fleet runner db of None \<Rightarrow> Inr (None, db1)
             | Some r \<Rightarrow> let prior = prior_lease (ce_before env) fleet (ad_id r) in
                 res_bind (expire_prior prior (db1\<lparr>cd_ledger := map (stamp_head (ce_now env) (ad_id r) (won_token w)) (cd_ledger db)\<rparr>)) (\<lambda>db2.
                 Inr (Some \<lparr>cr_event_id = ad_id r, cr_workspace_id = ad_workspace r, cr_actor = ad_actor r,
                     cr_event_type = ad_event_type r, cr_request_json = ad_request r,
                     cr_event_created_at = lr_event_created_at r, cr_redelivered = (lr_delivered_at r \<noteq> None),
                     cr_fencing_token = won_token w, cr_lease_expires_at = won_expires_at w,
                     cr_held = won_held w, cr_holder = won_holder w,
                     cr_reused_tenant_id = map_option (l_tenant_id \<circ> snd) prior,
                     cr_reused_posture = map_option (l_posture \<circ> snd) prior,
                     cr_reused_model = map_option (l_model \<circ> snd) prior\<rparr>, db2))))"

section \<open>What the claim hands out\<close>

datatype run_kind = FreshRun | ReclaimedRun

record reused =
  re_tenant_id :: string
  re_posture :: string
  re_model :: string

record acquired =
  aq_fleet_id :: uuid7
  aq_fence :: fence
  aq_leased_until :: instant
  aq_kind :: run_kind
  aq_event_id :: string
  aq_actor :: string
  aq_event_type :: string
  aq_request_json :: string
  aq_workspace_id :: uuid7
  aq_event_created_at :: instant
  aq_reused :: "reused option"
  aq_resume_hold :: bool
  aq_redelivered :: bool

definition reused_of :: "claim_row \<Rightarrow> reused option" where
  "reused_of row = (case (cr_reused_tenant_id row, cr_reused_posture row, cr_reused_model row) of
     (Some t, Some p, Some m) \<Rightarrow> Some \<lparr>re_tenant_id = t, re_posture = p, re_model = m\<rparr> | _ \<Rightarrow> None)"

definition acquired_of :: "claim_row \<Rightarrow> uuid7 \<Rightarrow> uuid7 \<Rightarrow> (lease_error, acquired) result" where
  "acquired_of row fleet runner = (case uuid7_parse (cr_workspace_id row) of Inl _ \<Rightarrow> Inl LeaseRowMalformed
     | Inr ws \<Rightarrow> let again = reused_of row; kind = (if again = None then FreshRun else ReclaimedRun) in
         Inr \<lparr>aq_fleet_id = fleet, aq_fence = Fence (cr_fencing_token row), aq_leased_until = cr_lease_expires_at row,
           aq_kind = kind, aq_event_id = cr_event_id row, aq_actor = cr_actor row, aq_event_type = cr_event_type row,
           aq_request_json = cr_request_json row, aq_workspace_id = ws,
           aq_event_created_at = cr_event_created_at row, aq_reused = again,
           aq_resume_hold = (cr_held row \<and> cr_holder row = Some (as_str runner) \<and> kind = FreshRun),
           aq_redelivered = cr_redelivered row\<rparr>)"

text \<open>The transaction: no row rolls the slot back with the rest, and so does a row that does not read.\<close>

definition ledger_claim :: "claim_env \<Rightarrow> uuid7 \<Rightarrow> uuid7 \<Rightarrow> claim_db \<Rightarrow> (lease_error, acquired option) result \<times> claim_db" where
  "ledger_claim env fleet runner db =
     (if ce_begin_fails env \<or> ce_query_fails env then (Inl LeaseQuery, db)
      else case claim_head_sql env (as_str fleet) (as_str runner) db of
        Inl e \<Rightarrow> (Inl e, db)
      | Inr (None, _) \<Rightarrow> (if ce_rollback_fails env then Inl LeaseQuery else Inr None, db)
      | Inr (Some row, db') \<Rightarrow> (case acquired_of row fleet runner of
            Inl e \<Rightarrow> (Inl e, db)
          | Inr a \<Rightarrow> (case ce_commit env of
                ClaimCommitted \<Rightarrow> (Inr (Some a), db')
              | ClaimRefused \<Rightarrow> (Inl LeaseQuery, db)
              | ClaimUnheard \<Rightarrow> (Inl LeaseQuery, db'))))"

text \<open>The candidates in order until one is acquired or a call fails; \<open>meanwhile\<close> is what the rest of the
  daemon does before each claim.\<close>

fun claim_candidates :: "(nat \<Rightarrow> claim_env) \<Rightarrow> (nat \<Rightarrow> claim_db \<Rightarrow> claim_db) \<Rightarrow> nat \<Rightarrow> uuid7 \<Rightarrow> string list \<Rightarrow> claim_db
    \<Rightarrow> (lease_error, acquired option) result \<times> claim_db" where
  "claim_candidates envs meanwhile n runner [] db = (Inr None, db)"
| "claim_candidates envs meanwhile n runner (text # rest) db = (case uuid7_parse text of
     Inl _ \<Rightarrow> (Inl LeaseRowMalformed, db)
   | Inr fleet \<Rightarrow> (case ledger_claim (envs n) fleet runner (meanwhile n db) of
       (Inr None, db') \<Rightarrow> claim_candidates envs meanwhile (n + 1) runner rest db'
     | answer \<Rightarrow> answer))"

text \<open>\<open>scan_fails\<close>: the pool or the scan did not answer.\<close>

definition ledger_counted :: "(nat \<Rightarrow> claim_env) \<Rightarrow> (nat \<Rightarrow> claim_db \<Rightarrow> claim_db) \<Rightarrow> bool \<Rightarrow> (string \<Rightarrow> nat) \<Rightarrow> instant
    \<Rightarrow> uuid7 \<Rightarrow> uuid7 list \<Rightarrow> uuid7 option \<Rightarrow> claim_db \<Rightarrow> (lease_error, acquired option) result \<times> claim_db" where
  "ledger_counted envs meanwhile scan_fails rank now runner held hint db =
     (if scan_fails then (Inl LeaseQuery, db)
      else claim_candidates envs meanwhile 0 runner
        (select_candidates rank now (as_str runner) (map as_str held) (map_option as_str hint) db) db)"

section \<open>What a claim does\<close>

lemma expire_prior_fields:
  "expire_prior prior db = Inr db' \<Longrightarrow> cd_slots db' = cd_slots db \<and> cd_ledger db' = cd_ledger db"
  by (auto simp: expire_prior_def res_bind_Inr split: option.splits)

lemma oldest_Some:
  "oldest rs = Some r \<Longrightarrow> r \<in> set rs \<and> (\<forall>x \<in> set rs. lr_sequence r \<le> lr_sequence x)"
proof (induction rs arbitrary: r)
  case (Cons x xs)
  then show ?case
  proof (cases "oldest xs")
    case None
    then have "xs = []" by (cases xs) (auto split: option.splits if_splits)
    with Cons.prems show ?thesis by simp
  next
    case (Some m)
    with Cons.IH [of m] Cons.prems show ?thesis by (auto split: if_splits)
  qed
qed simp

lemma claim_head_Some:
  assumes "claim_head now db fleet runner = Some r"
  shows "\<exists>h. cd_hosts db runner = Some h \<and> r \<in> set (cd_ledger db) \<and> ad_fleet r = fleet \<and> ad_settled_at r = None
    \<and> task_ready now db h r \<and> (\<forall>x \<in> set (cd_ledger db). ad_fleet x = fleet \<and> ad_workspace x = ad_workspace r
        \<and> ad_settled_at x = None \<and> task_ready now db h x \<longrightarrow> lr_sequence r \<le> lr_sequence x)"
proof -
  obtain h where host: "cd_hosts db runner = Some h" using assms by (cases "cd_hosts db runner") (auto simp: claim_head_def)
  obtain f where f: "List.find (\<lambda>f. cf_id f = fleet) (cd_fleets db) = Some f"
    using assms by (cases "List.find (\<lambda>f. cf_id f = fleet) (cd_fleets db)") (auto simp: claim_head_def host)
  have h: "cd_hosts db runner = Some h" "oldest (filter (\<lambda>r. ad_fleet r = fleet \<and> ad_workspace r = cf_workspace f
      \<and> ad_settled_at r = None \<and> task_ready now db h r) (cd_ledger db)) = Some r"
    using assms by (simp_all add: claim_head_def host f split: if_split_asm)
  from oldest_Some [OF h(2)] h(1) show ?thesis by auto
qed

text \<open>How a claim ends: committed, with everything it writes, or with the store as it was.\<close>

lemma claim_head_sql_Some:
  assumes "claim_head_sql env fleet runner db = Inr (Some row, db')"
  obtains w s' r where "claim_slot (ce_checked env) (ce_written env) (ce_slot_skipped env) (cd_runners db) fleet runner (cd_slots db)
      = Inr (Some w, cd_slots db')" "stamped_row env fleet runner db = Some r"
    "cd_ledger db' = map (stamp_head (ce_now env) (ad_id r) (won_token w)) (cd_ledger db)"
    "cr_event_id row = ad_id r" "cr_fencing_token row = won_token w" "cr_lease_expires_at row = won_expires_at w"
    "cr_workspace_id row = ad_workspace r" "cr_request_json row = ad_request r"
proof -
  from assms obtain w ss where w: "claim_slot (ce_checked env) (ce_written env) (ce_slot_skipped env) (cd_runners db) fleet runner (cd_slots db)
      = Inr (Some w, ss)"
    by (auto simp: claim_head_sql_def res_bind_Inr split: option.split_asm)
  with assms obtain r where r: "stamped_row env fleet runner db = Some r"
    by (auto simp: claim_head_sql_def Let_def split: option.split_asm)
  from assms obtain db2 where e: "expire_prior (prior_lease (ce_before env) fleet (ad_id r))
        (db\<lparr>cd_slots := ss, cd_ledger := map (stamp_head (ce_now env) (ad_id r) (won_token w)) (cd_ledger db)\<rparr>) = Inr db2"
      "db' = db2" "cr_event_id row = ad_id r" "cr_fencing_token row = won_token w" "cr_lease_expires_at row = won_expires_at w"
      "cr_workspace_id row = ad_workspace r" "cr_request_json row = ad_request r"
    by (auto simp: claim_head_sql_def Let_def w r res_bind_Inr)
  from expire_prior_fields [OF e(1)] e(2) have "cd_slots db' = ss"
    "cd_ledger db' = map (stamp_head (ce_now env) (ad_id r) (won_token w)) (cd_ledger db)" by simp_all
  with w r e show thesis by (intro that) auto
qed

lemma ledger_claim_cases:
  assumes "ledger_claim env fleet runner db = (res, db')"
  obtains "db' = db" "\<nexists>a. res = Inr (Some a)"
  | row a where "claim_head_sql env (as_str fleet) (as_str runner) db = Inr (Some row, db')"
      "acquired_of row fleet runner = Inr a" "res = Inr (Some a) \<or> res = Inl LeaseQuery"
      "aq_fleet_id a = fleet" "as_i64 (aq_fence a) = cr_fencing_token row" "aq_leased_until a = cr_lease_expires_at row"
      "aq_event_id a = cr_event_id row" "as_str (aq_workspace_id a) = cr_workspace_id row" "aq_request_json a = cr_request_json row"
proof -
  have fields: "aq_fleet_id a = fleet \<and> as_i64 (aq_fence a) = cr_fencing_token row \<and> aq_leased_until a = cr_lease_expires_at row
      \<and> aq_event_id a = cr_event_id row \<and> as_str (aq_workspace_id a) = cr_workspace_id row \<and> aq_request_json a = cr_request_json row"
    if "acquired_of row fleet runner = Inr a" for row a
    using that by (auto simp: acquired_of_def Let_def uuid7_parse_Inr split: sum.split_asm)
  show thesis
    using assms that(1) that(2) fields
    by (auto simp: ledger_claim_def split: if_split_asm sum.split_asm option.split_asm prod.split_asm claim_end.split_asm)
qed

text \<open>A claim that answers no run and no lost commit leaves every table as it was: the slot, its token and
  the admission go back together.\<close>

lemma no_run_changes_nothing:
  "ledger_claim env fleet runner db = (res, db') \<Longrightarrow> (\<nexists>a. res = Inr (Some a)) \<Longrightarrow> ce_commit env \<noteq> ClaimUnheard \<Longrightarrow> db' = db"
  by (auto simp: ledger_claim_def split: if_split_asm sum.split_asm option.split_asm prod.split_asm claim_end.split_asm)

lemma claim_slots:
  assumes "ledger_claim env fleet runner db = (res, db')"
  shows "db' = db \<and> (\<nexists>a. res = Inr (Some a)) \<or> (\<exists>s'. cd_slots db' = (cd_slots db)(as_str fleet \<mapsto> s')
    \<and> (cd_slots db (as_str fleet) = None \<and> fencing_token s' = 1
       \<or> (\<exists>s. cd_slots db (as_str fleet) = Some s \<and> fencing_token s' = fencing_token s + 1))
    \<and> last_runner_id s' = Some (as_str runner)
    \<and> (\<forall>a. res = Inr (Some a) \<longrightarrow> aq_fleet_id a = fleet \<and> as_i64 (aq_fence a) = fencing_token s' \<and> aq_leased_until a = slot_expires_at s'))"
  using assms
proof (cases rule: ledger_claim_cases)
  case (2 row a)
  from 2(1) obtain w r where w: "claim_slot (ce_checked env) (ce_written env) (ce_slot_skipped env) (cd_runners db) (as_str fleet) (as_str runner) (cd_slots db)
      = Inr (Some w, cd_slots db')" "cr_fencing_token row = won_token w" "cr_lease_expires_at row = won_expires_at w"
    by (rule claim_head_sql_Some)
  from w(1) obtain s' where s': "cd_slots db' = (cd_slots db)(as_str fleet \<mapsto> s')" "won_token w = fencing_token s'"
      "slot_expires_at s' = won_expires_at w" "last_runner_id s' = Some (as_str runner)"
      "cd_slots db (as_str fleet) = None \<and> fencing_token s' = 1
       \<or> (\<exists>s. cd_slots db (as_str fleet) = Some s \<and> fencing_token s' = fencing_token s + 1)"
    by (rule claim_slot_Some) blast
  have "\<forall>b. res = Inr (Some b) \<longrightarrow> aq_fleet_id b = fleet \<and> as_i64 (aq_fence b) = fencing_token s' \<and> aq_leased_until b = slot_expires_at s'"
    using 2 w(2,3) s'(2,3) by auto
  with s' show ?thesis by blast
qed simp

section \<open>The slots as a state machine\<close>

text \<open>The store with the claims that were answered, newest first, kept as a ghost.  Any claim may run at any
  instant, on any earlier view of the tables and with any fault; a release may carry any fence, so a
  superseded holder's is among them; and everything else the daemon does moves deadlines and holds but no
  token, whatever it does to the other tables.\<close>

record claim_system =
  cs_db :: claim_db
  cs_granted :: "(uuid7 \<times> uuid7 \<times> acquired) list"

definition on_slots :: "(slots \<Rightarrow> slots) \<Rightarrow> claim_system \<Rightarrow> claim_system" where
  "on_slots f s = s\<lparr>cs_db := (cs_db s)\<lparr>cd_slots := f (cd_slots (cs_db s))\<rparr>\<rparr>"

inductive claim_step :: "claim_system \<Rightarrow> claim_system \<Rightarrow> bool" where
  grants: "ledger_claim env fleet runner (cs_db s) = (Inr (Some a), db)
    \<Longrightarrow> claim_step s (s\<lparr>cs_db := db, cs_granted := (fleet, runner, a) # cs_granted s\<rparr>)"
| answers_none: "ledger_claim env fleet runner (cs_db s) = (Inr None, db) \<Longrightarrow> claim_step s (s\<lparr>cs_db := db\<rparr>)"
| fails: "ledger_claim env fleet runner (cs_db s) = (Inl e, db) \<Longrightarrow> claim_step s (s\<lparr>cs_db := db\<rparr>)"
| let_go: "claim_step s (on_slots (release now fleet f) s)"
| finished: "claim_step s (on_slots (release_through now fleet f hold) s)"
| beat: "claim_step s (on_slots (clear_dropped_holds_sql runner listed settled is_final) s)"
| lapsed: "claim_step s (on_slots (expire_active_lease_slots_sql now runner back leased) s)"
| works: "tokens_kept (cd_slots (cs_db s)) (cd_slots db) \<Longrightarrow> claim_step s (s\<lparr>cs_db := db\<rparr>)"

text \<open>The metering statement is such a step of the slots.\<close>

lemma meter_keeps_tokens: "tokens_kept (lease_slots db) (lease_slots (snd (meter_lease_sql now e lease runner db)))"
  by (auto simp: tokens_kept_def meter_lease_sql_def meter_probe_def meter_writes_def Let_def split: option.splits ending.splits)

text \<open>The tokens granted on one fleet, newest first.\<close>

definition tokens :: "uuid7 \<Rightarrow> claim_system \<Rightarrow> int list" where
  "tokens fleet s = map (\<lambda>(_, _, a). as_i64 (aq_fence a)) (filter (\<lambda>(f, _, _). f = fleet) (cs_granted s))"

definition slot_token :: "uuid7 \<Rightarrow> claim_system \<Rightarrow> int option" where
  "slot_token fleet s = map_option fencing_token (cd_slots (cs_db s) (as_str fleet))"

definition tokens_ok :: "uuid7 \<Rightarrow> claim_system \<Rightarrow> bool" where
  "tokens_ok fleet s \<longleftrightarrow> sorted_wrt (>) (tokens fleet s)
     \<and> (case tokens fleet s of [] \<Rightarrow> True | t # _ \<Rightarrow> \<exists>u. slot_token fleet s = Some u \<and> t \<le> u)"

lemma tokens_same [simp]:
  "tokens fleet (s\<lparr>cs_db := db\<rparr>) = tokens fleet s" "tokens fleet (on_slots f s) = tokens fleet s"
  "tokens fleet (s\<lparr>cs_db := db, cs_granted := (g, r, a) # cs_granted s\<rparr>)
     = (if g = fleet then [as_i64 (aq_fence a)] else []) @ tokens fleet s"
  by (simp_all add: tokens_def on_slots_def)

lemma slot_token_on [simp]: "slot_token fleet (on_slots f s) = map_option fencing_token (f (cd_slots (cs_db s)) (as_str fleet))"
  by (simp add: slot_token_def on_slots_def)

lemma tokens_ok_same:
  "tokens_ok fleet s \<Longrightarrow> tokens fleet s' = tokens fleet s \<Longrightarrow> slot_token fleet s' = slot_token fleet s \<Longrightarrow> tokens_ok fleet s'"
  by (simp add: tokens_ok_def split: list.splits)

lemma kept_token: "tokens_kept (cd_slots (cs_db s)) ss \<Longrightarrow> map_option fencing_token (ss (as_str fleet)) = slot_token fleet s"
  by (simp add: tokens_kept_def slot_token_def)

text \<open>A claim's effect on one fleet's token.\<close>

lemma claimed_token:
  assumes "ledger_claim env g runner (cs_db s) = (res, db)"
  shows "slot_token fleet (s\<lparr>cs_db := db, cs_granted := x\<rparr>) = slot_token fleet s \<and> (g = fleet \<longrightarrow> (\<nexists>a. res = Inr (Some a)))
    \<or> g = fleet \<and> (\<exists>t. slot_token fleet (s\<lparr>cs_db := db, cs_granted := x\<rparr>) = Some t \<and> (\<forall>u. slot_token fleet s = Some u \<longrightarrow> u < t)
        \<and> (\<forall>a. res = Inr (Some a) \<longrightarrow> as_i64 (aq_fence a) = t))"
proof (cases "g = fleet")
  case True
  with claim_slots [OF assms] show ?thesis by (auto simp: slot_token_def)
next
  case False
  then have "as_str g \<noteq> as_str fleet" by (auto dest: uuid7.expand)
  with claim_slots [OF assms] show ?thesis by (auto simp: slot_token_def)
qed

lemma tokens_ok_silent:
  assumes "ledger_claim env g runner (cs_db s) = (res, db)" "\<nexists>a. res = Inr (Some a)" "tokens_ok fleet s"
  shows "tokens_ok fleet (s\<lparr>cs_db := db\<rparr>)"
  using claimed_token [OF assms(1), of fleet "cs_granted s"] assms(2,3)
  by (fastforce simp: tokens_ok_def split: list.splits)

lemma sorted_wrt_gt_Cons: "sorted_wrt (>) (x # xs) \<Longrightarrow> x < (y :: int) \<Longrightarrow> sorted_wrt (>) (y # x # xs)"
  by fastforce

lemma tokens_ok_step: "claim_step s s' \<Longrightarrow> tokens_ok fleet s \<Longrightarrow> tokens_ok fleet s'"
proof (induction rule: claim_step.induct)
  case (grants env g runner s a db)
  let ?s = "s\<lparr>cs_db := db, cs_granted := (g, runner, a) # cs_granted s\<rparr>"
  show ?case
  proof (cases "g = fleet")
    case True
    with claimed_token [OF grants(1), of fleet "(g, runner, a) # cs_granted s"] obtain t where
      t: "slot_token fleet ?s = Some t" "\<And>u. slot_token fleet s = Some u \<Longrightarrow> u < t" "as_i64 (aq_fence a) = t" by auto
    show ?thesis
    proof (cases "tokens fleet s")
      case Nil
      then show ?thesis using t True by (simp add: tokens_ok_def)
    next
      case (Cons x xs)
      with grants(2) obtain u where "slot_token fleet s = Some u" "x \<le> u" "sorted_wrt (>) (x # xs)" by (auto simp: tokens_ok_def)
      with t Cons True sorted_wrt_gt_Cons [of x xs t] show ?thesis by (fastforce simp: tokens_ok_def)
    qed
  next
    case False
    then show ?thesis using claimed_token [OF grants(1), of fleet "(g, runner, a) # cs_granted s"] grants(2)
      by (simp add: tokens_ok_def split: list.splits)
  qed
next
  case (answers_none env g runner s db)
  then show ?case using tokens_ok_silent by blast
next
  case (fails env g runner s e db)
  then show ?case using tokens_ok_silent by blast
next
  case (works s db)
  then show ?case by (elim tokens_ok_same) (simp_all add: slot_token_def tokens_kept_def)
qed (erule tokens_ok_same, simp, simp add: kept_token [OF tokens_kept_by(2)] kept_token [OF tokens_kept_by(3)]
    kept_token [OF tokens_kept_by(4)] kept_token [OF tokens_kept_by(5)])+

lemma tokens_run:
  "claim_step\<^sup>*\<^sup>* s s' \<Longrightarrow> cs_granted s = [] \<Longrightarrow> tokens_ok fleet s'"
proof (induction rule: rtranclp_induct)
  case base
  then show ?case by (simp add: tokens_ok_def tokens_def)
qed (auto intro: tokens_ok_step)

section \<open>What the slot guarantees\<close>

text \<open>C19: Whatever the interleaving of claims, releases, heartbeats, metering and faults, from any store,
  a fleet's deletion aside: every
  claim answered on a fleet carries a token strictly greater than every token answered on it before, and
  the slot row never falls behind the newest, so no two runners ever hold a fleet under one token and none
  holds it under a token that comes back.\<close>

theorem claims_mint_rising_tokens:
  assumes "claim_step\<^sup>*\<^sup>* s s'" "cs_granted s = []"
  shows "sorted_wrt (>) (tokens fleet s')
    \<and> (\<forall>newest older. tokens fleet s' = newest # older \<longrightarrow>
        (\<exists>row. cd_slots (cs_db s') (as_str fleet) = Some row \<and> newest \<le> fencing_token row))"
  using tokens_run [OF assms, of fleet] by (auto simp: tokens_ok_def slot_token_def)

text \<open>A holder the fleet superseded frees nothing: releasing a slot with any token but the newest answered
  leaves every slot as it was, on both release paths, so one fleet is never handed to two runners by a late
  release.\<close>

theorem superseded_release_frees_nothing:
  assumes "claim_step\<^sup>*\<^sup>* s s'" "cs_granted s = []" "tokens fleet s' = newest # older" "as_i64 f \<in> set older"
  shows "release now fleet f (cd_slots (cs_db s')) = cd_slots (cs_db s')
    \<and> release_through now fleet f hold (cd_slots (cs_db s')) = cd_slots (cs_db s')"
proof -
  from tokens_run [OF assms(1,2), of fleet] assms(3,4) obtain row where
    "cd_slots (cs_db s') (as_str fleet) = Some row" "newest \<le> fencing_token row" "as_i64 f < newest"
    by (auto simp: tokens_ok_def slot_token_def)
  then show ?thesis by (auto simp: release_superseded)
qed

text \<open>What a claim hands out is the fleet's own: the event is the oldest unsettled admission the runner may run,
  as the statement first saw the ledger, still unsettled and let run once its row is locked; the slot and
  the admission both carry the token answered, the slot under this runner; and no other fleet's slot and no
  other admission moves.\<close>

theorem claim_hands_out_the_head:
  assumes "ledger_claim env fleet runner db = (Inr (Some a), db')"
  shows "\<exists>h r s'. claim_head (ce_checked env) (ce_before env) (as_str fleet) (as_str runner) = Some h
    \<and> ad_id h = aq_event_id a \<and> r \<in> set (cd_ledger db) \<and> ad_id r = aq_event_id a \<and> ad_settled_at r = None
    \<and> runnable_row (ce_checked env) (ce_before env) r \<and> aq_request_json a = ad_request r
    \<and> (\<forall>x \<in> set (cd_ledger (ce_before env)). ad_fleet x = as_str fleet \<and> ad_workspace x = ad_workspace h \<and> ad_settled_at x = None
        \<and> (\<forall>host. cd_hosts (ce_before env) (as_str runner) = Some host \<longrightarrow> task_ready (ce_checked env) (ce_before env) host x)
        \<longrightarrow> lr_sequence h \<le> lr_sequence x)
    \<and> cd_slots db' = (cd_slots db)(as_str fleet \<mapsto> s') \<and> fencing_token s' = as_i64 (aq_fence a)
    \<and> last_runner_id s' = Some (as_str runner) \<and> slot_expires_at s' = aq_leased_until a
    \<and> cd_ledger db' = map (stamp_head (ce_now env) (aq_event_id a) (as_i64 (aq_fence a))) (cd_ledger db)"
  using assms
proof (cases rule: ledger_claim_cases)
  case (2 row b)
  from 2(1) obtain w r where w: "claim_slot (ce_checked env) (ce_written env) (ce_slot_skipped env) (cd_runners db) (as_str fleet)
        (as_str runner) (cd_slots db) = Inr (Some w, cd_slots db')"
      and r: "stamped_row env (as_str fleet) (as_str runner) db = Some r"
      and out: "cd_ledger db' = map (stamp_head (ce_now env) (ad_id r) (won_token w)) (cd_ledger db)"
        "cr_event_id row = ad_id r" "cr_fencing_token row = won_token w" "cr_lease_expires_at row = won_expires_at w"
        "cr_request_json row = ad_request r"
    by (rule claim_head_sql_Some)
  from w obtain s' where s': "cd_slots db' = (cd_slots db)(as_str fleet \<mapsto> s')" "won_token w = fencing_token s'"
      "slot_expires_at s' = won_expires_at w" "last_runner_id s' = Some (as_str runner)"
    by (rule claim_slot_Some)
  from r obtain h where h: "claim_head (ce_checked env) (ce_before env) (as_str fleet) (as_str runner) = Some h" "ad_id r = ad_id h"
      "r \<in> set (cd_ledger db)" "ad_settled_at r = None" "runnable_row (ce_checked env) (ce_before env) r"
    by (auto simp: stamped_row_def find_Some_iff in_set_conv_nth split: option.split_asm if_split_asm)
  from claim_head_Some [OF h(1)] have least: "\<forall>x \<in> set (cd_ledger (ce_before env)). ad_fleet x = as_str fleet
      \<and> ad_workspace x = ad_workspace h \<and> ad_settled_at x = None
      \<and> (\<forall>host. cd_hosts (ce_before env) (as_str runner) = Some host \<longrightarrow> task_ready (ce_checked env) (ce_before env) host x)
      \<longrightarrow> lr_sequence h \<le> lr_sequence x" by auto
  have a: "as_i64 (aq_fence a) = won_token w" "aq_event_id a = ad_id r" "aq_leased_until a = won_expires_at w" "aq_request_json a = ad_request r"
    using 2 out by auto
  show ?thesis
    by (rule exI [of _ h], rule exI [of _ r], rule exI [of _ s'])
      (use h a s' out(1) least in simp)
qed simp

text \<open>A fleet whose slot a runner cannot win answers it no run and changes nothing.\<close>

lemma unwinnable_claim:
  assumes "cd_slots db (as_str fleet) = Some s" "\<not> winnable (ce_checked env) (cd_runners db) (as_str other) s"
  shows "snd (ledger_claim env fleet other db) = db \<and> (\<forall>b. fst (ledger_claim env fleet other db) \<noteq> Inr (Some b))"
  using assms by (simp add: ledger_claim_def claim_head_sql_def claim_slot_def)

text \<open>One of several racing runners wins: until the answered deadline has passed no runner claims the fleet
  again, and one whose run left a live sandbox hold keeps the fleet from every other while it stays live.\<close>

theorem claim_excludes_other_runners:
  assumes "ledger_claim env fleet runner db = (Inr (Some a), db1)"
  shows "(ce_checked later \<le> aq_leased_until a \<longrightarrow> snd (ledger_claim later fleet other db1) = db1
        \<and> (\<forall>b. fst (ledger_claim later fleet other db1) \<noteq> Inr (Some b)))
    \<and> (\<forall>now hold db2. db2 = db1\<lparr>cd_slots := release_through now fleet (aq_fence a) (Some hold) (cd_slots db1)\<rparr>
        \<longrightarrow> now < hold \<longrightarrow> hold \<le> now + sandbox_hold_idle \<longrightarrow> ce_checked later < hold \<longrightarrow> other \<noteq> runner
        \<longrightarrow> runner_live (ce_checked later) (cd_runners db1) (Some (as_str runner))
        \<longrightarrow> snd (ledger_claim later fleet other db2) = db2 \<and> (\<forall>b. fst (ledger_claim later fleet other db2) \<noteq> Inr (Some b)))"
proof -
  from claim_slots [OF assms] obtain s' where s': "cd_slots db1 = (cd_slots db)(as_str fleet \<mapsto> s')"
    "last_runner_id s' = Some (as_str runner)" "as_i64 (aq_fence a) = fencing_token s'" "aq_leased_until a = slot_expires_at s'"
    by auto
  have neq: "other \<noteq> runner \<Longrightarrow> as_str runner \<noteq> as_str other" by (auto dest: uuid7.expand)
  show ?thesis
  proof (intro conjI impI allI)
    assume t: "ce_checked later \<le> aq_leased_until a"
    have "\<not> winnable (ce_checked later) (cd_runners db1) (as_str other) s'" using t s'(4) by (simp add: winnable_def)
    with unwinnable_claim [of db1 fleet s' later other] s'(1)
    show "snd (ledger_claim later fleet other db1) = db1" "fst (ledger_claim later fleet other db1) \<noteq> Inr (Some b)" for b by simp_all
  next
    fix now hold db2
    assume db2: "db2 = db1\<lparr>cd_slots := release_through now fleet (aq_fence a) (Some hold) (cd_slots db1)\<rparr>"
      and t: "now < hold" "hold \<le> now + sandbox_hold_idle" "ce_checked later < hold" "other \<noteq> runner"
        "runner_live (ce_checked later) (cd_runners db1) (Some (as_str runner))"
    let ?s = "s'\<lparr>slot_expires_at := now - from_millis 1, hold_expires_at := Some hold\<rparr>"
    have "cd_slots db2 (as_str fleet) = Some ?s"
      using t(1,2) s'(1,3) by (simp add: db2 release_through_def min_def)
    moreover have "\<not> winnable (ce_checked later) (cd_runners db2) (as_str other) ?s"
      using t(3-5) s'(2) neq by (simp add: winnable_def db2)
    ultimately show "snd (ledger_claim later fleet other db2) = db2" "fst (ledger_claim later fleet other db2) \<noteq> Inr (Some b)" for b
      using unwinnable_claim [of db2 fleet ?s later other] by simp_all
  qed
qed

text \<open>A poll is a run of these steps that answers at most one run: with whatever the daemon does between its
  claims, the candidates it passes over are left as they are.\<close>

lemma poll_steps:
  assumes "claim_candidates envs meanwhile n runner texts db = (res, db')" "\<And>k x. tokens_kept (cd_slots x) (cd_slots (meanwhile k x))"
  shows "claim_step\<^sup>*\<^sup>* \<lparr>cs_db = db, cs_granted = g\<rparr> \<lparr>cs_db = db', cs_granted = (case res of Inr (Some a) \<Rightarrow> (aq_fleet_id a, runner, a) # g | _ \<Rightarrow> g)\<rparr>"
  using assms
proof (induction texts arbitrary: n db)
  case (Cons t rest)
  show ?case
  proof (cases "uuid7_parse t")
    case (Inr fleet)
    obtain r1 db1 where c: "ledger_claim (envs n) fleet runner (meanwhile n db) = (r1, db1)" by force
    let ?m = "\<lparr>cs_db = meanwhile n db, cs_granted = g\<rparr>"
    have w: "claim_step \<lparr>cs_db = db, cs_granted = g\<rparr> ?m"
      using claim_step.works [of "\<lparr>cs_db = db, cs_granted = g\<rparr>" "meanwhile n db"] Cons.prems(2) by simp
    show ?thesis
    proof (cases r1)
      case (Inl e)
      have "claim_step ?m \<lparr>cs_db = db1, cs_granted = g\<rparr>" using claim_step.fails [of "envs n" fleet runner ?m e db1] c Inl by simp
      with w Cons.prems(1) Inr c Inl show ?thesis by (auto intro: converse_rtranclp_into_rtranclp)
    next
      case (Inr found)
      show ?thesis
      proof (cases found)
        case None
        have "claim_step ?m \<lparr>cs_db = db1, cs_granted = g\<rparr>" using claim_step.answers_none [of "envs n" fleet runner ?m db1] c Inr None by simp
        moreover have "claim_candidates envs meanwhile (n + 1) runner rest db1 = (res, db')"
          using Cons.prems(1) \<open>uuid7_parse t = Inr fleet\<close> c Inr None by simp
        ultimately show ?thesis using w Cons.IH [OF _ Cons.prems(2)] by (meson converse_rtranclp_into_rtranclp)
      next
        case (Some a)
        have "claim_step ?m \<lparr>cs_db = db1, cs_granted = (fleet, runner, a) # g\<rparr>"
          using claim_step.grants [of "envs n" fleet runner ?m a db1] c Inr Some by simp
        moreover have "aq_fleet_id a = fleet" using claim_slots [OF c] Inr Some by auto
        ultimately show ?thesis using w Cons.prems(1) \<open>uuid7_parse t = Inr fleet\<close> c Inr Some
          by (auto intro: converse_rtranclp_into_rtranclp)
      qed
    qed
  qed (use Cons.prems in auto)
qed auto

theorem poll_is_a_run:
  assumes "ledger_counted envs meanwhile scan_fails rank now runner held hint db = (res, db')"
    "\<And>k x. tokens_kept (cd_slots x) (cd_slots (meanwhile k x))"
  shows "claim_step\<^sup>*\<^sup>* \<lparr>cs_db = db, cs_granted = g\<rparr>
    \<lparr>cs_db = db', cs_granted = (case res of Inr (Some a) \<Rightarrow> (aq_fleet_id a, runner, a) # g | _ \<Rightarrow> g)\<rparr>"
  using assms poll_steps [OF _ assms(2)] by (auto simp: ledger_counted_def split: if_split_asm)

end
