(* ===== verification/ClaimSamples.thy ===== *)
theory ClaimSamples
  imports Claims
begin

text \<open>
  One fleet with one waiting admission and two runners: the first claims it, its claim lapses and the second
  claims it again.  The guarantees of the slot are applied here at these inputs.
\<close>

definition yard_fleet :: uuid7 where "yard_fleet = Uuid7 ''0190a0b0-0000-7000-8000-0000000000f1''"
definition yard_runner :: "char \<Rightarrow> uuid7" where "yard_runner c = Uuid7 (''0190a0b0-0000-7000-8000-0000000000a'' @ [c])"
definition yard_workspace :: string where "yard_workspace = ''0190a0b0-0000-7000-8000-0000000000b1''"

lemma yard_parsed: "uuid7_parse yard_workspace = Inr (Uuid7 yard_workspace)"
    "uuid7_parse (as_str yard_fleet) = Inr yard_fleet"
  by code_simp+

lemma yard_ids: "as_str (yard_runner CHR ''1'') \<noteq> as_str (yard_runner CHR ''2'')" "yard_runner CHR ''1'' \<noteq> yard_runner CHR ''2''"
  by (simp_all add: yard_runner_def)

definition yard_host :: runner_row where
  "yard_host = \<lparr>last_seen_at = 0, runner_status = ''active'', degraded_reason = None, worker_count = 1, lease_version = 0,
     last_lease_type = None, decision_platform_model_id = None\<rparr>"

definition yard_row :: "int option \<Rightarrow> instant \<Rightarrow> ledger_row" where
  "yard_row fence touched = \<lparr>ad_id = ''e1'', ad_fleet = as_str yard_fleet, ad_workspace = yard_workspace, ad_producer = ''steer'',
     ad_key = ''k'', ad_digest = ''d'', ad_actor = ''me'', ad_event_type = ''chat'', ad_request = ''{}'', ad_reply = None,
     ad_created_at = 0, ad_updated_at = touched, ad_settled_at = None, ad_task = None, ad_generation = None, lr_sequence = 1,
     lr_event_created_at = 0, lr_delivered_at = None, lr_parked_at = None, lr_fence = fence\<rparr>"

definition yard_slot :: "int \<Rightarrow> char \<Rightarrow> instant \<Rightarrow> slot" where
  "yard_slot n c until = \<lparr>last_runner_id = Some (as_str (yard_runner c)), fencing_token = n, slot_expires_at = until,
     hold_expires_at = None\<rparr>"

definition yard :: "slots \<Rightarrow> ledger_row \<Rightarrow> claim_db" where
  "yard ss r = \<lparr>cd_slots = ss,
     cd_runners = [as_str (yard_runner CHR ''1'') \<mapsto> yard_host, as_str (yard_runner CHR ''2'') \<mapsto> yard_host],
     cd_hosts = (\<lambda>_. Some \<lparr>ch_durable = False, ch_report = None, ch_labels = []\<rparr>),
     cd_fleets = [\<lparr>cf_id = as_str yard_fleet, cf_workspace = yard_workspace, cf_status = ''active'', cf_decides = False, cf_tags = []\<rparr>],
     cd_ledger = [r], cd_tasks = Map.empty, cd_gates = [], cd_events = Map.empty, cd_leases = [], cd_expired = Map.empty\<rparr>"

definition yard_env :: "instant \<Rightarrow> claim_db \<Rightarrow> claim_env" where
  "yard_env t db = \<lparr>ce_now = t, ce_checked = t, ce_written = t, ce_slot_skipped = False, ce_row_skipped = (\<lambda>_. False), ce_before = db,
     ce_begin_fails = False, ce_query_fails = False, ce_rollback_fails = False, ce_commit = ClaimCommitted\<rparr>"

definition yard_run :: "int \<Rightarrow> instant \<Rightarrow> acquired" where
  "yard_run n until = \<lparr>aq_fleet_id = yard_fleet, aq_fence = Fence n, aq_leased_until = until, aq_kind = FreshRun,
     aq_event_id = ''e1'', aq_actor = ''me'', aq_event_type = ''chat'', aq_request_json = ''{}'',
     aq_workspace_id = Uuid7 yard_workspace, aq_event_created_at = 0, aq_reused = None, aq_resume_hold = False,
     aq_redelivered = False\<rparr>"

definition yard_0 :: claim_db where "yard_0 = yard Map.empty (yard_row None 0)"
definition yard_1 :: claim_db where "yard_1 = yard [as_str yard_fleet \<mapsto> yard_slot 1 CHR ''1'' lease_ttl] (yard_row (Some 1) 0)"
definition yard_2 :: claim_db where
  "yard_2 = yard [as_str yard_fleet \<mapsto> yard_slot 2 CHR ''2'' (lease_ttl + 1 + lease_ttl)] (yard_row (Some 2) (lease_ttl + 1))"

lemma yard_head: "stamped_row (yard_env t (yard ss r)) (as_str yard_fleet) runner (yard ss r) = Some r" if "r = yard_row fence touched"
  by (simp add: that stamped_row_def claim_head_def yard_env_def yard_def host_suits_def task_ready_def runnable_row_def yard_row_def)

lemma yard_columns [simp]: "cd_slots (yard ss r) = ss" "cd_ledger (yard ss r) = [r]" "cd_leases (yard ss r) = []"
    "cd_runners (yard ss r) (as_str (yard_runner CHR ''1'')) = Some yard_host" "cd_runners (yard ss r) (as_str (yard_runner CHR ''2'')) = Some yard_host"
    "yard ss r\<lparr>cd_slots := ss', cd_ledger := [r']\<rparr> = yard ss' r'"
  using yard_ids by (simp_all add: yard_def)

lemma yard_env_fields [simp]: "ce_now (yard_env t db) = t" "ce_checked (yard_env t db) = t" "ce_written (yard_env t db) = t"
    "\<not> ce_slot_skipped (yard_env t db)" "ce_before (yard_env t db) = db" "\<not> ce_begin_fails (yard_env t db)"
    "\<not> ce_query_fails (yard_env t db)" "ce_commit (yard_env t db) = ClaimCommitted"
  by (simp_all add: yard_env_def)

lemma yard_row_fields [simp]: "ad_id (yard_row f t) = ''e1''" "ad_workspace (yard_row f t) = yard_workspace" "ad_actor (yard_row f t) = ''me''"
    "ad_event_type (yard_row f t) = ''chat''" "ad_request (yard_row f t) = ''{}''" "lr_event_created_at (yard_row f t) = 0"
    "lr_delivered_at (yard_row f t) = None" "yard_row f t\<lparr>lr_fence := g, ad_updated_at := u\<rparr> = yard_row g u"
  by (simp_all add: yard_row_def)

lemmas yard_claim_defs = ledger_claim_def claim_head_sql_def claim_slot_def expire_prior_def prior_lease_def
  acquired_of_def reused_of_def stamp_head_def ok_or_def Let_def yard_parsed yard_head [OF refl] yard_run_def yard_slot_def

lemma yard_first: "ledger_claim (yard_env 0 yard_0) yard_fleet (yard_runner CHR ''1'') yard_0 = (Inr (Some (yard_run 1 lease_ttl)), yard_1)"
  by (simp add: yard_0_def yard_1_def yard_claim_defs)

lemma yard_second: "ledger_claim (yard_env (lease_ttl + 1) yard_1) yard_fleet (yard_runner CHR ''2'') yard_1
    = (Inr (Some (yard_run 2 (lease_ttl + 1 + lease_ttl))), yard_2)"
  by (simp add: yard_1_def yard_2_def yard_claim_defs winnable_def int_width)

definition yard_end :: claim_system where
  "yard_end = \<lparr>cs_db = yard_2, cs_granted = [(yard_fleet, yard_runner CHR ''2'', yard_run 2 (lease_ttl + 1 + lease_ttl)),
     (yard_fleet, yard_runner CHR ''1'', yard_run 1 lease_ttl)]\<rparr>"

lemma yard_reached: "claim_step\<^sup>*\<^sup>* \<lparr>cs_db = yard_0, cs_granted = []\<rparr> yard_end"
proof -
  have "claim_step \<lparr>cs_db = yard_0, cs_granted = []\<rparr>
      \<lparr>cs_db = yard_1, cs_granted = [(yard_fleet, yard_runner CHR ''1'', yard_run 1 lease_ttl)]\<rparr>"
    using claim_step.grants [of _ _ _ "\<lparr>cs_db = yard_0, cs_granted = []\<rparr>"] yard_first by simp
  moreover have "claim_step \<lparr>cs_db = yard_1, cs_granted = [(yard_fleet, yard_runner CHR ''1'', yard_run 1 lease_ttl)]\<rparr> yard_end"
    using claim_step.grants [of _ _ _ "\<lparr>cs_db = yard_1, cs_granted = [(yard_fleet, yard_runner CHR ''1'', yard_run 1 lease_ttl)]\<rparr>"]
      yard_second by (simp add: yard_end_def)
  ultimately show ?thesis by (meson converse_rtranclp_into_rtranclp rtranclp.rtrancl_refl)
qed

lemma yard_tokens: "tokens yard_fleet yard_end = [2, 1]"
  by (simp add: tokens_def yard_end_def yard_run_def)

theorem claims_mint_rising_tokens_witness: "sorted_wrt (>) (tokens yard_fleet yard_end) \<and> tokens yard_fleet yard_end = [2, 1]"
  using claims_mint_rising_tokens [OF yard_reached, of yard_fleet] yard_tokens by simp

theorem superseded_release_frees_nothing_witness:
  "release 25 yard_fleet (Fence 1) (cd_slots yard_2) = cd_slots yard_2"
  using superseded_release_frees_nothing [OF yard_reached, of yard_fleet 2 "[1]" "Fence 1"] yard_tokens
  by (simp add: yard_end_def)

theorem claim_hands_out_the_head_witness:
  "\<exists>s'. cd_slots yard_1 (as_str yard_fleet) = Some s' \<and> fencing_token s' = 1"
  using claim_hands_out_the_head [OF yard_first] by (auto simp: yard_run_def)

theorem claim_excludes_other_runners_witness:
  "snd (ledger_claim (yard_env lease_ttl yard_1) yard_fleet (yard_runner CHR ''2'') yard_1) = yard_1"
  using claim_excludes_other_runners [OF yard_first, of "yard_env lease_ttl yard_1" "yard_runner CHR ''2''"]
  by (simp add: yard_env_def yard_run_def)

end
