(* ===== verification/Relay.thy ===== *)
theory Relay
  imports Ledger Keyset
begin

text \<open>
  The billing relay, \<open>afd_billing/src/ledger/sweep.rs\<close>: it reads the unsettled lines
  oldest first, a bounded batch at a time, groups them into settlements and passes each to a
  biller, resuming after the last line it read so that a refused work never blocks newer ones.
\<close>

section \<open>Reading a batch\<close>

definition batch_limit :: nat where "batch_limit = 500"

record resume =
  res_logged_at :: instant
  res_line_id :: string

definition row_position :: "usage_row \<Rightarrow> instant \<times> string" where
  "row_position r = (logged_at r, as_str (line_id r))"

definition resume_position :: "resume \<Rightarrow> instant \<times> string" where
  "resume_position p = (res_logged_at p, res_line_id p)"

text \<open>\<open>select_unsettled.sql\<close>.\<close>

definition select_unsettled :: "nat \<Rightarrow> resume option \<Rightarrow> billing_db \<Rightarrow> usage_row list" where
  "select_unsettled limit after db =
     take limit (sort_key row_position
       (filter (\<lambda>r. settled_at r = None \<and>
          (case after of None \<Rightarrow> True
           | Some p \<Rightarrow> logged_at r > res_logged_at p
               \<or> (logged_at r = res_logged_at p \<and> as_str (line_id r) > res_line_id p)))
          (usage_lines db)))"

section \<open>Rows back into lines\<close>

definition row_count :: "int \<Rightarrow> u32" where
  "row_count stored = (case try_u32 stored of None \<Rightarrow> u32_max | Some w \<Rightarrow> w)"

definition row_identity :: "usage_row \<Rightarrow> string \<times> string \<times> string \<times> string \<times> string" where
  "row_identity r = (row_work_type r, row_work_id r, row_provider r, row_model r, row_posture r)"

definition parse_id :: "string \<Rightarrow> (billing_error, uuid7) result" where
  "parse_id t = (case uuid7_parse t of Inl _ \<Rightarrow> Inl RowMalformed | Inr u \<Rightarrow> Inr u)"

definition row_line :: "usage_row \<Rightarrow> (billing_error, rated_line) result" where
  "row_line r =
     res_bind (case price_id r of None \<Rightarrow> Inr None
               | Some p \<Rightarrow> res_bind (parse_id p) (\<lambda>u. Inr (Some u)))
       (\<lambda>price. Inr \<lparr> usage = \<lparr> seq = row_count (row_seq r), at = requested_at r,
           input_tokens = row_count (input_token_count r),
           cached_input_tokens = row_count (cached_input_token_count r),
           cache_write_tokens = row_count (cache_write_token_count r),
           cache_write_5m_tokens = row_count (cache_write_5m_token_count r),
           cache_write_1h_tokens = row_count (cache_write_1h_token_count r),
           output_tokens = row_count (output_token_count r),
           runtime_ms = row_count (row_runtime_ms r) \<rparr>,
         rated_price = price, charged = charged_nanos r,
         unpriced_tokens = (if 0 \<le> unpriced_token_count r then word_of_int (unpriced_token_count r)
           else 0) \<rparr>)"

definition row_work :: "usage_row \<Rightarrow> (uuid7 \<Rightarrow> work_key) option" where
  "row_work r = (if row_work_type r = ''fleet_lease'' then Some FleetLease
     else if row_work_type r = ''authoring_attempt'' then Some AuthoringAttempt else None)"

definition row_settlement :: "usage_row \<Rightarrow> (uuid7 \<Rightarrow> work_key) \<Rightarrow> rated_line list
    \<Rightarrow> (billing_error, settlement) result" where
  "row_settlement r w ls =
     res_bind (case (row_fleet_id r, row_event_id r) of
         (Some f, Some e) \<Rightarrow> res_bind (parse_id f) (\<lambda>fleet. Inr (AttrFleet fleet
            (case row_fleet_name r of None \<Rightarrow> [] | Some n \<Rightarrow> n) e))
       | _ \<Rightarrow> Inr SetupChat) (\<lambda>a.
     res_bind (parse_id (row_work_id r)) (\<lambda>wid.
     res_bind (parse_id (row_tenant_id r)) (\<lambda>t.
     res_bind (parse_id (row_workspace_id r)) (\<lambda>ws.
       Inr \<lparr> work = w wid, payer = \<lparr>tenant = t, workspace = ws\<rparr>, attr = a,
         provider = row_provider r, model = row_model r,
         s_posture = (case posture_parse (row_posture r) of None \<Rightarrow> Platform | Some p \<Rightarrow> p),
         lines = ls \<rparr>))))"

section \<open>Grouping\<close>

text \<open>
  The peekable loop: a row of an unknown work kind is skipped alone; otherwise the run of rows
  with the same identity becomes one settlement under the first row's header.
\<close>

function group_runs :: "usage_row list \<Rightarrow> (billing_error, settlement list) result" where
  "group_runs [] = Inr []"
| "group_runs (r # rs) =
     (case row_work r of
        None \<Rightarrow> group_runs rs
      | Some w \<Rightarrow>
          res_bind (row_line r) (\<lambda>l.
          res_bind (traverse row_line (takeWhile (\<lambda>x. row_identity x = row_identity r) rs)) (\<lambda>ls.
          res_bind (row_settlement r w (l # ls)) (\<lambda>s.
          res_bind (group_runs (dropWhile (\<lambda>x. row_identity x = row_identity r) rs)) (\<lambda>ss.
            Inr (s # ss))))))"
  by pat_completeness auto
termination
  by (relation "measure length") (auto simp: le_imp_less_Suc length_dropWhile_le)

definition grouped :: "usage_row list \<Rightarrow> (billing_error, settlement list) result" where
  "grouped rows = group_runs (sort_key (\<lambda>r. (row_identity r, row_seq r)) rows)"

definition unsettled :: "nat \<Rightarrow> resume option \<Rightarrow> billing_db
    \<Rightarrow> (billing_error, settlement list \<times> resume option) result" where
  "unsettled limit after db =
     (let rows = select_unsettled limit after db;
          next_at = (if limit \<le> length rows \<and> rows \<noteq> []
            then Some \<lparr> res_logged_at = logged_at (last rows),
                        res_line_id = as_str (line_id (last rows)) \<rparr> else None)
      in res_bind (grouped rows) (\<lambda>ss. Inr (ss, next_at)))"

section \<open>One pass\<close>

record resettled =
  n_settled :: nat
  n_failed :: nat
  full :: bool
  refused :: "billing_error option"
  next_resume :: "resume option"

text \<open>
  The loop over the batch, for any biller: a refusal is counted and the rest of the batch still
  runs.  \<open>envs i\<close> is what the i-th call reads from its surroundings (identifiers, clock).
\<close>

fun settle_each :: "('env \<Rightarrow> settlement \<Rightarrow> 's \<Rightarrow> (billing_error, receipt \<times> 's) result)
    \<Rightarrow> 'env list \<Rightarrow> settlement list \<Rightarrow> 's \<times> resettled \<Rightarrow> 's \<times> resettled" where
  "settle_each settle (e # es) (s # ss) (db, d) =
     (case settle e s db of
        Inr (_, db') \<Rightarrow> settle_each settle es ss (db', d\<lparr>n_settled := n_settled d + 1\<rparr>)
      | Inl fault \<Rightarrow> settle_each settle es ss (db, d\<lparr>n_failed := n_failed d + 1,
          refused := (case refused d of None \<Rightarrow> Some fault | Some f \<Rightarrow> Some f)\<rparr>))"
| "settle_each settle es ss (db, d) = (db, d)"

definition resettle :: "('env \<Rightarrow> settlement \<Rightarrow> billing_db \<Rightarrow> (billing_error, receipt \<times> billing_db) result)
    \<Rightarrow> 'env list \<Rightarrow> resume option \<Rightarrow> billing_db \<Rightarrow> (billing_error, billing_db \<times> resettled) result" where
  "resettle settle envs after db =
     res_bind (unsettled batch_limit after db) (\<lambda>(ss, next_at).
       Inr (settle_each settle envs ss (db, \<lparr> n_settled = 0, n_failed = 0,
          full = (next_at \<noteq> None), refused = None, next_resume = next_at \<rparr>)))"

section \<open>A lap visits every unsettled line\<close>

definition resume_of :: "usage_row \<Rightarrow> resume" where
  "resume_of r = \<lparr> res_logged_at = logged_at r, res_line_id = as_str (line_id r) \<rparr>"

definition unsettled_rows :: "billing_db \<Rightarrow> usage_row list" where
  "unsettled_rows db = filter (\<lambda>r. settled_at r = None) (usage_lines db)"

lemma select_unsettled_None:
  "select_unsettled limit None db = take limit (sort_key row_position (unsettled_rows db))"
  by (simp add: select_unsettled_def unsettled_rows_def)

lemma select_unsettled_Some:
  "select_unsettled limit (Some p) db = take limit (sort_key row_position
     (filter (\<lambda>r. resume_position p < row_position r) (unsettled_rows db)))"
proof -
  have "resume_position p < row_position r \<longleftrightarrow> logged_at r > res_logged_at p
     \<or> (logged_at r = res_logged_at p \<and> as_str (line_id r) > res_line_id p)" for r
    by (auto simp: resume_position_def row_position_def less_prod_def)
  then show ?thesis
    by (simp add: select_unsettled_def unsettled_rows_def conj_commute)
qed

interpretation relay_pages: keyset row_position unsettled_rows select_unsettled resume_of
    resume_position db_wf
proof (unfold_locales)
  fix db assume "db_wf db"
  then have "distinct (map line_id (unsettled_rows db))"
    by (simp add: db_wf_def unsettled_rows_def distinct_map_filter)
  then show "distinct (map row_position (unsettled_rows db))"
    by (auto simp: distinct_map inj_on_def row_position_def uuid7.expand)
qed (simp_all add: select_unsettled_None select_unsettled_Some resume_position_def resume_of_def
    row_position_def)

text \<open>One lap of the relay reads every unsettled line exactly once, oldest first, whatever
  the batch size, even when every biller call is refused and the lines stay unsettled: a refused
  work never holds the newer lines behind it.\<close>

theorem relay_lap_reads_every_line:
  assumes "db_wf db" "0 < limit" "length (unsettled_rows db) < pages * limit"
  shows "keyset_walk select_unsettled resume_of limit pages None db
       = sort_key row_position (unsettled_rows db)"
  using assms by (rule relay_pages.walk_visits_all)

section \<open>Passes over a biller\<close>

context biller
begin

lemma settle_each_counts:
  assumes "length ss \<le> length es"
  shows "n_settled (snd (settle_each settle es ss (db, d))) + n_failed (snd (settle_each settle es ss (db, d)))
     = n_settled d + n_failed d + length ss"
  using assms
proof (induction ss arbitrary: es db d)
  case (Cons s ss)
  then obtain e es' where es: "es = e # es'" by (cases es) auto
  show ?case
    using Cons.prems by (auto simp: es Cons.IH split: sum.split)
qed (cases es; simp)

lemma settle_each_invar: "invar db \<Longrightarrow> invar (fst (settle_each settle es ss (db, d)))"
proof (induction ss arbitrary: es db d)
  case (Cons s ss)
  then show ?case by (cases es) (auto split: sum.split dest: settle_invar)
qed (cases es; simp)

lemma settle_each_keeps:
  "invar db \<Longrightarrow> settled_for s db \<Longrightarrow> settled_for s (fst (settle_each settle es ss (db, d)))"
proof (induction ss arbitrary: es db d)
  case (Cons s' ss)
  then show ?case by (cases es) (auto split: sum.split dest: settle_invar settled_stays)
qed (cases es; simp)

lemma settle_each_failed_mono: "n_failed d \<le> n_failed (snd (settle_each settle es ss (db, d)))"
proof (induction ss arbitrary: es db d)
  case (Cons s ss)
  show ?case
  proof (cases es)
    case (Cons e es')
    have "n_failed (d\<lparr>n_settled := m\<rparr>) \<le> n_failed (snd (settle_each settle es' ss (db', d\<lparr>n_settled := m\<rparr>)))"
      for m db' by (rule Cons.IH)
    moreover have "n_failed (d\<lparr>n_failed := Suc (n_failed d), refused := f\<rparr>)
        \<le> n_failed (snd (settle_each settle es' ss (db, d\<lparr>n_failed := Suc (n_failed d), refused := f\<rparr>)))"
      for f by (rule Cons.IH)
    ultimately show ?thesis by (auto simp: Cons split: sum.split intro: Suc_leD)
  qed simp
qed (cases es; simp)

lemma settle_each_all:
  assumes "invar db" "length ss \<le> length es"
    "n_failed (snd (settle_each settle es ss (db, d))) = n_failed d"
  shows "\<forall>s \<in> set ss. settled_for s (fst (settle_each settle es ss (db, d)))"
  using assms
proof (induction ss arbitrary: es db d)
  case (Cons s ss)
  then obtain e es' where es: "es = e # es'" by (cases es) auto
  show ?case
  proof (cases "settle e s db")
    case (Inl f)
    let ?d = "d\<lparr>n_failed := Suc (n_failed d),
       refused := (case refused d of None \<Rightarrow> Some f | Some g \<Rightarrow> Some g)\<rparr>"
    have "n_failed ?d \<le> n_failed (snd (settle_each settle es' ss (db, ?d)))"
      by (rule settle_each_failed_mono)
    with Cons.prems(3) show ?thesis by (simp add: es Inl)
  next
    case (Inr x)
    obtain r db' where x: "x = (r, db')" by (cases x)
    note ok = Inr [unfolded x]
    from Cons.prems(1) ok have "invar db'" "settled_for s db'"
      by (auto intro: settle_invar settle_marks)
    then show ?thesis
      using Cons.IH [of db' es' "d\<lparr>n_settled := Suc (n_settled d)\<rparr>"] Cons.prems
      by (auto simp: es ok settle_each_keeps)
  qed
qed simp

lemma settle_each_again:
  "invar db \<Longrightarrow> \<forall>s \<in> set ss. settled_for s db \<Longrightarrow> fst (settle_each settle es ss (db, d)) = db"
proof (induction ss arbitrary: es d)
  case (Cons s ss)
  then show ?case by (cases es) (auto split: sum.split dest: settled_once)
qed (cases es; simp)

end

text \<open>A repeated relay pass charges nothing: once a pass over a batch of settlements met no
  refusal, running the same batch again, at any later time and with any minted identifiers,
  leaves every wallet and every usage line exactly as the first pass left them.\<close>

theorem repeated_pass_charges_nothing:
  assumes "db_wf db" "length ss \<le> length es"
    and "settle_each ledger_settle es ss (db, d) = (db1, d1)" "n_failed d1 = n_failed d"
  shows "fst (settle_each ledger_settle es' ss (db1, d')) = db1"
proof (rule lb.settle_each_again)
  show "db_wf db1" using lb.settle_each_invar [OF assms(1), of es ss d] assms(3) by simp
  show "\<forall>s \<in> set ss. charged_for s db1"
    using lb.settle_each_all [OF assms(1,2), of d] assms(3,4) by simp
qed

section \<open>The log read back\<close>

text \<open>Identifiers of a settlement are canonical, as every parsed \<open>Uuid7\<close> is.\<close>

definition canonical :: "uuid7 \<Rightarrow> bool" where
  "canonical u \<longleftrightarrow> first_violation (as_str u) = None"

definition settlement_canonical :: "settlement \<Rightarrow> bool" where
  "settlement_canonical s \<longleftrightarrow> canonical (work_id (work s)) \<and> canonical (tenant (payer s))
     \<and> canonical (workspace (payer s))
     \<and> (case attr s of AttrFleet f _ _ \<Rightarrow> canonical f | SetupChat \<Rightarrow> True)
     \<and> list_all (\<lambda>l. pred_option canonical (rated_price l)) (lines s)"

lemma parse_id_canonical: "canonical u \<Longrightarrow> parse_id (as_str u) = Inr u"
  by (simp add: parse_id_def canonical_def uuid7_parse_def)

lemma row_count_uint [simp]: "row_count (uint w) = w"
  by (simp add: row_count_def)

lemma row_line_row_of:
  assumes "pred_option canonical (rated_price l)"
  shows "row_line (row_of s now i (uint (unpriced_tokens l)) l) = Inr l"
  using assms
  by (cases "rated_price l"; cases l; cases "usage l"; cases "attr s")
    (auto simp: row_line_def row_of_def Let_def parse_id_canonical)

lemma row_identity_row_of:
  "row_identity (row_of s now i u l)
     = (work_type (work s), as_str (work_id (work s)), provider s, model s, posture_as_str (s_posture s))"
  by (cases "attr s") (simp_all add: row_identity_def row_of_def Let_def)

lemma row_work_row_of:
  "row_work (row_of s now i u l) = Some (case work s of FleetLease _ \<Rightarrow> FleetLease
     | AuthoringAttempt _ \<Rightarrow> AuthoringAttempt)"
  by (cases "attr s"; cases "work s") (simp_all add: row_work_def row_of_def Let_def)

lemma posture_roundtrip [simp]: "posture_parse (posture_as_str p) = Some p"
  by (cases p) (simp_all add: posture_parse_def)

lemma row_settlement_row_of:
  assumes "settlement_canonical s"
  shows "row_settlement (row_of s now i u l) (case work s of FleetLease _ \<Rightarrow> FleetLease
     | AuthoringAttempt _ \<Rightarrow> AuthoringAttempt) ls = Inr (s\<lparr>lines := ls\<rparr>)"
  using assms
  by (cases "attr s"; cases "work s"; cases s; cases "payer s")
    (auto simp: row_settlement_def row_of_def Let_def parse_id_canonical settlement_canonical_def)

text \<open>The rows a settlement logs, one per line, under any minted identifiers.\<close>

definition logged_rows :: "settlement \<Rightarrow> instant \<Rightarrow> uuid7 list \<Rightarrow> usage_row list" where
  "logged_rows s now ids = map (\<lambda>(i, l). row_of s now i (uint (unpriced_tokens l)) l) (zip ids (lines s))"

lemma group_runs_one:
  assumes "settlement_canonical s" "rs \<noteq> []"
    and rows: "\<forall>r \<in> set rs. \<exists>i l. r = row_of s now i (uint (unpriced_tokens l)) l \<and> l \<in> set (lines s)"
    and ls: "map row_line rs = map Inr ls"
  shows "group_runs rs = Inr [s\<lparr>lines := ls\<rparr>]"
proof -
  obtain r rs' where rs: "rs = r # rs'" using assms(2) by (cases rs) auto
  then obtain l ls' where l: "ls = l # ls'" "row_line r = Inr l" "map row_line rs' = map Inr ls'"
    using ls by (cases ls) auto
  obtain i k where r: "r = row_of s now i (uint (unpriced_tokens k)) k" using rows rs by auto
  have same: "row_identity x = row_identity r" if "x \<in> set rs'" for x
    using that rows by (auto simp: rs r row_identity_row_of)
  have tw: "takeWhile (\<lambda>x. row_identity x = row_identity r) rs' = rs'"
    and dw: "dropWhile (\<lambda>x. row_identity x = row_identity r) rs' = []"
    using same by (simp_all add: takeWhile_eq_all_conv dropWhile_eq_Nil_conv)
  have tr: "traverse row_line rs' = Inr ls'" using l(3) by (simp add: traverse_Inr)
  show ?thesis
    using l(2) row_settlement_row_of [OF assms(1)]
    by (simp add: rs l(1) tw [unfolded r] dw [unfolded r] tr r row_work_row_of)
qed

text \<open>The relay hands a biller exactly what the work logged: grouping the rows of one
  settlement gives back that settlement (same work, payer, attribution, provider, model and
  posture) with its lines in sequence order, none lost, added or repriced.\<close>

theorem relay_reads_back_the_settlement:
  assumes "settlement_canonical s" "lines s \<noteq> []" "length ids = length (lines s)"
  shows "grouped (logged_rows s now ids)
       = Inr [s\<lparr>lines := sort_key (\<lambda>l. uint (seq (usage l))) (lines s)\<rparr>]"
proof -
  let ?mk = "\<lambda>(i, l). row_of s now i (uint (unpriced_tokens l)) l"
  let ?key = "\<lambda>r. (row_identity r, row_seq r)"
  let ?ps = "sort_key (\<lambda>p. uint (seq (usage (snd p)))) (zip ids (lines s))"
  have id: "row_identity (?mk p) = (work_type (work s), as_str (work_id (work s)), provider s,
      model s, posture_as_str (s_posture s))" for p
    by (cases p) (simp add: row_identity_row_of)
  have sq: "row_seq (?mk p) = uint (seq (usage (snd p)))" for p by (cases p) simp
  have "sort_key ?key (map ?mk (zip ids (lines s))) = map ?mk (sort_key (\<lambda>p. ?key (?mk p)) (zip ids (lines s)))"
    by (rule sort_key_map)
  also have "sort_key (\<lambda>p. ?key (?mk p)) (zip ids (lines s)) = ?ps"
    by (rule sort_key_order) (simp add: id sq less_eq_prod_def)
  finally have rows: "sort_key ?key (logged_rows s now ids) = map ?mk ?ps"
    by (simp add: logged_rows_def)
  have snd: "map snd ?ps = sort_key (\<lambda>l. uint (seq (usage l))) (lines s)"
    using sort_key_map [of "\<lambda>l. uint (seq (usage l))" snd "zip ids (lines s)"] assms(3) by simp
  have "group_runs (map ?mk ?ps) = Inr [s\<lparr>lines := map snd ?ps\<rparr>]"
  proof (rule group_runs_one [OF assms(1)])
    have "length (map ?mk ?ps) = length (lines s)" using assms(3) by simp
    moreover have "length (lines s) \<noteq> 0" using assms(2) by simp
    ultimately show "map ?mk ?ps \<noteq> []" by (metis list.size(3))
    show "\<forall>r \<in> set (map ?mk ?ps). \<exists>i l. r = row_of s now i (uint (unpriced_tokens l)) l \<and> l \<in> set (lines s)"
      by (auto dest: set_zip_rightD)
    have "row_line (?mk p) = Inr (snd p)" if p: "p \<in> set ?ps" for p
    proof -
      obtain i l where il: "p = (i, l)" by (cases p)
      with p have "l \<in> set (lines s)" by (auto dest: set_zip_rightD)
      then have "pred_option canonical (rated_price l)"
        using assms(1) by (auto simp: settlement_canonical_def list_all_iff)
      then show ?thesis by (simp add: il row_line_row_of)
    qed
    then show "map row_line (map ?mk ?ps) = map Inr (map snd ?ps)" by simp
  qed
  then show ?thesis by (simp add: grouped_def rows snd)
qed

end
