(* ===== verification/LeaseLaws.thy ===== *)
theory LeaseLaws
  imports Metering
begin

text \<open>
  What metering guarantees, over the verbs of \<open>Metering\<close>: a superseded holder writes nothing,
  both deadlines of a renewed lease move together, a lease settles once, a stopped task renews no
  lease, and the run time billed on a lease never exceeds what its cursor covered.
\<close>

section \<open>One pass over a lease\<close>

fun renewed_settlement :: "renewed \<Rightarrow> settlement option" where
  "renewed_settlement (Extended _ s) = s"
| "renewed_settlement (Stopped s) = s"
| "renewed_settlement MaxRuntime = None"
| "renewed_settlement Lost = None"

fun settled_settlement :: "settled \<Rightarrow> settlement option" where
  "settled_settlement (Claimed s) = s"
| "settled_settlement AlreadySettled = None"
| "settled_settlement Fenced = None"

text \<open>Every way the daemon logs usage on a lease, with the settlement it logged.\<close>

inductive lease_pass :: "uuid7 \<Rightarrow> settlement option \<Rightarrow> lease_db \<Rightarrow> lease_db \<Rightarrow> bool" where
  renewal: "extend now mint wall host p lease runner reqs db = Inr (r, db')
     \<Longrightarrow> lease_pass lease (renewed_settlement r) db db'"
| report: "claim_and_settle now mint wall p lease runner reqs ok db = Inr (r, db')
     \<Longrightarrow> lease_pass lease (settled_settlement r) db db'"
| expiry: "log_last_slice now mint wall lease db = Inr (s, db') \<Longrightarrow> lease_pass lease s db db'"
| known: "record_stopped now mint wall p lease runner reqs Lost db = Inr (r, db')
     \<Longrightarrow> lease_pass lease (renewed_settlement r) db db'"

text \<open>What one pass may do to a lease's row: move its cursor, never past its deadline.\<close>

definition advances :: "string \<Rightarrow> int \<Rightarrow> lease_db \<Rightarrow> lease_db \<Rightarrow> bool" where
  "advances k ms db db' \<longleftrightarrow> (\<forall>l. lease_rows db k = Some l \<longrightarrow> (\<exists>l'. lease_rows db' k = Some l'
     \<and> l_metered_at l \<le> l_metered_at l' \<and> l_metered_at l' \<le> max (l_metered_at l) (l_expires_at l)
     \<and> 0 \<le> ms \<and> 2000000 * ms \<le> 2 * (l_metered_at l' - l_metered_at l) + 1000000))"

lemma advances_same:
  assumes "same_lease (lease_rows db k) (lease_rows db' k)"
  shows "advances k 0 db db'"
  unfolding advances_def
proof (intro allI impI)
  fix l assume "lease_rows db k = Some l"
  with assms obtain l' where "lease_rows db' k = Some l'" "l_metered_at l' = l_metered_at l"
    using same_lease_Some [of l "lease_rows db' k"] by auto
  then show "\<exists>l'. lease_rows db' k = Some l' \<and> l_metered_at l \<le> l_metered_at l'
     \<and> l_metered_at l' \<le> max (l_metered_at l) (l_expires_at l)
     \<and> 0 \<le> (0::int) \<and> 2000000 * 0 \<le> 2 * (l_metered_at l' - l_metered_at l) + 1000000" by simp
qed

lemma advances_then_same:
  assumes "advances k ms db db1" "same_lease (lease_rows db1 k) (lease_rows db2 k)"
  shows "advances k ms db db2"
  unfolding advances_def
proof (intro allI impI)
  fix l assume "lease_rows db k = Some l"
  with assms(1) obtain l1 where l1: "lease_rows db1 k = Some l1"
    "l_metered_at l \<le> l_metered_at l1" "l_metered_at l1 \<le> max (l_metered_at l) (l_expires_at l)"
    "0 \<le> ms" "2000000 * ms \<le> 2 * (l_metered_at l1 - l_metered_at l) + 1000000"
    by (auto simp: advances_def)
  with assms(2) obtain l2 where "lease_rows db2 k = Some l2" "l_metered_at l2 = l_metered_at l1"
    by (auto dest: same_lease_Some)
  with l1 show "\<exists>l'. lease_rows db2 k = Some l' \<and> l_metered_at l \<le> l_metered_at l'
     \<and> l_metered_at l' \<le> max (l_metered_at l) (l_expires_at l)
     \<and> 0 \<le> ms \<and> 2000000 * ms \<le> 2 * (l_metered_at l' - l_metered_at l) + 1000000" by auto
qed

lemma record_stopped_pass:
  assumes "record_stopped now mint wall p lease runner reqs other db = Inr (r, db')"
    "renewed_settlement other = None"
  shows "settlement_ms (renewed_settlement r) = 0" "same_lease (lease_rows db k) (lease_rows db' k)"
    "k \<noteq> as_str lease \<Longrightarrow> lease_rows db' k = lease_rows db k" "lease_slots db' = lease_slots db"
proof -
  from assms(1) obtain s ok where s: "original_requests now p lease runner reqs db = Inr s"
    "log_measured now mint wall s db = Inr (ok, db')"
    "r = (case s of None \<Rightarrow> other | Some st \<Rightarrow> Stopped (Some st))"
    by (auto simp: record_stopped_def result_simps)
  show "settlement_ms (renewed_settlement r) = 0"
    using original_requests_ms [OF s(1)] s(3) assms(2) by (cases s) simp_all
  show "same_lease (lease_rows db k) (lease_rows db' k)" "lease_slots db' = lease_slots db"
    using log_measured_frame [OF s(2)] by simp_all
  show "lease_rows db' k = lease_rows db k" if "k \<noteq> as_str lease"
    by (rule log_measured_frame(3) [OF s(2)]) (use that s(1) original_requests_work in fastforce)
qed

lemma renew_verdict_settlement [simp]: "renewed_settlement (renew_verdict a t) = None"
  by (simp add: renew_verdict_def split: option.splits)

lemma measured_nonneg:
  assumes "meter_lease_sql now e lease runner db = (a, db')" "measured a = Some sl"
  shows "0 \<le> slice_runtime_ms sl"
proof -
  from assms obtain l event where "sl = slice_of db lease event (metered_until now l) l"
    by (rule meter_won)
  then show ?thesis using metered_until_bounds(1) [of l now] by (simp add: slice_of_def epoch_ms_nonneg)
qed

lemma renew_verdict_neq [simp]: "renew_verdict a t \<noteq> Extended e s"
  by (simp add: renew_verdict_def split: option.splits)

text \<open>What the metering statement itself does to the rows.\<close>

lemma meter_advances:
  assumes "meter_lease_sql now e lease runner db = (a, db')" "measured a = Some sl"
    "0 \<le> ms" "ms \<le> slice_runtime_ms sl"
  shows "advances lease ms db db'" "k \<noteq> lease \<Longrightarrow> lease_rows db' k = lease_rows db k"
proof -
  from assms(1,2) obtain l s event where w: "lease_rows db lease = Some l"
    "sl = slice_of db lease event (metered_until now l) l"
    "db' = meter_writes now e lease runner l s event db"
    by (rule meter_won)
  have b: "2000000 * slice_runtime_ms sl \<le> 2 * (metered_until now l - l_metered_at l) + 1000000"
    using metered_until_bounds(1) [of l now] epoch_ms_bound [of "metered_until now l - l_metered_at l"]
    by (simp add: w(2) slice_of_def)
  have row: "\<exists>l'. lease_rows db' lease = Some l' \<and> l_metered_at l' = metered_until now l"
    by (cases e) (simp_all add: w(3) meter_writes_def Let_def)
  show "advances lease ms db db'"
    using w(1) row b assms(3,4) metered_until_bounds [where l = l and now = now] by (auto simp: advances_def)
  show "lease_rows db' k = lease_rows db k" if "k \<noteq> lease"
    using that by (cases e) (simp_all add: w(3) meter_writes_def Let_def)
qed

lemma meter_then_log:
  assumes m: "meter_lease_sql now e (as_str lease) runner db = (a, db1)"
    and sl: "measured a = Some sl" and s: "lease_settlement p lease sl reqs = Inr s"
    and lg: "log_measured now mint wall s db1 = Inr (ok, db2)"
  shows "advances (as_str lease) (settlement_ms s) db db2"
    "k \<noteq> as_str lease \<Longrightarrow> lease_rows db2 k = lease_rows db k"
proof -
  have nn: "0 \<le> slice_runtime_ms sl" by (rule measured_nonneg [OF m sl])
  note ms = lease_settlement_ms [OF s nn]
  show "advances (as_str lease) (settlement_ms s) db db2"
    by (rule advances_then_same [OF meter_advances(1) [OF m sl ms] log_measured_frame(1) [OF lg]])
  show "lease_rows db2 k = lease_rows db k" if k: "k \<noteq> as_str lease"
  proof -
    have "lease_rows db2 k = lease_rows db1 k"
      by (rule log_measured_frame(3) [OF lg]) (use k s lease_settlement_work in fastforce)
    with meter_advances(2) [OF m sl ms k] show ?thesis by simp
  qed
qed

lemma lease_pass_advances:
  assumes "lease_pass lease s db db'"
  shows "advances (as_str lease) (settlement_ms s) db db'"
    "k \<noteq> as_str lease \<Longrightarrow> lease_rows db' k = lease_rows db k"
proof -
  have "advances (as_str lease) (settlement_ms s) db db'
    \<and> (k \<noteq> as_str lease \<longrightarrow> lease_rows db' k = lease_rows db k)"
    using assms
  proof cases
    case (renewal now mint wall host p runner reqs r)
    have stopped: ?thesis if "record_stopped now mint wall p lease runner reqs other db0 = Inr (r, db')"
      "renewed_settlement other = None" "db0 = db" for other db0
      using record_stopped_pass [OF that(1,2)] that(3) advances_same renewal(1) by simp
    show ?thesis
    proof (cases "\<exists>c. host = Some c \<and> can_renew c")
      case False
      with renewal(2) have "record_stopped now mint wall p lease runner reqs Lost db = Inr (r, db')"
        by (auto simp: extend_def split: option.splits)
      then show ?thesis by (rule stopped) simp_all
    next
      case True
      then obtain c where c: "host = Some c" "can_renew c" by blast
      obtain a db1 where m: "meter_lease_sql now Renew (as_str lease) (as_str runner) db = (a, db1)"
        by fastforce
      show ?thesis
      proof (cases "measured a")
        case None
        with meter_refused [OF m] renewal(2) c m
        have "record_stopped now mint wall p lease runner reqs (renew_verdict a (cap_now c)) db = Inr (r, db')"
          by (simp add: extend_def)
        then show ?thesis by (rule stopped) simp_all
      next
        case (Some sl)
        with renewal(2) c m meter_answer_measured(1) [OF m] obtain s' ok where
          s': "lease_settlement p lease sl reqs = Inr s'" "log_measured now mint wall s' db1 = Inr (ok, db')"
          "renewed_settlement r = s'"
          by (auto simp: extend_def result_simps split: option.splits if_splits)
        then show ?thesis using meter_then_log [OF m Some s'(1,2)] renewal(1) by simp
      qed
    qed
  next
    case (report now mint wall p runner reqs won r)
    obtain a db1 where m: "meter_lease_sql now (Settle won) (as_str lease) (as_str runner) db = (a, db1)"
      by fastforce
    show ?thesis
    proof (cases "measured a")
      case None
      with meter_refused [OF m] report m show ?thesis
        by (auto simp: claim_and_settle_def disposition_def advances_same split: option.splits if_splits)
    next
      case (Some sl)
      with report(2) m meter_answer_measured(2) [OF m] obtain s' ok where
        s': "lease_settlement p lease sl reqs = Inr s'" "log_measured now mint wall s' db1 = Inr (ok, db')"
        "r = Claimed s'"
        by (auto simp: claim_and_settle_def result_simps split: if_splits)
      then show ?thesis using meter_then_log [OF m Some s'(1,2)] report(1) by simp
    qed
  next
    case (expiry now mint wall)
    show ?thesis
    proof (cases "fst (bill_expired_slice_sql now (as_str lease) db)")
      case None
      with expiry show ?thesis by (auto simp: log_last_slice_def advances_same split: prod.splits)
    next
      case (Some q)
      then obtain l event where l: "lease_rows db (as_str lease) = Some l"
        "l_metered_at l < l_expires_at l"
        "bill_expired_slice_sql now (as_str lease) db = (Some (slice_of db (as_str lease) event (l_expires_at l) l, l),
            db\<lparr>lease_rows := (lease_rows db)(as_str lease \<mapsto> l\<lparr>l_metered_at := l_expires_at l\<rparr>)\<rparr>)"
        by (auto simp: bill_expired_slice_sql_def Let_def split: option.splits if_splits)
      let ?sl = "slice_of db (as_str lease) event (l_expires_at l) l"
      let ?db1 = "db\<lparr>lease_rows := (lease_rows db)(as_str lease \<mapsto> l\<lparr>l_metered_at := l_expires_at l\<rparr>)\<rparr>"
      from expiry l(3) obtain p ok where s: "lease_settlement p lease ?sl [] = Inr s"
        "log_measured now mint wall s ?db1 = Inr (ok, db')"
        by (auto simp: log_last_slice_def Let_def result_simps)
      have ms: "0 \<le> slice_runtime_ms ?sl"
        "2000000 * slice_runtime_ms ?sl \<le> 2 * (l_expires_at l - l_metered_at l) + 1000000"
        using l(2) epoch_ms_nonneg epoch_ms_bound [of "l_expires_at l - l_metered_at l"]
        by (simp_all add: slice_of_def)
      have "advances (as_str lease) (settlement_ms s) db ?db1"
        using l(1,2) ms lease_settlement_ms [OF s(1) ms(1)] by (auto simp: advances_def)
      then have "advances (as_str lease) (settlement_ms s) db db'"
        using log_measured_frame(1) [OF s(2)] by (rule advances_then_same)
      moreover have "lease_rows db' k = lease_rows ?db1 k" if "k \<noteq> as_str lease"
        by (rule log_measured_frame(3) [OF s(2)]) (use that s(1) lease_settlement_work in fastforce)
      ultimately show ?thesis by simp
    qed
  next
    case (known now mint wall p runner reqs r)
    then show ?thesis using record_stopped_pass [OF known(2)] advances_same by simp
  qed
  then show "advances (as_str lease) (settlement_ms s) db db'"
    "k \<noteq> as_str lease \<Longrightarrow> lease_rows db' k = lease_rows db k" by auto
qed

section \<open>Fencing and deadlines\<close>

text \<open>C20: A holder the fleet superseded meters nothing: when the slot's token is past the lease's, neither a
  renewal nor a report changes any row through the metering statement, no slice is measured, the report is
  answered as fenced, and no renewal extends the lease, whatever requests it reports.  A renewal that
  reports none writes nothing and is answered as lost, or as past its runtime ceiling when the statement's
  cap had come by the host lock's instant.\<close>

theorem superseded_holder_meters_nothing:
  assumes "lease_rows db (as_str lease) = Some l" "l_status l = lease_status_active"
    "lease_slots db (l_fleet_id l) = Some s" "l_fencing_token l < fencing_token s"
  shows "snd (meter_lease_sql now e (as_str lease) runner db) = db
    \<and> measured (fst (meter_lease_sql now e (as_str lease) runner db)) = None
    \<and> claim_and_settle now mint wall p lease r reqs ok db = Inr (Fenced, db)
    \<and> (\<forall>answer db'. extend now mint wall host p lease r reqs db = Inr (answer, db') \<longrightarrow> (\<nexists>until spent. answer = Extended until spent))
    \<and> (\<exists>answer. extend now mint wall host p lease r [] db = Inr (answer, db) \<and> (answer = Lost
        \<or> answer = MaxRuntime \<and> (\<exists>c cap. host = Some c \<and> cap \<le> cap_now c
            \<and> hard_cap (fst (meter_lease_sql now Renew (as_str lease) (as_str r) db)) = Some cap)))"
proof -
  have none: "measured a = None" if "meter_lease_sql now e' (as_str lease) who db = (a, db')" for e' who a db'
  proof (rule ccontr)
    assume "measured a \<noteq> None"
    then obtain sl where sl: "measured a = Some sl" by auto
    from that sl show False
      by (rule meter_won) (use assms in \<open>auto simp: meter_guard_def split: ending.splits\<close>)
  qed
  have all: "\<exists>a. meter_lease_sql now e' (as_str lease) who db = (a, db) \<and> measured a = None
      \<and> claimed_rows a = 0 \<and> new_until a = None" for e' who
    using none meter_refused by (metis prod.exhaust)
  from all [of "Settle ok" "as_str r"] assms(1,2)
  have "claim_and_settle now mint wall p lease r reqs ok db = Inr (Fenced, db)"
    by (auto simp: claim_and_settle_def disposition_def lease_status_active_def lease_status_reported_def)
  moreover from all [of Renew "as_str r"] obtain a where
    a: "meter_lease_sql now Renew (as_str lease) (as_str r) db = (a, db)" "new_until a = None" by blast
  then have "\<exists>answer. extend now mint wall host p lease r [] db = Inr (answer, db) \<and> (answer = Lost
        \<or> answer = MaxRuntime \<and> (\<exists>c cap. host = Some c \<and> cap \<le> cap_now c \<and> hard_cap a = Some cap))"
    by (auto simp: extend_def record_stopped_def original_requests_def log_measured_def renew_verdict_def
        split: option.splits)
  moreover have "\<forall>answer db'. extend now mint wall host p lease r reqs db = Inr (answer, db') \<longrightarrow>
      (\<nexists>until spent. answer = Extended until spent)"
    using a by (auto simp: extend_def record_stopped_def renew_verdict_def res_bind_Inr
        split: option.splits if_splits)
  ultimately show ?thesis using all [of e runner] a(1) by auto
qed

text \<open>A renewal moves both deadlines together: when it answers a new deadline, the lease row
  and its fleet's slot both carry that instant under the lease's own token, it lies ahead of the
  clock by at most the lease lifetime, and it never passes the hard runtime ceiling.\<close>

theorem renewal_moves_both_deadlines:
  assumes "extend now mint wall host p lease runner reqs db = Inr (Extended e s, db')"
  shows "\<exists>l l' slot. lease_rows db (as_str lease) = Some l \<and> lease_rows db' (as_str lease) = Some l'
    \<and> lease_slots db' (l_fleet_id l) = Some slot \<and> l_expires_at l' = e \<and> slot_expires_at slot = e
    \<and> fencing_token slot = l_fencing_token l \<and> now < e \<and> e \<le> now + lease_ttl
    \<and> e \<le> l_created_at l + max_runtime \<and> now < l_expires_at l"
proof -
  have not_stopped: "record_stopped now mint wall p lease runner reqs other db0 \<noteq> Inr (Extended e s, db')"
    if "renewed_settlement other = None" "\<And>e s. other \<noteq> Extended e s" for other db0
    using that by (auto simp: record_stopped_def result_simps split: option.splits)
  from assms obtain c where c: "host = Some c" "can_renew c"
    using not_stopped [of Lost db] by (cases host) (auto simp: extend_def split: if_splits)
  obtain a db1 where m: "meter_lease_sql now Renew (as_str lease) (as_str runner) db = (a, db1)"
    by fastforce
  have "measured a \<noteq> None"
  proof
    assume "measured a = None"
    with meter_refused [OF m] assms c m
    have "record_stopped now mint wall p lease runner reqs (renew_verdict a (cap_now c)) db
        = Inr (Extended e s, db')"
      by (simp add: extend_def)
    then show False using not_stopped [of "renew_verdict a (cap_now c)" db] by simp
  qed
  then obtain sl where sl: "measured a = Some sl" by auto
  from m sl obtain l sl0 event where w: "lease_rows db (as_str lease) = Some l"
    "lease_slots db (l_fleet_id l) = Some sl0" "meter_guard now Renew db event l sl0"
    "db1 = meter_writes now Renew (as_str lease) (as_str runner) l sl0 event db"
    "new_until a = Some (capped_deadline now l (held_task db l))"
    by (rule meter_won) simp
  from assms c m w(5) sl obtain ok where e: "e = capped_deadline now l (held_task db l)"
    and lg: "log_measured now mint wall s db1 = Inr (ok, db')"
    by (auto simp: extend_def result_simps split: if_splits)
  have "lease_rows db1 (as_str lease) = Some (l\<lparr>l_expires_at := e, l_metered_at := metered_until now l\<rparr>)"
    "lease_slots db1 (l_fleet_id l) = Some (sl0\<lparr>slot_expires_at := e\<rparr>)"
    by (simp_all add: w(4) e meter_writes_def Let_def)
  moreover have "same_lease (lease_rows db1 (as_str lease)) (lease_rows db' (as_str lease))"
    "lease_slots db' = lease_slots db1"
    using log_measured_frame [OF lg] by simp_all
  ultimately obtain l' where "lease_rows db' (as_str lease) = Some l'" "l_expires_at l' = e"
    "lease_slots db' (l_fleet_id l) = Some (sl0\<lparr>slot_expires_at := e\<rparr>)"
    by (auto dest: same_lease_Some)
  then show ?thesis
    using w(1,3) capped_ahead [OF w(3)] capped_bounds [of now l "held_task db l"] e
    by (auto simp: meter_guard_def)
qed

section \<open>Billed once\<close>

text \<open>
  A lease's history as the daemon's processes interleave: passes over it, passes over other
  leases, and every other statement, which leaves the lease table's cursors alone.
\<close>

inductive billing_run :: "uuid7 \<Rightarrow> settlement option list \<Rightarrow> lease_db \<Rightarrow> lease_db \<Rightarrow> bool" where
  no_pass: "billing_run lease [] db db"
| own_pass: "billing_run lease ss db db1 \<Longrightarrow> lease_pass lease s db1 db2
    \<Longrightarrow> billing_run lease (s # ss) db db2"
| other_pass: "billing_run lease ss db db1 \<Longrightarrow> lease_pass m s db1 db2 \<Longrightarrow> as_str m \<noteq> as_str lease
    \<Longrightarrow> billing_run lease ss db db2"
| elsewhere: "billing_run lease ss db db1 \<Longrightarrow> lease_rows db2 = lease_rows db1
    \<Longrightarrow> billing_run lease ss db db2"

inductive_cases billing_runE: "billing_run lease ss db db'"

text \<open>C2: No run time is billed twice: over any interleaving of renewals, reports, expiry sweeps and
  late request reports by any runner, the milliseconds billed on a lease add up to at most the
  time its cursor moved over, give or take half a millisecond of rounding per pass.\<close>

theorem run_time_billed_once:
  assumes "billing_run lease ss db db'" "lease_rows db (as_str lease) = Some l"
  shows "\<exists>l'. lease_rows db' (as_str lease) = Some l' \<and> l_metered_at l \<le> l_metered_at l'
    \<and> 2000000 * sum_list (map settlement_ms ss)
        \<le> 2 * (l_metered_at l' - l_metered_at l) + 1000000 * int (length ss)"
  using assms
proof (induction rule: billing_run.induct)
  case (own_pass lease ss db db1 s db2)
  then obtain l1 where l1: "lease_rows db1 (as_str lease) = Some l1" "l_metered_at l \<le> l_metered_at l1"
    "2000000 * sum_list (map settlement_ms ss) \<le> 2 * (l_metered_at l1 - l_metered_at l) + 1000000 * int (length ss)"
    by auto
  from lease_pass_advances(1) [OF own_pass.hyps(2)] l1(1) obtain l2 where
    "lease_rows db2 (as_str lease) = Some l2" "l_metered_at l1 \<le> l_metered_at l2"
    "2000000 * settlement_ms s \<le> 2 * (l_metered_at l2 - l_metered_at l1) + 1000000"
    by (auto simp: advances_def)
  with l1 show ?case by (auto simp: algebra_simps)
next
  case (other_pass lease ss db db1 m s db2)
  then show ?case using lease_pass_advances(2) [of m s db1 db2 "as_str lease"] by simp
qed auto

text \<open>A pass bills no time past the deadline the lease was granted, however late it runs: what it
  bills is at most the time between the cursor and that deadline, and the cursor stays within it.\<close>

theorem no_time_past_the_deadline:
  assumes "lease_pass lease s db db'" "lease_rows db (as_str lease) = Some l"
    "l_metered_at l \<le> l_expires_at l"
  shows "2000000 * settlement_ms s \<le> 2 * (l_expires_at l - l_metered_at l) + 1000000
    \<and> (\<exists>l'. lease_rows db' (as_str lease) = Some l' \<and> l_metered_at l' \<le> l_expires_at l)"
  using lease_pass_advances(1) [OF assms(1)] assms(2,3) by (fastforce simp: advances_def)

text \<open>A lease settles once: after a report won its claim, the same runner's retry of the report is
  told it already settled, whatever it carries, the expiry sweep bills nothing more, and neither
  changes the store.\<close>

theorem lease_settles_once:
  assumes "claim_and_settle now mint wall p lease runner reqs ok db = Inr (Claimed s, db1)"
  shows "claim_and_settle now' mint' wall' p' lease runner reqs' ok' db1 = Inr (AlreadySettled, db1)
    \<and> log_last_slice now'' mint'' wall'' lease db1 = Inr (None, db1)"
proof -
  obtain a db0 where m: "meter_lease_sql now (Settle ok) (as_str lease) (as_str runner) db = (a, db0)"
    by fastforce
  have "measured a \<noteq> None"
    using assms m meter_refused [OF m] by (auto simp: claim_and_settle_def disposition_def split: option.splits if_splits)
  then obtain sl where sl: "measured a = Some sl" by auto
  from m sl obtain l s0 event where w: "l_runner_id l = as_str runner"
    "db0 = meter_writes now (Settle ok) (as_str lease) (as_str runner) l s0 event db"
    by (rule meter_won)
  from assms m sl meter_answer_measured(2) [OF m] obtain go where
    lg: "log_measured now mint wall s db0 = Inr (go, db1)"
    by (auto simp: claim_and_settle_def result_simps split: if_splits)
  have "lease_rows db0 (as_str lease) = Some (l\<lparr>l_status := lease_status_reported, l_metered_at := metered_until now l\<rparr>)"
    by (simp add: w(2) meter_writes_def Let_def)
  with log_measured_frame(1) [OF lg, of "as_str lease"] w(1) obtain l' where l':
    "lease_rows db1 (as_str lease) = Some l'" "l_status l' = lease_status_reported" "l_runner_id l' = as_str runner"
    by (auto dest: same_lease_Some)
  have ne: "lease_status_reported \<noteq> lease_status_active"
    by (simp add: lease_status_active_def lease_status_reported_def)
  have "meter_probe db1 (as_str lease) (as_str runner) = None"
    using l' ne by (simp add: meter_probe_def)
  then have "claim_and_settle now' mint' wall' p' lease runner reqs' ok' db1 = Inr (AlreadySettled, db1)"
    using l' by (simp add: claim_and_settle_def meter_lease_sql_def disposition_def)
  moreover have "log_last_slice now'' mint'' wall'' lease db1 = Inr (None, db1)"
    using l' by (simp add: log_last_slice_def bill_expired_slice_sql_def)
  ultimately show ?thesis by simp
qed

lemma held_task_cursor:
  "l_task l = Some ts \<Longrightarrow>
     held_task (db\<lparr>lease_rows := rows\<rparr>) (l\<lparr>l_task := Some (ts\<lparr>task_runtime_accounted_at := u\<rparr>)\<rparr>) = held_task db l"
  by (simp add: held_task_def split: option.split)

lemma usage_record_stops:
  assumes "usage_record now lease n db = Inr (False, db')"
    and l: "lease_rows db lease = Some l" "l_task l = Some ts" and st: "task_started_at ts \<noteq> None"
  shows "\<exists>l. lease_rows db' lease = Some l \<and> (\<forall>t. \<not> task_permits t l (held_task db' l))"
proof -
  from assms obtain acc where acc: "task_runtime_accounted_at ts = Some acc"
    by (cases "task_runtime_accounted_at ts") (auto simp: usage_record_def)
  show ?thesis
  proof (cases "held_task db l")
    case None
    from assms(1) l st acc None have db': "db' = db\<lparr>lease_rows := (lease_rows db)(lease \<mapsto>
        l\<lparr>l_task := Some (ts\<lparr>task_runtime_accounted_at := Some (max acc (min (l_metered_at l) (l_expires_at l)))\<rparr>)\<rparr>)\<rparr>"
      by (simp add: usage_record_def Let_def)
    show ?thesis using None l by (simp add: db' held_task_cursor task_permits_def)
  next
    case (Some t)
    then have h: "tasks db (task_id ts) = Some t" "t_fleet_id t = l_fleet_id l" "t_workspace_id t = l_workspace_id l"
      using l by (auto simp: held_task_def split: option.splits if_splits)
    have ne: "task_exhausted \<noteq> task_running" by (simp add: task_running_def task_exhausted_def)
    from assms(1) l st acc Some obtain um ur u where db': "db' = db\<lparr>lease_rows := (lease_rows db)(lease \<mapsto>
          l\<lparr>l_task := Some (ts\<lparr>task_runtime_accounted_at := Some u\<rparr>)\<rparr>),
        tasks := (tasks db)(task_id ts \<mapsto> task_charged now t um ur)\<rparr>"
      and "t_status (task_charged now t um ur) \<noteq> task_running \<or> task_spent now t um ur"
      by (simp add: usage_record_def Let_def result_simps) blast
    then have "t_status (task_charged now t um ur) \<noteq> task_running" using ne by (simp split: if_splits)
    then show ?thesis using h by (simp add: db' held_task_def task_permits_def)
  qed
qed

text \<open>A task that used up its budget stops its run: once recording a slice's usage answers that
  the task may not go on, no later renewal of that lease is granted a deadline.\<close>

theorem stopped_task_renews_no_lease:
  assumes "usage_record now (as_str lease) n db = Inr (False, db')"
    "lease_rows db (as_str lease) = Some l0" "l_task l0 = Some ts" "task_started_at ts \<noteq> None"
    "extend now' mint wall host p lease runner reqs db' = Inr (r, db'')"
  shows "r \<noteq> Extended e s"
proof
  assume r: "r = Extended e s"
  from usage_record_stops [OF assms(1-4)] obtain l where l: "lease_rows db' (as_str lease) = Some l"
    "\<not> task_permits now' l (held_task db' l)" by blast
  obtain a db1 where m: "meter_lease_sql now' Renew (as_str lease) (as_str runner) db' = (a, db1)"
    by fastforce
  have none: "measured a = None"
  proof (rule ccontr)
    assume "measured a \<noteq> None"
    then obtain sl where "measured a = Some sl" by auto
    with m show False by (rule meter_won) (use l in \<open>auto simp: meter_guard_def\<close>)
  qed
  with meter_refused [OF m] m assms(5) r show False
    by (auto simp: extend_def record_stopped_def result_simps split: option.splits if_splits)
qed

end
