(* ===== verification/Samples.thy ===== *)
theory Samples
  imports Relay LeaseLaws Admission
begin

text \<open>
  Concrete inputs at which the properties with hypotheses apply: one fleet of one workspace, a
  priced model, a funded wallet, a lease, a task and a gate policy.  Each witness applies its
  property at these values, with every hypothesis discharged by evaluation.
\<close>

section \<open>Identities\<close>

definition fleet_a :: uuid7 where "fleet_a = Uuid7 ''01890000-0000-7000-8000-00000000000a''"
definition tenant_a :: uuid7 where "tenant_a = Uuid7 ''01890000-0000-7000-8000-00000000000b''"
definition workspace_a :: uuid7 where "workspace_a = Uuid7 ''01890000-0000-7000-8000-00000000000c''"
definition lease_a :: uuid7 where "lease_a = Uuid7 ''01890000-0000-7000-8000-00000000000d''"
definition runner_a :: uuid7 where "runner_a = Uuid7 ''01890000-0000-7000-8000-00000000000e''"
definition runner_b :: uuid7 where "runner_b = Uuid7 ''01890000-0000-7000-8000-00000000000f''"
definition price_a :: uuid7 where "price_a = Uuid7 ''01890000-0000-7000-8000-000000000010''"
definition line_a :: uuid7 where "line_a = Uuid7 ''01890000-0000-7000-8000-000000000011''"
definition line_b :: uuid7 where "line_b = Uuid7 ''01890000-0000-7000-8000-000000000012''"

lemmas ids_a = fleet_a_def tenant_a_def workspace_a_def lease_a_def runner_a_def runner_b_def
  price_a_def line_a_def line_b_def

section \<open>Prices\<close>

definition price_sample :: price where
  "price_sample = \<lparr>effective_from = 0, effective_until = None, prompt_tokens_above = 0,
     input_nanos_per_mtok = 3000000, cached_input_nanos_per_mtok = 300000,
     cache_write_nanos_per_mtok = None, cache_write_5m_nanos_per_mtok = None,
     cache_write_1h_nanos_per_mtok = None, output_nanos_per_mtok = 15000000,
     source_url = [], verified_at = 0, conditions = []\<rparr>"

definition book_sample :: price_book where
  "book_sample = [\<lparr>tier_id = price_a, tier_price = price_sample\<rparr>]"

definition usage_sample :: usage_line where
  "usage_sample = \<lparr>seq = 7, at = 50, input_tokens = 10, cached_input_tokens = 5, cache_write_tokens = 3,
     cache_write_5m_tokens = 0, cache_write_1h_tokens = 0, output_tokens = 4, runtime_ms = 0\<rparr>"

definition window_sample :: window where "window_sample = \<lparr>win_from = 50, win_until = 50\<rparr>"

definition rated_sample :: rated_line where
  "rated_sample = \<lparr>usage = usage_sample, rated_price = Some price_a, charged = 92, unpriced_tokens = 3\<rparr>"

lemma rate_sample: "rate book_sample Platform window_sample usage_sample = Inr rated_sample"
  by code_simp

lemma book_sample_nonneg: "book_nonneg book_sample"
  by (simp add: book_nonneg_def book_sample_def price_nonneg_def price_sample_def)

theorem rate_charge_bracket_witness:
  "91500000 \<le> 1000000 * charged rated_sample \<and> 1000000 * charged rated_sample < 97500000"
proof -
  have q: "quote book_sample (window_clamp window_sample (at usage_sample)) (whole_prompt usage_sample)
      = Some \<lparr>tier_id = price_a, tier_price = price_sample\<rparr>" by code_simp
  have "sum_list (map exact_micro (categories usage_sample price_sample))
      + tokens_per_mtok * (100 * uint (runtime_ms usage_sample)) = 91500000" by code_simp
  with rate_charge_bracket [OF book_sample_nonneg q rate_sample] show ?thesis
    by (simp add: Let_def tokens_per_mtok_def)
qed

theorem rate_accounts_every_token_witness:
  "uint (unpriced_tokens rated_sample) + 19 = uint (tokens_of usage_sample)"
proof -
  have q: "quote book_sample (window_clamp window_sample (at usage_sample)) (whole_prompt usage_sample)
      = Some \<lparr>tier_id = price_a, tier_price = price_sample\<rparr>" by code_simp
  have "sum_list (map (\<lambda>(n, p). if p = None then 0 else uint n) (categories usage_sample price_sample)) = 19"
    by code_simp
  with rate_accounts_every_token [OF rate_sample] q show ?thesis by simp
qed

theorem reservation_bounds_the_quoted_use_witness: "charged rated_sample \<le> 206"
proof -
  have "decision_reservation book_sample 50 18 10 = Some 206" by code_simp
  moreover have "rate book_sample Platform \<lparr>win_from = 50, win_until = 50\<rparr> usage_sample = Inr rated_sample"
    using rate_sample by (simp add: window_sample_def)
  ultimately show ?thesis
    by (rule reservation_bounds_the_quoted_use [OF book_sample_nonneg]) code_simp+
qed

section \<open>A settlement\<close>

definition settlement_sample :: settlement where
  "settlement_sample = \<lparr>work = FleetLease lease_a, payer = \<lparr>tenant = tenant_a, workspace = workspace_a\<rparr>,
     attr = AttrFleet fleet_a ''docs'' ''ev1'', provider = ''anthropic'', model = ''claude'',
     s_posture = Platform, lines = [rated_sample]\<rparr>"

definition other_settlement :: settlement where
  "other_settlement = settlement_sample\<lparr>lines := [rated_sample\<lparr>usage := usage_sample\<lparr>seq := 8\<rparr>\<rparr>]\<rparr>"

definition wallet_sample :: billing_db where
  "wallet_sample = \<lparr>usage_lines = [], wallets = [as_str tenant_a \<mapsto> \<lparr>balance_nanos = 100, exhausted_at = None\<rparr>]\<rparr>"

definition mint_a :: "nat \<Rightarrow> uuid7 option" where "mint_a i = Some line_a"
definition mint_b :: "nat \<Rightarrow> uuid7 option" where "mint_b i = Some line_b"

definition row_sample :: usage_row where "row_sample = row_of settlement_sample 60 line_a 3 rated_sample"

definition charged_sample :: billing_db where
  "charged_sample = \<lparr>usage_lines = [row_sample\<lparr>settled_at := Some 60\<rparr>],
     wallets = [as_str tenant_a \<mapsto> \<lparr>balance_nanos = 8, exhausted_at = None\<rparr>]\<rparr>"

lemma wallet_sample_wf: "db_wf wallet_sample"
  by (simp add: db_wf_def wallet_sample_def)

lemmas settle_evals = ledger_settle_def log_lines_def insert_lines_sql_def charge_def settle_lines_sql_def
  debit_wallet_sql_def settle_hit_def settlement_sample_def other_settlement_def wallet_sample_def
  charged_sample_def row_sample_def rated_sample_def usage_sample_def mint_a_def mint_b_def
  int_width zero_receipt_def ok_or_def Let_def

lemma settle_sample: "ledger_settle (mint_a, 60) settlement_sample wallet_sample
    = Inr (\<lparr>settled_lines = 1, r_charged = 92, r_taken = 92\<rparr>, charged_sample)"
  by (simp add: settle_evals row_of_def line_key_def daemon_seq_base_def)

definition both_sample :: billing_db where
  "both_sample = \<lparr>usage_lines = [row_sample\<lparr>settled_at := Some 60\<rparr>,
       (row_of other_settlement 70 line_b 3 (rated_sample\<lparr>usage := usage_sample\<lparr>seq := 8\<rparr>\<rparr>))\<lparr>settled_at := Some 70\<rparr>],
     wallets = [as_str tenant_a \<mapsto> \<lparr>balance_nanos = - 84, exhausted_at = Some 70\<rparr>]\<rparr>"

lemma settle_other: "ledger_settle (mint_b, 70) other_settlement charged_sample
    = Inr (\<lparr>settled_lines = 1, r_charged = 92, r_taken = 92\<rparr>, both_sample)"
  by (simp add: settle_evals both_sample_def row_of_def line_key_def daemon_seq_base_def line_a_def line_b_def)

lemma settle_repeats: "\<exists>r db. ledger_settle (mint_a, 80) settlement_sample both_sample = Inr (r, db)"
  by (simp add: settle_evals both_sample_def row_of_def line_key_def daemon_seq_base_def line_a_def line_b_def)

theorem settle_never_charges_twice_witness:
  "ledger_settle (mint_a, 80) settlement_sample both_sample = Inr (zero_receipt, both_sample)"
  using settle_repeats settle_never_charges_twice [OF wallet_sample_wf settle_sample settle_other] by auto

theorem settle_spends_only_fresh_lines_witness:
  "left_of (as_str tenant_a) charged_sample = Some (100 - 92)"
  using settle_spends_only_fresh_lines [OF settle_sample, of "as_str tenant_a"]
  by (simp add: settle_evals left_of_def unsettled_of_def row_of_def)

section \<open>The relay\<close>

definition logged_sample :: billing_db where
  "logged_sample = wallet_sample\<lparr>usage_lines := [row_sample\<lparr>line_id := line_b, row_seq := 8\<rparr>, row_sample]\<rparr>"

lemma logged_sample_wf: "db_wf logged_sample"
  by (simp add: db_wf_def logged_sample_def row_sample_def row_of_def rated_sample_def usage_sample_def line_key_def ids_a
      settlement_sample_def Let_def)

theorem relay_lap_reads_every_line_witness:
  "keyset_walk select_unsettled resume_of 1 3 None logged_sample
     = [row_sample, row_sample\<lparr>line_id := line_b, row_seq := 8\<rparr>]"
proof -
  have l: "length (unsettled_rows logged_sample) < 3 * 1" by code_simp
  have "sort_key row_position (unsettled_rows logged_sample)
      = [row_sample, row_sample\<lparr>line_id := line_b, row_seq := 8\<rparr>]" by code_simp
  then show ?thesis using relay_lap_reads_every_line [OF logged_sample_wf _ l] by simp
qed

definition no_pass_yet :: resettled where
  "no_pass_yet = \<lparr>n_settled = 0, n_failed = 0, full = False, refused = None, next_resume = None\<rparr>"

theorem repeated_pass_charges_nothing_witness:
  "fst (settle_each ledger_settle [(mint_b, 90)] [settlement_sample] (charged_sample, no_pass_yet)) = charged_sample"
  by (rule repeated_pass_charges_nothing [OF wallet_sample_wf,
        of "[settlement_sample]" "[(mint_a, 60)]" no_pass_yet charged_sample "no_pass_yet\<lparr>n_settled := 1\<rparr>"])
    (simp_all add: settle_sample no_pass_yet_def)

theorem relay_reads_back_the_settlement_witness:
  "grouped (logged_rows settlement_sample 60 [line_a]) = Inr [settlement_sample]"
proof -
  have "canonical lease_a" "canonical tenant_a" "canonical workspace_a" "canonical fleet_a" "canonical price_a"
    by code_simp+
  then have "settlement_canonical settlement_sample"
    by (simp add: settlement_canonical_def settlement_sample_def rated_sample_def)
  moreover have "lines settlement_sample \<noteq> []" "length [line_a] = length (lines settlement_sample)"
    by (simp_all add: settlement_sample_def)
  ultimately have "grouped (logged_rows settlement_sample 60 [line_a])
      = Inr [settlement_sample\<lparr>lines := sort_key (\<lambda>l. uint (seq (usage l))) (lines settlement_sample)\<rparr>]"
    by (rule relay_reads_back_the_settlement)
  then show ?thesis by (simp add: settlement_sample_def)
qed

section \<open>Slots and hosts\<close>

definition host_row :: runner_row where
  "host_row = \<lparr>last_seen_at = 0, runner_status = ''active'', degraded_reason = None, worker_count = 1,
     lease_version = 0, last_lease_type = None, decision_platform_model_id = None\<rparr>"

definition runners_a :: runners where
  "runners_a = [as_str runner_a \<mapsto> host_row, as_str runner_b \<mapsto> host_row]"

definition slot_at :: "int \<Rightarrow> uuid7 \<Rightarrow> instant \<Rightarrow> slot" where
  "slot_at n who until = \<lparr>last_runner_id = Some (as_str who), fencing_token = n, slot_expires_at = until,
     hold_expires_at = None\<rparr>"

definition host_0 :: host_state where
  "host_0 = \<lparr>host_clock = 5, hosts = runners_a, fleet_occupants = [], attempt_occupants = []\<rparr>"

definition ticket_0 :: ticket where
  "ticket_0 = \<lparr>revision = 0, preferred = AuthoringKind, accepted = accepts_all\<rparr>"

lemma place_once: "\<exists>s'. place runner_a ticket_0 FleetKind 50 host_0 = Inr (True, s')
    \<and> hosts s' (as_str runner_a) = Some (host_row\<lparr>lease_version := 1, last_lease_type := Some ''fleet''\<rparr>)"
  by (simp add: place_def host_0_def ticket_0_def capacity_lock_def runners_a_def host_row_def census_sql_def
      can_claim_def permits_def record_choice_def runner_status_active_def ok_or_def int_width ids_a
      Let_def)

theorem placement_respects_workers_witness:
  "\<exists>s'. place runner_a ticket_0 FleetKind 50 host_0 = Inr (True, s')
     \<and> place runner_a ticket_0 AuthoringKind 60 s' = Inr (False, s')"
  using place_once placement_respects_workers by blast

theorem placements_alternate_witness:
  "\<exists>s'. place runner_a ticket_0 FleetKind 50 host_0 = Inr (True, s')
     \<and> (\<forall>offer. claim_offer (hosts s') runner_a accepts_all = Some offer \<longrightarrow> preferred offer = AuthoringKind)"
  using place_once placements_alternate by fastforce

section \<open>A lease\<close>

text \<open>Granted at the clock's origin for ten seconds under token one; the model is not priced.\<close>

definition second :: int where "second = 1000000000"

definition lease_0 :: lease_row where
  "lease_0 = \<lparr>l_runner_id = as_str runner_a, l_fleet_id = as_str fleet_a, l_workspace_id = as_str workspace_a,
     l_tenant_id = as_str tenant_a, l_event = ''ev1'', l_fencing_token = 1, l_created_at = 0,
     l_expires_at = 10 * second, l_metered_at = 0, l_status = ''active'', l_posture = ''platform'',
     l_provider = ''anthropic'', l_model = ''claude'', l_task = None\<rparr>"

definition admission_0 :: admission_row where
  "admission_0 = \<lparr>a_fleet_id = as_str fleet_a, a_lease_fence = Some 1, a_settled_at = None, a_parked_at = None\<rparr>"

definition task_slice_0 :: task_slice where
  "task_slice_0 = \<lparr>task_id = ''t1'', task_generation = 1, task_stop_generation = 0,
     task_execution_deadline_at = Some (600 * second), task_runtime_accounted_at = Some 0, task_started_at = Some 0\<rparr>"

definition task_0 :: task_row where
  "task_0 = \<lparr>t_fleet_id = as_str fleet_a, t_workspace_id = as_str workspace_a, t_status = ''running'',
     t_generation = 1, t_stop_generation = 0, t_expires_at = 900 * second, max_model_nanos = 100,
     used_model_nanos = 0, reserved_model_nanos = 0, max_running_nanos = 600 * second, used_running_nanos = 0,
     max_decision_calls = 5, used_decision_calls = 0,
     t_terminal_at = None, t_resource_version = 1, t_checkpoint_cleanup_at = None\<rparr>"

definition lease_db_of :: "lease_row \<Rightarrow> int \<Rightarrow> lease_db" where
  "lease_db_of l token = \<lparr>lease_rows = [as_str lease_a \<mapsto> l],
     lease_slots = [as_str fleet_a \<mapsto> slot_at token runner_a (10 * second)],
     lease_events = [''ev1'' \<mapsto> ''ev1''], fleet_names = [as_str fleet_a \<mapsto> ''docs''],
     admissions = [''ev1'' \<mapsto> admission_0], tasks = [''t1'' \<mapsto> task_0], run_tally = (\<lambda>_. (0, 0)),
     bills = wallet_sample\<rparr>"

definition host_free :: capacity where
  "host_free = \<lparr>cap_now = 0, cap_workers = 1, cap_occupied = 1, claims_allowed = True, renewals_allowed = True,
     cap_lease_version = 0, cap_decision_selected = False\<rparr>"

definition pricing_0 :: pricing where "pricing_0 = runtime_only Platform ''anthropic'' ''claude''"

lemma extends_0: "case Metering.extend (5 * second) mint_a 0 (Some host_free) pricing_0 lease_a runner_a []
      (lease_db_of lease_0 1) of Inr (Extended e s, db') \<Rightarrow> e = 35 * second \<and> settlement_ms s = 5000 | _ \<Rightarrow> False"
  by code_simp

theorem superseded_holder_meters_nothing_witness:
  "snd (meter_lease_sql (5 * second) Renew (as_str lease_a) (as_str runner_a) (lease_db_of lease_0 2))
     = lease_db_of lease_0 2"
proof -
  let ?db = "lease_db_of lease_0 2"
  have "lease_rows ?db (as_str lease_a) = Some lease_0" "l_status lease_0 = lease_status_active"
    "lease_slots ?db (l_fleet_id lease_0) = Some (slot_at 2 runner_a (10 * second))"
    "l_fencing_token lease_0 < fencing_token (slot_at 2 runner_a (10 * second))"
    by (simp_all add: lease_db_of_def lease_0_def slot_at_def lease_status_active_def)
  from superseded_holder_meters_nothing [OF this] show ?thesis by blast
qed

lemma extended_0: "\<exists>s db'. Metering.extend (5 * second) mint_a 0 (Some host_free) pricing_0 lease_a runner_a []
      (lease_db_of lease_0 1) = Inr (Extended (35 * second) s, db') \<and> settlement_ms s = 5000"
  using extends_0 by (auto split: sum.splits prod.splits renewed.splits)

theorem renewal_moves_both_deadlines_witness:
  "\<exists>e s db' l'. Metering.extend (5 * second) mint_a 0 (Some host_free) pricing_0 lease_a runner_a [] (lease_db_of lease_0 1)
      = Inr (Extended e s, db') \<and> lease_rows db' (as_str lease_a) = Some l' \<and> l_expires_at l' = e \<and> e \<le> 35 * second"
  using extended_0 renewal_moves_both_deadlines by fastforce

theorem run_time_billed_once_witness:
  "\<exists>s db' l'. billing_run lease_a [s] (lease_db_of lease_0 1) db' \<and> settlement_ms s = 5000
     \<and> lease_rows db' (as_str lease_a) = Some l' \<and> 2000000 * 5000 \<le> 2 * l_metered_at l' + 1000000"
proof -
  obtain s db' where e: "Metering.extend (5 * second) mint_a 0 (Some host_free) pricing_0 lease_a runner_a []
      (lease_db_of lease_0 1) = Inr (Extended (35 * second) s, db')" "settlement_ms s = 5000"
    using extended_0 by blast
  have run: "billing_run lease_a [s] (lease_db_of lease_0 1) db'"
    using own_pass [OF no_pass renewal [OF e(1)]] by simp
  have l: "lease_rows (lease_db_of lease_0 1) (as_str lease_a) = Some lease_0" by (simp add: lease_db_of_def)
  from run_time_billed_once [OF run l] show ?thesis using run e(2) by (auto simp: lease_0_def)
qed

theorem no_time_past_the_deadline_witness:
  "\<exists>s db'. lease_pass lease_a s (lease_db_of lease_0 1) db' \<and> settlement_ms s = 5000
     \<and> 2000000 * 5000 \<le> 2 * (10 * second) + 1000000"
proof -
  obtain s db' where e: "Metering.extend (5 * second) mint_a 0 (Some host_free) pricing_0 lease_a runner_a []
      (lease_db_of lease_0 1) = Inr (Extended (35 * second) s, db')" "settlement_ms s = 5000"
    using extended_0 by blast
  have p: "lease_pass lease_a s (lease_db_of lease_0 1) db'" using renewal [OF e(1)] by simp
  have l: "lease_rows (lease_db_of lease_0 1) (as_str lease_a) = Some lease_0" by (simp add: lease_db_of_def)
  from no_time_past_the_deadline [OF p l] show ?thesis using p e(2) by (auto simp: lease_0_def second_def)
qed

lemma claims_0: "case claim_and_settle (5 * second) mint_a 0 pricing_0 lease_a runner_a [] True
      (lease_db_of lease_0 1) of Inr (Claimed s, db') \<Rightarrow> settlement_ms s = 5000 | _ \<Rightarrow> False"
  by code_simp

theorem lease_settles_once_witness:
  "\<exists>s db1. claim_and_settle (5 * second) mint_a 0 pricing_0 lease_a runner_a [] True (lease_db_of lease_0 1)
      = Inr (Claimed s, db1)
    \<and> claim_and_settle (6 * second) mint_b 1 pricing_0 lease_a runner_a [] False db1 = Inr (AlreadySettled, db1)"
proof -
  obtain s db1 where c: "claim_and_settle (5 * second) mint_a 0 pricing_0 lease_a runner_a [] True
      (lease_db_of lease_0 1) = Inr (Claimed s, db1)"
    using claims_0 by (auto split: sum.splits prod.splits settled.splits)
  with lease_settles_once [OF c] show ?thesis by blast
qed

definition task_lease :: lease_row where "task_lease = lease_0\<lparr>l_task := Some task_slice_0\<rparr>"

lemma spends_0: "case usage_record (6 * second) (as_str lease_a) 100 (lease_db_of task_lease 1) of
    Inr (allowed, db') \<Rightarrow> \<not> allowed \<and> \<not> isl (Metering.extend (7 * second) mint_a 0 (Some host_free) pricing_0
      lease_a runner_a [] db') | Inl _ \<Rightarrow> False"
  by code_simp

theorem stopped_task_renews_no_lease_witness:
  "\<exists>db' r db''. usage_record (6 * second) (as_str lease_a) 100 (lease_db_of task_lease 1) = Inr (False, db')
     \<and> Metering.extend (7 * second) mint_a 0 (Some host_free) pricing_0 lease_a runner_a [] db' = Inr (r, db'')
     \<and> (\<forall>e s. r \<noteq> Extended e s)"
proof -
  obtain db' r db'' where u: "usage_record (6 * second) (as_str lease_a) 100 (lease_db_of task_lease 1) = Inr (False, db')"
    and x: "Metering.extend (7 * second) mint_a 0 (Some host_free) pricing_0 lease_a runner_a [] db' = Inr (r, db'')"
    using spends_0 by (auto simp: isl_def split: sum.splits prod.splits) (metis sum.exhaust surj_pair)
  have l: "lease_rows (lease_db_of task_lease 1) (as_str lease_a) = Some task_lease"
    "l_task task_lease = Some task_slice_0" "task_started_at task_slice_0 \<noteq> None"
    by (simp_all add: lease_db_of_def task_lease_def task_slice_0_def)
  from stopped_task_renews_no_lease [OF u l x] u x show ?thesis by blast
qed

section \<open>A gate policy\<close>

definition rule_sample :: gate_rule where
  "rule_sample = \<lparr>rule_tool = ''*'', rule_action = ''deploy'', rule_condition = Some ''env == prod'',
     rule_behavior = BehaviorApprove, gate_kind = ''deploy'', blast_radius = ''one service''\<rparr>"

definition policy_sample :: gate_policy where
  "policy_sample = \<lparr>rules = [rule_sample], anomaly_rules = [], policy_timeout = 3600 * second\<rparr>"

theorem undecidable_condition_gates_witness:
  "decision_of (match_rule policy_sample ''run'' ''deploy'' None) \<noteq> AutoApprove"
  by (rule undecidable_condition_gates [of rule_sample])
    (simp_all add: policy_sample_def rule_sample_def matches_action_def wildcard_def context_field_def)

definition raw_sample :: raw_gates where
  "raw_sample = \<lparr>raw_rules = Some [\<lparr>raw_tool = Some ''*'', raw_action = Some ''deploy'',
       raw_condition = None, raw_behavior = BehaviorApprove, raw_gate_kind = [], raw_blast_radius = []\<rparr>],
     raw_anomaly_rules = Some [\<lparr>raw_pattern = Some SameAction, threshold_count = Some 3,
       threshold_window_s = Some 60\<rparr>], raw_timeout_ms = Some 0\<rparr>"

theorem accepted_policy_is_bounded_witness:
  "\<exists>p. gate_policy_try_from raw_sample = Inr p \<and> policy_timeout p \<le> max_timeout"
proof -
  have "\<not> isl (gate_policy_try_from raw_sample)" by code_simp
  then obtain p where "gate_policy_try_from raw_sample = Inr p" by (auto simp: isl_def) (metis sum.exhaust)
  with accepted_policy_is_bounded [OF this] show ?thesis by blast
qed

theorem written_condition_reads_back_witness:
  "condition_parse (''env'' @ op_equal @ quote_char # ''a b'' @ [quote_char])
     = Some \<lparr>field = ''env'', cond_value = ''a b'', negate = False\<rparr>"
  by (rule written_condition_reads_back [THEN conjunct1]) code_simp+

section \<open>A card\<close>

theorem claim_is_card_safe_witness:
  "proposed_action (claim_of (\<lambda>_. None) (Some (JObject [(field_message, JString (ascii ''go''))]))) = ascii ''go''"
proof -
  let ?ctx = "Some (JObject [(field_message, JString (ascii ''go''))])"
  have "claim_prose ?ctx = ascii ''go''" "byte_len (claim_prose ?ctx) \<le> max_proposed_action_bytes"
    "\<forall>c \<in> set (claim_prose ?ctx). \<not> is_forgeable c" by code_simp+
  with claim_is_card_safe [of "\<lambda>_. None" ?ctx] show ?thesis by simp
qed

section \<open>A gated event\<close>

definition gate_env_at :: "instant \<Rightarrow> unit gate_env" where
  "gate_env_at t = \<lparr>answers = (\<lambda>_. True), mint_action = Some line_a, mint_gate = Some line_b, db_clock = t,
     queue_clock = t, decode_ref = (\<lambda>x. Some (Uuid7 x)), encode_ref = (\<lambda>i. Some (as_str i)),
     parse_context = (\<lambda>_. None), parse_prose = (\<lambda>_. None), render_json = (\<lambda>_. None),
     encode_binding = (\<lambda>_. None)\<rparr>"

definition check_sample :: "unit check_request" where
  "check_sample = \<lparr>c_fleet_id = fleet_a, c_workspace_id = workspace_a, c_event_id = ''ev1'', c_event_type = ''run'',
     c_actor = ''deploy'', c_request_json = [], c_gates = Some policy_sample, c_binding = None\<rparr>"

definition gates_empty :: gate_store where
  "gates_empty = \<lparr>cached = Map.empty, counters = Map.empty, gate_rows = [], fleet_status = Map.empty\<rparr>"

lemma parks_sample: "\<exists>st1. check (gate_env_at 0) check_sample gates_empty = (Await Parked, st1)"
proof -
  have "fst (check (gate_env_at 0) check_sample gates_empty) = Await Parked" by code_simp
  then show ?thesis by (metis prod.collapse)
qed

theorem parked_question_decides_witness:
  "\<exists>st1. check (gate_env_at 0) check_sample gates_empty = (Await Parked, st1)
    \<and> fst (check (gate_env_at (4000 * second)) check_sample (answer_rows (as_str line_a) StApproved st1)) = Pass
    \<and> fst (check (gate_env_at (4000 * second)) check_sample (answer_rows (as_str line_a) StPending st1))
        = Refuse RefusedExpired"
proof -
  obtain st1 where p: "check (gate_env_at 0) check_sample gates_empty = (Await Parked, st1)"
    using parks_sample by blast
  have d: "check (gate_env_at (4000 * second)) check_sample (answer_rows (as_str line_a) s st1) =
    ((case s of StApproved \<Rightarrow> Pass
      | StPending \<Rightarrow> if db_clock (gate_env_at 0) + gate_timeout (policy_timeout policy_sample)
            \<le> db_clock (gate_env_at (4000 * second)) then Refuse RefusedExpired else Await Pending
      | _ \<Rightarrow> Refuse RefusedDenied), answer_rows (as_str line_a) s st1)" for s
  proof (rule parked_question_decides [OF p])
    show "uuid7_parse (as_str line_a) = Inr line_a" by code_simp
  qed (simp_all add: gate_env_at_def check_sample_def gates_empty_def)
  have "gate_timeout (policy_timeout policy_sample) \<le> 4000 * second" by code_simp
  with p d show ?thesis by (auto simp: gate_env_at_def)
qed

definition decided_store :: "string \<Rightarrow> gate_store" where
  "decided_store word = gates_empty\<lparr>cached := [event_ref_key (as_str fleet_a) ''ev1'' \<mapsto> (as_str line_a, 9),
     response_key (as_str line_a) \<mapsto> (word, 9)]\<rparr>"

theorem only_a_recorded_answer_decides_witness:
  "recorded (gate_env_at 0) fleet_a ''ev1'' (decided_store ''deny'') = Inr (Some line_a)
    \<and> evaluate_ref (gate_env_at 0) line_a (decided_store ''deny'') = Inr EvDenied"
proof -
  have "fst (check (gate_env_at 0) check_sample (decided_store ''deny'')) = Refuse RefusedDenied" by code_simp
  then obtain st' where c: "check (gate_env_at 0) check_sample (decided_store ''deny'') = (Refuse RefusedDenied, st')"
    by (metis prod.collapse)
  have r: "recorded (gate_env_at 0) fleet_a ''ev1'' (decided_store ''deny'') = Inr (Some line_a)" by code_simp
  from only_a_recorded_answer_decides [OF c, of _ RefusedDenied] r show ?thesis
    by (auto simp: check_sample_def)
qed

definition brake_rule :: "u32 \<Rightarrow> anomaly_rule" where
  "brake_rule n = \<lparr>pattern = SameAction, repeats = n, window_s = 60\<rparr>"

theorem one_rule_trips_exactly_witness:
  "fst (encounters (gate_env_at 0) fleet_a ''run'' ''deploy'' [brake_rule 3] [0, 5, 9] gates_empty)
     = [Normal, Normal, AnomalyKill]"
proof -
  have "fst (encounters (gate_env_at 0) fleet_a ''run'' ''deploy'' [brake_rule 3] (0 # [5, 9]) gates_empty)
      = map (\<lambda>j. if uint (repeats (brake_rule 3)) \<le> int j then AnomalyKill else Normal) [1 ..< Suc (Suc (length [5, 9 :: int]))]"
    by (rule one_rule_trips_exactly [THEN conjunct1]) (simp_all add: gate_env_at_def gates_empty_def brake_rule_def)
  moreover have "map (\<lambda>j. if uint (repeats (brake_rule 3)) \<le> int j then AnomalyKill else Normal)
      [1 ..< Suc (Suc (length [5, 9 :: int]))] = [Normal, Normal, AnomalyKill]" by code_simp
  ultimately show ?thesis by simp
qed

theorem two_rules_share_one_counter_witness:
  "fst (anomaly_of (gate_env_at 0) fleet_a ''run'' ''deploy'' [brake_rule 1000, brake_rule 2] gates_empty) = AnomalyKill"
  by (rule two_rules_share_one_counter [THEN conjunct1])
    (simp_all add: gate_env_at_def gates_empty_def brake_rule_def)

section \<open>Admission\<close>

theorem ceiling_parse_exact_witness: "ceiling_parse ''daily_nanos'' ''2500'' max_daily_nanos = Inr 2500"
proof -
  have c: "max_daily_nanos \<le> i64_max" by code_simp
  have "1 \<le> length ''2500'' \<and> length ''2500'' \<le> 19 \<and> list_all is_ascii_digit ''2500''
      \<and> (2500 :: int) = int (dec_value ''2500'') \<and> 1 \<le> (2500 :: int) \<and> 2500 \<le> max_daily_nanos" by code_simp
  with ceiling_parse_exact [OF c] show ?thesis by blast
qed

theorem budget_round_trip_witness:
  "budget_try_from (budget_serialize \<lparr>daily = 2500, monthly = None\<rparr>) = Inr \<lparr>daily = 2500, monthly = None\<rparr>"
proof -
  have "budget_try_from \<lparr>raw_daily_nanos = Some ''2500'', raw_monthly_nanos = None\<rparr>
      = Inr \<lparr>daily = 2500, monthly = None\<rparr>" by code_simp
  from budget_round_trip [OF this] show ?thesis by blast
qed

definition admit_sample :: admit_request where
  "admit_sample = \<lparr>ad_workspace_id = workspace_a, ad_fleet_id = fleet_a, ad_event_id = ''ev1'',
     ad_budget = \<lparr>daily = 2500, monthly = None\<rparr>, ad_posture = Platform, ad_provider = ''anthropic'',
     ad_model = ''claude''\<rparr>"

definition renewing_sample :: renewing where
  "renewing_sample = \<lparr>rn_fleet_id = fleet_a, rn_workspace_id = workspace_a, rn_tenant_id = tenant_a,
     rn_posture = ''platform'', rn_provider = ''anthropic'', rn_model = ''claude''\<rparr>"

theorem issue_and_renewal_agree_witness:
  "gate_renewal (\<lambda>_ _. Inr book_sample) (\<lambda>a. policy_check (\<lambda>_. False) OutageOpen
        (case None of Some f \<Rightarrow> Inl f | None \<Rightarrow> ledger_check a wallet_sample))
      (\<lambda>_. Inr (Some \<lparr>daily = 2500, monthly = None\<rparr>)) (\<lambda>_ _. Inr \<lparr>spend_day = 0, spend_month = 0\<rparr>)
      renewing_sample lease_a 50 = Inr ()
    \<longleftrightarrow> (\<exists>b. money_gates (\<lambda>_ _. Inr book_sample)
        (\<lambda>p. case None of Some f \<Rightarrow> Inl f | None \<Rightarrow> ledger_balance (as_str (tenant p)) wallet_sample)
        (\<lambda>_ _. Inr \<lparr>spend_day = 0, spend_month = 0\<rparr>) (Inr (Some tenant_a)) admit_sample 50 = Inr (Admit b))"
  by (rule issue_and_renewal_agree [where down = None and db = wallet_sample and policy = OutageOpen])
    (simp_all add: renewing_sample_def admit_sample_def)

theorem logged_cost_reaches_the_ceiling_witness:
  "spent_since (as_str workspace_a) (as_str fleet_a) 0 charged_sample = 92"
proof -
  have "attr settlement_sample = AttrFleet fleet_a ''docs'' ''ev1''" by (simp add: settlement_sample_def)
  from logged_cost_reaches_the_ceiling [OF settle_sample this, of "as_str workspace_a" "as_str fleet_a" 0]
  show ?thesis
    by (simp add: settle_evals spent_since_def row_of_def)
qed

end
