(* ===== verification/DecisionLaws.thy ===== *)
theory DecisionLaws
  imports Decisions
begin

text \<open>
  What the decision accounting guarantees over any run of reservations, issues, receipts, refunds and
  everything else the daemon does to the same tables: a task's reserved credit is its unresolved
  calls, the usage log holds one line per charged call, and an unissued refund is final.
\<close>

section \<open>Runs\<close>

definition decision_row :: "usage_row \<Rightarrow> bool" where
  "decision_row r \<longleftrightarrow> row_work_type r = ''fleet_lease'' \<and> uint decision_seq_base \<le> row_seq r"

definition call_key :: "decision_call \<Rightarrow> string \<times> string \<times> int" where
  "call_key c = (''fleet_lease'', dc_lease_id c, dc_usage_sequence c)"

definition call_known :: "decision_call \<Rightarrow> bool" where
  "call_known c \<longleftrightarrow> dc_status c = call_state_as_str CallKnown"

text \<open>The calls a task's reserved credit stands for.\<close>

definition held_by :: "string \<Rightarrow> task_row \<Rightarrow> decision_call \<Rightarrow> bool" where
  "held_by i t c \<longleftrightarrow> dc_task_id c = Some i \<and> dc_fleet_id c = t_fleet_id t \<and> dc_workspace_id c = t_workspace_id t"

definition line_facts :: "billing_db \<Rightarrow> ((string \<times> string \<times> int) \<times> int) list" where
  "line_facts b = map (\<lambda>r. (line_key r, charged_nanos r)) (filter decision_row (usage_lines b))"

text \<open>
  What the rest of the daemon may do between two operations here: change anything but the calls, the
  usage lines of the decision range and the reserved credit of a task; tasks come and go.
\<close>

definition elsewhere :: "'p decision_db \<Rightarrow> 'p decision_db \<Rightarrow> bool" where
  "elsewhere db db' \<longleftrightarrow> calls db' = calls db
     \<and> line_facts (bills (leasing db')) = line_facts (bills (leasing db)) \<and> db_wf (bills (leasing db'))
     \<and> (\<forall>i t'. tasks (leasing db') i = Some t' \<longrightarrow>
          (\<exists>t. tasks (leasing db) i = Some t \<and> t_fleet_id t' = t_fleet_id t \<and> t_workspace_id t' = t_workspace_id t
             \<and> reserved_model_nanos t' = reserved_model_nanos t)
          \<or> (reserved_model_nanos t' = 0 \<and> (\<forall>c \<in> set (calls db). dc_task_id c \<noteq> Some i)))"

inductive decision_step :: "'p decision_db \<Rightarrow> 'p decision_db \<Rightarrow> bool" where
  reserving: "allocate env l inp db = Inr (a, db') \<Longrightarrow> decision_step db db'"
| issuing: "issue_call month now config verified cov l i db = Inr (e, db') \<Longrightarrow> decision_step db db'"
| recording: "record_receipt now mint l i presented r digest db = Inr (w, db') \<Longrightarrow> decision_step db db'"
| refunding: "expire_call now mint i digest db = Inr (w', db') \<Longrightarrow> decision_step db db'"
| other_work: "elsewhere db db' \<Longrightarrow> decision_step db db'"

definition decisions_empty :: "'p decision_db \<Rightarrow> bool" where
  "decisions_empty db \<longleftrightarrow> calls db = [] \<and> line_facts (bills (leasing db)) = [] \<and> db_wf (bills (leasing db))
     \<and> (\<forall>i t. tasks (leasing db) i = Some t \<longrightarrow> reserved_model_nanos t = 0)"

inductive decisions_reach :: "'p decision_db \<Rightarrow> bool" where
  none_yet: "decisions_empty db \<Longrightarrow> decisions_reach db"
| one_more: "decisions_reach db \<Longrightarrow> decision_step db db' \<Longrightarrow> decisions_reach db'"

section \<open>The invariant\<close>

text \<open>An unknown answer was issued, and it left either a failure or a usage no price covered.\<close>

definition unknown_ok :: "decision_call \<Rightarrow> bool" where
  "unknown_ok c \<longleftrightarrow> (dc_status c = call_state_as_str CallUnknown
     \<longrightarrow> call_issued c \<and> (dc_failure_digest c \<noteq> None \<or> dc_known_usage c \<noteq> None))"

definition calls_ok :: "decision_call list \<Rightarrow> bool" where
  "calls_ok cs \<longleftrightarrow> distinct (map dc_id cs) \<and> distinct (map call_key cs)
     \<and> (\<forall>c \<in> set cs. row_checks c \<and> uint decision_seq_base \<le> dc_usage_sequence c
          \<and> (call_known c \<longrightarrow> dc_charged_nanos c \<noteq> None) \<and> unknown_ok c)"

definition books_ok :: "decision_call list \<Rightarrow> billing_db \<Rightarrow> bool" where
  "books_ok cs b \<longleftrightarrow> db_wf b
     \<and> set (line_facts b) = {(call_key c, the (dc_charged_nanos c)) | c. c \<in> set cs \<and> call_known c}"

definition credit_ok :: "decision_call list \<Rightarrow> (string \<rightharpoonup> task_row) \<Rightarrow> bool" where
  "credit_ok cs ts \<longleftrightarrow> (\<forall>i t. ts i = Some t \<longrightarrow> reserved_model_nanos t = pending_nanos (held_by i t) cs)"

definition decisions_ok :: "'p decision_db \<Rightarrow> bool" where
  "decisions_ok db \<longleftrightarrow> calls_ok (calls db) \<and> books_ok (calls db) (bills (leasing db))
     \<and> credit_ok (calls db) (tasks (leasing db))"

lemma decision_base: "uint decision_seq_base = 3221225472"
  by (simp add: decision_seq_base_def)

text \<open>Replacing the one row of an identifier.\<close>

lemma find_call_split:
  assumes "find_call (LookupId i) db = Some c" "distinct (map dc_id (calls db))"
  obtains xs ys where "calls db = xs @ c # ys" "dc_id c = i" "\<forall>x \<in> set xs \<union> set ys. dc_id x \<noteq> i"
proof -
  from assms(1) obtain k where k: "k < length (calls db)" "dc_id (calls db ! k) = i" "c = calls db ! k"
    by (auto simp: find_call_def find_Some_iff)
  then have split: "calls db = take k (calls db) @ c # drop (Suc k) (calls db)"
    by (simp add: id_take_nth_drop)
  have d: "distinct (map dc_id (take k (calls db) @ c # drop (Suc k) (calls db)))"
    using assms(2) split by simp
  have "dc_id c \<notin> dc_id ` (set (take k (calls db)) \<union> set (drop (Suc k) (calls db)))"
    using d by auto
  then have "\<forall>x \<in> set (take k (calls db)) \<union> set (drop (Suc k) (calls db)). dc_id x \<noteq> i"
    using k(2,3) by (metis imageI)
  with split show ?thesis using that k(2,3) by blast
qed

lemma update_call_split:
  assumes "calls db = xs @ c # ys" "dc_id c = i" "\<forall>x \<in> set xs \<union> set ys. dc_id x \<noteq> i"
  shows "calls (update_call i f db) = xs @ f c # ys"
proof -
  have "map (\<lambda>x. if dc_id x = i then f x else x) zs = zs" if "\<forall>x \<in> set zs. dc_id x \<noteq> i" for zs
    using that by (induction zs) auto
  with assms show ?thesis by (simp add: update_call_def)
qed

lemma update_call_frame [simp]:
  "leasing (update_call i f db) = leasing db" "payload_results (update_call i f db) = payload_results db"
  by (simp_all add: update_call_def)

lemma pending_append [simp]:
  "pending_nanos p (xs @ ys) = pending_nanos p xs + pending_nanos p ys"
  by (simp add: pending_nanos_def)

lemma pending_Cons [simp]:
  "pending_nanos p (c # cs) = (if p c \<and> dc_accounted_at c = None then dc_reserved_nanos c else 0) + pending_nanos p cs"
  by (simp add: pending_nanos_def)

lemma pending_Nil [simp]: "pending_nanos p [] = 0"
  by (simp add: pending_nanos_def)

lemma held_by_fields:
  "dc_task_id d = dc_task_id c \<Longrightarrow> dc_fleet_id d = dc_fleet_id c \<Longrightarrow> dc_workspace_id d = dc_workspace_id c
     \<Longrightarrow> held_by i t d = held_by i t c"
  by (simp add: held_by_def)

section \<open>What an accounted receipt writes\<close>

lemma recorded_row_frame [simp]:
  "dc_id (recorded_row now a r digest c) = dc_id c"
  "dc_lease_id (recorded_row now a r digest c) = dc_lease_id c"
  "dc_usage_sequence (recorded_row now a r digest c) = dc_usage_sequence c"
  "dc_task_id (recorded_row now a r digest c) = dc_task_id c"
  "dc_fleet_id (recorded_row now a r digest c) = dc_fleet_id c"
  "dc_workspace_id (recorded_row now a r digest c) = dc_workspace_id c"
  "dc_reserved_nanos (recorded_row now a r digest c) = dc_reserved_nanos c"
  "dc_issued_at (recorded_row now a r digest c) = dc_issued_at c"
  "dc_runner_id (recorded_row now a r digest c) = dc_runner_id c"
  "dc_fencing_token (recorded_row now a r digest c) = dc_fencing_token c"
  "dc_price (recorded_row now a r digest c) = dc_price c"
  "call_key (recorded_row now a r digest c) = call_key c"
  "held_by i t (recorded_row now a r digest c) = held_by i t c"
  by (simp_all add: recorded_row_def call_key_def held_by_def Let_def)

lemma write_receipt_replay:
  "accounting_of plan = None \<Longrightarrow> write_receipt now mint c r digest plan db = Inr (w, db') \<Longrightarrow>
     db' = db \<and> replayed w"
  by (auto simp: write_receipt_def result_simps)

lemma record_sql_Inr:
  assumes "record_sql now a r digest i db = Inr db1"
  obtains c where "find_call (LookupId i) db = Some c" "row_checks (recorded_row now a r digest c)"
    "db1 = update_call i (recorded_row now a r digest) db"
  using assms by (auto simp: record_sql_def split: option.splits if_splits)

lemma write_receipt_account:
  assumes "write_receipt now mint c r digest plan db = Inr (w, db')" "accounting_of plan = Some a"
  obtains db1 b v ls where "record_sql now a r digest (dc_id c) db = Inr db1"
    "case acc_settlement a of None \<Rightarrow> b = bills (leasing db)
      | Some st \<Rightarrow> \<exists>n. log_lines mint now st (bills (leasing db)) = Inr (n, b)"
    "case dc_task_id c of None \<Rightarrow> ls = (leasing db)\<lparr>bills := b\<rparr>
      | Some t \<Rightarrow> (case acc_charged a of None \<Rightarrow> ls = (leasing db)\<lparr>bills := b\<rparr>
        | Some ch \<Rightarrow> account_task_sql t (dc_fleet_id c) (dc_workspace_id c) (dc_reserved_nanos c) ch
          ((leasing db)\<lparr>bills := b\<rparr>) = Inr (v, ls))"
    "calls db' = calls db1" "leasing db' = ls" "\<not> replayed w"
proof -
  from assms obtain db1 where db1: "record_sql now a r digest (dc_id c) db = Inr db1"
    by (auto simp: write_receipt_def result_simps)
  have le: "leasing db1 = leasing db" using record_sql_Inr [OF db1] by (metis update_call_frame(1))
  let ?logged = "case acc_settlement a of None \<Rightarrow> Inr db1
     | Some st \<Rightarrow> (case log_lines mint now st (bills (leasing db1)) of
           Inl f \<Rightarrow> Inl (OnBilling f)
         | Inr (_, b) \<Rightarrow> Inr (db1\<lparr>leasing := (leasing db1)\<lparr>bills := b\<rparr>\<rparr>))"
  from assms db1 obtain db2 where db2: "?logged = Inr db2"
    by (auto simp: write_receipt_def result_simps)
  obtain b where b: "case acc_settlement a of None \<Rightarrow> b = bills (leasing db)
      | Some st \<Rightarrow> \<exists>n. log_lines mint now st (bills (leasing db)) = Inr (n, b)"
    "leasing db2 = (leasing db)\<lparr>bills := b\<rparr>" "calls db2 = calls db1"
  proof (cases "acc_settlement a")
    case None
    with db2 le show ?thesis by (intro that [of "bills (leasing db)"]) auto
  next
    case (Some st)
    with db2 le obtain n b where "log_lines mint now st (bills (leasing db)) = Inr (n, b)"
      "db2 = db1\<lparr>leasing := (leasing db1)\<lparr>bills := b\<rparr>\<rparr>"
      by (auto split: sum.splits)
    with Some le show ?thesis by (intro that [of b]) auto
  qed
  note head = assms(1) [unfolded write_receipt_def assms(2) option.case db1 res_bind.simps db2]
  show ?thesis
  proof (cases "dc_task_id c")
    case None
    with head have "calls db' = calls db2" "leasing db' = leasing db2" "\<not> replayed w"
      by (auto simp: result_simps Let_def)
    with None b db1 show ?thesis by (intro that [of db1 b]) auto
  next
    case task: (Some t)
    show ?thesis
    proof (cases "acc_charged a")
      case None
      with head task have "calls db' = calls db2" "leasing db' = leasing db2" "\<not> replayed w"
        by (auto simp: result_simps Let_def)
      with None task b db1 show ?thesis by (intro that [of db1 b]) auto
    next
      case (Some ch)
      with head task b(2) obtain v ls where "account_task_sql t (dc_fleet_id c) (dc_workspace_id c)
          (dc_reserved_nanos c) ch ((leasing db)\<lparr>bills := b\<rparr>) = Inr (v, ls)"
        "calls db' = calls db2" "leasing db' = ls" "\<not> replayed w"
        by (auto simp: result_simps Let_def)
      with Some task b db1 show ?thesis by (intro that [of db1 b ls v]) auto
    qed
  qed
qed

text \<open>What a plan to account a call may ask for: a settlement exactly for a known price.\<close>

definition plan_fits :: "decision_call \<Rightarrow> accounting \<Rightarrow> bool" where
  "plan_fits c a \<longleftrightarrow> (acc_state a = CallUnknown \<longrightarrow> acc_failure a \<or> acc_usage a \<noteq> None) \<and> (case acc_settlement a of None \<Rightarrow> acc_state a \<noteq> CallKnown
     | Some st \<Rightarrow> acc_state a = CallKnown \<and> (\<exists>l. lines st = [l] \<and> settlement_key st l = call_key c
         \<and> acc_charged a = Some (charged l)))"

lemma call_state_as_str_inj: "call_state_as_str s = call_state_as_str t \<longleftrightarrow> s = t"
  by (cases s; cases t) simp_all

lemma recorded_known [simp]: "call_known (recorded_row now a r digest c) \<longleftrightarrow> acc_state a = CallKnown"
  by (simp add: call_known_def recorded_row_def Let_def call_state_as_str_inj del: call_state_as_str.simps)

lemma call_id_Inr: "call_id s = Inr i \<Longrightarrow> as_str i = s"
  by (auto simp: call_id_def uuid7_parse_as_str split: sum.splits)

lemma plan_unpriced_fits: "accounting_of (plan_unpriced c u digest) = Some a \<Longrightarrow> plan_fits c a"
  by (auto simp: plan_unpriced_def plan_fits_def split: if_splits)

lemma plan_unknown_fits: "plan_unknown c digest = Inr p \<Longrightarrow> accounting_of p = Some a \<Longrightarrow> plan_fits c a"
  by (auto simp: plan_unknown_def plan_fits_def split: option.splits if_splits)

lemma plan_known_fits:
  assumes "plan_known c u uncached digest = Inr p" "accounting_of p = Some a"
  shows "plan_fits c a"
proof -
  from assms(1) obtain s where s: "decision_seq (dc_usage_sequence c) = Inr s"
    and rest: "(case frozen_rate (dc_price c) (decision_line c u uncached s) of
         Inl _ \<Rightarrow> Inr (plan_unpriced c u digest)
       | Inr rated \<Rightarrow> if unpriced_tokens rated \<noteq> 0 then Inr (plan_unpriced c u digest)
           else res_bind (call_id (dc_lease_id c)) (\<lambda>lease. res_bind (call_id (dc_tenant_id c)) (\<lambda>ten.
             res_bind (call_id (dc_workspace_id c)) (\<lambda>wsp. res_bind (call_id (dc_fleet_id c)) (\<lambda>fl.
               Inr (PlanKnown u (charged rated) \<lparr>work = FleetLease lease,
                 payer = \<lparr>tenant = ten, workspace = wsp\<rparr>,
                 attr = AttrFleet fl (dc_fleet_name c) (dc_source_admission_id c),
                 provider = dc_provider c, model = profile_model (dc_profile c), s_posture = Platform,
                 lines = [rated]\<rparr>)))))) = Inr p"
    unfolding plan_known_def by (auto simp only: result_simps)
  have s': "uint s = dc_usage_sequence c"
    using s by (auto simp: decision_seq_def try_u32_Some split: option.splits if_splits)
  show ?thesis
  proof (cases "frozen_rate (dc_price c) (decision_line c u uncached s)")
    case (Inl f)
    with rest assms(2) show ?thesis by (auto intro: plan_unpriced_fits)
  next
    case (Inr rated)
    show ?thesis
    proof (cases "unpriced_tokens rated = 0")
      case False
      with Inr rest assms(2) show ?thesis by (auto intro: plan_unpriced_fits)
    next
      case True
      have "seq (usage rated) = s"
        using Inr by (auto simp: frozen_rate_def decision_line_def dest!: rate_usage)
      with True Inr rest assms(2) s' show ?thesis
        by (auto simp: result_simps plan_fits_def settlement_key_def call_key_def decision_line_def
            dest!: call_id_Inr)
    qed
  qed
qed

lemma classify_accounts:
  assumes "classify c r digest = Inr p" "accounting_of p = Some a"
  shows "\<not> call_accounted c" "call_issued c" "plan_fits c a"
proof -
  show "\<not> call_accounted c" "call_issued c"
    using assms by (auto simp: classify_def split: if_splits)
  show "plan_fits c a"
    using assms by (auto simp: classify_def plan_fits_def split: if_splits decision_receipt.splits option.splits
        dest: plan_unknown_fits plan_known_fits)
qed

section \<open>Every operation keeps the accounts\<close>

lemma decision_row_key:
  "decision_row r \<longleftrightarrow> fst (line_key r) = ''fleet_lease'' \<and> uint decision_seq_base \<le> snd (snd (line_key r))"
  by (simp add: decision_row_def line_key_def)

lemma log_one_fresh:
  assumes "log_lines mint now st b = Inr (n, b')" "db_wf b" "lines st = [l]"
    "settlement_key st l \<notin> line_key ` set (usage_lines b)"
    "work_type (work st) = ''fleet_lease''" "uint decision_seq_base \<le> uint (seq (usage l))"
  shows "db_wf b'" "set (line_facts b') = insert (settlement_key st l, charged l) (set (line_facts b))"
proof -
  from log_lines_Inr [OF assms(1)] assms(2,3) obtain new where new: "b' = b\<lparr>usage_lines := usage_lines b @ new\<rparr>"
    "\<forall>r \<in> set new. \<exists>i u. r = row_of st now i u l"
    "settlement_key st l \<in> line_key ` set (usage_lines b')" "db_wf b'" by auto
  then have "settlement_key st l \<in> line_key ` set new" using assms(4) by auto
  then obtain r where r: "r \<in> set new" by auto
  have "decision_row x \<and> (line_key x, charged_nanos x) = (settlement_key st l, charged l)" if "x \<in> set new" for x
    using that new(2) assms(5,6) by (auto simp: decision_row_key settlement_key_def)
  note all = this
  have "(\<lambda>x. (line_key x, charged_nanos x)) ` {x \<in> set new. decision_row x} = {(settlement_key st l, charged l)}"
  proof (intro equalityI subsetI)
    fix y assume "y \<in> {(settlement_key st l, charged l)}"
    then show "y \<in> (\<lambda>x. (line_key x, charged_nanos x)) ` {x \<in> set new. decision_row x}"
      using all [OF r] r by (intro image_eqI [of _ _ r]) auto
  qed (use all in fastforce)
  then show "set (line_facts b') = insert (settlement_key st l, charged l) (set (line_facts b))"
    by (simp add: line_facts_def new(1) image_Un)
  show "db_wf b'" by fact
qed

lemma books_fresh:
  assumes "books_ok cs b" "c \<in> set cs" "calls_ok cs" "\<not> call_known c"
  shows "call_key c \<notin> line_key ` set (usage_lines b)"
proof
  assume "call_key c \<in> line_key ` set (usage_lines b)"
  then obtain r where r: "r \<in> set (usage_lines b)" "line_key r = call_key c" by auto
  then have "decision_row r" using assms(2,3) by (auto simp: decision_row_def line_key_def call_key_def calls_ok_def)
  then have "(call_key c, charged_nanos r) \<in> set (line_facts b)" using r by (force simp: line_facts_def)
  then obtain d where "d \<in> set cs" "call_known d" "call_key d = call_key c"
    using assms(1) by (auto simp: books_ok_def)
  with assms(2-4) show False by (metis calls_ok_def distinct_map inj_on_def)
qed

lemma books_same:
  assumes "books_ok cs b" "{(call_key c, the (dc_charged_nanos c)) | c. c \<in> set cs' \<and> call_known c}
     = {(call_key c, the (dc_charged_nanos c)) | c. c \<in> set cs \<and> call_known c}"
  shows "books_ok cs' b"
  using assms by (simp add: books_ok_def)

lemma books_replace_unknown:
  assumes "books_ok (xs @ c # ys) b" "\<not> call_known c" "\<not> call_known c'"
  shows "books_ok (xs @ c' # ys) b"
  using assms(1) by (rule books_same) (use assms(2,3) in auto)

lemma books_replace_known:
  assumes "books_ok (xs @ c # ys) b" "\<not> call_known c" "call_known c'" "db_wf b'"
    "set (line_facts b') = insert (call_key c', the (dc_charged_nanos c')) (set (line_facts b))"
  shows "books_ok (xs @ c' # ys) b'"
  using assms by (auto simp: books_ok_def)

lemma calls_replace:
  assumes "calls_ok (xs @ c # ys)" "dc_id c' = dc_id c" "call_key c' = call_key c" "row_checks c'"
    "dc_usage_sequence c' = dc_usage_sequence c" "call_known c' \<Longrightarrow> dc_charged_nanos c' \<noteq> None" "unknown_ok c'"
  shows "calls_ok (xs @ c' # ys)"
  using assms by (auto simp: calls_ok_def)

lemma known_is_accounted:
  "calls_ok cs \<Longrightarrow> c \<in> set cs \<Longrightarrow> \<not> call_accounted c \<Longrightarrow> \<not> call_known c \<and> dc_charged_nanos c = None"
  by (auto simp: calls_ok_def row_checks_def call_accounted_def)

lemma account_task_Inr:
  assumes "account_task_sql i fleet ws n ch ls = Inr (v, ls')"
  obtains "ls' = ls" "\<forall>t. tasks ls i = Some t \<longrightarrow> t_fleet_id t \<noteq> fleet \<or> t_workspace_id t \<noteq> ws"
  | t t' where "tasks ls i = Some t" "t_fleet_id t = fleet" "t_workspace_id t = ws" "ls' = ls\<lparr>tasks := (tasks ls)(i \<mapsto> t')\<rparr>"
      "reserved_model_nanos t' = reserved_model_nanos t - n" "t_fleet_id t' = fleet" "t_workspace_id t' = ws"
  using assms by (auto simp: account_task_sql_def Let_def split: option.splits if_splits)

lemma account_task_bills: "account_task_sql i fleet ws n ch ls = Inr (v, ls') \<Longrightarrow> bills ls' = bills ls"
  by (erule account_task_Inr) auto

lemma credit_accounted:
  assumes "credit_ok (xs @ c # ys) (tasks ls)" "dc_accounted_at c = None" "dc_accounted_at c' \<noteq> None"
    "dc_task_id c = Some i"
    "\<And>k t. held_by k t c' = held_by k t c"
    "account_task_sql i (dc_fleet_id c) (dc_workspace_id c) (dc_reserved_nanos c) ch ls = Inr (v, ls')"
  shows "credit_ok (xs @ c' # ys) (tasks ls')"
  using assms(6)
proof (cases rule: account_task_Inr)
  case 1
  then have "\<not> held_by k t c" if "tasks ls k = Some t" for k t
    using that assms(4) by (auto simp: held_by_def)
  with 1(1) assms(1,3,5) show ?thesis by (auto simp: credit_ok_def)
next
  case (2 t t')
  show ?thesis
    unfolding credit_ok_def
  proof (intro allI impI)
    fix k u assume u: "tasks ls' k = Some u"
    show "reserved_model_nanos u = pending_nanos (held_by k u) (xs @ c' # ys)"
    proof (cases "k = i")
      case True
      have "held_by i t' = held_by i t" using 2 by (simp add: held_by_def fun_eq_iff)
      moreover have "held_by i t c" using 2 assms(4) by (simp add: held_by_def)
      ultimately show ?thesis
        using True u 2 assms(1-3,5) by (auto simp: credit_ok_def)
    next
      case False
      then have "\<not> held_by k u c" using assms(4) by (simp add: held_by_def)
      with False u 2(4) assms(1,5) show ?thesis by (auto simp: credit_ok_def)
    qed
  qed
qed

lemma credit_unaccounted:
  assumes "credit_ok (xs @ c # ys) ts" "dc_accounted_at c' = dc_accounted_at c" "dc_reserved_nanos c' = dc_reserved_nanos c"
    "\<And>k t. held_by k t c' = held_by k t c"
  shows "credit_ok (xs @ c' # ys) ts"
  using assms by (auto simp: credit_ok_def)

lemma credit_no_task:
  assumes "credit_ok (xs @ c # ys) ts" "dc_task_id c = None" "\<And>k t. held_by k t c' = held_by k t c"
  shows "credit_ok (xs @ c' # ys) ts"
  using assms by (auto simp: credit_ok_def held_by_def)

lemma recorded_accounted_at:
  "dc_accounted_at c = None \<Longrightarrow> dc_accounted_at (recorded_row now a r digest c)
     = (if acc_charged a = None then None else Some now)"
  "dc_charged_nanos c = None \<Longrightarrow> dc_charged_nanos (recorded_row now a r digest c) = acc_charged a"
  by (simp_all add: recorded_row_def Let_def)

lemma accounting_shape:
  "accounting_of plan = Some a \<Longrightarrow> acc_state a \<in> {CallKnown, CallUnknown, CallNotSent}
     \<and> (acc_charged a = None \<longleftrightarrow> acc_state a = CallUnknown)"
  by (cases plan) auto

lemma or_else_None [simp]: "or_else x y = None \<longleftrightarrow> x = None \<and> y = None"
  by (cases x) auto

lemma recorded_unknown_ok:
  assumes "plan_fits c a" "call_issued c \<or> acc_state a = CallNotSent"
  shows "unknown_ok (recorded_row now a r digest c)"
  using assms by (auto simp: plan_fits_def unknown_ok_def recorded_row_def Let_def call_issued_def call_state_as_str_inj
      simp del: call_state_as_str.simps)

lemma find_call_hits: "find_call k db = Some c \<Longrightarrow> lookup_hits k c \<and> c \<in> set (calls db)"
  by (auto simp: find_call_def find_Some_iff)

lemma write_receipt_ok:
  assumes ok: "decisions_ok db" and found: "find_call (LookupId i) db = Some c"
    and w: "write_receipt now mint c r digest plan db = Inr (w, db')"
    and a: "accounting_of plan = Some a" and una: "\<not> call_accounted c" and fits: "plan_fits c a"
    and given: "call_issued c \<or> acc_state a = CallNotSent"
  shows "decisions_ok db'"
proof -
  let ?c = "recorded_row now a r digest c"
  obtain db1 b v ls where sql: "record_sql now a r digest (dc_id c) db = Inr db1"
    and log: "case acc_settlement a of None \<Rightarrow> b = bills (leasing db)
      | Some st \<Rightarrow> \<exists>n. log_lines mint now st (bills (leasing db)) = Inr (n, b)"
    and task: "case dc_task_id c of None \<Rightarrow> ls = (leasing db)\<lparr>bills := b\<rparr>
      | Some t \<Rightarrow> (case acc_charged a of None \<Rightarrow> ls = (leasing db)\<lparr>bills := b\<rparr>
        | Some ch \<Rightarrow> account_task_sql t (dc_fleet_id c) (dc_workspace_id c) (dc_reserved_nanos c) ch
          ((leasing db)\<lparr>bills := b\<rparr>) = Inr (v, ls))"
    and db': "calls db' = calls db1" "leasing db' = ls" "\<not> replayed w"
    by (rule write_receipt_account [OF w a])
  have i: "dc_id c = i" using find_call_hits [OF found] by simp
  from ok have cs: "calls_ok (calls db)" and books: "books_ok (calls db) (bills (leasing db))"
    and credit: "credit_ok (calls db) (tasks (leasing db))" by (auto simp: decisions_ok_def)
  have unknown: "\<not> call_known c" "dc_charged_nanos c = None" "dc_accounted_at c = None"
    using known_is_accounted [OF cs _ una] find_call_hits [OF found] una by (auto simp: call_accounted_def)
  from cs have "distinct (map dc_id (calls db))" by (simp add: calls_ok_def)
  from find_call_split [OF found this] obtain xs ys where split: "calls db = xs @ c # ys"
    "\<forall>x \<in> set xs \<union> set ys. dc_id x \<noteq> i" by metis
  have checks: "row_checks ?c" and calls': "calls db' = xs @ ?c # ys"
  proof -
    from record_sql_Inr [OF sql] obtain d where d: "find_call (LookupId i) db = Some d"
      "row_checks (recorded_row now a r digest d)" "db1 = update_call i (recorded_row now a r digest) db"
      unfolding i by metis
    show "row_checks ?c" using d(1,2) found by simp
    show "calls db' = xs @ ?c # ys"
      unfolding db'(1) d(3) by (rule update_call_split [OF split(1) i split(2)])
  qed
  have state: "call_known ?c \<Longrightarrow> acc_charged a \<noteq> None"
    using fits by (auto simp: plan_fits_def split: option.splits)
  have C: "calls_ok (calls db')"
    unfolding calls' by (rule calls_replace [OF cs [unfolded split(1)]])
      (use checks state unknown(2) recorded_unknown_ok [OF fits given] in \<open>auto simp: recorded_accounted_at\<close>)
  have bills: "bills (leasing db') = b"
    unfolding db'(2) using task by (auto dest: account_task_bills split: option.splits)
  have B: "books_ok (calls db') (bills (leasing db'))"
  proof (cases "acc_settlement a")
    case None
    then show ?thesis using books log fits unknown(1) unfolding calls' bills split(1)
      by (auto simp: plan_fits_def intro: books_replace_unknown)
  next
    case (Some st)
    with fits obtain l where l: "lines st = [l]" "settlement_key st l = call_key c" "acc_charged a = Some (charged l)"
      "acc_state a = CallKnown" by (auto simp: plan_fits_def)
    from log Some obtain n where n: "log_lines mint now st (bills (leasing db)) = Inr (n, b)" by auto
    have key: "settlement_key st l \<notin> line_key ` set (usage_lines (bills (leasing db)))"
      using books_fresh [OF books _ cs unknown(1)] split(1) l(2) by simp
    have base: "uint decision_seq_base \<le> dc_usage_sequence c" using cs split(1) by (simp add: calls_ok_def)
    have wf: "db_wf (bills (leasing db))" using books by (simp add: books_ok_def)
    have wt: "work_type (work st) = ''fleet_lease''" "uint decision_seq_base \<le> uint (seq (usage l))"
      using l(2) base by (simp_all add: settlement_key_def call_key_def)
    note fresh = log_one_fresh [OF n wf l(1) key wt]
    have ch: "the (dc_charged_nanos ?c) = charged l" using unknown(2) l(3) by (simp add: recorded_accounted_at)
    show ?thesis
      unfolding calls' bills
      by (rule books_replace_known [OF books [unfolded split(1)] unknown(1) _ fresh(1)])
        (simp_all add: fresh(2) l(2,4) ch)
  qed
  have K: "credit_ok (calls db') (tasks (leasing db'))"
  proof (cases "dc_task_id c")
    case None
    then show ?thesis using task credit unfolding calls' db'(2) split(1) by (auto intro: credit_no_task)
  next
    case t: (Some t)
    show ?thesis
    proof (cases "acc_charged a")
      case None
      with t task have "tasks ls = tasks (leasing db)" by simp
      with None unknown(3) show ?thesis using credit unfolding calls' db'(2) split(1)
        by (auto simp: recorded_accounted_at intro: credit_unaccounted)
    next
      case (Some ch)
      with t task have "account_task_sql t (dc_fleet_id c) (dc_workspace_id c) (dc_reserved_nanos c) ch
          ((leasing db)\<lparr>bills := b\<rparr>) = Inr (v, ls)" by simp
      moreover have "credit_ok (xs @ c # ys) (tasks ((leasing db)\<lparr>bills := b\<rparr>))" using credit split(1) by simp
      moreover have "dc_accounted_at ?c \<noteq> None" using Some unknown(3) by (simp add: recorded_accounted_at)
      ultimately show ?thesis unfolding calls' db'(2)
        by (intro credit_accounted [of xs c ys _ ?c t]) (use unknown(3) t in simp_all)
    qed
  qed
  show ?thesis using C B K by (simp add: decisions_ok_def)
qed

lemma record_receipt_ok:
  assumes "decisions_ok db" "record_receipt now mint l i presented r digest db = Inr (w, db')"
  shows "decisions_ok db'"
proof -
  from assms(2) obtain c plan where c: "find_call (LookupId i) db = Some c" "classify c r digest = Inr plan"
    "write_receipt now mint c r digest plan db = Inr (w, db')"
    by (auto simp: record_receipt_def result_simps split: option.splits if_splits)
  show ?thesis
  proof (cases "accounting_of plan")
    case None
    with c(3) assms(1) show ?thesis by (auto dest: write_receipt_replay)
  next
    case (Some a)
    from classify_accounts [OF c(2) this] show ?thesis by (intro write_receipt_ok [OF assms(1) c(1,3) Some]) auto
  qed
qed

lemma expire_call_ok:
  assumes "decisions_ok db" "expire_call now mint i digest db = Inr (w, db')"
  shows "decisions_ok db'"
proof (cases "db' = db")
  case False
  with assms(2) obtain c w' where c: "find_call (LookupId i) db = Some c" "\<not> call_accounted c"
    "write_receipt now mint c preflight_receipt digest PlanNotSent db = Inr (w', db')"
    by (auto simp: expire_call_def result_simps split: option.splits if_splits)
  show ?thesis
    by (rule write_receipt_ok [OF assms(1) c(1,3) accounting_of.simps(4) c(2)]) (simp_all add: plan_fits_def)
qed (use assms in simp)

lemma issue_sql_cases:
  assumes "issue_sql now i db = (b, db')"
  obtains "\<not> b" "db' = db"
  | c where "b" "find_call (LookupId i) db = Some c" "dc_status c = call_state_as_str CallReserved"
      "dc_accounted_at c = None" "dc_issued_at c = None" "now < dc_logical_expires_at c" "issue_authority now c db"
      "db' = update_call i (\<lambda>c. c\<lparr>dc_status := call_state_as_str CallIssued, dc_issued_at := Some now\<rparr>) db"
proof (cases b)
  case False
  with assms that show ?thesis by (auto simp: issue_sql_def split: option.splits if_splits)
next
  case True
  with assms obtain c where c: "find_call (LookupId i) db = Some c"
    by (auto simp: issue_sql_def split: option.splits)
  with True assms show ?thesis
    by (intro that(2) [OF True c]) (simp_all add: issue_sql_def split: if_splits)
qed

lemma issue_sql_ok:
  assumes ok: "decisions_ok db" and sql: "issue_sql now i db = (b, db')"
  shows "decisions_ok db'"
  using sql
proof (cases rule: issue_sql_cases)
  case (2 c)
  let ?f = "\<lambda>c. c\<lparr>dc_status := call_state_as_str CallIssued, dc_issued_at := Some now\<rparr>"
  from ok have cs: "calls_ok (calls db)" and books: "books_ok (calls db) (bills (leasing db))"
    and credit: "credit_ok (calls db) (tasks (leasing db))" by (auto simp: decisions_ok_def)
  from cs have "distinct (map dc_id (calls db))" by (simp add: calls_ok_def)
  from find_call_split [OF 2(2) this] obtain xs ys where split: "calls db = xs @ c # ys" "dc_id c = i"
    "\<forall>x \<in> set xs \<union> set ys. dc_id x \<noteq> i" .
  have calls': "calls db' = xs @ ?f c # ys" unfolding 2(8) by (rule update_call_split [OF split])
  have le: "leasing db' = leasing db" by (simp add: 2(8))
  have un: "\<not> call_known c" "\<not> call_known (?f c)" using 2(3) by (simp_all add: call_known_def)
  have "row_checks c" using cs split(1) by (simp add: calls_ok_def)
  then have "calls_ok (calls db')"
    unfolding calls' by (intro calls_replace [OF cs [unfolded split(1)]])
      (use un in \<open>simp_all add: call_key_def row_checks_def unknown_ok_def\<close>)
  moreover have "books_ok (calls db') (bills (leasing db'))"
    unfolding calls' le by (rule books_replace_unknown [OF books [unfolded split(1)] un])
  moreover have "credit_ok (calls db') (tasks (leasing db'))"
    unfolding calls' le by (rule credit_unaccounted [OF credit [unfolded split(1)]]) (simp_all add: held_by_def)
  ultimately show ?thesis by (simp add: decisions_ok_def)
qed (use ok in simp)

lemma issue_call_Inr:
  assumes "issue_call month now config verified cov l i db = Inr (e, db')"
  obtains c where "e = EmitExisting c" "find_call (LookupId i) db = Some c" "db' = db"
  | c where "e = Dispatch c" "find_call (LookupId i) db = Some c" "issue_sql now (dc_id c) db = (True, db')"
proof -
  from assms obtain nl x task where head: "verified db = Inr (nl, x, task)"
    by (cases "verified db") (auto simp: issue_call_def)
  from assms obtain c st where c: "find_call (LookupId i) db = Some c"
    and body: "(if st \<noteq> CallReserved \<or> call_issued c \<or> call_accounted c then Inr (EmitExisting c, db)
     else if required cov < required_credit (as_str (tl_lease_id l)) (headroom cov) db
     then Inl (TaskRefused DecisionUnavailable)
     else if payload_results db (dc_id c) = None then Inl (TaskRefused DecisionUnavailable)
     else let (issued, db') = issue_sql now (dc_id c) db in
       if issued then Inr (Dispatch c, db') else Inl (TaskRefused StaleState)) = Inr (e, db')"
    unfolding issue_call_def head by (simp only: res_bind.simps prod.case res_bind_Inr ok_or_Inr) blast
  obtain b db2 where sql: "issue_sql now (dc_id c) db = (b, db2)" by fastforce
  from body have "(e = EmitExisting c \<and> db' = db) \<or> (e = Dispatch c \<and> issue_sql now (dc_id c) db = (True, db'))"
    by (simp add: sql split: if_splits)
  with c that show ?thesis by blast
qed

lemma issue_call_ok:
  assumes "decisions_ok db" "issue_call month now config verified cov l i db = Inr (e, db')"
  shows "decisions_ok db'"
  using assms(2) by (cases rule: issue_call_Inr) (use assms(1) issue_sql_ok in auto)

lemma elsewhere_ok:
  assumes "decisions_ok db" "elsewhere db db'"
  shows "decisions_ok db'"
proof -
  have "credit_ok (calls db') (tasks (leasing db'))"
    unfolding credit_ok_def
  proof (intro allI impI)
    fix i t' assume t': "tasks (leasing db') i = Some t'"
    from assms(2) t' have calls: "calls db' = calls db"
      and or: "(\<exists>t. tasks (leasing db) i = Some t \<and> t_fleet_id t' = t_fleet_id t \<and> t_workspace_id t' = t_workspace_id t
             \<and> reserved_model_nanos t' = reserved_model_nanos t)
          \<or> (reserved_model_nanos t' = 0 \<and> (\<forall>c \<in> set (calls db). dc_task_id c \<noteq> Some i))"
      by (auto simp: elsewhere_def)
    from or show "reserved_model_nanos t' = pending_nanos (held_by i t') (calls db')"
    proof
      assume "\<exists>t. tasks (leasing db) i = Some t \<and> t_fleet_id t' = t_fleet_id t \<and> t_workspace_id t' = t_workspace_id t
             \<and> reserved_model_nanos t' = reserved_model_nanos t"
      then obtain t where t: "tasks (leasing db) i = Some t" "held_by i t' = held_by i t"
        "reserved_model_nanos t' = reserved_model_nanos t" by (auto simp: held_by_def fun_eq_iff)
      then show ?thesis using assms(1) calls by (simp add: decisions_ok_def credit_ok_def)
    next
      assume none: "reserved_model_nanos t' = 0 \<and> (\<forall>c \<in> set (calls db). dc_task_id c \<noteq> Some i)"
      then have "filter (\<lambda>c. held_by i t' c \<and> dc_accounted_at c = None) (calls db) = []"
        by (auto simp: filter_empty_conv held_by_def)
      with none calls show ?thesis by (simp add: pending_nanos_def)
    qed
  qed
  moreover have "books_ok (calls db') (bills (leasing db'))" "calls_ok (calls db')"
    using assms by (simp_all add: elsewhere_def decisions_ok_def books_ok_def)
  ultimately show ?thesis by (simp add: decisions_ok_def)
qed

lemma save_intent_Inr:
  assumes "save_intent l inp i p a db = Inr db'"
  obtains s where "s = sequence_sql (as_str (tl_lease_id l)) db" "uint decision_seq_base \<le> s"
    "list_all (\<lambda>d. \<not> call_conflicts (intent_call l inp i p a s) d) (calls db)"
    "calls db' = calls db @ [intent_call l inp i p a s]" "bills (leasing db') = bills (leasing db)"
    "case goal_of p of None \<Rightarrow> leasing db' = leasing db
      | Some (t, g) \<Rightarrow> reserve_task_sql t (nl_fleet_id (pr_lease p)) (nl_workspace_id (pr_lease p)) call_nanos
          (leasing db) = Inr (leasing db')"
proof -
  define s where "s = sequence_sql (as_str (tl_lease_id l)) db"
  define c where "c = intent_call l inp i p a s"
  define db2 where "db2 = db\<lparr>calls := calls db @ [c], payload_results := (payload_results db)(i \<mapsto> None)\<rparr>"
  from assms obtain q db1 where q: "decision_seq s = Inr q" and ins: "insert_call_sql c db = Inr db1"
    and body: "(case goal_of p of None \<Rightarrow> Inr (db1\<lparr>payload_results := (payload_results db1)(i \<mapsto> None)\<rparr>)
      | Some (t, _) \<Rightarrow> res_bind (reserve_task_sql t (nl_fleet_id (pr_lease p)) (nl_workspace_id (pr_lease p))
            call_nanos (leasing (db1\<lparr>payload_results := (payload_results db1)(i \<mapsto> None)\<rparr>)))
          (\<lambda>ls. Inr (db1\<lparr>payload_results := (payload_results db1)(i \<mapsto> None), leasing := ls\<rparr>))) = Inr db'"
    by (auto simp: save_intent_def s_def c_def res_bind_Inr Let_def)
  from ins have none: "list_all (\<lambda>d. \<not> call_conflicts c d) (calls db)" and db1: "db1 = db\<lparr>calls := calls db @ [c]\<rparr>"
    by (auto simp: insert_call_sql_def list_all_iff list_ex_iff split: if_splits)
  have base: "uint decision_seq_base \<le> s"
    using q by (auto simp: decision_seq_def word_le_def try_u32_Some split: option.splits if_splits)
  show ?thesis
  proof (cases "goal_of p")
    case None
    with body db1 have "db' = db2" by (simp add: db2_def)
    with None show ?thesis using none by (intro that [OF s_def base]) (simp_all add: db2_def c_def)
  next
    case (Some tg)
    obtain t g where tg: "tg = (t, g)" by fastforce
    from Some tg body db1 obtain ls where ls: "reserve_task_sql t (nl_fleet_id (pr_lease p)) (nl_workspace_id (pr_lease p))
        call_nanos (leasing db) = Inr ls" "db' = db2\<lparr>leasing := ls\<rparr>"
      by (auto simp: db2_def res_bind_Inr)
    have "bills ls = bills (leasing db)"
      using ls(1) by (auto simp: reserve_task_sql_def split: option.splits if_splits)
    with Some tg ls show ?thesis using none by (intro that [OF s_def base]) (simp_all add: db2_def c_def)
  qed
qed

lemma intent_call_simps [simp]:
  "dc_id (intent_call l inp i p a s) = i" "dc_accounted_at (intent_call l inp i p a s) = None"
  "dc_reserved_nanos (intent_call l inp i p a s) = call_nanos"
  "dc_usage_sequence (intent_call l inp i p a s) = s" "row_checks (intent_call l inp i p a s)"
  "\<not> call_known (intent_call l inp i p a s)" "unknown_ok (intent_call l inp i p a s)"
  "dc_task_id (intent_call l inp i p a s) = map_option fst (goal_of p)"
  "dc_fleet_id (intent_call l inp i p a s) = nl_fleet_id (pr_lease p)"
  "dc_workspace_id (intent_call l inp i p a s) = nl_workspace_id (pr_lease p)"
  by (simp_all add: intent_call_def row_checks_def call_known_def unknown_ok_def)

lemma reserve_task_Inr:
  assumes "reserve_task_sql i fleet ws n ls = Inr ls'"
  obtains "ls' = ls" "\<forall>t. tasks ls i = Some t \<longrightarrow> t_fleet_id t \<noteq> fleet \<or> t_workspace_id t \<noteq> ws"
  | t t' where "tasks ls i = Some t" "t_fleet_id t = fleet" "t_workspace_id t = ws" "ls' = ls\<lparr>tasks := (tasks ls)(i \<mapsto> t')\<rparr>"
      "reserved_model_nanos t' = reserved_model_nanos t + n" "t_fleet_id t' = fleet" "t_workspace_id t' = ws"
  using assms by (auto simp: reserve_task_sql_def split: option.splits if_splits)

lemma credit_reserved:
  assumes "credit_ok cs (tasks ls)" "dc_accounted_at c = None" "dc_task_id c = Some i"
    "reserve_task_sql i (dc_fleet_id c) (dc_workspace_id c) (dc_reserved_nanos c) ls = Inr ls'"
  shows "credit_ok (cs @ [c]) (tasks ls')"
  using assms(4)
proof (cases rule: reserve_task_Inr)
  case 1
  then have "\<not> held_by k t c" if "tasks ls k = Some t" for k t
    using that assms(3) by (auto simp: held_by_def)
  with 1(1) assms(1) show ?thesis by (auto simp: credit_ok_def)
next
  case (2 t t')
  show ?thesis
    unfolding credit_ok_def
  proof (intro allI impI)
    fix k u assume u: "tasks ls' k = Some u"
    show "reserved_model_nanos u = pending_nanos (held_by k u) (cs @ [c])"
    proof (cases "k = i")
      case True
      have "held_by i t' = held_by i t" using 2 by (simp add: held_by_def fun_eq_iff)
      moreover have "held_by i t c" using 2 assms(3) by (simp add: held_by_def)
      ultimately show ?thesis using True u 2 assms(1,2) by (auto simp: credit_ok_def)
    next
      case False
      then have "\<not> held_by k u c" using assms(3) by (simp add: held_by_def)
      with False u 2(4) assms(1) show ?thesis by (auto simp: credit_ok_def)
    qed
  qed
qed

lemma save_intent_ok:
  assumes ok: "decisions_ok db" and save: "save_intent l inp i p a db = Inr db'"
  shows "decisions_ok db'"
proof -
  obtain s where s: "s = sequence_sql (as_str (tl_lease_id l)) db" "uint decision_seq_base \<le> s"
    "list_all (\<lambda>d. \<not> call_conflicts (intent_call l inp i p a s) d) (calls db)"
    "calls db' = calls db @ [intent_call l inp i p a s]" "bills (leasing db') = bills (leasing db)"
    "case goal_of p of None \<Rightarrow> leasing db' = leasing db
      | Some (t, g) \<Rightarrow> reserve_task_sql t (nl_fleet_id (pr_lease p)) (nl_workspace_id (pr_lease p)) call_nanos
          (leasing db) = Inr (leasing db')"
    by (rule save_intent_Inr [OF save])
  let ?c = "intent_call l inp i p a s"
  from ok have cs: "calls_ok (calls db)" and books: "books_ok (calls db) (bills (leasing db))"
    and credit: "credit_ok (calls db) (tasks (leasing db))" by (auto simp: decisions_ok_def)
  have "dc_id ?c \<notin> dc_id ` set (calls db)" "call_key ?c \<notin> call_key ` set (calls db)"
    using s(3) by (auto simp: list_all_iff call_conflicts_def call_key_def simp del: intent_call_simps)
  then have "calls_ok (calls db')"
    using cs s(2) unfolding s(4) by (auto simp: calls_ok_def)
  moreover have "books_ok (calls db') (bills (leasing db'))"
    unfolding s(4,5) by (rule books_same [OF books]) auto
  moreover have "credit_ok (calls db') (tasks (leasing db'))"
  proof (cases "goal_of p")
    case None
    then have "\<not> held_by k t ?c" for k t by (simp add: held_by_def)
    with None s(6) credit show ?thesis unfolding s(4) by (auto simp: credit_ok_def)
  next
    case (Some tg)
    with s(6) show ?thesis unfolding s(4)
      by (intro credit_reserved [OF credit]) (auto split: prod.splits)
  qed
  ultimately show ?thesis by (simp add: decisions_ok_def)
qed

lemma allocate_Inr:
  assumes "allocate env l inp db = Inr (al, db')"
  obtains "db' = db"
  | cid aid p task a c where "re_call_id env = Some cid" "re_prepared env cid db = Inr p"
      "execution_budget p db = Inr task"
      "resolve_attempt (re_now env) p (ri_retry_of inp) (ri_digest inp) (as_str aid) db = Inr a"
      "check_on (re_month_floor env) (re_now env) (re_config env) (pr_lease p) (pr_assessed p) task True db = Inr ()"
      "save_intent l inp (as_str cid) p a db = Inr db'"
      "al = AllocReserved c" "find_call (LookupId (as_str cid)) db' = Some c"
proof (cases "db' = db")
  case True
  then show ?thesis by (rule that(1))
next
  case new: False
  have "ri_fencing_token inp = tl_fencing_token l"
    using assms unfolding allocate_def by (simp split: if_splits)
  moreover have "find_call (LookupOperation (as_str (tl_lease_id l)) (ri_operation_id inp)) db = None"
    using assms new unfolding allocate_def by (auto simp: result_simps split: if_splits option.splits)
  moreover obtain g frozen subject where "re_guard env = Inr g" "gd_profile g = Some frozen" "gd_subject g = Inr subject"
    "\<not> block_profile_switch (gd_fleet_id g) (gd_workspace_id g) subject (profile_revision_id frozen) db"
    using assms calculation unfolding allocate_def by (auto simp: res_bind_Inr split: if_splits)
  ultimately obtain cid aid p task a where ids: "re_call_id env = Some cid" "re_assessment_id env = Some aid"
    "re_prepared env cid db = Inr p" "execution_budget p db = Inr task"
    "resolve_attempt (re_now env) p (ri_retry_of inp) (ri_digest inp) (as_str aid) db = Inr a"
    and tail: "(case find_call (LookupAssessment (pr_key p) (attempt_number a)) db of
          Some c \<Rightarrow> res_bind (replay_matches c inp False) (\<lambda>_.
            if owned_by c l then res_bind (classify_allocation c) (\<lambda>al. Inr (al, db)) else Inr (AllocExisting c, db))
        | None \<Rightarrow>
            if \<not> re_admin env then Inl (TaskRefused DecisionUnavailable)
            else res_bind (check_on (re_month_floor env) (re_now env) (re_config env) (pr_lease p) (pr_assessed p)
                task True db) (\<lambda>_.
              res_bind (save_intent l inp (as_str cid) p a db) (\<lambda>db'.
              res_bind (ok_or (TaskRefused NotFound) (find_call (LookupId (as_str cid)) db'))
                (\<lambda>c. Inr (AllocReserved c, db'))))) = Inr (al, db')"
    using assms unfolding allocate_def by (auto simp: res_bind_Inr)
  show ?thesis
  proof (cases "find_call (LookupAssessment (pr_key p) (attempt_number a)) db")
    case None
    with tail obtain c where "check_on (re_month_floor env) (re_now env) (re_config env) (pr_lease p) (pr_assessed p) task True db = Inr ()"
      "save_intent l inp (as_str cid) p a db = Inr db'"
      "al = AllocReserved c" "find_call (LookupId (as_str cid)) db' = Some c"
      by (auto simp: res_bind_Inr split: if_splits)
    with ids show ?thesis by (intro that(2))
  next
    case (Some c)
    with tail have "db' = db" by (auto simp: res_bind_Inr split: if_splits)
    with new show ?thesis by simp
  qed
qed

lemma allocate_ok:
  assumes "decisions_ok db" "allocate env l inp db = Inr (al, db')"
  shows "decisions_ok db'"
  using assms(2) by (cases rule: allocate_Inr) (use assms(1) save_intent_ok in blast)+

lemma decision_step_ok: "decision_step db db' \<Longrightarrow> decisions_ok db \<Longrightarrow> decisions_ok db'"
  by (induction rule: decision_step.induct)
     (blast intro: allocate_ok issue_call_ok record_receipt_ok expire_call_ok elsewhere_ok)+

lemma decisions_empty_ok: "decisions_empty db \<Longrightarrow> decisions_ok db"
  by (auto simp: decisions_empty_def decisions_ok_def calls_ok_def books_ok_def credit_ok_def)

lemma decisions_reach_ok: "decisions_reach db \<Longrightarrow> decisions_ok db"
  by (induction rule: decisions_reach.induct) (blast intro: decision_step_ok decisions_empty_ok)+

section \<open>What the accounts say\<close>

text \<open>C22: However reservations, issues, receipts, refunds and the daemon's other work interleave, the
  credit a task holds in reserve is exactly the sum of the reservations of its calls no receipt has
  resolved: no receipt, refund, failure or repetition leaks credit or releases it twice.\<close>

theorem reserved_credit_is_unresolved_calls:
  assumes "decisions_reach db" "tasks (leasing db) i = Some t"
  shows "reserved_model_nanos t = pending_nanos (held_by i t) (calls db)"
  using decisions_reach_ok [OF assms(1)] assms(2) by (simp add: decisions_ok_def credit_ok_def)

lemma filter_distinct_key:
  "distinct (map f xs) \<Longrightarrow> x \<in> set xs \<Longrightarrow> filter (\<lambda>y. f y = f x) xs = [x]"
  by (induction xs) (auto simp: filter_empty_conv image_iff)

lemma line_fact_iff:
  assumes "decisions_ok db" "c \<in> set (calls db)"
  shows "(\<exists>r \<in> set (usage_lines (bills (leasing db))). line_key r = call_key c \<and> charged_nanos r = n)
     \<longleftrightarrow> call_known c \<and> dc_charged_nanos c = Some n"
proof -
  let ?b = "bills (leasing db)"
  from assms have cs: "calls_ok (calls db)" and books: "set (line_facts ?b)
      = {(call_key c, the (dc_charged_nanos c)) | c. c \<in> set (calls db) \<and> call_known c}"
    by (auto simp: decisions_ok_def books_ok_def)
  have base: "uint decision_seq_base \<le> dc_usage_sequence c" using cs assms(2) by (simp add: calls_ok_def)
  have "(\<exists>r \<in> set (usage_lines ?b). line_key r = call_key c \<and> charged_nanos r = n)
     \<longleftrightarrow> (call_key c, n) \<in> set (line_facts ?b)"
    using base by (force simp: line_facts_def decision_row_key call_key_def)
  also have "\<dots> \<longleftrightarrow> (\<exists>d \<in> set (calls db). call_key d = call_key c \<and> call_known d \<and> n = the (dc_charged_nanos d))"
    unfolding books by (auto, metis)
  also have "\<dots> \<longleftrightarrow> call_known c \<and> n = the (dc_charged_nanos c)"
    using cs assms(2) by (metis calls_ok_def distinct_map inj_on_def)
  also have "\<dots> \<longleftrightarrow> call_known c \<and> dc_charged_nanos c = Some n"
    using cs assms(2) by (auto simp: calls_ok_def)
  finally show ?thesis .
qed

text \<open>C23: The usage log and the calls agree at every moment: a call whose cost is known has exactly one
  line under its key, charging what its row charges, and any other call has none, whatever receipts
  arrive twice, out of order or after the task is gone.\<close>

theorem one_line_per_known_call:
  assumes "decisions_reach db" "c \<in> set (calls db)"
  shows "map charged_nanos (filter (\<lambda>r. line_key r = call_key c) (usage_lines (bills (leasing db))))
     = (if dc_status c = ''known'' then [the (dc_charged_nanos c)] else [])"
proof -
  let ?ls = "usage_lines (bills (leasing db))"
  note ok = decisions_reach_ok [OF assms(1)]
  then have wf: "distinct (map line_key ?ls)" by (simp add: decisions_ok_def books_ok_def db_wf_def)
  show ?thesis
  proof (cases "call_known c")
    case True
    then obtain n where n: "dc_charged_nanos c = Some n"
      using ok assms(2) by (auto simp: decisions_ok_def calls_ok_def)
    with True line_fact_iff [OF ok assms(2)] obtain r where r: "r \<in> set ?ls" "line_key r = call_key c"
      "charged_nanos r = n" by blast
    have "filter (\<lambda>r. line_key r = call_key c) ?ls = [r]"
      using filter_distinct_key [OF wf r(1)] r(2) by simp
    with True n r(3) show ?thesis by (simp add: call_known_def)
  next
    case False
    then have "filter (\<lambda>r. line_key r = call_key c) ?ls = []"
      using line_fact_iff [OF ok assms(2)] by (auto simp: filter_empty_conv)
    with False show ?thesis by (simp add: call_known_def)
  qed
qed

end
