(* ===== verification/DecisionFlow.thy ===== *)
theory DecisionFlow
  imports DecisionLaws
begin

text \<open>
  What the invariant of the decision accounting gives: the abstract lifecycle every operation refines,
  the single dispatch of a call, the limits of a reservation, the pages of the recovery and the
  idempotence of receipts.
\<close>

section \<open>The lifecycle of one call\<close>

text \<open>
  The abstract account of a call: credit held, one credential granted, an answer whose price is not
  known, a charge, a refund.  A call moves forward only, and the last two are final.
\<close>

datatype phase = Held | Granted | Unresolved | Spent nanos | Refunded

definition phase_of :: "decision_call \<Rightarrow> phase" where
  "phase_of c = (if call_accounted c
     then (if call_known c then Spent (the (dc_charged_nanos c)) else Refunded)
     else if dc_status c = call_state_as_str CallUnknown then Unresolved
     else if call_issued c then Granted else Held)"

inductive phase_step :: "phase \<Rightarrow> phase \<Rightarrow> bool" where
  keep: "phase_step p p"
| grant: "phase_step Held Granted"
| lapse: "phase_step Held Refunded"
| refuse: "phase_step Granted Refunded"
| lose: "p \<in> {Granted, Unresolved} \<Longrightarrow> phase_step p Unresolved"
| spend: "p \<in> {Granted, Unresolved} \<Longrightarrow> phase_step p (Spent n)"

inductive_cases phase_step_spent: "phase_step (Spent n) q"
inductive_cases phase_step_refunded: "phase_step Refunded q"

text \<open>What one operation may do to one call.\<close>

definition call_moves :: "decision_call \<Rightarrow> decision_call \<Rightarrow> bool" where
  "call_moves c c' \<longleftrightarrow> dc_id c' = dc_id c \<and> call_key c' = call_key c \<and> dc_reserved_nanos c' = dc_reserved_nanos c
     \<and> (call_issued c \<longrightarrow> call_issued c') \<and> (call_accounted c \<longrightarrow> c' = c) \<and> phase_step (phase_of c) (phase_of c')"

lemma call_moves_refl [simp]: "call_moves c c"
  by (simp add: call_moves_def phase_step.keep)

lemma phase_of_recorded:
  assumes "\<not> call_accounted c" "dc_charged_nanos c = None" "plan_fits c a"
    "acc_state a \<in> {CallKnown, CallUnknown, CallNotSent}"
    "acc_charged a = None \<longleftrightarrow> acc_state a = CallUnknown"
  shows "phase_of (recorded_row now a r digest c)
     = (case acc_state a of CallKnown \<Rightarrow> Spent (the (acc_charged a)) | CallUnknown \<Rightarrow> Unresolved | _ \<Rightarrow> Refunded)"
  using assms by (auto simp: phase_of_def recorded_row_def Let_def call_known_def call_accounted_def)

text \<open>A receipt may be accounted: a refund needs a call that answered nothing yet.\<close>

definition may_account :: "decision_call \<Rightarrow> accounting \<Rightarrow> bool" where
  "may_account c a \<longleftrightarrow> \<not> call_accounted c \<and> plan_fits c a
     \<and> (if acc_state a = CallNotSent then phase_of c \<noteq> Unresolved else call_issued c)"

lemma recorded_moves:
  assumes "may_account c a" "dc_charged_nanos c = None" "accounting_of plan = Some a"
  shows "call_moves c (recorded_row now a r digest c)"
proof -
  from assms(1) have c: "\<not> call_accounted c" "plan_fits c a" by (auto simp: may_account_def)
  have "phase_of c \<in> {Held, Granted, Unresolved}" "call_issued c \<Longrightarrow> phase_of c \<noteq> Held"
    using c(1) by (auto simp: phase_of_def)
  moreover from accounting_shape [OF assms(3)] have "acc_state a \<in> {CallKnown, CallUnknown, CallNotSent}"
    and ph: "phase_of (recorded_row now a r digest c)
     = (case acc_state a of CallKnown \<Rightarrow> Spent (the (acc_charged a)) | CallUnknown \<Rightarrow> Unresolved | _ \<Rightarrow> Refunded)"
    using phase_of_recorded [OF c(1) assms(2) c(2)] by auto
  ultimately have "phase_step (phase_of c) (phase_of (recorded_row now a r digest c))"
    using assms(1) unfolding ph may_account_def by (auto intro: phase_step.intros split: if_splits)
  with c(1) show ?thesis by (simp add: call_moves_def call_issued_def)
qed

lemma write_receipt_calls:
  assumes "write_receipt now mint c r digest plan db = Inr (w, db')" "accounting_of plan = Some a"
    "find_call (LookupId i) db = Some c"
  shows "calls db' = calls (update_call i (recorded_row now a r digest) db)"
proof -
  have i: "dc_id c = i" using find_call_hits [OF assms(3)] by simp
  obtain db1 b v ls where sql: "record_sql now a r digest (dc_id c) db = Inr db1"
    and "case acc_settlement a of None \<Rightarrow> b = bills (leasing db)
      | Some st \<Rightarrow> \<exists>n. log_lines mint now st (bills (leasing db)) = Inr (n, b)"
    and "case dc_task_id c of None \<Rightarrow> ls = (leasing db)\<lparr>bills := b\<rparr>
      | Some t \<Rightarrow> (case acc_charged a of None \<Rightarrow> ls = (leasing db)\<lparr>bills := b\<rparr>
        | Some ch \<Rightarrow> account_task_sql t (dc_fleet_id c) (dc_workspace_id c) (dc_reserved_nanos c) ch
          ((leasing db)\<lparr>bills := b\<rparr>) = Inr (v, ls))"
    and cs: "calls db' = calls db1" and "leasing db' = ls" and "\<not> replayed w"
    by (rule write_receipt_account [OF assms(1,2)])
  show ?thesis using record_sql_Inr [OF sql] cs unfolding i by metis
qed

text \<open>A step changes at most the one call it names.\<close>

lemma update_moves:
  assumes "calls_ok (calls db)" "find_call (LookupId i) db = Some d" "call_moves d (f d)"
    "calls db' = calls (update_call i f db)" "c \<in> set (calls db)"
  shows "\<exists>c' \<in> set (calls db'). call_moves c c'"
proof -
  have d: "dc_id d = i" "d \<in> set (calls db)" using find_call_hits [OF assms(2)] by auto
  have same: "c = d" if "dc_id c = i"
    using assms(1,5) d that by (auto simp: calls_ok_def distinct_map inj_on_def)
  have "(if dc_id c = i then f c else c) \<in> set (calls db')"
    using assms(5) unfolding assms(4) by (auto simp: update_call_def)
  moreover have "call_moves c (if dc_id c = i then f c else c)" using same assms(3) by auto
  ultimately show ?thesis by blast
qed

lemma plan_known_not_sent: "plan_known c u uncached digest \<noteq> Inr PlanNotSent"
proof
  assume known: "plan_known c u uncached digest = Inr PlanNotSent"
  then obtain s where "decision_seq (dc_usage_sequence c) = Inr s"
    unfolding plan_known_def by (auto simp only: res_bind_Inr)
  with known show False
    by (cases "frozen_rate (dc_price c) (decision_line c u uncached s)")
       (auto simp: plan_known_def plan_unpriced_def result_simps split: if_splits)
qed

lemma plan_unknown_not_sent: "plan_unknown c digest \<noteq> Inr PlanNotSent"
  by (auto simp: plan_unknown_def split: option.splits)

lemma classify_not_sent:
  assumes "classify c r digest = Inr p" "accounting_of p = Some a" "acc_state a = CallNotSent"
  shows "dc_failure_digest c = None \<and> dc_known_usage c = None"
proof -
  have "p = PlanNotSent" using assms(2,3) by (cases p) auto
  with assms(1) show ?thesis
    by (auto simp: classify_def plan_known_not_sent plan_unknown_not_sent
        split: if_splits decision_receipt.splits option.splits)
qed

lemma classify_may_account:
  assumes "classify c r digest = Inr p" "accounting_of p = Some a" "unknown_ok c"
  shows "may_account c a"
  using classify_accounts [OF assms(1,2)] classify_not_sent [OF assms(1,2)] assms(3)
  by (auto simp: may_account_def phase_of_def unknown_ok_def split: if_splits)

lemma lapsed_may_account:
  assumes "accounting_of PlanNotSent = Some a" "unknown_ok c" "\<not> call_issued c" "\<not> call_accounted c"
  shows "may_account c a"
  using assms by (auto simp: may_account_def plan_fits_def phase_of_def unknown_ok_def)

lemma accounted_receipt_moves:
  assumes "decisions_ok db" "find_call (LookupId i) db = Some d" "accounting_of plan = Some a" "may_account d a"
    "write_receipt now mint d r digest plan db = Inr (w, db')" "c \<in> set (calls db)"
  shows "\<exists>c' \<in> set (calls db'). call_moves c c'"
proof -
  from assms(1) have cs: "calls_ok (calls db)" by (simp add: decisions_ok_def)
  have "d \<in> set (calls db)" "\<not> call_accounted d" using find_call_hits [OF assms(2)] assms(4) by (auto simp: may_account_def)
  then have "dc_charged_nanos d = None" using known_is_accounted [OF cs] by blast
  from recorded_moves [OF assms(4) this assms(3)]
  show ?thesis by (rule update_moves [OF cs assms(2) _ write_receipt_calls [OF assms(5,3,2)] assms(6)])
qed

lemma record_moves:
  assumes "decisions_ok db" "record_receipt now mint l i presented r digest db = Inr (w, db')" "c \<in> set (calls db)"
  shows "\<exists>c' \<in> set (calls db'). call_moves c c'"
proof -
  from assms(2) obtain d plan where d: "find_call (LookupId i) db = Some d" "classify d r digest = Inr plan"
    "write_receipt now mint d r digest plan db = Inr (w, db')"
    by (auto simp: record_receipt_def result_simps split: option.splits if_splits)
  have "unknown_ok d" using find_call_hits [OF d(1)] assms(1) by (auto simp: decisions_ok_def calls_ok_def)
  show ?thesis
  proof (cases "accounting_of plan")
    case None
    with write_receipt_replay [OF this d(3)] assms(3) show ?thesis using call_moves_refl by blast
  next
    case (Some a)
    from classify_may_account [OF d(2) Some \<open>unknown_ok d\<close>]
    show ?thesis by (rule accounted_receipt_moves [OF assms(1) d(1) Some _ d(3) assms(3)])
  qed
qed

lemma expire_moves:
  assumes "decisions_ok db" "expire_call now mint i digest db = Inr (w, db')" "c \<in> set (calls db)"
  shows "\<exists>c' \<in> set (calls db'). call_moves c c'"
proof (cases "db' = db")
  case True
  with assms(3) show ?thesis using call_moves_refl by blast
next
  case False
  with assms(2) obtain d w' where d: "find_call (LookupId i) db = Some d" "\<not> call_issued d" "\<not> call_accounted d"
    "write_receipt now mint d preflight_receipt digest PlanNotSent db = Inr (w', db')"
    by (auto simp: expire_call_def result_simps split: option.splits if_splits)
  have "unknown_ok d" using find_call_hits [OF d(1)] assms(1) by (auto simp: decisions_ok_def calls_ok_def)
  from lapsed_may_account [OF accounting_of.simps(4) this d(2,3)]
  show ?thesis by (rule accounted_receipt_moves [OF assms(1) d(1) accounting_of.simps(4) _ d(4) assms(3)])
qed

lemma issue_moves:
  assumes "decisions_ok db" "issue_call month now config verified cov l i db = Inr (e, db')" "c \<in> set (calls db)"
  shows "\<exists>c' \<in> set (calls db'). call_moves c c'"
  using assms(2)
proof (cases rule: issue_call_Inr)
  case (2 d)
  have cs: "calls_ok (calls db)" using assms(1) by (simp add: decisions_ok_def)
  let ?f = "\<lambda>c. c\<lparr>dc_status := call_state_as_str CallIssued, dc_issued_at := Some now\<rparr>"
  from 2(3) show ?thesis
  proof (cases rule: issue_sql_cases)
    case (2 d')
    then have "phase_of d' = Held" "phase_of (?f d') = Granted"
      by (simp_all add: phase_of_def call_accounted_def call_issued_def)
    then have "call_moves d' (?f d')"
      using 2 phase_step.grant by (simp add: call_moves_def call_key_def call_issued_def call_accounted_def)
    then show ?thesis
      by (rule update_moves [OF cs 2(2) _ _ assms(3)]) (simp add: 2(8))
  qed (use assms(3) in auto)
qed (use assms(3) call_moves_refl in blast)

lemma step_moves:
  assumes "decision_step db db'" "decisions_ok db" "c \<in> set (calls db)"
  shows "\<exists>c' \<in> set (calls db'). call_moves c c'"
  using assms
proof (induction rule: decision_step.induct)
  case (reserving env l inp db al db')
  from reserving(1) have "set (calls db) \<subseteq> set (calls db')"
  proof (cases rule: allocate_Inr)
    case (2 cid aid p task a d)
    show ?thesis using save_intent_Inr [OF 2(6)] by (metis Un_upper1 set_append)
  qed simp
  with reserving(3) show ?case using call_moves_refl by blast
next
  case (other_work db db')
  then show ?case using call_moves_refl by (auto simp: elsewhere_def intro: bexI [of _ c])
qed (blast intro: issue_moves record_moves expire_moves)+

lemma steps_move:
  assumes "rtranclp decision_step db db'" "decisions_ok db" "c \<in> set (calls db)"
  shows "\<exists>c' \<in> set (calls db'). dc_id c' = dc_id c \<and> (call_issued c \<longrightarrow> call_issued c') \<and> (call_accounted c \<longrightarrow> c' = c)
     \<and> rtranclp phase_step (phase_of c) (phase_of c')"
  using assms
proof (induction rule: rtranclp_induct)
  case (step db1 db2)
  then obtain c1 where c1: "c1 \<in> set (calls db1)" "dc_id c1 = dc_id c" "call_issued c \<longrightarrow> call_issued c1"
    "call_accounted c \<longrightarrow> c1 = c" "rtranclp phase_step (phase_of c) (phase_of c1)" by blast
  have "decisions_ok db1" using step(1,4) by (induction rule: rtranclp_induct) (auto intro: decision_step_ok)
  from step_moves [OF step(2) this c1(1)] obtain c2 where c2: "c2 \<in> set (calls db2)"
    and moves: "call_moves c1 c2" by blast
  then have "rtranclp phase_step (phase_of c) (phase_of c2)"
    using c1(5) by (meson call_moves_def rtranclp.rtrancl_into_rtrancl)
  moreover have "dc_id c2 = dc_id c" "call_issued c \<longrightarrow> call_issued c2" "call_accounted c \<longrightarrow> c2 = c"
    using moves c1(2-4) by (auto simp: call_moves_def)
  ultimately show ?case using c2 by blast
qed blast

lemma steps_ok: "rtranclp decision_step db db' \<Longrightarrow> decisions_ok db \<Longrightarrow> decisions_ok db'"
  by (induction rule: rtranclp_induct) (auto intro: decision_step_ok)

text \<open>C24: Every operation of the accounting refines one move of the abstract lifecycle on each call it
  leaves in the table: credit held, one credential granted, an answer unresolved, then a charge or a
  refund, both final; a call that was never granted can only lapse into a refund.\<close>

theorem decision_steps_follow_the_lifecycle:
  assumes "decisions_reach db" "decision_step db db'" "c \<in> set (calls db)"
  shows "\<exists>c' \<in> set (calls db'). dc_id c' = dc_id c \<and> phase_step (phase_of c) (phase_of c')
     \<and> (phase_of c \<in> {Refunded} \<union> range Spent \<longrightarrow> c' = c)"
proof -
  from step_moves [OF assms(2) decisions_reach_ok [OF assms(1)] assms(3)]
  obtain c' where c': "c' \<in> set (calls db')" "call_moves c c'" by blast
  have "call_accounted c" if "phase_of c \<in> {Refunded} \<union> range Spent"
    using that by (auto simp: phase_of_def split: if_splits)
  with c' show ?thesis by (auto simp: call_moves_def intro!: bexI [of _ c'])
qed

text \<open>C25: One credential per call: once a call was dispatched, no later issue dispatches it again,
  whatever the daemon did in between, so a retry, a second request or a restart finds it issued.\<close>

theorem call_is_issued_once:
  assumes "decisions_reach db" "issue_call month now config verified cov l i db = Inr (Dispatch c, db1)"
    and "rtranclp decision_step db1 db2"
  shows "issue_call month' now' config' verified' cov' l' i db2 \<noteq> Inr (Dispatch c', db3)"
proof
  assume again: "issue_call month' now' config' verified' cov' l' i db2 = Inr (Dispatch c', db3)"
  note ok = decisions_reach_ok [OF assms(1)]
  have ok1: "decisions_ok db1" by (rule issue_call_ok [OF ok assms(2)])
  from assms(2) obtain d where d: "find_call (LookupId i) db = Some d" "issue_sql now (dc_id d) db = (True, db1)"
    by (cases rule: issue_call_Inr) auto
  then have i: "dc_id d = i" "d \<in> set (calls db)" using find_call_hits [OF d(1)] by auto
  let ?f = "\<lambda>c. c\<lparr>dc_status := call_state_as_str CallIssued, dc_issued_at := Some now\<rparr>"
  from d(2) have "db1 = update_call (dc_id d) ?f db" by (cases rule: issue_sql_cases) auto
  then have "?f d \<in> set (calls db1)" using i by (force simp: update_call_def)
  from steps_move [OF assms(3) ok1 this] i obtain x where x: "x \<in> set (calls db2)" "dc_id x = i" "call_issued x"
    by (auto simp: call_issued_def)
  from again obtain y where y: "find_call (LookupId i) db2 = Some y" "issue_sql now' (dc_id y) db2 = (True, db3)"
    by (cases rule: issue_call_Inr) auto
  from y(2) find_call_hits [OF y(1)] y(1) have "dc_issued_at y = None"
    by (cases rule: issue_sql_cases) auto
  moreover have "x = y" using x find_call_hits [OF y(1)] steps_ok [OF assms(3) ok1]
    by (auto simp: decisions_ok_def calls_ok_def distinct_map inj_on_def)
  ultimately show False using x(3) by (simp add: call_issued_def)
qed

section \<open>Limits of a reservation\<close>

lemma saturating_limit:
  "saturating_add (saturating_add a b) n \<le> m \<Longrightarrow> m < i64_max \<Longrightarrow> 0 \<le> n \<Longrightarrow> a + b + n \<le> m"
  by (auto simp: int_width split: if_splits)

lemma goal_limits:
  assumes "check_on month now config nl x task True db = Inr ()" "as_purpose x = Goal"
  obtains t where "task = Some t" "saturating_add (saturating_add (usage_model_nanos t) (usage_reserved_nanos t)) call_nanos
      \<le> limit_model_nanos t" "usage_decision_calls t < limit_decision_calls t"
    "usage_running_nanos t < limit_running_seconds t * 1000000000"
  using assms by (auto simp: check_on_def res_bind_Inr check_goal_def Let_def split: if_splits)

lemma execution_budget_Some:
  assumes "execution_budget p db = Inr (Some b)"
  obtains i g t where "pr_execution p = Some (i, g)" "tasks (leasing db) i = Some t" "task_budget_of t = Inr b"
  using assms by (auto simp: execution_budget_def res_bind_Inr split: option.splits)

lemma task_budget_fields:
  "task_budget_of t = Inr b \<Longrightarrow> limit_model_nanos b = max_model_nanos t \<and> usage_model_nanos b = used_model_nanos t
     \<and> usage_reserved_nanos b = reserved_model_nanos t \<and> limit_decision_calls b = max_decision_calls t
     \<and> usage_decision_calls b = used_decision_calls t"
  by (auto simp: task_budget_of_def small_counter_def counter_def res_bind_Inr split: if_splits)

lemma reserve_task_row:
  "reserve_task_sql i fleet ws n ls = Inr ls' \<Longrightarrow> 0 \<le> n \<Longrightarrow> tasks ls i = Some row \<Longrightarrow> tasks ls' i = Some row' \<Longrightarrow>
     max_model_nanos row' = max_model_nanos row \<and> used_model_nanos row' = used_model_nanos row
     \<and> max_decision_calls row' = max_decision_calls row \<and> reserved_model_nanos row' \<le> reserved_model_nanos row + n
     \<and> used_decision_calls row' \<le> used_decision_calls row + 1"
  by (auto simp: reserve_task_sql_def split: option.splits if_splits)

text \<open>A goal call is reserved only within its task's limits: when the reservation went through, the
  task's spent and reserved credit, the new call's included, is within its model budget, and its call
  count is within its call limit.\<close>

theorem goal_reservation_within_limits:
  assumes "allocate env l inp db = Inr (al, db')" "calls db' \<noteq> calls db"
    and "find_call (LookupId i) db' = Some c" "find_call (LookupId i) db = None" "dc_task_id c = Some t"
    and "tasks (leasing db') t = Some row'" "max_model_nanos row' < i64_max"
  shows "used_model_nanos row' + reserved_model_nanos row' \<le> max_model_nanos row'
     \<and> used_decision_calls row' \<le> max_decision_calls row'"
  using assms(1)
proof (cases rule: allocate_Inr)
  case 1
  with assms(2) show ?thesis by simp
next
  case (2 cid aid p task a d)
  obtain s where s: "calls db' = calls db @ [intent_call l inp (as_str cid) p a s]"
    "case goal_of p of None \<Rightarrow> leasing db' = leasing db
      | Some (t, g) \<Rightarrow> reserve_task_sql t (nl_fleet_id (pr_lease p)) (nl_workspace_id (pr_lease p)) call_nanos
          (leasing db) = Inr (leasing db')"
    by (rule save_intent_Inr [OF 2(6)])
  have "c \<in> set (calls db')" "c \<notin> set (calls db)"
    using find_call_hits [OF assms(3)] assms(4) by (auto simp: find_call_def find_None_iff)
  then have c: "c = intent_call l inp (as_str cid) p a s" using s(1) by simp
  with assms(5) obtain g where g: "goal_of p = Some (t, g)" by auto
  then have goal: "as_purpose (pr_assessed p) = Goal" "pr_execution p = Some (t, g)" by (auto simp: goal_of_def split: if_splits)
  from goal_limits [OF 2(5) goal(1)] obtain b where b: "task = Some b"
    "saturating_add (saturating_add (usage_model_nanos b) (usage_reserved_nanos b)) call_nanos \<le> limit_model_nanos b"
    "usage_decision_calls b < limit_decision_calls b" by metis
  from execution_budget_Some [OF 2(3) [unfolded b(1)]] goal(2) obtain row where row: "tasks (leasing db) t = Some row"
    "task_budget_of row = Inr b" by (metis Pair_inject option.inject)
  have "max_model_nanos row' = max_model_nanos row" "used_model_nanos row' = used_model_nanos row"
    "max_decision_calls row' = max_decision_calls row"
    "reserved_model_nanos row' \<le> reserved_model_nanos row + call_nanos" "used_decision_calls row' \<le> used_decision_calls row + 1"
    using reserve_task_row [OF _ _ row(1) assms(6)] s(2) g by (auto simp: call_nanos_def)
  moreover have "used_model_nanos row + reserved_model_nanos row + call_nanos \<le> max_model_nanos row"
    using b(2) task_budget_fields [OF row(2)] calculation(1) assms(7)
    by (intro saturating_limit) (simp_all add: call_nanos_def)
  ultimately show ?thesis using b(3) task_budget_fields [OF row(2)] by simp
qed

section \<open>Recovering what was never issued\<close>

lemma expired_unissued_pages:
  "expired_unissued cutoff limit None db = take limit (sort_key call_position (expired_calls cutoff db))"
  "expired_unissued cutoff limit (Some p) db
     = take limit (sort_key call_position (filter (\<lambda>c. p < call_position c) (expired_calls cutoff db)))"
  by (simp_all add: expired_unissued_def)

interpretation lapsed_pages: keyset call_position "expired_calls cutoff" "expired_unissued cutoff"
  call_position "\<lambda>p. p" "\<lambda>db. distinct (map dc_id (calls db))" for cutoff
proof (unfold_locales)
  fix db :: "'a decision_db" assume "distinct (map dc_id (calls db))"
  then have "distinct (map dc_id (expired_calls cutoff db))" by (simp add: expired_calls_def distinct_map_filter)
  then show "distinct (map call_position (expired_calls cutoff db))"
    by (auto simp: distinct_map inj_on_def call_position_def)
qed (simp_all add: expired_unissued_pages)

text \<open>One recovery cycle reads every lapsed reservation exactly once, oldest deadline first, in
  batches of any size, even while every refund of the cycle fails.\<close>

theorem recovery_reads_every_lapsed_call:
  assumes "decisions_reach db" "0 < limit" "length (expired_calls cutoff db) < pages * limit"
  shows "keyset_walk (expired_unissued cutoff) call_position limit pages None db
     = sort_key call_position (expired_calls cutoff db)"
  using decisions_reach_ok [OF assms(1)] assms(2,3)
  by (intro lapsed_pages.walk_visits_all) (simp_all add: decisions_ok_def calls_ok_def)

section \<open>A receipt presented again\<close>

lemma write_receipt_saved:
  "write_receipt now mint c r digest plan db = Inr (w, db') \<Longrightarrow> find_call (LookupId (dc_id c)) db' = Some (written_call w)"
  by (auto simp: write_receipt_def res_bind_Inr)

lemma find_updated:
  assumes "find_call (LookupId i) db = Some c" "calls db' = calls (update_call i f db)" "\<And>x. dc_id (f x) = dc_id x"
  shows "find_call (LookupId i) db' = Some (f c)"
proof -
  have "List.find (lookup_hits (LookupId i)) (map (\<lambda>x. if dc_id x = i then f x else x) cs) = Some (f c)"
    if "List.find (lookup_hits (LookupId i)) cs = Some c" for cs
    using that by (induction cs) (auto simp: assms(3) split: if_splits)
  with assms(1,2) show ?thesis by (simp add: find_call_def update_call_def)
qed

lemma write_receipt_payload:
  assumes "write_receipt now mint c r digest plan db = Inr (w, db')" "accounting_of plan = Some a"
    "acc_settlement a = None" "acc_charged a = None"
  shows "payload_results db' (dc_id c) \<in> {None, Some (Some r)}"
  using assms by (auto simp: write_receipt_def res_bind_Inr Let_def split: option.splits)

lemma or_else_again [simp]: "or_else (or_else x y) y = or_else x y" "or_else x None = x"
  by (cases x; cases y; simp)+

lemma or_else_fixed: "x = None \<or> x = Some y \<Longrightarrow> or_else x (Some y) = Some y"
  by auto

text \<open>An answer without a price is written over itself.\<close>

lemma unpriced_again:
  assumes "write_receipt now mint c r digest (PlanUnknown (Some u) True) db = Inr (w, db1)"
    "find_call (LookupId i) db = Some c" "distinct (map dc_id (calls db1))"
  shows "\<exists>w'. write_receipt now' mint' (written_call w) r digest (PlanUnknown (Some u) True) db1 = Inr (w', db1)
     \<and> written_call w' = written_call w"
proof -
  let ?a = "\<lparr>acc_state = CallUnknown, acc_usage = Some u, acc_charged = None, acc_canonical = True,
     acc_failure = False, acc_settlement = None\<rparr>"
  let ?d = "recorded_row now ?a r digest c"
  have i: "dc_id c = i" using find_call_hits [OF assms(2)] by simp
  have found: "find_call (LookupId i) db1 = Some ?d"
    by (rule find_updated [OF assms(2) write_receipt_calls [OF assms(1) _ assms(2)]]) simp_all
  have d: "written_call w = ?d" using write_receipt_saved [OF assms(1)] found i by simp
  have again: "recorded_row now' ?a r digest ?d = ?d"
    by (cases r) (auto simp: recorded_row_def Let_def)
  have "row_checks ?d"
    using assms(1) i assms(2) by (auto simp: write_receipt_def res_bind_Inr record_sql_def split: option.splits if_splits)
  moreover have "update_call i (recorded_row now' ?a r digest) db1 = db1"
  proof -
    have "x = ?d" if "x \<in> set (calls db1)" "dc_id x = i" for x
      using that assms(3) find_call_hits [OF found] by (auto simp: distinct_map inj_on_def)
    then have "map (\<lambda>x. if dc_id x = i then recorded_row now' ?a r digest x else x) (calls db1) = calls db1"
      by (intro map_idI) (use again in auto)
    then show ?thesis by (simp add: update_call_def)
  qed
  ultimately have sql: "record_sql now' ?a r digest i db1 = Inr db1"
    using found again by (simp add: record_sql_def)
  have "(payload_results db1)(i \<mapsto> Some r) = payload_results db1" if "payload_results db1 i \<noteq> None"
    using write_receipt_payload [OF assms(1) accounting_of.simps(2)] i that by (auto simp: fun_upd_idem)
  then have same: "db1\<lparr>payload_results := (case payload_results db1 i of None \<Rightarrow> payload_results db1
      | Some _ \<Rightarrow> (payload_results db1)(i \<mapsto> Some r))\<rparr> = db1"
    by (cases "payload_results db1 i") simp_all
  show ?thesis
    unfolding write_receipt_def d recorded_row_frame(1) i using sql found i same
    by (cases "dc_task_id c") (simp_all add: Let_def)
qed

lemma plan_known_unpriced:
  assumes "plan_known c u uncached digest = Inr (PlanUnknown v k)"
    "dc_price d = dc_price c" "dc_usage_sequence d = dc_usage_sequence c"
  shows "v = Some u \<and> k \<and> plan_known d u uncached digest = Inr (plan_unpriced d u digest)"
proof -
  from assms(1) obtain s where s: "decision_seq (dc_usage_sequence c) = Inr s"
    unfolding plan_known_def by (auto simp only: res_bind_Inr)
  have line: "decision_line d u uncached s = decision_line c u uncached s"
    using assms(2) by (simp add: decision_line_def)
  show ?thesis
    using assms s by (cases "frozen_rate (dc_price c) (decision_line c u uncached s)")
      (auto simp: plan_known_def line plan_unpriced_def result_simps split: if_splits)
qed

lemma plan_unknown_again:
  "plan_unknown c digest = Inr (PlanUnknown v k) \<Longrightarrow> v = None \<and> \<not> k \<and> dc_failure_digest c = None"
  by (auto simp: plan_unknown_def split: option.splits if_splits)

lemma classify_open:
  assumes "\<not> call_accounted d" "call_issued d" "dc_canonical_digest d = None \<or> dc_canonical_digest d = Some digest"
  shows "classify d (UnknownReceipt cause) digest = (if dc_failure_digest d = Some digest then Inr Replay else plan_unknown d digest)"
    and "classify d (ProviderReceipt mu m x) digest
      = (case Option.bind mu (\<lambda>u. map_option (Pair u) (uncached_input u)) of
             Some (u, uncached) \<Rightarrow> plan_known d u uncached digest
           | None \<Rightarrow> plan_unknown d digest)"
  using assms by (auto simp: classify_def)

lemma classify_again:
  fixes r :: "'p decision_receipt"
  assumes "classify c r digest = Inr p" "accounting_of p = Some a" "dc_charged_nanos c = None"
  shows "classify (recorded_row now a r digest c) r digest = Inr Replay
     \<or> (\<exists>u. p = PlanUnknown (Some u) True \<and> classify (recorded_row now a r digest c) r digest = Inr p)"
proof -
  let ?d = "recorded_row now a r digest c"
  have una: "\<not> call_accounted c" "call_issued c" using classify_accounts [OF assms(1,2)] by auto
  have canon: "dc_canonical_digest c = None \<or> dc_canonical_digest c = Some digest"
    using assms(1,2) by (auto simp: classify_def split: if_splits)
  have issued: "call_issued ?d" using una(2) by (simp add: call_issued_def)
  show ?thesis
  proof (cases "acc_charged a")
    case (Some ch)
    then have "acc_canonical a" using assms(2) by (cases p) auto
    then have "dc_canonical_digest ?d = Some digest" "call_accounted ?d"
      using canon Some una(1) by (auto simp: recorded_row_def Let_def call_accounted_def or_else_fixed)
    then show ?thesis by (simp add: classify_def)
  next
    case None
    then obtain u k where p: "p = PlanUnknown u k" using assms(2) by (cases p) auto
    have "\<not> call_accounted ?d" using None una(1) by (simp add: recorded_row_def Let_def call_accounted_def)
    moreover have "dc_canonical_digest ?d = None \<or> dc_canonical_digest ?d = Some digest"
      using canon by (auto simp: recorded_row_def Let_def or_else_fixed)
    ultimately have open_d: "\<not> call_accounted ?d" "dc_canonical_digest ?d = None \<or> dc_canonical_digest ?d = Some digest" .
    note open_d = classify_open [OF open_d(1) issued open_d(2)]
    have failed: "dc_failure_digest ?d = Some digest" "dc_canonical_digest ?d = dc_canonical_digest c"
      if "plan_unknown c digest = Inr p"
      using plan_unknown_again [OF that [unfolded p]] assms(2) by (auto simp: p recorded_row_def Let_def)
    show ?thesis
    proof (cases r)
      case (UnknownReceipt cause)
      then have "plan_unknown c digest = Inr p"
        using assms(1,2) by (auto simp: classify_def split: if_splits)
      then have "classify ?d (UnknownReceipt cause :: 'p decision_receipt) digest = Inr Replay"
        using failed by (simp add: open_d)
      with UnknownReceipt show ?thesis by simp
    next
      case (NotSentReceipt cause)
      then show ?thesis using assms(1) p by (auto simp: classify_def split: if_splits)
    next
      case (ProviderReceipt mu m x)
      show ?thesis
      proof (cases "Option.bind mu (\<lambda>u. map_option (Pair u) (uncached_input u))")
        case None
        then have "plan_unknown c digest = Inr p"
          using ProviderReceipt assms(1,2) by (auto simp: classify_def split: if_splits)
        then have "classify ?d (ProviderReceipt mu m x) digest = Inr Replay"
          using failed None by (simp add: open_d plan_unknown_def)
        with ProviderReceipt show ?thesis by simp
      next
        case (Some uu)
        obtain u' un where uu: "uu = (u', un)" by fastforce
        then have "plan_known c u' un digest = Inr (PlanUnknown u k)"
          using Some ProviderReceipt assms(1) p by (auto simp: classify_def split: if_splits)
        from plan_known_unpriced [OF this, of ?d] have "u = Some u'" "k"
          "plan_known ?d u' un digest = Inr (plan_unpriced ?d u' digest)" by simp_all
        moreover from this have "classify ?d (ProviderReceipt mu m x) digest = Inr (plan_unpriced ?d u' digest)"
          using Some uu by (simp add: open_d)
        ultimately show ?thesis using ProviderReceipt p by (auto simp: plan_unpriced_def)
      qed
    qed
  qed
qed

text \<open>A receipt presented a second time, by a retry or after a lost answer, changes nothing and answers
  the same call: no line is logged again, no credit is released again, whatever the receipt said.\<close>

theorem receipt_presented_again:
  assumes "decisions_reach db" "record_receipt now mint l i presented r digest db = Inr (w, db1)"
  shows "\<exists>w'. record_receipt now' mint' l i presented r digest db1 = Inr (w', db1) \<and> written_call w' = written_call w"
proof -
  from assms(2) obtain c plan where pres: "presented = tl_fencing_token l" and c: "find_call (LookupId i) db = Some c"
    "owned_by c l" "classify c r digest = Inr plan" "write_receipt now mint c r digest plan db = Inr (w, db1)"
    by (auto simp: record_receipt_def result_simps split: option.splits if_splits)
  have i: "dc_id c = i" using find_call_hits [OF c(1)] by simp
  have ok1: "decisions_ok db1" using record_receipt_ok [OF decisions_reach_ok [OF assms(1)] assms(2)] .
  show ?thesis
  proof (cases "accounting_of plan")
    case None
    then have "plan = Replay" by (cases plan) auto
    then have "db1 = db" using write_receipt_replay [OF None c(4)] by simp
    with \<open>plan = Replay\<close> c pres write_receipt_saved [OF c(4)] show ?thesis
      by (simp add: record_receipt_def write_receipt_def)
  next
    case (Some a)
    let ?d = "recorded_row now a r digest c"
    have found: "find_call (LookupId i) db1 = Some ?d"
      by (rule find_updated [OF c(1) write_receipt_calls [OF c(4) Some c(1)]]) simp
    have d: "written_call w = ?d" using write_receipt_saved [OF c(4)] found i by simp
    have own: "owned_by ?d l" using c(2) by (simp add: owned_by_def)
    have again: ?thesis if "classify ?d r digest = Inr p" "\<exists>w'. write_receipt now' mint' ?d r digest p db1 = Inr (w', db1)
        \<and> written_call w' = ?d" for p
      using that found own pres d by (auto simp: record_receipt_def)
    have replay: ?thesis if "classify ?d r digest = Inr Replay"
      using that found i by (intro again [OF that]) (auto simp: write_receipt_def)
    have "dc_charged_nanos c = None"
      using known_is_accounted [of "calls db" c] find_call_hits [OF c(1)] decisions_reach_ok [OF assms(1)]
        classify_accounts [OF c(3) Some] by (auto simp: decisions_ok_def)
    from classify_again [OF c(3) Some this, of now] show ?thesis
    proof
      assume "\<exists>u. plan = PlanUnknown (Some u) True \<and> classify ?d r digest = Inr plan"
      then obtain u where u: "plan = PlanUnknown (Some u) True" "classify ?d r digest = Inr plan" by blast
      have "distinct (map dc_id (calls db1))" using ok1 by (simp add: decisions_ok_def calls_ok_def)
      from unpriced_again [OF c(4) [unfolded u(1)] c(1) this] d u show ?thesis by (intro again [OF u(2)]) simp
    qed (rule replay)
  qed
qed

end
