(* ===== verification/DecisionSamples.thy ===== *)
theory DecisionSamples
  imports Samples DecisionFlow
begin

text \<open>
  One goal call from its reservation through its issue to its receipt, another that lapses, and the
  witnesses of the decision accounting at the states between.
\<close>

definition result_state :: "('e, 'a \<times> 's) result \<Rightarrow> 's" where "result_state r = snd (projr r)"
definition result_value :: "('e, 'a \<times> 's) result \<Rightarrow> 'a" where "result_value r = fst (projr r)"

lemma result_parts: "\<not> isl r \<Longrightarrow> r = Inr (result_value r, result_state r)"
  by (cases r) (simp_all add: result_state_def result_value_def)

definition call_a :: uuid7 where "call_a = Uuid7 ''01890000-0000-7000-8000-000000000021''"
definition assessment_a :: uuid7 where "assessment_a = Uuid7 ''01890000-0000-7000-8000-000000000022''"

definition task_goal :: task_row where
  "task_goal = task_0\<lparr>max_model_nanos := 50000000\<rparr>"

definition profile_a :: profile where
  "profile_a = \<lparr>profile_model_id = ''m1'', profile_model = ''claude'', profile_revision_id = ''r1''\<rparr>"

definition desk_0 :: "unit decision_db" where
  "desk_0 = \<lparr>leasing = (lease_db_of lease_0 1)\<lparr>tasks := [''t1'' \<mapsto> task_goal]\<rparr>, d_runners = runners_a,
     d_fleets = [as_str fleet_a \<mapsto> \<lparr>f_workspace_id = as_str workspace_a, f_status = ''active''\<rparr>],
     enabled_profiles = [(''m1'', ''r1'')], task_items = [], calls = [], payload_results = Map.empty\<rparr>"

definition holder_a :: task_lease where
  "holder_a = \<lparr>tl_lease_id = lease_a, tl_runner_id = runner_a, tl_fencing_token = 1\<rparr>"

definition native_a :: native_lease where
  "native_a = \<lparr>nl_lease_id = as_str lease_a, nl_fleet_id = as_str fleet_a, nl_workspace_id = as_str workspace_a\<rparr>"

definition assessed_a :: assessed where
  "assessed_a = \<lparr>as_purpose = Goal, as_source_admission_id = ''ev1'', as_execution_task = Some ''t1''\<rparr>"

definition prepared_a :: prepared where
  "prepared_a = \<lparr>pr_lease = native_a, pr_tenant_id = as_str tenant_a, pr_fleet_name = ''docs'', pr_fence = 1,
     pr_checked_at = second, pr_profile = profile_a, pr_provider = ''anthropic'', pr_assessed = assessed_a,
     pr_key = ''t1/goal'', pr_execution = Some (''t1'', 1), pr_quote = \<lparr>fq_at = 50, fq_book = book_sample\<rparr>\<rparr>"

definition budget_a :: budget where "budget_a = \<lparr>daily = 1000000000, monthly = None\<rparr>"

definition reserve_a :: "unit reserve_env" where
  "reserve_a = \<lparr>re_now = second, re_month_floor = 0, re_call_id = Some call_a, re_assessment_id = Some assessment_a,
     re_guard = Inr \<lparr>gd_fleet_id = as_str fleet_a, gd_workspace_id = as_str workspace_a, gd_profile = Some profile_a,
       gd_subject = Inr ''t1''\<rparr>,
     re_prepared = (\<lambda>_ _. Inr prepared_a), re_admin = True, re_config = Inr (Some budget_a)\<rparr>"

definition ask_a :: reservation_input where
  "ask_a = \<lparr>ri_fencing_token = 1, ri_operation_id = ''op1'', ri_retry_of = None, ri_source_admission_id = ''ev1'',
     ri_digest = ''q1''\<rparr>"

definition reserved_a :: "(decision_error, allocation \<times> unit decision_db) result" where
  "reserved_a = allocate reserve_a holder_a ask_a desk_0"

definition desk_1 :: "unit decision_db" where "desk_1 = result_state reserved_a"

definition issued_at :: "instant \<Rightarrow> unit decision_db \<Rightarrow> (decision_error, emission \<times> unit decision_db) result" where
  "issued_at now db = issue_call 0 now (Inr (Some budget_a)) (\<lambda>_. Inr (native_a, assessed_a, Some
     \<lparr>limit_model_nanos = 50000000, limit_running_seconds = 600, limit_decision_calls = 5, usage_model_nanos = 0,
       usage_reserved_nanos = 20000000, usage_running_nanos = 0, usage_decision_calls = 1\<rparr>))
     \<lparr>headroom = 0, required = 20000000\<rparr> holder_a (as_str call_a) db"

definition desk_2 :: "unit decision_db" where "desk_2 = result_state (issued_at (2 * second) desk_1)"

definition answer_a :: "unit decision_receipt" where
  "answer_a = ProviderReceipt (Some \<lparr>du_input_tokens = 18, du_output_tokens = 4, du_cached_input_tokens = 5,
     du_cache_write_tokens = 0\<rparr>) None ()"

definition recorded_a :: "(decision_error, written \<times> unit decision_db) result" where
  "recorded_a = record_receipt (3 * second) mint_a holder_a (as_str call_a) 1 answer_a ''d1'' desk_2"

definition desk_3 :: "unit decision_db" where "desk_3 = result_state recorded_a"

lemma reserved_runs: "\<not> isl reserved_a" by code_simp
lemma issued_runs: "\<not> isl (issued_at (2 * second) desk_1)" by code_simp
lemma recorded_runs: "\<not> isl recorded_a" by code_simp

lemma reserved_parts: "reserved_a = Inr (result_value reserved_a, desk_1)"
  using result_parts [OF reserved_runs] by (simp add: desk_1_def)

lemma issued_parts: "issued_at (2 * second) desk_1 = Inr (result_value (issued_at (2 * second) desk_1), desk_2)"
  using result_parts [OF issued_runs] by (simp add: desk_2_def)

lemma recorded_parts: "recorded_a = Inr (result_value recorded_a, desk_3)"
  using result_parts [OF recorded_runs] by (simp add: desk_3_def)

lemma desk_0_reached: "decisions_reach desk_0"
  by (rule none_yet) (simp add: decisions_empty_def desk_0_def lease_db_of_def wallet_sample_def line_facts_def db_wf_def
      task_goal_def task_0_def)

lemma desk_1_step: "decision_step desk_0 desk_1"
  using reserving reserved_parts by (auto simp: reserved_a_def)

lemma desk_2_step: "decision_step desk_1 desk_2"
  using issuing issued_parts by (auto simp: issued_at_def)

lemma desk_3_step: "decision_step desk_2 desk_3"
  using recording recorded_parts by (auto simp: recorded_a_def)

lemma desks_reached: "decisions_reach desk_1" "decisions_reach desk_2" "decisions_reach desk_3"
  using one_more desk_0_reached desk_1_step desk_2_step desk_3_step by blast+

lemma desk_1_calls: "length (calls desk_1) = 1" "find_call (LookupId (as_str call_a)) desk_1 = Some (hd (calls desk_1))"
    "dc_task_id (hd (calls desk_1)) = Some ''t1''" "phase_of (hd (calls desk_1)) = Held"
  by code_simp+

lemma desk_1_task: "map_option reserved_model_nanos (tasks (leasing desk_1) ''t1'') = Some 20000000"
    "map_option max_model_nanos (tasks (leasing desk_1) ''t1'') = Some 50000000"
  by code_simp+

lemma desk_2_calls: "length (calls desk_2) = 1" "phase_of (hd (calls desk_2)) = Granted"
    "pending_nanos (\<lambda>c. True) (calls desk_2) = 20000000"
  by code_simp+

lemma desk_3_calls: "length (calls desk_3) = 1" "dc_status (hd (calls desk_3)) = ''known''"
    "dc_charged_nanos (hd (calls desk_3)) = Some 101"
  by code_simp+

section \<open>Witnesses\<close>

lemma only_call: "length cs = 1 \<Longrightarrow> hd cs \<in> set cs"
  by (cases cs) auto

theorem reserved_credit_is_unresolved_calls_witness:
  "\<exists>t. tasks (leasing desk_1) ''t1'' = Some t \<and> pending_nanos (held_by ''t1'' t) (calls desk_1) = 20000000"
proof -
  from desk_1_task(1) obtain t where t: "tasks (leasing desk_1) ''t1'' = Some t" "reserved_model_nanos t = 20000000"
    by auto
  with reserved_credit_is_unresolved_calls [OF desks_reached(1) t(1)] show ?thesis by auto
qed

theorem one_line_per_known_call_witness:
  "map charged_nanos (filter (\<lambda>r. line_key r = call_key (hd (calls desk_3))) (usage_lines (bills (leasing desk_3)))) = [101]"
  using one_line_per_known_call [OF desks_reached(3) only_call [OF desk_3_calls(1)]] desk_3_calls(2,3) by simp

theorem decision_steps_follow_the_lifecycle_witness:
  "\<exists>c' \<in> set (calls desk_3). phase_step Granted (phase_of c')"
  using decision_steps_follow_the_lifecycle [OF desks_reached(2) desk_3_step only_call [OF desk_2_calls(1)]]
    desk_2_calls(2) by auto

theorem call_is_issued_once_witness:
  "\<forall>c db. issued_at (4 * second) desk_3 \<noteq> Inr (Dispatch c, db)"
proof -
  have "case result_value (issued_at (2 * second) desk_1) of Dispatch _ \<Rightarrow> True | _ \<Rightarrow> False" by code_simp
  then obtain c where "issued_at (2 * second) desk_1 = Inr (Dispatch c, desk_2)"
    using issued_parts by (auto split: emission.splits)
  moreover have "rtranclp decision_step desk_2 desk_3" using desk_3_step by blast
  ultimately show ?thesis
    unfolding issued_at_def using call_is_issued_once [OF desks_reached(1)] by blast
qed

theorem goal_reservation_within_limits_witness:
  "\<exists>t. tasks (leasing desk_1) ''t1'' = Some t \<and> used_model_nanos t + reserved_model_nanos t \<le> 50000000"
proof -
  from desk_1_task obtain t where t: "tasks (leasing desk_1) ''t1'' = Some t" "max_model_nanos t = 50000000" by auto
  have "calls desk_1 \<noteq> calls desk_0" using desk_1_calls(1) by (auto simp: desk_0_def)
  moreover have "find_call (LookupId (as_str call_a)) desk_0 = None" by (simp add: find_call_def desk_0_def)
  ultimately have "used_model_nanos t + reserved_model_nanos t \<le> max_model_nanos t"
    using goal_reservation_within_limits [OF reserved_parts [unfolded reserved_a_def] _ desk_1_calls(2) _ desk_1_calls(3) t(1)]
      t(2) by (simp add: int_width)
  with t show ?thesis by simp
qed

theorem recovery_reads_every_lapsed_call_witness:
  "keyset_walk (expired_unissued (40 * second)) call_position 1 2 None desk_1
     = sort_key call_position (expired_calls (40 * second) desk_1) \<and> length (expired_calls (40 * second) desk_1) = 1"
proof -
  have "length (expired_calls (40 * second) desk_1) = 1" by code_simp
  then show ?thesis using recovery_reads_every_lapsed_call [OF desks_reached(1), of 1 "40 * second" 2] by simp
qed

theorem receipt_presented_again_witness:
  "\<exists>w. record_receipt (9 * second) mint_b holder_a (as_str call_a) 1 answer_a ''d1'' desk_3 = Inr (w, desk_3)"
  using receipt_presented_again [OF desks_reached(2) recorded_parts [unfolded recorded_a_def]] by blast

end
