(* ===== verification/Scrub.thy ===== *)
theory Scrub
  imports GatePolicy "HOL-Library.Sublist" "HOL-Library.AList"
begin

text \<open>
  The masker every output passes (\<open>afr_secrets/src/scrub.rs\<close>, \<open>statics.rs\<close>, \<open>json.rs\<close>) and the
  live stream that sends through it chunk by chunk (\<open>afr_agent/src/events/mod.rs\<close>).  Text is the
  list of its UTF-8 bytes.  The multi-pattern matcher is a library's: it is the argument \<open>matches\<close>,
  and what is relied on is its documented leftmost-longest semantics.
\<close>

section \<open>The matcher's contract\<close>

text \<open>A match: the pattern's index, and the range of bytes it covers.\<close>

type_synonym found = "nat \<times> nat \<times> nat"
type_synonym matcher = "string list \<Rightarrow> string \<Rightarrow> found list"

definition occurs_at :: "string \<Rightarrow> string \<Rightarrow> nat \<Rightarrow> bool" where
  "occurs_at p t s \<longleftrightarrow> take (length p) (drop s t) = p"

text \<open>Leftmost: nothing starts earlier.  Longest, and among equal patterns the first.\<close>

definition best_at :: "string list \<Rightarrow> string \<Rightarrow> nat \<Rightarrow> nat \<Rightarrow> bool" where
  "best_at ps t s i \<longleftrightarrow> i < length ps \<and> occurs_at (ps ! i) t s
     \<and> (\<forall>j < length ps. occurs_at (ps ! j) t s
          \<longrightarrow> length (ps ! j) < length (ps ! i) \<or> length (ps ! j) = length (ps ! i) \<and> i \<le> j)"

fun matches_ok :: "string list \<Rightarrow> string \<Rightarrow> nat \<Rightarrow> found list \<Rightarrow> bool" where
  "matches_ok ps t from_at [] \<longleftrightarrow> (\<forall>s. from_at \<le> s \<longrightarrow> s \<le> length t \<longrightarrow> (\<forall>p \<in> set ps. \<not> occurs_at p t s))"
| "matches_ok ps t from_at ((i, s, e) # ms) \<longleftrightarrow> from_at \<le> s \<and> best_at ps t s i \<and> e = s + length (ps ! i)
     \<and> (\<forall>q. from_at \<le> q \<longrightarrow> q < s \<longrightarrow> (\<forall>p \<in> set ps. \<not> occurs_at p t q)) \<and> matches_ok ps t e ms"

definition leftmost_longest :: "matcher \<Rightarrow> bool" where
  "leftmost_longest matches \<longleftrightarrow> (\<forall>ps t. [] \<notin> set ps \<longrightarrow> matches_ok ps t 0 (matches ps t))"

section \<open>The lease's static credentials\<close>

definition field_host :: string where "field_host = ''host''"
definition field_token :: string where "field_token = ''token''"

text \<open>\<open>StaticSecrets\<close>: the object of credentials, when the policy's map is one.\<close>

type_synonym statics = "(string \<times> string json) list option"

definition statics_new :: "string json option \<Rightarrow> statics" where
  "statics_new m = Option.bind m as_object"

definition statics_fields :: "statics \<Rightarrow> string \<Rightarrow> (string \<times> string json) list option" where
  "statics_fields c name = Option.bind (Option.bind c (\<lambda>m. map_of m name)) as_object"

definition statics_field :: "statics \<Rightarrow> string \<Rightarrow> string \<Rightarrow> string option" where
  "statics_field c name fld = Option.bind (Option.bind (statics_fields c name) (\<lambda>fs. map_of fs fld)) as_string"

definition statics_host :: "statics \<Rightarrow> string \<Rightarrow> string option" where
  "statics_host c name = statics_field c name field_host"

definition statics_field_names :: "statics \<Rightarrow> string \<Rightarrow> string list option" where
  "statics_field_names c name = map_option (\<lambda>fs. map fst (filter (\<lambda>(f, v). as_string v \<noteq> None) fs)) (statics_fields c name)"

definition statics_values :: "statics \<Rightarrow> (string \<times> string) list" where
  "statics_values c = (case c of None \<Rightarrow> [] | Some m \<Rightarrow>
     concat (map (\<lambda>(name, credential). case as_object credential of None \<Rightarrow> []
       | Some fs \<Rightarrow> List.map_filter (\<lambda>(fld, v). if fld = field_host then None
           else map_option (\<lambda>t. (name @ ''.'' @ fld, t)) (as_string v)) fs) m))"

section \<open>The masker\<close>

definition nul :: string where "nul = [CHR 0x00]"
definition nul_stand_in :: string where "nul_stand_in = [CHR 0xEF, CHR 0xBF, CHR 0xBD]"
definition api_key_name :: string where "api_key_name = ''llm.api_key''"

definition mask_of :: "string \<Rightarrow> string" where
  "mask_of name = [CHR 0xC2, CHR 0xAB] @ ''secret:'' @ name @ [CHR 0xC2, CHR 0xBB]"

record scrub =
  sc_secrets :: "string list"
  sc_replacements :: "string list"

definition scrub_patterns :: "scrub \<Rightarrow> string list" where "scrub_patterns sc = sc_secrets sc @ [nul]"

text \<open>\<open>Scrub::of\<close>; \<open>builds\<close> is whether the library could build its automaton over the patterns.\<close>

definition scrub_of :: "(string list \<Rightarrow> bool) \<Rightarrow> (string \<times> string) list \<Rightarrow> (unit, scrub) result" where
  "scrub_of builds named = (let kept = filter (\<lambda>(_, v). v \<noteq> []) named;
       sc = \<lparr>sc_secrets = map snd kept, sc_replacements = map (\<lambda>(n, _). mask_of n) kept @ [nul_stand_in]\<rparr>
     in if builds (scrub_patterns sc) then Inr sc else Inl ())"

definition scrub_new :: "(string list \<Rightarrow> bool) \<Rightarrow> string \<Rightarrow> string json option \<Rightarrow> (unit, scrub) result" where
  "scrub_new builds api_key secrets_map =
     scrub_of builds ((api_key_name, api_key) # statics_values (statics_new secrets_map))"

text \<open>\<open>replace_all\<close>: the text between the matches, each match replaced.\<close>

fun splice :: "string list \<Rightarrow> string \<Rightarrow> nat \<Rightarrow> found list \<Rightarrow> string" where
  "splice reps t from_at [] = drop from_at t"
| "splice reps t from_at ((i, s, e) # ms) = take (s - from_at) (drop from_at t) @ reps ! i @ splice reps t e ms"

definition scrub_masked :: "matcher \<Rightarrow> scrub \<Rightarrow> string \<Rightarrow> string option" where
  "scrub_masked matches sc t = (case matches (scrub_patterns sc) t of [] \<Rightarrow> None
     | ms \<Rightarrow> Some (splice (sc_replacements sc) t 0 ms))"

definition scrub_text :: "matcher \<Rightarrow> scrub \<Rightarrow> string \<Rightarrow> string" where
  "scrub_text matches sc t = (case scrub_masked matches sc t of None \<Rightarrow> t | Some m \<Rightarrow> m)"

text \<open>\<open>json::rewrite\<close>: an object is collected again, the later of two keys masked alike winning.\<close>

fun json_rewrite :: "(string \<Rightarrow> string option) \<Rightarrow> string json \<Rightarrow> string json" where
  "json_rewrite rule (JString t) = JString (case rule t of Some u \<Rightarrow> u | None \<Rightarrow> t)"
| "json_rewrite rule (JArray items) = JArray (map (json_rewrite rule) items)"
| "json_rewrite rule (JObject fs) = JObject (fold (\<lambda>(k, v) m. AList.update k v m) (map (\<lambda>(k, v).
     (case rule k of Some u \<Rightarrow> u | None \<Rightarrow> k, json_rewrite rule v)) fs) [])"
| "json_rewrite rule v = v"

section \<open>The cut of a stream\<close>

text \<open>A byte that does not continue a character starts one.\<close>

definition char_starts :: "char \<Rightarrow> bool" where
  "char_starts c \<longleftrightarrow> \<not> (0x80 \<le> (of_char c :: nat) \<and> (of_char c :: nat) < 0xC0)"

fun floor_char_boundary :: "string \<Rightarrow> nat \<Rightarrow> nat" where
  "floor_char_boundary t 0 = 0"
| "floor_char_boundary t (Suc i) = (if length t \<le> Suc i then length t
     else if char_starts (t ! Suc i) then Suc i else floor_char_boundary t i)"

definition partial_head :: "string \<Rightarrow> string \<Rightarrow> nat" where
  "partial_head t secret = (case List.find (\<lambda>n. suffix (take n secret) t) (rev [1 ..< length secret]) of
     None \<Rightarrow> 0 | Some n \<Rightarrow> n)"

definition pending_bytes :: "scrub \<Rightarrow> string \<Rightarrow> nat" where
  "pending_bytes sc t = (let held = fold max (map (partial_head t) (sc_secrets sc)) 0
     in length t - floor_char_boundary t (length t - held))"

definition uncut :: "found \<Rightarrow> nat \<Rightarrow> nat" where
  "uncut m n = (case m of (_, s, e) \<Rightarrow> if s < n \<and> n < e then s else n)"

definition safe_cut :: "matcher \<Rightarrow> scrub \<Rightarrow> string \<Rightarrow> nat" where
  "safe_cut matches sc t = fold uncut (matches (scrub_patterns sc) t) (length t - pending_bytes sc t)"

text \<open>\<open>Carry::push\<close>: what is safe to send now, masked, and the held tail.\<close>

definition carry_push :: "matcher \<Rightarrow> scrub \<Rightarrow> string \<Rightarrow> string \<Rightarrow> string \<times> string" where
  "carry_push matches sc held chunk = (let t = held @ chunk; cut = safe_cut matches sc t
     in (scrub_text matches sc (take cut t), drop cut t))"

text \<open>\<open>Live\<close>: what one run streams, a carry for the answer and one for the reasoning; a frame for every
  push that sends something.\<close>

datatype text_kind = AnswerText | ReasoningText

record chunk_frame =
  frame_kind :: text_kind
  frame_text :: string
  frame_start :: bool
  frame_seq :: nat

record live =
  live_answer :: string
  live_reasoning :: string
  live_private :: bool
  live_seq :: nat
  live_frames :: "chunk_frame list"

definition live_new :: live where
  "live_new = \<lparr>live_answer = [], live_reasoning = [], live_private = False, live_seq = 0, live_frames = []\<rparr>"

definition live_hide_reasoning :: "live \<Rightarrow> live" where "live_hide_reasoning lv = lv\<lparr>live_private := True\<rparr>"

definition live_carry :: "text_kind \<Rightarrow> live \<Rightarrow> string" where
  "live_carry kind lv = (case kind of AnswerText \<Rightarrow> live_answer lv | ReasoningText \<Rightarrow> live_reasoning lv)"

definition live_text :: "matcher \<Rightarrow> scrub \<Rightarrow> text_kind \<Rightarrow> string \<Rightarrow> live \<Rightarrow> live" where
  "live_text matches sc kind chunk lv = (if live_private lv \<and> kind = ReasoningText then lv
     else (case carry_push matches sc (live_carry kind lv) chunk of (ready, tail) \<Rightarrow>
       let held = (case kind of AnswerText \<Rightarrow> lv\<lparr>live_answer := tail\<rparr> | ReasoningText \<Rightarrow> lv\<lparr>live_reasoning := tail\<rparr>)
       in if ready = [] then held
         else held\<lparr>live_seq := live_seq lv + 1, live_frames := live_frames lv
           @ [\<lparr>frame_kind = kind, frame_text = ready, frame_start = (live_seq lv = 0), frame_seq = live_seq lv\<rparr>]\<rparr>))"

definition live_end_pass :: "live \<Rightarrow> live" where
  "live_end_pass lv = lv\<lparr>live_answer := [], live_reasoning := []\<rparr>"

section \<open>Masking as one scan\<close>

text \<open>The reference: read the text once, masking the longest pattern that starts here.\<close>

definition longest_at :: "string list \<Rightarrow> string \<Rightarrow> nat option" where
  "longest_at ps t = List.find (\<lambda>i. best_at ps t 0 i) [0 ..< length ps]"

lemma longest_at_None: "longest_at ps t = None \<longleftrightarrow> (\<forall>p \<in> set ps. \<not> occurs_at p t 0)"
proof
  assume none: "\<forall>p \<in> set ps. \<not> occurs_at p t 0"
  then show "longest_at ps t = None"
    by (auto simp: longest_at_def find_None_iff best_at_def)
next
  assume none: "longest_at ps t = None"
  show "\<forall>p \<in> set ps. \<not> occurs_at p t 0"
  proof (rule ccontr)
    assume "\<not> ?thesis"
    then have ne: "filter (\<lambda>i. occurs_at (ps ! i) t 0) [0 ..< length ps] \<noteq> []"
      by (force simp: filter_empty_conv in_set_conv_nth)
    let ?I = "{i. i < length ps \<and> occurs_at (ps ! i) t 0}"
    have fin: "finite ?I" "?I \<noteq> {}" using ne by (auto simp: filter_empty_conv)
    define L where "L = Max ((\<lambda>i. length (ps ! i)) ` ?I)"
    have "L \<in> (\<lambda>i. length (ps ! i)) ` ?I" using fin by (simp add: L_def)
    then have J: "{i \<in> ?I. length (ps ! i) = L} \<noteq> {}" by auto
    define k where "k = Min {i \<in> ?I. length (ps ! i) = L}"
    have k: "k \<in> {i \<in> ?I. length (ps ! i) = L}" unfolding k_def using fin J by (intro Min_in) auto
    have "best_at ps t 0 k"
      unfolding best_at_def
    proof (intro conjI allI impI)
      fix j assume j: "j < length ps" "occurs_at (ps ! j) t 0"
      then have "length (ps ! j) \<le> L" unfolding L_def using fin by (intro Max_ge) auto
      moreover have "k \<le> j" if "length (ps ! j) = L" unfolding k_def using fin j that by (intro Min_le) auto
      ultimately show "length (ps ! j) < length (ps ! k) \<or> length (ps ! j) = length (ps ! k) \<and> k \<le> j"
        using k by auto
    qed (use k in auto)
    with k none show False by (auto simp: longest_at_def find_None_iff)
  qed
qed

lemma best_at_unique: "best_at ps t s i \<Longrightarrow> best_at ps t s j \<Longrightarrow> i = j"
  by (fastforce simp: best_at_def)

lemma longest_at_Some: "longest_at ps t = Some i \<longleftrightarrow> best_at ps t 0 i"
proof
  assume "longest_at ps t = Some i"
  then show "best_at ps t 0 i" by (auto simp: longest_at_def find_Some_iff)
next
  assume b: "best_at ps t 0 i"
  then have "longest_at ps t \<noteq> None" by (auto simp: longest_at_None best_at_def)
  then obtain j where j: "longest_at ps t = Some j" by auto
  then have "best_at ps t 0 j" by (auto simp: longest_at_def find_Some_iff)
  with b j best_at_unique show "longest_at ps t = Some i" by auto
qed

lemma occurs_at_length: "occurs_at p t s \<Longrightarrow> length p \<le> length t - s"
  by (auto simp: occurs_at_def min_def dest: arg_cong [of _ _ length] split: if_splits)

lemma best_at_length: "best_at ps t s i \<Longrightarrow> length (ps ! i) \<le> length t - s"
  by (auto simp: best_at_def occurs_at_length)

function mask_all :: "string list \<Rightarrow> string list \<Rightarrow> string \<Rightarrow> string" where
  "mask_all ps reps t = (case longest_at ps t of
     Some i \<Rightarrow> if ps ! i = [] then t else reps ! i @ mask_all ps reps (drop (length (ps ! i)) t)
   | None \<Rightarrow> (case t of [] \<Rightarrow> [] | c # cs \<Rightarrow> c # mask_all ps reps cs))"
  by pat_completeness auto
termination
proof (relation "measure (\<lambda>(ps, reps, t). length t)")
  fix ps reps t i
  assume "longest_at ps t = Some i" "ps ! i \<noteq> []"
  then have "length (ps ! i) \<le> length t" "0 < length (ps ! i)"
    by (auto simp: longest_at_Some dest: best_at_length)
  then have "length t - length (ps ! i) < length t" by linarith
  then show "((ps, reps, drop (length (ps ! i)) t), ps, reps, t) \<in> measure (\<lambda>(ps, reps, t). length t)"
    by simp
qed auto

declare mask_all.simps [simp del]

lemma occurs_at_drop [simp]: "occurs_at p (drop a t) s = occurs_at p t (a + s)"
  by (simp add: occurs_at_def add.commute)

lemma best_at_drop [simp]: "best_at ps (drop a t) s i = best_at ps t (a + s) i"
  by (simp add: best_at_def)

lemma nth_nonempty: "[] \<notin> set ps \<Longrightarrow> i < length ps \<Longrightarrow> ps ! i \<noteq> []"
  by (metis nth_mem)

lemma mask_all_None: "longest_at ps t = None \<Longrightarrow> t \<noteq> [] \<Longrightarrow> mask_all ps reps t = hd t # mask_all ps reps (tl t)"
  by (subst mask_all.simps) (simp split: list.splits)

lemma mask_all_Some:
  assumes "best_at ps t 0 i" "[] \<notin> set ps"
  shows "mask_all ps reps t = reps ! i @ mask_all ps reps (drop (length (ps ! i)) t)"
proof -
  have "longest_at ps t = Some i" "ps ! i \<noteq> []"
    using assms nth_nonempty by (auto simp: longest_at_Some best_at_def)
  then show ?thesis by (subst mask_all.simps) simp
qed

lemma mask_all_Nil: "[] \<notin> set ps \<Longrightarrow> mask_all ps reps [] = []"
proof -
  assume ne: "[] \<notin> set ps"
  then have "longest_at ps [] = None" by (auto simp: longest_at_None occurs_at_def)
  then show ?thesis by (subst mask_all.simps) simp
qed

lemma mask_all_gap:
  assumes "[] \<notin> set ps" "\<forall>q. a \<le> q \<longrightarrow> q < s \<longrightarrow> (\<forall>p \<in> set ps. \<not> occurs_at p t q)" "a \<le> s" "s \<le> length t"
  shows "mask_all ps reps (drop a t) = take (s - a) (drop a t) @ mask_all ps reps (drop s t)"
  using assms(2-4)
proof (induction "s - a" arbitrary: a)
  case (Suc n)
  then have "longest_at ps (drop a t) = None" by (simp add: longest_at_None)
  moreover have a: "a < s" "drop a t = t ! a # drop (Suc a) t" using Suc by (auto simp: Cons_nth_drop_Suc)
  ultimately have "mask_all ps reps (drop a t) = t ! a # mask_all ps reps (drop (Suc a) t)"
    using a(2) by (simp add: mask_all_None)
  moreover have "mask_all ps reps (drop (Suc a) t) = take (s - Suc a) (drop (Suc a) t) @ mask_all ps reps (drop s t)"
    using Suc by (intro Suc.hyps(1)) auto
  ultimately show ?case using a by (simp add: Suc_diff_Suc [symmetric])
qed simp

lemma splice_mask_all:
  assumes "[] \<notin> set ps" "matches_ok ps t a ms" "a \<le> length t"
  shows "splice reps t a ms = mask_all ps reps (drop a t)"
  using assms(2,3)
proof (induction ms arbitrary: a)
  case Nil
  then show ?case using mask_all_gap [OF assms(1), of a "length t" t reps] assms(1) by (simp add: mask_all_Nil)
next
  case (Cons m ms)
  obtain i s e where m: "m = (i, s, e)" by (cases m)
  with Cons.prems have b: "best_at ps t s i" "e = s + length (ps ! i)" "a \<le> s" "matches_ok ps t e ms"
    and gap: "\<forall>q. a \<le> q \<longrightarrow> q < s \<longrightarrow> (\<forall>p \<in> set ps. \<not> occurs_at p t q)" by auto
  have "ps ! i \<noteq> []" using b(1) assms(1) nth_nonempty by (auto simp: best_at_def)
  then have e: "e \<le> length t" "s \<le> length t" using best_at_length [OF b(1)] b(2)
    by (cases "ps ! i"; simp)+
  have "mask_all ps reps (drop s t) = reps ! i @ mask_all ps reps (drop e t)"
    using mask_all_Some [of ps "drop s t" i reps] b(1,2) assms(1) by (simp add: add.commute)
  with mask_all_gap [OF assms(1) gap b(3) e(2)] Cons.IH [OF b(4) e(1)] show ?case by (simp add: m)
qed

definition scrub_ok :: "scrub \<Rightarrow> bool" where "scrub_ok sc \<longleftrightarrow> [] \<notin> set (sc_secrets sc)"

lemma scrub_of_ok: "scrub_of builds named = Inr sc \<Longrightarrow> scrub_ok sc"
  by (auto simp: scrub_of_def scrub_ok_def Let_def split: if_splits)

lemma patterns_nonempty: "scrub_ok sc \<Longrightarrow> [] \<notin> set (scrub_patterns sc)"
  by (auto simp: scrub_ok_def scrub_patterns_def nul_def)

lemma scrub_text_mask_all:
  assumes "leftmost_longest matches" "scrub_ok sc"
  shows "scrub_text matches sc t = mask_all (scrub_patterns sc) (sc_replacements sc) t"
proof -
  let ?ms = "matches (scrub_patterns sc) t"
  note ne = patterns_nonempty [OF assms(2)]
  have ok: "matches_ok (scrub_patterns sc) t 0 ?ms" using assms(1) ne by (simp add: leftmost_longest_def)
  have "scrub_text matches sc t = splice (sc_replacements sc) t 0 ?ms"
    by (simp add: scrub_text_def scrub_masked_def split: list.split)
  with splice_mask_all [OF ne ok] show ?thesis by simp
qed

section \<open>The contract can be met\<close>

function scan_matches :: "string list \<Rightarrow> string \<Rightarrow> nat \<Rightarrow> found list" where
  "scan_matches ps t a = (if length t \<le> a then []
     else case longest_at ps (drop a t) of None \<Rightarrow> scan_matches ps t (Suc a)
       | Some i \<Rightarrow> if ps ! i = [] then [] else (i, a, a + length (ps ! i)) # scan_matches ps t (a + length (ps ! i)))"
  by pat_completeness auto
termination
proof (relation "measure (\<lambda>(ps, t, a). length t - a)")
  fix ps t i and a :: nat
  assume "\<not> length t \<le> a" "ps ! i \<noteq> []"
  then have "length t - (a + length (ps ! i)) < length t - a" by (cases "ps ! i") auto
  then show "((ps, t, a + length (ps ! i)), ps, t, a) \<in> measure (\<lambda>(ps, t, a). length t - a)" by simp
qed auto

declare scan_matches.simps [simp del]

lemma matches_ok_Suc:
  "matches_ok ps t (Suc a) ms \<Longrightarrow> \<forall>p \<in> set ps. \<not> occurs_at p t a \<Longrightarrow> matches_ok ps t a ms"
  by (cases ms) (auto, (metis Suc_leI le_neq_implies_less)+)

lemma no_occurrence_at_end: "[] \<notin> set ps \<Longrightarrow> p \<in> set ps \<Longrightarrow> length t \<le> s \<Longrightarrow> \<not> occurs_at p t s"
  by (cases p) (auto simp: occurs_at_def)

lemma scan_matches_ok:
  assumes "[] \<notin> set ps"
  shows "matches_ok ps t a (scan_matches ps t a)"
  using assms
proof (induction ps t a rule: scan_matches.induct)
  case (1 ps t a)
  show ?case
  proof (cases "length t \<le> a")
    case True
    then show ?thesis using no_occurrence_at_end [OF 1(3)] by (subst scan_matches.simps) auto
  next
    case False
    show ?thesis
    proof (cases "longest_at ps (drop a t)")
      case None
      then have "\<forall>p \<in> set ps. \<not> occurs_at p t a" by (simp add: longest_at_None)
      with 1(1) [OF False None 1(3)] have "matches_ok ps t a (scan_matches ps t (Suc a))" by (rule matches_ok_Suc)
      with False None show ?thesis by (subst scan_matches.simps) simp
    next
      case (Some i)
      then have b: "best_at ps t a i" by (simp add: longest_at_Some)
      then have ne: "ps ! i \<noteq> []" using nth_nonempty [OF 1(3)] by (auto simp: best_at_def)
      from 1(2) [OF False Some ne 1(3)] b ne False Some show ?thesis by (subst scan_matches.simps) simp
    qed
  qed
qed

lemma scan_leftmost_longest: "leftmost_longest (\<lambda>ps t. scan_matches ps t 0)"
  by (simp add: leftmost_longest_def scan_matches_ok)

section \<open>Where a stream may be cut\<close>

text \<open>No pattern starts before the cut and runs past the end of the text.\<close>

definition settled :: "string list \<Rightarrow> string \<Rightarrow> nat \<Rightarrow> bool" where
  "settled ps t n \<longleftrightarrow> (\<forall>s < n. \<forall>p \<in> set ps. length t - s < length p \<longrightarrow> take (length t - s) p \<noteq> drop s t)"

lemma occurs_at_append:
  assumes "settled ps t n" "s < n" "n \<le> length t" "p \<in> set ps"
  shows "occurs_at p (t @ y) s \<longleftrightarrow> occurs_at p t s"
proof (cases "length p \<le> length t - s")
  case True
  then show ?thesis using assms(2,3) by (simp add: occurs_at_def)
next
  case False
  then have "\<not> occurs_at p t s" using occurs_at_length by blast
  moreover have "\<not> occurs_at p (t @ y) s"
  proof
    assume o: "occurs_at p (t @ y) s"
    have "take (length t - s) (take (length p) (drop s (t @ y))) = drop s t"
      using False assms(2,3) by (simp add: min_def)
    with o have "take (length t - s) p = drop s t" by (simp add: occurs_at_def)
    with False assms(1,2,4) show False by (auto simp: settled_def)
  qed
  ultimately show ?thesis by simp
qed

lemma occurs_at_take:
  "occurs_at p (take n t) s \<longleftrightarrow> occurs_at p t s \<and> (p = [] \<or> s + length p \<le> n)"
proof (cases "p = []")
  case False
  then show ?thesis
    by (cases p) (auto simp: occurs_at_def drop_take min_def dest: arg_cong [of _ _ length] split: if_splits)
qed (simp add: occurs_at_def)

lemma best_at_append:
  assumes "settled ps t n" "s < n" "n \<le> length t"
  shows "best_at ps (t @ y) s i \<longleftrightarrow> best_at ps t s i"
  using occurs_at_append [OF assms] by (auto simp: best_at_def)

lemma best_at_take: "best_at ps t s i \<Longrightarrow> s + length (ps ! i) \<le> n \<Longrightarrow> best_at ps (take n t) s i"
  by (auto simp: best_at_def occurs_at_take)

lemma mask_split_gap:
  assumes ne: "[] \<notin> set ps" and set: "settled ps t n" "n \<le> length t" "a \<le> n"
    and none: "\<forall>q. a \<le> q \<longrightarrow> q < n \<longrightarrow> (\<forall>p \<in> set ps. \<not> occurs_at p t q)"
  shows "mask_all ps reps (drop a t @ y)
     = mask_all ps reps (take (n - a) (drop a t)) @ mask_all ps reps (drop n t @ y)"
proof -
  have "\<forall>q. a \<le> q \<longrightarrow> q < n \<longrightarrow> (\<forall>p \<in> set ps. \<not> occurs_at p (t @ y) q)"
    using none occurs_at_append [OF set(1) _ set(2)] by blast
  from mask_all_gap [OF ne this set(3), of reps] set(2,3)
  have "mask_all ps reps (drop a t @ y) = take (n - a) (drop a t) @ mask_all ps reps (drop n t @ y)" by simp
  moreover have "\<forall>q. a \<le> q \<longrightarrow> q < n \<longrightarrow> (\<forall>p \<in> set ps. \<not> occurs_at p (take n t) q)"
    using none by (simp add: occurs_at_take)
  from mask_all_gap [OF ne this set(3), of reps] set(2)
  have "mask_all ps reps (take (n - a) (drop a t)) = take (n - a) (drop a t)"
    using ne by (simp add: mask_all_Nil drop_take)
  ultimately show ?thesis by simp
qed

lemma mask_split:
  assumes "[] \<notin> set ps" "settled ps t n" "n \<le> length t" "matches_ok ps t a ms" "a \<le> n"
    "\<forall>m \<in> set ms. uncut m n = n"
  shows "mask_all ps reps (drop a t @ y)
     = mask_all ps reps (take (n - a) (drop a t)) @ mask_all ps reps (drop n t @ y)"
  using assms(4-6)
proof (induction ms arbitrary: a)
  case Nil
  then show ?case using assms(3) by (intro mask_split_gap [OF assms(1-3)]) auto
next
  case (Cons m ms)
  obtain i s e where m: "m = (i, s, e)" by (cases m)
  with Cons.prems have b: "best_at ps t s i" "e = s + length (ps ! i)" "a \<le> s" "matches_ok ps t e ms"
    and gap: "\<forall>q. a \<le> q \<longrightarrow> q < s \<longrightarrow> (\<forall>p \<in> set ps. \<not> occurs_at p t q)" by auto
  show ?case
  proof (cases "s < n")
    case False
    then show ?thesis using gap Cons.prems(2) by (intro mask_split_gap [OF assms(1-3)]) auto
  next
    case True
    then have en: "e \<le> n" using Cons.prems(3) m by (auto simp: uncut_def split: if_splits)
    have set: "settled ps t s" using assms(2) True by (auto simp: settled_def)
    have "mask_all ps reps (drop s t @ y) = reps ! i @ mask_all ps reps (drop e t @ y)"
    proof -
      have "best_at ps (drop s (t @ y)) 0 i" using best_at_append [OF assms(2) True assms(3)] b(1) by (simp only: best_at_drop add_0_right)
      from mask_all_Some [OF this assms(1), of reps] b(2) assms(3) True en show ?thesis by (simp add: add.commute)
    qed
    moreover have "mask_all ps reps (take (n - s) (drop s t)) = reps ! i @ mask_all ps reps (take (n - e) (drop e t))"
    proof -
      have "best_at ps (drop s (take n t)) 0 i" using best_at_take [OF b(1)] b(2) en by (simp only: best_at_drop add_0_right)
      from mask_all_Some [OF this assms(1), of reps] b(2) show ?thesis by (simp add: drop_take add.commute)
    qed
    moreover have "mask_all ps reps (take (n - a) (drop a t)) = take (s - a) (drop a t) @ mask_all ps reps (take (n - s) (drop s t))"
    proof -
      have "\<forall>q. a \<le> q \<longrightarrow> q < s \<longrightarrow> (\<forall>p \<in> set ps. \<not> occurs_at p (take n t) q)" using gap by (simp add: occurs_at_take)
      from mask_all_gap [OF assms(1) this b(3), of reps] True assms(3) show ?thesis by (simp add: drop_take min_def)
    qed
    moreover have "mask_all ps reps (drop a t @ y) = take (s - a) (drop a t) @ mask_all ps reps (drop s t @ y)"
    proof -
      have "\<forall>q. a \<le> q \<longrightarrow> q < s \<longrightarrow> (\<forall>p \<in> set ps. \<not> occurs_at p (t @ y) q)"
        using gap occurs_at_append [OF assms(2) _ assms(3)] True by auto
      from mask_all_gap [OF assms(1) this b(3), of reps] True assms(3) b(3) show ?thesis by simp
    qed
    ultimately show ?thesis using Cons.IH [OF b(4) en] Cons.prems(3) by simp
  qed
qed

section \<open>The cut the carry takes\<close>

lemma floor_le: "i \<le> length t \<Longrightarrow> floor_char_boundary t i \<le> i"
  by (induction t i rule: floor_char_boundary.induct) auto

lemma floor_char_le: "floor_char_boundary t i \<le> length t"
  by (induction t i rule: floor_char_boundary.induct) auto

lemma fold_max_ge: "x \<in> set xs \<or> x \<le> a \<Longrightarrow> x \<le> fold max xs (a::nat)"
  by (induction xs arbitrary: a) (auto simp: max_def intro: order_trans)

lemma partial_head_ge:
  assumes "0 < n" "n < length p" "suffix (take n p) t"
  shows "n \<le> partial_head t p"
proof -
  let ?P = "\<lambda>n. suffix (take n p) t" and ?ns = "rev [1 ..< length p]"
  obtain m where m: "List.find ?P ?ns = Some m"
    using assms by (cases "List.find ?P ?ns") (auto simp: find_None_iff)
  then obtain k where k: "k < length ?ns" "?ns ! k = m" "\<forall>j < k. \<not> ?P (?ns ! j)"
    by (auto simp: find_Some_iff)
  have at: "?ns ! j = length p - 1 - j" if "j < length p - 1" for j
    using that by (simp add: rev_nth)
  have "m = length p - 1 - k" using at k by simp
  moreover have "\<not> length p - 1 - n < k" using k(3) at [of "length p - 1 - n"] assms by auto
  ultimately have "n \<le> m" using k(1) assms(2) by simp
  with m show ?thesis by (simp add: partial_head_def)
qed

lemma pending_settled:
  assumes "n \<le> length t - pending_bytes sc t"
  shows "settled (scrub_patterns sc) t n"
  unfolding settled_def
proof (intro allI ballI impI notI)
  fix s p assume s: "s < n" and p: "p \<in> set (scrub_patterns sc)" and long: "length t - s < length p"
    and head: "take (length t - s) p = drop s t"
  define held where "held = fold max (map (partial_head t) (sc_secrets sc)) 0"
  have n: "n \<le> length t - held"
    using assms floor_le [of "length t - held" t] floor_char_le [of t "length t - held"]
    by (simp add: pending_bytes_def held_def Let_def)
  then have st: "s < length t - held" using s by simp
  show False
  proof (cases "p = nul")
    case True
    with long st show False by (simp add: nul_def)
  next
    case False
    then have sec: "p \<in> set (sc_secrets sc)" using p by (auto simp: scrub_patterns_def)
    have "suffix (take (length t - s) p) t" unfolding head by (rule suffix_drop)
    then have "length t - s \<le> partial_head t p" using st long by (intro partial_head_ge) auto
    also have "\<dots> \<le> held" unfolding held_def using sec by (intro fold_max_ge) auto
    finally show False using st by simp
  qed
qed

lemma uncut_le: "uncut m n \<le> n"
  by (auto simp: uncut_def split: prod.split)

lemma fold_uncut_le: "fold uncut ms n \<le> n"
  by (induction ms arbitrary: n) (auto intro: order_trans uncut_le)

lemma matches_from: "matches_ok ps t a ms \<Longrightarrow> (i, s, e) \<in> set ms \<Longrightarrow> a \<le> s"
  by (induction ps t a ms rule: matches_ok.induct) (auto dest: order_trans)

lemma uncut_early: "matches_ok ps t a ms \<Longrightarrow> n \<le> a \<Longrightarrow> m \<in> set ms \<Longrightarrow> uncut m n = n"
  by (cases m) (auto simp: uncut_def dest: matches_from)

lemma fold_uncut_id: "\<forall>m \<in> set ms. uncut m n = n \<Longrightarrow> fold uncut ms n = n"
  by (induction ms) auto

lemma fold_uncut_ge: "\<forall>(i, s, e) \<in> set ms. b \<le> s \<Longrightarrow> b \<le> n \<Longrightarrow> b \<le> fold uncut ms n"
  by (induction ms arbitrary: n) (auto simp: uncut_def)

lemma fold_uncut_fixed:
  "matches_ok ps t a ms \<Longrightarrow> \<forall>m \<in> set ms. uncut m (fold uncut ms n) = fold uncut ms n"
proof (induction ps t a ms arbitrary: n rule: matches_ok.induct)
  case (2 ps t a i s e ms)
  let ?n = "uncut (i, s, e) n"
  have "uncut (i, s, e) (fold uncut ms ?n) = fold uncut ms ?n"
  proof (cases "s < n \<and> n < e")
    case True
    then have "fold uncut ms ?n \<le> s" using fold_uncut_le [of ms ?n] by (simp add: uncut_def)
    then show ?thesis by (simp add: uncut_def)
  next
    case False
    then have n: "?n = n" by (auto simp: uncut_def)
    show ?thesis
    proof (cases "n \<le> e")
      case True
      then have "fold uncut ms n = n"
        using uncut_early [of ps t e ms n] 2(2) by (intro fold_uncut_id) auto
      with n False show ?thesis by (auto simp: uncut_def)
    next
      case late: False
      have "e \<le> fold uncut ms n"
        using 2(2) late by (intro fold_uncut_ge) (auto dest: matches_from)
      with n show ?thesis by (auto simp: uncut_def)
    qed
  qed
  with 2 show ?case by auto
qed simp

lemma safe_cut_splits:
  assumes "leftmost_longest matches" "scrub_ok sc"
  shows "scrub_text matches sc (t @ y)
     = scrub_text matches sc (take (safe_cut matches sc t) t) @ scrub_text matches sc (drop (safe_cut matches sc t) t @ y)"
proof -
  let ?ps = "scrub_patterns sc" and ?ms = "matches (scrub_patterns sc) t" and ?n = "safe_cut matches sc t"
  note ne = patterns_nonempty [OF assms(2)]
  have ok: "matches_ok ?ps t 0 ?ms" using assms(1) ne by (simp add: leftmost_longest_def)
  have n: "?n \<le> length t - pending_bytes sc t" by (simp add: safe_cut_def fold_uncut_le)
  have "\<forall>m \<in> set ?ms. uncut m ?n = ?n" unfolding safe_cut_def by (rule fold_uncut_fixed [OF ok])
  from mask_split [OF ne pending_settled [OF n] _ ok _ this, of "sc_replacements sc" y] n
  show ?thesis by (simp add: scrub_text_mask_all [OF assms])
qed

section \<open>What a stream sends\<close>

definition live_run :: "matcher \<Rightarrow> scrub \<Rightarrow> bool \<Rightarrow> (text_kind \<times> string) list \<Rightarrow> live" where
  "live_run matches sc hidden chunks = fold (\<lambda>(kind, chunk). live_text matches sc kind chunk) chunks
     (if hidden then live_hide_reasoning live_new else live_new)"

definition sent_of :: "text_kind \<Rightarrow> live \<Rightarrow> string" where
  "sent_of kind lv = concat (map frame_text (filter (\<lambda>f. frame_kind f = kind) (live_frames lv)))"

definition chunks_of :: "text_kind \<Rightarrow> (text_kind \<times> string) list \<Rightarrow> string" where
  "chunks_of kind chunks = concat (map snd (filter (\<lambda>c. fst c = kind) chunks))"

definition shown :: "bool \<Rightarrow> text_kind \<Rightarrow> bool" where "shown hidden kind \<longleftrightarrow> \<not> (hidden \<and> kind = ReasoningText)"

lemma live_text_private [simp]: "live_private (live_text matches sc kind chunk lv) = live_private lv"
  by (simp add: live_text_def Let_def split: prod.split text_kind.split)

lemma live_text_frames:
  assumes "leftmost_longest matches" "scrub_ok sc" "shown (live_private lv) k"
  shows "sent_of k (live_text matches sc kind chunk lv) @ scrub_text matches sc (live_carry k (live_text matches sc kind chunk lv) @ y)
     = sent_of k lv @ scrub_text matches sc (live_carry k lv @ (if kind = k then chunk else []) @ y)"
  using safe_cut_splits [OF assms(1,2), of "live_carry k lv @ chunk" y] assms(3)
  by (cases k; cases kind)
    (auto simp: live_text_def carry_push_def Let_def live_carry_def sent_of_def shown_def)

lemma live_run_frames:
  assumes "leftmost_longest matches" "scrub_ok sc" "shown (live_private lv) k"
  shows "sent_of k (fold (\<lambda>(kind, chunk). live_text matches sc kind chunk) chunks lv)
       @ scrub_text matches sc (live_carry k (fold (\<lambda>(kind, chunk). live_text matches sc kind chunk) chunks lv) @ y)
     = sent_of k lv @ scrub_text matches sc (live_carry k lv @ chunks_of k chunks @ y)"
  using assms(3)
proof (induction chunks arbitrary: lv)
  case (Cons c chunks)
  obtain kind chunk where c: "c = (kind, chunk)" by force
  have "shown (live_private (live_text matches sc kind chunk lv)) k" using Cons.prems by simp
  from Cons.IH [OF this] live_text_frames [OF assms(1,2) Cons.prems, of kind chunk "chunks_of k chunks @ y"]
  show ?case by (simp add: c chunks_of_def)
qed (simp add: chunks_of_def)

text \<open>C28: Streaming an answer or the reasoning chunk by chunk, the two interleaved as they come, sends
  exactly the masking of the whole text of that kind, less the masking of the tail still held: however a
  secret is split across chunks, nested in another or extended by a later chunk, the frames never show it
  in pieces and never differ from masking once.\<close>

theorem stream_masks_as_a_whole:
  assumes "leftmost_longest matches" "scrub_of builds named = Inr sc" "shown hidden kind"
  shows "sent_of kind (live_run matches sc hidden chunks)
       @ scrub_text matches sc (live_carry kind (live_run matches sc hidden chunks))
     = scrub_text matches sc (chunks_of kind chunks)"
proof -
  let ?lv = "if hidden then live_hide_reasoning live_new else live_new"
  have start: "live_private ?lv = hidden" "sent_of kind ?lv = []" "live_carry kind ?lv = []"
    by (auto simp: live_hide_reasoning_def live_new_def sent_of_def live_carry_def split: text_kind.split)
  show ?thesis
    using live_run_frames [OF assms(1) scrub_of_ok [OF assms(2)], of ?lv kind chunks "[]"] assms(3)
    unfolding start live_run_def by simp
qed

end
