(* ===== verification/Net.thy ===== *)
theory Net
  imports Prelude
begin

text \<open>
  The addresses no outbound request on a tenant's behalf may reach (\<open>afd_core/src/net/mod.rs\<close>),
  octet by octet and segment by segment as the code reads them.
\<close>

type_synonym u16 = "16 word"

datatype ipv4 = IPv4 u8 u8 u8 u8
datatype ipv6 = IPv6 u16 u16 u16 u16 u16 u16 u16 u16
datatype ip_addr = AddrV4 ipv4 | AddrV6 ipv6

definition v4_unspecified_block :: u8 where "v4_unspecified_block = 0"
definition v4_protocol_assignments :: "u8 \<times> u8 \<times> u8" where "v4_protocol_assignments = (192, 0, 0)"
definition v4_non_unicast_floor :: u8 where "v4_non_unicast_floor = 224"
definition v4_shared_first :: u8 where "v4_shared_first = 100"
definition v4_shared_mask :: u8 where "v4_shared_mask = 0xc0"
definition v4_shared_second :: u8 where "v4_shared_second = 64"
definition v6_unique_local_mask :: u16 where "v6_unique_local_mask = 0xfe00"
definition v6_unique_local :: u16 where "v6_unique_local = 0xfc00"
definition v6_link_local_mask :: u16 where "v6_link_local_mask = 0xffc0"
definition v6_link_local :: u16 where "v6_link_local = 0xfe80"
definition v6_nat64 :: "u16 \<times> u16" where "v6_nat64 = (0x0064, 0xff9b)"
definition v6_nat64_local_use :: u16 where "v6_nat64_local_use = 1"
definition v6_6to4 :: u16 where "v6_6to4 = 0x2002"
definition v6_mapped :: u16 where "v6_mapped = 0xffff"

lemmas net_consts = v4_unspecified_block_def v4_protocol_assignments_def v4_non_unicast_floor_def
  v4_shared_first_def v4_shared_mask_def v4_shared_second_def v6_unique_local_mask_def v6_unique_local_def
  v6_link_local_mask_def v6_link_local_def v6_nat64_def v6_nat64_local_use_def v6_6to4_def v6_mapped_def

text \<open>\<open>std::net\<close>'s own predicates.\<close>

fun v4_is_loopback :: "ipv4 \<Rightarrow> bool" where "v4_is_loopback (IPv4 a b c d) \<longleftrightarrow> a = 127"
fun v4_is_private :: "ipv4 \<Rightarrow> bool" where
  "v4_is_private (IPv4 a b c d) \<longleftrightarrow> a = 10 \<or> a = 172 \<and> 16 \<le> b \<and> b \<le> 31 \<or> a = 192 \<and> b = 168"
fun v4_is_link_local :: "ipv4 \<Rightarrow> bool" where "v4_is_link_local (IPv4 a b c d) \<longleftrightarrow> a = 169 \<and> b = 254"
fun v6_is_loopback :: "ipv6 \<Rightarrow> bool" where "v6_is_loopback a \<longleftrightarrow> a = IPv6 0 0 0 0 0 0 0 1"
fun v6_is_unspecified :: "ipv6 \<Rightarrow> bool" where "v6_is_unspecified a \<longleftrightarrow> a = IPv6 0 0 0 0 0 0 0 0"
fun v6_is_multicast :: "ipv6 \<Rightarrow> bool" where "v6_is_multicast (IPv6 a b c d e f g h) \<longleftrightarrow> and a 0xff00 = 0xff00"

fun is_blocked_v4 :: "ipv4 \<Rightarrow> bool" where
  "is_blocked_v4 (IPv4 a b c d) \<longleftrightarrow> v4_is_loopback (IPv4 a b c d) \<or> v4_is_private (IPv4 a b c d)
     \<or> v4_is_link_local (IPv4 a b c d) \<or> a = v4_shared_first \<and> and b v4_shared_mask = v4_shared_second
     \<or> (a, b, c) = v4_protocol_assignments \<or> a = v4_unspecified_block \<or> v4_non_unicast_floor \<le> a"

text \<open>\<open>Ipv4Addr::from((high << 16) | low)\<close>.\<close>

definition join_v4 :: "u16 \<Rightarrow> u16 \<Rightarrow> ipv4" where
  "join_v4 high low = IPv4 (ucast (drop_bit 8 high)) (ucast high) (ucast (drop_bit 8 low)) (ucast low)"

fun embedded_v4 :: "ipv6 \<Rightarrow> ipv4 option" where
  "embedded_v4 (IPv6 a b c d e f high low) =
     (if a = 0 \<and> b = 0 \<and> c = 0 \<and> d = 0 \<and> e = 0 \<and> (f = 0 \<or> f = v6_mapped) then Some (join_v4 high low)
      else if (a, b) = v6_nat64 \<and> c = 0 \<and> d = 0 \<and> e = 0 \<and> f = 0 then Some (join_v4 high low)
      else if a = v6_6to4 then Some (join_v4 b c) else None)"

fun is_blocked_v6 :: "ipv6 \<Rightarrow> bool" where
  "is_blocked_v6 (IPv6 a b c d e f g h) = (case embedded_v4 (IPv6 a b c d e f g h) of
     Some v4 \<Rightarrow> is_blocked_v4 v4
   | None \<Rightarrow> v6_is_loopback (IPv6 a b c d e f g h) \<or> v6_is_unspecified (IPv6 a b c d e f g h)
       \<or> v6_is_multicast (IPv6 a b c d e f g h) \<or> and a v6_unique_local_mask = v6_unique_local
       \<or> and a v6_link_local_mask = v6_link_local \<or> (a, b) = v6_nat64 \<and> c = v6_nat64_local_use)"

fun is_blocked :: "ip_addr \<Rightarrow> bool" where
  "is_blocked (AddrV4 a) = is_blocked_v4 a"
| "is_blocked (AddrV6 a) = is_blocked_v6 a"

section \<open>The ranges the registry names\<close>

definition v4_number :: "ipv4 \<Rightarrow> int" where
  "v4_number x = (case x of IPv4 a b c d \<Rightarrow> uint a * 2 ^ 24 + uint b * 2 ^ 16 + uint c * 2 ^ 8 + uint d)"

definition v4_in_cidr :: "ipv4 \<Rightarrow> ipv4 \<times> nat \<Rightarrow> bool" where
  "v4_in_cidr x r \<longleftrightarrow> v4_number x div 2 ^ (32 - snd r) = v4_number (fst r) div 2 ^ (32 - snd r)"

definition v4_blocked_ranges :: "(ipv4 \<times> nat) list" where
  "v4_blocked_ranges = [(IPv4 0 0 0 0, 8), (IPv4 10 0 0 0, 8), (IPv4 100 64 0 0, 10), (IPv4 127 0 0 0, 8),
     (IPv4 169 254 0 0, 16), (IPv4 172 16 0 0, 12), (IPv4 192 0 0 0, 24), (IPv4 192 168 0 0, 16), (IPv4 224 0 0 0, 3)]"

lemma uint_u8: "0 \<le> uint (x :: u8)" "uint (x :: u8) < 256"
  using uint_lt2p [of x] by simp_all

lemma low_digit: "0 \<le> d \<Longrightarrow> d < k \<Longrightarrow> (q * k + d) div k = (q :: int)"
  by simp

lemma digits_eq:
  fixes a b q r k :: int
  assumes "0 \<le> q" "q < k" "0 \<le> r" "r < k"
  shows "a * k + q = b * k + r \<longleftrightarrow> a = b \<and> q = r"
  using assms by (metis add_left_cancel low_digit)

lemma u8_number:
  fixes a b c d :: u8
  shows "v4_number (IPv4 a b c d) div 256 = uint a * 65536 + uint b * 256 + uint c"
    "v4_number (IPv4 a b c d) div 65536 = uint a * 256 + uint b"
    "v4_number (IPv4 a b c d) div 1048576 = uint a * 16 + uint b div 16"
    "v4_number (IPv4 a b c d) div 4194304 = uint a * 4 + uint b div 64"
    "v4_number (IPv4 a b c d) div 16777216 = uint a"
    "v4_number (IPv4 a b c d) div 536870912 = uint a div 32"
proof -
  have split: "v4_number (IPv4 a b c d) div (m * n) = v4_number (IPv4 a b c d) div m div n"
    if "0 \<le> n" for m n
    using that by (rule zdiv_zmult2_eq)
  have "v4_number (IPv4 a b c d) = (uint a * 65536 + uint b * 256 + uint c) * 256 + uint d"
    by (simp add: v4_number_def)
  then show one: "v4_number (IPv4 a b c d) div 256 = uint a * 65536 + uint b * 256 + uint c"
    by (simp only: low_digit uint_u8)
  have "uint a * 65536 + uint b * 256 + uint c = (uint a * 256 + uint b) * 256 + uint c" by simp
  then show two: "v4_number (IPv4 a b c d) div 65536 = uint a * 256 + uint b"
    using split [of 256 256] one by (simp only: low_digit uint_u8) simp
  have high: "uint a * 256 + uint b = uint a * 16 * 16 + uint b" by simp
  show three: "v4_number (IPv4 a b c d) div 1048576 = uint a * 16 + uint b div 16"
    using split [of 16 65536] two by (simp add: high)
  have "(uint a * 16 + uint b div 16) div 4 = uint a * 4 + uint b div 16 div 4"
    using div_mult_self3 [of 4 "uint a * 4" "uint b div 16"] by simp
  then show four: "v4_number (IPv4 a b c d) div 4194304 = uint a * 4 + uint b div 64"
    using split [of 4 1048576] three zdiv_zmult2_eq [of 4 "uint b" 16] by simp
  have "v4_number (IPv4 a b c d) div 16777216 = (uint a * 256 + uint b) div 256"
    using split [of 256 65536] two by simp
  then show five: "v4_number (IPv4 a b c d) div 16777216 = uint a"
    by (simp only: low_digit uint_u8)
  show "v4_number (IPv4 a b c d) div 536870912 = uint a div 32"
    using split [of 32 16777216] five by simp
qed

lemma masked_octets: "list_all (\<lambda>n. (and n 192 = 64) = (n div 64 = 1)) [0..255::int]"
  by code_simp

lemma masked_shared: "and (b :: u8) 0xc0 = 64 \<longleftrightarrow> uint b div 64 = 1"
proof -
  have "and b 0xc0 = 64 \<longleftrightarrow> uint (and b 0xc0) = uint (64 :: u8)" by (simp only: word_uint_eq_iff)
  also have "\<dots> \<longleftrightarrow> and (uint b) 192 = 64" by (simp add: uint_and)
  also have "\<dots> \<longleftrightarrow> uint b div 64 = 1"
    using masked_octets uint_u8 [of b] by (simp add: list_all_iff)
  finally show ?thesis .
qed

lemma v4_ranges:
  "is_blocked_v4 (IPv4 a b c d) \<longleftrightarrow> list_ex (v4_in_cidr (IPv4 a b c d)) v4_blocked_ranges"
proof -
  note bounds = uint_u8 [of a] uint_u8 [of b] uint_u8 [of c]
  have cidrs: "list_ex (v4_in_cidr (IPv4 a b c d)) v4_blocked_ranges \<longleftrightarrow>
      uint a = 0 \<or> uint a = 10 \<or> uint a * 4 + uint b div 64 = 401 \<or> uint a = 127
        \<or> uint a * 256 + uint b = 43518 \<or> uint a * 16 + uint b div 16 = 2753
        \<or> uint a * 65536 + uint b * 256 + uint c = 12582912 \<or> uint a * 256 + uint b = 49320
        \<or> uint a div 32 = 7"
    unfolding v4_blocked_ranges_def v4_in_cidr_def by (simp add: u8_number)
  have octets: "is_blocked_v4 (IPv4 a b c d) \<longleftrightarrow> uint a = 127
      \<or> (uint a = 10 \<or> uint a = 172 \<and> 16 \<le> uint b \<and> uint b \<le> 31 \<or> uint a = 192 \<and> uint b = 168)
      \<or> uint a = 169 \<and> uint b = 254 \<or> uint a = 100 \<and> uint b div 64 = 1
      \<or> uint a = 192 \<and> uint b = 0 \<and> uint c = 0 \<or> uint a = 0 \<or> 224 \<le> uint a"
    by (simp add: net_consts masked_shared) (simp add: word_uint_eq_iff word_le_def)
  have quarter: "0 \<le> uint b div 64" "uint b div 64 < 4" "0 \<le> uint b div 16" "uint b div 16 < 16"
    using bounds by (simp_all add: pos_imp_zdiv_nonneg_iff)
  have shared: "uint a * 4 + uint b div 64 = 401 \<longleftrightarrow> uint a = 100 \<and> uint b div 64 = 1"
    using digits_eq [of "uint b div 64" 4 1 "uint a" 100] quarter by simp
  have link: "uint a * 256 + uint b = 43518 \<longleftrightarrow> uint a = 169 \<and> uint b = 254"
    using digits_eq [of "uint b" 256 254 "uint a" 169] bounds by simp
  have inner: "uint a * 256 + uint b = 49320 \<longleftrightarrow> uint a = 192 \<and> uint b = 168"
    using digits_eq [of "uint b" 256 168 "uint a" 192] bounds by simp
  have half: "uint b div 16 = 1 \<longleftrightarrow> 16 \<le> uint b \<and> uint b \<le> 31" by presburger
  have twelve: "uint a * 16 + uint b div 16 = 2753 \<longleftrightarrow> uint a = 172 \<and> 16 \<le> uint b \<and> uint b \<le> 31"
    using digits_eq [of "uint b div 16" 16 1 "uint a" 172] quarter half by simp
  have "uint a * 65536 + uint b * 256 + uint c = 12582912 \<longleftrightarrow> uint a * 256 + uint b = 49152 \<and> uint c = 0"
    using digits_eq [of "uint c" 256 0 "uint a * 256 + uint b" 49152] bounds by (simp add: algebra_simps)
  then have protocol: "uint a * 65536 + uint b * 256 + uint c = 12582912 \<longleftrightarrow> uint a = 192 \<and> uint b = 0 \<and> uint c = 0"
    using digits_eq [of "uint b" 256 0 "uint a" 192] bounds by simp
  have upper: "uint a div 32 = 7 \<longleftrightarrow> 224 \<le> uint a" using bounds(2) by presburger
  show ?thesis unfolding cidrs octets shared link inner twelve protocol upper by blast
qed

lemma blocked_addresses_are_the_ranges_facts:
  "is_blocked (AddrV4 x) \<longleftrightarrow> list_ex (v4_in_cidr x) v4_blocked_ranges"
  "is_blocked (AddrV6 (IPv6 0 0 0 0 0 0xffff high low)) = is_blocked (AddrV4 (join_v4 high low))"
  "is_blocked (AddrV6 (IPv6 0 0 0 0 0 0 high low)) = is_blocked (AddrV4 (join_v4 high low))"
  "is_blocked (AddrV6 (IPv6 0x64 0xff9b 0 0 0 0 high low)) = is_blocked (AddrV4 (join_v4 high low))"
  "is_blocked (AddrV6 (IPv6 0x2002 high low s t u v w)) = is_blocked (AddrV4 (join_v4 high low))"
proof -
  show "is_blocked (AddrV4 x) \<longleftrightarrow> list_ex (v4_in_cidr x) v4_blocked_ranges"
    by (cases x) (simp only: is_blocked.simps v4_ranges)
qed (simp_all add: net_consts)

text \<open>The octet comparisons refuse exactly the nine blocked ranges of the IPv4 registry, and every
  IPv6 spelling that routes to an IPv4 address (mapped, compatible, NAT64, 6to4) is refused exactly
  when that address is.\<close>

theorem blocked_addresses_are_the_ranges:
  "(is_blocked (AddrV4 x) \<longleftrightarrow> list_ex (v4_in_cidr x) v4_blocked_ranges)
    \<and> is_blocked (AddrV6 (IPv6 0 0 0 0 0 0xffff high low)) = is_blocked (AddrV4 (join_v4 high low))
    \<and> is_blocked (AddrV6 (IPv6 0 0 0 0 0 0 high low)) = is_blocked (AddrV4 (join_v4 high low))
    \<and> is_blocked (AddrV6 (IPv6 0x64 0xff9b 0 0 0 0 high low)) = is_blocked (AddrV4 (join_v4 high low))
    \<and> is_blocked (AddrV6 (IPv6 0x2002 high low s t u v w)) = is_blocked (AddrV4 (join_v4 high low))"
  by (intro conjI blocked_addresses_are_the_ranges_facts)

end
