(* ===== verification/Placeholders.thy ===== *)
theory Placeholders
  imports Scrub Net Texts
begin

text \<open>
  The credential placeholder grammar (\<open>afr_egress/src/placeholder/mod.rs\<close>), what the guard reads of
  a parsed URL, and the host an allowlist entry names (\<open>afr_egress/src/allowlist.rs\<close>).  Text is its
  UTF-8 bytes; the URL parser is a library's, so it is an argument wherever it is called.
\<close>

section \<open>Characters\<close>

text \<open>\<open>t.chars().take(n)\<close>, on the bytes.\<close>

fun take_chars :: "nat \<Rightarrow> string \<Rightarrow> string" where
  "take_chars n [] = []"
| "take_chars n (c # cs) = (if char_starts c then (case n of 0 \<Rightarrow> [] | Suc m \<Rightarrow> c # take_chars m cs)
     else c # take_chars n cs)"

section \<open>URLs\<close>

text \<open>\<open>url::Host\<close> and what the code reads of a \<open>Url\<close>; \<open>url_base\<close> is its serialization before the
  fragment, and an opaque origin is \<open>None\<close>.\<close>

datatype url_host = HostDomain string | HostV4 ipv4 | HostV6 ipv6

record url =
  url_base :: string
  url_fragment :: "string option"
  url_scheme :: string
  url_username :: string
  url_password :: "string option"
  url_host :: "url_host option"
  url_host_str :: "string option"
  url_port_or_default :: "nat option"
  url_path :: string
  url_query :: "string option"
  url_origin :: "(string \<times> url_host \<times> nat) option"

definition url_str :: "url \<Rightarrow> string" where
  "url_str u = url_base u @ (case url_fragment u of None \<Rightarrow> [] | Some f \<Rightarrow> CHR ''#'' # f)"

definition host_text :: "url \<Rightarrow> string" where
  "host_text u = (case url_host_str u of None \<Rightarrow> [] | Some h \<Rightarrow> h)"

definition same_origin :: "url \<Rightarrow> url \<Rightarrow> bool" where
  "same_origin a b \<longleftrightarrow> url_origin a \<noteq> None \<and> url_origin a = url_origin b"

text \<open>\<open>Display\<close> of an address literal: IPv6 with its first longest run of two or more zero segments
  written \<open>::\<close>, an IPv4-mapped address with its octets.\<close>

fun v4_text :: "ipv4 \<Rightarrow> string" where
  "v4_text (IPv4 a b c d) = dec_string (unat a) @ ''.'' @ dec_string (unat b) @ ''.'' @ dec_string (unat c)
     @ ''.'' @ dec_string (unat d)"

definition hex_digit :: "nat \<Rightarrow> char" where "hex_digit n = ''0123456789abcdef'' ! n"

fun hex_text :: "nat \<Rightarrow> string" where
  "hex_text n = (if n < 16 then [hex_digit n] else hex_text (n div 16) @ [hex_digit (n mod 16)])"

declare hex_text.simps [simp del]

fun segments_text :: "u16 list \<Rightarrow> string" where
  "segments_text [] = []"
| "segments_text [s] = hex_text (unat s)"
| "segments_text (s # ss) = hex_text (unat s) @ '':'' @ segments_text ss"

fun zero_span :: "nat \<Rightarrow> u16 list \<Rightarrow> nat \<times> nat \<Rightarrow> nat \<times> nat \<Rightarrow> nat \<times> nat" where
  "zero_span i [] current longest = longest"
| "zero_span i (s # ss) (start, len) longest = (if s = 0
     then (let here = (if len = 0 then i else start, len + 1)
       in zero_span (i + 1) ss here (if snd longest < len + 1 then here else longest))
     else zero_span (i + 1) ss (0, 0) longest)"

fun v6_text :: "ipv6 \<Rightarrow> string" where
  "v6_text (IPv6 a b c d e f g h) =
     (if a = 0 \<and> b = 0 \<and> c = 0 \<and> d = 0 \<and> e = 0 \<and> f = 0xffff then ''::ffff:'' @ v4_text (join_v4 g h)
      else (case zero_span 0 [a, b, c, d, e, f, g, h] (0, 0) (0, 0) of (start, len) \<Rightarrow>
        if 1 < len then segments_text (take start [a, b, c, d, e, f, g, h]) @ ''::''
            @ segments_text (drop (start + len) [a, b, c, d, e, f, g, h])
        else segments_text [a, b, c, d, e, f, g, h]))"

fun spelled :: "url_host \<Rightarrow> string" where
  "spelled (HostDomain d) = to_ascii_lowercase d"
| "spelled (HostV4 a) = v4_text a"
| "spelled (HostV6 a) = v6_text a"

definition scheme_separator :: string where "scheme_separator = ''://''"
definition assumed_scheme :: string where "assumed_scheme = ''https://''"

definition allowlist_host :: "(string \<Rightarrow> url option) \<Rightarrow> string \<Rightarrow> string option" where
  "allowlist_host parse entry =
     map_option spelled (Option.bind (if contains_text scheme_separator entry then parse entry
       else parse (assumed_scheme @ entry)) url_host)"

section \<open>Placeholders\<close>

definition secret_opening :: string where "secret_opening = ''${secrets.''"

type_synonym secret_ref = "string \<times> string"

definition name_start :: "char \<Rightarrow> bool" where
  "name_start c \<longleftrightarrow> CHR ''A'' \<le> c \<and> c \<le> CHR ''Z'' \<or> CHR ''a'' \<le> c \<and> c \<le> CHR ''z'' \<or> c = CHR ''_''"

definition name_char :: "char \<Rightarrow> bool" where
  "name_char c \<longleftrightarrow> name_start c \<or> is_ascii_digit c"

text \<open>\<open>[A-Za-z_][A-Za-z0-9_]*\<close> from the head of the text; what follows in the grammar is no name
  character, so the longest run is the only match.\<close>

definition grammar_name :: "string \<Rightarrow> (string \<times> string) option" where
  "grammar_name t = (case takeWhile name_char t of [] \<Rightarrow> None
     | c # cs \<Rightarrow> if name_start c then Some (c # cs, dropWhile name_char t) else None)"

definition grammar_at :: "string \<Rightarrow> (secret_ref \<times> string) option" where
  "grammar_at t = Option.bind (strip_prefix secret_opening t) (\<lambda>t1.
     Option.bind (grammar_name t1) (\<lambda>(name, t2).
     Option.bind (strip_prefix ''.'' t2) (\<lambda>t3.
     Option.bind (grammar_name t3) (\<lambda>(fld, t4).
     map_option (\<lambda>rest. ((name, fld), rest)) (strip_prefix ''}'' t4)))))"

lemma grammar_name_Some: "grammar_name t = Some (n, r) \<Longrightarrow> t = n @ r \<and> n \<noteq> []"
  by (auto simp: grammar_name_def split: list.splits if_splits)

definition placeholder_text :: "secret_ref \<Rightarrow> string" where
  "placeholder_text r = secret_opening @ fst r @ ''.'' @ snd r @ ''}''"

lemma grammar_at_Some: "grammar_at t = Some (r, rest) \<Longrightarrow> t = placeholder_text r @ rest"
  by (auto simp: grammar_at_def bind_eq_Some_conv strip_prefix_Some placeholder_text_def
      dest!: grammar_name_Some)

lemma grammar_at_shorter: "grammar_at t = Some (r, rest) \<Longrightarrow> length rest < length t"
  by (drule grammar_at_Some) (simp add: placeholder_text_def)

text \<open>The pattern's successive matches, with the bytes between them.\<close>

datatype piece = Plain char | Placed string string

function pieces :: "string \<Rightarrow> piece list" where
  "pieces t = (case grammar_at t of
     Some ((name, fld), rest) \<Rightarrow> Placed name fld # pieces rest
   | None \<Rightarrow> (case t of [] \<Rightarrow> [] | c # cs \<Rightarrow> Plain c # pieces cs))"
  by pat_completeness auto
termination by (relation "measure length") (auto dest: grammar_at_shorter)

declare pieces.simps [simp del]

fun piece_ref :: "piece \<Rightarrow> secret_ref option" where
  "piece_ref (Plain c) = None"
| "piece_ref (Placed name fld) = Some (name, fld)"

fun piece_text :: "piece \<Rightarrow> string" where
  "piece_text (Plain c) = [c]"
| "piece_text (Placed name fld) = placeholder_text (name, fld)"

definition captures :: "string \<Rightarrow> secret_ref list" where "captures t = List.map_filter piece_ref (pieces t)"

text \<open>\<open>text.matches(OPENING).count()\<close>.\<close>

function opening_count :: "string \<Rightarrow> nat" where
  "opening_count t = (case strip_prefix secret_opening t of Some rest \<Rightarrow> Suc (opening_count rest)
     | None \<Rightarrow> (case t of [] \<Rightarrow> 0 | c # cs \<Rightarrow> opening_count cs))"
  by pat_completeness auto
termination by (relation "measure length") (auto simp: strip_prefix_Some secret_opening_def)

declare opening_count.simps [simp del]

definition mentions :: "string \<Rightarrow> bool" where "mentions t = contains_text secret_opening t"

definition parse_secrets :: "string \<Rightarrow> secret_ref list option" where
  "parse_secrets t = (if length (captures t) = opening_count t then Some (captures t) else None)"

text \<open>The URL whose whole host is a placeholder: the credential and what follows, on one line.\<close>

definition host_url :: "string \<Rightarrow> (string \<times> string) option" where
  "host_url t = Option.bind (strip_prefix (assumed_scheme @ secret_opening) t) (\<lambda>t1.
     Option.bind (grammar_name t1) (\<lambda>(name, t2).
     Option.bind (strip_prefix ''.host}'' t2) (\<lambda>rest.
       if rest = [] \<or> hd rest \<in> set ''/?#:'' \<and> CHR 0x0A \<notin> set (tl rest) then Some (name, rest) else None)))"

definition substitute :: "string \<Rightarrow> (secret_ref \<Rightarrow> string option) \<Rightarrow> string" where
  "substitute t val = concat (map (\<lambda>p. case p of Plain c \<Rightarrow> [c]
     | Placed name fld \<Rightarrow> (case val (name, fld) of Some v \<Rightarrow> v | None \<Rightarrow> piece_text p)) (pieces t))"

section \<open>Laws of the grammar\<close>

lemma pieces_text: "concat (map piece_text (pieces t)) = t"
  by (induction t rule: pieces.induct)
    (subst pieces.simps, auto split: option.splits list.splits dest: grammar_at_Some)

lemma captures_Cons:
  "captures t = (case grammar_at t of Some (r, rest) \<Rightarrow> r # captures rest
     | None \<Rightarrow> (case t of [] \<Rightarrow> [] | c # cs \<Rightarrow> captures cs))"
  unfolding captures_def
  by (subst pieces.simps) (auto simp: map_filter_simps split: option.splits list.splits)

lemma grammar_at_opening: "grammar_at t \<noteq> None \<Longrightarrow> strip_prefix secret_opening t \<noteq> None"
  by (cases "strip_prefix secret_opening t") (simp_all add: grammar_at_def)

lemma no_opening: "\<not> mentions t \<Longrightarrow> captures t = [] \<and> opening_count t = 0"
proof (induction t)
  case Nil
  then show ?case
    by (subst captures_Cons, subst opening_count.simps) (simp add: grammar_at_def strip_prefix_def secret_opening_def)
next
  case (Cons c cs)
  then have "strip_prefix secret_opening (c # cs) = None" "\<not> mentions cs"
    by (auto simp: mentions_def strip_prefix_def)
  with Cons.IH show ?case
    by (subst captures_Cons, subst opening_count.simps) (simp add: grammar_at_def)
qed

lemma opening_counted: "mentions t \<Longrightarrow> 0 < opening_count t"
proof (induction t)
  case Nil
  then show ?case by (simp add: mentions_def secret_opening_def)
next
  case (Cons c cs)
  then show ?case
    by (subst opening_count.simps) (auto simp: mentions_def strip_prefix_def split: option.splits)
qed

lemma parse_secrets_Nil: "parse_secrets t = Some [] \<longleftrightarrow> \<not> mentions t"
proof
  assume "parse_secrets t = Some []"
  then show "\<not> mentions t" using opening_counted [of t] by (auto simp: parse_secrets_def split: if_splits)
qed (simp add: parse_secrets_def no_opening)

lemma substitute_plain: "\<not> mentions t \<Longrightarrow> substitute t val = t"
proof -
  assume "\<not> mentions t"
  then have "captures t = []" by (simp add: no_opening)
  then have plain: "\<exists>c. p = Plain c" if "p \<in> set (pieces t)" for p
    using that by (cases p) (force simp: captures_def List.map_filter_def filter_empty_conv)+
  have "substitute t val = concat (map piece_text (pieces t))"
    unfolding substitute_def by (rule arg_cong [where f = concat], rule map_cong) (auto dest!: plain)
  then show ?thesis by (simp add: pieces_text)
qed

lemma captures_placed: "(n, f) \<in> set (captures t) \<longleftrightarrow> Placed n f \<in> set (pieces t)"
proof -
  have "piece_ref p = Some (n, f) \<longleftrightarrow> p = Placed n f" for p by (cases p) auto
  then show ?thesis by (force simp: captures_def List.map_filter_def)
qed

lemma substitute_cong:
  "(\<And>r. r \<in> set (captures t) \<Longrightarrow> val r = val' r) \<Longrightarrow> substitute t val = substitute t val'"
  unfolding substitute_def
  by (rule arg_cong [where f = concat], rule map_cong) (auto simp: captures_placed split: piece.splits)

end
