(* ===== verification/Origins.thy ===== *)
theory Origins
  imports Placeholders
begin

text \<open>
  The daemon's request rules for one host as the runner evaluates them (\<open>afr_egress/src/origin/mod.rs\<close>
  over the rules of \<open>afd_wire/src/policy/mod.rs\<close>).  How a body's text reads as JSON is the parser's:
  \<open>read\<close> gives the entries of a body that is an object, in the order written and repeats included.
\<close>

datatype http_method = HttpGet | HttpHead | HttpPost | HttpPatch
datatype path_match = ExactPath | PrefixPath

record json_field_rule =
  locked_name :: string
  string_value :: "string option"
  boolean_value :: "bool option"

record request_rule =
  request_method :: http_method
  request_path :: string
  request_path_match :: path_match
  json_fields :: "json_field_rule list"
  permitted_fields :: "string list option"

record origin_policy =
  origin_host :: string
  credential_names :: "string list"
  origin_requests :: "request_rule list"

type_synonym entries = "(string \<times> string json) list"
type_synonym reader = "string \<Rightarrow> entries option"

definition https_port :: nat where "https_port = 443"
definition encoded_separators :: "string list" where "encoded_separators = [''%2e'', ''%2f'', ''%5c'']"
definition dot_segments :: "string list" where "dot_segments = [''.'', ''..'']"
definition key_echo_max :: nat where "key_echo_max = 64"

text \<open>\<open>FieldsVisitor\<close>: the entries into a map, refusing the second of two equal keys.\<close>

fun visit_map :: "entries \<Rightarrow> entries \<Rightarrow> entries option" where
  "visit_map acc [] = Some acc"
| "visit_map acc ((k, v) # es) = (if map_of acc k \<noteq> None then None else visit_map (acc @ [(k, v)]) es)"

definition body_fields :: "reader \<Rightarrow> string option \<Rightarrow> entries option" where
  "body_fields read body = Option.bind (Option.bind body read) (visit_map [])"

text \<open>What a request carries beyond its method and path.\<close>

record sent_parts =
  sent_query :: bool
  sent_body :: bool
  sent_fields :: "entries option"

definition trusted_path :: "url \<Rightarrow> bool" where
  "trusted_path u \<longleftrightarrow> url_port_or_default u = Some https_port
     \<and> CHR 0x5C \<notin> set (url_path u)
     \<and> \<not> list_ex (\<lambda>esc. contains_text esc (to_ascii_lowercase (url_path u))) encoded_separators
     \<and> \<not> list_ex (\<lambda>seg. seg \<in> set dot_segments) (split_on CHR ''/'' (url_path u))"

fun method_of :: "http_method \<Rightarrow> string" where
  "method_of HttpGet = ''GET''"
| "method_of HttpHead = ''HEAD''"
| "method_of HttpPost = ''POST''"
| "method_of HttpPatch = ''PATCH''"

fun path_admits :: "path_match \<Rightarrow> string \<Rightarrow> string \<Rightarrow> bool" where
  "path_admits ExactPath rule path \<longleftrightarrow> path = rule"
| "path_admits PrefixPath rule path \<longleftrightarrow> take (length rule) path = rule"

definition field_admits :: "json_field_rule \<Rightarrow> entries \<Rightarrow> bool" where
  "field_admits locked fs \<longleftrightarrow> (case map_of fs (locked_name locked) of None \<Rightarrow> False
     | Some v \<Rightarrow> (case (string_value locked, boolean_value locked) of
         (Some expected, None) \<Rightarrow> v = JString expected
       | (None, Some expected) \<Rightarrow> v = JBool expected
       | _ \<Rightarrow> False))"

definition closed_rule :: "request_rule \<Rightarrow> bool" where
  "closed_rule rule \<longleftrightarrow> permitted_fields rule \<noteq> None"

definition named_key :: "request_rule \<Rightarrow> string \<Rightarrow> bool" where
  "named_key rule key \<longleftrightarrow> list_ex (\<lambda>locked. locked_name locked = key) (json_fields rule)
     \<or> (case permitted_fields rule of None \<Rightarrow> False | Some ps \<Rightarrow> key \<in> set ps)"

definition sends_only_named :: "request_rule \<Rightarrow> sent_parts \<Rightarrow> bool" where
  "sends_only_named rule sent \<longleftrightarrow> \<not> sent_query sent \<and> (case (sent_body sent, sent_fields sent) of
     (False, _) \<Rightarrow> True
   | (True, Some fs) \<Rightarrow> list_all (named_key rule) (map fst fs)
   | (True, None) \<Rightarrow> False)"

definition rule_admits :: "request_rule \<Rightarrow> string \<Rightarrow> string \<Rightarrow> sent_parts \<Rightarrow> bool" where
  "rule_admits rule meth path sent \<longleftrightarrow> meth = method_of (request_method rule)
     \<and> path_admits (request_path_match rule) (request_path rule) path
     \<and> list_all (\<lambda>locked. case sent_fields sent of None \<Rightarrow> False | Some fs \<Rightarrow> field_admits locked fs) (json_fields rule)
     \<and> (\<not> closed_rule rule \<or> sends_only_named rule sent)"

definition origin_rules_admit :: "reader \<Rightarrow> origin_policy \<Rightarrow> string \<Rightarrow> url \<Rightarrow> string option \<Rightarrow> bool" where
  "origin_rules_admit read origin meth u body \<longleftrightarrow> trusted_path u
     \<and> list_ex (\<lambda>rule. rule_admits rule meth (url_path u)
         \<lparr>sent_query = url_query u \<noteq> None, sent_body = body \<noteq> None, sent_fields = body_fields read body\<rparr>)
       (origin_requests origin)"

text \<open>Why a closed rule refused: the query, or the first key it does not list, cut short.\<close>

datatype closed_why = QueryRefused | KeyRefused string

definition closed_refusal :: "reader \<Rightarrow> origin_policy \<Rightarrow> string \<Rightarrow> url \<Rightarrow> string option \<Rightarrow> closed_why option" where
  "closed_refusal read origin meth u body = (if \<not> trusted_path u then None else
     Option.bind (List.find (\<lambda>rule. meth = method_of (request_method rule)
         \<and> path_admits (request_path_match rule) (request_path rule) (url_path u) \<and> closed_rule rule)
       (origin_requests origin)) (\<lambda>rule.
     if url_query u \<noteq> None then Some QueryRefused
     else Option.bind (body_fields read body) (\<lambda>fs.
       map_option (\<lambda>key. KeyRefused (take_chars key_echo_max key))
         (List.find (\<lambda>key. \<not> named_key rule key) (map fst fs)))))"

section \<open>What a rule bounds\<close>

lemma visit_map_Some:
  "visit_map acc es = Some fs \<Longrightarrow> distinct (map fst acc) \<Longrightarrow> fs = acc @ es \<and> distinct (map fst (acc @ es))"
  by (induction acc es arbitrary: fs rule: visit_map.induct) (auto split: if_splits simp: map_of_eq_None_iff)

text \<open>A body's fields are its entries as written, no key twice.\<close>

lemma body_fields_Some:
  "body_fields read body = Some fs \<Longrightarrow> \<exists>b. body = Some b \<and> read b = Some fs \<and> distinct (map fst fs)"
  by (auto simp: body_fields_def bind_eq_Some_conv dest!: visit_map_Some)

lemma field_admits_value:
  assumes "field_admits locked fs"
  shows "\<exists>v. (locked_name locked, v) \<in> set fs \<and>
     (string_value locked = Some s \<longrightarrow> v = JString s) \<and> (boolean_value locked = Some b \<longrightarrow> v = JBool b)"
  using assms by (auto simp: field_admits_def split: option.splits dest: map_of_SomeD)

lemma sends_only_named_keys:
  assumes "sends_only_named rule \<lparr>sent_query = q, sent_body = body \<noteq> None, sent_fields = body_fields read body\<rparr>"
  shows "\<not> q" "body = Some b \<Longrightarrow> \<exists>fs. read b = Some fs \<and> distinct (map fst fs) \<and> (\<forall>k \<in> fst ` set fs. named_key rule k)"
  using assms by (auto simp: sends_only_named_def list_all_iff split: option.splits dest: body_fields_Some)

lemma named_key_lists:
  "permitted_fields rule = Some ps \<Longrightarrow> named_key rule k \<longleftrightarrow> k \<in> locked_name ` set (json_fields rule) \<union> set ps"
  by (auto simp: named_key_def list_ex_iff)

text \<open>A host's rules admit a request only when one of them bounds all of it: the path is on port
  443 with nothing a server could decode into a traversal, the method and path are the rule's, every
  locked field is in the body with its value, and under a rule that lists its fields there is no query
  and the body, when there is one, is an object whose keys are each written once and each listed.\<close>

theorem admitted_body_is_bounded:
  assumes "origin_rules_admit read origin meth u body"
  shows "trusted_path u \<and> (\<exists>rule \<in> set (origin_requests origin). meth = method_of (request_method rule)
    \<and> path_admits (request_path_match rule) (request_path rule) (url_path u)
    \<and> (\<forall>locked \<in> set (json_fields rule). \<exists>b fs v. body = Some b \<and> read b = Some fs
        \<and> distinct (map fst fs) \<and> (locked_name locked, v) \<in> set fs
        \<and> (\<forall>s. string_value locked = Some s \<longrightarrow> v = JString s) \<and> (\<forall>t. boolean_value locked = Some t \<longrightarrow> v = JBool t))
    \<and> (\<forall>ps. permitted_fields rule = Some ps \<longrightarrow> url_query u = None \<and> (\<forall>b. body = Some b \<longrightarrow>
       (\<exists>fs. read b = Some fs \<and> distinct (map fst fs)
         \<and> fst ` set fs \<subseteq> locked_name ` set (json_fields rule) \<union> set ps))))"
proof -
  let ?sent = "\<lparr>sent_query = url_query u \<noteq> None, sent_body = body \<noteq> None, sent_fields = body_fields read body\<rparr>"
  from assms obtain rule where rule: "rule \<in> set (origin_requests origin)" "trusted_path u"
    "rule_admits rule meth (url_path u) ?sent"
    by (auto simp: origin_rules_admit_def list_ex_iff)
  have locked: "\<exists>b fs v. body = Some b \<and> read b = Some fs
       \<and> distinct (map fst fs) \<and> (locked_name l, v) \<in> set fs
       \<and> (\<forall>s. string_value l = Some s \<longrightarrow> v = JString s) \<and> (\<forall>t. boolean_value l = Some t \<longrightarrow> v = JBool t)"
    if "l \<in> set (json_fields rule)" for l
  proof -
    from that rule(3) obtain fs where fs: "body_fields read body = Some fs" "field_admits l fs"
      by (auto simp: rule_admits_def list_all_iff split: option.splits)
    then show ?thesis
      by (auto simp: field_admits_def split: option.splits dest!: body_fields_Some map_of_SomeD)
  qed
  have closed: "url_query u = None \<and> (\<forall>b. body = Some b \<longrightarrow>
       (\<exists>fs. read b = Some fs \<and> distinct (map fst fs)
         \<and> fst ` set fs \<subseteq> locked_name ` set (json_fields rule) \<union> set ps))"
    if "permitted_fields rule = Some ps" for ps
  proof -
    have "sends_only_named rule ?sent"
      using rule(3) that by (simp add: rule_admits_def closed_rule_def)
    from sends_only_named_keys [OF this] show ?thesis
      unfolding named_key_lists [OF that] by (simp add: subset_iff) blast
  qed
  show ?thesis using rule locked closed by (auto simp: rule_admits_def)
qed

end
