(* ===== verification/Outbound.thy ===== *)
theory Outbound
  imports Origins
begin

text \<open>
  The runner's outbound guard: whether a tool's request may leave (\<open>afr_egress/src/admission/mod.rs\<close>),
  where a placeholder's value comes from (\<open>vault/mod.rs\<close>) and the request with its credentials in
  place (\<open>egress/mod.rs\<close>).  The URL parser, the JSON reader, the header types, the clock and the
  daemon's mint verb are arguments; the last two thread the outside world they read.
\<close>

section \<open>Errors\<close>

datatype egress_error = InvalidUrl | InvalidHeader string | HttpsRequired | MethodNotAllowed string
  | HostNotAllowed string | AddressNotAllowed string | PlacementNotAllowed string
  | CredentialHostNotAllowed string string | SecretNotFound string string
  | SecretFieldNotFound string string "string list"
  | RequestPolicyNotAllowed string string string "closed_why option"
  | CredentialMintRefused string string | Unmaskable | UpstreamUnreachable string string

datatype refusal = RefusedInvalidUrl | RefusedInvalidHeader | RefusedHttpsRequired | RefusedMethod
  | RefusedHost | RefusedAddress | RefusedPlacement | RefusedCredentialHost | RefusedSecretNotFound
  | RefusedRequestPolicy | RefusedMint | RefusedUnreachable

fun refusal_of :: "egress_error \<Rightarrow> refusal" where
  "refusal_of InvalidUrl = RefusedInvalidUrl"
| "refusal_of (InvalidHeader _) = RefusedInvalidHeader"
| "refusal_of HttpsRequired = RefusedHttpsRequired"
| "refusal_of (MethodNotAllowed _) = RefusedMethod"
| "refusal_of (HostNotAllowed _) = RefusedHost"
| "refusal_of (AddressNotAllowed _) = RefusedAddress"
| "refusal_of (PlacementNotAllowed _) = RefusedPlacement"
| "refusal_of (CredentialHostNotAllowed _ _) = RefusedCredentialHost"
| "refusal_of (SecretNotFound _ _) = RefusedSecretNotFound"
| "refusal_of (SecretFieldNotFound _ _ _) = RefusedSecretNotFound"
| "refusal_of (RequestPolicyNotAllowed _ _ _ _) = RefusedRequestPolicy"
| "refusal_of (CredentialMintRefused _ _) = RefusedMint"
| "refusal_of Unmaskable = RefusedMint"
| "refusal_of (UpstreamUnreachable _ _) = RefusedUnreachable"

section \<open>Policy and draft\<close>

datatype http_egress = RestrictedEgress | PublicEgress

record network_policy =
  http_egress :: http_egress
  package_manager_domains :: bool
  net_allow :: "string list"
  read_only :: bool
  read_post_paths :: "string list"

definition package_manager_hosts :: "string list" where
  "package_manager_hosts = [''registry.npmjs.org'', ''pypi.org'', ''files.pythonhosted.org'',
     ''static.crates.io'', ''crates.io'', ''index.crates.io'', ''proxy.golang.org'', ''sum.golang.org'']"

record mintable =
  mintable_name :: string
  mintable_integration :: string

record admission =
  adm_network :: network_policy
  adm_origins :: "origin_policy list"
  adm_mintable :: "mintable list"
  adm_statics :: statics

definition admission_new :: "network_policy \<Rightarrow> origin_policy list \<Rightarrow> mintable list \<Rightarrow> string json option \<Rightarrow> admission" where
  "admission_new network origins mintables secrets_map = \<lparr>adm_network = network, adm_origins = origins,
     adm_mintable = mintables, adm_statics = statics_new secrets_map\<rparr>"

datatype placement = AuthorizationOnly | Nowhere

record draft =
  draft_method :: string
  draft_url :: string
  draft_headers :: "(string \<times> string) list"
  draft_body :: "string option"
  draft_placement :: placement

record admitted =
  admitted_method :: string
  admitted_url :: url
  admitted_headers :: "(string \<times> string) list"
  admitted_body :: "string option"

definition sendable_methods :: "string list" where
  "sendable_methods = [''GET'', ''HEAD'', ''POST'', ''PUT'', ''PATCH'', ''DELETE'', ''OPTIONS'']"
definition read_methods :: "string list" where "read_methods = [''GET'', ''HEAD'']"
definition https :: string where "https = ''https''"
definition in_url :: string where "in_url = ''a placeholder in the URL, or credentials in its userinfo''"
definition in_body :: string where "in_body = ''a placeholder in the body''"
definition authorization :: string where "authorization = ''authorization''"
definition host_header :: string where "host_header = ''host''"

section \<open>Admission, step by step\<close>

definition mints :: "admission \<Rightarrow> string \<Rightarrow> mintable option" where
  "mints a name = List.find (\<lambda>m. mintable_name m = name) (adm_mintable a)"

definition unknown_secret :: "admission \<Rightarrow> secret_ref \<Rightarrow> egress_error" where
  "unknown_secret a r = (let found = (case mints a (fst r) of Some _ \<Rightarrow> Some [field_token]
       | None \<Rightarrow> statics_field_names (adm_statics a) (fst r))
     in case found of
       Some fs \<Rightarrow> if fs \<noteq> [] then SecretFieldNotFound (fst r) (snd r) (sort fs) else SecretNotFound (fst r) (snd r)
     | None \<Rightarrow> SecretNotFound (fst r) (snd r))"

definition sendable :: "string \<Rightarrow> (egress_error, string) result" where
  "sendable t = (let m = to_ascii_uppercase t in
     if m \<in> set sendable_methods then Inr m else Inl (MethodNotAllowed t))"

definition locate :: "(string \<Rightarrow> url option) \<Rightarrow> admission \<Rightarrow> string \<Rightarrow> placement \<Rightarrow> (egress_error, url) result" where
  "locate parse a t place = (let named = (case place of AuthorizationOnly \<Rightarrow> host_url t | Nowhere \<Rightarrow> None) in
     res_bind (case named of None \<Rightarrow> Inr None
       | Some (name, _) \<Rightarrow> (case statics_host (adm_statics a) name of
           None \<Rightarrow> Inl (unknown_secret a (name, field_host)) | Some h \<Rightarrow> Inr (Some h))) (\<lambda>host.
     let resolved = (case (named, host) of (Some (_, rest), Some h) \<Rightarrow> https @ ''://'' @ h @ rest | _ \<Rightarrow> t) in
     if mentions resolved then Inl (PlacementNotAllowed in_url)
     else res_bind (ok_or InvalidUrl (parse resolved)) (\<lambda>u.
       let host_kept = (case host of None \<Rightarrow> True | Some h \<Rightarrow>
             (case url_host_str u of None \<Rightarrow> False | Some parsed \<Rightarrow> eq_ignore_ascii_case parsed h)) in
       if url_scheme u \<noteq> https then Inl HttpsRequired
       else if url_username u \<noteq> [] \<or> url_password u \<noteq> None \<or> \<not> host_kept then Inl (PlacementNotAllowed in_url)
       else Inr u)))"

definition header_secrets :: "string \<Rightarrow> string \<Rightarrow> placement \<Rightarrow> (egress_error, secret_ref list) result" where
  "header_secrets name val place = (
     let carries = eq_ignore_ascii_case name authorization \<and> place = AuthorizationOnly;
         reserved = eq_ignore_ascii_case name host_header \<or> mentions name;
         misplaced = Inl (PlacementNotAllowed (''the '' @ name @ '' header as written''))
     in case parse_secrets val of
       Some found \<Rightarrow> if \<not> reserved \<and> (found = [] \<or> carries) then Inr found else misplaced
     | None \<Rightarrow> misplaced)"

definition placed :: "draft \<Rightarrow> (egress_error, secret_ref list) result" where
  "placed d = (if (case draft_body d of None \<Rightarrow> False | Some b \<Rightarrow> mentions b) then Inl (PlacementNotAllowed in_body)
     else res_bind (traverse (\<lambda>(name, val). header_secrets name val (draft_placement d)) (draft_headers d))
       (\<lambda>carried. Inr (concat carried)))"

definition admission_listed :: "(string \<Rightarrow> url option) \<Rightarrow> admission \<Rightarrow> url \<Rightarrow> string \<Rightarrow> (egress_error, unit) result" where
  "admission_listed parse a u host = (
     let named = (case url_host u of None \<Rightarrow> False
           | Some h \<Rightarrow> list_ex (\<lambda>entry. allowlist_host parse entry = Some (spelled h)) (net_allow (adm_network a)));
         public = http_egress (adm_network a) = PublicEgress;
         package = package_manager_domains (adm_network a) \<and> host \<in> set package_manager_hosts
     in if public \<or> package \<or> named then Inr () else Inl (HostNotAllowed host))"

definition blocked_literal :: "url \<Rightarrow> bool" where
  "blocked_literal u \<longleftrightarrow> (case url_host u of
     Some (HostV4 v) \<Rightarrow> is_blocked (AddrV4 v)
   | Some (HostV6 v) \<Rightarrow> is_blocked (AddrV6 v)
   | _ \<Rightarrow> False)"

definition url_reachable :: "url \<Rightarrow> string \<Rightarrow> (egress_error, unit) result" where
  "url_reachable u host = (if blocked_literal u then Inl (AddressNotAllowed host) else Inr ())"

definition origin_at :: "admission \<Rightarrow> string \<Rightarrow> origin_policy option" where
  "origin_at a host = List.find (\<lambda>o'. eq_ignore_ascii_case (origin_host o') host) (adm_origins a)"

definition credential_bound :: "admission \<Rightarrow> secret_ref \<Rightarrow> string \<Rightarrow> (egress_error, unit) result" where
  "credential_bound a r host = res_bind
     (case mints a (fst r) of
        Some _ \<Rightarrow> if snd r \<noteq> field_token then Inl (unknown_secret a r)
          else Inr (case origin_at a host of None \<Rightarrow> False | Some o' \<Rightarrow> fst r \<in> set (credential_names o'))
      | None \<Rightarrow> (case statics_field (adm_statics a) (fst r) (snd r) of
          None \<Rightarrow> Inl (unknown_secret a r)
        | Some _ \<Rightarrow> Inr (case statics_host (adm_statics a) (fst r) of
            None \<Rightarrow> False | Some b \<Rightarrow> eq_ignore_ascii_case b host)))
     (\<lambda>sent_here. if sent_here then Inr () else Inl (CredentialHostNotAllowed (fst r) host))"

definition origin_admits :: "reader \<Rightarrow> admission \<Rightarrow> string \<Rightarrow> url \<Rightarrow> string option \<Rightarrow> (egress_error, bool) result" where
  "origin_admits read a meth u body = (case origin_at a (host_text u) of
     None \<Rightarrow> Inr False
   | Some o' \<Rightarrow> if origin_rules_admit read o' meth u body then Inr True
       else Inl (RequestPolicyNotAllowed (host_text u) meth (url_path u) (closed_refusal read o' meth u body)))"

definition read_post :: "admission \<Rightarrow> url \<Rightarrow> bool" where
  "read_post a u \<longleftrightarrow> list_ex (\<lambda>pre. case strip_prefix pre (url_str u) of None \<Rightarrow> False
     | Some rest \<Rightarrow> rest = [] \<or> hd rest = CHR ''?'') (read_post_paths (adm_network a))"

definition read_only_admits :: "admission \<Rightarrow> string \<Rightarrow> url \<Rightarrow> bool \<Rightarrow> (egress_error, unit) result" where
  "read_only_admits a meth u matched = (if \<not> read_only (adm_network a) \<or> meth \<in> set read_methods
       \<or> matched \<and> (meth = ''POST'' \<or> meth = ''PATCH'') \<or> meth = ''POST'' \<and> read_post a u
     then Inr () else Inl (MethodNotAllowed meth))"

definition admit :: "(string \<Rightarrow> url option) \<Rightarrow> reader \<Rightarrow> admission \<Rightarrow> draft \<Rightarrow> (egress_error, admitted) result" where
  "admit parse read a d =
     res_bind (sendable (draft_method d)) (\<lambda>meth.
     res_bind (locate parse a (draft_url d) (draft_placement d)) (\<lambda>u.
     let host = host_text u in
     res_bind (placed d) (\<lambda>credentials.
     res_bind (admission_listed parse a u host) (\<lambda>_.
     res_bind (url_reachable u host) (\<lambda>_.
     res_bind (traverse (\<lambda>r. credential_bound a r host) credentials) (\<lambda>_.
     res_bind (origin_admits read a meth u (draft_body d)) (\<lambda>matched.
     res_bind (read_only_admits a meth u matched) (\<lambda>_.
       Inr \<lparr>admitted_method = meth, admitted_url = u, admitted_headers = draft_headers d,
            admitted_body = draft_body d\<rparr>))))))))"

section \<open>The vault\<close>

record minted =
  minted_token :: string
  minted_expires :: instant

record vault =
  vault_minted :: "(string \<times> minted) list"
  vault_retired :: "(string \<times> minted) list"
  vault_masker :: "scrub option"

definition vault_new :: vault where
  "vault_new = \<lparr>vault_minted = [], vault_retired = [], vault_masker = None\<rparr>"

definition refresh_margin :: int where "refresh_margin = 30 * 1000000000"
definition timestamp_max :: instant where "timestamp_max = 253402207200 * 1000000000 + 999999999"

definition instant_after :: "instant \<Rightarrow> int \<Rightarrow> instant" where
  "instant_after t span = min (t + span) timestamp_max"

text \<open>What the vault reads of the outside: the clock, and the daemon's answer to a mint.\<close>

record 'w outside =
  outside_now :: "'w \<Rightarrow> instant \<times> 'w"
  outside_mint :: "string \<Rightarrow> 'w \<Rightarrow> (egress_error, minted) result \<times> 'w"

definition vault_tokens :: "vault \<Rightarrow> (string \<times> minted) list" where
  "vault_tokens v = vault_minted v @ vault_retired v"

definition hold :: "'w outside \<Rightarrow> (string list \<Rightarrow> bool) \<Rightarrow> string \<Rightarrow> string \<Rightarrow> 'w \<times> vault
    \<Rightarrow> (egress_error, unit) result \<times> 'w \<times> vault" where
  "hold out builds name integration st = (case st of (w, v) \<Rightarrow>
     case outside_now out w of (now, w1) \<Rightarrow>
     let needed_until = instant_after now refresh_margin in
     if (case map_of (vault_minted v) name of None \<Rightarrow> False | Some held \<Rightarrow> needed_until < minted_expires held)
     then (Inr (), w1, v)
     else (case outside_mint out integration w1 of
       (Inl e, w2) \<Rightarrow> (Inl e, w2, v)
     | (Inr m, w2) \<Rightarrow>
         (case scrub_of builds (map (\<lambda>(held, k). (held @ ''.'' @ field_token, minted_token k))
                (vault_tokens v @ [(name, m)])) of
            Inl _ \<Rightarrow> (Inl Unmaskable, w2, v)
          | Inr masker \<Rightarrow> (Inr (), w2, v\<lparr>vault_minted := AList.update name m (vault_minted v),
              vault_retired := vault_retired v @ (case map_of (vault_minted v) name of None \<Rightarrow> []
                | Some replaced \<Rightarrow> [(name, replaced)]),
              vault_masker := Some masker\<rparr>))))"

text \<open>\<open>fill\<close>: a fresh token held for every minted credential the template names, in order.\<close>

fun hold_each :: "'w outside \<Rightarrow> (string list \<Rightarrow> bool) \<Rightarrow> admission \<Rightarrow> secret_ref list \<Rightarrow> 'w \<times> vault
    \<Rightarrow> (egress_error, unit) result \<times> 'w \<times> vault" where
  "hold_each out builds a [] st = (Inr (), st)"
| "hold_each out builds a (r # rs) st = (case mints a (fst r) of
     None \<Rightarrow> hold_each out builds a rs st
   | Some m \<Rightarrow> (case hold out builds (fst r) (mintable_integration m) st of
       (Inl e, st1) \<Rightarrow> (Inl e, st1)
     | (Inr _, st1) \<Rightarrow> hold_each out builds a rs st1))"

definition secret_value :: "admission \<Rightarrow> vault \<Rightarrow> secret_ref \<Rightarrow> string option" where
  "secret_value a v r = (case mints a (fst r) of
     Some _ \<Rightarrow> if snd r = field_token then map_option minted_token (map_of (vault_minted v) (fst r)) else None
   | None \<Rightarrow> statics_field (adm_statics a) (fst r) (snd r))"

definition fill :: "'w outside \<Rightarrow> (string list \<Rightarrow> bool) \<Rightarrow> admission \<Rightarrow> string \<Rightarrow> 'w \<times> vault
    \<Rightarrow> (egress_error, string) result \<times> 'w \<times> vault" where
  "fill out builds a template st = (let wanted = (case parse_secrets template of None \<Rightarrow> [] | Some rs \<Rightarrow> rs) in
     case hold_each out builds a wanted st of
       (Inl e, st1) \<Rightarrow> (Inl e, st1)
     | (Inr _, w1, v1) \<Rightarrow> (case List.find (\<lambda>r. secret_value a v1 r = None) wanted of
           Some missing \<Rightarrow> (Inl (unknown_secret a missing), w1, v1)
         | None \<Rightarrow> (Inr (substitute template (secret_value a v1)), w1, v1)))"

definition vault_mask :: "matcher \<Rightarrow> vault \<Rightarrow> string \<Rightarrow> string" where
  "vault_mask matches v t = (case vault_masker v of None \<Rightarrow> t | Some sc \<Rightarrow> scrub_text matches sc t)"

section \<open>The request that leaves\<close>

text \<open>A header: its name as the header type spells it, its value, and whether it is marked sensitive.\<close>

record outbound =
  outbound_method :: string
  outbound_url :: url
  outbound_headers :: "(string \<times> string \<times> bool) list"
  outbound_body :: "string option"
  discard_redirect_body :: bool

record header_types =
  header_name_of :: "string \<Rightarrow> string option"
  header_value_ok :: "string \<Rightarrow> bool"

fun egress_headers :: "'w outside \<Rightarrow> header_types \<Rightarrow> (string list \<Rightarrow> bool) \<Rightarrow> admission \<Rightarrow> (string \<times> string) list \<Rightarrow> 'w \<times> vault
    \<Rightarrow> (egress_error, (string \<times> string \<times> bool) list) result \<times> 'w \<times> vault" where
  "egress_headers out ht builds a [] st = (Inr [], st)"
| "egress_headers out ht builds a ((name, val) # rest) st = (case header_name_of ht name of
     None \<Rightarrow> (Inl (InvalidHeader name), st)
   | Some header \<Rightarrow> (case (if header = authorization then fill out builds a val st else (Inr val, st)) of
       (Inl e, st1) \<Rightarrow> (Inl e, st1)
     | (Inr sent, st1) \<Rightarrow> if \<not> header_value_ok ht sent then (Inl (InvalidHeader name), st1)
         else (case egress_headers out ht builds a rest st1 of
           (Inl e, st2) \<Rightarrow> (Inl e, st2)
         | (Inr later, st2) \<Rightarrow> (Inr ((header, sent, header = authorization) # later), st2))))"

record 'w guard_env =
  env_parse :: "string \<Rightarrow> url option"
  env_read :: reader
  env_headers :: header_types
  env_builds :: "string list \<Rightarrow> bool"
  env_outside :: "'w outside"

definition prepare :: "'w guard_env \<Rightarrow> admission \<Rightarrow> draft \<Rightarrow> 'w \<times> vault
    \<Rightarrow> (egress_error, outbound) result \<times> 'w \<times> vault" where
  "prepare env a d st = (case admit (env_parse env) (env_read env) a d of
     Inl e \<Rightarrow> (Inl e, st)
   | Inr ad \<Rightarrow> (case egress_headers (env_outside env) (env_headers env) (env_builds env) a (admitted_headers ad) st of
       (Inl e, st1) \<Rightarrow> (Inl e, st1)
     | (Inr hs, st1) \<Rightarrow> (Inr \<lparr>outbound_method = admitted_method ad, outbound_url = admitted_url ad,
          outbound_headers = hs, outbound_body = admitted_body ad, discard_redirect_body = False\<rparr>, st1)))"

definition for_redirect_read :: "outbound \<Rightarrow> outbound" where
  "for_redirect_read o' = o'\<lparr>discard_redirect_body := outbound_method o' = ''GET'' \<and> outbound_body o' = None\<rparr>"

definition resolved_unblocked :: "ip_addr list \<Rightarrow> (unit, ip_addr list) result" where
  "resolved_unblocked addresses = (if list_ex is_blocked addresses then Inl () else Inr addresses)"

end
