(* ===== verification/OutboundLaws.thy ===== *)
theory OutboundLaws
  imports Outbound
begin

text \<open>
  What the guard of \<open>Outbound\<close> promises: a request that leaves keeps the policy, every credential it
  carries may be sent to its host, and every token the lease was handed stays in the masker.
\<close>

section \<open>Admission\<close>

text \<open>The specification of a binding: a minted credential's token where the host's origin policy names
  it, a static field at the credential's own host.\<close>

definition may_be_sent :: "admission \<Rightarrow> string \<Rightarrow> secret_ref \<Rightarrow> bool" where
  "may_be_sent a host r \<longleftrightarrow> (if mints a (fst r) \<noteq> None
     then snd r = field_token \<and> (\<exists>o'. origin_at a host = Some o' \<and> fst r \<in> set (credential_names o'))
     else statics_field (adm_statics a) (fst r) (snd r) \<noteq> None
       \<and> (\<exists>b. statics_host (adm_statics a) (fst r) = Some b \<and> eq_ignore_ascii_case b host))"

definition names_host :: "(string \<Rightarrow> url option) \<Rightarrow> network_policy \<Rightarrow> url \<Rightarrow> bool" where
  "names_host parse n u \<longleftrightarrow> http_egress n = PublicEgress
     \<or> package_manager_domains n \<and> host_text u \<in> set package_manager_hosts
     \<or> (\<exists>entry \<in> set (net_allow n). \<exists>h. url_host u = Some h \<and> allowlist_host parse entry = Some (spelled h))"

lemma sendable_Inr: "sendable t = Inr m \<Longrightarrow> m \<in> set sendable_methods \<and> m = to_ascii_uppercase t"
  by (auto simp: sendable_def Let_def split: if_splits)

lemma locate_Inr:
  "locate parse a t place = Inr u \<Longrightarrow> url_scheme u = https \<and> url_username u = [] \<and> url_password u = None"
  by (auto simp: locate_def result_simps Let_def split: if_splits)

lemma admission_listed_Inr: "admission_listed parse a u (host_text u) = Inr () \<longleftrightarrow> names_host parse (adm_network a) u"
  by (auto simp: admission_listed_def names_host_def Let_def list_ex_iff split: option.splits)

lemma credential_bound_Inr: "credential_bound a r host = Inr () \<longleftrightarrow> may_be_sent a host r"
  by (auto simp: credential_bound_def may_be_sent_def result_simps split: option.splits if_splits)

lemma origin_admits_Inr:
  "origin_admits read a m u body = Inr b \<Longrightarrow> origin_at a (host_text u) = Some o' \<Longrightarrow> origin_rules_admit read o' m u body"
  by (auto simp: origin_admits_def split: if_splits)

lemma header_secrets_Inr:
  "header_secrets n v place = Inr found \<longleftrightarrow> parse_secrets v = Some found
     \<and> \<not> eq_ignore_ascii_case n host_header \<and> \<not> mentions n
     \<and> (found = [] \<or> eq_ignore_ascii_case n authorization \<and> place = AuthorizationOnly)"
  by (auto simp: header_secrets_def Let_def split: option.splits)

lemma traverse_in: "traverse f xs = Inr ys \<Longrightarrow> x \<in> set xs \<Longrightarrow> \<exists>y \<in> set ys. f x = Inr y"
  by (auto simp: traverse_Inr) (metis (no_types, opaque_lifting) image_eqI image_iff list.set_map)

lemma placed_Inr:
  assumes "placed d = Inr credentials"
  shows "\<And>b. draft_body d = Some b \<Longrightarrow> \<not> mentions b"
    "\<And>n v. (n, v) \<in> set (draft_headers d) \<Longrightarrow>
       \<exists>found. header_secrets n v (draft_placement d) = Inr found \<and> set found \<subseteq> set credentials"
proof -
  from assms obtain carried where carried: "\<not> (case draft_body d of None \<Rightarrow> False | Some b \<Rightarrow> mentions b)"
    "traverse (\<lambda>(n, v). header_secrets n v (draft_placement d)) (draft_headers d) = Inr carried"
    "credentials = concat carried"
    by (auto simp: placed_def result_simps split: if_splits)
  show "\<not> mentions b" if "draft_body d = Some b" for b using carried(1) that by simp
  show "\<exists>found. header_secrets n v (draft_placement d) = Inr found \<and> set found \<subseteq> set credentials"
    if "(n, v) \<in> set (draft_headers d)" for n v
    using traverse_in [OF carried(2) that] carried(3) by auto
qed

lemma admit_Inr:
  assumes "admit parse read a d = Inr ad"
  obtains credentials matched where
    "sendable (draft_method d) = Inr (admitted_method ad)"
    "locate parse a (draft_url d) (draft_placement d) = Inr (admitted_url ad)"
    "placed d = Inr credentials" "names_host parse (adm_network a) (admitted_url ad)"
    "\<not> blocked_literal (admitted_url ad)" "\<And>r. r \<in> set credentials \<Longrightarrow> may_be_sent a (host_text (admitted_url ad)) r"
    "origin_admits read a (admitted_method ad) (admitted_url ad) (draft_body d) = Inr matched"
    "read_only_admits a (admitted_method ad) (admitted_url ad) matched = Inr ()"
    "admitted_headers ad = draft_headers d" "admitted_body ad = draft_body d"
proof -
  from assms obtain m u credentials units matched where
    steps: "sendable (draft_method d) = Inr m" "locate parse a (draft_url d) (draft_placement d) = Inr u"
      "placed d = Inr credentials" "admission_listed parse a u (host_text u) = Inr ()"
      "url_reachable u (host_text u) = Inr ()"
      "traverse (\<lambda>r. credential_bound a r (host_text u)) credentials = Inr units"
      "origin_admits read a m u (draft_body d) = Inr matched" "read_only_admits a m u matched = Inr ()"
    and ad: "ad = \<lparr>admitted_method = m, admitted_url = u, admitted_headers = draft_headers d, admitted_body = draft_body d\<rparr>"
    by (auto simp: admit_def Let_def result_simps)
  show thesis
    by (rule that [of credentials matched])
      (use steps in \<open>auto simp: ad admission_listed_Inr url_reachable_def credential_bound_Inr split: if_splits
        dest!: traverse_in\<close>)
qed

lemma admitted_request_keeps_the_policy_facts:
  assumes "admit parse read a d = Inr ad"
  shows "url_scheme (admitted_url ad) = https \<and> url_username (admitted_url ad) = [] \<and> url_password (admitted_url ad) = None"
    "admitted_method ad \<in> set sendable_methods"
    "names_host parse (adm_network a) (admitted_url ad)"
    "\<not> blocked_literal (admitted_url ad)"
    "\<And>o'. origin_at a (host_text (admitted_url ad)) = Some o' \<Longrightarrow>
       origin_rules_admit read o' (admitted_method ad) (admitted_url ad) (admitted_body ad)"
    "read_only (adm_network a) \<Longrightarrow> admitted_method ad \<in> set read_methods
       \<or> (admitted_method ad = ''POST'' \<or> admitted_method ad = ''PATCH'') \<and> origin_at a (host_text (admitted_url ad)) \<noteq> None
       \<or> admitted_method ad = ''POST'' \<and> read_post a (admitted_url ad)"
    "\<And>b. admitted_body ad = Some b \<Longrightarrow> \<not> mentions b"
    "\<And>n v. (n, v) \<in> set (admitted_headers ad) \<Longrightarrow> \<not> mentions v
       \<or> eq_ignore_ascii_case n authorization \<and> draft_placement d = AuthorizationOnly
         \<and> (\<exists>rs. parse_secrets v = Some rs \<and> (\<forall>r \<in> set rs. may_be_sent a (host_text (admitted_url ad)) r))"
proof -
  from assms obtain credentials matched where
    steps: "sendable (draft_method d) = Inr (admitted_method ad)"
      "locate parse a (draft_url d) (draft_placement d) = Inr (admitted_url ad)"
      "placed d = Inr credentials" "names_host parse (adm_network a) (admitted_url ad)"
      "\<not> blocked_literal (admitted_url ad)" "\<And>r. r \<in> set credentials \<Longrightarrow> may_be_sent a (host_text (admitted_url ad)) r"
      "origin_admits read a (admitted_method ad) (admitted_url ad) (draft_body d) = Inr matched"
      "read_only_admits a (admitted_method ad) (admitted_url ad) matched = Inr ()"
      "admitted_headers ad = draft_headers d" "admitted_body ad = draft_body d"
    by (rule admit_Inr) blast
  show "url_scheme (admitted_url ad) = https \<and> url_username (admitted_url ad) = [] \<and> url_password (admitted_url ad) = None"
    using locate_Inr [OF steps(2)] .
  show "admitted_method ad \<in> set sendable_methods" using sendable_Inr [OF steps(1)] by (rule conjunct1)
  show "names_host parse (adm_network a) (admitted_url ad)" "\<not> blocked_literal (admitted_url ad)"
    by (fact steps(4), fact steps(5))
  show "origin_rules_admit read o' (admitted_method ad) (admitted_url ad) (admitted_body ad)"
    if "origin_at a (host_text (admitted_url ad)) = Some o'" for o'
    using origin_admits_Inr [OF steps(7) that] steps(10) by simp
  have "origin_at a (host_text (admitted_url ad)) \<noteq> None" if matched
    using steps(7) that by (cases "origin_at a (host_text (admitted_url ad))") (simp_all add: origin_admits_def)
  then show "admitted_method ad \<in> set read_methods
       \<or> (admitted_method ad = ''POST'' \<or> admitted_method ad = ''PATCH'') \<and> origin_at a (host_text (admitted_url ad)) \<noteq> None
       \<or> admitted_method ad = ''POST'' \<and> read_post a (admitted_url ad)" if "read_only (adm_network a)"
    using steps(8) that by (auto simp: read_only_admits_def split: if_splits)
  show "\<not> mentions b" if "admitted_body ad = Some b" for b
    using placed_Inr(1) [OF steps(3)] that steps(10) by simp
  fix n v
  assume "(n, v) \<in> set (admitted_headers ad)"
  then have "(n, v) \<in> set (draft_headers d)" by (simp add: steps(9))
  from placed_Inr(2) [OF steps(3) this] obtain found where
    "header_secrets n v (draft_placement d) = Inr found" "set found \<subseteq> set credentials" by blast
  with steps(6) show "\<not> mentions v
       \<or> eq_ignore_ascii_case n authorization \<and> draft_placement d = AuthorizationOnly
         \<and> (\<exists>rs. parse_secrets v = Some rs \<and> (\<forall>r \<in> set rs. may_be_sent a (host_text (admitted_url ad)) r))"
    unfolding header_secrets_Inr parse_secrets_Nil [symmetric] by auto
qed

text \<open>C26: A request the guard admits keeps the whole policy: HTTPS with no credentials in its URL, a
  method tools send, a host the lease's network policy names and no blocked address literal, a request
  its host's rules admit, and under \<open>read_only\<close> a read, a matched POST or PATCH rule or a listed query;
  no placeholder stands in its body, and one in a header stands in \<open>Authorization\<close> where placeholders
  may, naming only credentials that may be sent to this host.\<close>

theorem admitted_request_keeps_the_policy:
  assumes "admit parse read a d = Inr ad"
  shows "url_scheme (admitted_url ad) = https \<and> url_username (admitted_url ad) = [] \<and> url_password (admitted_url ad) = None
    \<and> admitted_method ad \<in> set sendable_methods \<and> names_host parse (adm_network a) (admitted_url ad)
    \<and> \<not> blocked_literal (admitted_url ad)
    \<and> (\<forall>o'. origin_at a (host_text (admitted_url ad)) = Some o' \<longrightarrow>
         origin_rules_admit read o' (admitted_method ad) (admitted_url ad) (admitted_body ad))
    \<and> (read_only (adm_network a) \<longrightarrow> admitted_method ad \<in> set read_methods
         \<or> (admitted_method ad = ''POST'' \<or> admitted_method ad = ''PATCH'') \<and> origin_at a (host_text (admitted_url ad)) \<noteq> None
         \<or> admitted_method ad = ''POST'' \<and> read_post a (admitted_url ad))
    \<and> (\<forall>b. admitted_body ad = Some b \<longrightarrow> \<not> mentions b)
    \<and> (\<forall>(n, v) \<in> set (admitted_headers ad). \<not> mentions v
         \<or> eq_ignore_ascii_case n authorization \<and> draft_placement d = AuthorizationOnly
           \<and> (\<exists>rs. parse_secrets v = Some rs \<and> (\<forall>r \<in> set rs. may_be_sent a (host_text (admitted_url ad)) r)))"
proof -
  note kept = admitted_request_keeps_the_policy_facts [OF assms]
  show ?thesis by (intro conjI allI impI ballI; (elim bexE conjE)?; (clarify)?) (use kept in blast)+
qed

section \<open>The vault grows and stays masked\<close>

definition vault_ok :: "vault \<Rightarrow> bool" where
  "vault_ok v \<longleftrightarrow> (\<forall>sc. vault_masker v = Some sc \<longrightarrow> scrub_ok sc)
     \<and> (\<forall>(n, m) \<in> set (vault_tokens v). \<exists>sc. vault_masker v = Some sc
          \<and> (minted_token m \<noteq> [] \<longrightarrow> minted_token m \<in> set (sc_secrets sc)))"

definition vault_grows :: "vault \<Rightarrow> vault \<Rightarrow> bool" where
  "vault_grows v v' \<longleftrightarrow> (vault_ok v \<longrightarrow> vault_ok v') \<and> set (vault_tokens v) \<subseteq> set (vault_tokens v')"

lemma vault_grows_refl [simp, intro]: "vault_grows v v"
  by (simp add: vault_grows_def)

lemma vault_grows_trans: "vault_grows u v \<Longrightarrow> vault_grows v w \<Longrightarrow> vault_grows u w"
  by (auto simp: vault_grows_def)

lemma vault_new_ok: "vault_ok vault_new"
  by (simp add: vault_ok_def vault_new_def vault_tokens_def)

lemma update_keeps:
  "x \<in> set al \<Longrightarrow> x \<in> set (AList.update k v al) \<or> fst x = k \<and> map_of al k = Some (snd x)"
  by (induction al) auto

lemma update_from: "x \<in> set (AList.update k v al) \<Longrightarrow> x \<in> set al \<or> x = (k, v)"
  by (induction al) (auto split: if_splits)

lemma scrub_of_secrets:
  "scrub_of builds named = Inr sc \<Longrightarrow> (n, t) \<in> set named \<Longrightarrow> t \<noteq> [] \<Longrightarrow> t \<in> set (sc_secrets sc)"
  by (force simp: scrub_of_def Let_def split: if_splits)

lemma hold_grows: "hold out builds n i (w, v) = (res, w', v') \<Longrightarrow> vault_grows v v'"
proof -
  assume run: "hold out builds n i (w, v) = (res, w', v')"
  show ?thesis
  proof (cases "v' = v")
    case False
    then obtain m masker where
      masker: "scrub_of builds (map (\<lambda>(held, k). (held @ ''.'' @ field_token, minted_token k)) (vault_tokens v @ [(n, m)])) = Inr masker"
      and v': "v' = v\<lparr>vault_minted := AList.update n m (vault_minted v),
              vault_retired := vault_retired v @ (case map_of (vault_minted v) n of None \<Rightarrow> []
                | Some replaced \<Rightarrow> [(n, replaced)]), vault_masker := Some masker\<rparr>"
      using run by (auto simp: hold_def Let_def split: prod.splits sum.splits if_splits)
    have keeps: "set (vault_tokens v) \<subseteq> set (vault_tokens v')"
    proof
      fix x assume x: "x \<in> set (vault_tokens v)"
      have "x \<in> set (AList.update n m (vault_minted v)) \<or> x = (n, snd x) \<and> map_of (vault_minted v) n = Some (snd x)"
        if "x \<in> set (vault_minted v)"
        using update_keeps [OF that, of n m] by (metis prod.collapse)
      with x show "x \<in> set (vault_tokens v')" unfolding v' vault_tokens_def by auto
    qed
    have came: "set (vault_tokens v') \<subseteq> set (vault_tokens v @ [(n, m)])"
      by (auto simp: v' vault_tokens_def split: option.splits dest: update_from map_of_SomeD [OF sym] map_of_SomeD)
    have "minted_token k \<in> set (sc_secrets masker)" if "(h, k) \<in> set (vault_tokens v')" "minted_token k \<noteq> []" for h k
      by (rule scrub_of_secrets [OF masker _ that(2), of "h @ ''.'' @ field_token"])
        (use came that(1) in force)
    then have "vault_ok v'"
      using scrub_of_ok [OF masker] by (auto simp: vault_ok_def v')
    with keeps show ?thesis by (simp add: vault_grows_def)
  qed simp
qed

lemma hold_each_grows: "hold_each out builds a rs (w, v) = (res, w', v') \<Longrightarrow> vault_grows v v'"
proof (induction rs arbitrary: w v)
  case (Cons r rs)
  show ?case
  proof (cases "mints a (fst r)")
    case None
    with Cons show ?thesis by simp
  next
    case (Some m)
    obtain r1 w1 v1 where step: "hold out builds (fst r) (mintable_integration m) (w, v) = (r1, w1, v1)"
      by (metis prod_cases3)
    from hold_grows [OF this] Cons Some step show ?thesis
      by (cases r1) (auto intro: vault_grows_trans)
  qed
qed simp

lemma fill_grows: "fill out builds a t (w, v) = (res, w', v') \<Longrightarrow> vault_grows v v'"
  by (auto simp: fill_def Let_def split: prod.splits sum.splits option.splits dest: hold_each_grows)

lemma egress_headers_grows: "egress_headers out ht builds a hs (w, v) = (res, w', v') \<Longrightarrow> vault_grows v v'"
proof (induction hs arbitrary: w v res w' v')
  case (Cons h hs)
  obtain n t where h: "h = (n, t)" by force
  show ?case
  proof (cases "header_name_of ht n")
    case None
    with Cons.prems h show ?thesis by simp
  next
    case (Some header)
    obtain r1 w1 v1 where step: "(if header = authorization then fill out builds a t (w, v) else (Inr t, w, v)) = (r1, w1, v1)"
      by (metis prod_cases3)
    then have first: "vault_grows v v1" by (auto split: if_splits dest: fill_grows)
    obtain r2 w2 v2 where rest: "egress_headers out ht builds a hs (w1, v1) = (r2, w2, v2)" by (metis prod_cases3)
    show ?thesis using Cons.prems h Some step rest first Cons.IH [OF rest]
      by (cases r1; cases r2) (auto split: if_splits intro: vault_grows_trans)
  qed
qed simp

lemma prepare_grows: "prepare env a d (w, v) = (res, w', v') \<Longrightarrow> vault_grows v v'"
  by (auto simp: prepare_def split: prod.splits sum.splits dest: egress_headers_grows)

text \<open>A lease's calls, one after another.\<close>

definition prepare_all :: "'w guard_env \<Rightarrow> admission \<Rightarrow> draft list \<Rightarrow> 'w \<times> vault \<Rightarrow> 'w \<times> vault" where
  "prepare_all env a ds st = fold (\<lambda>d st. snd (prepare env a d st)) ds st"

lemma prepare_all_grows: "vault_grows (snd st) (snd (prepare_all env a ds st))"
proof (induction ds arbitrary: st)
  case (Cons d ds)
  obtain res w' v' where "prepare env a d (fst st, snd st) = (res, w', v')" by (metis prod_cases3)
  from prepare_grows [OF this] this Cons.IH [of "(w', v')"] show ?case
    by (auto simp: prepare_all_def intro: vault_grows_trans)
qed (simp add: prepare_all_def)

lemma prepare_all_append: "prepare_all env a (ds @ ds') st = prepare_all env a ds' (prepare_all env a ds st)"
  by (simp add: prepare_all_def)

text \<open>C29: Whatever a lease's calls mint, refuse or mint again, every token it was ever handed stays in
  the masker its responses are masked with: after any later calls the token is still one of the
  patterns, and masking is the one scan that replaces the longest pattern at every position.\<close>

theorem every_token_stays_masked:
  assumes "(n, m) \<in> set (vault_tokens (snd (prepare_all env a ds (w, vault_new))))" "minted_token m \<noteq> []"
    "leftmost_longest matches"
  shows "\<exists>sc. vault_masker (snd (prepare_all env a (ds @ ds') (w, vault_new))) = Some sc
    \<and> minted_token m \<in> set (scrub_patterns sc)
    \<and> (\<forall>t. vault_mask matches (snd (prepare_all env a (ds @ ds') (w, vault_new))) t
        = mask_all (scrub_patterns sc) (sc_replacements sc) t)"
proof -
  let ?v = "snd (prepare_all env a (ds @ ds') (w, vault_new))"
  have ok: "vault_ok ?v"
    using prepare_all_grows [of "(w, vault_new)" env a "ds @ ds'"] vault_new_ok by (simp add: vault_grows_def)
  have "(n, m) \<in> set (vault_tokens ?v)"
    using prepare_all_grows [of "prepare_all env a ds (w, vault_new)" env a ds'] assms(1)
    by (auto simp: prepare_all_append vault_grows_def)
  with ok assms(2) obtain sc where sc: "vault_masker ?v = Some sc" "minted_token m \<in> set (sc_secrets sc)" "scrub_ok sc"
    by (auto simp: vault_ok_def)
  then show ?thesis by (auto simp: vault_mask_def scrub_patterns_def scrub_text_mask_all [OF assms(3)])
qed

section \<open>What a sent header carries\<close>

text \<open>A value a placeholder was replaced by: a token this lease holds or held, or a static field.\<close>

definition lease_value :: "admission \<Rightarrow> vault \<Rightarrow> secret_ref \<Rightarrow> string \<Rightarrow> bool" where
  "lease_value a v r x \<longleftrightarrow> (if mints a (fst r) \<noteq> None
     then \<exists>m. (fst r, m) \<in> set (vault_tokens v) \<and> minted_token m = x
     else statics_field (adm_statics a) (fst r) (snd r) = Some x)"

lemma secret_value_lease: "secret_value a v r = Some x \<Longrightarrow> lease_value a v r x"
  by (auto simp: secret_value_def lease_value_def vault_tokens_def split: option.splits if_splits dest: map_of_SomeD)

lemma lease_value_grows: "lease_value a v r x \<Longrightarrow> vault_grows v v' \<Longrightarrow> lease_value a v' r x"
  by (auto simp: lease_value_def vault_grows_def split: if_splits)

lemma fill_Inr:
  assumes "fill out builds a t st = (Inr val, w', v')" "parse_secrets t = Some rs"
  shows "\<exists>f. val = substitute t f \<and> (\<forall>r \<in> set rs. \<exists>x. f r = Some x \<and> lease_value a v' r x)"
proof -
  from assms have val: "val = substitute t (secret_value a v')"
    and found: "List.find (\<lambda>r. secret_value a v' r = None) rs = None"
    by (auto simp: fill_def Let_def split: prod.splits sum.splits option.splits)
  from found have "\<exists>x. secret_value a v' r = Some x" if "r \<in> set rs" for r
    using that by (cases r) (auto simp: find_None_iff)
  with val show ?thesis using secret_value_lease by blast
qed

definition written_as :: "header_types \<Rightarrow> admission \<Rightarrow> vault \<Rightarrow> string \<times> string \<times> bool \<Rightarrow> string \<times> string \<Rightarrow> bool" where
  "written_as ht a v sent p \<longleftrightarrow> header_name_of ht (fst p) = Some (fst sent) \<and> snd (snd sent) = (fst sent = authorization)
    \<and> (if snd (snd sent) then \<exists>f. fst (snd sent) = substitute (snd p) f
         \<and> (\<forall>r \<in> set (captures (snd p)). \<exists>x. f r = Some x \<and> lease_value a v r x) else fst (snd sent) = snd p)"

lemma egress_headers_Inr:
  assumes "egress_headers out ht builds a hs (w, v) = (Inr sent, w', v')"
    "\<And>n t. (n, t) \<in> set hs \<Longrightarrow> parse_secrets t \<noteq> None"
  shows "\<forall>x \<in> set sent. \<exists>p \<in> set hs. written_as ht a v' x p"
  using assms
proof (induction hs arbitrary: w v sent)
  case (Cons p hs)
  obtain n t where p: "p = (n, t)" by force
  from Cons.prems(1) p obtain h where h: "header_name_of ht n = Some h" by (cases "header_name_of ht n") auto
  obtain r1 w1 v1 where step: "(if h = authorization then fill out builds a t (w, v) else (Inr t, w, v)) = (r1, w1, v1)"
    by (metis prod_cases3)
  obtain r2 w2 v2 where rest: "egress_headers out ht builds a hs (w1, v1) = (r2, w2, v2)" by (metis prod_cases3)
  from Cons.prems(1) p h step rest obtain val later where
    r: "r1 = Inr val" "r2 = Inr later" "sent = (h, val, h = authorization) # later" "w2 = w'" "v2 = v'"
    by (cases r1; cases r2) (auto split: if_splits)
  have grows: "vault_grows v1 v'" using egress_headers_grows [OF rest] r by simp
  from Cons.prems(2) p obtain rs where rs: "parse_secrets t = Some rs" by fastforce
  then have rs': "rs = captures t" by (simp add: parse_secrets_def split: if_splits)
  have head: "written_as ht a v' (h, val, h = authorization) p"
  proof (cases "h = authorization")
    case True
    then have "fill out builds a t (w, v) = (Inr val, w1, v1)" using step r by simp
    from fill_Inr [OF this rs] show ?thesis
      using True rs' lease_value_grows [OF _ grows] h by (fastforce simp: written_as_def p)
  next
    case False
    with step r h show ?thesis by (simp add: written_as_def p)
  qed
  have "\<forall>x \<in> set later. \<exists>p \<in> set hs. written_as ht a v' x p"
    by (rule Cons.IH) (use rest r Cons.prems(2) p in auto)
  with head r(3) show ?case by auto
qed simp

text \<open>C27: Every header of a request that leaves is one the tool wrote.  Any but \<open>Authorization\<close> is sent
  as written and holds no placeholder; \<open>Authorization\<close> is marked sensitive and is the written value
  with each of its placeholders replaced by a value of this lease, a static field or a token minted for
  it, of a credential that may be sent to the request's host.\<close>

theorem sent_credentials_stay_on_their_host:
  assumes "prepare env a d (w, v) = (Inr out, w', v')" "(h, val, sens) \<in> set (outbound_headers out)"
    "\<And>n h. header_name_of (env_headers env) n = Some h \<Longrightarrow> h = to_ascii_lowercase n"
  shows "\<exists>(n, t) \<in> set (draft_headers d). h = to_ascii_lowercase n \<and> sens = (h = authorization)
    \<and> (\<not> sens \<longrightarrow> val = t \<and> \<not> mentions t)
    \<and> (sens \<longrightarrow> (\<exists>f. val = substitute t f \<and> (\<forall>r \<in> set (captures t). may_be_sent a (host_text (outbound_url out)) r
         \<and> (\<exists>x. f r = Some x \<and> lease_value a v' r x))))"
proof -
  from assms(1) obtain ad where ad: "admit (env_parse env) (env_read env) a d = Inr ad"
    and sent: "egress_headers (env_outside env) (env_headers env) (env_builds env) a (admitted_headers ad) (w, v)
        = (Inr (outbound_headers out), w', v')" and url: "outbound_url out = admitted_url ad"
    by (cases "admit (env_parse env) (env_read env) a d") (auto simp: prepare_def split: sum.splits prod.splits)
  from ad obtain credentials where placed: "placed d = Inr credentials"
    and bound: "\<And>r. r \<in> set credentials \<Longrightarrow> may_be_sent a (host_text (admitted_url ad)) r"
    and hs: "admitted_headers ad = draft_headers d"
    by (rule admit_Inr) blast
  have secrets: "\<exists>found. header_secrets n t (draft_placement d) = Inr found \<and> set found \<subseteq> set credentials"
    if "(n, t) \<in> set (draft_headers d)" for n t
    using placed_Inr(2) [OF placed that] .
  have parsed: "parse_secrets t \<noteq> None" if "(n, t) \<in> set (admitted_headers ad)" for n t
    using secrets [of n t] that by (auto simp: hs header_secrets_Inr)
  have "\<forall>x \<in> set (outbound_headers out). \<exists>p \<in> set (admitted_headers ad). written_as (env_headers env) a v' x p"
    by (rule egress_headers_Inr [OF sent parsed])
  from bspec [OF this assms(2)] obtain p where
    "p \<in> set (draft_headers d)" "written_as (env_headers env) a v' (h, val, sens) p"
    unfolding hs by (rule bexE)
  moreover obtain n t where "p = (n, t)" by force
  ultimately have nt: "(n, t) \<in> set (draft_headers d)" "header_name_of (env_headers env) n = Some h" "sens = (h = authorization)"
      "if sens then \<exists>f. val = substitute t f \<and> (\<forall>r \<in> set (captures t). \<exists>x. f r = Some x \<and> lease_value a v' r x) else val = t"
    by (simp_all only: written_as_def fst_conv snd_conv) blast+
  from secrets [OF nt(1)] obtain found where found: "parse_secrets t = Some found" "set found \<subseteq> set credentials"
      "found = [] \<or> eq_ignore_ascii_case n authorization"
    by (auto simp: header_secrets_Inr)
  then have caps: "found = captures t" by (simp add: parse_secrets_def split: if_splits)
  have lower: "h = to_ascii_lowercase n" by (rule assms(3) [OF nt(2)])
  have "to_ascii_lowercase authorization = authorization" by code_simp
  then have plain: "\<not> mentions t" if "\<not> sens"
    using found(1,3) lower nt(3) that by (auto simp: eq_ignore_ascii_case_def parse_secrets_Nil)
  have "may_be_sent a (host_text (outbound_url out)) r" if "r \<in> set (captures t)" for r
    using bound found(2) that unfolding url caps by blast
  then show ?thesis
    using nt lower plain by (intro bexI [of _ "(n, t)"]) (auto split: if_splits)
qed

end
