(* ===== verification/Redirect.thy ===== *)
theory Redirect
  imports OutboundLaws
begin

text \<open>
  One admitted GET and its redirects: the chain (\<open>afr_egress/src/redirect/mod.rs\<close>), its targets
  (\<open>target.rs\<close>), the masking of what a redirect named (\<open>privacy/\<close>), and the tool's loop that sends,
  continues and admits again (\<open>get_chain\<close> of \<open>afr_tools/src/egress/mod.rs\<close>).  The URL parser and its
  \<open>join\<close>, form encoding, JSON string writing, pattern escaping and the automaton are arguments.
\<close>

section \<open>Targets and responses\<close>

datatype stop = InvalidTarget | LoopRefused | HopLimit | PrivacyStop

fun stop_reason :: "stop \<Rightarrow> string" where
  "stop_reason InvalidTarget = ''redirect has no single valid bounded Location''"
| "stop_reason LoopRefused = ''redirect loop refused''"
| "stop_reason HopLimit = ''redirect limit exceeded''"
| "stop_reason PrivacyStop = ''redirect response could not be safely masked''"

definition max_redirects :: u8 where "max_redirects = 3"
definition target_max_bytes :: nat where "target_max_bytes = 8192"
definition response_max_bytes :: nat where "response_max_bytes = 1048576"

definition follows_status :: "u16 \<Rightarrow> bool" where
  "follows_status s \<longleftrightarrow> s = 301 \<or> s = 302 \<or> s = 303 \<or> s = 307 \<or> s = 308"

record target =
  target_raw :: string
  target_resolved :: url

definition written_ok :: "string \<Rightarrow> bool" where
  "written_ok t \<longleftrightarrow> 1 \<le> length t \<and> length t \<le> target_max_bytes"

definition target_new :: "(string \<Rightarrow> url option) \<Rightarrow> (url \<Rightarrow> string \<Rightarrow> url option) \<Rightarrow> url \<Rightarrow> string \<Rightarrow> (stop, target) result" where
  "target_new parse join base raw = (if \<not> written_ok raw then Inl InvalidTarget
     else (case join base raw of None \<Rightarrow> Inl InvalidTarget
       | Some joined \<Rightarrow> if \<not> written_ok (url_str joined) then Inl InvalidTarget
           else (case parse (url_str joined) of None \<Rightarrow> Inl InvalidTarget
             | Some u \<Rightarrow> Inr \<lparr>target_raw = raw, target_resolved = u\<rparr>)))"

text \<open>The values of \<open>Location\<close>; one that is no visible text is \<open>None\<close>.\<close>

definition target_from_headers :: "(string \<Rightarrow> url option) \<Rightarrow> (url \<Rightarrow> string \<Rightarrow> url option) \<Rightarrow> url \<Rightarrow> string option list \<Rightarrow> target option" where
  "target_from_headers parse join base locations = (case locations of
     [Some raw] \<Rightarrow> (case target_new parse join base raw of Inl _ \<Rightarrow> None | Inr t \<Rightarrow> Some t)
   | _ \<Rightarrow> None)"

record inbound =
  inbound_status :: u16
  inbound_location :: "string option"
  inbound_type :: "string option"
  inbound_body :: string
  inbound_truncated :: bool
  inbound_lossy :: bool
  inbound_redirect :: "target option"
  followed_redirects :: u8

section \<open>What a redirect named\<close>

definition credential_keys :: "string list" where
  "credential_keys = [''sig'', ''signature'', ''token'', ''secret'', ''key'', ''credential'', ''password'',
     ''auth'', ''authorization'', ''code'', ''session'']"

definition ascii_alphanumeric :: "char \<Rightarrow> bool" where
  "ascii_alphanumeric c \<longleftrightarrow> CHR ''A'' \<le> c \<and> c \<le> CHR ''Z'' \<or> CHR ''a'' \<le> c \<and> c \<le> CHR ''z'' \<or> is_ascii_digit c"

text \<open>\<open>name.split(|c| !alphanumeric)\<close>.\<close>

fun split_when :: "('a \<Rightarrow> bool) \<Rightarrow> 'a list \<Rightarrow> 'a list list" where
  "split_when p [] = [[]]"
| "split_when p (x # xs) = (if p x then [] # split_when p xs
     else (case split_when p xs of [] \<Rightarrow> [[x]] | s # ss \<Rightarrow> (x # s) # ss))"

definition query_units :: "(string \<Rightarrow> (string \<times> string) option) \<Rightarrow> url \<Rightarrow> string list" where
  "query_units form_pair u = concat (map (\<lambda>written. case form_pair written of None \<Rightarrow> []
     | Some (name, val) \<Rightarrow>
         let credential = list_ex (\<lambda>token. list_ex (eq_ignore_ascii_case token) credential_keys)
               (split_when (\<lambda>c. \<not> ascii_alphanumeric c) name);
             raw = (case split_once CHR ''='' written of None \<Rightarrow> [] | Some (_, v) \<Rightarrow> v)
         in if credential \<or> 16 \<le> length raw \<or> 16 \<le> length val then [raw, val] else [])
     (split_on CHR ''&'' (case url_query u of None \<Rightarrow> [] | Some q \<Rightarrow> q)))"

definition path_and_query :: "url \<Rightarrow> string" where
  "path_and_query u = url_path u @ (case url_query u of None \<Rightarrow> [] | Some q \<Rightarrow> CHR ''?'' # q)"

definition privacy_add :: "(string \<Rightarrow> (string \<times> string) option) \<Rightarrow> target \<Rightarrow> string list \<Rightarrow> string list" where
  "privacy_add form_pair t units = units
     @ (if list_ex (\<lambda>c. c \<notin> set ''/.?#'') (target_raw t) then [target_raw t] else [])
     @ [url_str (target_resolved t)]
     @ (let path = path_and_query (target_resolved t) in if path \<noteq> ''/'' \<and> path \<noteq> [] then [path] else [])
     @ query_units form_pair (target_resolved t)"

text \<open>\<open>str::replace\<close> of a byte, and of a text.\<close>

definition replace_char :: "char \<Rightarrow> string \<Rightarrow> string \<Rightarrow> string" where
  "replace_char c r t = concat (map (\<lambda>x. if x = c then r else [x]) t)"

function replace_text :: "string \<Rightarrow> string \<Rightarrow> string \<Rightarrow> string" where
  "replace_text p r t = (case t of [] \<Rightarrow> [] | x # xs \<Rightarrow>
     if p \<noteq> [] \<and> take (length p) t = p then r @ replace_text p r (drop (length p) t) else x # replace_text p r xs)"
  by pat_completeness auto
termination by (relation "measure (\<lambda>(p, r, t). length t)") auto

declare replace_text.simps [simp del]

definition spellings :: "(string \<Rightarrow> string) \<Rightarrow> (string \<Rightarrow> string option) \<Rightarrow> string \<Rightarrow> (stop, string list) result" where
  "spellings form_serialize json_text val = (
     let encoded = form_serialize val;
         component = replace_text ''%7E'' ''~'' (replace_char CHR ''*'' ''%2A'' (replace_char CHR ''+'' ''%20'' encoded))
     in case json_text val of None \<Rightarrow> Inl PrivacyStop
     | Some json \<Rightarrow> if 2 \<le> length json \<and> hd json = CHR 0x22 \<and> last json = CHR 0x22
         then (let escaped = butlast (tl json) in
           Inr [val, encoded, component, escaped, replace_char CHR ''/'' [CHR 0x5C, CHR ''/''] escaped])
         else Inl PrivacyStop)"

definition ascii_hex_digit :: "char \<Rightarrow> bool" where
  "ascii_hex_digit c \<longleftrightarrow> is_ascii_digit c \<or> CHR ''a'' \<le> c \<and> c \<le> CHR ''f'' \<or> CHR ''A'' \<le> c \<and> c \<le> CHR ''F''"

text \<open>The digits read, what they add to the pattern, and the rest.\<close>

fun hex_digits :: "nat \<Rightarrow> string \<Rightarrow> string \<times> string \<times> string" where
  "hex_digits (Suc n) (c # cs) = (if ascii_hex_digit c
     then (case hex_digits n cs of (digits, pat, rest) \<Rightarrow>
       (c # digits, (if is_ascii_digit c then [c] else [CHR ''['', ascii_lower c, ascii_upper c, CHR '']'']) @ pat, rest))
     else ([], [], c # cs))"
| "hex_digits _ cs = ([], [], cs)"

lemma hex_digits_shorter: "hex_digits n cs = (digits, pat, rest) \<Longrightarrow> length rest \<le> length cs"
proof (induction n cs arbitrary: digits pat rest rule: hex_digits.induct)
  case (1 n c cs)
  obtain d p r where "hex_digits n cs = (d, p, r)" by (metis prod_cases3)
  with 1 show ?case by (fastforce split: if_splits)
qed auto

function encoded_pattern :: "(char \<Rightarrow> string) \<Rightarrow> string \<Rightarrow> string" where
  "encoded_pattern escape [] = []"
| "encoded_pattern escape (c # cs) = escape c @
     (if c = CHR ''%'' then (case hex_digits 2 cs of (digits, pat, rest) \<Rightarrow>
        if digits = ''25'' then (case hex_digits 2 rest of (_, pat2, rest2) \<Rightarrow> pat @ pat2 @ encoded_pattern escape rest2)
        else pat @ encoded_pattern escape rest)
      else if c = CHR 0x5C \<and> cs \<noteq> [] \<and> hd cs = CHR ''u'' then (case hex_digits 4 (tl cs) of (_, pat, rest) \<Rightarrow>
        ''u'' @ pat @ encoded_pattern escape rest)
      else encoded_pattern escape cs)"
  by pat_completeness auto
termination
  by (relation "measure (\<lambda>(e, t). length t)")
    (auto dest!: hex_digits_shorter [OF sym] simp: neq_Nil_conv less_Suc_eq_le)

section \<open>The union of what matched\<close>

text \<open>The automaton: for the patterns it could be built over, the patterns that match ending at an offset.\<close>

type_synonym automaton = "string list \<Rightarrow> (string \<Rightarrow> nat \<Rightarrow> nat list) option"

fun max_width :: "nat list \<Rightarrow> nat list \<Rightarrow> nat option" where
  "max_width widths [] = Some 0"
| "max_width widths (i # is) = (if i < length widths then map_option (max (widths ! i)) (max_width widths is) else None)"

text \<open>\<open>while ranges.pop_if(..)\<close>: the last range first.\<close>

fun absorb :: "nat \<times> nat \<Rightarrow> (nat \<times> nat) list \<Rightarrow> (nat \<times> nat) list" where
  "absorb (s, e) [] = [(s, e)]"
| "absorb (s, e) ((ps, pe) # rs) = (if s < pe then absorb (min s ps, e) rs else (s, e) # (ps, pe) # rs)"

definition record_end :: "nat list \<Rightarrow> nat list \<Rightarrow> nat \<Rightarrow> (nat \<times> nat) list \<Rightarrow> (nat \<times> nat) list option" where
  "record_end widths ended e ranges = (if ended = [] then Some ranges
     else (case max_width widths ended of None \<Rightarrow> None
       | Some w \<Rightarrow> if e < w then None else Some (absorb (e - w, e) ranges)))"

fun record_ends :: "nat list \<Rightarrow> (nat \<Rightarrow> nat list) \<Rightarrow> nat list \<Rightarrow> (nat \<times> nat) list \<Rightarrow> (nat \<times> nat) list option" where
  "record_ends widths ended [] ranges = Some ranges"
| "record_ends widths ended (e # es) ranges =
     Option.bind (record_end widths (ended e) e ranges) (record_ends widths ended es)"

definition covered :: "nat list \<Rightarrow> (nat \<Rightarrow> nat list) \<Rightarrow> string \<Rightarrow> (nat \<times> nat) list option" where
  "covered widths ended t = map_option rev (record_ends widths ended [0 ..< length t + 1] [])"

section \<open>Masking within the budget\<close>

definition char_boundary :: "string \<Rightarrow> nat \<Rightarrow> bool" where
  "char_boundary t i \<longleftrightarrow> i = 0 \<or> i = length t \<or> i < length t \<and> char_starts (t ! i)"

definition text_get :: "string \<Rightarrow> nat \<Rightarrow> nat \<Rightarrow> string option" where
  "text_get t a b = (if a \<le> b \<and> b \<le> length t \<and> char_boundary t a \<and> char_boundary t b
     then Some (take (b - a) (drop a t)) else None)"

definition redirect_mask :: string where "redirect_mask = mask_of ''redirect''"

definition append_bounded :: "string \<Rightarrow> string \<Rightarrow> string \<times> bool" where
  "append_bounded result t = (let room = response_max_bytes - length result;
       n = floor_char_boundary t (min room (length t)) in (result @ take n t, n = length t))"

fun mask_ranges :: "string \<Rightarrow> nat \<Rightarrow> string \<Rightarrow> (nat \<times> nat) list \<Rightarrow> (stop, string \<times> bool) result" where
  "mask_ranges t cursor result [] = (case text_get t cursor (length t) of None \<Rightarrow> Inl PrivacyStop
     | Some tail \<Rightarrow> (case append_bounded result tail of (r, complete) \<Rightarrow> Inr (r, \<not> complete)))"
| "mask_ranges t cursor result ((s, e) # rs) = (case text_get t cursor s of None \<Rightarrow> Inl PrivacyStop
     | Some plain \<Rightarrow> (case append_bounded result plain of (r, complete) \<Rightarrow>
         if \<not> complete \<or> response_max_bytes - length r < length redirect_mask then Inr (r, True)
         else mask_ranges t e (r @ redirect_mask) rs))"

record redirect_lib =
  lib_form_pair :: "string \<Rightarrow> (string \<times> string) option"
  lib_form_serialize :: "string \<Rightarrow> string"
  lib_json_text :: "string \<Rightarrow> string option"
  lib_escape :: "char \<Rightarrow> string"
  lib_automaton :: automaton

definition mask_bounded :: "nat list \<Rightarrow> (string \<Rightarrow> nat \<Rightarrow> nat list) \<Rightarrow> string \<Rightarrow> (stop, string \<times> bool) result" where
  "mask_bounded widths ended t = (case covered widths (ended t) t of None \<Rightarrow> Inl PrivacyStop
     | Some rs \<Rightarrow> mask_ranges t 0 [] rs)"

definition privacy_values :: "redirect_lib \<Rightarrow> string list \<Rightarrow> (stop, string list) result" where
  "privacy_values lib units = res_bind
     (traverse (spellings (lib_form_serialize lib) (lib_json_text lib)) (filter (\<lambda>u. u \<noteq> []) units))
     (\<lambda>spelled. Inr (remdups_adj (sort (concat spelled))))"

definition privacy_clean :: "redirect_lib \<Rightarrow> string list \<Rightarrow> inbound \<Rightarrow> (stop, inbound) result" where
  "privacy_clean lib units r = (if units = [] then Inr r else
     res_bind (privacy_values lib units) (\<lambda>vals.
     case lib_automaton lib (map (encoded_pattern (lib_escape lib)) vals) of None \<Rightarrow> Inl PrivacyStop
     | Some ended \<Rightarrow>
         res_bind (mask_bounded (map length vals) ended (inbound_body r)) (\<lambda>(body, cut_short).
         let r1 = r\<lparr>inbound_body := body, inbound_truncated := inbound_truncated r \<or> cut_short\<rparr> in
         case inbound_type r of None \<Rightarrow> Inr r1
         | Some ty \<Rightarrow> res_bind (mask_bounded (map length vals) ended ty) (\<lambda>(masked, ty_cut).
             if ty_cut then Inl PrivacyStop else Inr (r1\<lparr>inbound_type := Some masked\<rparr>)))))"

section \<open>The chain\<close>

record chain =
  chain_current :: url
  chain_headers :: "(string \<times> string) list"
  chain_seen :: "string list"
  chain_units :: "string list"
  chain_hops :: u8
  chain_stripped :: bool
  chain_started :: bool
  chain_ending :: string
  chain_status :: u16

text \<open>\<open>identity\<close>: the URL with no fragment.\<close>

definition identity :: "url \<Rightarrow> string" where "identity u = url_base u"

definition chain_new :: "url \<Rightarrow> (string \<times> string) list \<Rightarrow> chain" where
  "chain_new u hs = \<lparr>chain_current = u, chain_headers = hs, chain_seen = [identity u], chain_units = [],
     chain_hops = 0, chain_stripped = False, chain_started = False, chain_ending = ''interrupted'', chain_status = 0\<rparr>"

definition chain_finish :: "chain \<Rightarrow> chain" where
  "chain_finish c = c\<lparr>chain_ending := if 200 \<le> chain_status c \<and> chain_status c < 300 then ''completed'' else ''upstream_status''\<rparr>"

text \<open>\<open>continuation\<close>; the response's target is taken from it first.\<close>

definition continuation :: "redirect_lib \<Rightarrow> chain \<Rightarrow> target option \<Rightarrow> (stop, draft) result \<times> chain" where
  "continuation lib c redirect = (case redirect of None \<Rightarrow> (Inl InvalidTarget, c)
     | Some t \<Rightarrow>
       let c1 = c\<lparr>chain_units := privacy_add (lib_form_pair lib) t (chain_units c)\<rparr> in
       if identity (target_resolved t) \<in> set (chain_seen c1) then (Inl LoopRefused, c1)
       else if chain_hops c1 = max_redirects then (Inl HopLimit, c1)
       else (let c2 = (if same_origin (chain_current c1) (target_resolved t) then c1
                 else c1\<lparr>chain_headers := [], chain_stripped := True\<rparr>);
               c3 = c2\<lparr>chain_current := target_resolved t, chain_seen := identity (target_resolved t) # chain_seen c2,
                       chain_hops := chain_hops c2 + 1\<rparr>
         in (Inr \<lparr>draft_method = ''GET'', draft_url = url_str (chain_current c3), draft_headers = chain_headers c3,
                  draft_body = None, draft_placement = AuthorizationOnly\<rparr>, c3)))"

definition chain_next :: "redirect_lib \<Rightarrow> chain \<Rightarrow> inbound \<Rightarrow> (stop, draft option) result \<times> chain \<times> inbound" where
  "chain_next lib c r = (let c0 = c\<lparr>chain_status := inbound_status r\<rparr> in
     if \<not> follows_status (inbound_status r)
     then (case privacy_clean lib (chain_units c0) r of
         Inl why \<Rightarrow> (Inl why, c0\<lparr>chain_ending := stop_reason why\<rparr>, r)
       | Inr clean \<Rightarrow> (Inr None, c0, clean\<lparr>followed_redirects := chain_hops c0\<rparr>))
     else (case continuation lib (c0\<lparr>chain_started := True\<rparr>) (inbound_redirect r) of
         (Inl why, c1) \<Rightarrow> (Inl why, c1\<lparr>chain_ending := stop_reason why\<rparr>, r\<lparr>inbound_redirect := None\<rparr>)
       | (Inr d, c1) \<Rightarrow> (Inr (Some d), c1, r\<lparr>inbound_redirect := None\<rparr>)))"

section \<open>The tool's loop\<close>

datatype get_failure = GetRefused egress_error | GetRedirectRefused u16 string egress_error
  | GetStopped stop u16 "string option" u8

definition url_origin_text :: "(url \<Rightarrow> string) \<Rightarrow> chain \<Rightarrow> string" where
  "url_origin_text ascii c = ascii (chain_current c)"

definition redirect_refused :: "(url \<Rightarrow> string) \<Rightarrow> chain \<Rightarrow> egress_error \<Rightarrow> get_failure" where
  "redirect_refused ascii c e = (if \<not> chain_started c then GetRefused e
     else GetRedirectRefused (chain_status c) (url_origin_text ascii c) e)"

definition mask_response :: "matcher \<Rightarrow> vault \<Rightarrow> inbound \<Rightarrow> inbound" where
  "mask_response matches v r = r\<lparr>inbound_body := vault_mask matches v (inbound_body r),
     inbound_type := map_option (vault_mask matches v) (inbound_type r)\<rparr>"

record 'w get_env =
  get_guard :: "'w guard_env"
  get_admission :: admission
  get_lib :: redirect_lib
  get_matches :: matcher
  get_ascii :: "url \<Rightarrow> string"
  get_send :: "outbound \<Rightarrow> 'w \<Rightarrow> (egress_error, inbound) result \<times> 'w"

lemma continuation_hops:
  "continuation lib c redirect = (Inr d, c') \<Longrightarrow> chain_hops c' = chain_hops c + 1 \<and> chain_hops c \<noteq> max_redirects"
  by (auto simp: continuation_def Let_def split: option.splits if_splits)

lemma chain_next_hops:
  "chain_next lib c r = (Inr (Some d), c', r') \<Longrightarrow> chain_hops c' = chain_hops c + 1 \<and> chain_hops c \<noteq> max_redirects"
  by (auto simp: chain_next_def Let_def split: if_splits sum.splits prod.splits dest: continuation_hops)

lemma hops_left: "h \<noteq> max_redirects \<Longrightarrow> unat (max_redirects - (h + 1)) < unat (max_redirects - h)"
proof -
  assume "h \<noteq> max_redirects"
  then have "max_redirects - h \<noteq> 0" by simp
  then have "unat (max_redirects - h - 1) < unat (max_redirects - h)" by (rule measure_unat)
  then show ?thesis by (simp add: algebra_simps)
qed

text \<open>The loop of \<open>get_chain\<close>, with the requests it sent.\<close>

function get_loop :: "'w get_env \<Rightarrow> chain \<Rightarrow> outbound \<Rightarrow> 'w \<times> vault
    \<Rightarrow> (get_failure, inbound) result \<times> outbound list \<times> chain \<times> 'w \<times> vault" where
  "get_loop g c o' st = (let sent = for_redirect_read o' in
     case get_send g sent (fst st) of
       (Inl e, w1) \<Rightarrow> (Inl (redirect_refused (get_ascii g) c e), [sent], c, w1, snd st)
     | (Inr r, w1) \<Rightarrow> (case chain_next (get_lib g) c r of
         (Inl why, c1, r1) \<Rightarrow>
           (Inl (GetStopped why (chain_status c1) (inbound_location r1) (chain_hops c1)), [sent], c1, w1, snd st)
       | (Inr None, c1, r1) \<Rightarrow>
           (Inr (mask_response (get_matches g) (snd st) r1), [sent], chain_finish c1, w1, snd st)
       | (Inr (Some d), c1, r1) \<Rightarrow> (case prepare (get_guard g) (get_admission g) d (w1, snd st) of
           (Inl e, st2) \<Rightarrow> (Inl (redirect_refused (get_ascii g) c1 e), [sent], c1, st2)
         | (Inr o2, st2) \<Rightarrow> (case get_loop g c1 o2 st2 of (res, log, c2, st3) \<Rightarrow> (res, sent # log, c2, st3)))))"
  by pat_completeness auto
termination
  by (relation "measure (\<lambda>(g, c, o', st). unat (max_redirects - chain_hops c))")
    (auto dest!: chain_next_hops [OF sym] simp: hops_left)

declare get_loop.simps [simp del]

definition get_chain :: "'w get_env \<Rightarrow> draft \<Rightarrow> 'w \<times> vault
    \<Rightarrow> (get_failure, inbound) result \<times> outbound list \<times> 'w \<times> vault" where
  "get_chain g d st = (case prepare (get_guard g) (get_admission g) d st of
     (Inl e, st1) \<Rightarrow> (Inl (GetRefused e), [], st1)
   | (Inr o', st1) \<Rightarrow> (case get_loop g (chain_new (outbound_url o') (draft_headers d)) o' st1 of
       (res, log, _, st2) \<Rightarrow> (res, log, st2)))"

end
