(* ===== verification/RedirectLaws.thy ===== *)
theory RedirectLaws
  imports Redirect
begin

text \<open>
  What a redirect chain promises: it ends within its hop budget and never revisits, every request of it
  was admitted, headers never survive a change of origin, and the response it hands back is masked by
  the union of what matched, within the response cap.
\<close>

section \<open>The chain\<close>

text \<open>The drafts a chain makes of successive responses, until one stops it.\<close>

fun chain_run :: "redirect_lib \<Rightarrow> chain \<Rightarrow> inbound list \<Rightarrow> draft list \<times> chain" where
  "chain_run lib c [] = ([], c)"
| "chain_run lib c (r # rs) = (case chain_next lib c r of
     (Inr (Some d), c1, _) \<Rightarrow> (case chain_run lib c1 rs of (ds, c2) \<Rightarrow> (d # ds, c2))
   | (_, c1, _) \<Rightarrow> ([], c1))"

definition target_of :: "inbound \<Rightarrow> url" where "target_of r = target_resolved (the (inbound_redirect r))"

definition chain_ok :: "chain \<Rightarrow> bool" where
  "chain_ok c \<longleftrightarrow> distinct (chain_seen c) \<and> identity (chain_current c) \<in> set (chain_seen c)
     \<and> length (chain_seen c) = unat (chain_hops c) + 1 \<and> chain_hops c \<le> max_redirects"

lemma chain_new_ok: "chain_ok (chain_new u hs)"
  by (simp add: chain_ok_def chain_new_def max_redirects_def)

lemma hops_step:
  assumes "h \<le> max_redirects" "h \<noteq> max_redirects"
  shows "unat (h + 1) = unat h + 1 \<and> h + 1 \<le> max_redirects"
proof -
  have "unat h < 3" using assms word_le_less_eq [of h max_redirects] by (auto simp: max_redirects_def word_less_nat_alt)
  moreover from this have "unat (h + 1) = unat h + 1" by (simp add: unat_word_ariths)
  ultimately show ?thesis by (simp add: max_redirects_def word_le_nat_alt)
qed

lemma chain_next_Some:
  assumes "chain_next lib c r = (Inr (Some d), c1, r1)"
  shows "d = \<lparr>draft_method = ''GET'', draft_url = url_str (target_of r),
      draft_headers = (if same_origin (chain_current c) (target_of r) then chain_headers c else []),
      draft_body = None, draft_placement = AuthorizationOnly\<rparr>"
    "chain_headers c1 = draft_headers d" "chain_current c1 = target_of r"
    "chain_seen c1 = identity (target_of r) # chain_seen c" "chain_hops c1 = chain_hops c + 1"
    "identity (target_of r) \<notin> set (chain_seen c)" "chain_hops c \<noteq> max_redirects"
    "follows_status (inbound_status r)"
  using assms
  by (auto simp: chain_next_def continuation_def Let_def target_of_def split: if_splits sum.splits option.splits)

lemma chain_next_stops:
  "chain_next lib c r = (res, c1, r1) \<Longrightarrow> \<forall>d. res \<noteq> Inr (Some d) \<Longrightarrow>
     chain_hops c1 = chain_hops c \<and> chain_seen c1 = chain_seen c \<and> chain_current c1 = chain_current c"
  by (auto simp: chain_next_def continuation_def Let_def split: if_splits sum.splits option.splits prod.splits)

lemma chain_next_ok: "chain_next lib c r = (Inr (Some d), c1, r1) \<Longrightarrow> chain_ok c \<Longrightarrow> chain_ok c1"
  by (frule chain_next_Some(7)) (auto simp: chain_ok_def chain_next_Some hops_step)

lemma chain_run_drafts:
  assumes "chain_run lib c rs = (ds, c')" "chain_ok c"
  shows "chain_ok c' \<and> length ds \<le> length rs \<and> unat (chain_hops c') = unat (chain_hops c) + length ds
    \<and> chain_seen c' = rev (map (identity \<circ> target_of) (take (length ds) rs)) @ chain_seen c
    \<and> (\<forall>i < length ds. ds ! i = \<lparr>draft_method = ''GET'', draft_url = url_str (target_of (rs ! i)),
        draft_headers = (if \<forall>j \<le> i. same_origin ((chain_current c # map target_of rs) ! j) (target_of (rs ! j))
          then chain_headers c else []), draft_body = None, draft_placement = AuthorizationOnly\<rparr>)"
  using assms
proof (induction rs arbitrary: c ds)
  case (Cons r rs)
  obtain res c1 r1 where step: "chain_next lib c r = (res, c1, r1)" by (metis prod_cases3)
  show ?case
  proof (cases "\<exists>d. res = Inr (Some d)")
    case False
    then have "ds = []" "c' = c1" using Cons.prems(1) step by (auto split: sum.splits option.splits)
    moreover have "chain_ok c1 \<and> chain_hops c1 = chain_hops c \<and> chain_seen c1 = chain_seen c"
      using chain_next_stops [OF step] False Cons.prems(2) by (auto simp: chain_ok_def)
    ultimately show ?thesis by simp
  next
    case True
    then obtain d where res: "res = Inr (Some d)" by auto
    obtain ds1 where ds1: "chain_run lib c1 rs = (ds1, c')" "ds = d # ds1"
      using Cons.prems(1) step res by (auto split: prod.splits)
    note next_c = chain_next_Some [OF step [unfolded res]]
    have ok: "chain_ok c1" by (rule chain_next_ok [OF step [unfolded res] Cons.prems(2)])
    have hops: "unat (chain_hops c1) = unat (chain_hops c) + 1"
      using hops_step [of "chain_hops c"] Cons.prems(2) next_c(5,7) by (simp add: chain_ok_def)
    note ih = Cons.IH [OF ds1(1) ok]
    have "ds ! i = \<lparr>draft_method = ''GET'', draft_url = url_str (target_of ((r # rs) ! i)),
        draft_headers = (if \<forall>j \<le> i. same_origin ((chain_current c # map target_of (r # rs)) ! j) (target_of ((r # rs) ! j))
          then chain_headers c else []), draft_body = None, draft_placement = AuthorizationOnly\<rparr>"
      if "i < length ds" for i
    proof (cases i)
      case 0
      then show ?thesis by (simp add: ds1(2) next_c(1))
    next
      case (Suc k)
      have split: "(\<forall>j \<le> Suc k. P j) \<longleftrightarrow> P 0 \<and> (\<forall>j \<le> k. P (Suc j))" for P
        by (metis Suc_le_mono le0 not0_implies_Suc)
      let ?same = "\<lambda>j. same_origin ((chain_current c # map target_of (r # rs)) ! j) (target_of ((r # rs) ! j))"
      have later: "(\<forall>j \<le> Suc k. ?same j) \<longleftrightarrow> same_origin (chain_current c) (target_of r)
          \<and> (\<forall>j \<le> k. same_origin ((chain_current c1 # map target_of rs) ! j) (target_of (rs ! j)))"
        unfolding split [of ?same] by (simp add: next_c(3))
      have "ds1 ! k = \<lparr>draft_method = ''GET'', draft_url = url_str (target_of (rs ! k)),
          draft_headers = (if \<forall>j \<le> k. same_origin ((chain_current c1 # map target_of rs) ! j) (target_of (rs ! j))
            then chain_headers c1 else []), draft_body = None, draft_placement = AuthorizationOnly\<rparr>"
        using ih that Suc ds1(2) by simp
      then show ?thesis unfolding Suc later by (auto simp: ds1(2) next_c(1,2))
    qed
    moreover have "chain_ok c' \<and> length ds \<le> length (r # rs) \<and> unat (chain_hops c') = unat (chain_hops c) + length ds
      \<and> chain_seen c' = rev (map (identity \<circ> target_of) (take (length ds) (r # rs))) @ chain_seen c"
      using ih hops by (simp add: ds1(2) next_c(4))
    ultimately show ?thesis by blast
  qed
qed simp

lemma redirect_chain_is_bounded_facts:
  assumes "chain_run lib (chain_new u hs) rs = (ds, c')"
  shows "length ds \<le> 3" "length ds \<le> length rs"
    "distinct (map identity (u # map target_of (take (length ds) rs)))"
    "\<And>i. i < length ds \<Longrightarrow> ds ! i = \<lparr>draft_method = ''GET'', draft_url = url_str (target_of (rs ! i)),
       draft_headers = (if \<forall>j \<le> i. same_origin ((u # map target_of rs) ! j) (target_of (rs ! j)) then hs else []),
       draft_body = None, draft_placement = AuthorizationOnly\<rparr>"
proof -
  note run = chain_run_drafts [OF assms chain_new_ok]
  show "length ds \<le> 3" using run by (simp add: chain_new_def chain_ok_def max_redirects_def word_le_nat_alt)
  show "length ds \<le> length rs" using run by blast
  show "distinct (map identity (u # map target_of (take (length ds) rs)))"
    using run by (auto simp: chain_ok_def chain_new_def)
  show "ds ! i = \<lparr>draft_method = ''GET'', draft_url = url_str (target_of (rs ! i)),
       draft_headers = (if \<forall>j \<le> i. same_origin ((u # map target_of rs) ! j) (target_of (rs ! j)) then hs else []),
       draft_body = None, draft_placement = AuthorizationOnly\<rparr>" if "i < length ds" for i
    using run that by (auto simp: chain_new_def)
qed

text \<open>A redirect chain is at most three continuations long, whatever the upstream answers; the
  destinations it visits, the first request's included, are distinct; each continuation is a bodyless GET
  of its response's target; and it carries the tool's headers only while every hop so far stayed on one
  origin, a header once dropped never coming back.\<close>

theorem redirect_chain_is_bounded:
  assumes "chain_run lib (chain_new u hs) rs = (ds, c')"
  shows "length ds \<le> 3 \<and> length ds \<le> length rs
    \<and> distinct (map identity (u # map target_of (take (length ds) rs)))
    \<and> (\<forall>i < length ds. ds ! i = \<lparr>draft_method = ''GET'', draft_url = url_str (target_of (rs ! i)),
         draft_headers = (if \<forall>j \<le> i. same_origin ((u # map target_of rs) ! j) (target_of (rs ! j)) then hs else []),
         draft_body = None, draft_placement = AuthorizationOnly\<rparr>)"
  using redirect_chain_is_bounded_facts [OF assms] by blast

section \<open>The union of what matched\<close>

definition span :: "nat \<times> nat \<Rightarrow> nat set" where "span r = {fst r ..< snd r}"

definition stack_ok :: "nat \<Rightarrow> (nat \<times> nat) list \<Rightarrow> bool" where
  "stack_ok e rs \<longleftrightarrow> sorted_wrt (\<lambda>a b. snd b \<le> fst a) rs \<and> (\<forall>r \<in> set rs. fst r \<le> snd r \<and> snd r \<le> e)"

lemma absorb_ok:
  "stack_ok e rs \<Longrightarrow> s \<le> e \<Longrightarrow> stack_ok e (absorb (s, e) rs)
     \<and> \<Union> (span ` set (absorb (s, e) rs)) = {s ..< e} \<union> \<Union> (span ` set rs)"
proof (induction rs arbitrary: s)
  case (Cons r rs)
  obtain ps pe where r: "r = (ps, pe)" by force
  show ?case
  proof (cases "s < pe")
    case True
    have ok: "stack_ok e rs" "min s ps \<le> e" using Cons.prems by (auto simp: stack_ok_def)
    have "{min s ps ..< e} = {s ..< e} \<union> {ps ..< pe}" using Cons.prems True by (auto simp: stack_ok_def r)
    then show ?thesis using Cons.IH [OF ok] True by (auto simp: span_def r)
  qed (use Cons.prems in \<open>auto simp: stack_ok_def span_def r\<close>)
qed (simp add: stack_ok_def span_def)

lemma max_width_Some:
  "max_width ws ns = Some w \<Longrightarrow> (\<forall>i \<in> set ns. i < length ws \<and> ws ! i \<le> w) \<and> (ns \<noteq> [] \<longrightarrow> (\<exists>i \<in> set ns. ws ! i = w))"
proof (induction ns arbitrary: w)
  case (Cons n ns)
  then obtain w' where w': "max_width ws ns = Some w'" "w = max (ws ! n) w'" "n < length ws"
    by (auto split: if_splits)
  show ?case
  proof (cases "ns = []")
    case False
    with Cons.IH [OF w'(1)] obtain i where "i \<in> set ns" "ws ! i = w'" by auto
    with Cons.IH [OF w'(1)] w' show ?thesis by (auto simp: max_def)
  qed (use w' in simp)
qed simp

lemma span_widths:
  "max_width ws ns = Some w \<Longrightarrow> ns \<noteq> [] \<Longrightarrow> (\<Union>i \<in> set ns. {e - ws ! i ..< e}) = {e - w ..< e}"
  by (drule max_width_Some) (auto, meson diff_le_mono2 le_trans)

lemma record_end_ok:
  assumes "record_end ws ended e rs = Some rs'" "stack_ok e rs"
  shows "stack_ok e rs' \<and> \<Union> (span ` set rs') = (\<Union>i \<in> set ended. {e - ws ! i ..< e}) \<union> \<Union> (span ` set rs)"
proof (cases "ended = []")
  case False
  with assms(1) obtain w where w: "max_width ws ended = Some w" "rs' = absorb (e - w, e) rs"
    by (auto simp: record_end_def split: option.splits if_splits)
  show ?thesis using absorb_ok [OF assms(2), of "e - w"] span_widths [OF w(1) False] w(2) by simp
qed (use assms in \<open>simp add: record_end_def\<close>)

lemma stack_ok_mono: "stack_ok e rs \<Longrightarrow> e \<le> e' \<Longrightarrow> stack_ok e' rs"
  by (auto simp: stack_ok_def)

lemma record_ends_ok:
  "record_ends ws ended [a ..< b] rs = Some rs' \<Longrightarrow> stack_ok a rs \<Longrightarrow> a \<le> b \<Longrightarrow> stack_ok b rs'
     \<and> \<Union> (span ` set rs') = (\<Union>e \<in> {a ..< b}. \<Union>i \<in> set (ended e). {e - ws ! i ..< e}) \<union> \<Union> (span ` set rs)"
proof (induction "b - a" arbitrary: a rs)
  case (Suc n)
  then have "a < b" by simp
  then have cons: "[a ..< b] = a # [Suc a ..< b]" "{a ..< b} = insert a {Suc a ..< b}" by (auto simp: upt_conv_Cons)
  from Suc(3) obtain r1 where r1: "record_end ws (ended a) a rs = Some r1" "record_ends ws ended [Suc a ..< b] r1 = Some rs'"
    by (auto simp: cons(1) bind_eq_Some_conv)
  note one = record_end_ok [OF r1(1) Suc(4)]
  have "stack_ok (Suc a) r1" using one stack_ok_mono by auto
  from Suc(1) [OF _ r1(2) this] Suc(2) \<open>a < b\<close> one show ?case by (simp add: cons(2) Un_ac)
qed (auto simp: stack_ok_mono)

lemma record_end_top: "record_end ws ended e rs = Some rs' \<Longrightarrow> stack_ok e rs \<Longrightarrow> \<forall>r \<in> set rs'. snd r \<le> e"
  by (drule (1) record_end_ok) (auto simp: stack_ok_def)

text \<open>The last end recorded bounds every range.\<close>

lemma record_ends_top:
  assumes "record_ends ws ended [0 ..< n + 1] [] = Some rs"
  shows "\<forall>r \<in> set rs. snd r \<le> n"
proof -
  have split: "record_ends ws ended (es @ [e]) st = Option.bind (record_ends ws ended es st) (record_end ws (ended e) e)" for es e st
    by (induction es arbitrary: st) (simp_all split: bind_splits)
  from assms obtain st where st: "record_ends ws ended [0 ..< n] [] = Some st" "record_end ws (ended n) n st = Some rs"
    by (auto simp: split bind_eq_Some_conv)
  have "stack_ok n st" using record_ends_ok [OF st(1)] by (simp add: stack_ok_def)
  from record_end_top [OF st(2) this] show ?thesis .
qed

lemma masked_ranges_are_the_union_facts:
  assumes "covered widths ended t = Some rs"
  shows "\<Union> (span ` set rs) = (\<Union>e \<in> {0 .. length t}. \<Union>i \<in> set (ended e). {e - widths ! i ..< e})"
    "sorted_wrt (\<lambda>a b. snd a \<le> fst b) rs" "\<forall>r \<in> set rs. fst r \<le> snd r \<and> snd r \<le> length t"
proof -
  from assms obtain st where st: "record_ends widths ended [0 ..< length t + 1] [] = Some st" "rs = rev st"
    by (auto simp: covered_def)
  have tops: "\<forall>r \<in> set st. snd r \<le> length t"
    using record_ends_top [OF st(1)] by auto
  from record_ends_ok [OF st(1)] show "\<Union> (span ` set rs) = (\<Union>e \<in> {0 .. length t}. \<Union>i \<in> set (ended e). {e - widths ! i ..< e})"
    by (simp add: st(2) stack_ok_def atLeastLessThanSuc_atLeastAtMost)
  from record_ends_ok [OF st(1)] show "sorted_wrt (\<lambda>a b. snd a \<le> fst b) rs"
    by (simp add: st(2) stack_ok_def sorted_wrt_rev)
  from record_ends_ok [OF st(1)] tops show "\<forall>r \<in> set rs. fst r \<le> snd r \<and> snd r \<le> length t"
    by (simp add: st(2) stack_ok_def)
qed

text \<open>The ranges to mask, merged as the automaton's matches arrive end by end, are the union of every
  match of every known spelling, however they overlap or bridge; and they are in order and disjoint,
  inside the text, so each is replaced once.\<close>

theorem masked_ranges_are_the_union:
  assumes "covered widths ended t = Some rs"
  shows "\<Union> (span ` set rs) = (\<Union>e \<in> {0 .. length t}. \<Union>i \<in> set (ended e). {e - widths ! i ..< e})
    \<and> sorted_wrt (\<lambda>a b. snd a \<le> fst b) rs \<and> (\<forall>r \<in> set rs. fst r \<le> snd r \<and> snd r \<le> length t)"
  using masked_ranges_are_the_union_facts [OF assms] by blast

section \<open>The response's budget\<close>

lemma floor_char_boundary_le: "floor_char_boundary t i \<le> i"
  by (induction t i rule: floor_char_boundary.induct) auto

lemma append_bounded_budget:
  "append_bounded result t = (r, complete) \<Longrightarrow> length result \<le> response_max_bytes \<Longrightarrow> length r \<le> response_max_bytes"
  using floor_char_boundary_le [of t "min (response_max_bytes - length result) (length t)"]
  by (auto simp: append_bounded_def Let_def)

lemma mask_ranges_budget:
  "mask_ranges t cursor result rs = Inr (out, cut_short) \<Longrightarrow> length result \<le> response_max_bytes \<Longrightarrow> length out \<le> response_max_bytes"
proof (induction t cursor result rs rule: mask_ranges.induct)
  case (1 t cursor result)
  then show ?case by (auto split: option.splits prod.splits dest: append_bounded_budget)
next
  case (2 t cursor result s e rs)
  from 2(2) obtain plain where plain: "text_get t cursor s = Some plain" by (auto split: option.splits)
  obtain r complete where r: "append_bounded result plain = (r, complete)" by force
  have len: "length r \<le> response_max_bytes" using append_bounded_budget [OF r 2(3)] .
  show ?case
  proof (cases "\<not> complete \<or> response_max_bytes - length r < length redirect_mask")
    case False
    with len have "length (r @ redirect_mask) \<le> response_max_bytes" by auto
    moreover have "mask_ranges t e (r @ redirect_mask) rs = Inr (out, cut_short)" using 2(2) plain r False by simp
    ultimately show ?thesis using 2(1) [OF plain r [symmetric] False] by simp
  qed (use 2(2) plain r len in auto)
qed

text \<open>However much masking would grow a response, the body a redirected call hands back stays within
  the response cap; what did not fit is dropped, the response marked truncated, and its media type is
  masked whole or the response refused.\<close>

theorem cleaned_response_stays_in_budget:
  assumes "privacy_clean lib units r = Inr r'" "units \<noteq> []"
  shows "length (inbound_body r') \<le> response_max_bytes"
    "\<And>ty. inbound_type r' = Some ty \<Longrightarrow> length ty \<le> response_max_bytes"
    "inbound_truncated r \<Longrightarrow> inbound_truncated r'" "inbound_status r' = inbound_status r"
proof -
  from assms obtain vals ended body cut_short where
    lib: "privacy_values lib units = Inr vals" "lib_automaton lib (map (encoded_pattern (lib_escape lib)) vals) = Some ended"
    and body: "mask_bounded (map length vals) ended (inbound_body r) = Inr (body, cut_short)"
    by (auto simp: privacy_clean_def res_bind_Inr split: option.splits)
  let ?r1 = "r\<lparr>inbound_body := body, inbound_truncated := inbound_truncated r \<or> cut_short\<rparr>"
  have r': "r' = ?r1 \<and> inbound_type r = None
      \<or> (\<exists>ty masked. mask_bounded (map length vals) ended ty = Inr (masked, False) \<and> r' = ?r1\<lparr>inbound_type := Some masked\<rparr>)"
    using assms lib body
    by (cases "inbound_type r") (auto simp: privacy_clean_def Let_def res_bind_Inr split: if_splits, blast)
  have budget: "length out \<le> response_max_bytes" if "mask_bounded (map length vals) ended t = Inr (out, b)" for t out b
    using that by (auto simp: mask_bounded_def split: option.splits dest: mask_ranges_budget)
  show "length (inbound_body r') \<le> response_max_bytes" using budget [OF body] r' by auto
  show "length ty \<le> response_max_bytes" if "inbound_type r' = Some ty" for ty using r' budget that by auto
  show "inbound_truncated r'" if "inbound_truncated r" using r' that by auto
  show "inbound_status r' = inbound_status r" using r' by auto
qed

section \<open>The tool's loop\<close>

text \<open>A request the guard let out under this admission: some draft was admitted to this method, this address
  and this body, the read-only, placement and credential checks among the rest; and of that admission, what
  is stated without its procedure.\<close>

definition let_out :: "'w guard_env \<Rightarrow> admission \<Rightarrow> outbound \<Rightarrow> bool" where
  "let_out env a o' \<longleftrightarrow> (\<exists>d ad. admit (env_parse env) (env_read env) a d = Inr ad \<and> admitted_method ad = outbound_method o'
       \<and> admitted_url ad = outbound_url o' \<and> admitted_body ad = outbound_body o')
     \<and> url_scheme (outbound_url o') = https \<and> names_host (env_parse env) (adm_network a) (outbound_url o')
     \<and> \<not> blocked_literal (outbound_url o')
     \<and> (\<forall>p. origin_at a (host_text (outbound_url o')) = Some p
          \<longrightarrow> origin_rules_admit (env_read env) p (outbound_method o') (outbound_url o') (outbound_body o'))"

lemma prepare_grows_snd: "prepare env a d st = (res, st') \<Longrightarrow> vault_grows (snd st) (snd st')"
  by (cases st, cases st') (auto dest: prepare_grows)

lemma prepare_let_out: "prepare env a d st = (Inr o', st') \<Longrightarrow> let_out env a o'"
proof -
  assume run: "prepare env a d st = (Inr o', st')"
  then obtain ad where ad: "admit (env_parse env) (env_read env) a d = Inr ad"
    and o': "outbound_url o' = admitted_url ad" "outbound_method o' = admitted_method ad" "outbound_body o' = admitted_body ad"
    by (cases "admit (env_parse env) (env_read env) a d") (auto simp: prepare_def split: sum.splits prod.splits)
  have "\<exists>d ad. admit (env_parse env) (env_read env) a d = Inr ad \<and> admitted_method ad = outbound_method o'
      \<and> admitted_url ad = outbound_url o' \<and> admitted_body ad = outbound_body o'"
    using ad o' by metis
  with ad show ?thesis
    by (elim admit_Inr) (auto simp: let_out_def o' dest: locate_Inr origin_admits_Inr)
qed

lemma let_out_read [simp]: "let_out env a (for_redirect_read o') = let_out env a o'"
  by (simp add: let_out_def for_redirect_read_def)

lemma get_loop_bounded:
  "get_loop g c o' st = (res, log, c', st') \<Longrightarrow> let_out (get_guard g) (get_admission g) o'
     \<Longrightarrow> length log \<le> unat (max_redirects - chain_hops c) + 1 \<and> log \<noteq> []
       \<and> (\<forall>x \<in> set log. let_out (get_guard g) (get_admission g) x)
       \<and> vault_grows (snd st) (snd st')"
proof (induction g c o' st arbitrary: res log c' st' rule: get_loop.induct)
  case (1 g c o' st)
  obtain sent_res w1 where sent: "get_send g (for_redirect_read o') (fst st) = (sent_res, w1)" by force
  show ?case
  proof (cases "\<exists>r d c1 r1 o2 st2. sent_res = Inr r \<and> chain_next (get_lib g) c r = (Inr (Some d), c1, r1)
      \<and> prepare (get_guard g) (get_admission g) d (w1, snd st) = (Inr o2, st2)")
    case False
    then show ?thesis
      using 1(2,3) sent prepare_grows_snd [of "get_guard g" "get_admission g" _ "(w1, snd st)"]
      by (subst (asm) get_loop.simps) (auto simp: Let_def split: sum.splits prod.splits option.splits)
  next
    case True
    then obtain r d c1 r1 o2 w2 v2 where steps: "sent_res = Inr r" "chain_next (get_lib g) c r = (Inr (Some d), c1, r1)"
      "prepare (get_guard g) (get_admission g) d (w1, snd st) = (Inr o2, w2, v2)" by auto
    obtain log2 where log2: "get_loop g c1 o2 (w2, v2) = (res, log2, c', st')" "log = for_redirect_read o' # log2"
      using 1(2) sent steps by (subst (asm) get_loop.simps) (auto simp: Let_def split: prod.splits)
    have ih: "length log2 \<le> unat (max_redirects - chain_hops c1) + 1 \<and> log2 \<noteq> []
        \<and> (\<forall>x \<in> set log2. let_out (get_guard g) (get_admission g) x) \<and> vault_grows v2 (snd st')"
      using 1(1) [OF refl sent [symmetric] steps(1) steps(2) [symmetric] refl refl refl steps(3) [symmetric] refl log2(1) prepare_let_out [OF steps(3)]]
      by simp
    have "unat (max_redirects - chain_hops c1) < unat (max_redirects - chain_hops c)"
      using chain_next_hops [OF steps(2)] hops_left by metis
    with ih log2(2) 1(3) prepare_grows [OF steps(3)] show ?thesis by (auto intro: vault_grows_trans)
  qed
qed

lemma get_chain_ends_admitted_facts:
  assumes "get_chain g d st = (res, log, st')"
  shows "length log \<le> 4" "\<forall>x \<in> set log. let_out (get_guard g) (get_admission g) x" "vault_grows (snd st) (snd st')"
    "res = Inr r \<Longrightarrow> log \<noteq> []"
proof -
  have "length log \<le> 4 \<and> (\<forall>x \<in> set log. let_out (get_guard g) (get_admission g) x) \<and> vault_grows (snd st) (snd st')
      \<and> (res = Inr r \<longrightarrow> log \<noteq> [])"
  proof (cases "fst (prepare (get_guard g) (get_admission g) d st)")
    case (Inl e)
    then show ?thesis using assms prepare_grows_snd [of "get_guard g" "get_admission g" d st]
      by (auto simp: get_chain_def split: prod.splits)
  next
    case (Inr o')
    obtain w1 v1 where p: "prepare (get_guard g) (get_admission g) d (fst st, snd st) = (Inr o', w1, v1)"
      using Inr by (metis prod.collapse)
    obtain c2 where loop: "get_loop g (chain_new (outbound_url o') (draft_headers d)) o' (w1, v1) = (res, log, c2, st')"
      using assms p by (auto simp: get_chain_def split: prod.splits)
    from get_loop_bounded [OF loop prepare_let_out [OF p]] prepare_grows [OF p] show ?thesis
      by (auto simp: chain_new_def max_redirects_def intro: vault_grows_trans)
  qed
  then show "length log \<le> 4" "\<forall>x \<in> set log. let_out (get_guard g) (get_admission g) x" "vault_grows (snd st) (snd st')"
    "res = Inr r \<Longrightarrow> log \<noteq> []" by auto
qed

text \<open>C30: The tool's redirect loop ends on every upstream: it sends at most four requests, and every one
  of them, the redirected ones too, was admitted under the lease's policy before it left; the lease's
  vault only grows, its tokens kept.\<close>

theorem get_chain_ends_admitted:
  assumes "get_chain g d st = (res, log, st')"
  shows "length log \<le> 4 \<and> (\<forall>x \<in> set log. let_out (get_guard g) (get_admission g) x)
    \<and> vault_grows (snd st) (snd st') \<and> (\<forall>r. res = Inr r \<longrightarrow> log \<noteq> [])"
  using get_chain_ends_admitted_facts [OF assms] by blast

end
