(* ===== verification/EgressSamples.thy ===== *)
theory EgressSamples
  imports RedirectLaws
begin

text \<open>
  One lease's outbound calls, run: a URL reader for the four URLs used, a mint that answers one token, an
  automaton that scans, and an upstream that redirects once across origins.  Each property of the
  outbound theories is applied here at these inputs.
\<close>

section \<open>The library stand-ins\<close>

definition url_at :: "string \<Rightarrow> string \<Rightarrow> url" where
  "url_at host path = \<lparr>url_base = ''https://'' @ host @ path, url_fragment = None, url_scheme = ''https'',
     url_username = [], url_password = None, url_host = Some (HostDomain host), url_host_str = Some host,
     url_port_or_default = Some 443, url_path = path, url_query = None,
     url_origin = Some (''https'', HostDomain host, 443)\<rparr>"

definition sample_parse :: "string \<Rightarrow> url option" where
  "sample_parse t = List.find (\<lambda>u. url_str u = t)
     [url_at ''api.example'' ''/v1'', url_at ''api.example'' '''', url_at ''one.example'' ''/a'',
      url_at ''two.example'' ''/b'', url_at ''one.example'' '''', url_at ''two.example'' '''']"

definition sample_read :: reader where
  "sample_read t = (if t = ''body'' then Some [(''model'', JString ''m''), (''text'', JString ''hi'')] else None)"

definition sample_headers :: header_types where
  "sample_headers = \<lparr>header_name_of = (\<lambda>n. Some (to_ascii_lowercase n)), header_value_ok = (\<lambda>_. True)\<rparr>"

definition sample_outside :: "nat outside" where
  "sample_outside = \<lparr>outside_now = (\<lambda>w. (0, w)),
     outside_mint = (\<lambda>i w. (Inr \<lparr>minted_token = ''tok'', minted_expires = 100 * 1000000000\<rparr>, w + 1))\<rparr>"

definition sample_guard :: "nat guard_env" where
  "sample_guard = \<lparr>env_parse = sample_parse, env_read = sample_read, env_headers = sample_headers,
     env_builds = (\<lambda>_. True), env_outside = sample_outside\<rparr>"

definition sample_matches :: matcher where "sample_matches = (\<lambda>ps t. scan_matches ps t 0)"

definition sample_automaton :: automaton where
  "sample_automaton ps = Some (\<lambda>t e. filter (\<lambda>i. length (ps ! i) \<le> e
     \<and> take (length (ps ! i)) (drop (e - length (ps ! i)) t) = ps ! i) [0 ..< length ps])"

definition sample_lib :: redirect_lib where
  "sample_lib = \<lparr>lib_form_pair = split_once CHR ''='', lib_form_serialize = (\<lambda>t. t),
     lib_json_text = (\<lambda>t. Some (CHR 0x22 # t @ [CHR 0x22])), lib_escape = (\<lambda>c. [c]), lib_automaton = sample_automaton\<rparr>"

section \<open>The lease\<close>

definition sample_rule :: request_rule where
  "sample_rule = \<lparr>request_method = HttpPost, request_path = ''/v1'', request_path_match = ExactPath,
     json_fields = [\<lparr>locked_name = ''model'', string_value = Some ''m'', boolean_value = None\<rparr>],
     permitted_fields = Some [''text'']\<rparr>"

definition sample_origin :: origin_policy where
  "sample_origin = \<lparr>origin_host = ''API.example'', credential_names = [''hub''], origin_requests = [sample_rule]\<rparr>"

definition sample_admission :: admission where
  "sample_admission = admission_new
     \<lparr>http_egress = RestrictedEgress, package_manager_domains = False,
      net_allow = [''api.example'', ''one.example'', ''two.example''], read_only = True, read_post_paths = []\<rparr>
     [sample_origin] [\<lparr>mintable_name = ''hub'', mintable_integration = ''github''\<rparr>]
     (Some (JObject [(''one'', JObject [(''host'', JString ''one.example''), (''key'', JString ''k1'')])]))"

definition sample_post :: draft where
  "sample_post = \<lparr>draft_method = ''post'', draft_url = ''https://api.example/v1'',
     draft_headers = [(''Accept'', ''*/*''), (''Authorization'', ''Bearer ${secrets.hub.token}'')],
     draft_body = Some ''body'', draft_placement = AuthorizationOnly\<rparr>"

definition sample_get :: draft where
  "sample_get = \<lparr>draft_method = ''GET'', draft_url = ''https://${secrets.one.host}/a'',
     draft_headers = [(''Authorization'', ''${secrets.one.key}'')],
     draft_body = None, draft_placement = AuthorizationOnly\<rparr>"

definition sample_redirect :: inbound where
  "sample_redirect = \<lparr>inbound_status = 302, inbound_location = Some ''https://two.example'', inbound_type = None,
     inbound_body = [], inbound_truncated = False, inbound_lossy = False,
     inbound_redirect = Some \<lparr>target_raw = ''https://two.example/b'', target_resolved = url_at ''two.example'' ''/b''\<rparr>,
     followed_redirects = 0\<rparr>"

definition sample_answer :: inbound where
  "sample_answer = \<lparr>inbound_status = 200, inbound_location = None, inbound_type = Some ''text/plain'',
     inbound_body = ''see /b'', inbound_truncated = False, inbound_lossy = False, inbound_redirect = None,
     followed_redirects = 0\<rparr>"

definition sample_get_env :: "nat get_env" where
  "sample_get_env = \<lparr>get_guard = sample_guard, get_admission = sample_admission, get_lib = sample_lib,
     get_matches = sample_matches, get_ascii = (\<lambda>u. url_base u),
     get_send = (\<lambda>o' w. (Inr (if url_path (outbound_url o') = ''/a'' then sample_redirect else sample_answer), w + 1))\<rparr>"

section \<open>What they do\<close>

definition sample_admitted :: admitted where
  "sample_admitted = \<lparr>admitted_method = ''POST'', admitted_url = url_at ''api.example'' ''/v1'',
     admitted_headers = draft_headers sample_post, admitted_body = Some ''body''\<rparr>"

lemma post_admitted: "admit sample_parse sample_read sample_admission sample_post = Inr sample_admitted"
  by code_simp

lemma post_rules: "origin_rules_admit sample_read sample_origin ''POST'' (url_at ''api.example'' ''/v1'') (Some ''body'')"
  by code_simp

lemma post_prepared:
  "prepare sample_guard sample_admission sample_post (0, vault_new) = (Inr \<lparr>outbound_method = ''POST'',
     outbound_url = url_at ''api.example'' ''/v1'',
     outbound_headers = [(''accept'', ''*/*'', False), (''authorization'', ''Bearer tok'', True)],
     outbound_body = Some ''body'', discard_redirect_body = False\<rparr>,
     1, \<lparr>vault_minted = [(''hub'', \<lparr>minted_token = ''tok'', minted_expires = 100 * 1000000000\<rparr>)],
         vault_retired = [], vault_masker = Some \<lparr>sc_secrets = [''tok''], sc_replacements = [mask_of ''hub.token'', nul_stand_in]\<rparr>\<rparr>)"
  by code_simp

lemma sample_env_parts [simp]:
  "get_guard sample_get_env = sample_guard" "get_admission sample_get_env = sample_admission"
  "get_lib sample_get_env = sample_lib"
  "get_send sample_get_env o' w
     = (Inr (if url_path (outbound_url o') = ''/a'' then sample_redirect else sample_answer), w + 1)"
  by (simp_all add: sample_get_env_def)

lemma answer_ends: "\<not> follows_status (inbound_status r) \<Longrightarrow> chain_next lib c r \<noteq> (Inr (Some d), c1, r1)"
  by (auto simp: chain_next_def Let_def split: sum.splits)

definition sample_first :: outbound where
  "sample_first = \<lparr>outbound_method = ''GET'', outbound_url = url_at ''one.example'' ''/a'',
     outbound_headers = [(''authorization'', ''k1'', True)], outbound_body = None, discard_redirect_body = False\<rparr>"

definition sample_second :: outbound where
  "sample_second = \<lparr>outbound_method = ''GET'', outbound_url = url_at ''two.example'' ''/b'',
     outbound_headers = [], outbound_body = None, discard_redirect_body = False\<rparr>"

definition sample_chain :: chain where
  "sample_chain = chain_new (url_at ''one.example'' ''/a'') (draft_headers sample_get)"

definition sample_hop :: "(stop, draft option) result \<times> chain \<times> inbound" where
  "sample_hop = chain_next sample_lib sample_chain sample_redirect"

definition sample_hop_draft :: draft where
  "sample_hop_draft = \<lparr>draft_method = ''GET'', draft_url = ''https://two.example/b'', draft_headers = [],
     draft_body = None, draft_placement = AuthorizationOnly\<rparr>"

lemma get_first: "prepare sample_guard sample_admission sample_get (0, vault_new) = (Inr sample_first, 0, vault_new)"
  by code_simp

lemma get_hop: "fst sample_hop = Inr (Some sample_hop_draft)"
  by code_simp

lemma get_second: "prepare sample_guard sample_admission sample_hop_draft (1, vault_new) = (Inr sample_second, 1, vault_new)"
  by code_simp

lemma answer_status: "\<not> follows_status (inbound_status sample_answer)" "follows_status (inbound_status sample_redirect)"
  by code_simp+

text \<open>Two requests left: the second went to the other origin and carried no header.\<close>

lemma get_followed:
  "fst (snd (get_chain sample_get_env sample_get (0, vault_new))) = map for_redirect_read [sample_first, sample_second]"
proof -
  obtain c1 r1 where hop: "chain_next sample_lib sample_chain sample_redirect = (Inr (Some sample_hop_draft), c1, r1)"
    using get_hop by (metis prod.collapse sample_hop_def)
  obtain res c2 r2 where last: "chain_next sample_lib c1 sample_answer = (res, c2, r2)" by (metis prod_cases3)
  then have "\<forall>d. res \<noteq> Inr (Some d)" using answer_ends [OF answer_status(1)] by blast
  moreover have paths: "url_path (outbound_url (for_redirect_read sample_first)) = ''/a''"
      "url_path (outbound_url (for_redirect_read sample_second)) = ''/b''"
    by code_simp+
  ultimately have second: "fst (snd (get_loop sample_get_env c1 sample_second (1, vault_new))) = [for_redirect_read sample_second]"
    using last by (subst get_loop.simps) (auto simp: Let_def split: sum.splits option.splits)
  obtain res2 log2 c3 w3 v3 where inner: "get_loop sample_get_env c1 sample_second (1, vault_new) = (res2, log2, c3, w3, v3)"
    by (metis prod_cases5)
  with second have "log2 = [for_redirect_read sample_second]" by simp
  then have loop: "fst (snd (get_loop sample_get_env sample_chain sample_first (0, vault_new))) = map for_redirect_read [sample_first, sample_second]"
    using inner hop get_second paths by (subst get_loop.simps) (simp add: Let_def)
  have "outbound_url sample_first = url_at ''one.example'' ''/a''" by (simp add: sample_first_def)
  then show ?thesis
    using get_first loop by (auto simp: get_chain_def sample_chain_def split: prod.splits)
qed

section \<open>The properties at these inputs\<close>

lemma sample_matches_ok: "leftmost_longest sample_matches"
  unfolding sample_matches_def by (rule scan_leftmost_longest)

definition sample_scrub :: scrub where
  "sample_scrub = \<lparr>sc_secrets = [''secret''], sc_replacements = [mask_of ''k'', nul_stand_in]\<rparr>"

lemma sample_scrub_built: "scrub_of (\<lambda>_. True) [(''k'', ''secret''), (''e'', [])] = Inr sample_scrub"
  by code_simp

definition sample_chunks :: "(text_kind \<times> string) list" where
  "sample_chunks = [(AnswerText, ''my sec''), (ReasoningText, ''why''), (AnswerText, ''ret it'')]"

theorem stream_masks_as_a_whole_witness:
  "sent_of AnswerText (live_run sample_matches sample_scrub True sample_chunks)
     @ scrub_text sample_matches sample_scrub (live_carry AnswerText (live_run sample_matches sample_scrub True sample_chunks))
   = scrub_text sample_matches sample_scrub ''my secret it''"
proof -
  have "chunks_of AnswerText sample_chunks = ''my secret it''" "shown True AnswerText" by code_simp+
  with stream_masks_as_a_whole [OF sample_matches_ok sample_scrub_built, of True AnswerText sample_chunks]
  show ?thesis by simp
qed

theorem admitted_body_is_bounded_witness:
  "trusted_path (url_at ''api.example'' ''/v1'') \<and> (\<exists>rule \<in> set (origin_requests sample_origin).
     request_path rule = ''/v1'' \<and> (\<exists>fs. sample_read ''body'' = Some fs \<and> (''model'', JString ''m'') \<in> set fs))"
  using admitted_body_is_bounded [OF post_rules]
  by (auto simp: sample_origin_def sample_rule_def sample_read_def)

theorem admitted_request_keeps_the_policy_witness:
  "names_host sample_parse (adm_network sample_admission) (url_at ''api.example'' ''/v1'')
     \<and> may_be_sent sample_admission ''api.example'' (''hub'', ''token'')"
proof -
  note kept = admitted_request_keeps_the_policy [OF post_admitted]
  have parsed: "parse_secrets ''Bearer ${secrets.hub.token}'' = Some [(''hub'', ''token'')]"
      "mentions ''Bearer ${secrets.hub.token}''"
    by code_simp+
  have "(''Authorization'', ''Bearer ${secrets.hub.token}'') \<in> set (admitted_headers sample_admitted)"
    by (simp add: sample_admitted_def sample_post_def)
  with kept have "\<not> mentions ''Bearer ${secrets.hub.token}'' \<or> (\<exists>rs. parse_secrets ''Bearer ${secrets.hub.token}'' = Some rs
      \<and> (\<forall>r \<in> set rs. may_be_sent sample_admission (host_text (admitted_url sample_admitted)) r))"
    by blast
  moreover from kept have "names_host sample_parse (adm_network sample_admission) (admitted_url sample_admitted)" by blast
  ultimately show ?thesis by (simp add: parsed sample_admitted_def host_text_def url_at_def)
qed

lemma sample_names: "header_name_of (env_headers sample_guard) n = Some h \<Longrightarrow> h = to_ascii_lowercase n"
  by (simp add: sample_guard_def sample_headers_def)

theorem sent_credentials_stay_on_their_host_witness:
  "\<exists>(n, t) \<in> set (draft_headers sample_post). ''authorization'' = to_ascii_lowercase n
     \<and> (\<exists>f. ''Bearer tok'' = substitute t f
         \<and> (\<forall>r \<in> set (captures t). may_be_sent sample_admission (host_text (url_at ''api.example'' ''/v1'')) r))"
proof -
  have "(''authorization'', ''Bearer tok'', True) \<in> set (outbound_headers (projl (Inl \<lparr>outbound_method = ''POST'',
     outbound_url = url_at ''api.example'' ''/v1'',
     outbound_headers = [(''accept'', ''*/*'', False), (''authorization'', ''Bearer tok'', True)],
     outbound_body = Some ''body'', discard_redirect_body = False\<rparr> :: outbound + unit)))"
    by simp
  from sent_credentials_stay_on_their_host [OF post_prepared this [simplified sum.sel] sample_names]
  show ?thesis by (auto simp: case_prod_beta)
qed

theorem every_token_stays_masked_witness:
  "\<exists>sc. vault_masker (snd (prepare_all sample_guard sample_admission ([sample_post] @ [sample_get]) (0, vault_new))) = Some sc
     \<and> ''tok'' \<in> set (scrub_patterns sc)"
proof -
  have "prepare_all sample_guard sample_admission [sample_post] (0, vault_new)
      = snd (prepare sample_guard sample_admission sample_post (0, vault_new))"
    by (simp add: prepare_all_def)
  then have "(''hub'', \<lparr>minted_token = ''tok'', minted_expires = 100 * 1000000000\<rparr>)
      \<in> set (vault_tokens (snd (prepare_all sample_guard sample_admission [sample_post] (0, vault_new))))"
    by (simp add: post_prepared vault_tokens_def)
  from every_token_stays_masked [OF this _ sample_matches_ok, of "[sample_get]"] show ?thesis by auto
qed

lemma sample_run:
  "map draft_url (fst (chain_run sample_lib sample_chain [sample_redirect, sample_answer])) = [''https://two.example/b'']"
proof -
  obtain c1 r1 where hop: "chain_next sample_lib sample_chain sample_redirect = (Inr (Some sample_hop_draft), c1, r1)"
    using get_hop by (metis prod.collapse sample_hop_def)
  obtain res c2 r2 where last: "chain_next sample_lib c1 sample_answer = (res, c2, r2)" by (metis prod_cases3)
  then have "\<forall>d. res \<noteq> Inr (Some d)" using answer_ends [OF answer_status(1)] by blast
  with hop last show ?thesis by (auto simp: sample_hop_draft_def split: sum.splits option.splits)
qed

theorem redirect_chain_is_bounded_witness:
  "length (fst (chain_run sample_lib sample_chain [sample_redirect, sample_answer])) \<le> 3
     \<and> draft_headers (fst (chain_run sample_lib sample_chain [sample_redirect, sample_answer]) ! 0) = []"
proof -
  obtain ds c' where run: "chain_run sample_lib sample_chain [sample_redirect, sample_answer] = (ds, c')" by force
  note bounded = redirect_chain_is_bounded [OF run [unfolded sample_chain_def]]
  have "length ds = 1" using arg_cong [OF sample_run, of length] unfolding run by simp
  moreover have "\<not> same_origin (url_at ''one.example'' ''/a'') (target_of sample_redirect)" by code_simp
  ultimately show ?thesis using bounded unfolding run by auto
qed

lemma sample_covered: "covered [3, 4] (\<lambda>e. if e = 4 then [0] else if e = 6 then [1] else []) ''xabcdef'' = Some [(1, 6)]"
  by code_simp

theorem masked_ranges_are_the_union_witness:
  "{1 ..< 6} = (\<Union>e \<in> {0 .. length ''xabcdef''}. \<Union>i \<in> set (if e = 4 then [0] else if e = 6 then [1] else []). {e - [3, 4] ! i ..< e :: nat})"
  using masked_ranges_are_the_union [OF sample_covered, THEN conjunct1]
  by (simp only: span_def list.set image_insert image_empty Union_insert Union_empty fst_conv snd_conv sup_bot.right_neutral)

theorem get_chain_ends_admitted_witness:
  "length (fst (snd (get_chain sample_get_env sample_get (0, vault_new)))) \<le> 4
     \<and> let_out sample_guard sample_admission (for_redirect_read sample_second)"
proof -
  obtain res log st' where run: "get_chain sample_get_env sample_get (0, vault_new) = (res, log, st')" by (metis prod_cases3)
  show ?thesis using get_chain_ends_admitted [OF run] get_followed unfolding run by simp
qed

end
