(* ===== verification/Wall.thy ===== *)
theory Wall
  imports Texts
begin

text \<open>
  The signature wall (\<open>afd_webhook\<close>): the freshness window (\<open>freshness.rs\<close>), the schemes and what each
  signs (\<open>scheme.rs\<close>), the Svix verifier (\<open>vendor/svix.rs\<close>), the declarable recipes (\<open>family.rs\<close>) and the
  refusals (\<open>verdict.rs\<close>).  HMAC-SHA256 and the hexadecimal and base64 decoders are other crates' and
  enter as the fields of \<open>wall_codec\<close>; text and bodies are their bytes.
\<close>

section \<open>What the wall calls\<close>

record wall_codec =
  hmac_sha256 :: "string \<Rightarrow> string \<Rightarrow> string"
  hex_decode :: "string \<Rightarrow> string option"
  base64_padded :: "string \<Rightarrow> string option"
  base64_unpadded :: "string \<Rightarrow> string option"

definition hmac_tag_len :: nat where "hmac_tag_len = 32"

definition compute_peppered :: "wall_codec \<Rightarrow> string \<Rightarrow> string list \<Rightarrow> string" where
  "compute_peppered cx pepper parts = hmac_sha256 cx pepper (concat parts)"

definition tag_from_slice :: "string \<Rightarrow> string option" where
  "tag_from_slice bytes = (if length bytes = hmac_tag_len then Some bytes else None)"

definition tag_verify :: "string \<Rightarrow> string \<Rightarrow> bool" where
  "tag_verify expected offered \<longleftrightarrow> expected = offered"

section \<open>Verdicts\<close>

datatype wall_refusal = Unconfigured | BadSignature | StaleTimestamp

fun wall_code :: "wall_refusal \<Rightarrow> string" where
  "wall_code Unconfigured = ''UZ-WH-020''"
| "wall_code BadSignature = ''UZ-WH-010''"
| "wall_code StaleTimestamp = ''UZ-WH-011''"

fun wall_detail :: "wall_refusal \<Rightarrow> string" where
  "wall_detail Unconfigured = ''Webhook credential not configured''"
| "wall_detail BadSignature = ''Invalid signature''"
| "wall_detail StaleTimestamp = ''Signature timestamp too old''"

fun wall_label :: "wall_refusal \<Rightarrow> string" where
  "wall_label Unconfigured = ''unconfigured''"
| "wall_label BadSignature = ''signature''"
| "wall_label StaleTimestamp = ''stale_timestamp''"

datatype wall_verdict = WallVerified | WallRefused wall_refusal

fun verdict_refusal :: "wall_verdict \<Rightarrow> wall_refusal option" where
  "verdict_refusal WallVerified = None"
| "verdict_refusal (WallRefused r) = Some r"

section \<open>Freshness\<close>

definition max_drift_seconds :: int where "max_drift_seconds = 300"

definition is_fresh_at :: "string \<Rightarrow> int \<Rightarrow> int \<Rightarrow> bool" where
  "is_fresh_at timestamp now max_drift = (case parse_i64 timestamp of
     None \<Rightarrow> False
   | Some signed_at \<Rightarrow> if signed_at \<le> 0 then False
       else if saturating_add now max_drift < signed_at then False
       else saturating_sub now signed_at \<le> max_drift)"

section \<open>Schemes\<close>

datatype scheme = BodyHex | BodyHexBare | SlackV0

definition all_schemes :: "scheme list" where "all_schemes = [BodyHex, BodyHexBare, SlackV0]"

fun scheme_source :: "scheme \<Rightarrow> string" where
  "scheme_source BodyHex = ''github''"
| "scheme_source BodyHexBare = ''linear''"
| "scheme_source SlackV0 = ''slack''"

definition scheme_for_source :: "string \<Rightarrow> scheme option" where
  "scheme_for_source source = List.find (\<lambda>s. scheme_source s = source) all_schemes"

fun scheme_signature_header :: "scheme \<Rightarrow> string" where
  "scheme_signature_header BodyHex = ''x-hub-signature-256''"
| "scheme_signature_header BodyHexBare = ''linear-signature''"
| "scheme_signature_header SlackV0 = ''x-slack-signature''"

fun scheme_timestamp_header :: "scheme \<Rightarrow> string option" where
  "scheme_timestamp_header BodyHex = None"
| "scheme_timestamp_header BodyHexBare = None"
| "scheme_timestamp_header SlackV0 = Some ''x-slack-request-timestamp''"

definition github_prefix :: string where "github_prefix = ''sha256=''"
definition slack_prefix :: string where "slack_prefix = ''v0=''"
definition slack_version :: string where "slack_version = ''v0''"
definition slack_separator :: string where "slack_separator = '':''"

fun scheme_prefix :: "scheme \<Rightarrow> string" where
  "scheme_prefix BodyHex = github_prefix"
| "scheme_prefix BodyHexBare = []"
| "scheme_prefix SlackV0 = slack_prefix"

fun expected_tag :: "wall_codec \<Rightarrow> scheme \<Rightarrow> string \<Rightarrow> string option \<Rightarrow> string \<Rightarrow> string option" where
  "expected_tag cx SlackV0 secret timestamp body = (case timestamp of None \<Rightarrow> None
     | Some signed_at \<Rightarrow> Some (compute_peppered cx secret
         [slack_version, slack_separator, signed_at, slack_separator, body]))"
| "expected_tag cx BodyHex secret timestamp body = Some (compute_peppered cx secret [body])"
| "expected_tag cx BodyHexBare secret timestamp body = Some (compute_peppered cx secret [body])"

definition decode_hex_tag :: "wall_codec \<Rightarrow> string \<Rightarrow> string option" where
  "decode_hex_tag cx digest = Option.bind (hex_decode cx digest) tag_from_slice"

definition scheme_verify_at :: "wall_codec \<Rightarrow> scheme \<Rightarrow> string \<Rightarrow> string option \<Rightarrow> string option \<Rightarrow> string
    \<Rightarrow> int \<Rightarrow> wall_verdict" where
  "scheme_verify_at cx s secret presented timestamp body now =
     (if secret = [] then WallRefused Unconfigured
      else case presented of None \<Rightarrow> WallRefused BadSignature
      | Some offered_text \<Rightarrow>
        if scheme_timestamp_header s \<noteq> None
          \<and> (case timestamp of None \<Rightarrow> True | Some signed_at \<Rightarrow> \<not> is_fresh_at signed_at now max_drift_seconds)
        then WallRefused StaleTimestamp
        else case strip_prefix (scheme_prefix s) offered_text of None \<Rightarrow> WallRefused BadSignature
        | Some digest \<Rightarrow> (case expected_tag cx s secret timestamp body of None \<Rightarrow> WallRefused BadSignature
          | Some expected \<Rightarrow> (case decode_hex_tag cx digest of
              Some offered \<Rightarrow> if tag_verify expected offered then WallVerified else WallRefused BadSignature
            | None \<Rightarrow> WallRefused BadSignature)))"

section \<open>Svix\<close>

definition secret_prefix :: string where "secret_prefix = ''whsec_''"
definition signature_version :: string where "signature_version = ''v1''"
definition version_separator :: char where "version_separator = CHR '',''"
definition entry_separator :: char where "entry_separator = CHR '' ''"
definition field_separator :: string where "field_separator = ''.''"
definition svix_id_header :: string where "svix_id_header = ''svix-id''"
definition svix_timestamp_header :: string where "svix_timestamp_header = ''svix-timestamp''"
definition svix_signature_header :: string where "svix_signature_header = ''svix-signature''"

definition decode_base64 :: "wall_codec \<Rightarrow> string \<Rightarrow> string option" where
  "decode_base64 cx text = (case base64_padded cx text of Some bytes \<Rightarrow> Some bytes | None \<Rightarrow> base64_unpadded cx text)"

definition svix_secret_parse :: "wall_codec \<Rightarrow> string \<Rightarrow> string option" where
  "svix_secret_parse cx raw = Option.bind (strip_prefix secret_prefix raw) (\<lambda>encoded.
     Option.bind (decode_base64 cx encoded) (\<lambda>decoded. if decoded = [] then None else Some decoded))"

record svix_headers =
  svix_id :: string
  svix_timestamp :: string
  svix_signature :: string

definition decode_svix_tag :: "wall_codec \<Rightarrow> string \<Rightarrow> string option" where
  "decode_svix_tag cx digest = Option.bind (decode_base64 cx digest) tag_from_slice"

definition any_entry_matches :: "wall_codec \<Rightarrow> string \<Rightarrow> string \<Rightarrow> bool" where
  "any_entry_matches cx header expected = list_ex (tag_verify expected)
     (List.map_filter (\<lambda>(version, digest). decode_svix_tag cx digest)
       (filter (\<lambda>(version, digest). version = signature_version)
         (List.map_filter (split_once version_separator) (split_on entry_separator header))))"

definition svix_verify_at :: "wall_codec \<Rightarrow> string \<Rightarrow> svix_headers \<Rightarrow> string \<Rightarrow> int \<Rightarrow> wall_verdict" where
  "svix_verify_at cx key hs body now =
     (if svix_id hs = [] \<or> svix_timestamp hs = [] \<or> svix_signature hs = [] then WallRefused BadSignature
      else if \<not> is_fresh_at (svix_timestamp hs) now max_drift_seconds then WallRefused StaleTimestamp
      else if any_entry_matches cx (svix_signature hs)
          (compute_peppered cx key [svix_id hs, field_separator, svix_timestamp hs, field_separator, body])
        then WallVerified else WallRefused BadSignature)"

section \<open>Recipes\<close>

datatype family = FamBodyHexSha256 | FamBodyHex | FamBodyBase64Sha256 | FamSlackV0 | FamSvixV1

definition all_families :: "family list" where
  "all_families = [FamBodyHexSha256, FamBodyHex, FamBodyBase64Sha256, FamSlackV0, FamSvixV1]"

fun family_token :: "family \<Rightarrow> string" where
  "family_token FamBodyHexSha256 = ''body-hex-sha256''"
| "family_token FamBodyHex = ''body-hex''"
| "family_token FamBodyBase64Sha256 = ''body-base64-sha256''"
| "family_token FamSlackV0 = ''slack-v0''"
| "family_token FamSvixV1 = ''svix-v1''"

fun family_of_scheme :: "scheme \<Rightarrow> family" where
  "family_of_scheme BodyHex = FamBodyHexSha256"
| "family_of_scheme BodyHexBare = FamBodyHex"
| "family_of_scheme SlackV0 = FamSlackV0"

definition family_for_source :: "string \<Rightarrow> family option" where
  "family_for_source source = map_option family_of_scheme (scheme_for_source source)"

record proof_headers =
  proof_signature :: "string option"
  proof_timestamp :: "string option"
  proof_id :: "string option"
  proof_body :: string

definition proof_verify :: "wall_codec \<Rightarrow> proof_headers \<Rightarrow> scheme \<Rightarrow> string \<Rightarrow> int \<Rightarrow> wall_verdict" where
  "proof_verify cx p s secret now =
     scheme_verify_at cx s secret (proof_signature p) (proof_timestamp p) (proof_body p) now"

definition verify_base64 :: "wall_codec \<Rightarrow> string \<Rightarrow> proof_headers \<Rightarrow> wall_verdict" where
  "verify_base64 cx secret p = (if secret = [] then WallRefused Unconfigured
     else case Option.bind (Option.bind (proof_signature p) (base64_padded cx)) tag_from_slice of
       Some tag \<Rightarrow> if tag_verify (compute_peppered cx secret [proof_body p]) tag then WallVerified
         else WallRefused BadSignature
     | None \<Rightarrow> WallRefused BadSignature)"

definition or_default :: "string option \<Rightarrow> string" where
  "or_default t = (case t of None \<Rightarrow> [] | Some x \<Rightarrow> x)"

definition verify_svix :: "wall_codec \<Rightarrow> string \<Rightarrow> proof_headers \<Rightarrow> int \<Rightarrow> wall_verdict" where
  "verify_svix cx secret p now =
     (case (if valid_utf8 secret then svix_secret_parse cx secret else None) of
        None \<Rightarrow> WallRefused Unconfigured
      | Some key \<Rightarrow> svix_verify_at cx key \<lparr>svix_id = or_default (proof_id p),
          svix_timestamp = or_default (proof_timestamp p), svix_signature = or_default (proof_signature p)\<rparr>
          (proof_body p) now)"

fun family_verify_at :: "wall_codec \<Rightarrow> family \<Rightarrow> string \<Rightarrow> proof_headers \<Rightarrow> int \<Rightarrow> wall_verdict" where
  "family_verify_at cx FamBodyHexSha256 secret p now = proof_verify cx p BodyHex secret now"
| "family_verify_at cx FamBodyHex secret p now = proof_verify cx p BodyHexBare secret now"
| "family_verify_at cx FamSlackV0 secret p now = proof_verify cx p SlackV0 secret now"
| "family_verify_at cx FamBodyBase64Sha256 secret p now = verify_base64 cx secret p"
| "family_verify_at cx FamSvixV1 secret p now = verify_svix cx secret p now"

end
