(* ===== verification/Triggers.thy ===== *)
theory Triggers
  imports Wall
begin

text \<open>
  What may wake a fleet (\<open>afd_fleet_runtime/src/config\<close>): the authored trigger with the bounds its schema
  proves (\<open>raw/trigger.rs\<close>, \<open>raw/predicate.rs\<close>), the recipe it declares (\<open>trigger/verifier.rs\<close>), the
  typed trigger (\<open>trigger/mod.rs\<close>) and the set of them (\<open>trigger/set.rs\<close>).  Reading the document's JSON
  into the authored form is serde's.
\<close>

section \<open>What an author wrote\<close>

datatype raw_verifier =
    RawBodyHexSha256 "string option" | RawBodyHex "string option" | RawBodyBase64Sha256 "string option"
  | RawSlackV0 | RawSvixV1

datatype raw_trigger =
    RawWebhook (raw_source: "string option") (raw_events: "string list option") (raw_repositories: "string list option")
      (raw_credential_name: "string option") (raw_verifier: "raw_verifier option")
  | RawCron (raw_schedule: "string option") (raw_timezone: "string option") (raw_message: "string option")
  | RawMention "string option" "string list option"

definition max_events :: nat where "max_events = 16"
definition max_event_len :: nat where "max_event_len = 64"
definition max_repositories :: nat where "max_repositories = 64"
definition max_repository_len :: nat where "max_repository_len = 255"
definition max_credential_len :: nat where "max_credential_len = 128"
definition max_reference_len :: nat where "max_reference_len = 255"
definition mention_channels :: nat where "mention_channels = 1"
definition max_channel_id_len :: nat where "max_channel_id_len = 32"
definition max_header_len :: nat where "max_header_len = 128"
definition max_triggers :: nat where "max_triggers = 8"

definition ascii_between :: "char \<Rightarrow> char \<Rightarrow> char \<Rightarrow> bool" where
  "ascii_between lo hi c \<longleftrightarrow> lo \<le> c \<and> c \<le> hi"

definition is_slug_char :: "char \<Rightarrow> bool" where
  "is_slug_char c \<longleftrightarrow> ascii_between CHR ''a'' CHR ''z'' c \<or> is_ascii_digit c \<or> c = CHR ''-''"

definition is_header_char :: "char \<Rightarrow> bool" where
  "is_header_char c \<longleftrightarrow> ascii_between CHR ''a'' CHR ''z'' c \<or> ascii_between CHR ''A'' CHR ''Z'' c \<or> is_ascii_digit c
     \<or> c \<in> set ''!#$%&*+-.^_|~'' \<or> c = CHR 0x27 \<or> c = CHR 0x60"

text \<open>\<open>garde\<close>'s \<open>length(chars, min, max)\<close>, and \<open>inner\<close> over an option or a list.\<close>

definition chars_within :: "nat \<Rightarrow> nat \<Rightarrow> string \<Rightarrow> bool" where
  "chars_within lo hi t \<longleftrightarrow> lo \<le> char_count t \<and> char_count t \<le> hi"

definition inner :: "('a \<Rightarrow> bool) \<Rightarrow> 'a option \<Rightarrow> bool" where
  "inner p x \<longleftrightarrow> (case x of None \<Rightarrow> True | Some v \<Rightarrow> p v)"

definition listed_within :: "nat \<Rightarrow> nat \<Rightarrow> ('a \<Rightarrow> bool) \<Rightarrow> 'a list \<Rightarrow> bool" where
  "listed_within lo hi p xs \<longleftrightarrow> lo \<le> length xs \<and> length xs \<le> hi \<and> list_all p xs"

definition webhook_source_approval :: string where "webhook_source_approval = ''approval''"

definition is_token :: "string \<Rightarrow> bool" where "is_token t \<longleftrightarrow> \<not> contains_whitespace t"
definition is_not_reserved_source :: "string \<Rightarrow> bool" where "is_not_reserved_source t \<longleftrightarrow> t \<noteq> webhook_source_approval"

definition is_repository :: "string \<Rightarrow> bool" where
  "is_repository t \<longleftrightarrow> (case split_once CHR ''/'' t of None \<Rightarrow> False
     | Some (owner, name) \<Rightarrow> owner \<noteq> [] \<and> name \<noteq> [] \<and> CHR ''/'' \<notin> set name \<and> \<not> contains_whitespace t)"

definition header_valid :: "string option \<Rightarrow> bool" where
  "header_valid = inner (\<lambda>h. chars_within 1 max_header_len h \<and> list_all is_header_char h)"

fun raw_verifier_valid :: "raw_verifier \<Rightarrow> bool" where
  "raw_verifier_valid (RawBodyHexSha256 h) \<longleftrightarrow> header_valid h"
| "raw_verifier_valid (RawBodyHex h) \<longleftrightarrow> header_valid h"
| "raw_verifier_valid (RawBodyBase64Sha256 h) \<longleftrightarrow> header_valid h"
| "raw_verifier_valid RawSlackV0 \<longleftrightarrow> True"
| "raw_verifier_valid RawSvixV1 \<longleftrightarrow> True"

fun raw_trigger_valid :: "raw_trigger \<Rightarrow> bool" where
  "raw_trigger_valid (RawWebhook source events repositories credential verifier) \<longleftrightarrow>
     inner (\<lambda>s. chars_within 1 max_reference_len s \<and> list_all is_slug_char s \<and> is_not_reserved_source s) source
     \<and> inner (listed_within 1 max_events (\<lambda>e. chars_within 1 max_event_len e \<and> is_token e)) events
     \<and> inner (listed_within 1 max_repositories (\<lambda>r. chars_within 1 max_repository_len r \<and> is_repository r)) repositories
     \<and> inner (chars_within 1 max_credential_len) credential
     \<and> inner raw_verifier_valid verifier"
| "raw_trigger_valid (RawCron schedule timezone message) \<longleftrightarrow>
     inner (chars_within 1 max_reference_len) schedule \<and> inner (chars_within 1 max_reference_len) timezone
     \<and> inner (chars_within 0 max_reference_len) message"
| "raw_trigger_valid (RawMention source channels) \<longleftrightarrow>
     inner (chars_within 1 max_reference_len) source
     \<and> inner (listed_within mention_channels mention_channels (chars_within 1 max_channel_id_len)) channels"

section \<open>Typed triggers\<close>

datatype webhook_verifier =
    VerBodyHexSha256 string | VerBodyHex string | VerBodyBase64Sha256 string | VerSlackV0 | VerSvixV1

fun verifier_family :: "webhook_verifier \<Rightarrow> family" where
  "verifier_family (VerBodyHexSha256 _) = FamBodyHexSha256"
| "verifier_family (VerBodyHex _) = FamBodyHex"
| "verifier_family (VerBodyBase64Sha256 _) = FamBodyBase64Sha256"
| "verifier_family VerSlackV0 = FamSlackV0"
| "verifier_family VerSvixV1 = FamSvixV1"

fun verifier_header :: "webhook_verifier \<Rightarrow> string option" where
  "verifier_header (VerBodyHexSha256 h) = Some h"
| "verifier_header (VerBodyHex h) = Some h"
| "verifier_header (VerBodyBase64Sha256 h) = Some h"
| "verifier_header VerSlackV0 = None"
| "verifier_header VerSvixV1 = None"

datatype trigger_error = InvalidTriggerSet string | InvalidSignatureConfig string string | UnverifiableWebhookSource string

definition reason_registry :: string where "reason_registry = ''a built-in source must use its registry verifier''"
definition reason_no_header :: string where "reason_no_header = ''a body signing recipe requires a signature header''"
definition reason_no_source :: string where "reason_no_source = ''a webhook trigger names no source''"
definition reason_no_schedule :: string where "reason_no_schedule = ''a cron trigger names no schedule''"
definition reason_mention_no_source :: string where "reason_mention_no_source = ''a mention trigger names no source''"
definition reason_mention_no_channel :: string where
  "reason_mention_no_channel = ''a mention trigger'' @ [CHR 0x27] @ ''s '' @ [CHR 0x60] @ ''channels'' @ [CHR 0x60] @ '' names no channel''"
definition reason_not_channel_id :: string where
  "reason_not_channel_id = ''a mention trigger'' @ [CHR 0x27] @ ''s '' @ [CHR 0x60] @ ''channels'' @ [CHR 0x60]
     @ '' entry is not a channel identifier: '' @ [CHR 0x60] @ ''C'' @ [CHR 0x60] @ '' or '' @ [CHR 0x60] @ ''G'' @ [CHR 0x60]
     @ '', then at least eight upper-case letters or digits''"
definition reason_set_too_large :: string where "reason_set_too_large = ''it holds more triggers than the limit''"
definition reason_duplicate_source :: string where "reason_duplicate_source = ''two webhook triggers share one source''"
definition reason_duplicate_cron :: string where "reason_duplicate_cron = ''a fleet may hold only one cron trigger''"
definition reason_duplicate_mention :: string where "reason_duplicate_mention = ''a fleet may attach to only one channel''"

definition resolve_header :: "string \<Rightarrow> (string \<Rightarrow> webhook_verifier) \<Rightarrow> string option \<Rightarrow> (trigger_error, webhook_verifier) result" where
  "resolve_header source wrap named = (case named of None \<Rightarrow> Inl (InvalidSignatureConfig source reason_no_header)
     | Some t \<Rightarrow> Inr (wrap (to_ascii_lowercase t)))"

definition verifier_resolve :: "raw_verifier \<Rightarrow> string \<Rightarrow> (trigger_error, webhook_verifier) result" where
  "verifier_resolve authored source =
     (if family_for_source source \<noteq> None then Inl (InvalidSignatureConfig source reason_registry)
      else case authored of
        RawBodyHexSha256 h \<Rightarrow> resolve_header source VerBodyHexSha256 h
      | RawBodyHex h \<Rightarrow> resolve_header source VerBodyHex h
      | RawBodyBase64Sha256 h \<Rightarrow> resolve_header source VerBodyBase64Sha256 h
      | RawSlackV0 \<Rightarrow> Inr VerSlackV0
      | RawSvixV1 \<Rightarrow> Inr VerSvixV1)"

record webhook =
  hook_source :: string
  hook_events :: "string list option"
  hook_repositories :: "string list option"
  hook_credential_name :: "string option"
  hook_verifier :: "webhook_verifier option"

record cron =
  cron_schedule :: string
  cron_timezone :: string
  cron_message :: string

record mention =
  mention_source :: string
  mention_channel :: string

datatype trigger = WebhookTrigger webhook | CronTrigger cron | MentionTrigger mention

definition default_cron_timezone :: string where "default_cron_timezone = ''UTC''"
definition default_cron_message :: string where "default_cron_message = ''Scheduled Fleet run''"
definition channel_min_body :: nat where "channel_min_body = 8"
definition channel_min_len :: nat where "channel_min_len = 1 + channel_min_body"

definition is_channel_char :: "char \<Rightarrow> bool" where
  "is_channel_char c \<longleftrightarrow> ascii_between CHR ''A'' CHR ''Z'' c \<or> is_ascii_digit c"

definition channel_parse :: "string \<Rightarrow> (trigger_error, string) result" where
  "channel_parse t = (if channel_min_len \<le> length t \<and> list_all is_channel_char t
       \<and> (case t of [] \<Rightarrow> False | c # _ \<Rightarrow> c = CHR ''C'' \<or> c = CHR ''G'')
     then Inr t else Inl (InvalidTriggerSet reason_not_channel_id))"

definition named :: "string \<Rightarrow> string option \<Rightarrow> (trigger_error, string) result" where
  "named reason t = (case t of Some v \<Rightarrow> if v = [] then Inl (InvalidTriggerSet reason) else Inr v
     | None \<Rightarrow> Inl (InvalidTriggerSet reason))"

definition transposed :: "('e, 'a) result option \<Rightarrow> ('e, 'a option) result" where
  "transposed r = (case r of None \<Rightarrow> Inr None | Some (Inl e) \<Rightarrow> Inl e | Some (Inr x) \<Rightarrow> Inr (Some x))"

fun trigger_parse :: "raw_trigger \<Rightarrow> (trigger_error, trigger) result" where
  "trigger_parse (RawWebhook source events repositories credential verifier) =
     res_bind (named reason_no_source source) (\<lambda>s.
     res_bind (transposed (map_option (\<lambda>v. verifier_resolve v s) verifier)) (\<lambda>ver.
       if scheme_for_source s = None \<and> ver = None then Inl (UnverifiableWebhookSource s)
       else Inr (WebhookTrigger \<lparr>hook_source = s, hook_events = events, hook_repositories = repositories,
              hook_credential_name = credential, hook_verifier = ver\<rparr>)))"
| "trigger_parse (RawCron schedule timezone message) =
     res_bind (named reason_no_schedule schedule) (\<lambda>s. Inr (CronTrigger \<lparr>cron_schedule = s,
       cron_timezone = (case timezone of None \<Rightarrow> default_cron_timezone | Some t \<Rightarrow> t),
       cron_message = (case message of None \<Rightarrow> default_cron_message | Some t \<Rightarrow> t)\<rparr>))"
| "trigger_parse (RawMention source channels) =
     res_bind (named reason_mention_no_source source) (\<lambda>s.
     res_bind (ok_or (InvalidTriggerSet reason_mention_no_channel)
         (Option.bind channels (\<lambda>cs. case cs of [] \<Rightarrow> None | c # _ \<Rightarrow> Some c))) (\<lambda>c.
     res_bind (channel_parse c) (\<lambda>ch. Inr (MentionTrigger \<lparr>mention_source = s, mention_channel = ch\<rparr>))))"

section \<open>The set\<close>

fun clashes :: "trigger \<Rightarrow> trigger \<Rightarrow> bool" where
  "clashes (CronTrigger _) (CronTrigger _) \<longleftrightarrow> True"
| "clashes (MentionTrigger _) (MentionTrigger _) \<longleftrightarrow> True"
| "clashes (WebhookTrigger a) (WebhookTrigger b) \<longleftrightarrow> hook_source a = hook_source b"
| "clashes _ _ \<longleftrightarrow> False"

fun duplicate_reason :: "trigger \<Rightarrow> string" where
  "duplicate_reason (WebhookTrigger _) = reason_duplicate_source"
| "duplicate_reason (CronTrigger _) = reason_duplicate_cron"
| "duplicate_reason (MentionTrigger _) = reason_duplicate_mention"

fun prove_unique :: "trigger list \<Rightarrow> (trigger_error, unit) result" where
  "prove_unique [] = Inr ()"
| "prove_unique (t # later) = (if list_ex (clashes t) later then Inl (InvalidTriggerSet (duplicate_reason t))
     else prove_unique later)"

definition parse_set :: "raw_trigger list \<Rightarrow> (trigger_error, trigger list) result" where
  "parse_set authored = (if max_triggers < length authored then Inl (InvalidTriggerSet reason_set_too_large)
     else res_bind (traverse trigger_parse authored) (\<lambda>ts. res_bind (prove_unique ts) (\<lambda>_. Inr ts)))"

end
