(* ===== verification/Ingress.thy ===== *)
theory Ingress
  imports Triggers Intake
begin

text \<open>
  A signed delivery from the door to the ledger: the binding its fleet's row gives and the secret it is
  checked against (\<open>afd_ingress\<close>), the order of the wall's checks and the routes that cross it
  (\<open>afd_api_ingress/src/handler/webhook\<close>), the key a delivery is admitted under, and the fan-out of an
  App's delivery.  Also the steer of a person or an API key (\<open>afd_events/src/steer\<close>), which is admitted the
  same way.  The row, the vault and the JSON readers are what their calls answer.
\<close>

section \<open>Fleets\<close>

datatype lifecycle = Installing | Active | Paused | Stopped | Killed

definition all_lifecycles :: "lifecycle list" where
  "all_lifecycles = [Installing, Active, Paused, Stopped, Killed]"

fun lifecycle_as_str :: "lifecycle \<Rightarrow> string" where
  "lifecycle_as_str Installing = ''installing''"
| "lifecycle_as_str Active = ''active''"
| "lifecycle_as_str Paused = ''paused''"
| "lifecycle_as_str Stopped = ''stopped''"
| "lifecycle_as_str Killed = ''killed''"

definition lifecycle_runnable :: "lifecycle \<Rightarrow> bool" where "lifecycle_runnable s \<longleftrightarrow> s = Active"

definition lifecycle_parse :: "string \<Rightarrow> lifecycle option" where
  "lifecycle_parse raw = List.find (\<lambda>s. lifecycle_as_str s = raw) all_lifecycles"

section \<open>What the ingress calls\<close>

datatype ingress_error = IngressDatastore | IngressQuery | IngressVault | IngressAdmission intake_error
  | ConfigUnreadable | RowUnreadable string

definition column_status :: string where "column_status = ''status''"
definition column_workspace :: string where "column_workspace = ''workspace_id''"
definition column_fleet :: string where "column_fleet = ''id''"

record ingress_row =
  row_workspace :: string
  row_status :: string
  row_document :: string

text \<open>\<open>ig_document\<close> is the reading of a stored document up to its authored triggers; \<open>ig_field\<close> the string
  field of a JSON object; \<open>ig_json\<close> whether bytes are JSON; \<open>ig_to_str\<close> a header value's text.\<close>

record ingress_env =
  ig_codec :: wall_codec
  ig_sha :: "string \<Rightarrow> string"
  ig_document :: "string \<Rightarrow> (unit, raw_trigger list) result"
  ig_row :: "uuid7 \<Rightarrow> (ingress_error, ingress_row option) result"
  ig_vault :: "uuid7 \<Rightarrow> string \<Rightarrow> (ingress_error, string option) result"
  ig_field :: "string \<Rightarrow> string \<Rightarrow> string option"
  ig_json :: "string \<Rightarrow> bool"
  ig_to_str :: "string \<Rightarrow> string option"
  ig_now :: int

section \<open>Bindings\<close>

definition stored_triggers :: "ingress_env \<Rightarrow> string \<Rightarrow> (ingress_error, trigger list) result" where
  "stored_triggers env document = (case ig_document env document of Inl _ \<Rightarrow> Inl ConfigUnreadable
     | Inr authored \<Rightarrow> if \<not> list_all raw_trigger_valid authored then Inl ConfigUnreadable
         else (case parse_set authored of Inl _ \<Rightarrow> Inl ConfigUnreadable | Inr ts \<Rightarrow> Inr ts))"

record binding =
  bn_fleet :: uuid7
  bn_workspace :: uuid7
  bn_status :: lifecycle
  bn_trigger :: webhook
  bn_family :: family

fun webhook_trigger :: "trigger list \<Rightarrow> string \<Rightarrow> webhook option" where
  "webhook_trigger [] source = None"
| "webhook_trigger (t # ts) source = (case t of
     WebhookTrigger h \<Rightarrow> if eq_ignore_ascii_case (hook_source h) source then Some h else webhook_trigger ts source
   | _ \<Rightarrow> webhook_trigger ts source)"

definition stored_status :: "string \<Rightarrow> (ingress_error, lifecycle) result" where
  "stored_status stored = ok_or (RowUnreadable column_status) (lifecycle_parse stored)"

definition trigger_family :: "webhook \<Rightarrow> family option" where
  "trigger_family h = (case hook_verifier h of Some v \<Rightarrow> Some (verifier_family v)
     | None \<Rightarrow> family_for_source (hook_source h))"

definition read_for_source :: "ingress_env \<Rightarrow> uuid7 \<Rightarrow> uuid7 \<Rightarrow> string \<Rightarrow> string \<Rightarrow> string
    \<Rightarrow> (ingress_error, binding option) result" where
  "read_for_source env fleet workspace status document source =
     res_bind (stored_status status) (\<lambda>st.
     res_bind (stored_triggers env document) (\<lambda>ts.
       Inr (Option.bind (webhook_trigger ts source) (\<lambda>h. map_option (\<lambda>fam.
         \<lparr>bn_fleet = fleet, bn_workspace = workspace, bn_status = st, bn_trigger = h, bn_family = fam\<rparr>)
         (trigger_family h)))))"

definition ingress_binding :: "ingress_env \<Rightarrow> uuid7 \<Rightarrow> string \<Rightarrow> (ingress_error, binding option) result" where
  "ingress_binding env fleet source = res_bind (ig_row env fleet) (\<lambda>row. case row of None \<Rightarrow> Inr None
     | Some r \<Rightarrow> (case uuid7_parse (row_workspace r) of Inl _ \<Rightarrow> Inl (RowUnreadable column_workspace)
         | Inr workspace \<Rightarrow> read_for_source env fleet workspace (row_status r) (row_document r) source))"

definition bn_source :: "binding \<Rightarrow> string" where "bn_source b = hook_source (bn_trigger b)"

definition bn_runnable :: "binding \<Rightarrow> bool" where "bn_runnable b \<longleftrightarrow> lifecycle_runnable (bn_status b)"

definition bn_credential_name :: "binding \<Rightarrow> string" where
  "bn_credential_name b = (case hook_credential_name (bn_trigger b) of Some n \<Rightarrow> n | None \<Rightarrow> bn_source b)"

definition bn_signature_header :: "binding \<Rightarrow> string option" where
  "bn_signature_header b = (case Option.bind (hook_verifier (bn_trigger b)) verifier_header of Some h \<Rightarrow> Some h
     | None \<Rightarrow> map_option scheme_signature_header (scheme_for_source (bn_source b)))"

definition bn_admits :: "binding \<Rightarrow> string \<Rightarrow> bool" where
  "bn_admits b event \<longleftrightarrow> (case hook_events (bn_trigger b) of None \<Rightarrow> True
     | Some allowed \<Rightarrow> list_ex (\<lambda>k. k = event) allowed)"

definition bn_serves_repository :: "binding \<Rightarrow> string \<Rightarrow> bool" where
  "bn_serves_repository b repository \<longleftrightarrow> (case hook_repositories (bn_trigger b) of None \<Rightarrow> False
     | Some allowed \<Rightarrow> list_ex (\<lambda>n. eq_ignore_ascii_case n repository) allowed)"

section \<open>Secrets\<close>

definition webhook_secret_name :: string where "webhook_secret_name = ''webhook_secret''"
definition max_name_bytes :: nat where "max_name_bytes = 64"

definition secret_name_parse :: "string \<Rightarrow> string option" where
  "secret_name_parse raw = (if 1 \<le> length raw \<and> length raw \<le> max_name_bytes then Some raw else None)"

definition webhook_secret_field :: "ingress_env \<Rightarrow> string \<Rightarrow> string option" where
  "webhook_secret_field env stored = Option.bind (ig_field env stored webhook_secret_name)
     (\<lambda>v. if v = [] then None else Some v)"

definition stored_credential :: "ingress_env \<Rightarrow> uuid7 \<Rightarrow> string \<Rightarrow> (ingress_error, string option) result" where
  "stored_credential env workspace key = (case secret_name_parse key of None \<Rightarrow> Inr None
     | Some n \<Rightarrow> ig_vault env workspace n)"

definition signing_secret :: "ingress_env \<Rightarrow> binding \<Rightarrow> (ingress_error, string option) result" where
  "signing_secret env b = res_bind (stored_credential env (bn_workspace b) (bn_credential_name b))
     (\<lambda>stored. Inr (Option.bind stored (webhook_secret_field env)))"

definition platform_secret :: "ingress_env \<Rightarrow> uuid7 \<Rightarrow> string \<Rightarrow> (ingress_error, string option) result" where
  "platform_secret env admin key = res_bind (stored_credential env admin key)
     (\<lambda>stored. Inr (Option.bind stored (webhook_secret_field env)))"

section \<open>Crossing the wall\<close>

type_synonym header_map = "string \<Rightarrow> string option"

datatype http_refusal = CodedRefusal string string | FaultRefusal ingress_error

definition max_body_size :: nat where "max_body_size = 1024 * 1024"

definition within_cap :: "string \<Rightarrow> (http_refusal, unit) result" where
  "within_cap body = (if max_body_size < length body
     then Inl (CodedRefusal ''UZ-WH-030'' ''The webhook body exceeds the 1 MiB limit. Reduce the payload size.'') else Inr ())"

definition header_text :: "ingress_env \<Rightarrow> header_map \<Rightarrow> string \<Rightarrow> string option" where
  "header_text env headers n = Option.bind (headers n) (ig_to_str env)"

definition wall :: "wall_refusal \<Rightarrow> http_refusal" where "wall r = CodedRefusal (wall_code r) (wall_detail r)"

definition proof_for :: "ingress_env \<Rightarrow> family \<Rightarrow> binding \<Rightarrow> header_map \<Rightarrow> string \<Rightarrow> proof_headers" where
  "proof_for env fam b headers body =
     (let (signature, timestamp, ident) = (case fam of
        FamSlackV0 \<Rightarrow> (header_text env headers (scheme_signature_header SlackV0),
          Option.bind (scheme_timestamp_header SlackV0) (header_text env headers), None)
      | FamSvixV1 \<Rightarrow> (header_text env headers svix_signature_header, header_text env headers svix_timestamp_header,
          header_text env headers svix_id_header)
      | _ \<Rightarrow> (Option.bind (bn_signature_header b) (header_text env headers), None, None)) in
     \<lparr>proof_signature = signature, proof_timestamp = timestamp, proof_id = ident, proof_body = body\<rparr>)"

record verified_delivery =
  vd_binding :: binding
  vd_body :: string
  vd_replay_id :: string

definition replay_id :: "ingress_env \<Rightarrow> string \<Rightarrow> string" where "replay_id env body = ig_sha env body"

definition detail_fleet_not_found :: string where
  "detail_fleet_not_found = ''No fleet is registered for this webhook endpoint.''"

definition fault_at :: "(ingress_error, 'a) result \<Rightarrow> (http_refusal, 'a) result" where
  "fault_at r = (case r of Inl e \<Rightarrow> Inl (FaultRefusal e) | Inr x \<Rightarrow> Inr x)"

definition verified :: "ingress_env \<Rightarrow> uuid7 \<Rightarrow> string \<Rightarrow> header_map \<Rightarrow> string \<Rightarrow> (http_refusal, verified_delivery) result" where
  "verified env fleet source headers body =
     res_bind (fault_at (ingress_binding env fleet source)) (\<lambda>found.
     res_bind (ok_or (CodedRefusal ''UZ-WH-001'' detail_fleet_not_found) found) (\<lambda>b.
     res_bind (fault_at (signing_secret env b)) (\<lambda>opened. case opened of
       None \<Rightarrow> Inl (wall Unconfigured)
     | Some secret \<Rightarrow> let p = proof_for env (bn_family b) b headers body in
         (case family_verify_at (ig_codec env) (bn_family b) secret p (ig_now env) of
            WallVerified \<Rightarrow> Inr \<lparr>vd_binding = b, vd_body = body,
              vd_replay_id = (if bn_family b = FamSvixV1 then or_default (proof_id p) else replay_id env body)\<rparr>
          | WallRefused r \<Rightarrow> Inl (wall r)))))"

text \<open>The crossings whose secret is the deployment's: an App's and an approval callback's.\<close>

definition checked_platform :: "ingress_env \<Rightarrow> scheme \<Rightarrow> string \<Rightarrow> string \<Rightarrow> string option \<Rightarrow> header_map \<Rightarrow> string
    \<Rightarrow> (http_refusal, string) result" where
  "checked_platform env s secret signature_header timestamp_header headers body =
     (case scheme_verify_at (ig_codec env) s secret (header_text env headers signature_header)
         (Option.bind timestamp_header (header_text env headers)) body (ig_now env) of
        WallVerified \<Rightarrow> Inr body
      | WallRefused r \<Rightarrow> Inl (wall r))"

definition proven_platform :: "ingress_env \<Rightarrow> uuid7 option \<Rightarrow> scheme \<Rightarrow> string \<Rightarrow> string \<Rightarrow> string option \<Rightarrow> header_map
    \<Rightarrow> string \<Rightarrow> (http_refusal, string) result" where
  "proven_platform env admin s key signature_header timestamp_header headers body = (case admin of
     None \<Rightarrow> Inl (wall Unconfigured)
   | Some workspace \<Rightarrow> res_bind (fault_at (platform_secret env workspace key)) (\<lambda>opened. case opened of
       None \<Rightarrow> Inl (wall Unconfigured)
     | Some secret \<Rightarrow> checked_platform env s secret signature_header timestamp_header headers body))"

definition verified_app :: "ingress_env \<Rightarrow> uuid7 option \<Rightarrow> scheme \<Rightarrow> string \<Rightarrow> header_map \<Rightarrow> string
    \<Rightarrow> (http_refusal, string) result" where
  "verified_app env admin s key headers body =
     proven_platform env admin s key (scheme_signature_header s) (scheme_timestamp_header s) headers body"

definition header_approval_signature :: string where "header_approval_signature = ''x-signature''"
definition header_approval_timestamp :: string where "header_approval_timestamp = ''x-signature-timestamp''"
definition approval_identity :: string where "approval_identity = ''approval-signing''"

definition verified_approval :: "ingress_env \<Rightarrow> uuid7 option \<Rightarrow> header_map \<Rightarrow> string \<Rightarrow> (http_refusal, string) result" where
  "verified_approval env admin headers body =
     proven_platform env admin SlackV0 approval_identity header_approval_signature (Some header_approval_timestamp) headers body"

section \<open>Delivering\<close>

datatype surface = FleetSurface | AppSurface

fun surface_producer :: "surface \<Rightarrow> producer" where
  "surface_producer FleetSurface = WebhookProducer"
| "surface_producer AppSurface = WebhookApp"

record delivery =
  dl_event_id :: string
  dl_actor :: string
  dl_request :: string

definition delivery_key :: "binding \<Rightarrow> string \<Rightarrow> string" where
  "delivery_key b event = as_str (bn_fleet b) @ '':'' @ bn_source b @ '':'' @ event"

definition delivery_asked :: "surface \<Rightarrow> binding \<Rightarrow> delivery \<Rightarrow> asked" where
  "delivery_asked sf b d = \<lparr>ask_producer = surface_producer sf, ask_key = Repeated (delivery_key b (dl_event_id d)),
     ask_fleet = as_str (bn_fleet b), ask_workspace = as_str (bn_workspace b), ask_actor = dl_actor d,
     ask_event_type = WebhookEvent, ask_request = dl_request d, ask_reply = NoReply\<rparr>"

definition deliver :: "intake_env \<Rightarrow> surface \<Rightarrow> binding \<Rightarrow> delivery \<Rightarrow> intake_state
    \<Rightarrow> (ingress_error, admitted_answer) result \<times> intake_state" where
  "deliver ienv sf b d st = (case admit ienv (delivery_asked sf b d) st of
     (Inl e, st') \<Rightarrow> (Inl (IngressAdmission e), st') | (Inr a, st') \<Rightarrow> (Inr a, st'))"

definition actor :: "string \<Rightarrow> string" where "actor source = ''webhook:'' @ source"

definition json_payload :: "ingress_env \<Rightarrow> string \<Rightarrow> string option" where
  "json_payload env body = (if ig_json env body \<and> valid_utf8 body then Some body else None)"

datatype hook_response = AcceptedEvent string bool | IgnoredFor string | NotFound | RefusedBy http_refusal

definition detail_event_header :: string where
  "detail_event_header = ''Webhook payload could not be parsed. Check Content-Type and body.''"

definition deliver_proven :: "ingress_env \<Rightarrow> intake_env \<Rightarrow> verified_delivery \<Rightarrow> string \<Rightarrow> intake_state
    \<Rightarrow> hook_response \<times> intake_state" where
  "deliver_proven env ienv v event st =
     (if \<not> bn_runnable (vd_binding v) then (IgnoredFor ''fleet_paused'', st)
      else case json_payload env (vd_body v) of
        None \<Rightarrow> (RefusedBy (CodedRefusal ''UZ-WH-002'' detail_event_header), st)
      | Some digest \<Rightarrow> (case deliver ienv FleetSurface (vd_binding v) \<lparr>dl_event_id = event,
            dl_actor = actor (bn_source (vd_binding v)), dl_request = digest\<rparr> st of
          (Inl e, st') \<Rightarrow> (RefusedBy (FaultRefusal e), st')
        | (Inr a, st') \<Rightarrow> (AcceptedEvent (ad_id (aa_stored a)) (aa_replayed a), st')))"

definition retired_svix_segment :: string where "retired_svix_segment = ''svix''"

definition source_receive :: "ingress_env \<Rightarrow> intake_env \<Rightarrow> string \<Rightarrow> string \<Rightarrow> header_map \<Rightarrow> string \<Rightarrow> intake_state
    \<Rightarrow> hook_response \<times> intake_state" where
  "source_receive env ienv fleet_id source headers body st =
     (if fleet_id = retired_svix_segment then (NotFound, st)
      else case uuid7_parse fleet_id of
        Inl _ \<Rightarrow> (RefusedBy (CodedRefusal ''UZ-REQ-001'' ''fleet_id must be a valid UUIDv7''), st)
      | Inr fleet \<Rightarrow> (case res_bind (within_cap body) (\<lambda>_. verified env fleet source headers body) of
            Inl r \<Rightarrow> (RefusedBy r, st)
          | Inr v \<Rightarrow> deliver_proven env ienv v (vd_replay_id v) st))"

section \<open>Fanning out\<close>

definition max_fanout :: nat where "max_fanout = 100"

record subscriber_row =
  sub_fleet :: string
  sub_workspace :: string
  sub_status :: string
  sub_document :: string

datatype fanout = FanTo "binding list" | Nobody | TooMany nat

definition fanout_of :: "binding list \<Rightarrow> fanout" where
  "fanout_of matched = (if length matched = 0 then Nobody else if max_fanout < length matched then TooMany (length matched)
     else FanTo matched)"

definition subscribed_row :: "ingress_env \<Rightarrow> string \<Rightarrow> string \<Rightarrow> string \<Rightarrow> subscriber_row \<Rightarrow> (ingress_error, binding option) result" where
  "subscribed_row env provider repository event r =
     (case uuid7_parse (sub_fleet r) of Inl _ \<Rightarrow> Inl (RowUnreadable column_fleet)
      | Inr fleet \<Rightarrow> (case uuid7_parse (sub_workspace r) of Inl _ \<Rightarrow> Inl (RowUnreadable column_workspace)
        | Inr owner \<Rightarrow> res_bind (read_for_source env fleet owner (sub_status r) (sub_document r) provider)
            (\<lambda>b. Inr (Option.bind b (\<lambda>x. if bn_serves_repository x repository \<and> bn_admits x event then Some x else None)))))"

definition subscribers :: "ingress_env \<Rightarrow> (ingress_error, subscriber_row list) result \<Rightarrow> string \<Rightarrow> string \<Rightarrow> string
    \<Rightarrow> (ingress_error, fanout) result" where
  "subscribers env rows provider repository event =
     res_bind rows (\<lambda>rs. res_bind (traverse (subscribed_row env provider repository event) rs)
       (\<lambda>found. Inr (fanout_of (List.map_filter id found))))"

text \<open>\<open>ienv\<close> gives what the world answers the n-th delivery.\<close>

fun fan_out_loop :: "(nat \<Rightarrow> intake_env) \<Rightarrow> delivery \<Rightarrow> binding list \<Rightarrow> nat \<Rightarrow> nat \<Rightarrow> intake_state
    \<Rightarrow> (ingress_error, nat) result \<times> intake_state" where
  "fan_out_loop ienv d [] n enqueued st = (Inr enqueued, st)"
| "fan_out_loop ienv d (b # bs) n enqueued st = (case deliver (ienv n) AppSurface b d st of
     (Inl e, st') \<Rightarrow> (Inl e, st')
   | (Inr a, st') \<Rightarrow> fan_out_loop ienv d bs (n + 1) (if aa_replayed a then enqueued else enqueued + 1) st')"

definition actor_app_github :: string where "actor_app_github = ''github-app''"

definition fan_out :: "ingress_env \<Rightarrow> (nat \<Rightarrow> intake_env) \<Rightarrow> binding list \<Rightarrow> string \<Rightarrow> string \<Rightarrow> intake_state
    \<Rightarrow> (ingress_error, nat \<times> nat) result \<times> intake_state" where
  "fan_out env ienv fleets digest body st =
     (case fan_out_loop ienv \<lparr>dl_event_id = replay_id env body, dl_actor = actor_app_github, dl_request = digest\<rparr> fleets 0 0 st of
        (Inl e, st') \<Rightarrow> (Inl e, st') | (Inr n, st') \<Rightarrow> (Inr (length fleets, n), st'))"

section \<open>Steers\<close>

datatype steer_error = SteerAdmission intake_error | OperationConflict

definition key_separator :: string where "key_separator = '':''"
definition actor_prefix :: string where "actor_prefix = ''steer:''"
definition actor_machine :: string where "actor_machine = ''steer:api''"
definition steer_actor :: "string \<Rightarrow> string" where "steer_actor subject = actor_prefix @ subject"
definition is_steer_actor :: "string \<Rightarrow> bool" where "is_steer_actor t \<longleftrightarrow> strip_prefix actor_prefix t \<noteq> None"

record steered =
  st_event_id :: string
  st_admitted_at :: "instant option"

definition scoped_key :: "string \<Rightarrow> string \<Rightarrow> string" where
  "scoped_key fleet operation = fleet @ key_separator @ operation"

definition steer_asked :: "string \<Rightarrow> string \<Rightarrow> string \<Rightarrow> string \<Rightarrow> string option \<Rightarrow> asked" where
  "steer_asked fleet workspace who request key = \<lparr>ask_producer = Steer,
     ask_key = (case key of Some k \<Rightarrow> Repeated k | None \<Rightarrow> Unrepeatable), ask_fleet = fleet, ask_workspace = workspace,
     ask_actor = who, ask_event_type = ChatEvent, ask_request = request, ask_reply = NoReply\<rparr>"

definition answer_repeat :: "intake_env \<Rightarrow> asked \<Rightarrow> admission_row \<Rightarrow> (steer_error, string) result" where
  "answer_repeat env a r = (if ad_fleet r \<noteq> ask_fleet a then Inl OperationConflict
     else if ad_digest r \<noteq> payload_digest (env_sha env) a then Inl OperationConflict else Inr (ad_id r))"

definition repeat_of :: "intake_env \<Rightarrow> asked \<Rightarrow> intake_db \<Rightarrow> (steer_error, string option) result" where
  "repeat_of env a db = (case ask_key a of Unrepeatable \<Rightarrow> Inr None
     | Repeated k \<Rightarrow> (case find_repeated env (ask_producer a) k db of Inl e \<Rightarrow> Inl (SteerAdmission e)
         | Inr None \<Rightarrow> Inr None
         | Inr (Some r) \<Rightarrow> (case answer_repeat env a r of Inl e \<Rightarrow> Inl e | Inr i \<Rightarrow> Inr (Some i))))"

definition despite :: "(steer_error, string option) result \<Rightarrow> intake_error \<Rightarrow> (steer_error, string) result" where
  "despite found refused = (case found of Inr (Some i) \<Rightarrow> Inr i
     | Inl OperationConflict \<Rightarrow> Inl OperationConflict
     | _ \<Rightarrow> Inl (SteerAdmission refused))"

definition steer_append :: "intake_env \<Rightarrow> string \<Rightarrow> string \<Rightarrow> string \<Rightarrow> string \<Rightarrow> string option \<Rightarrow> intake_state
    \<Rightarrow> (steer_error, steered) result \<times> intake_state" where
  "steer_append env fleet workspace who request operation st =
     (let a = steer_asked fleet workspace who request (map_option (scoped_key fleet) operation) in
      case admit env a st of
        (Inl refused, st') \<Rightarrow>
          (if is_over_capacity refused
           then (case despite (repeat_of env a (in_db st')) refused of Inl e \<Rightarrow> Inl e
                 | Inr i \<Rightarrow> Inr \<lparr>st_event_id = i, st_admitted_at = None\<rparr>)
           else Inl (SteerAdmission refused), st')
      | (Inr answer, st') \<Rightarrow>
          (if aa_replayed answer
           then (case answer_repeat env a (aa_stored answer) of Inl e \<Rightarrow> Inl e
                 | Inr i \<Rightarrow> Inr \<lparr>st_event_id = i, st_admitted_at = None\<rparr>)
           else Inr \<lparr>st_event_id = ad_id (aa_stored answer), st_admitted_at = Some (ad_created_at (aa_stored answer))\<rparr>, st'))"

definition steer_replayed :: "intake_env \<Rightarrow> string \<Rightarrow> string \<Rightarrow> string \<Rightarrow> string \<Rightarrow> string \<Rightarrow> intake_db
    \<Rightarrow> (steer_error, string option) result" where
  "steer_replayed env fleet workspace who request operation db =
     repeat_of env (steer_asked fleet workspace who request (Some (scoped_key fleet operation))) db"

end
