(* ===== verification/IntakeLaws.thy ===== *)
theory IntakeLaws
  imports Intake
begin

text \<open>
  What the ledger promises: keys and row ids stay unique whatever faults strike, a repeated request is
  answered with the first row and never refused for room, a fleet never holds more work than its budget,
  and the digest's input tells every field apart.
\<close>

section \<open>The digest's input\<close>

definition nul_free :: "string \<Rightarrow> bool" where "nul_free t \<longleftrightarrow> CHR 0x00 \<notin> set t"

lemma absorbed_inj:
  "list_all nul_free xs \<Longrightarrow> list_all nul_free ys \<Longrightarrow> absorbed xs = absorbed ys \<Longrightarrow> xs = ys"
proof (induction xs arbitrary: ys)
  case Nil
  then show ?case by (cases ys) (auto simp: absorbed_def)
next
  case (Cons x xs)
  then obtain y ys' where ys: "ys = y # ys'" by (cases ys) (auto simp: absorbed_def)
  from Cons.prems have "x @ CHR 0x00 # absorbed xs = y @ CHR 0x00 # absorbed ys'" by (simp add: ys absorbed_def)
  moreover have "CHR 0x00 \<notin> set x" "CHR 0x00 \<notin> set y" using Cons.prems by (auto simp: ys nul_free_def)
  ultimately have "x = y" "absorbed xs = absorbed ys'" by (metis split_once_append option.inject prod.inject)+
  with Cons show ?case by (simp add: ys)
qed

definition asked_text :: "asked \<Rightarrow> bool" where
  "asked_text a \<longleftrightarrow> list_all nul_free (digest_parts a)"

lemma event_type_as_str_inj [simp]: "event_type_as_str a = event_type_as_str b \<longleftrightarrow> a = b"
  by (cases a; cases b) simp_all

lemma event_type_round_trip [simp]: "event_type_parse (event_type_as_str a) = Some a"
  by (cases a) (simp_all add: event_type_parse_def)

text \<open>The bytes a payload's digest is taken over determine the payload: of two requests whose texts hold
  no NUL, equal inputs to the hash mean the same actor, type, workspace, body and reply destination, so no
  field can be moved into its neighbour and no reply shape passes for another.\<close>

theorem digest_input_determines_the_payload:
  assumes "asked_text a" "asked_text b" "absorbed (digest_parts a) = absorbed (digest_parts b)"
  shows "ask_actor a = ask_actor b \<and> ask_event_type a = ask_event_type b \<and> ask_workspace a = ask_workspace b
    \<and> ask_request a = ask_request b \<and> ask_reply a = ask_reply b"
proof -
  from assms have "digest_parts a = digest_parts b" by (auto simp: asked_text_def intro: absorbed_inj)
  then show ?thesis
    by (auto simp: digest_parts_def digest_reply_to_def digest_reply_inherit_def split: reply.splits)
qed

section \<open>Unique keys\<close>

definition ledger_unique :: "intake_db \<Rightarrow> bool" where
  "ledger_unique db \<longleftrightarrow> distinct (map (\<lambda>r. (ad_producer r, ad_key r)) (ledger_rows db)) \<and> distinct (map ad_id (ledger_rows db))"

lemma touch_fields [simp]:
  "ad_id (touch p k now r) = ad_id r" "ad_producer (touch p k now r) = ad_producer r" "ad_key (touch p k now r) = ad_key r"
  "ad_fleet (touch p k now r) = ad_fleet r" "ad_workspace (touch p k now r) = ad_workspace r"
  "ad_digest (touch p k now r) = ad_digest r" "ad_settled_at (touch p k now r) = ad_settled_at r"
  "ad_task (touch p k now r) = ad_task r" "ad_generation (touch p k now r) = ad_generation r"
  "ad_request (touch p k now r) = ad_request r" "ad_created_at (touch p k now r) = ad_created_at r"
  "ad_actor (touch p k now r) = ad_actor r" "ad_event_type (touch p k now r) = ad_event_type r"
  "ad_reply (touch p k now r) = ad_reply r"
  by (simp_all add: touch_def)

lemma new_row_fields [simp]:
  "ad_id (new_row db i a k d now) = i" "ad_fleet (new_row db i a k d now) = ask_fleet a"
  "ad_workspace (new_row db i a k d now) = ask_workspace a"
  "ad_producer (new_row db i a k d now) = producer_as_str (ask_producer a)" "ad_key (new_row db i a k d now) = k"
  "ad_digest (new_row db i a k d now) = d" "ad_settled_at (new_row db i a k d now) = None"
  "ad_task (new_row db i a k d now) = None" "ad_generation (new_row db i a k d now) = None"
  "ad_request (new_row db i a k d now) = ask_request a" "ad_created_at (new_row db i a k d now) = now"
  "ad_actor (new_row db i a k d now) = ask_actor a"
  "ad_event_type (new_row db i a k d now) = event_type_as_str (ask_event_type a)"
  by (simp_all add: new_row_def)

lemma repeated_sql_Some:
  "repeated_sql db p k = Some r \<Longrightarrow> r \<in> set (ledger_rows db) \<and> keyed p k r"
  by (auto simp: repeated_sql_def find_Some_iff)

lemma repeated_sql_None: "repeated_sql db p k = None \<longleftrightarrow> (\<forall>r \<in> set (ledger_rows db). \<not> keyed p k r)"
  by (auto simp: repeated_sql_def find_None_iff)

lemma repeated_sql_unique:
  assumes "ledger_unique db" "r \<in> set (ledger_rows db)" "keyed p k r"
  shows "repeated_sql db p k = Some r"
proof -
  obtain r' where r': "repeated_sql db p k = Some r'"
    using assms(2,3) repeated_sql_None [of db p k] by (cases "repeated_sql db p k") auto
  then have "r' \<in> set (ledger_rows db)" "keyed p k r'" using repeated_sql_Some by blast+
  with assms have "r' = r" by (auto simp: ledger_unique_def keyed_def distinct_map dest: inj_onD)
  with r' show ?thesis by simp
qed

text \<open>Every way an insert can end, on the rows.\<close>

datatype row_change = Untouched | TouchedRow string string instant | AddedRow admission_row

fun changed_rows :: "row_change \<Rightarrow> admission_row list \<Rightarrow> admission_row list" where
  "changed_rows Untouched rs = rs"
| "changed_rows (TouchedRow p k now) rs = map (touch p k now) rs"
| "changed_rows (AddedRow r) rs = rs @ [r]"

lemma faulted_Inr [simp]: "faulted f r = Inr x \<longleftrightarrow> f = None \<and> r = Inr x"
  by (auto simp: faulted_def split: option.splits)

lemma insert_on_Inr:
  assumes "insert_on ff bs db row_id a k digest estimate now = Inr (db', l)"
  defines "p \<equiv> producer_as_str (ask_producer a)"
  shows "(\<exists>r. repeated_sql db p k = Some r \<and> db' = db\<lparr>ledger_rows := map (touch p k now) (ledger_rows db)\<rparr>
        \<and> l = \<lparr>la_row = r\<lparr>ad_updated_at := now\<rparr>, la_inserted = False\<rparr>)
    \<or> (repeated_sql db p k = None \<and> db' = db\<lparr>ledger_rows := ledger_rows db @ [new_row db row_id a k digest now]\<rparr>
        \<and> l = \<lparr>la_row = new_row db row_id a k digest now, la_inserted = True\<rparr>
        \<and> (\<forall>r \<in> set (ledger_rows db). ad_id r \<noteq> row_id)
        \<and> check_fleet_budget ff bs db a k = Inr () \<and> policy_check ff db a k = Inr ()
        \<and> to_i64 estimate < to_i64 (deployment_backlog bs))"
  using assms
  by (auto simp: insert_on_def result_simps insert_admission_sql_def Let_def list_ex_iff p_def
      split: sum.splits option.splits if_splits)

lemma insert_on_unique:
  assumes "insert_on ff bs db row_id a k digest estimate now = Inr (db', l)" "ledger_unique db"
  shows "ledger_unique db'"
  using insert_on_Inr [OF assms(1)]
proof (elim disjE exE conjE)
  assume "repeated_sql db (producer_as_str (ask_producer a)) k = None"
    "db' = db\<lparr>ledger_rows := ledger_rows db @ [new_row db row_id a k digest now]\<rparr>" "\<forall>r \<in> set (ledger_rows db). ad_id r \<noteq> row_id"
  with assms(2) show ?thesis by (fastforce simp: ledger_unique_def repeated_sql_None keyed_def)
qed (use assms(2) in \<open>simp add: ledger_unique_def comp_def\<close>)

text \<open>The database after one call, whatever its faults: as it was, or as the insert left it.\<close>

lemma admit_db:
  "admit env a st = (res, st') \<Longrightarrow> in_db st' = in_db st
    \<or> (\<exists>row_id estimate l. env_row_id env = Inr row_id \<and> insert_on (env_faults env) (env_budgets env) (in_db st) (as_str row_id) a
          (key_of (ask_key a) row_id) (payload_digest (env_sha env) a) estimate (env_now env) = Inr (in_db st', l))"
  by (auto simp: admit_def intake_commit_def Let_def split: sum.splits prod.splits commit_end.splits)

lemma stage_db:
  "stage env q st = (res, st') \<Longrightarrow> in_db st' = in_db st
    \<or> (\<exists>l. insert_on (env_faults env) (env_budgets env) (in_db st) (as_str (prep_row_id q)) (prep_asked q)
         (key_of (ask_key (prep_asked q)) (prep_row_id q)) (payload_digest (env_sha env) (prep_asked q))
         (prep_estimate q) (env_now env) = Inr (in_db st', l))"
  by (auto simp: stage_def split: sum.splits prod.splits)

text \<open>One step of the ledger's life: a call, a staged call, a settlement, or a continuation just staged being bound
  to its task's generation.\<close>

definition settle_row :: "string \<Rightarrow> instant \<Rightarrow> admission_row \<Rightarrow> admission_row" where
  "settle_row i now r = (if ad_id r = i then r\<lparr>ad_settled_at := Some now\<rparr> else r)"

definition bind_row :: "string \<Rightarrow> string \<Rightarrow> int \<Rightarrow> admission_row \<Rightarrow> admission_row" where
  "bind_row i task generation r = (if ad_id r = i \<and> ad_generation r = None
     then r\<lparr>ad_task := Some task, ad_generation := Some generation\<rparr> else r)"

inductive ledger_step :: "budgets \<Rightarrow> intake_state \<Rightarrow> intake_state \<Rightarrow> bool" for bs where
  admits: "env_budgets env = bs \<Longrightarrow> admit env a st = (res, st') \<Longrightarrow> ledger_step bs st st'"
| stages: "env_budgets env = bs \<Longrightarrow> stage env q st = (res, st') \<Longrightarrow> ledger_step bs st st'"
| settles: "ledger_step bs st (st\<lparr>in_db := (in_db st)\<lparr>ledger_rows := map (settle_row i now) (ledger_rows (in_db st))\<rparr>\<rparr>)"
| binds: "ledger_step bs st (st\<lparr>in_db := (in_db st)\<lparr>ledger_rows := map (bind_row i task generation) (ledger_rows (in_db st))\<rparr>\<rparr>)"

inductive_cases ledger_stepE: "ledger_step bs st st'"

lemma settle_row_fields [simp]:
  "ad_id (settle_row i now r) = ad_id r" "ad_producer (settle_row i now r) = ad_producer r"
  "ad_key (settle_row i now r) = ad_key r" "ad_digest (settle_row i now r) = ad_digest r"
  "ad_fleet (settle_row i now r) = ad_fleet r" "ad_workspace (settle_row i now r) = ad_workspace r"
  "ad_request (settle_row i now r) = ad_request r" "ad_created_at (settle_row i now r) = ad_created_at r"
  "ad_actor (settle_row i now r) = ad_actor r" "ad_event_type (settle_row i now r) = ad_event_type r"
  "ad_reply (settle_row i now r) = ad_reply r"
  by (simp_all add: settle_row_def)

lemma bind_row_fields [simp]:
  "ad_id (bind_row i t g r) = ad_id r" "ad_producer (bind_row i t g r) = ad_producer r"
  "ad_key (bind_row i t g r) = ad_key r" "ad_digest (bind_row i t g r) = ad_digest r"
  "ad_fleet (bind_row i t g r) = ad_fleet r" "ad_workspace (bind_row i t g r) = ad_workspace r"
  "ad_request (bind_row i t g r) = ad_request r" "ad_created_at (bind_row i t g r) = ad_created_at r"
  "ad_actor (bind_row i t g r) = ad_actor r" "ad_event_type (bind_row i t g r) = ad_event_type r"
  "ad_reply (bind_row i t g r) = ad_reply r"
  by (simp_all add: bind_row_def)

lemma ledger_step_unique: "ledger_step bs st st' \<Longrightarrow> ledger_unique (in_db st) \<Longrightarrow> ledger_unique (in_db st')"
proof (induction rule: ledger_step.induct)
  case (admits env a st res st')
  then show ?case using admit_db [OF admits(2)] insert_on_unique by fastforce
next
  case (stages env q st res st')
  then show ?case using stage_db [OF stages(2)] insert_on_unique by fastforce
qed (auto simp: ledger_unique_def comp_def)

section \<open>Once and for all\<close>

text \<open>What an admission is: every field of a row but when it was last touched, when it was settled, and the task
  and generation it was bound to.\<close>

definition same_admission :: "admission_row \<Rightarrow> admission_row \<Rightarrow> bool" where
  "same_admission r r' \<longleftrightarrow> ad_id r' = ad_id r \<and> ad_producer r' = ad_producer r \<and> ad_key r' = ad_key r
     \<and> ad_digest r' = ad_digest r \<and> ad_fleet r' = ad_fleet r \<and> ad_workspace r' = ad_workspace r
     \<and> ad_actor r' = ad_actor r \<and> ad_event_type r' = ad_event_type r \<and> ad_request r' = ad_request r
     \<and> ad_reply r' = ad_reply r \<and> ad_created_at r' = ad_created_at r"

lemma same_admission_refl [simp]: "same_admission r r"
  by (simp add: same_admission_def)

lemma same_admission_trans: "same_admission a b \<Longrightarrow> same_admission b c \<Longrightarrow> same_admission a c"
  by (simp add: same_admission_def)

definition rows_kept :: "admission_row list \<Rightarrow> admission_row list \<Rightarrow> bool" where
  "rows_kept rs rs' \<longleftrightarrow> (\<forall>r \<in> set rs. \<exists>r' \<in> set rs'. same_admission r r')"

lemma rows_kept_refl [simp]: "rows_kept rs rs"
  unfolding rows_kept_def using same_admission_refl by blast

lemma rows_kept_trans: "rows_kept a b \<Longrightarrow> rows_kept b c \<Longrightarrow> rows_kept a c"
  unfolding rows_kept_def by (meson same_admission_trans)

lemma rows_kept_map: "(\<And>r. same_admission r (f r)) \<Longrightarrow> rows_kept rs (map f rs)"
  by (auto simp: rows_kept_def)

lemma insert_on_keeps:
  "insert_on ff bs db row_id a k digest estimate now = Inr (db', l) \<Longrightarrow> rows_kept (ledger_rows db) (ledger_rows db')"
proof (drule insert_on_Inr, elim disjE exE conjE)
  assume "db' = db\<lparr>ledger_rows := map (touch (producer_as_str (ask_producer a)) k now) (ledger_rows db)\<rparr>"
  then show ?thesis by (simp add: rows_kept_map same_admission_def)
next
  assume "db' = db\<lparr>ledger_rows := ledger_rows db @ [new_row db row_id a k digest now]\<rparr>"
  then show ?thesis unfolding rows_kept_def using same_admission_refl by force
qed

lemma ledger_step_keeps:
  "ledger_step bs st st' \<Longrightarrow> rows_kept (ledger_rows (in_db st)) (ledger_rows (in_db st'))"
proof (induction rule: ledger_step.induct)
  case (admits env a st res st')
  then show ?case using admit_db [OF admits(2)] by (auto dest: insert_on_keeps)
next
  case (stages env q st res st')
  then show ?case using stage_db [OF stages(2)] by (auto dest: insert_on_keeps)
next
  case (settles st i now)
  show ?case by (simp add: rows_kept_map same_admission_def)
next
  case (binds st i t g)
  show ?case by (simp add: rows_kept_map same_admission_def)
qed

lemma ledger_run:
  "(ledger_step bs)\<^sup>*\<^sup>* st st' \<Longrightarrow> ledger_unique (in_db st) \<Longrightarrow>
    ledger_unique (in_db st') \<and> rows_kept (ledger_rows (in_db st)) (ledger_rows (in_db st'))"
  by (induction rule: rtranclp_induct)
    (auto intro: rows_kept_trans ledger_step_keeps ledger_step_unique)

text \<open>No call answers a fault.\<close>

definition quiet :: "intake_env \<Rightarrow> bool" where
  "quiet env \<longleftrightarrow> (\<exists>u. env_row_id env = Inr u) \<and> env_faults env = \<lparr>at_acquire = None, at_begin = None, at_repeated = None,
     at_policy = None, at_budget = None, at_insert = None, at_commit = Committed, at_find = None\<rparr>"

definition asks_again :: "asked \<Rightarrow> admission_row \<Rightarrow> bool" where
  "asks_again a r \<longleftrightarrow> ask_key a = Repeated (ad_key r) \<and> producer_as_str (ask_producer a) = ad_producer r
     \<and> ask_fleet a = ad_fleet r \<and> ask_workspace a = ad_workspace r"

lemma admit_repeated:
  assumes "ledger_unique (in_db st)" "r \<in> set (ledger_rows (in_db st))" "asks_again a r" "quiet env"
  shows "\<exists>st'. admit env a st = (Inr \<lparr>aa_replayed = True, aa_stored = r\<lparr>ad_updated_at := env_now env\<rparr>\<rparr>, st')
    \<and> map ad_id (ledger_rows (in_db st')) = map ad_id (ledger_rows (in_db st))"
proof -
  let ?p = "producer_as_str (ask_producer a)"
  have found: "repeated_sql (in_db st) ?p (ad_key r) = Some r"
    using assms(1-3) by (intro repeated_sql_unique) (auto simp: asks_again_def keyed_def)
  moreover have "repeated_on_fleet_sql (in_db st) (ask_fleet a) (ask_workspace a) ?p (ad_key r)"
    "list_ex (keyed ?p (ad_key r)) (ledger_rows (in_db st))"
    using assms(2,3) by (auto simp: repeated_on_fleet_sql_def list_ex_iff asks_again_def keyed_def)
  moreover obtain u where "env_row_id env = Inr u" using assms(4) by (auto simp: quiet_def)
  ultimately show ?thesis using assms(3,4)
    by (simp add: admit_def intake_commit_def insert_on_def insert_admission_sql_def policy_check_def
        check_fleet_budget_def fleet_budget_sql_def faulted_def quiet_def asks_again_def key_of_def Let_def comp_def
        split: prod.splits)
qed

text \<open>C35: A request is admitted once and for all.  Once its row is stored, whether or not the caller heard so,
  then after any further calls, settlements and bindings, with any faults and lost answers between, asking
  again with its key, by a call that does not itself fail, is answered with that row as a replay, its identity, payload, actor, type and reply
  destination unchanged; no second row appears, and neither a spent budget nor a
  changed policy refuses it.\<close>

theorem admitted_once_and_for_all:
  assumes "(ledger_step bs)\<^sup>*\<^sup>* st st'" "ledger_unique (in_db st)" "r \<in> set (ledger_rows (in_db st))"
    "asks_again a r" "quiet env"
  shows "\<exists>answer st''. admit env a st' = (Inr answer, st'') \<and> aa_replayed answer \<and> same_admission r (aa_stored answer)
    \<and> map ad_id (ledger_rows (in_db st'')) = map ad_id (ledger_rows (in_db st'))
    \<and> distinct (map (\<lambda>x. (ad_producer x, ad_key x)) (ledger_rows (in_db st'')))"
proof -
  from ledger_run [OF assms(1,2)] assms(3) obtain r' where unique: "ledger_unique (in_db st')"
    and r': "r' \<in> set (ledger_rows (in_db st'))" and same: "same_admission r r'"
    by (auto simp: rows_kept_def)
  have again: "asks_again a r'" using assms(4) same by (auto simp: asks_again_def same_admission_def)
  obtain st'' where a: "admit env a st' = (Inr \<lparr>aa_replayed = True, aa_stored = r'\<lparr>ad_updated_at := env_now env\<rparr>\<rparr>, st'')"
    "map ad_id (ledger_rows (in_db st'')) = map ad_id (ledger_rows (in_db st'))"
    using admit_repeated [OF unique r' again assms(5)] by blast
  have "ledger_unique (in_db st'')" using ledger_step_unique [OF ledger_step.admits [OF refl a(1)] unique] .
  with a same show ?thesis by (auto simp: same_admission_def ledger_unique_def)
qed

section \<open>Budgets\<close>

definition outstanding :: "intake_db \<Rightarrow> string \<Rightarrow> nat" where
  "outstanding db fleet = length (filter (\<lambda>r. ad_fleet r = fleet \<and> waiting_row db r) (ledger_rows db))"

lemma waiting_touch [simp]: "waiting_row db (touch p k now r) = waiting_row db r"
  by (simp add: waiting_row_def)

lemma waiting_rows_only [simp]: "waiting_row (db\<lparr>ledger_rows := rs\<rparr>) r = waiting_row db r"
  by (simp add: waiting_row_def)

lemma fleet_budget_passed:
  assumes "check_fleet_budget ff bs db a k = Inr ()" "int (fleet_backlog bs) < i64_max"
    "repeated_sql db (producer_as_str (ask_producer a)) k = None"
  shows "outstanding db (ask_fleet a) < fleet_backlog bs"
proof -
  have "to_i64 (fleet_backlog bs) = int (fleet_backlog bs)" "to_i64 (u64_succ (fleet_backlog bs)) = int (fleet_backlog bs) + 1"
    using assms(2) by (simp_all add: to_i64_def u64_succ_def u64_max_def int_width)
  moreover have "\<not> list_ex (keyed (producer_as_str (ask_producer a)) k) (ledger_rows db)"
    using assms(3) by (auto simp: list_ex_iff repeated_sql_None)
  ultimately show ?thesis using assms(1)
    by (auto simp: check_fleet_budget_def fleet_budget_sql_def outstanding_def split: if_splits)
qed

lemma insert_on_outstanding:
  assumes "insert_on ff bs db row_id a k digest estimate now = Inr (db', l)" "int (fleet_backlog bs) < i64_max"
    "outstanding db f \<le> fleet_backlog bs"
  shows "outstanding db' f \<le> fleet_backlog bs"
  using insert_on_Inr [OF assms(1)]
proof (elim disjE exE conjE)
  assume new: "db' = db\<lparr>ledger_rows := ledger_rows db @ [new_row db row_id a k digest now]\<rparr>"
    and check: "check_fleet_budget ff bs db a k = Inr ()" "repeated_sql db (producer_as_str (ask_producer a)) k = None"
  from fleet_budget_passed [OF check(1) assms(2) check(2)] assms(3) show ?thesis
    by (auto simp: new outstanding_def)
qed (use assms(3) in \<open>simp add: outstanding_def filter_map comp_def\<close>)

lemma settled_outstanding:
  "outstanding (db\<lparr>ledger_rows := map (settle_row i now) (ledger_rows db)\<rparr>) f \<le> outstanding db f"
proof -
  have "length (filter (\<lambda>r. ad_fleet r = f \<and> waiting_row db (settle_row i now r)) rs)
      \<le> length (filter (\<lambda>r. ad_fleet r = f \<and> waiting_row db r) rs)" for rs
    by (induction rs) (auto simp: waiting_row_def settle_row_def)
  then show ?thesis by (simp add: outstanding_def filter_map comp_def)
qed

lemma bound_outstanding:
  "outstanding (db\<lparr>ledger_rows := map (bind_row i t g) (ledger_rows db)\<rparr>) f \<le> outstanding db f"
proof -
  have "length (filter (\<lambda>r. ad_fleet r = f \<and> waiting_row db (bind_row i t g r)) rs)
      \<le> length (filter (\<lambda>r. ad_fleet r = f \<and> waiting_row db r) rs)" for rs
    by (induction rs) (auto simp: waiting_row_def bind_row_def)
  then show ?thesis by (simp add: outstanding_def filter_map comp_def)
qed

text \<open>C38: A fleet never holds more outstanding work than its budget: over any sequence of admissions, staged
  admissions, bindings and settlements, with whatever faults, the rows that wait for it stay within the limit they
  started within.\<close>

theorem fleet_backlog_stays_within_budget:
  "(ledger_step bs)\<^sup>*\<^sup>* st st' \<Longrightarrow> int (fleet_backlog bs) < i64_max
    \<Longrightarrow> outstanding (in_db st) f \<le> fleet_backlog bs \<Longrightarrow> outstanding (in_db st') f \<le> fleet_backlog bs"
proof (induction rule: rtranclp_induct)
  case (step y z)
  from step.hyps(2) show ?case
  proof (cases rule: ledger_step.cases)
    case (admits env a res)
    then show ?thesis using step admit_db [OF admits(2)] insert_on_outstanding by fastforce
  next
    case (stages env q res)
    then show ?thesis using step stage_db [OF stages(2)] insert_on_outstanding by fastforce
  next
    case (settles i now)
    then show ?thesis using step settled_outstanding [of i now "in_db y" f] by simp
  next
    case (binds i t g)
    then show ?thesis using step bound_outstanding [of i t g "in_db y" f] by simp
  qed
qed

end
