(* ===== verification/WallLaws.thy ===== *)
theory WallLaws
  imports Wall
begin

text \<open>
  What the wall promises: the window is exactly five minutes either way with no overflow, a verdict of
  verified is exactly a tag over the recipe's signed bytes under a usable key, and those bytes fix the
  timestamp and the body they were signed with.
\<close>

section \<open>The window\<close>

text \<open>A timestamp is fresh exactly when it parses as a positive 64-bit integer at most 300 seconds from
  now, on either side; the saturating arithmetic changes no answer at any clock reading, so an extreme
  timestamp is refused and not wrapped into the window.\<close>

theorem fresh_is_within_the_window:
  "in_i64 now \<Longrightarrow> is_fresh_at t now max_drift_seconds \<longleftrightarrow>
    (\<exists>s. parse_i64 t = Some s \<and> 0 < s \<and> \<bar>now - s\<bar> \<le> 300)"
proof -
  assume now: "in_i64 now"
  show ?thesis
  proof (cases "parse_i64 t")
    case (Some s)
    then have "in_i64 s" by (rule parse_i64_range)
    with now Some show ?thesis by (auto simp: is_fresh_at_def max_drift_seconds_def int_width)
  qed (simp add: is_fresh_at_def)
qed

lemma fresh_parses: "is_fresh_at t now d \<Longrightarrow> \<exists>s. parse_i64 t = Some s"
  by (auto simp: is_fresh_at_def split: option.splits)

lemma fresh_chars: "is_fresh_at t now d \<Longrightarrow> CHR '':'' \<notin> set t \<and> CHR ''.'' \<notin> set t \<and> t \<noteq> []"
  using fresh_parses parse_i64_chars [of t]
  by (fastforce simp: is_ascii_digit_def less_eq_char_def)

section \<open>What a recipe signs\<close>

text \<open>The key the tag is computed under, when the stored secret gives one.\<close>

fun signing_key :: "wall_codec \<Rightarrow> family \<Rightarrow> string \<Rightarrow> string option" where
  "signing_key cx FamSvixV1 secret = (if valid_utf8 secret then svix_secret_parse cx secret else None)"
| "signing_key cx _ secret = (if secret = [] then None else Some secret)"

text \<open>The bytes it is computed over.\<close>

fun signed_message :: "family \<Rightarrow> proof_headers \<Rightarrow> string" where
  "signed_message FamSlackV0 p = ''v0:'' @ or_default (proof_timestamp p) @ '':'' @ proof_body p"
| "signed_message FamSvixV1 p = or_default (proof_id p) @ ''.'' @ or_default (proof_timestamp p) @ ''.'' @ proof_body p"
| "signed_message _ p = proof_body p"

text \<open>The tags its header presents.\<close>

definition header_tags :: "string \<Rightarrow> (string \<Rightarrow> string option) \<Rightarrow> proof_headers \<Rightarrow> string set" where
  "header_tags prefix dec p = {t. \<exists>d. proof_signature p = Some (prefix @ d) \<and> dec d = Some t \<and> length t = hmac_tag_len}"

fun presented_tags :: "wall_codec \<Rightarrow> family \<Rightarrow> proof_headers \<Rightarrow> string set" where
  "presented_tags cx FamBodyHexSha256 p = header_tags ''sha256='' (hex_decode cx) p"
| "presented_tags cx FamBodyHex p = header_tags [] (hex_decode cx) p"
| "presented_tags cx FamSlackV0 p = header_tags ''v0='' (hex_decode cx) p"
| "presented_tags cx FamBodyBase64Sha256 p = header_tags [] (base64_padded cx) p"
| "presented_tags cx FamSvixV1 p = {t. \<exists>d. ''v1,'' @ d \<in> set (split_on CHR '' '' (or_default (proof_signature p)))
     \<and> decode_base64 cx d = Some t \<and> length t = hmac_tag_len}"

text \<open>The replay binding of the recipes that have one.\<close>

fun binding_fresh :: "family \<Rightarrow> proof_headers \<Rightarrow> int \<Rightarrow> bool" where
  "binding_fresh FamSlackV0 p now \<longleftrightarrow> is_fresh_at (or_default (proof_timestamp p)) now max_drift_seconds"
| "binding_fresh FamSvixV1 p now \<longleftrightarrow> or_default (proof_id p) \<noteq> [] \<and> is_fresh_at (or_default (proof_timestamp p)) now max_drift_seconds"
| "binding_fresh _ p now \<longleftrightarrow> True"

lemma is_fresh_empty [simp]: "\<not> is_fresh_at [] now d"
  by (simp add: is_fresh_at_def parse_i64_def)

lemma tag_from_slice_Some [simp]: "tag_from_slice b = Some t \<longleftrightarrow> t = b \<and> length t = hmac_tag_len"
  by (auto simp: tag_from_slice_def)

lemma tag_from_slice_None [simp]: "tag_from_slice b = None \<longleftrightarrow> length b \<noteq> hmac_tag_len"
  by (auto simp: tag_from_slice_def)

lemma decode_hex_tag_None: "decode_hex_tag cx d = None \<longleftrightarrow> (\<forall>t. hex_decode cx d = Some t \<longrightarrow> length t \<noteq> hmac_tag_len)"
  by (auto simp: decode_hex_tag_def bind_eq_None_conv)

lemma decode_hex_tag_Some: "decode_hex_tag cx d = Some t \<longleftrightarrow> hex_decode cx d = Some t \<and> length t = hmac_tag_len"
  by (auto simp: decode_hex_tag_def bind_eq_Some_conv)

lemmas prefix_defs = github_prefix_def slack_prefix_def slack_version_def slack_separator_def field_separator_def
  signature_version_def version_separator_def entry_separator_def

text \<open>One exact reading of the scheme verifier, which the three hexadecimal recipes share.\<close>

lemma scheme_verified:
  "scheme_verify_at cx s secret presented timestamp body now = WallVerified \<longleftrightarrow>
    secret \<noteq> [] \<and> (scheme_timestamp_header s \<noteq> None \<longrightarrow> is_fresh_at (or_default timestamp) now max_drift_seconds)
    \<and> (\<exists>d t. presented = Some (scheme_prefix s @ d) \<and> hex_decode cx d = Some t \<and> length t = hmac_tag_len
        \<and> expected_tag cx s secret timestamp body = Some t)"
  by (auto simp: scheme_verify_at_def strip_prefix_Some decode_hex_tag_Some decode_hex_tag_None tag_verify_def or_default_def
      split: option.splits if_splits)

lemma any_entry_matches_iff:
  "any_entry_matches cx header expected \<longleftrightarrow>
    (\<exists>d. ''v1,'' @ d \<in> set (split_on CHR '' '' header) \<and> decode_base64 cx d = Some expected \<and> length expected = hmac_tag_len)"
proof -
  have "any_entry_matches cx header expected \<longleftrightarrow>
    (\<exists>x \<in> set (List.map_filter (split_once CHR '','') (split_on CHR '' '' header)).
       fst x = ''v1'' \<and> decode_svix_tag cx (snd x) = Some expected)"
    unfolding any_entry_matches_def prefix_defs
    by (force simp: list_ex_iff tag_verify_def)
  then show ?thesis
    by (force simp: split_once_Some decode_svix_tag_def bind_eq_Some_conv)
qed

lemma verified_iff_signed:
  "family_verify_at cx fam secret p now = WallVerified \<longleftrightarrow>
    (\<exists>key. signing_key cx fam secret = Some key \<and> binding_fresh fam p now
      \<and> hmac_sha256 cx key (signed_message fam p) \<in> presented_tags cx fam p)"
proof (cases fam)
  case FamBodyHexSha256
  then show ?thesis
    by (auto simp: proof_verify_def scheme_verified header_tags_def compute_peppered_def prefix_defs)
next
  case FamBodyHex
  then show ?thesis
    by (auto simp: proof_verify_def scheme_verified header_tags_def compute_peppered_def prefix_defs)
next
  case FamSlackV0
  then show ?thesis
    by (cases "proof_timestamp p")
      (auto simp: proof_verify_def scheme_verified header_tags_def compute_peppered_def prefix_defs or_default_def)
next
  case FamBodyBase64Sha256
  then show ?thesis
    by (auto simp: verify_base64_def header_tags_def compute_peppered_def tag_verify_def bind_eq_Some_conv
        split: option.splits)
next
  case FamSvixV1
  then show ?thesis
    by (auto simp: verify_svix_def svix_verify_at_def any_entry_matches_iff compute_peppered_def prefix_defs
        split: option.splits)
qed

text \<open>C34: A delivery passes the wall exactly when its recipe's header presents a 32-byte tag equal to the
  HMAC, under a usable key, of the bytes that recipe signs, and the timestamp it binds is fresh.  No
  other header, missing part or malformed digest verifies, and nothing correctly signed is refused.\<close>

theorem verified_is_exactly_signed:
  "family_verify_at cx fam secret p now = WallVerified \<longleftrightarrow>
    (\<exists>key. signing_key cx fam secret = Some key \<and> binding_fresh fam p now
      \<and> hmac_sha256 cx key (signed_message fam p) \<in> presented_tags cx fam p)"
  by (rule verified_iff_signed)

lemma cut_same: "a @ c # x = b @ c # y \<Longrightarrow> c \<notin> set a \<union> set b \<Longrightarrow> a = b \<and> x = y"
  by (metis Un_iff split_once_append option.inject prod.inject)

text \<open>What is signed fixes what is delivered: two deliveries that pass a recipe's wall on the same signed
  bytes carry the same body, and where the recipe binds a timestamp the same timestamp, so a captured tag
  cannot be moved to another body or a later time.  For Svix the identifiers must not hold the separator,
  which its own never do.\<close>

theorem signed_bytes_fix_the_delivery:
  assumes "family_verify_at cx fam secret p now = WallVerified" "family_verify_at cx fam secret q later = WallVerified"
    "signed_message fam p = signed_message fam q"
    "fam = FamSvixV1 \<longrightarrow> CHR ''.'' \<notin> set (or_default (proof_id p)) \<union> set (or_default (proof_id q))"
  shows "proof_body p = proof_body q
    \<and> (fam = FamSlackV0 \<or> fam = FamSvixV1 \<longrightarrow> or_default (proof_timestamp p) = or_default (proof_timestamp q))
    \<and> (fam = FamSvixV1 \<longrightarrow> or_default (proof_id p) = or_default (proof_id q))"
proof -
  have fresh: "binding_fresh fam p now" "binding_fresh fam q later"
    using assms(1,2) by (auto simp: verified_iff_signed)
  show ?thesis
  proof (cases fam)
    case FamSlackV0
    with fresh have "CHR '':'' \<notin> set (or_default (proof_timestamp p)) \<union> set (or_default (proof_timestamp q))"
      by (auto dest: fresh_chars)
    with FamSlackV0 assms(3) cut_same [of "or_default (proof_timestamp p)" "CHR '':''"] show ?thesis by auto
  next
    case FamSvixV1
    with fresh have "CHR ''.'' \<notin> set (or_default (proof_timestamp p)) \<union> set (or_default (proof_timestamp q))"
      by (auto dest: fresh_chars)
    moreover from FamSvixV1 assms(3,4) have "or_default (proof_id p) = or_default (proof_id q)
        \<and> or_default (proof_timestamp p) @ CHR ''.'' # proof_body p = or_default (proof_timestamp q) @ CHR ''.'' # proof_body q"
      by (intro cut_same [of _ "CHR ''.''"]) simp_all
    ultimately show ?thesis
      using FamSvixV1 cut_same [of "or_default (proof_timestamp p)" "CHR ''.''"] by auto
  qed (use assms(3) in auto)
qed

end
