(* ===== verification/IngressLaws.thy ===== *)
theory IngressLaws
  imports Ingress IntakeLaws WallLaws
begin

text \<open>
  What the door promises: a saved webhook trigger is the one its source selects and always has a recipe;
  nothing reaches the ledger unsigned; a delivery repeated is one run; and the answer to a steer is the
  caller's own event.
\<close>

section \<open>One trigger per source\<close>

lemma slug_lower: "is_slug_char c \<Longrightarrow> ascii_lower c = c"
  by (auto simp: is_slug_char_def ascii_between_def is_ascii_digit_def ascii_lower_def less_eq_char_def)

lemma slug_case: "list_all is_slug_char a \<Longrightarrow> to_ascii_lowercase a = a"
  by (induction a) (auto simp: to_ascii_lowercase_def slug_lower)

lemma named_Inr [simp]: "named r t = Inr s \<longleftrightarrow> t = Some s \<and> s \<noteq> []"
  by (auto simp: named_def split: option.splits)

lemma transposed_Inr: "transposed r = Inr x \<longleftrightarrow> (r = None \<and> x = None) \<or> (\<exists>y. r = Some (Inr y) \<and> x = Some y)"
  by (auto simp: transposed_def split: option.splits sum.splits)

lemma trigger_parse_webhook:
  assumes "trigger_parse raw = Inr (WebhookTrigger h)" "raw_trigger_valid raw"
  shows "list_all is_slug_char (hook_source h) \<and> hook_source h \<noteq> webhook_source_approval \<and> trigger_family h \<noteq> None"
proof (cases raw)
  case (RawWebhook source events repositories credential verifier)
  with assms obtain ver where s: "source = Some (hook_source h)" "hook_verifier h = ver"
    and fam: "scheme_for_source (hook_source h) \<noteq> None \<or> ver \<noteq> None"
    by (auto simp: result_simps split: if_splits)
  from fam have "trigger_family h \<noteq> None"
    by (auto simp: trigger_family_def s family_for_source_def split: option.splits)
  with s assms(2) RawWebhook show ?thesis by (simp add: inner_def is_not_reserved_source_def)
qed (use assms in \<open>auto simp: result_simps\<close>)

lemma prove_unique_Inr:
  "prove_unique ts = Inr () \<Longrightarrow> WebhookTrigger g \<in> set ts \<Longrightarrow> WebhookTrigger h \<in> set ts \<Longrightarrow>
    hook_source g = hook_source h \<Longrightarrow> g = h"
  by (induction ts) (auto simp: list_ex_iff split: if_splits)

lemma stored_triggers_Inr:
  assumes "stored_triggers env document = Inr ts"
  obtains authored where "list_all raw_trigger_valid authored" "map trigger_parse authored = map Inr ts"
    "prove_unique ts = Inr ()" "length ts \<le> max_triggers"
proof -
  from assms obtain authored where a: "list_all raw_trigger_valid authored" "parse_set authored = Inr ts"
    by (auto simp: stored_triggers_def split: sum.splits if_splits)
  then show thesis
    using that [of authored] traverse_length [of trigger_parse authored ts]
    by (auto simp: parse_set_def result_simps traverse_Inr split: if_splits)
qed

lemma stored_webhook:
  assumes "stored_triggers env document = Inr ts" "WebhookTrigger h \<in> set ts"
  shows "list_all is_slug_char (hook_source h) \<and> hook_source h \<noteq> webhook_source_approval \<and> trigger_family h \<noteq> None"
proof -
  from assms(1) obtain authored where a: "list_all raw_trigger_valid authored" "map trigger_parse authored = map Inr ts"
    by (rule stored_triggers_Inr)
  have "Inr (WebhookTrigger h) \<in> set (map trigger_parse authored)" unfolding a(2) using assms(2) by simp
  then obtain raw where raw: "raw \<in> set authored" "trigger_parse raw = Inr (WebhookTrigger h)" by auto
  moreover have "raw_trigger_valid raw" using a(1) raw(1) by (simp add: list_all_iff)
  ultimately show ?thesis using trigger_parse_webhook by blast
qed

lemma webhook_trigger_Some:
  "webhook_trigger ts source = Some g \<Longrightarrow> WebhookTrigger g \<in> set ts \<and> eq_ignore_ascii_case (hook_source g) source"
  by (induction ts) (auto split: trigger.splits if_splits)

lemma webhook_trigger_None:
  "webhook_trigger ts source = None \<Longrightarrow> WebhookTrigger h \<in> set ts \<Longrightarrow> \<not> eq_ignore_ascii_case (hook_source h) source"
  by (induction ts) (auto split: trigger.splits if_splits)

text \<open>A saved webhook trigger can be delivered to: of a document that reads, each declared source selects,
  whatever the case the URL spells it in, exactly the trigger declared for it, and that trigger resolves to
  a signing recipe, so no trigger is shadowed by another and none is accepted that the wall must refuse.\<close>

theorem saved_trigger_has_its_binding:
  assumes "stored_triggers env document = Inr ts" "WebhookTrigger h \<in> set ts"
    "eq_ignore_ascii_case (hook_source h) source" "lifecycle_parse status = Some st"
  shows "\<exists>fam. trigger_family h = Some fam
    \<and> read_for_source env fleet workspace status document source = Inr (Some \<lparr>bn_fleet = fleet,
        bn_workspace = workspace, bn_status = st, bn_trigger = h, bn_family = fam\<rparr>)"
proof -
  have only: "g = h" if "WebhookTrigger g \<in> set ts" "eq_ignore_ascii_case (hook_source g) source" for g
  proof -
    have "hook_source g = hook_source h"
      using that assms(2,3) stored_webhook [OF assms(1)] slug_case
      by (metis eq_ignore_ascii_case_def)
    moreover obtain authored where "map trigger_parse authored = map Inr ts" "prove_unique ts = Inr ()"
      using assms(1) by (rule stored_triggers_Inr)
    ultimately show ?thesis using that(1) assms(2) prove_unique_Inr by blast
  qed
  have "webhook_trigger ts source = Some h"
    using webhook_trigger_None [OF _ assms(2)] webhook_trigger_Some assms(3) only
    by (cases "webhook_trigger ts source") auto
  with stored_webhook [OF assms(1,2)] assms(1,4) show ?thesis
    by (auto simp: read_for_source_def stored_status_def)
qed

section \<open>Nothing unsigned\<close>

lemma fault_at_Inr [simp]: "fault_at r = Inr x \<longleftrightarrow> r = Inr x"
  by (auto simp: fault_at_def split: sum.splits)

lemma verified_Inr:
  assumes "verified env fleet source headers body = Inr v"
  obtains b secret where "ingress_binding env fleet source = Inr (Some b)" "signing_secret env b = Inr (Some secret)"
    "family_verify_at (ig_codec env) (bn_family b) secret (proof_for env (bn_family b) b headers body) (ig_now env) = WallVerified"
    "v = \<lparr>vd_binding = b, vd_body = body, vd_replay_id = (if bn_family b = FamSvixV1
        then or_default (proof_id (proof_for env (bn_family b) b headers body)) else replay_id env body)\<rparr>"
proof -
  from assms obtain b opened where b: "ingress_binding env fleet source = Inr (Some b)" "signing_secret env b = Inr opened"
    and rest: "(case opened of None \<Rightarrow> Inl (wall Unconfigured)
     | Some secret \<Rightarrow> let p = proof_for env (bn_family b) b headers body in
         (case family_verify_at (ig_codec env) (bn_family b) secret p (ig_now env) of
            WallVerified \<Rightarrow> Inr \<lparr>vd_binding = b, vd_body = body,
              vd_replay_id = (if bn_family b = FamSvixV1 then or_default (proof_id p) else replay_id env body)\<rparr>
          | WallRefused r \<Rightarrow> Inl (wall r))) = Inr v"
    unfolding verified_def by (auto simp: res_bind_Inr)
  then obtain secret where "opened = Some secret" by (cases opened) auto
  with b rest that show thesis by (auto simp: Let_def split: wall_verdict.split_asm)
qed

lemma proof_for_body [simp]: "proof_body (proof_for env fam b headers body) = body"
  by (cases fam) (simp_all add: proof_for_def)

lemma ingress_binding_slug:
  assumes "ingress_binding env fleet source = Inr (Some b)"
  shows "bn_fleet b = fleet \<and> list_all is_slug_char (bn_source b)"
proof -
  from assms obtain row where row: "ig_row env fleet = Inr (Some row)"
    and "(case uuid7_parse (row_workspace row) of Inl _ \<Rightarrow> Inl (RowUnreadable column_workspace)
         | Inr workspace \<Rightarrow> read_for_source env fleet workspace (row_status row) (row_document row) source) = Inr (Some b)"
    unfolding ingress_binding_def res_bind_Inr by (auto split: option.split_asm)
  then obtain workspace where "read_for_source env fleet workspace (row_status row) (row_document row) source = Inr (Some b)"
    by (auto split: sum.split_asm)
  then obtain ts where r: "stored_triggers env (row_document row) = Inr ts"
      "webhook_trigger ts source = Some (bn_trigger b)" "bn_fleet b = fleet"
    by (auto simp: read_for_source_def res_bind_Inr bind_eq_Some_conv)
  have "WebhookTrigger (bn_trigger b) \<in> set ts" using webhook_trigger_Some [OF r(2)] by simp
  with r stored_webhook [OF r(1)] show ?thesis by (simp add: bn_source_def)
qed

lemma source_receive_changes:
  assumes "source_receive env ienv fleet_id source headers body st = (r, st')" "st' \<noteq> st"
  shows "\<exists>fleet v. uuid7_parse fleet_id = Inr fleet \<and> length body \<le> max_body_size
    \<and> verified env fleet source headers body = Inr v \<and> deliver_proven env ienv v (vd_replay_id v) st = (r, st')"
  using assms by (auto simp: source_receive_def within_cap_def split: if_splits sum.splits)

lemma insert_on_origin:
  assumes "insert_on ff bs db row_id a k digest estimate now = Inr (db', l)" "row \<in> set (ledger_rows db')"
  shows "row \<in> set (ledger_rows db)
    \<or> ad_fleet row = ask_fleet a \<and> ad_workspace row = ask_workspace a \<and> ad_producer row = producer_as_str (ask_producer a)
      \<and> ad_key row = k \<and> ad_request row = ask_request a
    \<or> (\<exists>old \<in> set (ledger_rows db). same_admission old row)"
  using insert_on_Inr [OF assms(1)]
proof (elim disjE exE conjE)
  assume "db' = db\<lparr>ledger_rows := map (touch (producer_as_str (ask_producer a)) k now) (ledger_rows db)\<rparr>"
  with assms(2) obtain old where "old \<in> set (ledger_rows db)" "row = touch (producer_as_str (ask_producer a)) k now old" by auto
  then show ?thesis by (intro disjI2 bexI [of _ old]) (simp_all add: same_admission_def)
qed (use assms(2) in auto)

text \<open>C37: Nothing unsigned reaches the ledger: a delivery to a fleet's webhook address changes anything only
  when the recipe and the key the fleet's own row leads to, never a header's choice, verify a tag over the
  raw body within the size limit, and then the row written is a webhook's for the fleet of that address, in
  the workspace of its row, under the delivery's own key and of that exact body, unless an
  earlier row was touched, which keeps what it admitted.\<close>

theorem only_signed_deliveries_are_admitted:
  assumes "source_receive env ienv fleet_id source headers body st = (r, st')" "st' \<noteq> st"
  shows "\<exists>fleet b secret key v. uuid7_parse fleet_id = Inr fleet \<and> length body \<le> max_body_size
    \<and> ingress_binding env fleet source = Inr (Some b) \<and> bn_runnable b \<and> signing_secret env b = Inr (Some secret)
    \<and> signing_key (ig_codec env) (bn_family b) secret = Some key
    \<and> binding_fresh (bn_family b) (proof_for env (bn_family b) b headers body) (ig_now env)
    \<and> hmac_sha256 (ig_codec env) key (signed_message (bn_family b) (proof_for env (bn_family b) b headers body))
        \<in> presented_tags (ig_codec env) (bn_family b) (proof_for env (bn_family b) b headers body)
    \<and> verified env fleet source headers body = Inr v
    \<and> (\<forall>row \<in> set (ledger_rows (in_db st')) - set (ledger_rows (in_db st)).
         ad_fleet row = as_str fleet \<and> ad_workspace row = as_str (bn_workspace b)
           \<and> ad_producer row = producer_as_str WebhookProducer \<and> ad_key row = delivery_key b (vd_replay_id v) \<and> ad_request row = body
         \<or> (\<exists>old \<in> set (ledger_rows (in_db st)). same_admission old row))"
proof -
  obtain fleet v where v: "uuid7_parse fleet_id = Inr fleet" "length body \<le> max_body_size"
      "verified env fleet source headers body = Inr v" "deliver_proven env ienv v (vd_replay_id v) st = (r, st')"
    using source_receive_changes [OF assms] by blast
  from v(3) obtain b secret where b: "ingress_binding env fleet source = Inr (Some b)" "signing_secret env b = Inr (Some secret)"
      "family_verify_at (ig_codec env) (bn_family b) secret (proof_for env (bn_family b) b headers body) (ig_now env) = WallVerified"
      "vd_binding v = b" "vd_body v = body"
    by (rule verified_Inr) auto
  define a where "a = delivery_asked FleetSurface b \<lparr>dl_event_id = vd_replay_id v, dl_actor = actor (bn_source b), dl_request = body\<rparr>"
  have a: "ask_fleet a = as_str fleet" "ask_workspace a = as_str (bn_workspace b)" "ask_producer a = WebhookProducer"
      "ask_key a = Repeated (delivery_key b (vd_replay_id v))" "ask_request a = body"
    using ingress_binding_slug [OF b(1)] by (simp_all add: a_def delivery_asked_def)
  have deliver: "bn_runnable b" "\<exists>res. admit ienv a st = (res, st')"
    using v(4) assms(2) b(4,5)
    by (auto simp: a_def deliver_proven_def deliver_def json_payload_def split: if_splits sum.splits prod.splits)
  have rows: "ad_fleet row = as_str fleet \<and> ad_workspace row = as_str (bn_workspace b)
      \<and> ad_producer row = producer_as_str WebhookProducer \<and> ad_key row = delivery_key b (vd_replay_id v) \<and> ad_request row = body
      \<or> (\<exists>old \<in> set (ledger_rows (in_db st)). same_admission old row)"
    if row: "row \<in> set (ledger_rows (in_db st')) - set (ledger_rows (in_db st))" for row
  proof -
    obtain res where "admit ienv a st = (res, st')" using deliver(2) by blast
    from admit_db [OF this] row obtain row_id estimate l where
      "insert_on (env_faults ienv) (env_budgets ienv) (in_db st) (as_str row_id) a (delivery_key b (vd_replay_id v))
        (payload_digest (env_sha ienv) a) estimate (env_now ienv) = Inr (in_db st', l)"
      by (auto simp: a(4) key_of_def)
    from insert_on_origin [OF this] row show ?thesis by (auto simp: a)
  qed
  show ?thesis using v(1-3) b(1-3) deliver(1) rows by (auto simp: verified_iff_signed)
qed

section \<open>One run per delivery\<close>

lemma uuid_no_colon: "uuid7_parse t = Inr u \<Longrightarrow> CHR '':'' \<notin> set (as_str u)"
  using canonical_byte [of t "CHR '':''"] by (auto simp: uuid7_parse_Inr lower_hex_digit_def less_eq_char_def)

lemma slug_no_colon: "list_all is_slug_char s \<Longrightarrow> CHR '':'' \<notin> set s"
  by (auto simp: list_all_iff is_slug_char_def ascii_between_def is_ascii_digit_def less_eq_char_def)

text \<open>A delivery's key names one delivery: for bindings read from the store, equal keys mean the same fleet,
  the same source and the same event, so no delivery can be taken for another fleet's, another source's or
  another event's and be answered as its repeat.\<close>

theorem delivery_keys_tell_deliveries_apart:
  assumes "ingress_binding env f s = Inr (Some b)" "ingress_binding env2 g t = Inr (Some c)"
    "uuid7_parse fs = Inr f" "uuid7_parse gs = Inr g" "delivery_key b e = delivery_key c d"
  shows "f = g \<and> bn_source b = bn_source c \<and> e = d"
proof -
  note b = ingress_binding_slug [OF assms(1)] and c = ingress_binding_slug [OF assms(2)]
  have "as_str f @ CHR '':'' # (bn_source b @ CHR '':'' # e) = as_str g @ CHR '':'' # (bn_source c @ CHR '':'' # d)"
    using assms(5) b c by (simp add: delivery_key_def)
  then have "as_str f = as_str g \<and> bn_source b @ CHR '':'' # e = bn_source c @ CHR '':'' # d"
    by (rule cut_same) (use uuid_no_colon [OF assms(3)] uuid_no_colon [OF assms(4)] in auto)
  moreover from this have "bn_source b = bn_source c \<and> e = d"
    by (intro cut_same [of _ "CHR '':''"]) (use b c slug_no_colon in auto)
  ultimately show ?thesis by (simp add: uuid7.expand)
qed

lemma admit_stored:
  assumes "admit env a st = (Inr answer, st')"
  obtains row_id where "env_row_id env = Inr row_id" "aa_stored answer \<in> set (ledger_rows (in_db st'))"
    "keyed (producer_as_str (ask_producer a)) (key_of (ask_key a) row_id) (aa_stored answer)"
    "\<not> aa_replayed answer \<Longrightarrow> aa_stored answer = new_row (in_db st) (as_str row_id) a (key_of (ask_key a) row_id)
        (payload_digest (env_sha env) a) (env_now env)"
proof -
  obtain row_id where row: "env_row_id env = Inr row_id" using assms by (auto simp: admit_def split: sum.splits)
  then obtain estimate db' l where i: "insert_on (env_faults env) (env_budgets env) (in_db st) (as_str row_id) a
        (key_of (ask_key a) row_id) (payload_digest (env_sha env) a) estimate (env_now env) = Inr (db', l)"
      "in_db st' = db'" "answer = \<lparr>aa_replayed = \<not> la_inserted l, aa_stored = la_row l\<rparr>"
    using assms by (auto simp: admit_def intake_commit_def Let_def split: sum.splits prod.splits commit_end.splits)
  from insert_on_Inr [OF i(1)] show thesis
  proof (elim disjE exE conjE)
    fix r
    assume r: "repeated_sql (in_db st) (producer_as_str (ask_producer a)) (key_of (ask_key a) row_id) = Some r"
      "db' = (in_db st)\<lparr>ledger_rows := map (touch (producer_as_str (ask_producer a)) (key_of (ask_key a) row_id) (env_now env))
          (ledger_rows (in_db st))\<rparr>"
      "l = \<lparr>la_row = r\<lparr>ad_updated_at := env_now env\<rparr>, la_inserted = False\<rparr>"
    from repeated_sql_Some [OF r(1)] have k: "r \<in> set (ledger_rows (in_db st))"
      "keyed (producer_as_str (ask_producer a)) (key_of (ask_key a) row_id) r" by blast+
    then have "r\<lparr>ad_updated_at := env_now env\<rparr> = touch (producer_as_str (ask_producer a)) (key_of (ask_key a) row_id) (env_now env) r"
      by (simp add: touch_def)
    with k r i(2,3) row show thesis by (intro that [OF row]) (auto simp: keyed_def)
  next
    assume "db' = (in_db st)\<lparr>ledger_rows := ledger_rows (in_db st) @ [new_row (in_db st) (as_str row_id) a
        (key_of (ask_key a) row_id) (payload_digest (env_sha env) a) (env_now env)]\<rparr>"
      "l = \<lparr>la_row = new_row (in_db st) (as_str row_id) a (key_of (ask_key a) row_id) (payload_digest (env_sha env) a)
        (env_now env), la_inserted = True\<rparr>"
    with i(2,3) row show thesis by (intro that [OF row]) (auto simp: keyed_def)
  qed
qed

lemma admitted_again:
  assumes "admit env a st = (Inr answer, st1)" "\<not> aa_replayed answer" "ask_key a = Repeated k"
    "ledger_unique (in_db st)" "(ledger_step (env_budgets env))\<^sup>*\<^sup>* st1 st2" "quiet env2"
    "ask_key b = Repeated k" "ask_producer b = ask_producer a" "ask_fleet b = ask_fleet a" "ask_workspace b = ask_workspace a"
  shows "\<exists>again st3. admit env2 b st2 = (Inr again, st3) \<and> aa_replayed again
    \<and> ad_id (aa_stored again) = ad_id (aa_stored answer)
    \<and> map ad_id (ledger_rows (in_db st3)) = map ad_id (ledger_rows (in_db st2))"
proof -
  obtain row_id where stored: "aa_stored answer \<in> set (ledger_rows (in_db st1))"
      "keyed (producer_as_str (ask_producer a)) (key_of (ask_key a) row_id) (aa_stored answer)"
      "aa_stored answer = new_row (in_db st) (as_str row_id) a (key_of (ask_key a) row_id) (payload_digest (env_sha env) a) (env_now env)"
    using assms(1,2) by (auto elim: admit_stored)
  have unique: "ledger_unique (in_db st1)" using ledger_step_unique [OF ledger_step.admits [OF refl assms(1)] assms(4)] .
  from ledger_run [OF assms(5) unique] stored(1) obtain r where r: "ledger_unique (in_db st2)" "r \<in> set (ledger_rows (in_db st2))"
      "same_admission (aa_stored answer) r"
    by (auto simp: rows_kept_def)
  then have "asks_again b r" using assms(3,7-10) stored(2,3)
    by (auto simp: asks_again_def same_admission_def keyed_def key_of_def)
  from admit_repeated [OF r(1,2) this assms(6)] r(3) show ?thesis
    by (auto simp: same_admission_def)
qed

lemma proven_again:
  assumes "deliver_proven env ienv v event st = (AcceptedEvent ev False, st1)" "ledger_unique (in_db st)"
    "(ledger_step (env_budgets ienv))\<^sup>*\<^sup>* st1 st2" "quiet ienv2"
    "bn_fleet (vd_binding w) = bn_fleet (vd_binding v)" "bn_workspace (vd_binding w) = bn_workspace (vd_binding v)"
    "bn_source (vd_binding w) = bn_source (vd_binding v)" "bn_runnable (vd_binding w)" "json_payload env2 (vd_body w) = Some digest"
  shows "\<exists>st3. deliver_proven env2 ienv2 w event st2 = (AcceptedEvent ev True, st3)
    \<and> map ad_id (ledger_rows (in_db st3)) = map ad_id (ledger_rows (in_db st2))"
proof -
  define ask where "ask = (\<lambda>(x :: verified_delivery) body. delivery_asked FleetSurface (vd_binding x)
    \<lparr>dl_event_id = event, dl_actor = actor (bn_source (vd_binding x)), dl_request = body\<rparr>)"
  obtain body answer where a: "admit ienv (ask v body) st = (Inr answer, st1)" "\<not> aa_replayed answer" "ev = ad_id (aa_stored answer)"
    using assms(1) unfolding ask_def
    by (auto simp: deliver_proven_def deliver_def split: if_splits option.splits sum.splits prod.splits)
  have key: "ask_key (ask v body) = Repeated (delivery_key (vd_binding v) event)"
    "ask_key (ask w digest) = Repeated (delivery_key (vd_binding v) event)"
    using assms(5,7) by (simp_all add: ask_def delivery_asked_def delivery_key_def)
  obtain again st3 where again: "admit ienv2 (ask w digest) st2 = (Inr again, st3)" "aa_replayed again"
      "ad_id (aa_stored again) = ev" "map ad_id (ledger_rows (in_db st3)) = map ad_id (ledger_rows (in_db st2))"
    using admitted_again [OF a(1,2) key(1) assms(2,3,4) key(2)] assms(5,6) a(3)
    by (auto simp: ask_def delivery_asked_def)
  then show ?thesis using assms(8,9)
    by (simp add: deliver_proven_def deliver_def ask_def)
qed

text \<open>C36: One delivery is one run.  Once a signed delivery to a fleet's webhook address was accepted, then
  after anything else the ledger went through, the same delivery sent again is accepted as a replay of the
  same event and adds no row, if it verifies, no call of it fails, and the fleet by then is runnable and takes
  the source by the same recipe; however full the ledger has become and however late it comes.  The same is:
  for a Svix trigger the same message id, for every other the same body; signed again, at any later time,
  under whatever secret the trigger has by then.  The answer is accepted with the replayed flag, and no window
  ends it: the route's published description, \<open>status: duplicate\<close> within 24 hours, is not what the code does.\<close>

theorem redelivery_is_the_same_run:
  assumes first: "source_receive env ienv fleet_id source headers body st = (AcceptedEvent ev False, st1)"
    and ledger: "ledger_unique (in_db st)" "(ledger_step (env_budgets ienv))\<^sup>*\<^sup>* st1 st2" "quiet ienv2"
    and fleet: "uuid7_parse fleet_id = Inr fleet" "ingress_binding env fleet source = Inr (Some b)"
    and trigger: "bn_workspace (vd_binding w) = bn_workspace b" "bn_source (vd_binding w) = bn_source b"
      "bn_family (vd_binding w) = bn_family b" "bn_runnable (vd_binding w)"
    and again: "verified env2 fleet source2 headers2 body2 = Inr w" "length body2 \<le> max_body_size" "json_payload env2 body2 \<noteq> None"
    and same: "bn_family b = FamSvixV1 \<Longrightarrow> header_text env2 headers2 svix_id_header = header_text env headers svix_id_header"
      "bn_family b \<noteq> FamSvixV1 \<Longrightarrow> body2 = body" "ig_sha env2 = ig_sha env"
  shows "\<exists>st3. source_receive env2 ienv2 fleet_id source2 headers2 body2 st2 = (AcceptedEvent ev True, st3)
    \<and> map ad_id (ledger_rows (in_db st3)) = map ad_id (ledger_rows (in_db st2))"
proof -
  obtain v where v: "fleet_id \<noteq> retired_svix_segment" "verified env fleet source headers body = Inr v"
      "deliver_proven env ienv v (vd_replay_id v) st = (AcceptedEvent ev False, st1)"
    using first fleet(1) by (auto simp: source_receive_def res_bind_Inr within_cap_def split: if_splits sum.splits)
  have b: "vd_binding v = b" using v(2) fleet(2) by (auto elim!: verified_Inr)
  have c: "ingress_binding env2 fleet source2 = Inr (Some (vd_binding w))" "vd_body w = body2"
    using again(1) by (auto elim!: verified_Inr)
  have "bn_fleet (vd_binding w) = bn_fleet b" using ingress_binding_slug [OF c(1)] ingress_binding_slug [OF fleet(2)] by simp
  moreover have "vd_replay_id w = vd_replay_id v"
    using again(1) v(2) fleet(2) trigger(3) same by (auto elim!: verified_Inr simp: proof_for_def replay_id_def)
  ultimately obtain st3 where "deliver_proven env2 ienv2 w (vd_replay_id w) st2 = (AcceptedEvent ev True, st3)
      \<and> map ad_id (ledger_rows (in_db st3)) = map ad_id (ledger_rows (in_db st2))"
    using proven_again [OF v(3) ledger, of w env2] trigger(1,2,4) again(3) b c(2) by auto
  moreover have "within_cap body2 = Inr ()" using again(2) by (simp add: within_cap_def)
  ultimately show ?thesis using v(1) fleet(1) again(1) by (simp add: source_receive_def)
qed

section \<open>Steers\<close>

lemma answer_repeat_Inr:
  "answer_repeat env a r = Inr i \<longleftrightarrow> ad_fleet r = ask_fleet a \<and> ad_digest r = payload_digest (env_sha env) a \<and> i = ad_id r"
  by (auto simp: answer_repeat_def)

lemma answer_repeat_Inl:
  "answer_repeat env a r = Inl e \<longleftrightarrow> e = OperationConflict \<and> (ad_fleet r \<noteq> ask_fleet a \<or> ad_digest r \<noteq> payload_digest (env_sha env) a)"
  by (auto simp: answer_repeat_def)

text \<open>What an answer to a steer may be, on the ledger it leaves: an id is a stored row of this fleet, this key
  and this payload; a conflict, a row under the key of another fleet or payload; a refusal for want of room,
  no row under the key at all unless the lookup failed too.\<close>

definition steer_answered :: "intake_env \<Rightarrow> asked \<Rightarrow> string \<Rightarrow> intake_db \<Rightarrow> (steer_error, steered) result \<Rightarrow> bool" where
  "steer_answered env a k db res \<longleftrightarrow> (case res of
      Inr s \<Rightarrow> (\<exists>row \<in> set (ledger_rows db). ad_id row = st_event_id s \<and> keyed (producer_as_str Steer) k row
        \<and> ad_fleet row = ask_fleet a \<and> ad_digest row = payload_digest (env_sha env) a)
    | Inl OperationConflict \<Rightarrow> (\<exists>row \<in> set (ledger_rows db). keyed (producer_as_str Steer) k row
        \<and> (ad_fleet row \<noteq> ask_fleet a \<or> ad_digest row \<noteq> payload_digest (env_sha env) a))
    | Inl (SteerAdmission e) \<Rightarrow> is_over_capacity e \<longrightarrow> at_find (env_faults env) = None \<longrightarrow>
        (\<forall>row \<in> set (ledger_rows db). \<not> keyed (producer_as_str Steer) k row))"

lemma repeat_answered:
  "row \<in> set (ledger_rows db) \<Longrightarrow> keyed (producer_as_str Steer) k row \<Longrightarrow> steer_answered env a k db
    (case answer_repeat env a row of Inl e \<Rightarrow> Inl e | Inr i \<Rightarrow> Inr \<lparr>st_event_id = i, st_admitted_at = None\<rparr>)"
  by (auto simp: steer_answered_def answer_repeat_def)

lemma over_capacity_answered:
  assumes "ask_key a = Repeated k" "ask_producer a = Steer"
  shows "steer_answered env a k db (case despite (repeat_of env a db) e of Inl x \<Rightarrow> Inl x
    | Inr i \<Rightarrow> Inr \<lparr>st_event_id = i, st_admitted_at = None\<rparr>)"
proof (cases "at_find (env_faults env)")
  case f: None
  show ?thesis
  proof (cases "repeated_sql db (producer_as_str Steer) k")
    case None
    then have "\<forall>row \<in> set (ledger_rows db). \<not> keyed (producer_as_str Steer) k row" by (simp add: repeated_sql_None)
    with f assms None show ?thesis
      by (simp add: repeat_of_def find_repeated_def faulted_def despite_def steer_answered_def)
  next
    case (Some row)
    note row = repeated_sql_Some [OF this]
    from repeat_answered [of row db k env a] row have
      "steer_answered env a k db (case answer_repeat env a row of Inl e \<Rightarrow> Inl e
         | Inr i \<Rightarrow> Inr \<lparr>st_event_id = i, st_admitted_at = None\<rparr>)" by simp
    with f Some assms show ?thesis
      by (cases "answer_repeat env a row")
        (auto simp: repeat_of_def find_repeated_def faulted_def despite_def answer_repeat_def split: if_splits)
  qed
next
  case (Some f)
  with assms show ?thesis by (simp add: repeat_of_def find_repeated_def faulted_def despite_def steer_answered_def)
qed

text \<open>A steer sent under an operation id is answered with the caller's own event or not at all: an id it
  answers is a stored row of this fleet, this key and this payload; it answers a conflict only when the row
  holding the key is another fleet's or another payload's; and it is refused for want of room only when no
  row holds the key, so a repeat gets through a full ledger.\<close>

theorem steer_answers_the_callers_event:
  assumes "steer_append env fleet workspace who request (Some op) st = (res, st')"
  shows "steer_answered env (steer_asked fleet workspace who request (Some (scoped_key fleet op)))
    (scoped_key fleet op) (in_db st') res"
proof -
  let ?a = "steer_asked fleet workspace who request (Some (scoped_key fleet op))"
  have fields: "ask_key ?a = Repeated (scoped_key fleet op)" "ask_producer ?a = Steer"
    by (simp_all add: steer_asked_def)
  obtain r st1 where a: "admit env ?a st = (r, st1)" by (cases "admit env ?a st") auto
  show ?thesis
  proof (cases r)
    case (Inr answer)
    with a obtain row_id where row: "aa_stored answer \<in> set (ledger_rows (in_db st1))"
        "keyed (producer_as_str Steer) (scoped_key fleet op) (aa_stored answer)"
        "\<not> aa_replayed answer \<Longrightarrow> ad_fleet (aa_stored answer) = ask_fleet ?a \<and> ad_digest (aa_stored answer) = payload_digest (env_sha env) ?a"
      by (auto elim!: admit_stored simp: fields key_of_def)
    with assms a Inr repeat_answered [OF row(1,2), of env ?a] show ?thesis
      by (cases "aa_replayed answer") (auto simp: steer_append_def Let_def steer_answered_def)
  next
    case (Inl e)
    with assms a over_capacity_answered [OF fields, of env "in_db st1" e] show ?thesis
      by (cases "is_over_capacity e") (auto simp: steer_append_def Let_def steer_answered_def)
  qed
qed

end
