(* ===== verification/CeilingLaws.thy ===== *)
theory CeilingLaws
  imports Intake
begin

text \<open>
  The sampled ceiling under concurrency (\<open>afd_admission/src/budget/ceiling\<close>): every atomic operation of
  \<open>admitted\<close>, \<open>claim\<close>, \<open>publish\<close> and the claim's drop is a step of its own, and the steps of any number of
  callers interleave.  The flag lets one caller sample at a time, so one sampler's progress is state;
  a caller that loses the flag changes nothing.  An estimate is two loads, at two instants of such a run.
\<close>

section \<open>The interleaving\<close>

text \<open>How far the caller that holds the flag has come: the count it loaded, and how many admissions had been
  counted when the word held that.\<close>

datatype sampler = Resting | Won | Loaded nat nat | Stored nat nat | Subtracted | Finished

text \<open>Beside the ceiling, what no caller sees: the admissions counted so far, the figure last stored and how
  many of them the word it was paired with had counted, so the figure's query, issued after that load,
  finds them committed.\<close>

record race =
  race_ceiling :: ceiling
  race_sampler :: sampler
  race_total :: nat
  race_rows :: nat
  race_base :: nat

definition race_new :: race where
  "race_new = \<lparr>race_ceiling = ceiling_new, race_sampler = Resting, race_total = 0, race_rows = 0, race_base = 0\<rparr>"

text \<open>A relaxed load may answer a value the word has moved on from since the sampler took the flag's turn:
  any \<open>k\<close> up to what it holds.\<close>

inductive race_step :: "race \<Rightarrow> race \<Rightarrow> bool" where
  counts: "race_step s (s\<lparr>race_ceiling := ceiling_admitted (race_ceiling s), race_total := race_total s + 1\<rparr>)"
| loses: "claim_flag (race_ceiling s) = (False, c) \<Longrightarrow> race_step s (s\<lparr>race_ceiling := claim_drop (False, k) c\<rparr>)"
| wins: "claim_flag (race_ceiling s) = (True, c) \<Longrightarrow> race_step s (s\<lparr>race_ceiling := c, race_sampler := Won\<rparr>)"
| loads: "race_sampler s = Won \<Longrightarrow> k \<le> ceil_since (race_ceiling s) \<Longrightarrow>
    race_step s (s\<lparr>race_sampler := Loaded k (race_total s - (ceil_since (race_ceiling s) - k))\<rparr>)"
| unread: "race_sampler s = Loaded k t \<Longrightarrow> race_step s (s\<lparr>race_sampler := Finished\<rparr>)"
| stores: "race_sampler s = Loaded k t \<Longrightarrow> race_step s
    (s\<lparr>race_ceiling := publish_sampled n (race_ceiling s), race_sampler := Stored k t, race_rows := n, race_base := t\<rparr>)"
| subtracts: "race_sampler s = Stored k t \<Longrightarrow> race_step s
    (s\<lparr>race_ceiling := publish_since k (race_ceiling s), race_sampler := Subtracted\<rparr>)"
| dates: "race_sampler s = Subtracted \<Longrightarrow> race_step s
    (s\<lparr>race_ceiling := publish_read_at now_ms (race_ceiling s), race_sampler := Finished\<rparr>)"
| drops: "race_sampler s = Finished \<Longrightarrow> race_step s
    (s\<lparr>race_ceiling := claim_drop (True, k) (race_ceiling s), race_sampler := Resting\<rparr>)"

lemmas ceiling_ops = ceiling_new_def ceiling_admitted_def claim_flag_def publish_sampled_def publish_since_def
  publish_read_at_def claim_drop_def

definition race_inv :: "race \<Rightarrow> bool" where
  "race_inv s \<longleftrightarrow> (race_total s < 2 ^ 64 \<longrightarrow>
     ceil_sampled (race_ceiling s) = race_rows s \<and> race_base s \<le> race_total s
     \<and> (ceil_sampling (race_ceiling s) \<longleftrightarrow> race_sampler s \<noteq> Resting)
     \<and> (case race_sampler s of
          Stored k t \<Rightarrow> race_base s = t \<and> ceil_since (race_ceiling s) = race_total s - t + k
        | Loaded k t \<Rightarrow> race_base s \<le> t \<and> t \<le> race_total s \<and> k = t - race_base s
            \<and> ceil_since (race_ceiling s) = race_total s - race_base s
        | _ \<Rightarrow> ceil_since (race_ceiling s) = race_total s - race_base s)
     \<and> ceil_since (race_ceiling s) \<le> race_total s)"

lemma race_new_inv: "race_inv race_new"
  by (simp add: race_inv_def race_new_def ceiling_ops)

lemma race_step_inv: "race_step s s' \<Longrightarrow> race_inv s \<Longrightarrow> race_inv s'"
proof (induction rule: race_step.induct)
  case (counts s)
  show ?case
  proof (cases "race_total s + 1 < 2 ^ 64")
    case True
    with counts have "(ceil_since (race_ceiling s) + 1) mod 2 ^ 64 = ceil_since (race_ceiling s) + 1"
      by (auto simp: race_inv_def)
    with counts True show ?thesis
      by (auto simp: race_inv_def ceiling_admitted_def simp del: One_nat_def split: sampler.splits)
  qed (simp add: race_inv_def)
qed (auto simp: race_inv_def ceiling_ops split: sampler.splits)

lemma race_run_inv: "race_step\<^sup>*\<^sup>* race_new s \<Longrightarrow> race_inv s"
  by (induction rule: rtranclp_induct) (auto intro: race_new_inv race_step_inv)

lemma race_step_grows:
  "race_step s s' \<Longrightarrow> race_inv s \<Longrightarrow> race_total s' < 2 ^ 64 \<Longrightarrow>
    race_total s \<le> race_total s' \<and> race_base s \<le> race_base s'"
  by (induction rule: race_step.induct) (auto simp: race_inv_def)

lemma race_run_grows:
  assumes "race_step\<^sup>*\<^sup>* s s'" "race_inv s" "race_total s' < 2 ^ 64"
  shows "race_total s \<le> race_total s' \<and> race_base s \<le> race_base s' \<and> race_inv s'"
  using assms
proof (induction rule: rtranclp_induct)
  case (step y z)
  have "race_total y \<le> race_total z" using step.hyps(2) by (cases rule: race_step.cases) auto
  with step race_step_grows [OF step.hyps(2)] race_step_inv [OF step.hyps(2)] show ?case by auto
qed simp

text \<open>What two loads answer, at two instants of a run, in whichever order.\<close>

lemma two_loads:
  assumes "race_inv a" "race_inv b" "race_total a < 2 ^ 64" "race_total b < 2 ^ 64"
  shows "min (race_rows a + (race_total b - race_base b)) u64_max
      \<le> estimate_of (ceil_sampled (race_ceiling a)) (ceil_since (race_ceiling b))"
    and "(\<And>k t. race_sampler b \<noteq> Stored k t) \<Longrightarrow> estimate_of (ceil_sampled (race_ceiling a)) (ceil_since (race_ceiling b))
      = min (race_rows a + (race_total b - race_base b)) u64_max"
  using assms by (auto simp: race_inv_def estimate_of_def split: sampler.splits)

text \<open>C39: What an estimate can leave out, its two words loaded one after the other while others count and
  publish, of fewer than 2 to the 64 admissions.  At two instants of a run, whichever load came first, the estimate is at least the figure it
  loaded plus the admissions of this process counted by the other load, less only those the figure stored
  by then had counted; so with no figure stored between the loads it leaves out none, and a figure caught
  half published only overstates.  Once nobody is between the two stores of a publication it is exactly
  that; and an estimate whose loads a publication parts may fall short by what that publication took off.\<close>

theorem estimate_leaves_out_only_a_newer_figure:
  assumes "race_step\<^sup>*\<^sup>* race_new a" "race_step\<^sup>*\<^sup>* a b" "race_total b < 2 ^ 64"
  shows "min (race_rows a + (race_total b - race_base a)) u64_max
      \<le> fst (ceiling_estimate (\<lambda>_. race_ceiling b) (race_ceiling a)) + (race_base b - race_base a)
    \<and> min (race_rows b + (race_total a - race_base a)) u64_max
      \<le> estimate_of (ceil_sampled (race_ceiling b)) (ceil_since (race_ceiling a))
    \<and> race_base a \<le> race_base b
    \<and> ((\<nexists>k t. race_sampler b = Stored k t) \<longrightarrow>
        fst (ceiling_estimate (\<lambda>_. race_ceiling b) (race_ceiling a)) = min (race_rows a + (race_total b - race_base b)) u64_max)"
proof -
  have a: "race_inv a" using race_run_inv [OF assms(1)] .
  from race_run_grows [OF assms(2) a assms(3)] have g: "race_total a \<le> race_total b" "race_base a \<le> race_base b" "race_inv b" by auto
  then have t: "race_total a < 2 ^ 64" using assms(3) by simp
  have "race_base b \<le> race_total b" using g(3) assms(3) by (simp add: race_inv_def)
  with two_loads(1) [OF a g(3) t assms(3)] g(2)
  have "min (race_rows a + (race_total b - race_base a)) u64_max
      \<le> estimate_of (ceil_sampled (race_ceiling a)) (ceil_since (race_ceiling b)) + (race_base b - race_base a)" by arith
  with two_loads(1) [OF g(3) a assms(3) t] two_loads(2) [OF a g(3) t assms(3)] g(2) show ?thesis
    by (auto simp: ceiling_estimate_def Let_def)
qed

end
