(* ===== verification/Auth.thy ===== *)
theory Auth
  imports Texts Ids
begin

text \<open>
  Who a request comes from and what it may do (\<open>afd_auth\<close>): the capability vocabulary and its bitset
  (\<open>scope.rs\<close>), the class of a presented credential (\<open>credential.rs\<close>), the planes (\<open>plane.rs\<close>), the
  one procedure that proves it (\<open>authenticate.rs\<close>), the principal (\<open>principal.rs\<close>), the gate
  (\<open>gate.rs\<close>) and minting (\<open>minted.rs\<close>).  The credential directory, the capability source and the
  token verifier are the seams of \<open>Registry\<close>, arguments here as they are type parameters there.
\<close>

section \<open>Scopes\<close>

datatype scope =
    FleetRead | FleetWrite | FleetAdmin | ScheduleRead | ScheduleWrite | SecretRead | SecretWrite |
    ApikeyRead | ApikeyWrite | ApikeyAdmin | GrantRead | GrantWrite | ConnectorRead | ConnectorWrite |
    ModelRead | ModelAdmin | PlatformKeyRead | PlatformKeyAdmin | RunnerRead | RunnerWrite |
    StreamRead | ApprovalRead | RunnerEnroll | ApprovalResolve | BillingRead | WorkspaceAdmin |
    LibraryWrite | PlatformLibraryWrite | RunnerSelf | WorkspaceAny

definition all_scopes :: "scope list" where
  "all_scopes = [
     FleetRead, FleetWrite, FleetAdmin, ScheduleRead, ScheduleWrite, SecretRead, SecretWrite,
     ApikeyRead, ApikeyWrite, ApikeyAdmin, GrantRead, GrantWrite, ConnectorRead, ConnectorWrite,
     ModelRead, ModelAdmin, PlatformKeyRead, PlatformKeyAdmin, RunnerRead, RunnerWrite, StreamRead,
     ApprovalRead, RunnerEnroll, ApprovalResolve, BillingRead, WorkspaceAdmin, LibraryWrite,
     PlatformLibraryWrite, RunnerSelf, WorkspaceAny]"

fun scope_wire :: "scope \<Rightarrow> string" where
  "scope_wire FleetRead = ''fleet:read''"
| "scope_wire FleetWrite = ''fleet:write''"
| "scope_wire FleetAdmin = ''fleet:admin''"
| "scope_wire ScheduleRead = ''schedule:read''"
| "scope_wire ScheduleWrite = ''schedule:write''"
| "scope_wire SecretRead = ''secret:read''"
| "scope_wire SecretWrite = ''secret:write''"
| "scope_wire ApikeyRead = ''apikey:read''"
| "scope_wire ApikeyWrite = ''apikey:write''"
| "scope_wire ApikeyAdmin = ''apikey:admin''"
| "scope_wire GrantRead = ''grant:read''"
| "scope_wire GrantWrite = ''grant:write''"
| "scope_wire ConnectorRead = ''connector:read''"
| "scope_wire ConnectorWrite = ''connector:write''"
| "scope_wire ModelRead = ''model:read''"
| "scope_wire ModelAdmin = ''model:admin''"
| "scope_wire PlatformKeyRead = ''platform-key:read''"
| "scope_wire PlatformKeyAdmin = ''platform-key:admin''"
| "scope_wire RunnerRead = ''runner:read''"
| "scope_wire RunnerWrite = ''runner:write''"
| "scope_wire StreamRead = ''stream:read''"
| "scope_wire ApprovalRead = ''approval:read''"
| "scope_wire RunnerEnroll = ''runner:enroll''"
| "scope_wire ApprovalResolve = ''approval:resolve''"
| "scope_wire BillingRead = ''billing:read''"
| "scope_wire WorkspaceAdmin = ''workspace:admin''"
| "scope_wire LibraryWrite = ''library:write''"
| "scope_wire PlatformLibraryWrite = ''platform-library:write''"
| "scope_wire RunnerSelf = ''runner:self''"
| "scope_wire WorkspaceAny = ''workspace:any''"

text \<open>\<open>self as u32\<close>: declaration order.\<close>

fun scope_index :: "scope \<Rightarrow> nat" where
  "scope_index FleetRead = 0"
| "scope_index FleetWrite = 1"
| "scope_index FleetAdmin = 2"
| "scope_index ScheduleRead = 3"
| "scope_index ScheduleWrite = 4"
| "scope_index SecretRead = 5"
| "scope_index SecretWrite = 6"
| "scope_index ApikeyRead = 7"
| "scope_index ApikeyWrite = 8"
| "scope_index ApikeyAdmin = 9"
| "scope_index GrantRead = 10"
| "scope_index GrantWrite = 11"
| "scope_index ConnectorRead = 12"
| "scope_index ConnectorWrite = 13"
| "scope_index ModelRead = 14"
| "scope_index ModelAdmin = 15"
| "scope_index PlatformKeyRead = 16"
| "scope_index PlatformKeyAdmin = 17"
| "scope_index RunnerRead = 18"
| "scope_index RunnerWrite = 19"
| "scope_index StreamRead = 20"
| "scope_index ApprovalRead = 21"
| "scope_index RunnerEnroll = 22"
| "scope_index ApprovalResolve = 23"
| "scope_index BillingRead = 24"
| "scope_index WorkspaceAdmin = 25"
| "scope_index LibraryWrite = 26"
| "scope_index PlatformLibraryWrite = 27"
| "scope_index RunnerSelf = 28"
| "scope_index WorkspaceAny = 29"

definition scope_bit :: "scope \<Rightarrow> u32" where
  "scope_bit s = push_bit (scope_index s) 1"

definition scope_from_wire :: "string \<Rightarrow> scope option" where
  "scope_from_wire v = List.find (\<lambda>s. scope_wire s = v) all_scopes"

definition hierarchy :: "(scope \<times> scope list) list" where
  "hierarchy = [
     (FleetAdmin, [FleetWrite, FleetRead]), (FleetWrite, [FleetRead]), (ScheduleWrite, [ScheduleRead]),
     (SecretWrite, [SecretRead]), (ApikeyAdmin, [ApikeyWrite, ApikeyRead]),
     (ApikeyWrite, [ApikeyRead]), (GrantWrite, [GrantRead]), (ConnectorWrite, [ConnectorRead]),
     (ModelAdmin, [ModelRead]), (PlatformKeyAdmin, [PlatformKeyRead]), (RunnerWrite, [RunnerRead]),
     (ApprovalResolve, [ApprovalRead])]"

text \<open>\<open>ScopeSet\<close>: a bitset.\<close>

type_synonym scope_set = u32

definition scopes_empty :: scope_set where "scopes_empty = 0"

definition scopes_contains :: "scope_set \<Rightarrow> scope \<Rightarrow> bool" where
  "scopes_contains held s \<longleftrightarrow> and held (scope_bit s) \<noteq> 0"

definition scopes_insert :: "scope_set \<Rightarrow> scope \<Rightarrow> scope_set" where
  "scopes_insert held s = foldl (\<lambda>b t. or b (scope_bit t)) (or held (scope_bit s))
     (case List.find (\<lambda>(parent, _). scope_index parent = scope_index s) hierarchy of
        None \<Rightarrow> [] | Some (_, includes) \<Rightarrow> includes)"

definition from_scopes :: "scope list \<Rightarrow> scope_set" where
  "from_scopes ss = foldl scopes_insert scopes_empty ss"

fun satisfies_any :: "scope_set \<Rightarrow> scope list \<Rightarrow> bool" where
  "satisfies_any held [] \<longleftrightarrow> True"
| "satisfies_any held (s # ss) \<longleftrightarrow> list_ex (scopes_contains held) (s # ss)"

definition scopes_iter :: "scope_set \<Rightarrow> scope list" where
  "scopes_iter held = filter (scopes_contains held) all_scopes"

definition runner_scopes :: scope_set where "runner_scopes = from_scopes [RunnerSelf]"

definition tenant_owner_grant :: "scope list" where
  "tenant_owner_grant = [
     FleetAdmin, ScheduleWrite, SecretWrite, ApikeyAdmin, GrantWrite, ConnectorWrite, BillingRead,
     WorkspaceAdmin, LibraryWrite, ApprovalResolve]"

fun join_with :: "string \<Rightarrow> string list \<Rightarrow> string" where
  "join_with sep [] = []"
| "join_with sep [t] = t"
| "join_with sep (t # ts) = t @ sep @ join_with sep ts"

definition signup_owner_claim :: string where
  "signup_owner_claim = join_with '' '' (map scope_wire tenant_owner_grant)"

definition parse_claim :: "string \<Rightarrow> scope_set" where
  "parse_claim raw = foldl scopes_insert scopes_empty
     (List.map_filter scope_from_wire (filter (\<lambda>t. t \<noteq> []) (split_on CHR '' '' raw)))"

section \<open>Presented credentials\<close>

datatype credential_kind = TenantApiKey | CliCredential | RunnerToken | OidcSessionToken

definition tenant_api_key_prefix :: string where "tenant_api_key_prefix = ''agt_t''"
definition cli_credential_prefix :: string where "cli_credential_prefix = ''afc_''"
definition runner_token_prefix :: string where "runner_token_prefix = ''agt_r''"

definition credential_prefixes :: "(string \<times> credential_kind) list" where
  "credential_prefixes = [(tenant_api_key_prefix, TenantApiKey), (runner_token_prefix, RunnerToken),
     (cli_credential_prefix, CliCredential)]"

text \<open>\<open>Presented\<close>, the raw value.\<close>

definition blank_bytes :: "char list" where "blank_bytes = [CHR '' '', CHR 0x09, CHR 0x0D, CHR 0x0A]"

definition presented_new :: "string \<Rightarrow> (unit, string) result" where
  "presented_new raw = (if list_all (\<lambda>c. c \<in> set blank_bytes) raw then Inl () else Inr raw)"

definition bearer_scheme :: string where "bearer_scheme = ''Bearer ''"

definition from_authorization :: "string \<Rightarrow> (unit, string) result" where
  "from_authorization header = (case strip_prefix bearer_scheme header of None \<Rightarrow> Inl () | Some t \<Rightarrow> presented_new t)"

definition const_starts_with :: "string \<Rightarrow> string \<Rightarrow> bool" where
  "const_starts_with haystack needle \<longleftrightarrow> strip_prefix needle haystack \<noteq> None"

definition kind_of :: "string \<Rightarrow> credential_kind" where
  "kind_of raw = (case List.find (\<lambda>(p, _). const_starts_with raw p) credential_prefixes of
     Some (_, k) \<Rightarrow> k | None \<Rightarrow> OidcSessionToken)"

fun kind_prefix :: "credential_kind \<Rightarrow> string option" where
  "kind_prefix TenantApiKey = Some tenant_api_key_prefix"
| "kind_prefix CliCredential = Some cli_credential_prefix"
| "kind_prefix RunnerToken = Some runner_token_prefix"
| "kind_prefix OidcSessionToken = None"

section \<open>Errors and planes\<close>

datatype auth_error = InvalidOrMissingToken | TokenExpired | AuthUnavailable | TenantKeyRevoked
  | CliCredentialRevoked | InvalidRunnerToken | RunnerStateBlocked

definition is_rejection :: "auth_error \<Rightarrow> bool" where "is_rejection e \<longleftrightarrow> e \<noteq> AuthUnavailable"

fun auth_code :: "auth_error \<Rightarrow> string" where
  "auth_code InvalidOrMissingToken = ''UZ-AUTH-002''"
| "auth_code TokenExpired = ''UZ-AUTH-003''"
| "auth_code AuthUnavailable = ''UZ-AUTH-004''"
| "auth_code TenantKeyRevoked = ''UZ-APIKEY-004''"
| "auth_code CliCredentialRevoked = ''UZ-AUTH-023''"
| "auth_code InvalidRunnerToken = ''UZ-RUN-001''"
| "auth_code RunnerStateBlocked = ''UZ-RUN-009''"

fun auth_detail :: "auth_error \<Rightarrow> string" where
  "auth_detail InvalidOrMissingToken = ''Invalid or missing token''"
| "auth_detail TokenExpired = ''token expired''"
| "auth_detail AuthUnavailable = ''Authentication service unavailable''"
| "auth_detail TenantKeyRevoked = ''API key has been revoked''"
| "auth_detail CliCredentialRevoked = ''Command-line credential has been revoked''"
| "auth_detail InvalidRunnerToken = ''Invalid or missing runner token''"
| "auth_detail RunnerStateBlocked = ''Runner admin state blocks runner-plane access''"

datatype plane = TenantPlane | RunnerPlane

fun plane_accepts :: "plane \<Rightarrow> credential_kind list" where
  "plane_accepts TenantPlane = [OidcSessionToken, TenantApiKey, CliCredential]"
| "plane_accepts RunnerPlane = [RunnerToken]"

definition plane_admits :: "plane \<Rightarrow> credential_kind \<Rightarrow> bool" where
  "plane_admits p k \<longleftrightarrow> k \<in> set (plane_accepts p)"

fun plane_refusal :: "plane \<Rightarrow> auth_error" where
  "plane_refusal TenantPlane = InvalidOrMissingToken"
| "plane_refusal RunnerPlane = InvalidRunnerToken"

section \<open>Principals\<close>

datatype person_credential = SessionTokenHeld "uuid7 option" | TenantApiKeyHeld | CliCredentialHeld

record person =
  person_credential :: person_credential
  person_tenant :: uuid7
  person_subject :: string
  person_scopes :: scope_set

datatype principal = PersonPrincipal person | RunnerPrincipal uuid7 bool

fun principal_scopes :: "principal \<Rightarrow> scope_set" where
  "principal_scopes (PersonPrincipal p) = person_scopes p"
| "principal_scopes (RunnerPrincipal _ _) = runner_scopes"

fun principal_tenant :: "principal \<Rightarrow> uuid7 option" where
  "principal_tenant (PersonPrincipal p) = Some (person_tenant p)"
| "principal_tenant (RunnerPrincipal _ _) = None"

definition workspace_scope :: "person \<Rightarrow> uuid7 option" where
  "workspace_scope p = (case person_credential p of SessionTokenHeld w \<Rightarrow> w | _ \<Rightarrow> None)"

definition require_scope :: "principal \<Rightarrow> scope list \<Rightarrow> (scope list, unit) result" where
  "require_scope p required = (if satisfies_any (principal_scopes p) required then Inr () else Inl required)"

section \<open>The one procedure\<close>

datatype liveness = LiveRow | RevokedRow

datatype credential_record = PersonRecord uuid7 string liveness | MachineRecord uuid7 bool liveness

datatype verify_error = VeMalformed | VeUnsupportedAlgorithm | VeMissingKeyId | VeKeyNotFound | VeSignatureInvalid
  | VeMissingClaim | VeUnreadableCeiling | VeNotYetValid | VeIssuerMismatch | VeAudienceMismatch | VeExpired
  | VeKeySetUnavailable | VeNotConfigured

definition is_provider_fault :: "verify_error \<Rightarrow> bool" where "is_provider_fault e \<longleftrightarrow> e = VeKeySetUnavailable"

record verified_claims =
  claims_subject :: string
  claims_tenant :: "uuid7 option"
  claims_workspace :: "uuid7 option"
  claims_scope :: "string option"

definition body_hex_len :: nat where "body_hex_len = 64"

datatype stored_person = StoredTenantApiKey | StoredCliCredential

fun into_person :: "stored_person \<Rightarrow> person_credential" where
  "into_person StoredTenantApiKey = TenantApiKeyHeld"
| "into_person StoredCliCredential = CliCredentialHeld"

record hashed_class =
  class_kind :: credential_kind
  class_prefix :: string
  class_body_hex_len :: nat
  class_person :: "stored_person option"
  class_unknown :: auth_error
  class_revoked :: auth_error

definition tenant_api_key_class :: hashed_class where
  "tenant_api_key_class = \<lparr>class_kind = TenantApiKey, class_prefix = tenant_api_key_prefix,
     class_body_hex_len = body_hex_len, class_person = Some StoredTenantApiKey,
     class_unknown = InvalidOrMissingToken, class_revoked = TenantKeyRevoked\<rparr>"

definition cli_credential_class :: hashed_class where
  "cli_credential_class = \<lparr>class_kind = CliCredential, class_prefix = cli_credential_prefix,
     class_body_hex_len = body_hex_len, class_person = Some StoredCliCredential,
     class_unknown = InvalidOrMissingToken, class_revoked = CliCredentialRevoked\<rparr>"

definition runner_token_class :: hashed_class where
  "runner_token_class = \<lparr>class_kind = RunnerToken, class_prefix = runner_token_prefix,
     class_body_hex_len = body_hex_len, class_person = None,
     class_unknown = InvalidRunnerToken, class_revoked = RunnerStateBlocked\<rparr>"

fun hashed_class_of :: "credential_kind \<Rightarrow> hashed_class option" where
  "hashed_class_of TenantApiKey = Some tenant_api_key_class"
| "hashed_class_of CliCredential = Some cli_credential_class"
| "hashed_class_of RunnerToken = Some runner_token_class"
| "hashed_class_of OidcSessionToken = None"

definition accepts_shape :: "hashed_class \<Rightarrow> string \<Rightarrow> bool" where
  "accepts_shape c raw \<longleftrightarrow> length raw = length (class_prefix c) + class_body_hex_len c
     \<and> list_all lower_hex_digit (drop (length (class_prefix c)) raw)"

record registry =
  reg_plane :: plane
  reg_directory :: "credential_kind \<Rightarrow> string \<Rightarrow> (unit, credential_record option) result"
  reg_capabilities :: "string \<Rightarrow> (unit, scope_set) result"
  reg_verifier :: "string \<Rightarrow> (verify_error, verified_claims) result"
  reg_digest :: "string \<Rightarrow> string"

definition redact :: "verify_error \<Rightarrow> auth_error \<Rightarrow> auth_error" where
  "redact e fallback = (if e = VeExpired then TokenExpired else if is_provider_fault e then AuthUnavailable else fallback)"

definition authenticate_stored :: "registry \<Rightarrow> hashed_class \<Rightarrow> string \<Rightarrow> (auth_error, principal) result" where
  "authenticate_stored reg c raw = (if \<not> accepts_shape c raw then Inl (class_unknown c)
     else (case reg_directory reg (class_kind c) (reg_digest reg raw) of
       Inl _ \<Rightarrow> Inl AuthUnavailable
     | Inr None \<Rightarrow> Inl (class_unknown c)
     | Inr (Some (MachineRecord rid degraded live)) \<Rightarrow>
         if live = RevokedRow then Inl (class_revoked c)
         else (case class_person c of None \<Rightarrow> Inr (RunnerPrincipal rid degraded) | Some _ \<Rightarrow> Inl (class_unknown c))
     | Inr (Some (PersonRecord tenant subject live)) \<Rightarrow>
         if live = RevokedRow then Inl (class_revoked c)
         else (case class_person c of None \<Rightarrow> Inl (class_unknown c)
           | Some held \<Rightarrow> (case reg_capabilities reg subject of Inl _ \<Rightarrow> Inl AuthUnavailable
               | Inr ss \<Rightarrow> Inr (PersonPrincipal \<lparr>person_credential = into_person held, person_tenant = tenant,
                   person_subject = subject, person_scopes = ss\<rparr>)))))"

definition authenticate_token :: "registry \<Rightarrow> string \<Rightarrow> (auth_error, principal) result" where
  "authenticate_token reg raw = (case reg_verifier reg raw of
     Inl e \<Rightarrow> Inl (redact e (plane_refusal (reg_plane reg)))
   | Inr claims \<Rightarrow> (case claims_tenant claims of None \<Rightarrow> Inl (plane_refusal (reg_plane reg))
       | Some tenant \<Rightarrow> Inr (PersonPrincipal \<lparr>person_credential = SessionTokenHeld (claims_workspace claims),
           person_tenant = tenant, person_subject = claims_subject claims,
           person_scopes = (case claims_scope claims of None \<Rightarrow> scopes_empty | Some t \<Rightarrow> parse_claim t)\<rparr>)))"

definition authenticate :: "registry \<Rightarrow> string \<Rightarrow> (auth_error, principal) result" where
  "authenticate reg raw = (if \<not> plane_admits (reg_plane reg) (kind_of raw) then Inl (plane_refusal (reg_plane reg))
     else (case hashed_class_of (kind_of raw) of
       Some c \<Rightarrow> authenticate_stored reg c raw
     | None \<Rightarrow> authenticate_token reg raw))"

definition authenticate_header :: "registry \<Rightarrow> string \<Rightarrow> (auth_error, principal) result" where
  "authenticate_header reg header = (case from_authorization header of
     Inl _ \<Rightarrow> Inl (plane_refusal (reg_plane reg)) | Inr raw \<Rightarrow> authenticate reg raw)"

text \<open>\<open>NoVerifier\<close> and \<open>NoCapabilitySource\<close>.\<close>

definition no_verifier :: "string \<Rightarrow> (verify_error, verified_claims) result" where "no_verifier raw = Inl VeNotConfigured"
definition no_capability_source :: "string \<Rightarrow> (unit, scope_set) result" where "no_capability_source s = Inl ()"

section \<open>Minting\<close>

definition token_random_bytes :: nat where "token_random_bytes = 32"

text \<open>The draw's bytes and their hexadecimal are the entropy source's and the encoder's.\<close>

record minted_credential =
  minted_value :: string
  minted_digest :: string

definition minted_draw :: "(string \<Rightarrow> string) \<Rightarrow> (string \<Rightarrow> string) \<Rightarrow> credential_kind \<Rightarrow> string option
    \<Rightarrow> (unit, minted_credential) result" where
  "minted_draw digest hex k drawn = (case drawn of None \<Rightarrow> Inl () | Some raw \<Rightarrow>
     let token = (case kind_prefix k of None \<Rightarrow> [] | Some m \<Rightarrow> m) @ hex raw
     in Inr \<lparr>minted_value = token, minted_digest = digest token\<rparr>)"

end
