(* ===== verification/AuthLaws.thy ===== *)
theory AuthLaws
  imports Auth
begin

text \<open>
  What \<open>Auth\<close> promises: the bitset is the closure of the granted scopes under the ladders, a principal
  fits the credential and the plane that proved it, an outage is never a rejection, and a minted
  credential presented back is recognised.
\<close>

section \<open>The bitset as a set of scopes\<close>

lemma all_scopes_index: "all_scopes ! scope_index s = s"
  by (cases s) (simp_all add: all_scopes_def)

lemma scope_index_less: "scope_index s < 30"
  by (cases s) simp_all

lemma in_all_scopes [simp]: "s \<in> set all_scopes"
  by (cases s) (simp_all add: all_scopes_def)

lemma scope_index_eq [simp]: "scope_index s = scope_index t \<longleftrightarrow> s = t"
  by (metis all_scopes_index)

lemma contains_bit: "scopes_contains held s \<longleftrightarrow> bit held (scope_index s)"
  by (simp add: scopes_contains_def scope_bit_def bit_iff_and_push_bit_not_eq_0)

lemma bit_scope_bit: "bit (scope_bit t) (scope_index s) \<longleftrightarrow> s = t"
  using scope_index_less [of s] by (auto simp: scope_bit_def push_bit_eq_mult bit_exp_iff possible_bit_word)

lemma contains_or [simp]: "scopes_contains (or a b) s \<longleftrightarrow> scopes_contains a s \<or> scopes_contains b s"
  by (simp add: contains_bit bit_or_iff)

lemma contains_scope_bit [simp]: "scopes_contains (scope_bit t) s \<longleftrightarrow> s = t"
  by (simp add: contains_bit bit_scope_bit)

lemma contains_empty [simp]: "\<not> scopes_contains scopes_empty s"
  by (simp add: scopes_contains_def scopes_empty_def)

text \<open>The ladders as a relation, and what a scope brings with it.\<close>

definition ladder :: "(scope \<times> scope) set" where
  "ladder = set (concat (map (\<lambda>(p, cs). map (Pair p) cs) hierarchy))"

lemma ladder_trans: "trans ladder"
proof -
  have "\<forall>(a, b) \<in> ladder. \<forall>(c, d) \<in> ladder. b = c \<longrightarrow> (a, d) \<in> ladder" unfolding ladder_def by code_simp
  then show ?thesis by (force intro: transI)
qed

lemma ladder_closure: "(g, s) \<in> ladder\<^sup>* \<longleftrightarrow> s = g \<or> (g, s) \<in> ladder"
  by (auto simp: rtrancl_eq_or_trancl trancl_id [OF ladder_trans])

lemma foldl_or: "scopes_contains (foldl (\<lambda>b t. or b (scope_bit t)) held ts) s \<longleftrightarrow> scopes_contains held s \<or> s \<in> set ts"
  by (induction ts arbitrary: held) auto

lemma find_ladder:
  "distinct (map fst rows) \<Longrightarrow>
    s \<in> set (case List.find (\<lambda>(p, _). p = g) rows of None \<Rightarrow> [] | Some (_, cs) \<Rightarrow> cs)
      \<longleftrightarrow> (\<exists>cs. (g, cs) \<in> set rows \<and> s \<in> set cs)"
proof (induction rows)
  case (Cons r rows)
  then have "\<forall>cs. (fst r, cs) \<notin> set rows" by (force simp: image_iff)
  with Cons show ?case by (cases r) auto
qed simp

lemma contains_insert: "scopes_contains (scopes_insert held g) s \<longleftrightarrow> scopes_contains held s \<or> (g, s) \<in> ladder\<^sup>*"
proof -
  have "distinct (map fst hierarchy)" by code_simp
  from find_ladder [OF this]
  have "s \<in> set (case List.find (\<lambda>(p, _). p = g) hierarchy of None \<Rightarrow> [] | Some (_, cs) \<Rightarrow> cs) \<longleftrightarrow> (g, s) \<in> ladder"
    by (auto simp: ladder_def)
  then show ?thesis by (auto simp: scopes_insert_def foldl_or ladder_closure)
qed

lemma contains_foldl_insert:
  "scopes_contains (foldl scopes_insert held gs) s \<longleftrightarrow> scopes_contains held s \<or> (\<exists>g \<in> set gs. (g, s) \<in> ladder\<^sup>*)"
  by (induction gs arbitrary: held) (auto simp: contains_insert)

lemma wire_distinct: "distinct (map scope_wire all_scopes)"
  by code_simp

lemma wire_inj [simp]: "scope_wire s = scope_wire t \<longleftrightarrow> s = t"
  using wire_distinct by (auto simp: distinct_map dest: inj_onD [OF _ _ in_all_scopes in_all_scopes])

lemma scope_from_wire_Some: "scope_from_wire v = Some s \<longleftrightarrow> v = scope_wire s"
proof
  assume "v = scope_wire s"
  then have "scope_from_wire v \<noteq> None" by (auto simp: scope_from_wire_def find_None_iff)
  then obtain t where "scope_from_wire v = Some t" by auto
  with \<open>v = scope_wire s\<close> show "scope_from_wire v = Some s" by (auto simp: scope_from_wire_def find_Some_iff)
qed (auto simp: scope_from_wire_def find_Some_iff)

lemma scope_from_wire_wire [simp]: "scope_from_wire (scope_wire s) = Some s"
  by (simp add: scope_from_wire_Some)

lemma wire_nonempty: "scope_wire s \<noteq> []"
  by (cases s) simp_all

text \<open>The bitset parsed from a claim refines the set of scopes it should grant: it contains a scope
  exactly when the claim names, as one of its space-separated words, a scope whose ladder reaches it;
  every other word grants nothing, and no capability comes from anywhere else.\<close>

theorem claim_grants_its_closure:
  "scopes_contains (parse_claim raw) s \<longleftrightarrow> (\<exists>g. scope_wire g \<in> set (split_on CHR '' '' raw) \<and> (g, s) \<in> ladder\<^sup>*)"
proof -
  have "g \<in> set (List.map_filter scope_from_wire (filter (\<lambda>t. t \<noteq> []) (split_on CHR '' '' raw)))
      \<longleftrightarrow> scope_wire g \<in> set (split_on CHR '' '' raw)" for g
    using wire_nonempty [of g] by (auto simp: scope_from_wire_Some)
  then show ?thesis by (auto simp: parse_claim_def contains_foldl_insert)
qed

lemma satisfies_any_iff: "satisfies_any held required \<longleftrightarrow> required = [] \<or> (\<exists>s \<in> set required. scopes_contains held s)"
  by (cases required) (auto simp: list_ex_iff)

lemma runner_scopes_only: "scopes_contains runner_scopes s \<longleftrightarrow> s = RunnerSelf"
proof -
  have "(RunnerSelf, s) \<notin> ladder" by (simp add: ladder_def hierarchy_def)
  then show ?thesis by (simp add: runner_scopes_def from_scopes_def contains_insert ladder_closure)
qed

section \<open>Who authenticated\<close>

definition credential_fits :: "credential_kind \<Rightarrow> plane \<Rightarrow> principal \<Rightarrow> bool" where
  "credential_fits k pl p \<longleftrightarrow> (case p of
     RunnerPrincipal _ _ \<Rightarrow> k = RunnerToken \<and> pl = RunnerPlane
   | PersonPrincipal q \<Rightarrow> pl = TenantPlane \<and> (case person_credential q of
         SessionTokenHeld _ \<Rightarrow> k = OidcSessionToken
       | TenantApiKeyHeld \<Rightarrow> k = TenantApiKey
       | CliCredentialHeld \<Rightarrow> k = CliCredential))"

lemma plane_admits_iff:
  "plane_admits pl k \<longleftrightarrow> (pl = RunnerPlane \<longleftrightarrow> k = RunnerToken)"
  by (cases pl; cases k) (simp_all add: plane_admits_def)

lemmas class_defs = tenant_api_key_class_def cli_credential_class_def runner_token_class_def

lemma hashed_class_of_Some:
  "hashed_class_of k = Some c \<Longrightarrow> class_kind c = k \<and> kind_prefix k = Some (class_prefix c) \<and> k \<noteq> OidcSessionToken
     \<and> class_body_hex_len c = 64 \<and> class_unknown c \<noteq> AuthUnavailable \<and> class_revoked c \<noteq> AuthUnavailable
     \<and> (class_person c = None \<longleftrightarrow> k = RunnerToken)
     \<and> (\<forall>h. class_person c = Some h \<longrightarrow> into_person h = (if k = TenantApiKey then TenantApiKeyHeld else CliCredentialHeld))"
  by (cases k) (auto simp: class_defs body_hex_len_def)

lemma authenticate_stored_Inr:
  assumes "authenticate_stored reg c raw = Inr p" "hashed_class_of k = Some c" "plane_admits (reg_plane reg) k"
  shows "credential_fits k (reg_plane reg) p"
  using assms(1,3) hashed_class_of_Some [OF assms(2)]
  by (auto simp: authenticate_stored_def credential_fits_def plane_admits_iff
      split: if_splits sum.splits option.splits credential_record.splits)
    (cases "reg_plane reg"; simp; cases k; simp)+

text \<open>C31: A principal is of the type its credential proves, on the plane that admits it: a runner comes
  only of a runner token on the runner plane, a person only of a person's credential on the tenant plane,
  a workspace ceiling only of a session token; and a runner passes a gate only where the route asks for
  nothing or for \<open>runner:self\<close>.\<close>

theorem principal_fits_its_credential:
  assumes "authenticate_header reg header = Inr p"
  shows "\<exists>raw. header = bearer_scheme @ raw \<and> credential_fits (kind_of raw) (reg_plane reg) p
    \<and> (\<forall>required. (\<exists>rid degraded. p = RunnerPrincipal rid degraded)
         \<longrightarrow> (require_scope p required = Inr () \<longleftrightarrow> required = [] \<or> RunnerSelf \<in> set required))"
proof -
  from assms obtain raw where raw: "header = bearer_scheme @ raw" "authenticate reg raw = Inr p"
    by (auto simp: authenticate_header_def from_authorization_def presented_new_def strip_prefix_Some
        split: sum.splits option.splits if_splits)
  have fits: "credential_fits (kind_of raw) (reg_plane reg) p"
  proof (cases "hashed_class_of (kind_of raw)")
    case (Some c)
    with raw(2) show ?thesis
      by (auto simp: authenticate_def split: if_splits intro: authenticate_stored_Inr)
  next
    case None
    then have "kind_of raw = OidcSessionToken" by (cases "kind_of raw") auto
    with None raw(2) show ?thesis
      by (cases "reg_plane reg")
        (auto simp: authenticate_def authenticate_token_def credential_fits_def plane_admits_iff
          split: if_splits sum.splits option.splits)
  qed
  have "require_scope (RunnerPrincipal rid degraded) required = Inr () \<longleftrightarrow> required = [] \<or> RunnerSelf \<in> set required"
    for rid degraded required
    by (auto simp: require_scope_def satisfies_any_iff runner_scopes_only)
  with raw(1) fits show ?thesis by auto
qed

section \<open>Outages\<close>

lemma not_revoked: "l \<noteq> RevokedRow \<longleftrightarrow> l = LiveRow"
  by (cases l) simp_all

text \<open>What judges the credential could not be reached.\<close>

definition judge_out :: "registry \<Rightarrow> string \<Rightarrow> bool" where
  "judge_out reg raw \<longleftrightarrow> (case hashed_class_of (kind_of raw) of
     None \<Rightarrow> reg_verifier reg raw = Inl VeKeySetUnavailable
   | Some c \<Rightarrow> accepts_shape c raw \<and> (reg_directory reg (kind_of raw) (reg_digest reg raw) = Inl ()
       \<or> (\<exists>tenant subject. reg_directory reg (kind_of raw) (reg_digest reg raw) = Inr (Some (PersonRecord tenant subject LiveRow))
            \<and> kind_of raw \<noteq> RunnerToken \<and> reg_capabilities reg subject = Inl ())))"

text \<open>C32: An outage is never a rejection and never an admission: the answer is \<open>Unavailable\<close> exactly when the
  plane admits the credential and its directory, its capability source or its key set could not be reached
  when asked; every other refusal says the credential itself is bad.  One the plane does not admit gets the
  plane's own refusal, whatever directory, capability source and verifier stand behind it.\<close>

theorem outage_is_never_a_rejection:
  "(authenticate reg raw = Inl AuthUnavailable \<longleftrightarrow> plane_admits (reg_plane reg) (kind_of raw) \<and> judge_out reg raw)
    \<and> (\<forall>e. authenticate reg raw = Inl e \<longrightarrow> is_rejection e \<or> judge_out reg raw)
    \<and> (\<not> plane_admits (reg_plane reg) (kind_of raw) \<longrightarrow> (\<forall>directory capabilities verifier.
        authenticate (reg\<lparr>reg_directory := directory, reg_capabilities := capabilities, reg_verifier := verifier\<rparr>) raw
          = Inl (plane_refusal (reg_plane reg)) \<and> is_rejection (plane_refusal (reg_plane reg))))"
proof -
  have refusal: "plane_refusal (reg_plane reg) \<noteq> AuthUnavailable" by (cases "reg_plane reg") simp_all
  have out: "authenticate reg raw = Inl AuthUnavailable \<longleftrightarrow> judge_out reg raw"
    if "plane_admits (reg_plane reg) (kind_of raw)"
  proof (cases "hashed_class_of (kind_of raw)")
    case (Some c)
    note c = hashed_class_of_Some [OF Some]
    show ?thesis using that Some c
      by (auto simp: authenticate_def authenticate_stored_def judge_out_def not_revoked
          split: if_splits sum.splits option.splits credential_record.splits liveness.splits)
  next
    case None
    then show ?thesis using that refusal
      by (auto simp: authenticate_def authenticate_token_def judge_out_def redact_def
          is_provider_fault_def split: if_splits sum.splits option.splits)
  qed
  show ?thesis
  proof (cases "plane_admits (reg_plane reg) (kind_of raw)")
    case True
    with out show ?thesis by (auto simp: is_rejection_def)
  next
    case False
    with refusal show ?thesis by (auto simp: authenticate_def is_rejection_def)
  qed
qed

section \<open>Minting\<close>

text \<open>No marker is a prefix of another, so first match is the only match.\<close>

lemma prefixes_prefix_free:
  "\<forall>(p, k) \<in> set credential_prefixes. \<forall>(q, l) \<in> set credential_prefixes. const_starts_with p q \<longrightarrow> p = q \<and> k = l"
  by code_simp

lemma kind_of_prefixed: "kind_prefix k = Some m \<Longrightarrow> kind_of (m @ body) = k"
  by (cases k) (auto simp: kind_of_def credential_prefixes_def const_starts_with_def strip_prefix_def
      tenant_api_key_prefix_def cli_credential_prefix_def runner_token_prefix_def)

text \<open>C33: A minted credential presented back is recognised: it classifies as the class it was drawn for,
  has that class's shape, and is looked up by the digest that was stored, so a live row of a person or of
  a machine authenticates as exactly that row.\<close>

theorem minted_credential_authenticates:
  assumes "minted_draw (reg_digest reg) hex k (Some drawn) = Inr m" "k \<noteq> OidcSessionToken"
    "length (hex drawn) = 2 * token_random_bytes" "list_all lower_hex_digit (hex drawn)"
    "plane_admits (reg_plane reg) k" "reg_directory reg k (minted_digest m) = Inr (Some row)"
  shows "authenticate reg (minted_value m) = (case row of
      MachineRecord rid degraded LiveRow \<Rightarrow>
        if k = RunnerToken then Inr (RunnerPrincipal rid degraded) else Inl InvalidOrMissingToken
    | PersonRecord tenant subject LiveRow \<Rightarrow> if k = RunnerToken then Inl InvalidRunnerToken
        else (case reg_capabilities reg subject of Inl _ \<Rightarrow> Inl AuthUnavailable
          | Inr ss \<Rightarrow> Inr (PersonPrincipal \<lparr>person_credential = if k = TenantApiKey then TenantApiKeyHeld else CliCredentialHeld,
              person_tenant = tenant, person_subject = subject, person_scopes = ss\<rparr>))
    | _ \<Rightarrow> Inl (case k of TenantApiKey \<Rightarrow> TenantKeyRevoked | CliCredential \<Rightarrow> CliCredentialRevoked | _ \<Rightarrow> RunnerStateBlocked))"
proof -
  obtain c where c: "hashed_class_of k = Some c" using assms(2) by (cases k) auto
  note facts = hashed_class_of_Some [OF c]
  have m: "minted_value m = class_prefix c @ hex drawn" "minted_digest m = reg_digest reg (minted_value m)"
    using assms(1) facts by (auto simp: minted_draw_def Let_def)
  have kind: "kind_of (minted_value m) = k" using kind_of_prefixed facts m(1) by simp
  have shape: "accepts_shape c (minted_value m)"
    using facts assms(3,4) by (simp add: accepts_shape_def m(1) token_random_bytes_def)
  show ?thesis
    using assms(5,6) c facts kind shape m(2) assms(2)
    by (cases k) (auto simp: authenticate_def authenticate_stored_def class_defs
        split: credential_record.splits liveness.splits sum.splits)
qed

end
