(* ===== verification/AccessSamples.thy ===== *)
theory AccessSamples
  imports AuthLaws WallLaws
begin

text \<open>
  Concrete credentials and deliveries: a directory that knows one tenant key and one runner token, one
  that is down, and a codec whose tag is the message cut to 32 bytes.  The properties of the
  authentication and of the signature wall are applied here at these inputs.
\<close>

section \<open>Credentials\<close>

definition sample_hex :: string where "sample_hex = replicate 64 CHR ''0''"

definition sample_directory :: "credential_kind \<Rightarrow> string \<Rightarrow> (unit, credential_record option) result" where
  "sample_directory k d = (case k of
     TenantApiKey \<Rightarrow> Inr (Some (PersonRecord (Uuid7 ''tenant'') ''someone'' LiveRow))
   | RunnerToken \<Rightarrow> Inr (Some (MachineRecord (Uuid7 ''runner'') True LiveRow))
   | _ \<Rightarrow> Inr None)"

definition sample_registry :: "plane \<Rightarrow> registry" where
  "sample_registry p = \<lparr>reg_plane = p, reg_directory = sample_directory,
     reg_capabilities = (\<lambda>_. Inr (parse_claim ''fleet:write'')), reg_verifier = no_verifier, reg_digest = rev\<rparr>"

definition down_registry :: registry where
  "down_registry = (sample_registry TenantPlane)\<lparr>reg_directory := (\<lambda>_ _. Inl ())\<rparr>"

lemmas registry_defs = sample_registry_def down_registry_def sample_directory_def sample_hex_def

lemma sample_runner:
  "authenticate_header (sample_registry RunnerPlane) (bearer_scheme @ ''agt_r'' @ sample_hex)
    = Inr (RunnerPrincipal (Uuid7 ''runner'') True)"
  by code_simp

theorem principal_fits_its_credential_witness:
  "credential_fits (kind_of (''agt_r'' @ sample_hex)) RunnerPlane (RunnerPrincipal (Uuid7 ''runner'') True)
    \<and> require_scope (RunnerPrincipal (Uuid7 ''runner'') True) [FleetRead] \<noteq> Inr ()"
  using principal_fits_its_credential [OF sample_runner]
  by (auto simp: sample_registry_def bearer_scheme_def)

lemma sample_out: "plane_admits (reg_plane down_registry) (kind_of (''agt_t'' @ sample_hex))
    \<and> kind_of (''agt_t'' @ sample_hex) = TenantApiKey \<and> accepts_shape tenant_api_key_class (''agt_t'' @ sample_hex)
    \<and> \<not> plane_admits RunnerPlane TenantApiKey"
  by code_simp

theorem outage_is_never_a_rejection_witness:
  "authenticate down_registry (''agt_t'' @ sample_hex) = Inl AuthUnavailable
    \<and> authenticate ((sample_registry RunnerPlane)\<lparr>reg_directory := (\<lambda>_ _. Inl ()), reg_capabilities := no_capability_source,
        reg_verifier := no_verifier\<rparr>) (''agt_t'' @ sample_hex) = Inl InvalidRunnerToken"
proof -
  have "judge_out down_registry (''agt_t'' @ sample_hex)" using sample_out by (simp add: judge_out_def down_registry_def)
  then have "authenticate down_registry (''agt_t'' @ sample_hex) = Inl AuthUnavailable"
    using sample_out outage_is_never_a_rejection [of down_registry "''agt_t'' @ sample_hex"] by blast
  moreover have "\<not> plane_admits (reg_plane (sample_registry RunnerPlane)) (kind_of (''agt_t'' @ sample_hex))"
      "plane_refusal (reg_plane (sample_registry RunnerPlane)) = InvalidRunnerToken"
    using sample_out by (simp_all add: sample_registry_def)
  then have "authenticate ((sample_registry RunnerPlane)\<lparr>reg_directory := (\<lambda>_ _. Inl ()), reg_capabilities := no_capability_source,
        reg_verifier := no_verifier\<rparr>) (''agt_t'' @ sample_hex) = Inl InvalidRunnerToken"
    using outage_is_never_a_rejection [of "sample_registry RunnerPlane" "''agt_t'' @ sample_hex"] by metis
  ultimately show ?thesis by blast
qed

theorem minted_credential_authenticates_witness:
  "authenticate (sample_registry TenantPlane) (''agt_t'' @ sample_hex)
    = Inr (PersonPrincipal \<lparr>person_credential = TenantApiKeyHeld, person_tenant = Uuid7 ''tenant'',
        person_subject = ''someone'', person_scopes = parse_claim ''fleet:write''\<rparr>)"
proof -
  have draw: "minted_draw (reg_digest (sample_registry TenantPlane)) (\<lambda>_. sample_hex) TenantApiKey (Some ''e'')
      = Inr \<lparr>minted_value = ''agt_t'' @ sample_hex, minted_digest = rev (''agt_t'' @ sample_hex)\<rparr>"
    by code_simp
  have "length sample_hex = 2 * token_random_bytes \<and> list_all lower_hex_digit sample_hex
      \<and> plane_admits (reg_plane (sample_registry TenantPlane)) TenantApiKey"
    by code_simp
  then show ?thesis
    using minted_credential_authenticates [OF draw, of "PersonRecord (Uuid7 ''tenant'') ''someone'' LiveRow"]
    by (simp add: sample_registry_def sample_directory_def)
qed

section \<open>Deliveries\<close>

definition sample_codec :: wall_codec where
  "sample_codec = \<lparr>hmac_sha256 = (\<lambda>k m. take 32 (m @ k @ replicate 32 CHR ''.'')), hex_decode = Some,
     base64_padded = Some, base64_unpadded = Some\<rparr>"

definition sample_slack :: proof_headers where
  "sample_slack = \<lparr>proof_signature = Some (''v0='' @ take 32 (''v0:1700000000:hi'' @ ''key'' @ replicate 32 CHR ''.'')),
     proof_timestamp = Some ''1700000000'', proof_id = None, proof_body = ''hi''\<rparr>"

lemmas parse_digits = parse_i64_def unsigned_digits_def dec_value_def digit_value_def is_ascii_digit_def
  less_eq_char_def int_width

theorem fresh_is_within_the_window_witness:
  "is_fresh_at ''1700000300'' 1700000000 max_drift_seconds \<and> \<not> is_fresh_at ''1700000301'' 1700000000 max_drift_seconds"
proof -
  have now: "in_i64 1700000000" by (simp add: int_width)
  show ?thesis
    using fresh_is_within_the_window [OF now, of "''1700000300''"] fresh_is_within_the_window [OF now, of "''1700000301''"]
    by (simp add: parse_digits)
qed

lemma sample_slack_verified:
  "family_verify_at sample_codec FamSlackV0 ''key'' sample_slack 1700000000 = WallVerified"
  "family_verify_at sample_codec FamSlackV0 ''key'' sample_slack 1700000100 = WallVerified"
  unfolding verified_iff_signed
  by (simp_all add: sample_codec_def sample_slack_def header_tags_def hmac_tag_len_def
      or_default_def is_fresh_at_def max_drift_seconds_def parse_digits)

theorem signed_bytes_fix_the_delivery_witness:
  "proof_body sample_slack = ''hi'' \<and> or_default (proof_timestamp sample_slack) = or_default (proof_timestamp sample_slack)"
  using signed_bytes_fix_the_delivery [OF sample_slack_verified] by (simp add: sample_slack_def)

end
