(* ===== verification/IngressSamples.thy ===== *)
theory IngressSamples
  imports IngressLaws CeilingLaws AccessSamples
begin

text \<open>
  One fleet with a GitHub trigger, an empty ledger and a signed delivery: the properties of the ledger, of
  its ceiling and of the ingress are applied here at these inputs.
\<close>

section \<open>The ledger\<close>

definition sample_fleet :: string where "sample_fleet = ''0190a0b0-0000-7000-8000-000000000001''"
definition sample_workspace :: string where "sample_workspace = ''0190a0b0-0000-7000-8000-000000000002''"

definition sample_db :: intake_db where
  "sample_db = \<lparr>ledger_rows = [], fleet_heads = [\<lparr>fh_id = sample_fleet, fh_workspace = sample_workspace,
     fh_policy = Some policy_semantics\<rparr>], task_heads = []\<rparr>"

definition sample_state :: intake_state where "sample_state = \<lparr>in_db = sample_db, in_ceiling = ceiling_new\<rparr>"

definition sample_faults :: intake_faults where
  "sample_faults = \<lparr>at_acquire = None, at_begin = None, at_repeated = None, at_policy = None, at_budget = None,
     at_insert = None, at_commit = Committed, at_find = None\<rparr>"

definition sample_intake :: "string \<Rightarrow> intake_env" where
  "sample_intake i = \<lparr>env_sha = id, env_budgets = \<lparr>fleet_backlog = 1, deployment_backlog = 10\<rparr>, env_now = 5, env_now_ms = 5,
     env_row_id = Inr (Uuid7 i), env_backlog = Inr 0, env_gaps = (\<lambda>_ c. c), env_faults = sample_faults\<rparr>"

definition sample_asked :: "string \<Rightarrow> asked" where
  "sample_asked k = \<lparr>ask_producer = ScheduleFire, ask_key = Repeated k, ask_fleet = sample_fleet, ask_workspace = sample_workspace,
     ask_actor = ''cron'', ask_event_type = CronEvent, ask_request = ''{}'', ask_reply = NoReply\<rparr>"

definition sample_row :: admission_row where
  "sample_row = new_row sample_db ''r1'' (sample_asked ''k'') ''k'' ''d'' 1"

definition sample_held :: intake_state where
  "sample_held = sample_state\<lparr>in_db := sample_db\<lparr>ledger_rows := [sample_row]\<rparr>\<rparr>"

lemma sample_quiet: "quiet (sample_intake i)"
  by (simp add: quiet_def sample_intake_def sample_faults_def)

lemma sample_unique: "ledger_unique (in_db sample_held)" "ledger_unique (in_db sample_state)"
  by (simp_all add: ledger_unique_def sample_held_def sample_state_def sample_db_def)

lemma settle_run:
  "(ledger_step bs)\<^sup>*\<^sup>* st (st\<lparr>in_db := (in_db st)\<lparr>ledger_rows := map (settle_row i now) (ledger_rows (in_db st))\<rparr>\<rparr>)"
  by (rule r_into_rtranclp, rule ledger_step.settles)

theorem digest_input_determines_the_payload_witness:
  "ask_request (sample_asked ''k'') = ask_request (sample_asked ''other'')"
proof -
  have "asked_text (sample_asked ''k'')" "asked_text (sample_asked ''other'')"
    "absorbed (digest_parts (sample_asked ''k'')) = absorbed (digest_parts (sample_asked ''other''))"
    by (simp_all add: asked_text_def digest_parts_def sample_asked_def nul_free_def sample_workspace_def)
  from digest_input_determines_the_payload [OF this] show ?thesis by simp
qed

theorem admitted_once_and_for_all_witness:
  "\<exists>answer st. admit (sample_intake ''r2'') (sample_asked ''k'')
      (sample_held\<lparr>in_db := (in_db sample_held)\<lparr>ledger_rows := map (settle_row ''r1'' 9) (ledger_rows (in_db sample_held))\<rparr>\<rparr>)
      = (Inr answer, st) \<and> aa_replayed answer \<and> ad_id (aa_stored answer) = ''r1''"
proof -
  have "sample_row \<in> set (ledger_rows (in_db sample_held))" "asks_again (sample_asked ''k'') sample_row"
    by (simp_all add: sample_held_def asks_again_def sample_row_def sample_asked_def)
  from admitted_once_and_for_all [OF settle_run sample_unique(1) this sample_quiet]
  show ?thesis by (fastforce simp: same_admission_def sample_row_def)
qed

theorem fleet_backlog_stays_within_budget_witness:
  "outstanding (in_db (sample_held\<lparr>in_db := (in_db sample_held)\<lparr>ledger_rows := map (settle_row ''r0'' 9) (ledger_rows (in_db sample_held))\<rparr>\<rparr>))
    sample_fleet \<le> 1"
  using fleet_backlog_stays_within_budget [OF settle_run [of "env_budgets (sample_intake ''r'')" sample_held "''r0''" 9],
      of sample_fleet]
  by (simp add: sample_intake_def sample_held_def outstanding_def int_width)

text \<open>An estimate torn by a publication: one admission counted, then loaded, sampled and published as a figure
  of one between a caller's two loads, which answer nought.\<close>

definition race_at :: "nat \<Rightarrow> nat \<Rightarrow> bool \<Rightarrow> sampler \<Rightarrow> nat \<Rightarrow> nat \<Rightarrow> race" where
  "race_at sampled since busy w n base = \<lparr>race_ceiling = \<lparr>ceil_sampled = sampled, ceil_since = since, ceil_read_at = None,
     ceil_sampling = busy\<rparr>, race_sampler = w, race_total = 1, race_rows = n, race_base = base\<rparr>"

lemma race_counted: "race_step\<^sup>*\<^sup>* race_new (race_at 0 1 False Resting 0 0)"
  using race_step.counts [of race_new]
  by (intro r_into_rtranclp) (simp add: race_new_def race_at_def ceiling_ops)

lemma race_published: "race_step\<^sup>*\<^sup>* (race_at 0 1 False Resting 0 0) (race_at 1 0 True Subtracted 1 1)"
proof -
  have "race_step (race_at 0 1 False Resting 0 0) (race_at 0 1 True Won 0 0)"
    using race_step.wins [of "race_at 0 1 False Resting 0 0"] by (simp add: race_at_def ceiling_ops)
  moreover have "race_step (race_at 0 1 True Won 0 0) (race_at 0 1 True (Loaded 1 1) 0 0)"
    using race_step.loads [of "race_at 0 1 True Won 0 0" 1] by (simp add: race_at_def)
  moreover have "race_step (race_at 0 1 True (Loaded 1 1) 0 0) (race_at 1 1 True (Stored 1 1) 1 1)"
    using race_step.stores [of "race_at 0 1 True (Loaded 1 1) 0 0" 1 1 1] by (simp add: race_at_def ceiling_ops)
  moreover have "race_step (race_at 1 1 True (Stored 1 1) 1 1) (race_at 1 0 True Subtracted 1 1)"
    using race_step.subtracts [of "race_at 1 1 True (Stored 1 1) 1 1" 1 1] by (simp add: race_at_def ceiling_ops)
  ultimately show ?thesis by (meson rtranclp.rtrancl_refl rtranclp.rtrancl_into_rtrancl)
qed

theorem estimate_leaves_out_only_a_newer_figure_witness:
  "fst (ceiling_estimate (\<lambda>_. race_ceiling (race_at 1 0 True Subtracted 1 1)) (race_ceiling (race_at 0 1 False Resting 0 0))) = 0"
  using estimate_leaves_out_only_a_newer_figure [OF race_counted race_published] by (simp add: race_at_def)

section \<open>The door\<close>

definition sample_message :: string where "sample_message = ''{}''"

definition sample_ingress :: ingress_env where
  "sample_ingress = \<lparr>ig_codec = sample_codec, ig_sha = id,
     ig_document = (\<lambda>_. Inr [RawWebhook (Some ''github'') None None None None]),
     ig_row = (\<lambda>_. Inr (Some \<lparr>row_workspace = sample_workspace, row_status = ''active'', row_document = ''doc''\<rparr>)),
     ig_vault = (\<lambda>_ n. Inr (if n = ''github'' then Some ''sealed'' else None)), ig_field = (\<lambda>_ _. Some ''key''),
     ig_json = (\<lambda>t. t = sample_message), ig_to_str = Some, ig_now = 1700000000\<rparr>"

definition sample_headers_in :: header_map where
  "sample_headers_in = [''x-hub-signature-256'' \<mapsto> ''sha256='' @ take 32 (sample_message @ ''key'' @ replicate 32 CHR ''.'')]"

definition sample_hook :: webhook where
  "sample_hook = \<lparr>hook_source = ''github'', hook_events = None, hook_repositories = None, hook_credential_name = None,
     hook_verifier = None\<rparr>"

definition sample_binding :: binding where
  "sample_binding = \<lparr>bn_fleet = Uuid7 sample_fleet, bn_workspace = Uuid7 sample_workspace, bn_status = Active,
     bn_trigger = sample_hook, bn_family = FamBodyHexSha256\<rparr>"

lemma sample_triggers: "stored_triggers sample_ingress ''doc'' = Inr [WebhookTrigger sample_hook]"
  by code_simp

lemma sample_bound: "ingress_binding sample_ingress (Uuid7 sample_fleet) ''GitHub'' = Inr (Some sample_binding)"
  by code_simp

lemma sample_ids: "uuid7_parse sample_fleet = Inr (Uuid7 sample_fleet)"
  by code_simp

theorem saved_trigger_has_its_binding_witness:
  "read_for_source sample_ingress (Uuid7 ''f'') (Uuid7 ''w'') ''paused'' ''doc'' ''GITHUB'' = Inr (Some \<lparr>bn_fleet = Uuid7 ''f'',
     bn_workspace = Uuid7 ''w'', bn_status = Paused, bn_trigger = sample_hook, bn_family = FamBodyHexSha256\<rparr>)"
proof -
  have "eq_ignore_ascii_case (hook_source sample_hook) ''GITHUB''" "lifecycle_parse ''paused'' = Some Paused"
    "trigger_family sample_hook = Some FamBodyHexSha256"
    by code_simp+
  then show ?thesis using saved_trigger_has_its_binding [OF sample_triggers, of sample_hook "''GITHUB''" "''paused''"]
    by auto
qed

theorem delivery_keys_tell_deliveries_apart_witness:
  "delivery_key sample_binding ''e1'' \<noteq> delivery_key sample_binding ''e2''"
  using delivery_keys_tell_deliveries_apart [OF sample_bound sample_bound sample_ids sample_ids, of "''e1''" "''e2''"]
  by auto

definition sample_verified :: verified_delivery where
  "sample_verified = \<lparr>vd_binding = sample_binding, vd_body = sample_message, vd_replay_id = sample_message\<rparr>"

lemma sample_wall: "verified sample_ingress (Uuid7 sample_fleet) ''GitHub'' sample_headers_in sample_message = Inr sample_verified"
  by code_simp

lemmas run_defs = deliver_proven_def deliver_def admit_def intake_commit_def deployment_estimate_def ceiling_due_def
  ceiling_claim_def claim_flag_def claim_publish_def claim_drop_def publish_sampled_def publish_since_def publish_read_at_def
  ceiling_estimate_def estimate_of_def insert_on_def policy_check_def check_fleet_budget_def insert_admission_sql_def
  repeated_on_fleet_sql_def installed_policy_sql_def fleet_budget_sql_def repeated_sql_def faulted_def key_of_def
  counted_in_def ceiling_admitted_def sample_intake_def sample_faults_def sample_state_def sample_db_def ceiling_new_def
  delivery_asked_def to_i64_def u64_succ_def u64_max_def int_width Let_def

lemma sample_delivered:
  "fst (deliver_proven sample_ingress (sample_intake ''r1'') sample_verified sample_message sample_state) = AcceptedEvent ''r1'' False"
proof -
  have "json_payload sample_ingress (vd_body sample_verified) = Some sample_message" "bn_runnable (vd_binding sample_verified)"
    by code_simp+
  then show ?thesis
    by (simp add: run_defs) (simp add: sample_verified_def sample_binding_def)
qed

lemma sample_received:
  "source_receive sample_ingress (sample_intake ''r1'') sample_fleet ''GitHub'' sample_headers_in sample_message sample_state
    = deliver_proven sample_ingress (sample_intake ''r1'') sample_verified sample_message sample_state"
proof -
  have "within_cap sample_message = Inr ()" by (simp add: within_cap_def sample_message_def max_body_size_def)
  then show ?thesis
    by (simp add: source_receive_def sample_wall sample_ids)
      (simp add: sample_fleet_def retired_svix_segment_def sample_verified_def)
qed

lemma sample_first:
  "source_receive sample_ingress (sample_intake ''r1'') sample_fleet ''GitHub'' sample_headers_in sample_message sample_state
    = (AcceptedEvent ''r1'' False, snd (deliver_proven sample_ingress (sample_intake ''r1'') sample_verified sample_message sample_state))"
  using sample_delivered by (simp add: sample_received prod_eq_iff)

theorem only_signed_deliveries_are_admitted_witness:
  "\<exists>b. ingress_binding sample_ingress (Uuid7 sample_fleet) ''GitHub'' = Inr (Some b) \<and> bn_runnable b"
proof -
  have "snd (deliver_proven sample_ingress (sample_intake ''r1'') sample_verified sample_message sample_state) \<noteq> sample_state"
  proof
    assume same: "snd (deliver_proven sample_ingress (sample_intake ''r1'') sample_verified sample_message sample_state) = sample_state"
    have "deliver_proven sample_ingress (sample_intake ''r1'') sample_verified sample_message sample_state
        = (AcceptedEvent ''r1'' False, sample_state)" using sample_delivered same by (simp add: prod_eq_iff)
    then have "\<exists>answer. admit (sample_intake ''r1'') (delivery_asked FleetSurface sample_binding \<lparr>dl_event_id = sample_message,
        dl_actor = actor (bn_source sample_binding), dl_request = sample_message\<rparr>) sample_state = (Inr answer, sample_state)"
      by (auto simp: deliver_proven_def deliver_def sample_verified_def json_payload_def split: if_splits option.splits sum.splits prod.splits)
    then show False by (auto elim!: admit_stored simp: sample_state_def sample_db_def)
  qed
  from only_signed_deliveries_are_admitted [OF sample_first this] sample_ids show ?thesis by auto
qed

text \<open>The same body again, an hour later and by the trigger's own spelling.\<close>

definition sample_later :: ingress_env where "sample_later = sample_ingress\<lparr>ig_now := 1700003600\<rparr>"

lemma sample_wall_later: "verified sample_later (Uuid7 sample_fleet) ''github'' sample_headers_in sample_message = Inr sample_verified"
  by code_simp

theorem redelivery_is_the_same_run_witness:
  "\<exists>st. source_receive sample_later (sample_intake ''r2'') sample_fleet ''github'' sample_headers_in sample_message
      (snd (deliver_proven sample_ingress (sample_intake ''r1'') sample_verified sample_message sample_state))
    = (AcceptedEvent ''r1'' True, st)"
proof -
  have facts: "bn_workspace (vd_binding sample_verified) = bn_workspace sample_binding" "bn_source (vd_binding sample_verified) = bn_source sample_binding"
    "bn_family (vd_binding sample_verified) = bn_family sample_binding" "bn_runnable (vd_binding sample_verified)"
    "json_payload sample_later sample_message \<noteq> None" "bn_family sample_binding \<noteq> FamSvixV1"
    by code_simp+
  have "length sample_message \<le> max_body_size" "ig_sha sample_later = ig_sha sample_ingress"
    by (simp_all add: sample_message_def max_body_size_def sample_later_def)
  with redelivery_is_the_same_run [OF sample_first sample_unique(2) rtranclp.rtrancl_refl sample_quiet sample_ids sample_bound
      facts(1-4) sample_wall_later _ facts(5) _ refl] facts(6)
  show ?thesis by blast
qed

theorem steer_answers_the_callers_event_witness:
  "\<exists>row \<in> set (ledger_rows (in_db (snd (steer_append (sample_intake ''r1'') sample_fleet sample_workspace ''steer:me'' ''{}''
      (Some ''op'') sample_state)))). ad_id row = ''r1'' \<and> ad_fleet row = sample_fleet"
proof -
  let ?go = "steer_append (sample_intake ''r1'') sample_fleet sample_workspace ''steer:me'' ''{}'' (Some ''op'') sample_state"
  have "fst ?go = Inr \<lparr>st_event_id = ''r1'', st_admitted_at = Some 5\<rparr>"
    by (simp add: steer_append_def steer_asked_def run_defs)
  then have "?go = (Inr \<lparr>st_event_id = ''r1'', st_admitted_at = Some 5\<rparr>, snd ?go)" by (simp add: prod_eq_iff)
  from steer_answers_the_callers_event [OF this] show ?thesis
    by (auto simp: steer_answered_def steer_asked_def)
qed

end
