(* ===== verification/PublicationLaws.thy ===== *)
theory PublicationLaws
  imports Publications
begin

text \<open>
  What publishing guarantees over every interleaving of its transactions with each other and with the rest of
  the daemon: an effect is pushed at most once, a task keeps to its publications and has one in flight, an
  effect's state follows one lifecycle, and a stopped task's preparations never leave.
\<close>

section \<open>Stores and steps\<close>

definition issued :: "'k pub_db \<Rightarrow> effect_row \<Rightarrow> bool" where
  "issued db e \<longleftrightarrow> (\<exists>s. pd_states db (ef_id e) = Some s \<and> es_issued_at s \<noteq> None)"

definition in_flight :: "'k pub_db \<Rightarrow> effect_row \<Rightarrow> bool" where
  "in_flight db e \<longleftrightarrow> (\<exists>s. pd_states db (ef_id e) = Some s \<and> es_status s \<in> set unresolved_phases)"

text \<open>A task the step before may have had: its publications and its ordinals as they were, its generation no
  lower, and a task that was not there is new, with an identifier no effect names.\<close>

fun kept_task :: "effect_row list \<Rightarrow> string \<Rightarrow> pub_task option \<Rightarrow> pub_task \<Rightarrow> bool" where
  "kept_task es i (Some t) t' \<longleftrightarrow> pt_used_publications t' = pt_used_publications t
     \<and> pt_max_publications t' = pt_max_publications t \<and> pt_effect_cursor t' = pt_effect_cursor t
     \<and> (pt_watermark t' = pt_watermark t \<or> pt_watermark t' \<le> pt_effect_cursor t) \<and> t_generation t \<le> t_generation t'"
| "kept_task es i None t' \<longleftrightarrow> pt_used_publications t' = 0 \<and> 0 \<le> pt_max_publications t' \<and> pt_effect_cursor t' = 0
     \<and> pt_watermark t' = 0 \<and> (\<forall>e \<in> set es. ef_task e \<noteq> i)"

lemma kept_task_refl [simp]: "kept_task es i (Some t) t" by simp

text \<open>The rest of the daemon leaves the effects alone and keeps every task in that sense.\<close>

definition other_work :: "'k pub_db \<Rightarrow> 'k pub_db \<Rightarrow> bool" where
  "other_work db db' \<longleftrightarrow> pd_effects db' = pd_effects db \<and> pd_states db' = pd_states db
     \<and> (\<forall>i t'. pd_tasks db' i = Some t' \<longrightarrow> kept_task (pd_effects db) i (pd_tasks db i) t')"

inductive db_step :: "'k pub_db \<Rightarrow> 'k pub_db \<Rightarrow> bool" where
  reserves: "reserve sha fresh now l i db = Inr (a, db') \<Longrightarrow> db_step db db'"
| refuses: "e \<in> set (pd_effects db) \<Longrightarrow> refuse e db = Inr (u, db') \<Longrightarrow> db_step db db'"
| doubts: "e \<in> set (pd_effects db) \<Longrightarrow> mark_unknown e db = Inr (u, db') \<Longrightarrow> db_step db db'"
| confirms: "e \<in> set (pd_effects db) \<Longrightarrow> confirm_effect now e commit db = Inr (u, db') \<Longrightarrow> db_step db db'"
| expires: "e \<in> set (pd_effects db) \<Longrightarrow> expire_effect e db = Inr (u, db') \<Longrightarrow> db_step db db'"
| abandons: "e \<in> set (pd_effects db) \<Longrightarrow> abandon now l e db = Inr (b, db') \<Longrightarrow> db_step db db'"
| claims: "claim_recovery locked now db = Inr (c, db') \<Longrightarrow> db_step db db'"
| controls: "control_transition tag now fleet ws task etag g c db = Inr (r, db') \<Longrightarrow> db_step db db'"
| others: "other_work db db' \<Longrightarrow> db_step db db'"

text \<open>A run: the world and the permits in the hands of handlers that have not pushed yet.\<close>

record 'k run =
  rn_world :: "'k pub_world"
  rn_permits :: "permit list"

abbreviation run_db :: "'k run \<Rightarrow> 'k pub_db" where "run_db r \<equiv> pw_db (rn_world r)"
abbreviation run_pushed :: "'k run \<Rightarrow> gh_mutation list" where "run_pushed r \<equiv> pw_pushed (rn_world r)"

definition of_operation :: "effect_input \<Rightarrow> effect_row \<Rightarrow> bool" where
  "of_operation i e \<longleftrightarrow> ef_task e = ei_task_id i \<and> ef_operation e = ei_operation_id i"

definition with_db :: "'k run \<Rightarrow> 'k pub_db \<Rightarrow> 'k run" where
  "with_db r db = r\<lparr>rn_world := (rn_world r)\<lparr>pw_db := db\<rparr>\<rparr>"

inductive pub_step :: "'k run \<Rightarrow> 'k run \<Rightarrow> bool" where
  works: "db_step (run_db r) db' \<Longrightarrow> pub_step r (with_db r db')"
| issues: "fx_row x \<in> set (pd_effects (run_db r)) \<Longrightarrow> of_operation i (fx_row x) \<Longrightarrow> issue now l i x sl (run_db r) = Inr (pm, db')
    \<Longrightarrow> pub_step r ((with_db r db')\<lparr>rn_permits := rn_permits r @ [pm]\<rparr>)"
| issues_unheard: "fx_row x \<in> set (pd_effects (run_db r)) \<Longrightarrow> of_operation i (fx_row x) \<Longrightarrow> issue now l i x sl (run_db r) = Inr (pm, db')
    \<Longrightarrow> pub_step r (with_db r db')"
| pushes: "pm \<in> set (rn_permits r) \<Longrightarrow> push now ss pm (rn_world r) = (a, w)
    \<Longrightarrow> pub_step r \<lparr>rn_world = w, rn_permits = remove1 pm (rn_permits r)\<rparr>"
| drops: "pm \<in> set (rn_permits r) \<Longrightarrow> pub_step r (r\<lparr>rn_permits := remove1 pm (rn_permits r)\<rparr>)"

lemma with_db_simps [simp]:
  "run_db (with_db r db) = db" "run_pushed (with_db r db) = run_pushed r" "rn_permits (with_db r db) = rn_permits r"
  by (simp_all add: with_db_def)

section \<open>What each operation does to the effects\<close>

definition state_ok :: "effect_state \<Rightarrow> bool" where
  "state_ok s \<longleftrightarrow> (\<exists>p. es_status s = effect_phase_as_str p
     \<and> (es_issued_at s \<noteq> None \<longleftrightarrow> p \<in> {Issued, Confirmed, Unknown}) \<and> (es_commit s \<noteq> None \<longleftrightarrow> p = Confirmed))"

lemma phase_text_inj [simp]: "effect_phase_as_str p = effect_phase_as_str q \<longleftrightarrow> p = q"
  by (cases p; cases q) simp_all

lemma phase_of_text [simp]: "effect_phase_of (effect_phase_as_str p) = Some p"
  by (cases p) (simp_all add: effect_phase_of_def)

lemma unresolved_text [simp]: "effect_phase_as_str p \<in> set unresolved_phases \<longleftrightarrow> p \<in> {Prepared, Issued, Unknown}"
  by (auto simp: unresolved_phases_def simp del: effect_phase_as_str.simps)

lemma filter_flip:
  assumes "distinct (map f xs)" "e \<in> set xs" "\<And>x. x \<in> set xs \<Longrightarrow> f x \<noteq> f e \<Longrightarrow> P' x = P x" "\<not> P e" "P' e"
  shows "length (filter P' xs) = Suc (length (filter P xs))"
  using assms
proof (induction xs)
  case (Cons x xs)
  show ?case
  proof (cases "x = e")
    case True
    with Cons.prems(1) have "\<And>y. y \<in> set xs \<Longrightarrow> f y \<noteq> f e" by (auto simp: image_iff)
    with Cons.prems(3) have "filter P' xs = filter P xs" by (intro filter_cong) auto
    with True Cons.prems show ?thesis by simp
  next
    case False
    with Cons.prems have "f x \<noteq> f e" "e \<in> set xs" by (auto simp: image_iff)
    with Cons show ?thesis by auto
  qed
qed simp

text \<open>A task's columns the invariant reads.\<close>

definition books_ok :: "'k pub_db \<Rightarrow> string \<Rightarrow> pub_task \<Rightarrow> bool" where
  "books_ok db i t \<longleftrightarrow> pt_used_publications t = int (length (filter (\<lambda>e. ef_task e = i \<and> issued db e) (pd_effects db)))
     \<and> pt_used_publications t \<le> pt_max_publications t \<and> 0 \<le> pt_effect_cursor t \<and> pt_watermark t \<le> pt_effect_cursor t
     \<and> (\<forall>e \<in> set (pd_effects db). ef_task e = i \<longrightarrow> ef_ordinal e \<le> pt_effect_cursor t \<and> ef_generation e \<le> t_generation t)"

definition pub_inv :: "'k pub_db \<Rightarrow> bool" where
  "pub_inv db \<longleftrightarrow> distinct (map ef_id (pd_effects db)) \<and> distinct (map (\<lambda>e. (ef_task e, ef_operation e)) (pd_effects db))
     \<and> (\<forall>e \<in> set (pd_effects db). \<exists>s. pd_states db (ef_id e) = Some s \<and> state_ok s)
     \<and> dom (pd_states db) = ef_id ` set (pd_effects db)
     \<and> (\<forall>e \<in> set (pd_effects db). \<forall>e' \<in> set (pd_effects db). ef_task e = ef_task e' \<longrightarrow> in_flight db e \<longrightarrow> in_flight db e' \<longrightarrow> e = e')
     \<and> (\<forall>i t. pd_tasks db i = Some t \<longrightarrow> books_ok db i t)"

lemma pub_inv_state:
  assumes "pub_inv db" "e \<in> set (pd_effects db)"
  obtains s where "pd_states db (ef_id e) = Some s" "state_ok s"
proof -
  have "\<forall>e \<in> set (pd_effects db). \<exists>s. pd_states db (ef_id e) = Some s \<and> state_ok s"
    using assms(1) by (simp add: pub_inv_def)
  with assms(2) that show thesis by auto
qed

text \<open>A change of states and tasks that keeps the invariant: no effect comes or goes, no phase is invented.\<close>

definition quiet_move :: "'k pub_db \<Rightarrow> 'k pub_db \<Rightarrow> bool" where
  "quiet_move db db' \<longleftrightarrow> pd_effects db' = pd_effects db \<and> dom (pd_states db') = dom (pd_states db)
     \<and> (\<forall>i s s'. pd_states db i = Some s \<longrightarrow> pd_states db' i = Some s' \<longrightarrow> state_ok s \<longrightarrow> state_ok s'
          \<and> (es_issued_at s' \<noteq> None \<longleftrightarrow> es_issued_at s \<noteq> None)
          \<and> (es_status s' \<in> set unresolved_phases \<longrightarrow> es_status s \<in> set unresolved_phases))
     \<and> (\<forall>i t'. pd_tasks db' i = Some t' \<longrightarrow> kept_task (pd_effects db) i (pd_tasks db i) t')"

lemma quiet_move_state:
  assumes "quiet_move db db'" "pd_states db i = Some s" "pd_states db' i = Some s'" "state_ok s"
  shows "state_ok s' \<and> (es_issued_at s' \<noteq> None \<longleftrightarrow> es_issued_at s \<noteq> None)
    \<and> (es_status s' \<in> set unresolved_phases \<longrightarrow> es_status s \<in> set unresolved_phases)"
proof -
  have "\<forall>i s s'. pd_states db i = Some s \<longrightarrow> pd_states db' i = Some s' \<longrightarrow> state_ok s \<longrightarrow> state_ok s'
      \<and> (es_issued_at s' \<noteq> None \<longleftrightarrow> es_issued_at s \<noteq> None)
      \<and> (es_status s' \<in> set unresolved_phases \<longrightarrow> es_status s \<in> set unresolved_phases)"
    using assms(1) by (simp add: quiet_move_def)
  with assms(2-) show ?thesis by simp
qed

lemma quiet_move_task: "quiet_move db db' \<Longrightarrow> pd_tasks db' i = Some t' \<Longrightarrow> kept_task (pd_effects db) i (pd_tasks db i) t'"
  by (simp add: quiet_move_def)

lemma quiet_move_inv:
  assumes "quiet_move db db'" "pub_inv db"
  shows "pub_inv db'"
proof -
  have eff: "pd_effects db' = pd_effects db" using assms(1) by (simp add: quiet_move_def)
  have states: "\<exists>s s'. pd_states db (ef_id e) = Some s \<and> pd_states db' (ef_id e) = Some s' \<and> state_ok s'
      \<and> (es_issued_at s' \<noteq> None \<longleftrightarrow> es_issued_at s \<noteq> None)
      \<and> (es_status s' \<in> set unresolved_phases \<longrightarrow> es_status s \<in> set unresolved_phases)" if e: "e \<in> set (pd_effects db)" for e
  proof -
    obtain s where s: "pd_states db (ef_id e) = Some s" "state_ok s" by (rule pub_inv_state [OF assms(2) e])
    then have "ef_id e \<in> dom (pd_states db')" using assms(1) by (auto simp: quiet_move_def)
    then obtain s' where "pd_states db' (ef_id e) = Some s'" by auto
    with s quiet_move_state [OF assms(1) s(1) _ s(2)] show ?thesis by auto
  qed
  have iss: "issued db' e = issued db e" if "e \<in> set (pd_effects db)" for e
    using states [OF that] by (auto simp: issued_def)
  have fly: "in_flight db' e \<Longrightarrow> in_flight db e" if "e \<in> set (pd_effects db)" for e
    using states [OF that] by (auto simp: in_flight_def)
  have "books_ok db' i t'" if t': "pd_tasks db' i = Some t'" for i t'
  proof -
    have same: "filter (\<lambda>e. ef_task e = i \<and> issued db' e) (pd_effects db) = filter (\<lambda>e. ef_task e = i \<and> issued db e) (pd_effects db)"
      using iss by (intro filter_cong) auto
    show ?thesis
    proof (cases "pd_tasks db i")
      case None
      with quiet_move_task [OF assms(1) t'] have new: "kept_task (pd_effects db) i None t'" by simp
      then have "filter (\<lambda>e. ef_task e = i \<and> issued db e) (pd_effects db) = []" by (auto simp: filter_empty_conv)
      with new show ?thesis by (simp add: books_ok_def eff same)
    next
      case (Some t)
      with assms(2) have "books_ok db i t" by (simp add: pub_inv_def)
      moreover have "kept_task (pd_effects db) i (Some t) t'" using quiet_move_task [OF assms(1) t'] Some by simp
      ultimately show ?thesis by (fastforce simp: books_ok_def eff same)
    qed
  qed
  moreover have "dom (pd_states db') = ef_id ` set (pd_effects db)" using assms by (auto simp: quiet_move_def pub_inv_def)
  moreover have "\<forall>e \<in> set (pd_effects db). \<exists>s. pd_states db' (ef_id e) = Some s \<and> state_ok s" using states by blast
  moreover have "distinct (map ef_id (pd_effects db))" "distinct (map (\<lambda>e. (ef_task e, ef_operation e)) (pd_effects db))"
    using assms(2) by (simp_all add: pub_inv_def)
  moreover have "\<forall>e \<in> set (pd_effects db). \<forall>e' \<in> set (pd_effects db). ef_task e = ef_task e' \<longrightarrow> in_flight db' e \<longrightarrow> in_flight db' e' \<longrightarrow> e = e'"
    using assms(2) fly unfolding pub_inv_def by blast
  ultimately show ?thesis unfolding pub_inv_def eff by blast
qed

lemma quiet_move_refl [simp]: "quiet_move db db"
proof -
  have "kept_task (pd_effects db) i (pd_tasks db i) t'" if "pd_tasks db i = Some t'" for i t' using that by simp
  then show ?thesis by (simp add: quiet_move_def)
qed

lemma quiet_move_recovery [simp]: "quiet_move db (db'\<lparr>pd_recovery := r\<rparr>) = quiet_move db db'"
  by (simp add: quiet_move_def)

lemma quiet_move_drop [simp]: "quiet_move db (drop_recovery i db') = quiet_move db db'"
  by (simp add: drop_recovery_def)

lemma update_state_tables:
  "update_state i sel f db = (won, db') \<Longrightarrow> pd_effects db' = pd_effects db \<and> pd_tasks db' = pd_tasks db \<and> pd_targets db' = pd_targets db"
  by (auto simp: update_state_def split: option.splits if_splits)

lemma quiet_state:
  assumes "update_state i sel f db = (won, db')"
    "\<And>s. sel s \<Longrightarrow> state_ok s \<Longrightarrow> state_ok (f s) \<and> (es_issued_at (f s) \<noteq> None \<longleftrightarrow> es_issued_at s \<noteq> None)
      \<and> (es_status (f s) \<in> set unresolved_phases \<longrightarrow> es_status s \<in> set unresolved_phases)"
  shows "quiet_move db db'"
proof -
  have "quiet_move db (db\<lparr>pd_states := (pd_states db)(i \<mapsto> f s)\<rparr>)" if s: "pd_states db i = Some s" "sel s" for s
  proof -
    have "kept_task (pd_effects db) j (pd_tasks db j) t'" if "pd_tasks db j = Some t'" for j t' using that by simp
    with s assms(2) [of s] show ?thesis by (auto simp: quiet_move_def)
  qed
  with assms(1) show ?thesis by (auto simp: update_state_def split: option.splits if_splits)
qed

lemma quiet_task:
  assumes "quiet_move db db1" "pd_tasks db1 = pd_tasks db" "\<And>t. pd_tasks db i = Some t \<Longrightarrow> kept_task (pd_effects db) i (Some t) (f t)"
  shows "quiet_move db (update_task i f db1)"
proof (cases "pd_tasks db1 i")
  case None
  with assms(1) show ?thesis by (simp add: update_task_def)
next
  case (Some t)
  with assms(2,3) have "kept_task (pd_effects db) i (pd_tasks db i) (f t)" by simp
  moreover have "kept_task (pd_effects db) j (pd_tasks db j) t'" if "pd_tasks db1 j = Some t'" for j t'
    using that quiet_move_task [OF assms(1)] by simp
  ultimately show ?thesis using assms(1) Some by (simp add: quiet_move_def update_task_def)
qed

lemma state_ok_phase:
  assumes "phase_is p s" "state_ok s"
  shows "(es_issued_at s \<noteq> None \<longleftrightarrow> p \<in> {Issued, Confirmed, Unknown}) \<and> (es_commit s \<noteq> None \<longleftrightarrow> p = Confirmed)"
  using assms by (auto simp: phase_is_def state_ok_def simp del: effect_phase_as_str.simps)

lemma state_ok_move:
  assumes "phase_is p s" "state_ok s" "es_issued_at s' \<noteq> None \<longleftrightarrow> q \<in> {Issued, Confirmed, Unknown}"
    "es_commit s' \<noteq> None \<longleftrightarrow> q = Confirmed" "es_status s' = effect_phase_as_str q"
    "q \<in> {Prepared, Issued, Unknown} \<Longrightarrow> p \<in> {Prepared, Issued, Unknown}"
    "q \<in> {Issued, Confirmed, Unknown} \<longleftrightarrow> p \<in> {Issued, Confirmed, Unknown}"
  shows "state_ok s' \<and> (es_issued_at s' \<noteq> None \<longleftrightarrow> es_issued_at s \<noteq> None)
      \<and> (es_status s' \<in> set unresolved_phases \<longrightarrow> es_status s \<in> set unresolved_phases)"
proof -
  have "state_ok s'" using assms(3-5) unfolding state_ok_def by blast
  moreover have "es_status s = effect_phase_as_str p" using assms(1) by (simp add: phase_is_def)
  ultimately show ?thesis using state_ok_phase [OF assms(1,2)] assms(3,5-7)
    by (simp del: effect_phase_as_str.simps)
qed

lemma state_sql_quiet:
  assumes "state_sql q p i db = Inr (u, db')" "(p, q) \<in> {(Prepared, Refused), (Issued, Unknown)}"
  shows "quiet_move db db'"
proof -
  obtain won where "update_state i (phase_is p) (\<lambda>s. s\<lparr>es_status := effect_phase_as_str q\<rparr>) db = (won, db')"
    using assms(1) by (auto simp: state_sql_def prod_eq_iff)
  then show ?thesis
  proof (rule quiet_state)
    fix s assume s: "phase_is p s" "state_ok s"
    from state_ok_phase [OF this] assms(2)
    show "state_ok (s\<lparr>es_status := effect_phase_as_str q\<rparr>)
      \<and> (es_issued_at (s\<lparr>es_status := effect_phase_as_str q\<rparr>) \<noteq> None \<longleftrightarrow> es_issued_at s \<noteq> None)
      \<and> (es_status (s\<lparr>es_status := effect_phase_as_str q\<rparr>) \<in> set unresolved_phases \<longrightarrow> es_status s \<in> set unresolved_phases)"
      by (intro state_ok_move [OF s, where q = q]) auto
  qed
qed

lemma confirm_sql_quiet: "confirm_sql now i commit db = (won, db') \<Longrightarrow> quiet_move db db'"
  unfolding confirm_sql_def
proof (erule quiet_state)
  fix s assume s: "phase_is Issued s \<or> phase_is Unknown s" "state_ok s"
  then obtain p where p: "phase_is p s" "p \<in> {Issued, Unknown}" by blast
  let ?s = "s\<lparr>es_status := effect_phase_as_str Confirmed, es_commit := Some commit, es_confirmed_at := Some now\<rparr>"
  from state_ok_phase [OF p(1) s(2)] p(2)
  show "state_ok ?s \<and> (es_issued_at ?s \<noteq> None \<longleftrightarrow> es_issued_at s \<noteq> None)
      \<and> (es_status ?s \<in> set unresolved_phases \<longrightarrow> es_status s \<in> set unresolved_phases)"
    by (intro state_ok_move [OF p(1) s(2), where q = Confirmed]) auto
qed

lemma confirm_effect_quiet:
  assumes "confirm_effect now e commit db = Inr (u, db')"
  shows "quiet_move db db'"
proof -
  obtain won db1 db2 where c: "confirm_sql now (ef_id e) commit db = (won, db1)"
    "(if won then confirmed_task_sql (ef_task e) (ef_ordinal e) commit (ef_tree e) (ef_head e) db1 else Inr db1) = Inr db2"
    "db' = drop_recovery (ef_id e) db2"
    using assms by (auto simp: confirm_effect_def res_bind_Inr Let_def split: prod.splits)
  have same: "pd_tasks db1 = pd_tasks db" using c(1) update_state_tables unfolding confirm_sql_def by blast
  have quiet: "quiet_move db db1" using confirm_sql_quiet [OF c(1)] .
  have "quiet_move db db2"
  proof (cases won)
    case True
    with c(2) have t: "db2 = update_task (ef_task e) (advanced (ef_ordinal e) commit (ef_tree e) (ef_head e)) db1"
      "\<And>t. pd_tasks db1 (ef_task e) = Some t \<Longrightarrow> max (pt_watermark t) (ef_ordinal e) \<le> pt_effect_cursor t"
      by (auto simp: confirmed_task_sql_def split: if_splits option.splits)
    have "kept_task (pd_effects db) (ef_task e) (Some t) (advanced (ef_ordinal e) commit (ef_tree e) (ef_head e) t)"
      if "pd_tasks db (ef_task e) = Some t" for t
      using t(2) [of t] that same by (simp add: advanced_def)
    then show ?thesis unfolding t(1) by (intro quiet_task [OF quiet same])
  qed (use c(2) quiet in simp)
  with c(3) show ?thesis by simp
qed

lemma expire_effect_quiet: "expire_effect e db = Inr (u, db') \<Longrightarrow> quiet_move db db'"
  using state_sql_quiet [of Unknown Issued "ef_id e" db]
  by (auto simp: expire_effect_def res_bind_Inr)

lemma abandon_quiet:
  assumes "abandon now l e db = Inr (b, db')"
  shows "quiet_move db db'"
proof -
  have "abandon_sql now e db = (b, db')" using assms by (auto simp: abandon_def res_bind_Inr split: if_splits)
  then show ?thesis unfolding abandon_sql_def
  proof (rule quiet_state)
    fix s assume "phase_is Prepared s \<and> (ef_issuance_expires_at e \<le> now \<or> \<not> original_owner_lives now e db)" "state_ok s"
    then have s: "phase_is Prepared s" "state_ok s" by simp_all
    let ?s = "s\<lparr>es_status := effect_phase_as_str Refused\<rparr>"
    from state_ok_phase [OF s]
    show "state_ok ?s \<and> (es_issued_at ?s \<noteq> None \<longleftrightarrow> es_issued_at s \<noteq> None)
        \<and> (es_status ?s \<in> set unresolved_phases \<longrightarrow> es_status s \<in> set unresolved_phases)"
      by (intro state_ok_move [OF s, where q = Refused]) auto
  qed
qed

lemma claim_recovery_quiet:
  assumes "claim_recovery locked now db = Inr (c, db')"
  shows "quiet_move db db'"
proof -
  have fold: "quiet_move db (foldl (\<lambda>d (e, r). d\<lparr>pd_recovery := (pd_recovery d)(ef_id e \<mapsto> r\<lparr>rc_due_at := now + from_secs recheck_seconds\<rparr>)\<rparr>) d ers)"
    if "quiet_move db d" for d and ers :: "(effect_row \<times> 'a recovery_row) list"
    using that by (induction ers arbitrary: d) (auto simp del: quiet_move_recovery simp: quiet_move_recovery)
  from assms fold [of db] show ?thesis by (auto simp: claim_recovery_def Let_def)
qed

lemma control_quiet:
  assumes "control_transition tag now fleet ws task etag g c db = Inr (r, db')"
  shows "quiet_move db db'"
proof -
  have "quiet_move db (update_task (as_str task) (controlled now c) db)"
    by (intro quiet_task) (simp_all add: controlled_def)
  with assms show ?thesis
    by (auto simp: control_transition_def refused_control_def res_bind_Inr split: option.splits if_splits)
qed

section \<open>Reserving and issuing\<close>

lemma counter_Inr [simp]: "counter c n = Inr m \<longleftrightarrow> 0 \<le> n \<and> n < 2 ^ 64 \<and> m = n"
  by (auto simp: counter_def)

lemma small_counter_Inr [simp]: "small_counter c n = Inr m \<longleftrightarrow> 0 \<le> n \<and> n < 2 ^ 32 \<and> m = n"
  by (auto simp: small_counter_def)

lemma on_task_Inr [simp]: "on_task r = Inr x \<longleftrightarrow> r = Inr x"
  by (auto simp: on_task_def split: sum.splits)

lemma refusals_fail [simp]: "invalid_target \<noteq> Inr x" "stale_state \<noteq> Inr x" "effect_uncertain \<noteq> Inr x" "lease_not_found \<noteq> Inr x"
  by (simp_all add: invalid_target_def stale_state_def effect_uncertain_def lease_not_found_def)

lemma guard_id_text: "guard_id text = Inr u \<Longrightarrow> as_str u = text"
  by (auto simp: guard_id_def call_id_def uuid7_parse_def split: sum.splits option.splits if_splits)

lemma snapshot_fields:
  "snapshot_of t = Inr sn \<Longrightarrow> sn_generation sn = t_generation t \<and> sn_stop_generation sn = t_stop_generation t
     \<and> sn_covered_input sn = pt_covered_input t \<and> sn_max_publications sn = pt_max_publications t
     \<and> sn_used_publications sn = pt_used_publications t \<and> sn_expires_at sn = t_expires_at t \<and> sn_target sn = pt_target t"
  by (auto simp: snapshot_of_def res_bind_Inr)

lemma task_state_text: "task_state_of stored = Inr st \<Longrightarrow> stored = task_state_as_str st"
  by (auto simp: task_state_of_def find_Some_iff simp del: task_state_as_str.simps List.find.simps)

lemma snapshot_state: "snapshot_of t = Inr sn \<Longrightarrow> t_status t = task_state_as_str (sn_state sn)"
  by (auto simp: snapshot_of_def res_bind_Inr dest: task_state_text)

lemma attached_task:
  assumes "attached now h db = Inr o'"
  obtains name t where "hl_task h = Some name" "pd_tasks db name = Some t" "snapshot_of t = Inr (ow_snapshot o')"
    "ow_held o' = h" "sn_state (ow_snapshot o') = TsRunning" "now < t_expires_at t"
    "hl_generation h = try_i64 (t_generation t)" "hl_stop_generation h = try_i64 (t_stop_generation t)"
proof -
  obtain fleet ws name u t sn where a: "hl_task h = Some name" "guard_id name = Inr u"
      "task_at db (as_str u) (hl_fleet h) (hl_workspace h) = Some t" "snapshot_of t = Inr sn"
      "hl_generation h = try_i64 (sn_generation sn)" "hl_stop_generation h = try_i64 (sn_stop_generation sn)"
      "sn_state sn = TsRunning" "\<not> sn_expires_at sn \<le> now" "o' = \<lparr>ow_held = h, ow_fleet = fleet, ow_workspace = ws, ow_snapshot = sn\<rparr>"
    using assms by (auto simp: attached_def res_bind_Inr split: if_splits)
  moreover have "pd_tasks db name = Some t" using a(3) guard_id_text [OF a(2)]
    by (auto simp: task_at_def split: option.splits if_splits)
  ultimately show thesis using that snapshot_fields [OF a(4)] by auto
qed

lemma on_current_task:
  assumes "on_current now h i db = Inr o'"
  obtains t where "pd_tasks db (ei_task_id i) = Some t" "snapshot_of t = Inr (ow_snapshot o')" "ow_held o' = h"
    "sn_state (ow_snapshot o') = TsRunning" "t_generation t = uint (ei_generation i)"
proof -
  have h: "hl_task h = Some (ei_task_id i)" and a: "attached now h db = Inr o'"
    and g: "sn_generation (ow_snapshot o') = uint (ei_generation i)"
    using assms by (auto simp: on_current_def res_bind_Inr split: if_splits)
  from a h g show thesis by (elim attached_task) (use that snapshot_fields in force)
qed

definition added :: "effect_row \<Rightarrow> bound_pr \<Rightarrow> 'k pub_db \<Rightarrow> 'k pub_db" where
  "added e p db = db\<lparr>pd_effects := pd_effects db @ [e], pd_targets := (pd_targets db)(ef_id e \<mapsto> p),
     pd_states := (pd_states db)(ef_id e \<mapsto> \<lparr>es_status = effect_phase_as_str Prepared, es_commit = None,
         es_issued_at = None, es_confirmed_at = None\<rparr>)\<rparr>"

lemma reserve_cases:
  assumes "reserve sha fresh now l i db = Inr ((x, again), db')"
  obtains (replay) "again" "db' = db" "existing (ei_task_id i) (ei_operation_id i) db = Some x"
  | (fresh) t e p where "\<not> again" "pd_tasks db (ei_task_id i) = Some t" "available_sql (ei_task_id i) db"
      "effect_checks e db" "of_operation i e" "ef_ordinal e = pt_effect_cursor t + 1" "ef_generation e = t_generation t"
      "t_status t = task_state_as_str TsRunning"
      "db' = added e p (update_task (ei_task_id i) (\<lambda>t. t\<lparr>pt_effect_cursor := pt_effect_cursor t + 1,
             t_resource_version := t_resource_version t + 1\<rparr>) db)"
      "existing (ei_task_id i) (ei_operation_id i) db' = Some x"
proof (cases "existing (ei_task_id i) (ei_operation_id i) db")
  case (Some y)
  with assms show thesis by (intro replay) (auto simp: reserve_def Let_def res_bind_Inr split: if_splits)
next
  case None
  obtain h o' p covered fid ordinal db1 e where r: "on_current now h i db = Inr o'" "publication_context o' i db = Inr (p, covered)"
      "cursor_sql (ei_task_id i) db = Inr (ordinal, db1)"
      "new_effect now l i o' fid (sha (canonical_of i)) p covered ordinal = Inr e" "insert_effect e p db1 = Inr db'"
      "existing (ei_task_id i) (ei_operation_id i) db' = Some x" "\<not> again"
    using assms None by (auto simp: reserve_def Let_def res_bind_Inr split: if_splits prod.splits)
  from r(1) obtain t where t: "pd_tasks db (ei_task_id i) = Some t" "snapshot_of t = Inr (ow_snapshot o')"
      "ow_held o' = h" "sn_state (ow_snapshot o') = TsRunning" by (elim on_current_task)
  have avail: "available_sql (ei_task_id i) db"
    using r(2) t(1) by (auto simp: publication_context_def Let_def res_bind_Inr split: if_splits task_target.splits option.splits)
  have c: "ordinal = pt_effect_cursor t + 1" "db1 = update_task (ei_task_id i) (\<lambda>t. t\<lparr>pt_effect_cursor := pt_effect_cursor t + 1,
             t_resource_version := t_resource_version t + 1\<rparr>) db"
    using r(3) t(1) by (auto simp: cursor_sql_def split: if_splits)
  have e: "of_operation i e" "ef_ordinal e = ordinal" "ef_generation e = t_generation t"
    using r(4) snapshot_fields [OF t(2)] by (auto simp: new_effect_def res_bind_Inr sql_counter_def of_operation_def)
  have ins: "effect_checks e db1" "db' = added e p db1"
    using r(5) by (auto simp: insert_effect_def added_def split: if_splits)
  have "pd_effects db1 = pd_effects db" by (simp add: c(2) update_task_def t(1))
  with ins(1) have "effect_checks e db" by (simp add: effect_checks_def)
  moreover have "t_status t = task_state_as_str TsRunning"
    using snapshot_state [OF t(2)] t(4) by simp
  ultimately show thesis using fresh [OF r(7) t(1) avail] e c ins(2) r(6) by simp
qed

lemma issue_facts:
  assumes "issue now l i x sl db = Inr (pm, db')" "of_operation i (fx_row x)"
  obtains t db1 db2 where "pd_tasks db (ef_task (fx_row x)) = Some t" "t_generation t = ef_generation (fx_row x)"
    "t_stop_generation t = ef_stop_generation (fx_row x)" "t_status t = task_state_as_str TsRunning"
    "pt_used_publications t < pt_max_publications t" "issue_effect_sql now (ef_id (fx_row x)) db = (True, db1)"
    "pd_effects db2 = pd_effects db1" "pd_states db2 = pd_states db1" "pd_tasks db2 = pd_tasks db1" "pd_targets db2 = pd_targets db1"
    "db' = update_task (ef_task (fx_row x)) (\<lambda>t. t\<lparr>pt_used_publications := pt_used_publications t + 1,
         t_resource_version := t_resource_version t + 1\<rparr>) db2"
    "pm_effect_id pm = ef_id (fx_row x)" "pm_input pm = i" "fx_target x = Some (pm_target pm)" "ei_expected_head i = ei_expected_head (pm_input pm)"
proof -
  obtain won db1 where sql: "issue_effect_sql now (ef_id (fx_row x)) db = (won, db1)" by fastforce
  obtain o' db2 p where o': "execution_load now l i db = Inr o'"
      "sn_generation (ow_snapshot o') = ef_generation (fx_row x)" "sn_stop_generation (ow_snapshot o') = ef_stop_generation (fx_row x)"
      "sn_used_publications (ow_snapshot o') < sn_max_publications (ow_snapshot o')"
      "won" "recovery_insert now (as_str (ow_workspace o')) (ef_id (fx_row x)) sl db1 = Inr db2"
      "debit_sql (ef_task (fx_row x)) db2 = Inr db'" "target_of x = Inr p"
      "pm_effect_id pm = ef_id (fx_row x)" "pm_target pm = p" "pm_input pm = i"
    using assms(1) by (auto simp: issue_def Let_def sql res_bind_Inr sql_counter_def split: if_splits option.splits)
  obtain h where "on_current now h i db = Inr o'" using o'(1) by (auto simp: execution_load_def res_bind_Inr)
  then obtain t where t: "pd_tasks db (ei_task_id i) = Some t" "snapshot_of t = Inr (ow_snapshot o')" "sn_state (ow_snapshot o') = TsRunning"
    by (elim on_current_task)
  have "t_status t = task_state_as_str TsRunning"
    using snapshot_state [OF t(2)] t(3) by simp
  moreover have "pd_effects db2 = pd_effects db1" "pd_states db2 = pd_states db1" "pd_tasks db2 = pd_tasks db1" "pd_targets db2 = pd_targets db1"
    using o'(6) by (auto simp: recovery_insert_def split: option.splits)
  moreover have "db' = update_task (ef_task (fx_row x)) (\<lambda>t. t\<lparr>pt_used_publications := pt_used_publications t + 1,
         t_resource_version := t_resource_version t + 1\<rparr>) db2"
    using o'(7) by (auto simp: debit_sql_def split: if_splits)
  ultimately show thesis using that t snapshot_fields [OF t(2)] o' assms(2) sql
    by (auto simp: of_operation_def target_of_def)
qed

section \<open>The invariant\<close>

lemma update_task_tables [simp]:
  "pd_effects (update_task i f db) = pd_effects db" "pd_states (update_task i f db) = pd_states db"
  "pd_targets (update_task i f db) = pd_targets db" "issued (update_task i f db) = issued db" "in_flight (update_task i f db) = in_flight db"
  by (auto simp: update_task_def issued_def in_flight_def fun_eq_iff split: option.splits)

lemma update_task_at: "pd_tasks (update_task i f db) j = (if j = i then map_option f (pd_tasks db i) else pd_tasks db j)"
  by (auto simp: update_task_def split: option.splits)

lemma added_tables [simp]:
  "pd_effects (added e p db) = pd_effects db @ [e]" "pd_tasks (added e p db) = pd_tasks db"
  by (simp_all add: added_def)

lemma pub_inv_clauses:
  assumes "pub_inv db"
  shows "distinct (map ef_id (pd_effects db))" "distinct (map (\<lambda>e. (ef_task e, ef_operation e)) (pd_effects db))"
    "dom (pd_states db) = ef_id ` set (pd_effects db)"
    "\<And>i t. pd_tasks db i = Some t \<Longrightarrow> books_ok db i t"
    "\<And>e e'. e \<in> set (pd_effects db) \<Longrightarrow> e' \<in> set (pd_effects db) \<Longrightarrow> ef_task e = ef_task e' \<Longrightarrow> in_flight db e \<Longrightarrow> in_flight db e' \<Longrightarrow> e = e'"
  using assms by (simp_all add: pub_inv_def)

lemma same_effect: "pub_inv db \<Longrightarrow> e \<in> set (pd_effects db) \<Longrightarrow> e' \<in> set (pd_effects db) \<Longrightarrow> ef_id e = ef_id e' \<Longrightarrow> e = e'"
  using pub_inv_clauses(1) by (auto simp: distinct_map dest: inj_onD)

lemma added_inv:
  assumes "pub_inv db" "pd_tasks db i = Some t" "available_sql i db" "effect_checks e db" "ef_task e = i"
    "ef_ordinal e = pt_effect_cursor t + 1" "ef_generation e = t_generation t"
  shows "pub_inv (added e p (update_task i (\<lambda>t. t\<lparr>pt_effect_cursor := pt_effect_cursor t + 1, t_resource_version := t_resource_version t + 1\<rparr>) db))"
    (is "pub_inv ?db'")
proof -
  note inv = pub_inv_clauses [OF assms(1)]
  have new: "ef_id o' \<noteq> ef_id e" "(ef_task o', ef_operation o') \<noteq> (ef_task e, ef_operation e)" if "o' \<in> set (pd_effects db)" for o'
    using assms(4) that by (auto simp: effect_checks_def list_all_iff)
  have old: "issued ?db' o' = issued db o'" "in_flight ?db' o' = in_flight db o'" "pd_states ?db' (ef_id o') = pd_states db (ef_id o')"
    if "o' \<in> set (pd_effects db)" for o'
    using new(1) [OF that] by (simp_all add: added_def issued_def in_flight_def)
  have fresh_state: "\<not> issued ?db' e" by (simp add: added_def issued_def)
  have none: "\<not> in_flight db o'" if "o' \<in> set (pd_effects db)" "ef_task o' = i" for o'
    using assms(3) that by (force simp: available_sql_def list_ex_iff in_flight_def)
  have "books_ok ?db' j u'" if u': "pd_tasks ?db' j = Some u'" for j u'
  proof -
    have same: "filter (\<lambda>o'. ef_task o' = j \<and> issued ?db' o') (pd_effects ?db') = filter (\<lambda>o'. ef_task o' = j \<and> issued db o') (pd_effects db)"
      using old(1) fresh_state by (auto intro: filter_cong)
    obtain u where u: "pd_tasks db j = Some u" "u' = (if j = i then u\<lparr>pt_effect_cursor := pt_effect_cursor u + 1,
        t_resource_version := t_resource_version u + 1\<rparr> else u)"
      using u' assms(2) by (auto simp: update_task_at split: if_splits)
    with inv(4) have ok: "books_ok db j u" by simp
    show ?thesis
    proof (cases "j = i")
      case True
      with u assms(2) have "u = t" by simp
      with ok u(2) True assms(6,7) show ?thesis unfolding books_ok_def same by auto
    next
      case False
      with ok u(2) assms(5) show ?thesis unfolding books_ok_def same by auto
    qed
  qed
  moreover have "ef_id e \<notin> ef_id ` set (pd_effects db)" using new(1) by (metis imageE)
  moreover have "(ef_task e, ef_operation e) \<notin> (\<lambda>e. (ef_task e, ef_operation e)) ` set (pd_effects db)"
    using new(2) by (metis (no_types, lifting) imageE)
  ultimately have "distinct (map ef_id (pd_effects ?db'))" "distinct (map (\<lambda>e. (ef_task e, ef_operation e)) (pd_effects ?db'))"
    and "\<forall>i t. pd_tasks ?db' i = Some t \<longrightarrow> books_ok ?db' i t"
    using inv(1,2) by simp_all
  moreover have "\<forall>o' \<in> set (pd_effects ?db'). \<exists>s. pd_states ?db' (ef_id o') = Some s \<and> state_ok s"
  proof
    fix o' assume "o' \<in> set (pd_effects ?db')"
    then consider "o' \<in> set (pd_effects db)" | "o' = e" by auto
    then show "\<exists>s. pd_states ?db' (ef_id o') = Some s \<and> state_ok s"
    proof cases
      case 1
      from pub_inv_state [OF assms(1) 1] obtain s where "pd_states db (ef_id o') = Some s" "state_ok s" .
      with old(3) [OF 1] show ?thesis by simp
    next
      case 2
      then show ?thesis by (simp add: added_def state_ok_def exI [of _ Prepared] del: effect_phase_as_str.simps)
    qed
  qed
  moreover have "dom (pd_states ?db') = ef_id ` set (pd_effects ?db')" using inv(3) by (simp add: added_def)
  moreover have "\<forall>a \<in> set (pd_effects ?db'). \<forall>b \<in> set (pd_effects ?db'). ef_task a = ef_task b \<longrightarrow> in_flight ?db' a \<longrightarrow> in_flight ?db' b \<longrightarrow> a = b"
    using inv(5) old(2) none assms(5) by auto
  ultimately show ?thesis unfolding pub_inv_def by blast
qed

lemma issue_effect_sql_hit:
  assumes "issue_effect_sql now i db = (True, db1)"
  obtains s where "pd_states db i = Some s" "phase_is Prepared s"
    "db1 = db\<lparr>pd_states := (pd_states db)(i \<mapsto> s\<lparr>es_status := effect_phase_as_str Issued, es_issued_at := Some now\<rparr>)\<rparr>"
  using assms by (auto simp: issue_effect_sql_def update_state_def split: option.splits if_splits)

lemma issue_inv:
  assumes "pub_inv db" "issue now l i x sl db = Inr (pm, db')" "fx_row x \<in> set (pd_effects db)" "of_operation i (fx_row x)"
  shows "pub_inv db' \<and> \<not> issued db (fx_row x) \<and> issued db' (fx_row x) \<and> pd_effects db' = pd_effects db
    \<and> (\<forall>e \<in> set (pd_effects db). issued db e \<longrightarrow> issued db' e)"
proof -
  note inv = pub_inv_clauses [OF assms(1)]
  let ?e = "fx_row x"
  from assms(2,4) obtain t db1 db2 where f: "pd_tasks db (ef_task ?e) = Some t" "pt_used_publications t < pt_max_publications t"
      "issue_effect_sql now (ef_id ?e) db = (True, db1)" "pd_effects db2 = pd_effects db1" "pd_states db2 = pd_states db1"
      "pd_tasks db2 = pd_tasks db1"
      "db' = update_task (ef_task ?e) (\<lambda>t. t\<lparr>pt_used_publications := pt_used_publications t + 1, t_resource_version := t_resource_version t + 1\<rparr>) db2"
    by (elim issue_facts)
  from f(3) obtain s where s: "pd_states db (ef_id ?e) = Some s" "phase_is Prepared s"
      "db1 = db\<lparr>pd_states := (pd_states db)(ef_id ?e \<mapsto> s\<lparr>es_status := effect_phase_as_str Issued, es_issued_at := Some now\<rparr>)\<rparr>"
    by (rule issue_effect_sql_hit)
  have ok: "state_ok s" using pub_inv_state [OF assms(1,3)] s(1) by force
  have eff: "pd_effects db' = pd_effects db" and states: "pd_states db' = (pd_states db)(ef_id ?e \<mapsto> s\<lparr>es_status := effect_phase_as_str Issued, es_issued_at := Some now\<rparr>)"
    by (simp_all add: f(4,5,7) s(3))
  have tasks: "pd_tasks db' j = (if j = ef_task ?e then Some (t\<lparr>pt_used_publications := pt_used_publications t + 1,
      t_resource_version := t_resource_version t + 1\<rparr>) else pd_tasks db j)" for j
    using f(1) by (simp add: f(6,7) s(3) update_task_at)
  have before: "\<not> issued db ?e" "in_flight db ?e" using s(1,2) state_ok_phase [OF s(2) ok]
    by (auto simp: issued_def in_flight_def phase_is_def simp del: effect_phase_as_str.simps)
  have after: "issued db' ?e" by (simp add: issued_def states)
  have other: "pd_states db' (ef_id e) = pd_states db (ef_id e)" if "ef_id e \<noteq> ef_id ?e" for e using that by (simp add: states)
  then have other': "issued db' e = issued db e" "in_flight db' e = in_flight db e" if "ef_id e \<noteq> ef_id ?e" for e
    using other [OF that] by (simp_all add: issued_def in_flight_def)
  have fly: "in_flight db' e \<Longrightarrow> in_flight db e" if "e \<in> set (pd_effects db)" for e
    using other'(2) [of e] same_effect [OF assms(1) that assms(3)] before(2) by blast
  have "books_ok db' j u'" if u': "pd_tasks db' j = Some u'" for j u'
  proof (cases "j = ef_task ?e")
    case True
    with u' tasks have u: "u' = t\<lparr>pt_used_publications := pt_used_publications t + 1, t_resource_version := t_resource_version t + 1\<rparr>" by simp
    have "length (filter (\<lambda>e. ef_task e = j \<and> issued db' e) (pd_effects db)) = Suc (length (filter (\<lambda>e. ef_task e = j \<and> issued db e) (pd_effects db)))"
      using inv(1) assms(3) before(1) after other'(1) True by (intro filter_flip [where f = ef_id and e = ?e]) auto
    with inv(4) [OF f(1)] True u f(2) show ?thesis by (auto simp: books_ok_def eff)
  next
    case False
    have "filter (\<lambda>e. ef_task e = j \<and> issued db' e) (pd_effects db) = filter (\<lambda>e. ef_task e = j \<and> issued db e) (pd_effects db)"
      using other'(1) same_effect [OF assms(1) _ assms(3)] False by (intro filter_cong) auto
    moreover have "books_ok db j u'" using inv(4) u' False tasks by simp
    ultimately show ?thesis unfolding books_ok_def eff by simp
  qed
  moreover have "\<forall>e \<in> set (pd_effects db). \<exists>s. pd_states db' (ef_id e) = Some s \<and> state_ok s"
  proof
    fix e assume e: "e \<in> set (pd_effects db)"
    show "\<exists>s. pd_states db' (ef_id e) = Some s \<and> state_ok s"
    proof (cases "ef_id e = ef_id ?e")
      case True
      have "state_ok (s\<lparr>es_status := effect_phase_as_str Issued, es_issued_at := Some now\<rparr>)"
        using state_ok_phase [OF s(2) ok] unfolding state_ok_def by (intro exI [of _ Issued]) simp
      with True show ?thesis by (simp add: states)
    next
      case False
      from pub_inv_state [OF assms(1) e] obtain s' where "pd_states db (ef_id e) = Some s'" "state_ok s'" .
      with other [OF False] show ?thesis by simp
    qed
  qed
  moreover have "dom (pd_states db') = ef_id ` set (pd_effects db)" using inv(3) assms(3) by (auto simp: states)
  moreover have "\<forall>a \<in> set (pd_effects db). \<forall>b \<in> set (pd_effects db). ef_task a = ef_task b \<longrightarrow> in_flight db' a \<longrightarrow> in_flight db' b \<longrightarrow> a = b"
    using inv(5) fly by blast
  ultimately have "pub_inv db'" using inv(1,2) unfolding pub_inv_def eff by blast
  moreover have "\<forall>e \<in> set (pd_effects db). issued db e \<longrightarrow> issued db' e" using other'(1) after before(1) same_effect [OF assms(1) _ assms(3)] by metis
  ultimately show ?thesis using before(1) after eff by blast
qed

section \<open>Every step\<close>

definition fresh_effect :: "'k pub_db \<Rightarrow> effect_row \<Rightarrow> 'k pub_db \<Rightarrow> bool" where
  "fresh_effect db e db' \<longleftrightarrow> (\<exists>t p. pd_tasks db (ef_task e) = Some t \<and> available_sql (ef_task e) db \<and> effect_checks e db
     \<and> ef_ordinal e = pt_effect_cursor t + 1 \<and> ef_generation e = t_generation t
     \<and> db' = added e p (update_task (ef_task e) (\<lambda>t. t\<lparr>pt_effect_cursor := pt_effect_cursor t + 1,
         t_resource_version := t_resource_version t + 1\<rparr>) db))"

lemma db_step_move:
  assumes "db_step db db'"
  obtains (quiet) "quiet_move db db'" | (fresh) e where "fresh_effect db e db'"
  using assms
proof cases
  case (reserves sha fresh now l i a)
  obtain x again where a: "a = (x, again)" by (cases a)
  with reserves have r: "reserve sha fresh now l i db = Inr ((x, again), db')" by simp
  from r show thesis
  proof (cases rule: reserve_cases)
    case replay
    with that(1) show thesis by simp
  next
    case (fresh t e p)
    then have "fresh_effect db e db'" unfolding fresh_effect_def of_operation_def by auto
    with that(2) show thesis by blast
  qed
next
  case (refuses e u)
  then show thesis by (intro that(1) state_sql_quiet [of Refused Prepared]) (simp_all add: refuse_def)
next
  case (doubts e u)
  then show thesis by (intro that(1) state_sql_quiet [of Unknown Issued]) (simp_all add: mark_unknown_def)
next
  case others
  then have "quiet_move db db'" by (auto simp: other_work_def quiet_move_def)
  with that(1) show thesis .
next
  case confirms
  then show thesis by (intro that(1) confirm_effect_quiet)
next
  case expires
  then show thesis by (intro that(1) expire_effect_quiet)
next
  case abandons
  then show thesis by (intro that(1) abandon_quiet)
next
  case claims
  then show thesis by (intro that(1) claim_recovery_quiet)
next
  case controls
  then show thesis by (intro that(1) control_quiet)
qed

lemma fresh_effect_tables:
  assumes "fresh_effect db e db'"
  shows "pd_effects db' = pd_effects db @ [e]" "\<And>o'. o' \<in> set (pd_effects db) \<Longrightarrow> pd_states db' (ef_id o') = pd_states db (ef_id o')"
    "\<And>i t'. pd_tasks db' i = Some t' \<Longrightarrow> \<exists>t. pd_tasks db i = Some t \<and> t_generation t' = t_generation t"
  using assms by (auto simp: fresh_effect_def effect_checks_def list_all_iff added_def update_task_at split: if_splits)

lemma db_step_inv:
  assumes "db_step db db'" "pub_inv db"
  shows "pub_inv db'"
  using assms(1)
proof (cases rule: db_step_move)
  case quiet
  then show ?thesis using quiet_move_inv assms(2) by blast
next
  case (fresh e)
  then show ?thesis using added_inv [OF assms(2)] unfolding fresh_effect_def by blast
qed

text \<open>Effects stay, and an issued one stays issued.\<close>

lemma db_step_keeps:
  assumes "db_step db db'" "pub_inv db" "e \<in> set (pd_effects db)"
  shows "e \<in> set (pd_effects db') \<and> (issued db' e = issued db e)"
  using assms(1)
proof (cases rule: db_step_move)
  case quiet
  from pub_inv_state [OF assms(2,3)] obtain s where s: "pd_states db (ef_id e) = Some s" "state_ok s" .
  then have "ef_id e \<in> dom (pd_states db')" using quiet by (auto simp: quiet_move_def)
  then obtain s' where "pd_states db' (ef_id e) = Some s'" by auto
  with quiet_move_state [OF quiet s(1) this s(2)] s quiet assms(3) show ?thesis by (auto simp: issued_def quiet_move_def)
next
  case (fresh o')
  then show ?thesis using fresh_effect_tables [OF fresh] assms(3) by (simp add: issued_def)
qed

definition spent_on :: "'k run \<Rightarrow> string \<Rightarrow> nat" where
  "spent_on r i = length (filter (\<lambda>pm. pm_effect_id pm = i) (rn_permits r)) + length (filter (\<lambda>m. gm_client_id m = i) (run_pushed r))"

definition run_inv :: "'k run \<Rightarrow> bool" where
  "run_inv r \<longleftrightarrow> pub_inv (run_db r) \<and> (\<forall>i. spent_on r i \<le> 1 \<and> (spent_on r i = 1 \<longrightarrow> (\<exists>e \<in> set (pd_effects (run_db r)). ef_id e = i \<and> issued (run_db r) e)))"

lemma length_filter_remove1:
  "x \<in> set xs \<Longrightarrow> length (filter P (remove1 x xs)) + (if P x then 1 else 0) = length (filter P xs)"
  by (induction xs) auto

lemma spent_on_with_db [simp]: "spent_on (with_db r db) i = spent_on r i"
  by (simp add: spent_on_def)

lemma push_db: "push now ss pm w = (a, w') \<Longrightarrow> pw_db w' = pw_db w"
  by (auto simp: push_def split: if_splits)

lemma push_spent:
  assumes "pm \<in> set (rn_permits r)" "push now ss pm (rn_world r) = (a, w)"
  shows "spent_on \<lparr>rn_world = w, rn_permits = remove1 pm (rn_permits r)\<rparr> i \<le> spent_on r i"
proof -
  have "pw_pushed w = run_pushed r \<or> (\<exists>m. gm_client_id m = pm_effect_id pm \<and> pw_pushed w = run_pushed r @ [m])"
    using assms(2) by (auto simp: push_def mutation_of_def split: if_splits)
  with length_filter_remove1 [OF assms(1), of "\<lambda>p. pm_effect_id p = i"] show ?thesis
    by (auto simp: spent_on_def split: if_splits)
qed

lemma pub_step_inv:
  assumes "pub_step r r'" "run_inv r"
  shows "run_inv r'"
proof -
  have inv: "pub_inv (run_db r)" and one: "spent_on r i \<le> 1"
    and out: "spent_on r i = 1 \<Longrightarrow> \<exists>e \<in> set (pd_effects (run_db r)). ef_id e = i \<and> issued (run_db r) e" for i
    using assms(2) by (simp_all add: run_inv_def)
  have fewer: "run_inv r'" if "run_db r' = run_db r" "\<And>i. spent_on r' i \<le> spent_on r i" for r'
  proof -
    have "spent_on r' i \<le> 1" "spent_on r' i = 1 \<Longrightarrow> spent_on r i = 1" for i using that(2) [of i] one [of i] by simp_all
    with inv out that(1) show ?thesis by (auto simp: run_inv_def)
  qed
  have issue: "run_inv ((with_db r db')\<lparr>rn_permits := ps\<rparr>)"
    if x: "fx_row x \<in> set (pd_effects (run_db r))" "of_operation i (fx_row x)" "issue now l i x sl (run_db r) = Inr (pm, db')"
      and ps: "ps = rn_permits r \<or> ps = rn_permits r @ [pm]" for x i now l sl pm db' ps
  proof -
    have k: "pub_inv db'" "\<not> issued (run_db r) (fx_row x)" "issued db' (fx_row x)" "pd_effects db' = pd_effects (run_db r)"
        "\<forall>e \<in> set (pd_effects (run_db r)). issued (run_db r) e \<longrightarrow> issued db' e"
      using issue_inv [OF inv x(3,1,2)] by simp_all
    have id: "pm_effect_id pm = ef_id (fx_row x)" using x(3,2) by (elim issue_facts)
    have zero: "spent_on r (ef_id (fx_row x)) = 0"
      using out [of "ef_id (fx_row x)"] one [of "ef_id (fx_row x)"] same_effect [OF inv _ x(1)] k(2) by (metis One_nat_def le_0_eq le_SucE)
    have "spent_on ((with_db r db')\<lparr>rn_permits := ps\<rparr>) j \<le> spent_on r j + (if j = ef_id (fx_row x) then 1 else 0)" for j
      using ps id by (auto simp: spent_on_def)
    then have "spent_on ((with_db r db')\<lparr>rn_permits := ps\<rparr>) j \<le> 1
        \<and> (spent_on ((with_db r db')\<lparr>rn_permits := ps\<rparr>) j = 1 \<longrightarrow> j = ef_id (fx_row x) \<or> spent_on r j = 1)" for j
      using one [of j] zero by (smt (verit) add.right_neutral le_antisym le_zero_eq less_one linorder_not_less plus_nat.add_0)
    with k out x(1) show ?thesis unfolding run_inv_def by (simp add: with_db_def) metis
  qed
  show ?thesis using assms(1)
  proof cases
    case (works db')
    note keep = db_step_keeps [OF works(2) inv]
    have "pub_inv db'" using db_step_inv [OF works(2) inv] .
    moreover have "\<exists>e \<in> set (pd_effects db'). ef_id e = i \<and> issued db' e" if "spent_on r i = 1" for i
      using out [OF that] keep by blast
    ultimately show ?thesis using one unfolding works(1) by (simp add: run_inv_def)
  next
    case (issues x i now l sl pm db')
    from issue [OF issues(2-4)] show ?thesis unfolding issues(1) by simp
  next
    case (issues_unheard x i now l sl pm db')
    from issue [OF issues_unheard(2-4), of "rn_permits r"] show ?thesis unfolding issues_unheard(1) by (simp add: with_db_def)
  next
    case (pushes pm now ss a w)
    show ?thesis unfolding pushes(1)
      by (rule fewer) (use push_db [OF pushes(3)] push_spent [OF pushes(2,3)] in simp_all)
  next
    case (drops pm)
    have "spent_on r' i \<le> spent_on r i" for i
      using length_filter_remove1 [OF drops(2), of "\<lambda>p. pm_effect_id p = i"] unfolding drops(1) by (auto simp: spent_on_def)
    then show ?thesis by (intro fewer) (simp_all add: drops(1))
  qed
qed

section \<open>Runs\<close>

text \<open>A store before anything was published, and a run that starts on it.\<close>

definition blank_db :: "'k pub_db \<Rightarrow> bool" where
  "blank_db db \<longleftrightarrow> pd_effects db = [] \<and> pd_states db = Map.empty
     \<and> (\<forall>i t. pd_tasks db i = Some t \<longrightarrow> pt_used_publications t = 0 \<and> 0 \<le> pt_max_publications t
          \<and> pt_effect_cursor t = 0 \<and> pt_watermark t = 0)"

definition started :: "'k pub_db \<Rightarrow> 'k run" where
  "started db = \<lparr>rn_world = \<lparr>pw_db = db, pw_pushed = []\<rparr>, rn_permits = []\<rparr>"

lemma blank_inv: "blank_db db \<Longrightarrow> pub_inv db"
  by (simp add: blank_db_def pub_inv_def books_ok_def)

lemma run_inv_db: "run_inv r \<Longrightarrow> pub_inv (run_db r)"
  by (simp add: run_inv_def)

lemma filter_one: "distinct (map f xs) \<Longrightarrow> length (filter (\<lambda>x. f x = y) xs) \<le> 1"
  by (induction xs) (auto simp: filter_empty_conv image_iff)

lemma at_most_one: "distinct xs \<Longrightarrow> \<forall>a \<in> set xs. \<forall>b \<in> set xs. a = b \<Longrightarrow> length xs \<le> 1"
  using card_le_Suc0_iff_eq [of "set xs"] by (simp add: distinct_card)

lemma filter_fewer: "(\<And>x. P x \<Longrightarrow> Q x) \<Longrightarrow> length (filter P xs) \<le> length (filter Q xs)"
  by (induction xs) auto

lemma started_inv: "blank_db db \<Longrightarrow> run_inv (started db)"
  by (simp add: run_inv_def started_def spent_on_def blank_inv)

lemma run_reach:
  assumes "pub_step\<^sup>*\<^sup>* r r'" "run_inv r"
  shows "run_inv r'"
  using assms by (induction rule: rtranclp_induct) (auto intro: pub_step_inv)

lemma pushed_issued:
  assumes "run_inv r" "m \<in> set (run_pushed r)"
  shows "\<exists>e \<in> set (pd_effects (run_db r)). ef_id e = gm_client_id m \<and> issued (run_db r) e"
proof -
  have "0 < length (filter (\<lambda>x. gm_client_id x = gm_client_id m) (run_pushed r))"
    using assms(2) by (auto simp: filter_empty_conv)
  then have "spent_on r (gm_client_id m) \<noteq> 0" by (simp add: spent_on_def)
  moreover have "spent_on r (gm_client_id m) \<le> 1" using assms(1) by (simp add: run_inv_def)
  ultimately have "spent_on r (gm_client_id m) = 1" by simp
  with assms(1) show ?thesis by (simp add: run_inv_def)
qed

lemma distinct_by_filter:
  assumes "\<And>y. length (filter (\<lambda>x. f x = y) xs) \<le> 1"
  shows "distinct (map f xs)"
  using assms
proof (induction xs)
  case (Cons x xs)
  have "length (filter (\<lambda>z. f z = y) xs) \<le> 1" for y using Cons.prems [of y] by (simp split: if_splits)
  then have "distinct (map f xs)" by (rule Cons.IH)
  moreover have "filter (\<lambda>z. f z = f x) xs = []" using Cons.prems [of "f x"] by simp
  then have "f x \<notin> f ` set xs" by (auto simp: filter_empty_conv)
  ultimately show ?case by simp
qed simp

lemma pushed_distinct:
  assumes "run_inv r"
  shows "distinct (map gm_client_id (run_pushed r))"
proof (rule distinct_by_filter)
  fix i show "length (filter (\<lambda>m. gm_client_id m = i) (run_pushed r)) \<le> 1"
    using assms by (auto simp: run_inv_def spent_on_def dest: spec [of _ i])
qed

text \<open>The mutations that left for effects of a kind.\<close>

definition pushed_of :: "(effect_row \<Rightarrow> bool) \<Rightarrow> 'k run \<Rightarrow> gh_mutation list" where
  "pushed_of p r = filter (\<lambda>m. list_ex (\<lambda>e. ef_id e = gm_client_id m \<and> p e) (pd_effects (run_db r))) (run_pushed r)"

lemma pushed_of_issued:
  assumes "run_inv r"
  shows "length (pushed_of p r) \<le> length (filter (\<lambda>e. p e \<and> issued (run_db r) e) (pd_effects (run_db r)))"
proof -
  have inv: "pub_inv (run_db r)" using assms by (simp add: run_inv_def)
  have "distinct (map gm_client_id (pushed_of p r))"
    using pushed_distinct [OF assms] by (simp add: pushed_of_def distinct_map_filter)
  then have "length (pushed_of p r) = card (gm_client_id ` set (pushed_of p r))"
    by (metis distinct_card length_map list.set_map)
  also have "gm_client_id ` set (pushed_of p r) \<subseteq> ef_id ` set (filter (\<lambda>e. p e \<and> issued (run_db r) e) (pd_effects (run_db r)))"
  proof
    fix i assume "i \<in> gm_client_id ` set (pushed_of p r)"
    then obtain m e where m: "m \<in> set (run_pushed r)" "i = gm_client_id m" "e \<in> set (pd_effects (run_db r))" "ef_id e = gm_client_id m" "p e"
      by (auto simp: pushed_of_def list_ex_iff)
    from pushed_issued [OF assms m(1)] obtain e' where "e' \<in> set (pd_effects (run_db r))" "ef_id e' = gm_client_id m" "issued (run_db r) e'"
      by blast
    with same_effect [OF inv m(3)] m show "i \<in> ef_id ` set (filter (\<lambda>e. p e \<and> issued (run_db r) e) (pd_effects (run_db r)))"
      by force
  qed
  then have "card (gm_client_id ` set (pushed_of p r)) \<le> card (ef_id ` set (filter (\<lambda>e. p e \<and> issued (run_db r) e) (pd_effects (run_db r))))"
    by (intro card_mono) simp_all
  also have "\<dots> \<le> length (filter (\<lambda>e. p e \<and> issued (run_db r) e) (pd_effects (run_db r)))"
    by (rule order_trans [OF card_image_le card_length]) simp
  finally show ?thesis .
qed

text \<open>C3: A publication is pushed at most once.  Over any interleaving of reservations, issues, pushes, receipts,
  refusals, sweeps, controls, crashes and commits nobody heard of, at most one mutation leaves for an
  operation of a task, however often it is asked for.\<close>

theorem operation_is_pushed_once:
  assumes "pub_step\<^sup>*\<^sup>* (started db) r" "blank_db db"
  shows "length (pushed_of (\<lambda>e. ef_task e = task \<and> ef_operation e = oper) r) \<le> 1"
proof -
  have inv: "run_inv r" using run_reach [OF assms(1) started_inv [OF assms(2)]] .
  have "length (filter (\<lambda>e. (ef_task e, ef_operation e) = (task, oper)) (pd_effects (run_db r))) \<le> 1"
    by (intro filter_one pub_inv_clauses(2) run_inv_db inv)
  moreover have "length (filter (\<lambda>e. (ef_task e = task \<and> ef_operation e = oper) \<and> issued (run_db r) e) (pd_effects (run_db r)))
      \<le> length (filter (\<lambda>e. (ef_task e, ef_operation e) = (task, oper)) (pd_effects (run_db r)))"
    by (rule filter_fewer) simp
  ultimately show ?thesis
    using pushed_of_issued [OF inv, of "\<lambda>e. ef_task e = task \<and> ef_operation e = oper"] by linarith
qed

text \<open>C6: A task stays within its publications: the mutations that ever left for it are at most what it was debited,
  and that is at most its limit, whatever was refused, abandoned, confirmed or left unknown between.\<close>

theorem publications_stay_within_limits:
  assumes "pub_step\<^sup>*\<^sup>* (started db) r" "blank_db db" "pd_tasks (run_db r) task = Some t"
  shows "int (length (pushed_of (\<lambda>e. ef_task e = task) r)) \<le> pt_used_publications t
    \<and> pt_used_publications t \<le> pt_max_publications t"
proof -
  have inv: "run_inv r" using run_reach [OF assms(1) started_inv [OF assms(2)]] .
  have "books_ok (run_db r) task t" using pub_inv_clauses(4) [OF run_inv_db [OF inv] assms(3)] .
  with pushed_of_issued [OF inv, of "\<lambda>e. ef_task e = task"] show ?thesis by (simp add: books_ok_def)
qed

text \<open>C7: A task has one publication in flight: of its effects at most one is prepared, issued or unknown, so no
  second change is pushed over one whose outcome nobody knows.\<close>

theorem one_publication_in_flight:
  assumes "pub_step\<^sup>*\<^sup>* (started db) r" "blank_db db"
  shows "length (filter (\<lambda>e. ef_task e = task \<and> in_flight (run_db r) e) (pd_effects (run_db r))) \<le> 1"
proof -
  have "pub_inv (run_db r)" using run_reach [OF assms(1) started_inv [OF assms(2)]] by (simp add: run_inv_def)
  note inv = pub_inv_clauses [OF this]
  let ?es = "filter (\<lambda>e. ef_task e = task \<and> in_flight (run_db r) e) (pd_effects (run_db r))"
  have "distinct ?es" using inv(1) by (simp add: distinct_map)
  moreover have "\<forall>a \<in> set ?es. \<forall>b \<in> set ?es. a = b" using inv(5) by auto
  ultimately show ?thesis by (rule at_most_one)
qed

section \<open>The lifecycle\<close>

text \<open>What an effect promises: it is prepared once, then refused, or issued and later confirmed, perhaps after
  its outcome was unknown.\<close>

definition lifecycle_moves :: "(effect_phase \<times> effect_phase) set" where
  "lifecycle_moves = {(Prepared, Issued), (Prepared, Refused), (Issued, Unknown), (Issued, Confirmed), (Unknown, Confirmed)}"

inductive life_step :: "(string \<rightharpoonup> effect_phase) \<Rightarrow> (string \<rightharpoonup> effect_phase) \<Rightarrow> bool" where
  idles: "life_step m m"
| prepares: "m i = None \<Longrightarrow> life_step m (m(i \<mapsto> Prepared))"
| moves: "m i = Some p \<Longrightarrow> (p, q) \<in> lifecycle_moves \<Longrightarrow> life_step m (m(i \<mapsto> q))"

definition phases :: "'k pub_db \<Rightarrow> string \<rightharpoonup> effect_phase" where
  "phases db i = Option.bind (pd_states db i) (\<lambda>s. effect_phase_of (es_status s))"

lemma phases_states: "pd_states db' = pd_states db \<Longrightarrow> phases db' = phases db"
  by (simp add: phases_def fun_eq_iff)

lemma phases_upd: "pd_states db' = (pd_states db)(i \<mapsto> s) \<Longrightarrow> es_status s = effect_phase_as_str q \<Longrightarrow> phases db' = (phases db)(i \<mapsto> q)"
  by (auto simp: phases_def fun_eq_iff simp del: effect_phase_as_str.simps)

lemma life_state:
  assumes "update_state i sel f db = (won, db')"
    "\<And>s. sel s \<Longrightarrow> \<exists>p q. phase_is p s \<and> es_status (f s) = effect_phase_as_str q \<and> (p, q) \<in> lifecycle_moves"
  shows "life_step (phases db) (phases db')"
proof (cases "\<exists>s. pd_states db i = Some s \<and> sel s")
  case True
  then obtain s where s: "pd_states db i = Some s" "sel s" by blast
  then obtain p q where pq: "phase_is p s" "es_status (f s) = effect_phase_as_str q" "(p, q) \<in> lifecycle_moves" using assms(2) by blast
  have "phases db' = (phases db)(i \<mapsto> q)"
    by (rule phases_upd [OF _ pq(2)]) (use assms(1) s in \<open>auto simp: update_state_def\<close>)
  moreover have "phases db i = Some p" using s(1) pq(1) by (simp add: phases_def phase_is_def del: effect_phase_as_str.simps)
  ultimately show ?thesis using pq(3) by (simp add: moves)
next
  case False
  then have "db' = db" using assms(1) by (auto simp: update_state_def split: option.splits if_splits)
  then show ?thesis by (simp add: idles)
qed

lemma life_state_sql:
  assumes "state_sql q p i db = Inr (u, db')" "(p, q) \<in> lifecycle_moves"
  shows "life_step (phases db) (phases db')"
proof -
  obtain won where "update_state i (phase_is p) (\<lambda>s. s\<lparr>es_status := effect_phase_as_str q\<rparr>) db = (won, db')"
    using assms(1) by (auto simp: state_sql_def prod_eq_iff)
  then show ?thesis by (rule life_state) (use assms(2) in \<open>auto simp del: effect_phase_as_str.simps\<close>)
qed

lemma life_confirm:
  assumes "confirm_effect now e commit db = Inr (u, db')"
  shows "life_step (phases db) (phases db')"
proof -
  obtain won db1 db2 where c: "confirm_sql now (ef_id e) commit db = (won, db1)"
    "(if won then confirmed_task_sql (ef_task e) (ef_ordinal e) commit (ef_tree e) (ef_head e) db1 else Inr db1) = Inr db2"
    "db' = drop_recovery (ef_id e) db2"
    using assms by (auto simp: confirm_effect_def res_bind_Inr Let_def split: prod.splits)
  have "pd_states db2 = pd_states db1" using c(2) by (auto simp: confirmed_task_sql_def split: if_splits)
  then have "phases db' = phases db1" by (intro phases_states) (simp add: c(3) drop_recovery_def)
  moreover have "life_step (phases db) (phases db1)" using c(1) unfolding confirm_sql_def
  proof (rule life_state)
    fix s assume "phase_is Issued s \<or> phase_is Unknown s"
    then obtain p where "phase_is p s" "p \<in> {Issued, Unknown}" by blast
    then show "\<exists>p q. phase_is p s \<and> es_status (s\<lparr>es_status := effect_phase_as_str Confirmed, es_commit := Some commit,
        es_confirmed_at := Some now\<rparr>) = effect_phase_as_str q \<and> (p, q) \<in> lifecycle_moves"
      by (intro exI [of _ p] exI [of _ Confirmed]) (auto simp: lifecycle_moves_def)
  qed
  ultimately show ?thesis by simp
qed

lemma life_abandon:
  assumes "abandon now l e db = Inr (b, db')"
  shows "life_step (phases db) (phases db')"
proof -
  have "abandon_sql now e db = (b, db')" using assms by (auto simp: abandon_def res_bind_Inr split: if_splits)
  then show ?thesis unfolding abandon_sql_def
  proof (rule life_state)
    fix s assume "phase_is Prepared s \<and> (ef_issuance_expires_at e \<le> now \<or> \<not> original_owner_lives now e db)"
    then show "\<exists>p q. phase_is p s \<and> es_status (s\<lparr>es_status := effect_phase_as_str Refused\<rparr>) = effect_phase_as_str q \<and> (p, q) \<in> lifecycle_moves"
      by (intro exI [of _ Prepared] exI [of _ Refused]) (auto simp: lifecycle_moves_def)
  qed
qed

lemma life_db_step:
  assumes "db_step db db'" "pub_inv db"
  shows "life_step (phases db) (phases db')"
  using assms(1)
proof cases
  case (reserves sha fresh now l i a)
  obtain x again where "a = (x, again)" by (cases a)
  with reserves have "reserve sha fresh now l i db = Inr ((x, again), db')" by simp
  then show ?thesis
  proof (cases rule: reserve_cases)
    case replay
    then show ?thesis by (simp add: idles)
  next
    case (fresh t e p)
    have "ef_id e \<notin> dom (pd_states db)"
      using pub_inv_clauses(3) [OF assms(2)] fresh(4) by (auto simp: effect_checks_def list_all_iff)
    then have "phases db (ef_id e) = None" by (simp add: phases_def domIff)
    moreover have "phases db' = (phases db)(ef_id e \<mapsto> Prepared)"
      by (rule phases_upd, simp add: fresh(9) added_def, simp)
    ultimately show ?thesis by (simp add: prepares)
  qed
next
  case (refuses e u)
  then show ?thesis by (intro life_state_sql [of Refused Prepared]) (simp_all add: refuse_def lifecycle_moves_def)
next
  case (doubts e u)
  then show ?thesis by (intro life_state_sql [of Unknown Issued]) (simp_all add: mark_unknown_def lifecycle_moves_def)
next
  case confirms
  then show ?thesis by (intro life_confirm)
next
  case (expires e u)
  then obtain db1 where "state_sql Unknown Issued (ef_id e) db = Inr ((), db1)" "db' = drop_recovery (ef_id e) db1"
    by (auto simp: expire_effect_def res_bind_Inr)
  then show ?thesis
    using life_state_sql [of Unknown Issued "ef_id e" db _ db1] phases_states [of db' db1]
    by (simp add: drop_recovery_def lifecycle_moves_def)
next
  case abandons
  then show ?thesis by (intro life_abandon)
next
  case (claims locked now c)
  have "pd_states (foldl (\<lambda>d (e, r). d\<lparr>pd_recovery := (pd_recovery d)(ef_id e \<mapsto> r\<lparr>rc_due_at := now + from_secs recheck_seconds\<rparr>)\<rparr>) d ers) = pd_states d"
    for d and ers :: "(effect_row \<times> 'a recovery_row) list"
    by (induction ers arbitrary: d) auto
  with claims have "pd_states db' = pd_states db" by (auto simp: claim_recovery_def Let_def)
  then show ?thesis using phases_states idles by metis
next
  case controls
  then have "pd_states db' = pd_states db"
    by (auto simp: control_transition_def refused_control_def res_bind_Inr split: option.splits if_splits)
  then show ?thesis using phases_states idles by metis
next
  case others
  then have "pd_states db' = pd_states db" by (simp add: other_work_def)
  then show ?thesis using phases_states idles by metis
qed

lemma life_issue:
  assumes "issue now l i x sl db = Inr (pm, db')" "of_operation i (fx_row x)"
  shows "life_step (phases db) (phases db')"
proof -
  from assms obtain db1 db2 t where f: "issue_effect_sql now (ef_id (fx_row x)) db = (True, db1)" "pd_states db2 = pd_states db1"
      "db' = update_task (ef_task (fx_row x)) (\<lambda>t. t\<lparr>pt_used_publications := pt_used_publications t + 1, t_resource_version := t_resource_version t + 1\<rparr>) db2"
    by (elim issue_facts)
  have "life_step (phases db) (phases db1)" using f(1) unfolding issue_effect_sql_def
  proof (rule life_state)
    fix s assume "phase_is Prepared s \<and> list_ex (\<lambda>e. ef_id e = ef_id (fx_row x) \<and> now < ef_issuance_expires_at e) (pd_effects db)"
    then show "\<exists>p q. phase_is p s \<and> es_status (s\<lparr>es_status := effect_phase_as_str Issued, es_issued_at := Some now\<rparr>) = effect_phase_as_str q
        \<and> (p, q) \<in> lifecycle_moves"
      by (intro exI [of _ Prepared] exI [of _ Issued]) (auto simp: lifecycle_moves_def)
  qed
  moreover have "phases db' = phases db1" by (intro phases_states) (simp add: f(2,3))
  ultimately show ?thesis by simp
qed

text \<open>C5: Every step of a run refines a move of the abstract lifecycle, or none: an effect is prepared once, is
  refused only while nothing was issued for it, is confirmed only after it was issued, and a refused or a
  confirmed effect never moves again.\<close>

theorem publications_follow_the_lifecycle:
  assumes "pub_step\<^sup>*\<^sup>* (started db) r" "blank_db db" "pub_step r r'"
  shows "life_step (phases (run_db r)) (phases (run_db r'))"
  using assms(3)
proof cases
  case (works db')
  have "pub_inv (run_db r)" using run_reach [OF assms(1) started_inv [OF assms(2)]] by (rule run_inv_db)
  with works(2) have "life_step (phases (run_db r)) (phases db')" by (intro life_db_step)
  then show ?thesis by (simp add: works(1))
next
  case (issues x i now l sl pm db')
  from life_issue [OF issues(4,3)] show ?thesis by (simp add: issues(1) with_db_def)
next
  case (issues_unheard x i now l sl pm db')
  from life_issue [OF issues_unheard(4,3)] show ?thesis by (simp add: issues_unheard(1))
next
  case (pushes pm now ss a w)
  from push_db [OF pushes(3)] show ?thesis by (simp add: pushes(1) idles)
next
  case drops
  then show ?thesis by (simp add: idles)
qed

section \<open>Stopping\<close>

definition superseded :: "'k pub_db \<Rightarrow> effect_row \<Rightarrow> bool" where
  "superseded db e \<longleftrightarrow> (\<forall>t. pd_tasks db (ef_task e) = Some t \<longrightarrow> ef_generation e < t_generation t)"

lemma superseded_quiet:
  assumes "quiet_move db db'" "superseded db e" "e \<in> set (pd_effects db)"
  shows "superseded db' e"
proof -
  have "ef_generation e < t_generation t'" if t': "pd_tasks db' (ef_task e) = Some t'" for t'
    using quiet_move_task [OF assms(1) t'] assms(2,3) by (cases "pd_tasks db (ef_task e)") (auto simp: superseded_def)
  then show ?thesis by (simp add: superseded_def)
qed

lemma superseded_db_step:
  assumes "db_step db db'" "superseded db e" "e \<in> set (pd_effects db)"
  shows "superseded db' e"
  using assms(1)
proof (cases rule: db_step_move)
  case quiet
  then show ?thesis using assms(2,3) by (rule superseded_quiet)
next
  case (fresh o')
  from fresh_effect_tables(3) [OF fresh] assms(2) show ?thesis unfolding superseded_def by metis
qed

definition never_issued :: "effect_row \<Rightarrow> 'k run \<Rightarrow> bool" where
  "never_issued e r \<longleftrightarrow> run_inv r \<and> e \<in> set (pd_effects (run_db r)) \<and> \<not> issued (run_db r) e \<and> superseded (run_db r) e"

lemma never_issued_step:
  assumes "pub_step r r'" "never_issued e r"
  shows "never_issued e r'"
proof -
  have n: "run_inv r" "e \<in> set (pd_effects (run_db r))" "\<not> issued (run_db r) e" "superseded (run_db r) e"
    using assms(2) by (simp_all add: never_issued_def)
  note inv = run_inv_db [OF n(1)]
  have issue: "e \<in> set (pd_effects db') \<and> \<not> issued db' e \<and> superseded db' e"
    if x: "fx_row x \<in> set (pd_effects (run_db r))" "of_operation i (fx_row x)" "issue now l i x sl (run_db r) = Inr (pm, db')"
    for x i now l sl pm db'
  proof -
    from x(3,2) obtain t db1 db2 where t: "pd_tasks (run_db r) (ef_task (fx_row x)) = Some t" "t_generation t = ef_generation (fx_row x)"
        "issue_effect_sql now (ef_id (fx_row x)) (run_db r) = (True, db1)" "pd_effects db2 = pd_effects db1"
        "pd_states db2 = pd_states db1" "pd_tasks db2 = pd_tasks db1"
        "db' = update_task (ef_task (fx_row x)) (\<lambda>t. t\<lparr>pt_used_publications := pt_used_publications t + 1,
           t_resource_version := t_resource_version t + 1\<rparr>) db2"
      by (elim issue_facts)
    from t(3) obtain s where s: "db1 = (run_db r)\<lparr>pd_states := (pd_states (run_db r))(ef_id (fx_row x) \<mapsto>
        s\<lparr>es_status := effect_phase_as_str Issued, es_issued_at := Some now\<rparr>)\<rparr>" by (rule issue_effect_sql_hit)
    have "ef_id (fx_row x) \<noteq> ef_id e" using same_effect [OF inv x(1) n(2)] n(4) t(1,2) by (auto simp: superseded_def)
    then have "\<not> issued db' e" using n(3) by (simp add: t(5,7) s issued_def)
    moreover have "superseded db' e" using n(4) by (auto simp: superseded_def t(6,7) s update_task_at split: if_splits)
    ultimately show ?thesis using n(2) by (simp add: t(4,7) s)
  qed
  have "run_inv r'" using pub_step_inv [OF assms(1) n(1)] .
  moreover have "e \<in> set (pd_effects (run_db r')) \<and> \<not> issued (run_db r') e \<and> superseded (run_db r') e" using assms(1)
  proof cases
    case (works db')
    with db_step_keeps [OF works(2) inv n(2)] superseded_db_step [OF works(2) n(4,2)] n(3) show ?thesis by simp
  next
    case (issues x i now l sl pm db')
    from issue [OF issues(2-4)] show ?thesis by (simp add: issues(1) with_db_def)
  next
    case (issues_unheard x i now l sl pm db')
    from issue [OF issues_unheard(2-4)] show ?thesis by (simp add: issues_unheard(1))
  next
    case (pushes pm now ss a w)
    from push_db [OF pushes(3)] n show ?thesis by (simp add: pushes(1))
  next
    case drops
    with n show ?thesis by simp
  qed
  ultimately show ?thesis by (simp add: never_issued_def)
qed

text \<open>C8: A stop is a cutoff.  Once a person paused, cancelled or resumed a task, no preparation made before ever
  leaves: an effect that was not issued by then is never pushed, whatever leases, retries and controls follow.\<close>

theorem control_cuts_off_preparations:
  assumes "pub_step\<^sup>*\<^sup>* (started db) r" "blank_db db" "e \<in> set (pd_effects (run_db r))" "\<not> issued (run_db r) e"
    "control_transition tag now fleet ws task etag g c (run_db r) = Inr ((True, previous), db1)" "ef_task e = as_str task"
    "pub_step\<^sup>*\<^sup>* (with_db r db1) r'"
  shows "\<forall>m \<in> set (run_pushed r'). gm_client_id m \<noteq> ef_id e"
proof -
  have inv: "run_inv r" using run_reach [OF assms(1) started_inv [OF assms(2)]] .
  obtain t where t: "pd_tasks (run_db r) (as_str task) = Some t" "db1 = update_task (as_str task) (controlled now c) (run_db r)"
    using assms(5) by (auto simp: control_transition_def refused_control_def res_bind_Inr task_at_def split: option.splits if_splits)
  have "ef_generation e \<le> t_generation t"
    using pub_inv_clauses(4) [OF run_inv_db [OF inv] t(1)] assms(3,6) by (simp add: books_ok_def)
  then have "superseded db1 e" by (auto simp: superseded_def t update_task_at assms(6) controlled_def)
  moreover have "run_inv (with_db r db1)" using pub_step_inv [OF pub_step.works [OF db_step.controls [OF assms(5)]] inv] .
  ultimately have "never_issued e (with_db r db1)" using assms(3,4) by (simp add: never_issued_def t(2))
  with assms(7) have "never_issued e r'" by (induction rule: rtranclp_induct) (auto intro: never_issued_step)
  then have n: "run_inv r'" "e \<in> set (pd_effects (run_db r'))" "\<not> issued (run_db r') e" by (simp_all add: never_issued_def)
  show ?thesis
  proof
    fix m assume "m \<in> set (run_pushed r')"
    from pushed_issued [OF n(1) this] same_effect [OF run_inv_db [OF n(1)] _ n(2)] n(3) show "gm_client_id m \<noteq> ef_id e" by metis
  qed
qed

end
