(* ===== verification/PublicationRuns.thy ===== *)
theory PublicationRuns
  imports PublicationLaws
begin

text \<open>
  The handlers as the code composes them are runs of the step relation: each transaction, whatever became of
  its commit, is a step or none, and a permit is spent by the push that follows it.
\<close>

definition alone :: "'k pub_world \<Rightarrow> 'k run" where "alone w = \<lparr>rn_world = w, rn_permits = []\<rparr>"

definition env_runs :: "'k pub_env \<Rightarrow> bool" where
  "env_runs env \<longleftrightarrow> (\<forall>stg w ps. pub_step\<^sup>*\<^sup>* \<lparr>rn_world = w, rn_permits = ps\<rparr> \<lparr>rn_world = pe_meanwhile env stg w, rn_permits = ps\<rparr>)"

lemma meanwhile_run: "env_runs env \<Longrightarrow> pub_step\<^sup>*\<^sup>* (alone w) (alone (pe_meanwhile env stg w))"
  by (simp add: env_runs_def alone_def)

lemma alone_step: "db_step (pw_db w) db' \<Longrightarrow> pub_step\<^sup>*\<^sup>* (alone w) (alone (w\<lparr>pw_db := db'\<rparr>))"
  using pub_step.works [of "alone w" db'] by (simp add: alone_def with_db_def r_into_rtranclp)

lemma same_step: "db_step db db"
proof (rule db_step.others)
  have "kept_task es i (pd_tasks db i) t'" if "pd_tasks db i = Some t'" for es i t' using that by simp
  then show "other_work db db" by (simp add: other_work_def)
qed

section \<open>Effects stay\<close>

lemma db_step_grows: "db_step db db' \<Longrightarrow> set (pd_effects db) \<subseteq> set (pd_effects db')"
  by (erule db_step_move) (auto simp: quiet_move_def dest: fresh_effect_tables(1))

lemma issue_effects: "issue now l i x sl db = Inr (pm, db') \<Longrightarrow> of_operation i (fx_row x) \<Longrightarrow> pd_effects db' = pd_effects db"
  by (elim issue_facts issue_effect_sql_hit) auto

lemma pub_step_grows: "pub_step r r' \<Longrightarrow> set (pd_effects (run_db r)) \<subseteq> set (pd_effects (run_db r'))"
proof (induction rule: pub_step.induct)
  case (works r db')
  then show ?case using db_step_grows by simp
next
  case (issues x r i now l sl pm db')
  then show ?case using issue_effects by (fastforce simp: with_db_def)
next
  case (issues_unheard x r i now l sl pm db')
  then show ?case using issue_effects by fastforce
next
  case (pushes pm r now ss a w)
  then show ?case using push_db by fastforce
qed simp

lemma run_grows: "pub_step\<^sup>*\<^sup>* r r' \<Longrightarrow> set (pd_effects (run_db r)) \<subseteq> set (pd_effects (run_db r'))"
  by (induction rule: rtranclp_induct) (use pub_step_grows in blast)+

definition knows :: "effect_row \<Rightarrow> 'k pub_world \<Rightarrow> bool" where "knows e w \<longleftrightarrow> e \<in> set (pd_effects (pw_db w))"

lemma knows_run: "knows e w \<Longrightarrow> pub_step\<^sup>*\<^sup>* (alone w) (alone w') \<Longrightarrow> knows e w'"
  using run_grows [of "alone w" "alone w'"] by (auto simp: knows_def alone_def)

section \<open>The combinators\<close>

text \<open>A handler's run from a world, and what holds of its result where it has one.\<close>

definition runs_to :: "('k, 'a) handler \<Rightarrow> 'k pub_world \<Rightarrow> ('a \<Rightarrow> 'k pub_world \<Rightarrow> bool) \<Rightarrow> bool" where
  "runs_to m w q \<longleftrightarrow> (case m w of (r, w') \<Rightarrow> pub_step\<^sup>*\<^sup>* (alone w) (alone w') \<and> (\<forall>x. r = Inr x \<longrightarrow> q x w'))"

lemma runs_done: "(\<And>x. r = Inr x \<Longrightarrow> q x w) \<Longrightarrow> runs_to (done_with r) w q"
  by (simp add: runs_to_def done_with_def)

lemma runs_mono: "runs_to m w q \<Longrightarrow> (\<And>x w'. q x w' \<Longrightarrow> q' x w') \<Longrightarrow> runs_to m w q'"
  by (auto simp: runs_to_def split: prod.splits)

lemma runs_and_then:
  assumes "runs_to m w q" "\<And>x w'. q x w' \<Longrightarrow> pub_step\<^sup>*\<^sup>* (alone w) (alone w') \<Longrightarrow> runs_to (f x) w' q'"
  shows "runs_to (and_then m f) w q'"
proof -
  obtain r w' where m: "m w = (r, w')" by fastforce
  with assms(1) have a: "pub_step\<^sup>*\<^sup>* (alone w) (alone w')" "\<And>x. r = Inr x \<Longrightarrow> q x w'" by (auto simp: runs_to_def)
  show ?thesis
  proof (cases r)
    case (Inl e)
    with m a(1) show ?thesis by (simp add: runs_to_def and_then_def)
  next
    case (Inr x)
    from assms(2) [OF a(2) [OF Inr] a(1)] a(1) show ?thesis
      by (auto simp: runs_to_def and_then_def m Inr split: prod.splits)
  qed
qed

lemma runs_or_refuse:
  assumes "runs_to m w q" "\<And>w'. pub_step\<^sup>*\<^sup>* (alone w) (alone w') \<Longrightarrow> runs_to cleanup w' (\<lambda>_ _. True)"
    "\<And>x w'. q x w' \<Longrightarrow> pub_step\<^sup>*\<^sup>* (alone w) (alone w') \<Longrightarrow> runs_to (f x) w' q'"
  shows "runs_to (or_refuse cleanup m f) w q'"
proof -
  obtain r w' where m: "m w = (r, w')" by fastforce
  with assms(1) have a: "pub_step\<^sup>*\<^sup>* (alone w) (alone w')" "\<And>x. r = Inr x \<Longrightarrow> q x w'" by (auto simp: runs_to_def)
  show ?thesis
  proof (cases r)
    case (Inl e)
    from assms(2) [OF a(1)] a(1) show ?thesis
      by (auto simp: runs_to_def or_refuse_def and_then_def done_with_def m Inl split: prod.splits sum.splits)
  next
    case (Inr x)
    from assms(3) [OF a(2) [OF Inr] a(1)] a(1) show ?thesis
      by (auto simp: runs_to_def or_refuse_def m Inr split: prod.splits)
  qed
qed

lemma runs_transaction:
  assumes "env_runs env"
    "\<And>x db' w'. pub_step\<^sup>*\<^sup>* (alone w) (alone w') \<Longrightarrow> oper (pe_now env stg) (pw_db w') = Inr (x, db') \<Longrightarrow> db_step (pw_db w') db' \<and> q x (w'\<lparr>pw_db := db'\<rparr>)"
  shows "runs_to (transaction env stg oper) w q"
proof -
  note m = meanwhile_run [OF assms(1), of w stg]
  show ?thesis
  proof (cases "oper (pe_now env stg) (pw_db (pe_meanwhile env stg w))")
    case (Inl e)
    with m show ?thesis by (simp add: runs_to_def transaction_def Let_def)
  next
    case (Inr a)
    obtain x db' where a: "a = (x, db')" by fastforce
    from assms(2) [OF m] Inr a have s: "db_step (pw_db (pe_meanwhile env stg w)) db'" "q x ((pe_meanwhile env stg w)\<lparr>pw_db := db'\<rparr>)"
      by auto
    have "pub_step\<^sup>*\<^sup>* (alone w) (alone ((pe_meanwhile env stg w)\<lparr>pw_db := db'\<rparr>))"
      using rtranclp_trans [OF m alone_step [OF s(1)]] .
    with m s(2) Inr a show ?thesis by (cases "pe_fate env stg") (simp_all add: runs_to_def transaction_def Let_def)
  qed
qed

section \<open>The handlers\<close>

lemma effect_in_row: "effect_in db e = Some x \<Longrightarrow> fx_row x = e"
  by (auto simp: effect_in_def)

lemma find_effect_row: "find_effect p db = Some x \<Longrightarrow> fx_row x \<in> set (pd_effects db) \<and> p (fx_row x)"
  by (auto simp: find_effect_def bind_eq_Some_conv find_Some_iff dest!: effect_in_row)

lemma runs_load:
  fixes env :: "'k pub_env"
  assumes "env_runs env"
  shows "runs_to (transaction env stg (\<lambda>now. load_effect now l i)) w (\<lambda>x w'. knows (fx_row x) w')"
proof (rule runs_transaction [OF assms])
  fix x :: effect and db' and w' :: "'k pub_world"
  assume "load_effect (pe_now env stg) l i (pw_db w') = Inr (x, db')"
  then have "db' = pw_db w'" "fx_row x \<in> set (pd_effects db')"
    by (auto simp: load_effect_def res_bind_Inr dest: find_effect_row)
  then show "db_step (pw_db w') db' \<and> knows (fx_row x) (w'\<lparr>pw_db := db'\<rparr>)" by (simp add: same_step knows_def)
qed

lemma runs_over_row:
  assumes "env_runs env" "knows e w"
    "\<And>db db' x. e \<in> set (pd_effects db) \<Longrightarrow> oper (pe_now env stg) db = Inr (x, db') \<Longrightarrow> db_step db db'"
  shows "runs_to (transaction env stg oper) w (\<lambda>_ w'. True)"
proof (rule runs_transaction [OF assms(1)])
  fix x db' w'
  assume "pub_step\<^sup>*\<^sup>* (alone w) (alone w')" "oper (pe_now env stg) (pw_db w') = Inr (x, db')"
  with knows_run [OF assms(2)] assms(3) show "db_step (pw_db w') db' \<and> True" by (auto simp: knows_def)
qed

lemma runs_pure_then: "(\<And>x. r = Inr x \<Longrightarrow> runs_to (f x) w q) \<Longrightarrow> runs_to (and_then (done_with r) f) w q"
  by (cases r) (simp_all add: runs_to_def and_then_def done_with_def)

lemma runs_pure_or_refuse:
  assumes "runs_to cleanup w (\<lambda>_ _. True)" "\<And>x. r = Inr x \<Longrightarrow> runs_to (f x) w (\<lambda>_ _. True)"
  shows "runs_to (or_refuse cleanup (done_with r) f) w (\<lambda>_ _. True)"
proof (cases r)
  case (Inl e)
  obtain c w' where "cleanup w = (c, w')" by fastforce
  with assms(1) Inl show ?thesis by (cases c) (simp_all add: runs_to_def or_refuse_def and_then_def done_with_def)
qed (use assms(2) in \<open>simp add: runs_to_def or_refuse_def done_with_def\<close>)

lemma runs_to_snd: "runs_to m w q \<Longrightarrow> pub_step\<^sup>*\<^sup>* (alone w) (alone (snd (m w)))"
  by (auto simp: runs_to_def split: prod.splits)

lemma runs_read_abandoned:
  assumes "env_runs env" "knows (fx_row x) w"
  shows "runs_to (read_abandoned env l i x) w (\<lambda>y w'. knows (fx_row y) w')"
proof (cases "fx_state x = effect_phase_as_str Prepared")
  case True
  have "runs_to (if gone then transaction env AtReload (\<lambda>now. load_effect now l i) else done_with (Inr x)) w'
      (\<lambda>y w'. knows (fx_row y) w')" if "pub_step\<^sup>*\<^sup>* (alone w) (alone w')" for gone w'
    using knows_run [OF assms(2) that] runs_load [OF assms(1)] by (auto intro: runs_done)
  moreover have "runs_to (transaction env AtAbandon (\<lambda>now. abandon now l (fx_row x))) w (\<lambda>_ _. True)"
    by (rule runs_over_row [OF assms]) (rule db_step.abandons)
  ultimately show ?thesis using True unfolding read_abandoned_def
    by (auto simp del: effect_phase_as_str.simps intro!: runs_and_then)
next
  case False
  then have "read_abandoned env l i x = done_with (Inr x)" by (simp add: read_abandoned_def del: effect_phase_as_str.simps)
  then show ?thesis using assms(2) by (simp add: runs_to_def done_with_def)
qed

lemma runs_record_reconciled:
  assumes "env_runs env" "knows (fx_row x) w"
  shows "runs_to (record_reconciled env l i x r) w (\<lambda>_ _. True)"
proof (cases r)
  case (ReconciledAs commit)
  have "runs_to (transaction env AtReconcile (\<lambda>now. confirm_effect now (fx_row x) commit)) w (\<lambda>_ _. True)"
    by (rule runs_over_row [OF assms]) (rule db_step.confirms)
  then show ?thesis unfolding record_reconciled_def ReconciledAs reconciled.case
    by (rule runs_and_then) (rule runs_and_then [OF runs_load [OF assms(1)] runs_done], simp)
qed (simp add: record_reconciled_def runs_done)

lemma runs_read_one:
  fixes env :: "'k pub_env"
  assumes "env_runs env"
  shows "runs_to (read_one env l i) w (\<lambda>_ _. True)"
  unfolding read_one_def
proof (intro runs_and_then [OF runs_load [OF assms]] runs_and_then)
  fix x :: effect and w1 :: "'k pub_world" assume "knows (fx_row x) w1"
  then show "runs_to (read_abandoned env l i x) w1 (\<lambda>y w'. knows (fx_row y) w')" by (rule runs_read_abandoned [OF assms])
next
  fix y :: effect and w2 :: "'k pub_world" assume "knows (fx_row y) w2"
  then show "runs_to (read_reconciled env l i y) w2 (\<lambda>_ _. True)"
    unfolding read_reconciled_def hub_of_def
    by (auto intro!: runs_pure_then runs_record_reconciled [OF assms] runs_done simp del: effect_phase_as_str.simps)
qed

lemma runs_read_back: "env_runs env \<Longrightarrow> runs_to (read_back env l e again) w (\<lambda>_ _. True)"
  unfolding read_back_def by (intro runs_pure_then runs_and_then [OF runs_read_one] runs_done) simp_all

text \<open>The issue and the push that spends its permit.\<close>

lemma runs_push_and_record:
  assumes "env_runs env" "knows e w"
  shows "pub_step\<^sup>*\<^sup>* \<lparr>rn_world = w, rn_permits = [pm]\<rparr> (alone (snd (push_and_record env e ss pm w)))"
proof -
  let ?w = "pe_meanwhile env AtPush w"
  obtain a w' where p: "push (pe_now env AtPush) ss pm ?w = (a, w')" by fastforce
  have "pub_step\<^sup>*\<^sup>* \<lparr>rn_world = w, rn_permits = [pm]\<rparr> \<lparr>rn_world = ?w, rn_permits = [pm]\<rparr>"
    using assms(1) by (simp add: env_runs_def)
  moreover have "pub_step \<lparr>rn_world = ?w, rn_permits = [pm]\<rparr> (alone w')"
    using pub_step.pushes [of pm "\<lparr>rn_world = ?w, rn_permits = [pm]\<rparr>", OF _ , of _ ss a w'] p by (simp add: alone_def)
  ultimately have m: "pub_step\<^sup>*\<^sup>* \<lparr>rn_world = w, rn_permits = [pm]\<rparr> (alone w')" by (rule rtranclp.rtrancl_into_rtrancl)
  then have k: "knows e w'" using run_grows [OF m] assms(2) by (auto simp: knows_def alone_def)
  have "runs_to (transaction env AtReceipt (\<lambda>now. confirm_effect now e commit)) w' (\<lambda>_ _. True)" for commit
    by (rule runs_over_row [OF assms(1) k]) (rule db_step.confirms)
  moreover have "runs_to (transaction env AtReceipt (\<lambda>_. mark_unknown e)) w' (\<lambda>_ _. True)"
    by (rule runs_over_row [OF assms(1) k]) (rule db_step.doubts)
  ultimately have "pub_step\<^sup>*\<^sup>* (alone w') (alone (snd (push_and_record env e ss pm w)))"
    by (cases a) (auto simp: push_and_record_def p dest!: runs_to_snd)
  with m show ?thesis by (rule rtranclp_trans)
qed

lemma runs_issue_and_push:
  assumes "env_runs env" "knows (fx_row x) w" "of_operation i (fx_row x)"
    "\<And>w'. knows (fx_row x) w' \<Longrightarrow> runs_to cleanup w' (\<lambda>_ _. True)" "\<And>w'. runs_to after w' (\<lambda>_ _. True)"
  shows "runs_to (or_refuse cleanup (transaction env AtIssue (\<lambda>now. issue now l i x sl))
    (\<lambda>pm. and_then (push_and_record env (fx_row x) ss pm) (\<lambda>_. after))) w (\<lambda>_ _. True)"
proof -
  let ?w = "pe_meanwhile env AtIssue w"
  note m = meanwhile_run [OF assms(1), of w AtIssue]
  note k = knows_run [OF assms(2) m]
  have stop: ?thesis if t: "transaction env AtIssue (\<lambda>now. issue now l i x sl) w = (Inl f, w')" "pub_step\<^sup>*\<^sup>* (alone w) (alone w')" for f w'
  proof -
    from assms(4) [OF knows_run [OF assms(2) t(2)]] t show ?thesis
      by (auto simp: runs_to_def or_refuse_def and_then_def done_with_def split: prod.splits sum.splits)
  qed
  show ?thesis
  proof (cases "issue (pe_now env AtIssue) l i x sl (pw_db ?w)")
    case (Inl f)
    then show ?thesis using stop [of f ?w] m by (simp add: transaction_def Let_def)
  next
    case (Inr a)
    obtain pm db' where a: "a = (pm, db')" by fastforce
    let ?v = "?w\<lparr>pw_db := db'\<rparr>"
    have row: "fx_row x \<in> set (pd_effects (run_db (alone ?w)))" "issue (pe_now env AtIssue) l i x sl (run_db (alone ?w)) = Inr (pm, db')"
      using k Inr a by (simp_all add: knows_def alone_def)
    have unheard: "pub_step\<^sup>*\<^sup>* (alone w) (alone ?v)"
      using rtranclp.rtrancl_into_rtrancl [OF m pub_step.issues_unheard [OF row(1) assms(3) row(2)]] by (simp add: alone_def with_db_def)
    have heard: "pub_step\<^sup>*\<^sup>* (alone w) \<lparr>rn_world = ?v, rn_permits = [pm]\<rparr>"
      using rtranclp.rtrancl_into_rtrancl [OF m pub_step.issues [OF row(1) assms(3) row(2)]] by (simp add: alone_def with_db_def)
    show ?thesis
    proof (cases "pe_fate env AtIssue")
      case Landed
      have "knows (fx_row x) ?v" using run_grows [OF heard] assms(2) by (auto simp: knows_def alone_def)
      from runs_push_and_record [OF assms(1) this] have p:
        "pub_step\<^sup>*\<^sup>* (alone w) (alone (snd (push_and_record env (fx_row x) ss pm ?v)))"
        using rtranclp_trans [OF heard] by blast
      obtain r v' where v': "push_and_record env (fx_row x) ss pm ?v = (r, v')" by fastforce
      have "pub_step\<^sup>*\<^sup>* (alone v') (alone (snd (after v')))" using assms(5) [of v'] by (auto simp: runs_to_def split: prod.splits)
      with p have "pub_step\<^sup>*\<^sup>* (alone w) (alone (snd (after v')))" by (simp add: v' rtranclp_trans)
      with p v' show ?thesis
        by (cases r) (auto simp: runs_to_def or_refuse_def and_then_def transaction_def Let_def Inr a Landed split: prod.splits)
    next
      case RolledBack
      then show ?thesis using stop [of _ ?w] m Inr a by (simp add: transaction_def Let_def)
    next
      case Unheard
      then show ?thesis using stop [of _ ?v] unheard Inr a by (simp add: transaction_def Let_def)
    qed
  qed
qed

lemma runs_publish_reserved:
  assumes "env_runs env" "knows (fx_row x) w" "of_operation i (fx_row x)"
  shows "runs_to (publish_reserved env l i x) w (\<lambda>_ _. True)"
proof -
  have refused: "runs_to (transaction env AtRefuse (\<lambda>_. refuse (fx_row x))) w' (\<lambda>_ _. True)" if "knows (fx_row x) w'" for w'
    by (rule runs_over_row [OF assms(1) that]) (rule db_step.refuses)
  show ?thesis unfolding publish_reserved_def Let_def hub_of_def
    by (intro runs_pure_then runs_pure_or_refuse refused assms runs_issue_and_push runs_read_back)
qed

text \<open>C4: The publishing handler is a run of the modelled steps: from its reservation to what it answers, with
  commits that fail or go unheard, errors on every path and the rest of the daemon at work between its
  transactions, it does nothing to the store or to the provider that the steps do not allow.\<close>

theorem publishing_is_a_run:
  fixes env :: "'k pub_env"
  assumes "\<forall>stg w ps. pub_step\<^sup>*\<^sup>* \<lparr>rn_world = w, rn_permits = ps\<rparr> \<lparr>rn_world = pe_meanwhile env stg w, rn_permits = ps\<rparr>"
  shows "pub_step\<^sup>*\<^sup>* \<lparr>rn_world = w, rn_permits = []\<rparr> \<lparr>rn_world = snd (publish env l i w), rn_permits = []\<rparr>"
proof -
  have env: "env_runs env" using assms by (simp add: env_runs_def)
  have "runs_to (publish env l i) w (\<lambda>_ _. True)" unfolding publish_def
  proof (rule runs_and_then)
    show "runs_to (transaction env AtReserve (\<lambda>now. reserve (pe_sha env) (pe_fresh env) now l i)) w
        (\<lambda>(x, again) w'. \<not> again \<longrightarrow> knows (fx_row x) w' \<and> of_operation i (fx_row x))"
    proof (rule runs_transaction [OF env])
      fix a :: "effect \<times> bool" and db' and w' :: "'k pub_world"
      assume r: "reserve (pe_sha env) (pe_fresh env) (pe_now env AtReserve) l i (pw_db w') = Inr (a, db')"
      obtain x again where a: "a = (x, again)" by fastforce
      have "\<not> again \<longrightarrow> fx_row x \<in> set (pd_effects db') \<and> of_operation i (fx_row x)"
        using r unfolding a
        by (cases rule: reserve_cases) (auto simp: existing_def of_operation_def dest!: find_effect_row)
      with db_step.reserves [OF r] a show "db_step (pw_db w') db' \<and> (case a of (x, again) \<Rightarrow> \<lambda>w'. \<not> again \<longrightarrow> knows (fx_row x) w'
          \<and> of_operation i (fx_row x)) (w'\<lparr>pw_db := db'\<rparr>)"
        by (simp add: knows_def)
    qed
  next
    fix a :: "effect \<times> bool" and w' :: "'k pub_world" assume "(case a of (x, again) \<Rightarrow> \<lambda>w'. \<not> again \<longrightarrow> knows (fx_row x) w' \<and> of_operation i (fx_row x)) w'"
    then show "runs_to (case a of (x, again) \<Rightarrow> if again then read_back env l (fx_row x) True else publish_reserved env l i x) w' (\<lambda>_ _. True)"
      using runs_read_back [OF env] runs_publish_reserved [OF env] by (auto split: prod.splits)
  qed
  then show ?thesis by (simp add: runs_to_def alone_def split: prod.splits)
qed

end
