(* ===== verification/RepositoryLaws.thy ===== *)
theory RepositoryLaws
  imports Repositories "HOL-Library.Sublist"
begin

text \<open>
  What a published change may touch: the walk through the provider's trees, followed from the root of the
  expected head, against the plain lookup of an entry by its path.
\<close>

section \<open>Entries by path\<close>

fun entry_at :: "(string \<Rightarrow> git_tree answer) \<Rightarrow> string \<Rightarrow> string list \<Rightarrow> tree_entry option" where
  "entry_at trees tree [] = None"
| "entry_at trees tree (c # cs) = (case trees tree of Inl _ \<Rightarrow> None
     | Inr t \<Rightarrow> (case List.find (\<lambda>e. te_path e = c) (gt_entries t) of None \<Rightarrow> None
         | Some e \<Rightarrow> if cs = [] then Some e else entry_at trees (te_sha e) cs))"

lemma regular_file_modes:
  assumes "regular_file trees deleting tree path = Inr ()" "prefix q path" "entry_at trees tree q = Some e"
  shows "te_mode e = (if q = path then ''100644'' else ''040000'')"
  using assms
proof (induction trees deleting tree path arbitrary: q rule: regular_file.induct)
  case (2 trees deleting tree c cs)
  from "2.prems"(2,3) obtain q' where q: "q = c # q'" "prefix q' cs" by (cases q) auto
  with "2.prems"(3) obtain t d where t: "trees tree = Inr t" "List.find (\<lambda>e. te_path e = c) (gt_entries t) = Some d"
      "(if q' = [] then Some d else entry_at trees (te_sha d) q') = Some e" by (auto split: sum.splits option.splits)
  with "2.prems"(1) have step: "\<not> gt_truncated t" "te_mode d = (if cs = [] then ''100644'' else ''040000'')"
      "regular_file trees deleting (te_sha d) cs = Inr ()"
    by (auto simp: invalid_target_def split: if_splits)
  show ?case
  proof (cases "q' = []")
    case True
    with q t(3) step(2) show ?thesis by auto
  next
    case False
    with t(3) have "entry_at trees (te_sha d) q' = Some e" by simp
    from "2.IH" [OF step(1) t(2) _ step(3) q(2) this] step(2) q(1) show ?thesis by simp
  qed
qed simp

lemma regular_file_deleted:
  "regular_file trees True tree path = Inr () \<Longrightarrow> path \<noteq> [] \<Longrightarrow> entry_at trees tree path \<noteq> None"
proof (induction trees True tree path rule: regular_file.induct)
  case (2 trees tree c cs)
  from "2.prems"(1) obtain t where t: "trees tree = Inr t" "\<not> gt_truncated t" by (auto simp: invalid_target_def res_bind_Inr split: if_splits)
  with "2.prems"(1) obtain d where d: "List.find (\<lambda>e. te_path e = c) (gt_entries t) = Some d"
    by (auto simp: invalid_target_def split: option.splits)
  with t "2.prems"(1) have step: "te_mode d = (if cs = [] then ''100644'' else ''040000'')"
      "regular_file trees True (te_sha d) cs = Inr ()"
    by (auto simp: invalid_target_def split: if_splits)
  show ?case
  proof (cases "cs = []")
    case False
    with "2.hyps" [OF t(2) d _ step(2)] step(1) t d show ?thesis by simp
  qed (use t d in simp)
qed simp

section \<open>The loop over the changes\<close>

definition decoded_length :: "session \<Rightarrow> file_change \<Rightarrow> nat" where
  "decoded_length ss f = (case Option.bind (fc_contents f) (ss_base64 ss) of None \<Rightarrow> 0 | Some d \<Rightarrow> length d)"

lemma reproduce_changes_Cons:
  assumes "reproduce_changes ss owner name root earlier bytes (f # fs) = Inr written"
  obtains rest where "\<forall>e \<in> set earlier. \<not> overlaps (fc_path e) (fc_path f)"
    "regular_file (ss_tree ss owner name) (fc_contents f = None) root (split_on CHR ''/'' (fc_path f)) = Inr ()"
    "bytes \<le> decoded_max \<longrightarrow> bytes + decoded_length ss f \<le> decoded_max"
    "reproduce_changes ss owner name root (earlier @ [f]) (bytes + decoded_length ss f) fs = Inr rest"
    "map fst written = fc_path f # map fst rest"
proof -
  from assms have e: "\<forall>e \<in> set earlier. \<not> overlaps (fc_path e) (fc_path f)"
    and r: "regular_file (ss_tree ss owner name) (fc_contents f = None) root (split_on CHR ''/'' (fc_path f)) = Inr ()"
    by (auto simp: res_bind_Inr invalid_target_def list_ex_iff simp del: regular_file.simps split: if_splits)
  show thesis
  proof (cases "fc_contents f")
    case None
    with assms e r obtain rest where "reproduce_changes ss owner name root (earlier @ [f]) bytes fs = Inr rest"
        "written = (fc_path f, None) # rest"
      by (auto simp: res_bind_Inr list_ex_iff simp del: regular_file.simps split: if_splits)
    with None show thesis by (intro that [OF e r, of rest]) (simp_all add: decoded_length_def)
  next
    case (Some content)
    with assms e r obtain decoded sha rest where d: "ss_base64 ss content = Some decoded" "\<not> decoded_max < bytes + length decoded"
        "reproduce_changes ss owner name root (earlier @ [f]) (bytes + length decoded) fs = Inr rest" "written = (fc_path f, Some sha) # rest"
      by (auto simp: res_bind_Inr invalid_target_def list_ex_iff simp del: regular_file.simps split: if_splits option.splits)
    with Some show thesis by (intro that [OF e r, of rest]) (simp_all add: decoded_length_def)
  qed
qed

lemma reproduce_changes_facts:
  "reproduce_changes ss owner name root earlier bytes fs = Inr written \<Longrightarrow>
    (\<forall>f \<in> set fs. regular_file (ss_tree ss owner name) (fc_contents f = None) root (split_on CHR ''/'' (fc_path f)) = Inr ())
    \<and> sorted_wrt (\<lambda>e f. \<not> overlaps (fc_path e) (fc_path f)) fs
    \<and> (\<forall>e \<in> set earlier. \<forall>f \<in> set fs. \<not> overlaps (fc_path e) (fc_path f))
    \<and> (bytes \<le> decoded_max \<longrightarrow> bytes + sum_list (map (decoded_length ss) fs) \<le> decoded_max)
    \<and> map fst written = map fc_path fs"
proof (induction fs arbitrary: earlier bytes written)
  case (Cons f fs)
  from Cons.prems obtain rest where step: "\<forall>e \<in> set earlier. \<not> overlaps (fc_path e) (fc_path f)"
      "regular_file (ss_tree ss owner name) (fc_contents f = None) root (split_on CHR ''/'' (fc_path f)) = Inr ()"
      "bytes \<le> decoded_max \<longrightarrow> bytes + decoded_length ss f \<le> decoded_max"
      "reproduce_changes ss owner name root (earlier @ [f]) (bytes + decoded_length ss f) fs = Inr rest"
      "map fst written = fc_path f # map fst rest"
    by (rule reproduce_changes_Cons)
  from Cons.IH [OF step(4)] step(1-3,5) show ?case by (auto simp: add.assoc)
qed simp

text \<open>What one change may touch below a tree: directories on the way, a regular file at its end, and a file
  to delete is there.\<close>

definition touches_file :: "(string \<Rightarrow> git_tree answer) \<Rightarrow> string \<Rightarrow> file_change \<Rightarrow> bool" where
  "touches_file trees root f \<longleftrightarrow> (let path = split_on CHR ''/'' (fc_path f) in
     (\<forall>q e. prefix q path \<longrightarrow> entry_at trees root q = Some e \<longrightarrow> te_mode e = (if q = path then ''100644'' else ''040000''))
     \<and> (fc_contents f = None \<longrightarrow> entry_at trees root path \<noteq> None))"

lemma regular_file_touches:
  assumes "regular_file trees (fc_contents f = None) root (split_on CHR ''/'' (fc_path f)) = Inr ()"
  shows "touches_file trees root f"
  unfolding touches_file_def Let_def
proof (intro conjI allI impI)
  fix q e assume "prefix q (split_on CHR ''/'' (fc_path f))" "entry_at trees root q = Some e"
  then show "te_mode e = (if q = split_on CHR ''/'' (fc_path f) then ''100644'' else ''040000'')"
    by (rule regular_file_modes [OF assms])
next
  assume "fc_contents f = None"
  with assms regular_file_deleted [of trees root] show "entry_at trees root (split_on CHR ''/'' (fc_path f)) \<noteq> None" by simp
qed

text \<open>C9: A change that reaches the provider touches regular files only: below the tree of the head it was tested
  on, every changed path leads through directories to a plain, non-executable file or to nothing, a file to be
  deleted is there, no two changes touch the same path or one inside another, and together they are at most one
  mebibyte.  No symbolic link, submodule or executable is followed or overwritten.\<close>

theorem published_changes_touch_regular_files:
  assumes "prepare_tree ss p i = Inr ()" "owner_name (pr_repository p) = Inr (owner, name)"
    "ss_commit ss owner name (pr_head p) = Inr commit"
  shows "(\<forall>f \<in> set (ei_changes i). touches_file (ss_tree ss owner name) (gc_tree commit) f)
    \<and> sorted_wrt (\<lambda>e f. \<not> overlaps (fc_path e) (fc_path f)) (ei_changes i)
    \<and> sum_list (map (decoded_length ss) (ei_changes i)) \<le> 1024 * 1024
    \<and> ei_tested_tree i \<noteq> gc_tree commit"
proof -
  have "ei_expected_head i = pr_head p" "reproduce ss p i = Inr ()"
    using assms(1) by (auto simp: prepare_tree_def stale_state_def res_bind_Inr split: if_splits)
  with assms(2,3) obtain written where w: "reproduce_changes ss owner name (gc_tree commit) [] 0 (ei_changes i) = Inr written"
      "ei_tested_tree i \<noteq> gc_tree commit"
    by (auto simp: reproduce_def res_bind_Inr invalid_target_def split: if_splits)
  from reproduce_changes_facts [OF w(1)] regular_file_touches w(2) show ?thesis by (auto simp: decoded_max_def)
qed

end
