(* ===== verification/PublicationSamples.thy ===== *)
theory PublicationSamples
  imports PublicationRuns RepositoryLaws
begin

text \<open>
  One publication from its reservation through its issue to its push, a person's stop before the issue, and
  the witnesses of what publishing guarantees at the states between.
\<close>

definition shop_fleet :: uuid7 where "shop_fleet = Uuid7 ''01890000-0000-7000-8000-00000000000a''"
definition shop_desk :: uuid7 where "shop_desk = Uuid7 ''01890000-0000-7000-8000-00000000000c''"
definition shop_lease :: uuid7 where "shop_lease = Uuid7 ''01890000-0000-7000-8000-00000000000d''"
definition shop_runner :: uuid7 where "shop_runner = Uuid7 ''01890000-0000-7000-8000-00000000000e''"
definition shop_task :: uuid7 where "shop_task = Uuid7 ''01890000-0000-7000-8000-000000000031''"
definition shop_effect :: uuid7 where "shop_effect = Uuid7 ''01890000-0000-7000-8000-000000000032''"

definition shop_flow :: workflow where "shop_flow = \<lparr>wf_id = 7, wf_path = ''.github/workflows/test.yml'', wf_digest = ''d7''\<rparr>"

definition shop_pr :: bound_pr where
  "shop_pr = \<lparr>pr_repository = ''acme/shop'', pr_repository_id = 11, pr_installation_id = 12, pr_number = 3,
     pr_branch = ''fix'', pr_base = ''main'', pr_head = ''h0'', pr_tree = ''t0'',
     pr_url = ''https://github.com/acme/shop/pull/3'', pr_workflows = [shop_flow]\<rparr>"

definition shop_binding :: repository_binding where
  "shop_binding = \<lparr>rb_repositories = [''acme/shop''], rb_reach = ReachWrite ''main'', rb_publication = ExistingPrOnly,
     rb_workflows = [\<lparr>vw_path = ''.github/workflows/test.yml'', vw_sha256 = ''d7''\<rparr>]\<rparr>"

definition shop_row :: pub_task where
  "shop_row = \<lparr>t_fleet_id = as_str shop_fleet, t_workspace_id = as_str shop_desk, t_status = ''running'', t_generation = 1,
     t_stop_generation = 0, t_expires_at = 900000000000, max_model_nanos = 100, used_model_nanos = 0,
     reserved_model_nanos = 0, max_running_nanos = 600000000000, used_running_nanos = 0, max_decision_calls = 5,
     used_decision_calls = 0, t_terminal_at = None, t_resource_version = 1, t_checkpoint_cleanup_at = None,
     pt_covered_input = 1, pt_input = 1, pt_effect_cursor = 0, pt_watermark = 0, pt_max_publications = 2,
     pt_used_publications = 0, pt_target = ExistingPr shop_pr, pt_accepted_revision = ''rev1'', pt_max_leases = 5,
     pt_used_leases = 1, pt_checkpoint_sequence = None\<rparr>"

definition shop_held :: lease_row where
  "shop_held = \<lparr>l_runner_id = as_str shop_runner, l_fleet_id = as_str shop_fleet, l_workspace_id = as_str shop_desk,
     l_tenant_id = ''tenant'', l_event = ''ev1'', l_fencing_token = 1, l_created_at = 0, l_expires_at = 100000000000,
     l_metered_at = 0, l_status = ''active'', l_posture = ''platform'', l_provider = ''p'', l_model = ''m'',
     l_task = Some \<lparr>task_id = as_str shop_task, task_generation = 1, task_stop_generation = 0,
       task_execution_deadline_at = None, task_runtime_accounted_at = None, task_started_at = None\<rparr>\<rparr>"

definition shop_0 :: "unit pub_db" where
  "shop_0 = \<lparr>pd_tasks = [as_str shop_task \<mapsto> shop_row],
     pd_items = [(''item1'', as_str shop_task, as_str shop_fleet, as_str shop_desk)], pd_effects = [], pd_states = Map.empty,
     pd_targets = Map.empty, pd_recovery = Map.empty, pd_leases = [as_str shop_lease \<mapsto> shop_held],
     pd_slots = [as_str shop_fleet \<mapsto> \<lparr>last_runner_id = Some (as_str shop_runner), fencing_token = 1,
       slot_expires_at = 100000000000, hold_expires_at = None\<rparr>],
     pd_events = [''ev1'' \<mapsto> as_str shop_fleet],
     pd_fleets = [as_str shop_fleet \<mapsto> \<lparr>f_workspace_id = as_str shop_desk, f_status = ''active''\<rparr>],
     pd_capable = [as_str shop_runner \<mapsto> True], pd_person_allowed = (\<lambda>_. True),
     pd_config = (\<lambda>_ _. Inr (Some (Some shop_binding))), pd_approved = (\<lambda>_ _. True), pd_installs = (\<lambda>_ _. True)\<rparr>"

definition shop_holder :: task_lease where
  "shop_holder = \<lparr>tl_lease_id = shop_lease, tl_runner_id = shop_runner, tl_fencing_token = 1\<rparr>"

definition shop_change :: effect_input where
  "shop_change = \<lparr>ei_operation_id = ''op1'', ei_fencing_token = 1, ei_task_id = as_str shop_task, ei_generation = 1,
     ei_source_item_id = ''item1'', ei_covered_input = 1, ei_expected_head = ''h0'', ei_tested_tree = ''t1'',
     ei_changes = [\<lparr>fc_path = ''README.md'', fc_contents = Some ''aGk=''\<rparr>]\<rparr>"

definition shop_reserved :: "((effect \<times> bool) \<times> unit pub_db) answer" where
  "shop_reserved = reserve (\<lambda>c. cn_tree c) (Inr shop_effect) 2 shop_holder shop_change shop_0"

definition shop_1 :: "unit pub_db" where "shop_1 = snd (projr shop_reserved)"
definition shop_fx :: effect where "shop_fx = fst (fst (projr shop_reserved))"

definition shop_issued :: "(permit \<times> unit pub_db) answer" where
  "shop_issued = issue 2 shop_holder shop_change shop_fx \<lparr>sl_envelope = (), sl_expires_at = 50\<rparr> shop_1"

definition shop_2 :: "unit pub_db" where "shop_2 = snd (projr shop_issued)"
definition shop_permit :: permit where "shop_permit = fst (projr shop_issued)"

definition shop_stop :: "(control_error, (bool \<times> task_state) \<times> unit pub_db) result" where
  "shop_stop = control_transition (\<lambda>_ _. ''etag'') 3 shop_fleet shop_desk shop_task ''etag'' 1 Pause shop_1"

definition shop_stopped :: "unit pub_db" where "shop_stopped = snd (projr shop_stop)"

lemma shop_reserved_runs: "\<not> isl shop_reserved" by code_simp
lemma shop_issued_runs: "\<not> isl shop_issued" by code_simp
lemma shop_stop_runs: "\<not> isl shop_stop" "fst (projr shop_stop) = (True, TsRunning)" by code_simp+

text \<open>A session whose provider answers as the checks want.\<close>

definition shop_endpoint :: "string \<Rightarrow> string \<Rightarrow> gh_endpoint" where
  "shop_endpoint branch sha = \<lparr>ge_ref = branch, ge_sha = sha, ge_repo = \<lparr>gr_id = 11, gr_full_name = ''acme/shop'',
     gr_default_branch = ''main''\<rparr>\<rparr>"

definition shop_document :: "string json" where
  "shop_document = JObject [(''on'', JString ''push''), (''permissions'', JString ''read-all''),
     (''jobs'', JObject [(''test'', JObject [(''runs-on'', JString ''ubuntu-latest'')])])]"

definition shop_commit :: "string json" where
  "shop_commit = JObject [(''oid'', JString ''h1''), (''tree'', JObject [(''oid'', JString ''t1'')]),
     (''parents'', JObject [(''nodes'', JArray [JObject [(''oid'', JString ''h0'')]])])]"

definition shop_session :: session where
  "shop_session = \<lparr>ss_installation = 12, ss_token = ''token'', ss_expires_at = 50, ss_read_only = True,
     ss_pull = (\<lambda>_ _ n. Inr \<lparr>pl_number = n, pl_state = ''open'', pl_merged = False, pl_head = shop_endpoint ''fix'' ''h0'',
       pl_base = shop_endpoint ''main'' ''m0''\<rparr>),
     ss_branch = (\<lambda>_ _ b. Inr \<lparr>gb_protected = False, gb_sha = if b = ''fix'' then ''h0'' else ''m0''\<rparr>),
     ss_commit = (\<lambda>_ _ sha. Inr \<lparr>gc_sha = sha, gc_tree = ''t0''\<rparr>),
     ss_tree = (\<lambda>_ _ _. Inr \<lparr>gt_entries = [\<lparr>te_path = ''README.md'', te_mode = ''100644'', te_sha = ''b0''\<rparr>], gt_truncated = False\<rparr>),
     ss_contents = (\<lambda>_ _ _. Inr [\<lparr>gf_path = ''.github/workflows/test.yml'', gf_sha = ''w0'', gf_kind = ''file''\<rparr>]),
     ss_blob = (\<lambda>_ _ _. Inr \<lparr>gl_content = ''b2s='', gl_encoding = ''base64''\<rparr>),
     ss_workflows = (\<lambda>_ _. Inr (1, [\<lparr>lw_id = 7, lw_path = ''.github/workflows/test.yml'', lw_state = ''active''\<rparr>])),
     ss_new_blob = (\<lambda>_ _ _. Inr ''b1''), ss_new_tree = (\<lambda>_ _ _ _. Inr ''t1''),
     ss_mutate = (\<lambda>_. Inr (JObject [(''data'', JObject [(''createCommitOnBranch'', JObject [(''commit'', shop_commit)])])])),
     ss_history = (\<lambda>_ _ _. Inl OnRemote), ss_base64 = (\<lambda>_. Some ''ok''), ss_sha256 = (\<lambda>_. ''d7''),
     ss_yaml = (\<lambda>_. Some shop_document)\<rparr>"

definition shop_hub :: "unit github" where
  "shop_hub = \<lparr>hub_session = (\<lambda>_. Inr shop_session), hub_read_session = (\<lambda>_ _. Inr shop_session), hub_seal = (\<lambda>_ _ _. Inr ()),
     hub_open = (\<lambda>_ _ _. effect_uncertain), hub_reader = (\<lambda>_. shop_session)\<rparr>"

definition shop_env :: "unit pub_env" where
  "shop_env = \<lparr>pe_now = (\<lambda>_. 2), pe_fate = (\<lambda>_. Landed), pe_meanwhile = (\<lambda>_ w. w), pe_sha = (\<lambda>c. cn_tree c),
     pe_fresh = Inr shop_effect, pe_github = Some shop_hub\<rparr>"

definition world_0 :: "unit pub_world" where "world_0 = \<lparr>pw_db = shop_0, pw_pushed = []\<rparr>"
definition world_1 :: "unit pub_world" where "world_1 = snd (publish shop_env shop_holder shop_change world_0)"

definition shop_confirmed :: "(unit \<times> unit pub_db) answer" where
  "shop_confirmed = confirm_effect 2 (fx_row shop_fx) ''h1'' shop_2"

definition shop_3 :: "unit pub_db" where "shop_3 = snd (projr shop_confirmed)"

definition shop_read :: "(effect \<times> unit pub_db) answer" where
  "shop_read = load_effect 2 shop_holder (as_str shop_effect) shop_3"

lemma answer_parts: "\<not> isl r \<Longrightarrow> r = Inr (fst (projr r), snd (projr r))"
  by (cases r) simp_all

lemma shop_confirmed_runs: "\<not> isl shop_confirmed" by code_simp
lemma shop_read_runs: "\<not> isl shop_read" "map_sum (\<lambda>_. ()) (te_commit) (wire_of (fst (projr shop_read))) = Inr (Some ''h1'')"
  by code_simp+

lemmas shop_defs = shop_session_def shop_pr_def shop_change_def shop_endpoint_def shop_flow_def

lemma shop_owner: "owner_name ''acme/shop'' = Inr (''acme'', ''shop'')"
  by code_simp

lemma shop_document_safe: "safe_document shop_document"
  by code_simp

lemma shop_workflows: "verify_workflows shop_session o' n sha [shop_flow] = Inr ()"
proof -
  have "valid_utf8 ''ok''" by code_simp
  then show ?thesis using shop_document_safe
    by (simp add: verify_workflows_def verify_file_def safe_def shop_defs del: valid_utf8.simps)
qed

lemma shop_verified: "pr_verify shop_session shop_pr = Inr ()"
proof -
  have "verify_default shop_session ''acme'' ''shop'' ''main'' [shop_flow] = Inr ()"
    by (simp add: verify_default_def shop_workflows) (simp add: shop_session_def)
  moreover have "eq_ignore_ascii_case ''acme/shop'' ''acme/shop''" by code_simp
  ultimately show ?thesis using shop_workflows [of "''acme''" "''shop''" "''h0''"]
    by (simp add: pr_verify_def shop_owner pr_check_def shop_pr_def) (simp add: shop_session_def shop_endpoint_def)
qed

lemma shop_reproduced: "reproduce shop_session shop_pr shop_change = Inr ()"
proof -
  have "split_on CHR ''/'' ''README.md'' = [''README.md'']" by code_simp
  then show ?thesis by (simp add: reproduce_def shop_owner shop_defs decoded_max_def)
qed

lemma shop_prepared: "prepare_tree shop_session shop_pr shop_change = Inr ()"
proof -
  have "ei_expected_head shop_change = pr_head shop_pr" by (simp add: shop_defs)
  then show ?thesis by (simp add: prepare_tree_def shop_verified shop_reproduced)
qed

text \<open>The publication, call by call.\<close>

lemma shop_reserve: "reserve (pe_sha shop_env) (pe_fresh shop_env) 2 shop_holder shop_change shop_0 = Inr ((shop_fx, False), shop_1)"
proof -
  have "snd (fst (projr shop_reserved)) = False" by code_simp
  then have "fst (projr shop_reserved) = (shop_fx, False)" by (simp add: shop_fx_def prod_eq_iff)
  then have "shop_reserved = Inr ((shop_fx, False), shop_1)"
    using answer_parts [OF shop_reserved_runs] by (simp only: shop_1_def)
  then show ?thesis by (simp add: shop_reserved_def shop_env_def)
qed

lemma shop_issue: "issue 2 shop_holder shop_change shop_fx \<lparr>sl_envelope = (), sl_expires_at = 50\<rparr> shop_1 = Inr (shop_permit, shop_2)"
  using answer_parts [OF shop_issued_runs] by (simp add: shop_issued_def [symmetric] shop_permit_def shop_2_def)

lemma shop_confirm: "confirm_effect 2 (fx_row shop_fx) ''h1'' shop_2 = Inr ((), shop_3)"
  using answer_parts [OF shop_confirmed_runs] by (simp add: shop_confirmed_def [symmetric] shop_3_def)

lemma shop_load: "load_effect 2 shop_holder (as_str shop_effect) shop_3 = Inr (fst (projr shop_read), snd (projr shop_read))"
  using answer_parts [OF shop_read_runs(1)] by (simp add: shop_read_def)

lemma shop_facts:
  "ef_id (fx_row shop_fx) = as_str shop_effect" "guard_id (ef_workspace (fx_row shop_fx)) = Inr shop_desk"
  "guard_id (as_str shop_effect) = Inr shop_effect" "target_of shop_fx = Inr shop_pr"
  "of_operation shop_change (fx_row shop_fx)" "fx_state (fst (projr shop_read)) = ''confirmed''"
  by code_simp+

lemma shop_permits:
  "pm_input shop_permit = shop_change" "pm_target shop_permit = shop_pr" "2 < pm_deadline shop_permit"
  "pm_effect_id shop_permit = as_str shop_effect"
  by code_simp+

lemma shop_answer:
  "commit_of (JObject [(''data'', JObject [(''createCommitOnBranch'', JObject [(''commit'', shop_commit)])])]) ''h0'' ''t1'' = Inr ''h1''"
  by code_simp

lemma shop_push: "push 2 shop_session shop_permit w = (Inr ''h1'',
    w\<lparr>pw_pushed := pw_pushed w @ [mutation_of (as_str shop_effect) shop_pr shop_change]\<rparr>)"
proof -
  have "publish_commit shop_session (as_str shop_effect) shop_pr shop_change = Inr ''h1''"
    using shop_answer by (simp add: publish_commit_def shop_session_def) (simp add: shop_pr_def shop_change_def)
  moreover have "ei_expected_head shop_change = pr_head shop_pr" by (simp add: shop_defs)
  moreover have "ss_expires_at shop_session = 50" by (simp add: shop_session_def)
  ultimately show ?thesis using shop_permits by (simp add: push_def)
qed

lemma shop_transaction:
  "oper 2 (pw_db w) = Inr (x, db) \<Longrightarrow> transaction shop_env stg oper w = (Inr x, w\<lparr>pw_db := db\<rparr>)"
  by (simp add: transaction_def shop_env_def)

lemma shop_seal: "seal_recovery shop_hub (pe_now shop_env AtSeal) shop_holder ws i shop_pr = Inr \<lparr>sl_envelope = (), sl_expires_at = 50\<rparr>"
  by (simp add: seal_recovery_def read_credential_def shop_env_def shop_hub_def shop_session_def shop_pr_def)

lemma shop_reads: "\<exists>te. read_one shop_env shop_holder (as_str shop_effect) \<lparr>pw_db = shop_3, pw_pushed = ms\<rparr>
    = (Inr te, \<lparr>pw_db = snd (projr shop_read), pw_pushed = ms\<rparr>)"
proof -
  obtain te where te: "wire_of (fst (projr shop_read)) = Inr te"
    using shop_read_runs(2) by (cases "wire_of (fst (projr shop_read))") auto
  have load: "transaction shop_env AtLoad (\<lambda>now. load_effect now shop_holder (as_str shop_effect)) \<lparr>pw_db = shop_3, pw_pushed = ms\<rparr>
      = (Inr (fst (projr shop_read)), \<lparr>pw_db = snd (projr shop_read), pw_pushed = ms\<rparr>)"
    by (subst shop_transaction) (simp_all add: shop_load)
  show ?thesis using te
    by (simp add: read_one_def and_then_def load read_abandoned_def read_reconciled_def done_with_def shop_facts)
qed

lemma shop_published: "map gm_client_id (pw_pushed world_1) = [as_str shop_effect]"
proof -
  let ?m = "mutation_of (as_str shop_effect) shop_pr shop_change"
  have reserve: "transaction shop_env AtReserve (\<lambda>now. reserve (pe_sha shop_env) (pe_fresh shop_env) now shop_holder shop_change) world_0
      = (Inr (shop_fx, False), \<lparr>pw_db = shop_1, pw_pushed = []\<rparr>)"
    by (subst shop_transaction) (simp_all add: shop_reserve world_0_def)
  have issue: "transaction shop_env AtIssue (\<lambda>now. issue now shop_holder shop_change shop_fx \<lparr>sl_envelope = (), sl_expires_at = 50\<rparr>)
      \<lparr>pw_db = shop_1, pw_pushed = []\<rparr> = (Inr shop_permit, \<lparr>pw_db = shop_2, pw_pushed = []\<rparr>)"
    by (subst shop_transaction) (simp_all add: shop_issue)
  have receipt: "transaction shop_env AtReceipt (\<lambda>now. confirm_effect now (fx_row shop_fx) ''h1'') \<lparr>pw_db = shop_2, pw_pushed = [?m]\<rparr>
      = (Inr (), \<lparr>pw_db = shop_3, pw_pushed = [?m]\<rparr>)"
    by (subst shop_transaction) (simp_all add: shop_confirm)
  have calls: "hub_of shop_env w = (Inr shop_hub, w)" "hub_session shop_hub shop_holder = Inr shop_session"
      "pe_now shop_env AtPush = 2" "pe_meanwhile shop_env stg w = w" for w stg
    by (simp_all add: hub_of_def done_with_def ok_or_def shop_env_def shop_hub_def)
  obtain te where "read_one shop_env shop_holder (as_str shop_effect) \<lparr>pw_db = shop_3, pw_pushed = [?m]\<rparr>
      = (Inr te, \<lparr>pw_db = snd (projr shop_read), pw_pushed = [?m]\<rparr>)" using shop_reads by blast
  then have "publish shop_env shop_holder shop_change world_0 = (Inr (te, False), \<lparr>pw_db = snd (projr shop_read), pw_pushed = [?m]\<rparr>)"
    by (simp add: publish_def and_then_def reserve publish_reserved_def or_refuse_def calls done_with_def shop_facts shop_prepared
        shop_seal issue push_and_record_def shop_push receipt read_back_def Let_def)
  then show ?thesis by (simp add: world_1_def mutation_of_def)
qed

text \<open>The same as a run.\<close>

definition run_0 :: "unit run" where "run_0 = started shop_0"
definition run_1 :: "unit run" where "run_1 = with_db run_0 shop_1"
definition run_2 :: "unit run" where "run_2 = (with_db run_1 shop_2)\<lparr>rn_permits := [shop_permit]\<rparr>"
definition run_3 :: "unit run" where
  "run_3 = \<lparr>rn_world = snd (push 2 shop_session shop_permit (rn_world run_2)), rn_permits = []\<rparr>"

lemma shop_blank: "blank_db shop_0"
  by (simp add: blank_db_def shop_0_def shop_row_def split: if_splits)

lemma run_dbs: "run_db run_0 = shop_0" "run_db run_1 = shop_1" "run_db run_2 = shop_2" "run_db run_3 = shop_2"
    "rn_permits run_0 = []" "rn_permits run_1 = []" "rn_permits run_2 = [shop_permit]"
  by (simp_all add: run_0_def run_1_def run_2_def run_3_def started_def with_db_def shop_push)

lemma shop_1_effects: "pd_effects shop_1 = [fx_row shop_fx]" "map_option es_issued_at (pd_states shop_1 (as_str shop_effect)) = Some None"
    "pd_effects shop_2 = [fx_row shop_fx]" "map_option pt_used_publications (pd_tasks shop_2 (as_str shop_task)) = Some 1"
  by code_simp+

lemma shop_1_issued: "\<not> issued shop_1 (fx_row shop_fx)"
  using shop_1_effects(2) by (auto simp: issued_def shop_facts)

lemma run_1_step: "pub_step run_0 run_1"
  using pub_step.works [OF db_step.reserves, of "pe_sha shop_env" "pe_fresh shop_env" 2 shop_holder shop_change run_0] shop_reserve
  by (simp add: run_1_def run_dbs)

lemma run_2_step: "pub_step run_1 run_2"
  using pub_step.issues [of shop_fx run_1 shop_change 2 shop_holder "\<lparr>sl_envelope = (), sl_expires_at = 50\<rparr>"] shop_issue
  by (simp add: run_2_def run_dbs shop_1_effects shop_facts)

lemma run_3_step: "pub_step run_2 run_3"
  using pub_step.pushes [of shop_permit run_2 2 shop_session] by (simp add: run_3_def run_dbs prod_eq_iff)

lemma runs_reached: "pub_step\<^sup>*\<^sup>* (started shop_0) run_1" "pub_step\<^sup>*\<^sup>* (started shop_0) run_2" "pub_step\<^sup>*\<^sup>* (started shop_0) run_3"
proof -
  show one: "pub_step\<^sup>*\<^sup>* (started shop_0) run_1" using run_1_step by (simp add: run_0_def r_into_rtranclp)
  show two: "pub_step\<^sup>*\<^sup>* (started shop_0) run_2" using one run_2_step by (rule rtranclp.rtrancl_into_rtrancl)
  show "pub_step\<^sup>*\<^sup>* (started shop_0) run_3" using two run_3_step by (rule rtranclp.rtrancl_into_rtrancl)
qed

lemma run_3_pushed: "run_pushed run_3 = [mutation_of (as_str shop_effect) shop_pr shop_change]"
  by (simp add: run_3_def run_2_def run_1_def run_0_def shop_push started_def with_db_def)

section \<open>Witnesses\<close>

theorem operation_is_pushed_once_witness:
  "length (pushed_of (\<lambda>e. ef_task e = as_str shop_task \<and> ef_operation e = ''op1'') run_3) \<le> 1 \<and> length (run_pushed run_3) = 1"
  using operation_is_pushed_once [OF runs_reached(3) shop_blank] by (simp add: run_3_pushed)

theorem publications_stay_within_limits_witness:
  "\<exists>t. pd_tasks (run_db run_3) (as_str shop_task) = Some t
     \<and> int (length (pushed_of (\<lambda>e. ef_task e = as_str shop_task) run_3)) \<le> 1 \<and> 1 \<le> pt_max_publications t"
proof -
  obtain t where t: "pd_tasks (run_db run_3) (as_str shop_task) = Some t" "pt_used_publications t = 1"
    using shop_1_effects(4) by (auto simp: run_dbs)
  with publications_stay_within_limits [OF runs_reached(3) shop_blank t(1)] show ?thesis by auto
qed

theorem one_publication_in_flight_witness:
  "length (filter (\<lambda>e. ef_task e = as_str shop_task \<and> in_flight (run_db run_1) e) (pd_effects (run_db run_1))) \<le> 1
     \<and> length (pd_effects (run_db run_1)) = 1"
  using one_publication_in_flight [OF runs_reached(1) shop_blank] by (simp add: run_dbs shop_1_effects(1))

theorem publications_follow_the_lifecycle_witness: "life_step (phases shop_1) (phases shop_2)"
  using publications_follow_the_lifecycle [OF runs_reached(1) shop_blank run_2_step] by (simp only: run_dbs)

theorem control_cuts_off_preparations_witness:
  "as_str shop_effect \<notin> gm_client_id ` set (run_pushed (with_db run_1 shop_stopped))"
proof -
  have "shop_stop = Inr ((True, TsRunning), shop_stopped)"
    using answer_parts [OF shop_stop_runs(1)] by (simp only: shop_stop_runs(2) shop_stopped_def)
  then have stop: "control_transition (\<lambda>_ _. ''etag'') 3 shop_fleet shop_desk shop_task ''etag'' 1 Pause (run_db run_1)
      = Inr ((True, TsRunning), shop_stopped)" by (simp only: shop_stop_def run_dbs)
  have e: "fx_row shop_fx \<in> set (pd_effects (run_db run_1))" "\<not> issued (run_db run_1) (fx_row shop_fx)"
    using shop_1_issued by (simp_all add: run_dbs shop_1_effects)
  have "ef_task (fx_row shop_fx) = as_str shop_task" by code_simp
  from control_cuts_off_preparations [OF runs_reached(1) shop_blank e stop this rtranclp.rtrancl_refl]
  have "\<forall>m \<in> set (run_pushed (with_db run_1 shop_stopped)). gm_client_id m \<noteq> as_str shop_effect" by (simp only: shop_facts)
  then show ?thesis by (simp add: image_iff) metis
qed

theorem publishing_is_a_run_witness:
  "pub_step\<^sup>*\<^sup>* \<lparr>rn_world = world_0, rn_permits = []\<rparr> \<lparr>rn_world = world_1, rn_permits = []\<rparr> \<and> length (pw_pushed world_1) = 1"
proof -
  have "pub_step\<^sup>*\<^sup>* \<lparr>rn_world = world_0, rn_permits = []\<rparr> \<lparr>rn_world = world_1, rn_permits = []\<rparr>"
    unfolding world_1_def by (rule publishing_is_a_run) (simp add: shop_env_def)
  moreover have "length (pw_pushed world_1) = 1" using shop_published by (metis length_map length_Cons list.size(3) One_nat_def)
  ultimately show ?thesis by simp
qed

theorem published_changes_touch_regular_files_witness:
  "touches_file (ss_tree shop_session ''acme'' ''shop'') ''t0'' \<lparr>fc_path = ''README.md'', fc_contents = Some ''aGk=''\<rparr>
     \<and> entry_at (ss_tree shop_session ''acme'' ''shop'') ''t0'' [''README.md''] \<noteq> None"
proof -
  have "owner_name (pr_repository shop_pr) = Inr (''acme'', ''shop'')" using shop_owner by (simp add: shop_pr_def)
  moreover have "ss_commit shop_session ''acme'' ''shop'' (pr_head shop_pr) = Inr \<lparr>gc_sha = ''h0'', gc_tree = ''t0''\<rparr>"
    by (simp add: shop_session_def shop_pr_def)
  ultimately have "\<forall>f \<in> set (ei_changes shop_change). touches_file (ss_tree shop_session ''acme'' ''shop'') ''t0'' f"
    using published_changes_touch_regular_files [OF shop_prepared] by fastforce
  then show ?thesis by (simp add: shop_change_def) (simp add: shop_session_def)
qed

end
