(* ===== verification/WaitLaws.thy ===== *)
theory WaitLaws
  imports Waits PublicationLaws IntakeLaws
begin

text \<open>
  What waiting guarantees over every interleaving of its transactions with each other, with the publications and
  with the rest of the daemon: a wake is for the head it waited on and happens once per generation, fallback
  reads stay within their budget, a signal is never lost, and one completion signals each wait it matches once.
\<close>

section \<open>Runs\<close>

text \<open>The rest of the daemon: publications move as they do, the inbox, the ledger and the leases as they please;
  waits are at most cancelled, a task that waits is not deleted, and a task's fallback reads are counted here.\<close>

definition dropped :: "(string \<Rightarrow> bool) \<Rightarrow> instant \<Rightarrow> wait \<Rightarrow> wait" where
  "dropped ended now w = (if ended (wt_task w) \<and> open_wait w then w\<lparr>wt_cancelled := Some now\<rparr> else w)"

definition same_reads :: "task_columns \<Rightarrow> task_columns \<Rightarrow> bool" where
  "same_reads c c' \<longleftrightarrow> tc_task c' = tc_task c \<and> tc_used_fallback c' = tc_used_fallback c \<and> tc_max_fallback c' = tc_max_fallback c"

definition columns_kept :: "'k wait_db \<Rightarrow> 'k wait_db \<Rightarrow> bool" where
  "columns_kept db db' \<longleftrightarrow> distinct (map tc_task (wd_columns db'))
     \<and> (\<forall>c' \<in> set (wd_columns db'). (\<exists>c \<in> set (wd_columns db). same_reads c c')
          \<or> (tc_used_fallback c' = 0 \<and> 0 \<le> tc_max_fallback c' \<and> (\<forall>w \<in> set (wd_waits db). wt_task w \<noteq> tc_task c')))"

definition daemon_work :: "'k wait_db \<Rightarrow> 'k wait_db \<Rightarrow> bool" where
  "daemon_work db db' \<longleftrightarrow> (\<exists>ended now. wd_waits db' = map (dropped ended now) (wd_waits db)) \<and> columns_kept db db'
     \<and> (\<forall>w \<in> set (wd_waits db). pd_tasks (wd_pub db') (wt_task w) \<noteq> None)"

text \<open>A run: the time, the tables, the reads in hand, and the publications' own run over the same tables.\<close>

record 'k wait_run =
  wn_clock :: instant
  wn_db :: "'k wait_db"
  wn_reads :: "claimed_wait list"
  wn_rest :: "'k run"

definition with_tables :: "'k wait_run \<Rightarrow> 'k wait_db \<Rightarrow> 'k wait_run" where
  "with_tables r db = r\<lparr>wn_db := db, wn_rest := with_db (wn_rest r) (wd_pub db)\<rparr>"

definition probe_of :: "claimed_wait \<Rightarrow> evidence answer \<Rightarrow> probe" where
  "probe_of cw seen = \<lparr>pb_owner = cw_owner cw, pb_claim = cw_claim cw, pb_result = seen\<rparr>"

inductive wait_step :: "'k wait_run \<Rightarrow> 'k wait_run \<Rightarrow> bool" where
  ticks: "wn_clock r \<le> now \<Longrightarrow> wait_step r (r\<lparr>wn_clock := now\<rparr>)"
| arms: "arm digest fresh (wn_clock r) task lease p seen (wn_db r) = Inr (u, db') \<Longrightarrow> wait_step r (with_tables r db')"
| gives_up: "claim_wait unavailable locked fresh (wn_clock r) c (wn_db r) = Inr (None, db') \<Longrightarrow> wait_step r (with_tables r db')"
| reads: "claim_wait unavailable locked fresh (wn_clock r) c (wn_db r) = Inr (Some cw, db')
    \<Longrightarrow> wait_step r ((with_tables r db')\<lparr>wn_reads := wn_reads r @ [cw]\<rparr>)"
| finishes: "cw \<in> set (wn_reads r) \<Longrightarrow> prepare_wake env0 (probe_of cw seen) k = (Inr q, k')
    \<Longrightarrow> finish_wait env (wn_clock r) (probe_of cw seen) q (wn_db r) = Inr (woken, db')
    \<Longrightarrow> wait_step r ((with_tables r db')\<lparr>wn_reads := remove1 cw (wn_reads r)\<rparr>)"
| forgets: "cw \<in> set (wn_reads r) \<Longrightarrow> wait_step r (r\<lparr>wn_reads := remove1 cw (wn_reads r)\<rparr>)"
| hears: "record_completion fresh (wn_clock r) v (wn_db r) = Inr (n, db') \<Longrightarrow> wait_step r (with_tables r db')"
| fans_out: "fanout_one locked (wn_clock r) i (wn_db r) = (a, db') \<Longrightarrow> wait_step r (with_tables r db')"
| defers: "wait_step r (with_tables r (defer_fanout (wn_clock r) i (wn_db r)))"
| collects: "wait_step r (with_tables r (collect_completions locked (wn_clock r) (wn_db r)))"
| expires: "expire_task live_lease (wn_clock r) fleet ws task (wn_db r) = Inr (b, db') \<Longrightarrow> wait_step r (with_tables r db')"
| works: "pub_step (wn_rest r) p \<Longrightarrow> wd_pub db' = run_db p \<Longrightarrow> daemon_work (wn_db r) db'
    \<Longrightarrow> wait_step r (r\<lparr>wn_db := db', wn_rest := p\<rparr>)"

definition begun :: "instant \<Rightarrow> 'k wait_db \<Rightarrow> 'k wait_run" where
  "begun now db = \<lparr>wn_clock = now, wn_db = db, wn_reads = [], wn_rest = started (wd_pub db)\<rparr>"

definition blank_waits :: "'k wait_db \<Rightarrow> bool" where
  "blank_waits db \<longleftrightarrow> wd_waits db = [] \<and> distinct (map tc_task (wd_columns db))
     \<and> (\<forall>c \<in> set (wd_columns db). tc_used_fallback c = 0 \<and> 0 \<le> tc_max_fallback c)"

lemma with_tables_simps [simp]:
  "wn_db (with_tables r db) = db" "wn_clock (with_tables r db) = wn_clock r" "wn_reads (with_tables r db) = wn_reads r"
  "run_db (wn_rest (with_tables r db)) = wd_pub db"
  by (simp_all add: with_tables_def)

section \<open>Changes that leave the books alone\<close>

definition due_ok :: "instant \<Rightarrow> wait \<Rightarrow> bool" where
  "due_ok now w \<longleftrightarrow> (open_wait w \<longrightarrow> signalled w
     \<longrightarrow> wt_due_at w \<le> max (wt_cooldown w) (case wt_claim w of None \<Rightarrow> now | Some (_, until) \<Rightarrow> max now until))"

definition same_wait :: "wait \<Rightarrow> wait \<Rightarrow> bool" where
  "same_wait w w' \<longleftrightarrow> wt_id w' = wt_id w \<and> wt_task w' = wt_task w \<and> wt_fleet w' = wt_fleet w \<and> wt_workspace w' = wt_workspace w
     \<and> wt_task_generation w' = wt_task_generation w \<and> wt_stop_generation w' = wt_stop_generation w \<and> wt_head w' = wt_head w"

definition wait_keeps :: "instant \<Rightarrow> wait \<Rightarrow> wait \<Rightarrow> bool" where
  "wait_keeps now w w' \<longleftrightarrow> same_wait w w' \<and> wt_fallbacks w' = wt_fallbacks w \<and> wt_consumed w' = wt_consumed w
     \<and> wt_signals w \<le> wt_signals w' \<and> (wt_cancelled w \<noteq> None \<longrightarrow> wt_cancelled w' = wt_cancelled w) \<and> (due_ok now w \<longrightarrow> due_ok now w')"

definition tasks_kept :: "'k pub_db \<Rightarrow> 'k pub_db \<Rightarrow> bool" where
  "tasks_kept db db' \<longleftrightarrow> pd_effects db' = pd_effects db \<and> pd_states db' = pd_states db
     \<and> (\<forall>i. rel_option (\<lambda>t t'. kept_task (pd_effects db) i (Some t) t') (pd_tasks db i) (pd_tasks db' i))"

definition calm :: "instant \<Rightarrow> 'k wait_db \<Rightarrow> 'k wait_db \<Rightarrow> bool" where
  "calm now db db' \<longleftrightarrow> list_all2 (wait_keeps now) (wd_waits db) (wd_waits db')
     \<and> list_all2 same_reads (wd_columns db) (wd_columns db') \<and> tasks_kept (wd_pub db) (wd_pub db')"

lemma same_wait_refl [simp]: "same_wait w w" by (simp add: same_wait_def)
lemma wait_keeps_refl [simp]: "wait_keeps now w w" by (simp add: wait_keeps_def)
lemma same_reads_refl [simp]: "same_reads c c" by (simp add: same_reads_def)

lemma tasks_kept_refl [simp]: "tasks_kept db db"
  by (simp add: tasks_kept_def option.rel_refl)

lemma tasks_kept_trans:
  assumes "tasks_kept a b" "tasks_kept b c"
  shows "tasks_kept a c"
  unfolding tasks_kept_def
proof (intro conjI allI)
  fix i
  have ab: "rel_option (\<lambda>t t'. kept_task (pd_effects a) i (Some t) t') (pd_tasks a i) (pd_tasks b i)"
    and bc: "rel_option (\<lambda>t t'. kept_task (pd_effects b) i (Some t) t') (pd_tasks b i) (pd_tasks c i)"
    using assms by (simp_all add: tasks_kept_def)
  show "rel_option (\<lambda>t t'. kept_task (pd_effects a) i (Some t) t') (pd_tasks a i) (pd_tasks c i)"
    using ab bc by (cases "pd_tasks a i"; cases "pd_tasks b i"; cases "pd_tasks c i") auto
qed (use assms in \<open>simp_all add: tasks_kept_def\<close>)

lemma calm_refl [simp]: "calm now db db"
  by (simp add: calm_def list_all2_same)

lemma wait_keeps_trans: "wait_keeps now a b \<Longrightarrow> wait_keeps now b c \<Longrightarrow> wait_keeps now a c"
  by (simp add: wait_keeps_def same_wait_def)

lemma same_reads_trans: "same_reads a b \<Longrightarrow> same_reads b c \<Longrightarrow> same_reads a c"
  by (simp add: same_reads_def)

lemma calm_trans [trans]:
  assumes "calm now a b" "calm now b c"
  shows "calm now a c"
proof -
  have "list_all2 (wait_keeps now) (wd_waits a) (wd_waits c)"
    by (rule list_all2_trans [OF wait_keeps_trans]) (use assms in \<open>auto simp: calm_def\<close>)
  moreover have "list_all2 same_reads (wd_columns a) (wd_columns c)"
    by (rule list_all2_trans [OF same_reads_trans]) (use assms in \<open>auto simp: calm_def\<close>)
  ultimately show ?thesis using assms tasks_kept_trans by (auto simp: calm_def)
qed

lemma calm_same:
  "wd_waits db' = wd_waits db \<Longrightarrow> wd_columns db' = wd_columns db \<Longrightarrow> wd_pub db' = wd_pub db \<Longrightarrow> calm now db db'"
  by (simp add: calm_def list_all2_same)

lemma calm_update_waits:
  "(\<And>w. w \<in> set (wd_waits db) \<Longrightarrow> sel w \<Longrightarrow> wait_keeps now w (f w)) \<Longrightarrow> calm now db (update_waits sel f db)"
  by (simp add: calm_def update_waits_def list_all2_map2 list_all2_same)

lemma calm_update_columns: "(\<And>c. same_reads c (f c)) \<Longrightarrow> calm now db (update_columns i f db)"
  by (simp add: calm_def update_columns_def list_all2_map2 list_all2_same)

lemma calm_over_tasks:
  "(\<And>t. kept_task (pd_effects (wd_pub db)) i (Some t) (f t)) \<Longrightarrow> calm now db (over_tasks (update_task i f) db)"
  by (auto simp: calm_def over_tasks_def list_all2_same tasks_kept_def update_task_at option.rel_map intro: option.rel_refl)

lemma calm_over_ledger [simp]: "calm now db (over_ledger f db)"
  by (rule calm_same) (simp_all add: over_ledger_def)

lemma calm_cancel: "calm now db (cancel_waits now task db)"
  unfolding cancel_waits_def by (intro calm_update_waits) (auto simp: wait_keeps_def same_wait_def open_wait_def due_ok_def)

lemma calm_transition: "calm now db (transition_sql now task st reason db)"
proof -
  have "calm now db (over_tasks (update_task task (moved now st)) db)"
    by (intro calm_over_tasks) (simp add: moved_def)
  also have "calm now \<dots> (update_columns task (\<lambda>c. c\<lparr>tc_reason := reason\<rparr>) \<dots>)"
    by (intro calm_update_columns) (simp add: same_reads_def)
  finally show ?thesis unfolding transition_sql_def
    by (auto split: option.splits intro: calm_trans)
qed

lemma calm_retire: "calm now db (retire now' task db)"
  by (simp add: retire_def split: option.splits)

lemma calm_bind: "calm now db (bind_admission task i db)"
  by (simp add: bind_admission_def split: option.splits)

lemma calm_stop: "calm now db (stop_wait now task st reason db)"
  unfolding stop_wait_def by (rule calm_trans [OF calm_cancel calm_trans [OF calm_transition calm_retire]])

lemma calm_keep_waiting: "calm now db (keep_waiting digest now v pb seen cooldown db)"
  unfolding keep_waiting_def
  by (intro calm_update_waits) (auto simp: wait_keeps_def same_wait_def updated_def due_ok_def signalled_def)

lemma calm_signal: "calm now db (update_waits sel (signal now c) db)"
proof (intro calm_update_waits)
  fix w
  have "due_ok now (signal now c w)"
    by (auto simp: due_ok_def signal_def split: option.splits)
  then show "wait_keeps now w (signal now c w)" by (simp add: wait_keeps_def same_wait_def signal_def)
qed

lemma calm_claim: "calm now db (claim_sql now i u 0 db)"
  unfolding claim_sql_def
  by (intro calm_update_waits) (auto simp: wait_keeps_def same_wait_def claim_row_def due_ok_def)

section \<open>What each operation does\<close>

inductive moves :: "instant \<Rightarrow> 'k wait_db \<Rightarrow> 'k wait_db \<Rightarrow> bool" for now where
  calmly: "calm now db db' \<Longrightarrow> moves now db db'"
| arming: "pd_tasks (wd_pub db) (wt_task w) = Some t \<Longrightarrow> columns_of db (wt_task w) = Some c \<Longrightarrow> wait_checks w (wd_waits db)
    \<Longrightarrow> wt_task_generation w = t_generation t \<Longrightarrow> open_wait w \<Longrightarrow> \<not> signalled w \<Longrightarrow> wt_fallbacks w = 0
    \<Longrightarrow> moves now db ((update_columns (wt_task w) (\<lambda>c. c\<lparr>tc_wait_sequence := n\<rparr>) db)\<lparr>wd_waits := wd_waits db @ [w]\<rparr>)"
| charging: "w \<in> set (wd_waits db) \<Longrightarrow> columns_of db (wt_task w) = Some c \<Longrightarrow> tc_used_fallback c < tc_max_fallback c
    \<Longrightarrow> moves now db (claim_sql now (wt_id w) u 1 (charge_sql (wt_task w) db))"
| waking: "w \<in> set (wd_waits db) \<Longrightarrow> claimed_by (wt_id w) u w \<Longrightarrow> pd_tasks (wd_pub db) (wt_task w) = Some t
    \<Longrightarrow> t_generation t = wt_task_generation w \<Longrightarrow> calm now db db1 \<Longrightarrow> wd_waits db1 = wd_waits db
    \<Longrightarrow> pd_tasks (wd_pub db1) (wt_task w) = Some t1 \<Longrightarrow> t_generation t1 = t_generation t + 1
    \<Longrightarrow> moves now db (update_waits (claimed_by (wt_id w) u) (consumed now i checks digest) db1)"

lemma columns_of_Some: "columns_of db i = Some c \<Longrightarrow> c \<in> set (wd_columns db) \<and> tc_task c = i"
  by (auto simp: columns_of_def find_Some_iff)

lemma task_at_Some: "task_at db i fleet ws = Some t \<longleftrightarrow> pd_tasks db i = Some t \<and> t_fleet_id t = fleet \<and> t_workspace_id t = ws"
  by (auto simp: task_at_def split: option.splits)

lemma wait_owner_Some:
  assumes "wait_owner now locked i db = Inr (Some v)"
  obtains t p c where "wv_row v \<in> set (wd_waits db)" "wt_id (wv_row v) = i" "open_wait (wv_row v)"
    "pd_tasks (wd_pub db) (wt_task (wv_row v)) = Some t" "t_fleet_id t = wt_fleet (wv_row v)" "t_workspace_id t = wt_workspace (wv_row v)"
    "columns_of db (wt_task (wv_row v)) = Some c" "pt_target t = ExistingPr p" "v = view_of now (wv_row v) t p c"
proof -
  from assms obtain w where w: "List.find (\<lambda>w. wt_id w = i \<and> open_wait w) (wd_waits db) = Some w"
    by (auto simp: wait_owner_def split: option.splits)
  with assms obtain t p c where "task_at (wd_pub db) (wt_task w) (wt_fleet w) (wt_workspace w) = Some t"
      "columns_of db (wt_task w) = Some c" "pt_target t = ExistingPr p" "v = view_of now w t p c"
    by (auto simp: wait_owner_def split: option.splits if_splits task_target.splits)
  moreover have "w \<in> set (wd_waits db)" "wt_id w = i" "open_wait w" using w by (auto simp: find_Some_iff)
  moreover have "wv_row (view_of now w t p c) = w" for t p c by (simp add: view_of_def)
  ultimately show thesis using that by (auto simp: task_at_Some)
qed

lemma arm_moves:
  assumes "arm digest fresh now task lease p seen db = Inr (u, db')"
  shows "moves now db db'"
proof (cases "db' = db")
  case False
  with assms obtain t c n w where w: "pd_tasks (wd_pub db) task = Some t" "columns_of db task = Some c" "wait_checks w (wd_waits db)"
      "wt_task w = task" "wt_task_generation w = t_generation t" "open_wait w" "\<not> signalled w" "wt_fallbacks w = 0"
      and db': "db' = (update_columns task (\<lambda>c. c\<lparr>tc_wait_sequence := Some n\<rparr>) db)\<lparr>wd_waits := wd_waits db @ [w]\<rparr>"
    by (fastforce simp: arm_def res_bind_Inr Let_def open_wait_def signalled_def split: if_splits option.splits)
  show ?thesis unfolding db' using arming [of db w t c now "Some n"] w by simp
qed (simp add: calmly)

lemma claim_moves:
  assumes "claim_wait unavailable locked fresh now cd db = Inr (a, db')"
  shows "moves now db db'"
proof -
  from assms consider "db' = db" | v where "wait_owner now locked (cd_id cd) db = Inr (Some v)"
      "claim_owned unavailable fresh now (cd_fleet cd) (cd_workspace cd) v db = Inr (a, db')"
    by (auto simp: claim_wait_def res_bind_Inr dest!: guard_id_text split: option.splits)
  then show ?thesis
  proof cases
    case (2 v)
    let ?w = "wv_row v"
    from 2(1) obtain t p c where v: "?w \<in> set (wd_waits db)" "columns_of db (wt_task ?w) = Some c" "v = view_of now ?w t p c"
      by (elim wait_owner_Some) auto
    then have lims: "wv_used_fallback v = tc_used_fallback c" "wv_max_fallback v = tc_max_fallback c"
      by (metis view_of_def wait_view.select_convs(7), metis view_of_def wait_view.select_convs(8))
    from 2(2) consider "db' = db" | "db' = cancel_waits now (wt_task ?w) db" | st why where "db' = stop_wait now (wt_task ?w) st why db"
      | u where "\<not> fallback ?w" "db' = claim_sql now (wt_id ?w) u 0 db"
      | u where "fallback ?w" "tc_used_fallback c < tc_max_fallback c" "db' = claim_sql now (wt_id ?w) u 1 (charge_sql (wt_task ?w) db)"
      by (auto simp: claim_owned_def Let_def lims res_bind_Inr split: if_splits sum.splits)
    then show ?thesis
      by cases (use v in \<open>auto intro: calmly calm_cancel calm_stop calm_claim charging\<close>)
  qed (simp add: calmly)
qed

text \<open>What a wake leaves, before its wait is consumed.\<close>

definition woken_tables :: "instant \<Rightarrow> string \<Rightarrow> string \<Rightarrow> intake_state \<Rightarrow> 'k wait_db \<Rightarrow> 'k wait_db" where
  "woken_tables now task i st db = bind_admission task i (retire now task (transition_sql now task TsReady None (db\<lparr>wd_intake := st\<rparr>)))"

lemma calm_woken: "calm now db (woken_tables now task i st db)"
proof -
  have "calm now db (db\<lparr>wd_intake := st\<rparr>)" by (rule calm_same) simp_all
  then show ?thesis unfolding woken_tables_def
    by (rule calm_trans [OF calm_trans [OF calm_trans [OF _ calm_transition] calm_retire] calm_bind])
qed

lemma over_waits [simp]:
  "wd_waits (over_ledger f db) = wd_waits db" "wd_waits (over_tasks g db) = wd_waits db" "wd_waits (update_columns i h db) = wd_waits db"
  "wd_pub (over_ledger f db) = wd_pub db" "wd_pub (over_tasks g db) = g (wd_pub db)" "wd_pub (update_columns i h db) = wd_pub db"
  "wd_columns (over_ledger f db) = wd_columns db" "wd_columns (over_tasks g db) = wd_columns db"
  "wd_intake (over_tasks g db) = wd_intake db" "wd_intake (update_columns i h db) = wd_intake db"
  by (simp_all add: over_ledger_def over_tasks_def update_columns_def)

lemma woken_tables_waits [simp]: "wd_waits (woken_tables now task i st db) = wd_waits db"
  by (simp add: woken_tables_def bind_admission_def retire_def transition_sql_def split: option.splits)

lemma woken_tables_task:
  "pd_tasks (wd_pub db) task = Some t \<Longrightarrow> pd_tasks (wd_pub (woken_tables now task i st db)) task = Some (moved now TsReady t)"
  by (simp add: woken_tables_def bind_admission_def retire_def transition_sql_def update_task_at split: option.splits)

lemma moved_fields [simp]:
  "t_generation (moved now st t) = t_generation t + 1" "t_status (moved now st t) = task_state_as_str st"
  by (simp_all add: moved_def)

lemma current_generation: "current v \<Longrightarrow> wt_task_generation (wv_row v) = wv_generation v"
  by (simp add: current_def Let_def)

lemma finish_outcomes:
  assumes "finish_wait env now pb prepared db = Inr (woken, db')"
  obtains (same) "db' = db" "\<not> woken"
  | (stops) task st why where "db' = stop_wait now task st why db" "\<not> woken"
  | (keeps) v seen cooldown where "db' = keep_waiting (we_digest env) now v pb seen cooldown db" "\<not> woken"
  | (wakes) v s q a st where "wait_owner now (we_locked env) (wt_id (wv_row (pb_owner pb))) db = Inr (Some v)"
      "current v" "wv_within_limits v" "wv_claim_valid v" "map_option fst (wt_claim (wv_row v)) = Some (pb_claim pb)"
      "pb_result pb = Inr s" "actionable s (wv_row v)" "prepared = Some q" "stage (we_intake env) q (wd_intake db) = (Inr a, st)" "woken"
      "db' = update_waits (claimed_by (wt_id (wv_row v)) (pb_claim pb)) (consumed now (ad_id (aa_stored a)) (sp_checks s) (we_digest env s))
         (woken_tables now (wt_task (wv_row v)) (ad_id (aa_stored a)) st db)"
proof -
  from assms consider "db' = db" "\<not> woken" | v where "wait_owner now (we_locked env) (wt_id (wv_row (pb_owner pb))) db = Inr (Some v)"
      "current v" "wv_claim_valid v" "map_option fst (wt_claim (wv_row v)) = Some (pb_claim pb)"
      "apply_probe env now v pb prepared db = Inr (woken, db')"
    by (auto simp: finish_wait_def Let_def res_bind_Inr split: option.splits if_splits)
  then show thesis
  proof cases
    case 1
    with same show thesis by simp
  next
    case (2 v)
    note found = this
    let ?w = "wv_row v"
    from 2(5) consider st why where "db' = stop_wait now (wt_task ?w) st why db" "\<not> woken"
      | s cd where "db' = keep_waiting (we_digest env) now v pb s cd db" "\<not> woken"
      | s where "wv_within_limits v" "pb_result pb = Inr s" "actionable s ?w" "consume env now v (pb_claim pb) prepared s db = Inr (woken, db')"
      unfolding apply_probe_def Let_def by (auto split: if_splits sum.splits)
    then show thesis
    proof cases
      case 1
      with stops show thesis by blast
    next
      case 2
      with keeps show thesis by blast
    next
      case (3 s)
      from 3(4) consider "db' = stop_wait now (wt_task ?w) TsBlocked ''continuation_unavailable'' db" "\<not> woken"
        | q a st where "prepared = Some q" "stage (we_intake env) q (wd_intake db) = (Inr a, st)" "woken"
            "db' = update_waits (claimed_by (wt_id ?w) (pb_claim pb)) (consumed now (ad_id (aa_stored a)) (sp_checks s) (we_digest env s))
               (woken_tables now (wt_task ?w) (ad_id (aa_stored a)) st db)"
        by (auto simp: consume_def Let_def woken_tables_def split: option.splits sum.splits prod.splits if_splits)
      then show thesis
      proof cases
        case 1
        with stops show thesis by blast
      next
        case (2 q a st)
        with wakes found 3 show thesis by blast
      qed
    qed
  qed
qed

lemma finish_cases:
  assumes "finish_wait env now pb prepared db = Inr (woken, db')"
  obtains (kept) "calm now db db'" "\<not> woken"
  | (wakes) v s q a st where "wait_owner now (we_locked env) (wt_id (wv_row (pb_owner pb))) db = Inr (Some v)"
      "current v" "wv_within_limits v" "wv_claim_valid v" "map_option fst (wt_claim (wv_row v)) = Some (pb_claim pb)"
      "pb_result pb = Inr s" "actionable s (wv_row v)" "prepared = Some q" "stage (we_intake env) q (wd_intake db) = (Inr a, st)" "woken"
      "db' = update_waits (claimed_by (wt_id (wv_row v)) (pb_claim pb)) (consumed now (ad_id (aa_stored a)) (sp_checks s) (we_digest env s))
         (woken_tables now (wt_task (wv_row v)) (ad_id (aa_stored a)) st db)"
  using assms
proof (cases rule: finish_outcomes)
  case wakes
  with that(2) show thesis by blast
qed (use that(1) in \<open>simp_all add: calm_stop calm_keep_waiting\<close>)

text \<open>What the wait and its task were when a wake was granted.\<close>

lemma wake_context:
  assumes "wait_owner now locked i db = Inr (Some v)" "current v" "wv_within_limits v" "wv_claim_valid v"
    "map_option fst (wt_claim (wv_row v)) = Some u"
  obtains t p until where "wv_row v \<in> set (wd_waits db)" "wt_id (wv_row v) = i" "claimed_by i u (wv_row v)"
    "wt_claim (wv_row v) = Some (u, until)" "now < until" "pd_tasks (wd_pub db) (wt_task (wv_row v)) = Some t"
    "t_status t = task_state_as_str TsWaiting" "t_generation t = wt_task_generation (wv_row v)"
    "t_stop_generation t = wt_stop_generation (wv_row v)" "within_limits now t" "pt_target t = ExistingPr p" "pr_head p = wt_head (wv_row v)"
proof -
  from assms(1) obtain t p c where f: "wv_row v \<in> set (wd_waits db)" "wt_id (wv_row v) = i" "open_wait (wv_row v)"
      "pd_tasks (wd_pub db) (wt_task (wv_row v)) = Some t" "pt_target t = ExistingPr p" and v: "v = view_of now (wv_row v) t p c"
    by (elim wait_owner_Some)
  have fields: "wv_status v = t_status t" "wv_generation v = t_generation t" "wv_stop_generation v = t_stop_generation t"
      "wv_target v = p" "wv_within_limits v = within_limits now t"
      "wv_claim_valid v = (case wt_claim (wv_row v) of None \<Rightarrow> False | Some (_, until) \<Rightarrow> now < until)"
    using arg_cong [OF v, of wv_status] arg_cong [OF v, of wv_generation] arg_cong [OF v, of wv_stop_generation]
      arg_cong [OF v, of wv_target] arg_cong [OF v, of wv_within_limits] arg_cong [OF v, of wv_claim_valid]
    by (simp_all add: view_of_def)
  from assms(4,5) fields(6) obtain until where "wt_claim (wv_row v) = Some (u, until)" "now < until"
    by (auto split: option.splits)
  moreover have "claimed_by i u (wv_row v)" using f assms(5) by (simp add: claimed_by_def)
  ultimately show thesis using that f fields assms(2,3) by (simp add: current_def Let_def)
qed

lemma finish_moves:
  assumes "finish_wait env now pb prepared db = Inr (woken, db')"
  shows "moves now db db'"
  using assms
proof (cases rule: finish_cases)
  case kept
  then show ?thesis by (simp add: calmly)
next
  case (wakes v s q a st)
  from wakes(1-5) show ?thesis
  proof (rule wake_context)
    fix t p until
    assume w: "wv_row v \<in> set (wd_waits db)" "wt_id (wv_row v) = wt_id (wv_row (pb_owner pb))"
      "claimed_by (wt_id (wv_row (pb_owner pb))) (pb_claim pb) (wv_row v)"
      "pd_tasks (wd_pub db) (wt_task (wv_row v)) = Some t" "t_generation t = wt_task_generation (wv_row v)"
    show ?thesis unfolding wakes(11)
      by (rule waking [OF w(1) _ w(4,5) calm_woken woken_tables_waits woken_tables_task [OF w(4)] moved_fields(1)]) (use w in simp)
  qed
qed

lemma wait_record_moves: "record_completion fresh now v db = Inr (n, db') \<Longrightarrow> moves now db db'"
  by (rule calmly, rule calm_same) (auto simp: record_completion_def res_bind_Inr Let_def split: if_splits)

lemma update_fanout_calm [simp]: "calm now db (update_fanout i f db') = calm now db db'"
  by (simp add: calm_def update_fanout_def)

lemma fanout_moves: "fanout_one locked now i db = (a, db') \<Longrightarrow> moves now db db'"
  by (rule calmly) (auto simp: fanout_one_def calm_signal split: option.splits prod.splits)

lemma defer_moves: "moves now db (defer_fanout now i db)"
  by (rule calmly, rule calm_same) (simp_all add: defer_fanout_def)

lemma collect_moves: "moves now db (collect_completions locked now db)"
  by (rule calmly, rule calm_same) (simp_all add: collect_completions_def Let_def)

lemma expire_task_Inr:
  assumes "expire_task live_lease now fleet ws task db = Inr x"
  shows "(case pd_tasks (wd_pub db) task of None \<Rightarrow> Inr (False, db)
       | Some t \<Rightarrow> if t_terminal_at t = None \<and> (t_expires_at t \<le> now \<or> spent_attempts live_lease task t)
           then Inr (True, retire now task (cancel_waits now task (over_ledger (move_head task (t_generation t + 1) True)
             (update_columns task (\<lambda>c. c\<lparr>tc_reason := Some (if t_expires_at t \<le> now then ''wall_deadline_reached'' else ''lease_limit_reached'')\<rparr>)
               (over_tasks (update_task task (expired now)) db)))))
           else Inr (False, db)) = (Inr x :: (publish_error, bool \<times> 'k wait_db) result)"
  using assms unfolding expire_task_def res_bind_Inr by (elim exE conjE)

lemma wait_expire_moves:
  assumes "expire_task live_lease now fleet ws task db = Inr (b, db')"
  shows "moves now db db'"
proof -
  have ended: "calm now db (over_tasks (update_task task (expired now)) db)"
    by (intro calm_over_tasks) (simp add: expired_def)
  have reason: "calm now d (update_columns task (\<lambda>c. c\<lparr>tc_reason := r\<rparr>) d)" for d r
    by (intro calm_update_columns) (simp add: same_reads_def)
  have over: "calm now db (retire now task (cancel_waits now task (over_ledger f (update_columns task (\<lambda>c. c\<lparr>tc_reason := r\<rparr>)
      (over_tasks (update_task task (expired now)) db)))))" (is "calm _ _ (?gone f r)") for f r
    by (rule calm_trans [OF calm_trans [OF calm_trans [OF calm_trans [OF ended reason] calm_over_ledger] calm_cancel] calm_retire])
  have "calm now db db'"
  proof (cases "pd_tasks (wd_pub db) task")
    case None
    with assms show ?thesis by (auto simp: expire_task_def res_bind_Inr)
  next
    case (Some t)
    show ?thesis
    proof (cases "t_terminal_at t = None \<and> (t_expires_at t \<le> now \<or> spent_attempts live_lease task t)")
      case True
      have "db' = ?gone (move_head task (t_generation t + 1) True)
          (Some (if t_expires_at t \<le> now then ''wall_deadline_reached'' else ''lease_limit_reached''))"
        using expire_task_Inr [OF assms] by (simp only: Some option.case True simp_thms if_True sum.inject prod.inject)
      then show ?thesis using over by simp
    next
      case False
      have "db' = db"
        using expire_task_Inr [OF assms] by (simp only: Some option.case False if_False sum.inject prod.inject)
      then show ?thesis by simp
    qed
  qed
  then show ?thesis by (rule calmly)
qed

section \<open>Publications go on\<close>

lemma tasks_kept_other: "tasks_kept db db' \<Longrightarrow> other_work db db'"
proof -
  assume k: "tasks_kept db db'"
  have "kept_task (pd_effects db) i (pd_tasks db i) t'" if "pd_tasks db' i = Some t'" for i t'
  proof -
    have "rel_option (\<lambda>t t'. kept_task (pd_effects db) i (Some t) t') (pd_tasks db i) (pd_tasks db' i)"
      using k by (simp add: tasks_kept_def)
    with that show ?thesis by (cases "pd_tasks db i") (simp_all del: kept_task.simps)
  qed
  with k show ?thesis by (simp add: other_work_def tasks_kept_def)
qed

lemma moves_tasks: "moves now db db' \<Longrightarrow> tasks_kept (wd_pub db) (wd_pub db')"
proof (induction rule: moves.induct)
  case (charging w db c u)
  have "tasks_kept (wd_pub db) (wd_pub (charge_sql (wt_task w) db))"
    using calm_over_tasks [of db "wt_task w" "\<lambda>t. t\<lparr>t_resource_version := t_resource_version t + 1\<rparr>" now]
    by (simp add: charge_sql_def calm_def)
  then show ?case by (simp add: claim_sql_def update_waits_def)
qed (simp_all add: calm_def update_waits_def)

section \<open>The invariant\<close>

definition fallbacks_of :: "string \<Rightarrow> wait list \<Rightarrow> int" where
  "fallbacks_of task ws = sum_list (map wt_fallbacks (filter (\<lambda>w. wt_task w = task) ws))"

definition wait_ok :: "'k pub_db \<Rightarrow> wait \<Rightarrow> bool" where
  "wait_ok pub w \<longleftrightarrow> (\<exists>t. pd_tasks pub (wt_task w) = Some t \<and> wt_task_generation w \<le> t_generation t
     \<and> (wt_consumed w \<noteq> None \<longrightarrow> wt_task_generation w < t_generation t))"

definition woken_once :: "wait list \<Rightarrow> bool" where
  "woken_once ws \<longleftrightarrow> (\<forall>w \<in> set ws. \<forall>w' \<in> set ws. wt_consumed w \<noteq> None \<longrightarrow> wt_consumed w' \<noteq> None
     \<longrightarrow> wt_task w = wt_task w' \<longrightarrow> wt_task_generation w = wt_task_generation w' \<longrightarrow> w = w')"

definition reads_counted :: "wait list \<Rightarrow> task_columns \<Rightarrow> bool" where
  "reads_counted ws c \<longleftrightarrow> tc_used_fallback c = fallbacks_of (tc_task c) ws \<and> tc_used_fallback c \<le> tc_max_fallback c"

definition wait_inv :: "'k wait_db \<Rightarrow> bool" where
  "wait_inv db \<longleftrightarrow> distinct (map wt_id (wd_waits db)) \<and> distinct (map tc_task (wd_columns db))
     \<and> (\<forall>w \<in> set (wd_waits db). wait_ok (wd_pub db) w) \<and> (\<forall>c \<in> set (wd_columns db). reads_counted (wd_waits db) c)
     \<and> woken_once (wd_waits db)"

definition prompt :: "instant \<Rightarrow> wait list \<Rightarrow> bool" where
  "prompt now ws \<longleftrightarrow> (\<forall>w \<in> set ws. due_ok now w)"

lemma rel_map_filter:
  "list_all2 R xs ys \<Longrightarrow> (\<And>x y. R x y \<Longrightarrow> p y = p x \<and> f y = f x) \<Longrightarrow> map f (filter p ys) = map f (filter p xs)"
  by (induction rule: list_all2_induct) auto

lemma rel_before: "list_all2 R xs ys \<Longrightarrow> y \<in> set ys \<Longrightarrow> \<exists>x \<in> set xs. R x y"
  by (induction rule: list_all2_induct) auto

lemma same_id: "distinct (map wt_id ws) \<Longrightarrow> w \<in> set ws \<Longrightarrow> w' \<in> set ws \<Longrightarrow> wt_id w = wt_id w' \<Longrightarrow> w = w'"
  by (auto simp: distinct_map dest: inj_onD)

lemma same_columns: "distinct (map tc_task cs) \<Longrightarrow> c \<in> set cs \<Longrightarrow> d \<in> set cs \<Longrightarrow> tc_task c = tc_task d \<Longrightarrow> c = d"
  by (auto simp: distinct_map dest: inj_onD)

lemma wait_ok_kept:
  assumes "tasks_kept pub pub'" "wait_ok pub w"
  shows "wait_ok pub' w"
proof -
  from assms(2) obtain t where t: "pd_tasks pub (wt_task w) = Some t" "wt_task_generation w \<le> t_generation t"
      "wt_consumed w \<noteq> None \<longrightarrow> wt_task_generation w < t_generation t" by (auto simp: wait_ok_def)
  have "rel_option (\<lambda>t t'. kept_task (pd_effects pub) (wt_task w) (Some t) t') (pd_tasks pub (wt_task w)) (pd_tasks pub' (wt_task w))"
    using assms(1) by (simp add: tasks_kept_def)
  with t(1) obtain t' where "pd_tasks pub' (wt_task w) = Some t'" "t_generation t \<le> t_generation t'"
    by (cases "pd_tasks pub' (wt_task w)") auto
  with t show ?thesis unfolding wait_ok_def by force
qed

lemma calm_inv:
  assumes "calm now db db'" "wait_inv db"
  shows "wait_inv db'"
proof -
  have ws: "list_all2 (wait_keeps now) (wd_waits db) (wd_waits db')" and cs: "list_all2 same_reads (wd_columns db) (wd_columns db')"
    and ts: "tasks_kept (wd_pub db) (wd_pub db')" using assms(1) by (simp_all add: calm_def)
  have ids: "distinct (map wt_id (wd_waits db'))"
    using rel_map_filter [OF ws, of "\<lambda>_. True" wt_id] assms(2) by (simp add: wait_keeps_def same_wait_def wait_inv_def)
  have columns: "distinct (map tc_task (wd_columns db'))"
    using rel_map_filter [OF cs, of "\<lambda>_. True" tc_task] assms(2) by (simp add: same_reads_def wait_inv_def)
  have sums: "fallbacks_of i (wd_waits db') = fallbacks_of i (wd_waits db)" for i
    using rel_map_filter [OF ws, of "\<lambda>w. wt_task w = i" wt_fallbacks] by (simp add: wait_keeps_def same_wait_def fallbacks_of_def)
  have "wait_ok (wd_pub db') w'" if "w' \<in> set (wd_waits db')" for w'
  proof -
    from rel_before [OF ws that] obtain w where w: "w \<in> set (wd_waits db)" "wait_keeps now w w'" ..
    then have "wait_ok (wd_pub db') w" using assms(2) wait_ok_kept [OF ts] by (simp add: wait_inv_def)
    with w(2) show ?thesis by (simp add: wait_ok_def wait_keeps_def same_wait_def)
  qed
  moreover have "reads_counted (wd_waits db') c'" if "c' \<in> set (wd_columns db')" for c'
  proof -
    from rel_before [OF cs that] obtain c where "c \<in> set (wd_columns db)" "same_reads c c'" ..
    then show ?thesis using assms(2) by (auto simp: reads_counted_def sums wait_inv_def same_reads_def)
  qed
  moreover have "woken_once (wd_waits db')"
    unfolding woken_once_def
  proof (intro ballI impI)
    fix a' b'
    assume ab': "a' \<in> set (wd_waits db')" "b' \<in> set (wd_waits db')" "wt_consumed a' \<noteq> None" "wt_consumed b' \<noteq> None"
      "wt_task a' = wt_task b'" "wt_task_generation a' = wt_task_generation b'"
    from rel_before [OF ws ab'(1)] rel_before [OF ws ab'(2)] obtain a b where ab: "a \<in> set (wd_waits db)" "wait_keeps now a a'"
        "b \<in> set (wd_waits db)" "wait_keeps now b b'" by blast
    then have "a = b" using ab' assms(2) by (auto simp: wait_inv_def woken_once_def wait_keeps_def same_wait_def)
    with ab have "wt_id a' = wt_id b'" by (simp add: wait_keeps_def same_wait_def)
    with ids ab' show "a' = b'" by (blast intro: same_id)
  qed
  ultimately show ?thesis using ids columns by (simp add: wait_inv_def)
qed

lemma fallbacks_bump:
  "distinct (map wt_id ws) \<Longrightarrow> w \<in> set ws \<Longrightarrow> (\<And>x. wt_task (h x) = wt_task x \<and> wt_fallbacks (h x) = wt_fallbacks x + 1)
    \<Longrightarrow> fallbacks_of task (map (\<lambda>x. if wt_id x = wt_id w then h x else x) ws) = fallbacks_of task ws + (if wt_task w = task then 1 else 0)"
proof (induction ws)
  case (Cons x ws)
  show ?case
  proof (cases "x = w")
    case True
    with Cons.prems(1) have "map (\<lambda>x. if wt_id x = wt_id w then h x else x) ws = ws" by (intro map_idI) (auto simp: image_iff)
    with True Cons.prems(3) show ?thesis by (simp add: fallbacks_of_def)
  next
    case False
    with Cons.prems have "wt_id x \<noteq> wt_id w" "w \<in> set ws" by (auto simp: image_iff)
    with Cons show ?thesis by (simp add: fallbacks_of_def)
  qed
qed simp

lemma charge_tables:
  "wd_waits (claim_sql now i u 1 (charge_sql task db)) = map (\<lambda>x. if wt_id x = i then claim_row now u 1 x else x) (wd_waits db)"
  "wd_columns (claim_sql now i u 1 (charge_sql task db)) = map (\<lambda>c. if tc_task c = task then c\<lparr>tc_used_fallback := tc_used_fallback c + 1,
       tc_reason := (if tc_max_fallback c \<le> tc_used_fallback c + 1 then Some ''dependency_read_limit'' else tc_reason c)\<rparr> else c) (wd_columns db)"
  by (simp_all add: claim_sql_def charge_sql_def update_waits_def update_columns_def over_tasks_def)

lemma claim_row_fields [simp]:
  "wt_id (claim_row now u n w) = wt_id w" "wt_task (claim_row now u n w) = wt_task w" "wt_consumed (claim_row now u n w) = wt_consumed w"
  "wt_task_generation (claim_row now u n w) = wt_task_generation w" "wt_fallbacks (claim_row now u n w) = wt_fallbacks w + n"
  "same_wait w (claim_row now u n w)"
  by (simp_all add: claim_row_def same_wait_def)

lemma consumed_fields [simp]:
  "wt_id (consumed now i k d w) = wt_id w" "wt_task (consumed now i k d w) = wt_task w" "wt_consumed (consumed now i k d w) = Some (now, i)"
  "wt_task_generation (consumed now i k d w) = wt_task_generation w" "wt_fallbacks (consumed now i k d w) = wt_fallbacks w"
  "same_wait w (consumed now i k d w)"
  by (simp_all add: consumed_def same_wait_def)

lemma wait_ok_fields:
  "wt_task w' = wt_task w \<Longrightarrow> wt_task_generation w' = wt_task_generation w \<Longrightarrow> wt_consumed w' = wt_consumed w \<Longrightarrow> wait_ok pub w' = wait_ok pub w"
  by (simp add: wait_ok_def)

lemma map_ids: "(\<And>x. wt_id (h x) = wt_id x) \<Longrightarrow> map wt_id (map (\<lambda>x. if p x then h x else x) ws) = map wt_id ws"
  by (simp add: comp_def if_distrib cong: if_cong)

lemma woken_once_map:
  assumes "woken_once ws" "distinct (map wt_id ws)"
    "\<And>x. wt_id (h x) = wt_id x \<and> wt_task (h x) = wt_task x \<and> wt_task_generation (h x) = wt_task_generation x \<and> wt_consumed (h x) = wt_consumed x"
  shows "woken_once (map h ws)"
  unfolding woken_once_def
proof (intro ballI impI)
  fix a' b'
  assume ab': "a' \<in> set (map h ws)" "b' \<in> set (map h ws)" "wt_consumed a' \<noteq> None" "wt_consumed b' \<noteq> None"
    "wt_task a' = wt_task b'" "wt_task_generation a' = wt_task_generation b'"
  then obtain a b where "a \<in> set ws" "a' = h a" "b \<in> set ws" "b' = h b" by auto
  with ab' assms(1,3) have "a = b" "a' = h a" "b' = h b" by (auto simp: woken_once_def)
  then show "a' = b'" by simp
qed

lemma claim_row_ok [simp]: "wait_ok pub (claim_row now u n w) = wait_ok pub w"
  by (rule wait_ok_fields) simp_all

lemma charging_inv:
  assumes "wait_inv db" "w \<in> set (wd_waits db)" "columns_of db (wt_task w) = Some c" "tc_used_fallback c < tc_max_fallback c"
    "tasks_kept (wd_pub db) (wd_pub (claim_sql now (wt_id w) u 1 (charge_sql (wt_task w) db)))"
  shows "wait_inv (claim_sql now (wt_id w) u 1 (charge_sql (wt_task w) db))" (is "wait_inv ?db")
proof -
  let ?h = "\<lambda>x. if wt_id x = wt_id w then claim_row now u 1 x else x"
  have ids: "distinct (map wt_id (wd_waits db))" using assms(1) by (simp add: wait_inv_def)
  have "distinct (map wt_id (wd_waits ?db))" using ids by (simp only: charge_tables map_ids claim_row_fields)
  moreover have "distinct (map tc_task (wd_columns ?db))"
    using assms(1) by (simp add: charge_tables wait_inv_def comp_def if_distrib cong: if_cong)
  moreover have "\<forall>x \<in> set (wd_waits ?db). wait_ok (wd_pub ?db) x"
    using assms(1) wait_ok_kept [OF assms(5)] by (auto simp: charge_tables wait_inv_def)
  moreover have "woken_once (wd_waits ?db)"
    unfolding charge_tables by (rule woken_once_map) (use assms(1) ids in \<open>simp_all add: wait_inv_def\<close>)
  moreover have "\<forall>d \<in> set (wd_columns ?db). reads_counted (wd_waits ?db) d"
  proof -
    have sums: "fallbacks_of i (wd_waits ?db) = fallbacks_of i (wd_waits db) + (if wt_task w = i then 1 else 0)" for i
      unfolding charge_tables by (intro fallbacks_bump ids assms(2)) simp
    have counted: "reads_counted (wd_waits db) d" if "d \<in> set (wd_columns db)" for d using assms(1) that by (simp add: wait_inv_def)
    have one: "d = c" if "d \<in> set (wd_columns db)" "tc_task d = wt_task w" for d
      using assms(1) columns_of_Some [OF assms(3)] that by (simp add: wait_inv_def same_columns [of "wd_columns db"])
    show ?thesis
    proof
      fix d'
      assume "d' \<in> set (wd_columns ?db)"
      then obtain d where d: "d \<in> set (wd_columns db)" "d' = (if tc_task d = wt_task w then d\<lparr>tc_used_fallback := tc_used_fallback d + 1,
          tc_reason := (if tc_max_fallback d \<le> tc_used_fallback d + 1 then Some ''dependency_read_limit'' else tc_reason d)\<rparr> else d)"
        unfolding charge_tables by auto
      show "reads_counted (wd_waits ?db) d'"
        using counted [OF d(1)] one [OF d(1)] assms(4) unfolding d(2) by (auto simp: reads_counted_def sums)
    qed
  qed
  ultimately show ?thesis by (simp add: wait_inv_def)
qed

lemma waking_inv:
  assumes "wait_inv db" "w \<in> set (wd_waits db)" "claimed_by (wt_id w) u w" "pd_tasks (wd_pub db) (wt_task w) = Some t"
    "t_generation t = wt_task_generation w" "calm now db db1" "wd_waits db1 = wd_waits db"
    "pd_tasks (wd_pub db1) (wt_task w) = Some t1" "t_generation t1 = t_generation t + 1"
  shows "wait_inv (update_waits (claimed_by (wt_id w) u) (consumed now i checks digest) db1)"
proof -
  let ?ws = "wd_waits db" and ?h = "\<lambda>x. if claimed_by (wt_id w) u x then consumed now i checks digest x else x"
  have inv: "wait_inv db1" using calm_inv [OF assms(6,1)] .
  have ids: "distinct (map wt_id ?ws)" using assms(1) by (simp add: wait_inv_def)
  have only: "x = w" if "claimed_by (wt_id w) u x" "x \<in> set ?ws" for x
    using same_id [OF ids that(2) assms(2)] that(1) by (simp add: claimed_by_def)
  have behind: "wt_task_generation x < wt_task_generation w" if "x \<in> set ?ws" "wt_task x = wt_task w" "wt_consumed x \<noteq> None" for x
    using assms(1,4,5) that by (auto simp: wait_inv_def wait_ok_def)
  have sums: "fallbacks_of task (map ?h ?ws) = fallbacks_of task ?ws" for task
    unfolding fallbacks_of_def by (induction ?ws rule: list.induct) (simp_all add: filter_map comp_def if_distrib cong: if_cong)
  have "woken_once (map ?h ?ws)"
    unfolding woken_once_def
  proof (intro ballI impI)
    fix a' b'
    assume ab': "a' \<in> set (map ?h ?ws)" "b' \<in> set (map ?h ?ws)" "wt_consumed a' \<noteq> None" "wt_consumed b' \<noteq> None"
      "wt_task a' = wt_task b'" "wt_task_generation a' = wt_task_generation b'"
    then obtain a b where ab: "a \<in> set ?ws" "a' = ?h a" "b \<in> set ?ws" "b' = ?h b" by auto
    show "a' = b'"
    proof (cases "claimed_by (wt_id w) u a = claimed_by (wt_id w) u b")
      case True
      have "a = b"
      proof (cases "claimed_by (wt_id w) u a")
        case True
        with \<open>claimed_by (wt_id w) u a = claimed_by (wt_id w) u b\<close> only ab show ?thesis by metis
      next
        case False
        with True have "a' = a" "b' = b" using ab by simp_all
        with ab ab' assms(1) show ?thesis by (simp add: wait_inv_def woken_once_def)
      qed
      with ab show ?thesis by simp
    next
      case False
      then consider "a = w" "claimed_by (wt_id w) u a" "\<not> claimed_by (wt_id w) u b" | "b = w" "claimed_by (wt_id w) u b" "\<not> claimed_by (wt_id w) u a"
        using only [OF _ ab(1)] only [OF _ ab(3)] by blast
      then show ?thesis
      proof cases
        case 1
        with ab ab' behind [of b] show ?thesis by simp
      next
        case 2
        with ab ab' behind [of a] show ?thesis by simp
      qed
    qed
  qed
  moreover have "wait_ok (wd_pub db1) x'" if "x' \<in> set (map ?h ?ws)" for x'
  proof -
    from that obtain x where x: "x \<in> set ?ws" "x' = ?h x" by auto
    with inv assms(7) have "wait_ok (wd_pub db1) x" by (simp add: wait_inv_def)
    with x only [OF _ x(1)] assms(5,8,9) show ?thesis by (auto simp: wait_ok_def)
  qed
  moreover have "distinct (map wt_id (map ?h ?ws))" using ids by (simp only: map_ids consumed_fields)
  moreover have "reads_counted (map ?h ?ws) c" if "c \<in> set (wd_columns db1)" for c
  proof -
    have "reads_counted (wd_waits db) c" using inv that unfolding wait_inv_def assms(7) by blast
    then show ?thesis unfolding reads_counted_def sums .
  qed
  ultimately show ?thesis using inv unfolding wait_inv_def by (simp add: update_waits_def assms(7))
qed

lemma arming_inv:
  assumes "wait_inv db" "pd_tasks (wd_pub db) (wt_task w) = Some t" "wait_checks w (wd_waits db)"
    "wt_task_generation w = t_generation t" "open_wait w" "wt_fallbacks w = 0"
  shows "wait_inv ((update_columns (wt_task w) (\<lambda>c. c\<lparr>tc_wait_sequence := n\<rparr>) db)\<lparr>wd_waits := wd_waits db @ [w]\<rparr>)" (is "wait_inv (?d\<lparr>wd_waits := _\<rparr>)")
proof -
  have "calm 0 db ?d" by (intro calm_update_columns) (simp add: same_reads_def)
  from calm_inv [OF this assms(1)] have inv: "wait_inv ?d" .
  have sums: "fallbacks_of task (wd_waits db @ [w]) = fallbacks_of task (wd_waits db)" for task
    using assms(6) by (simp add: fallbacks_of_def)
  have "wt_id w \<notin> wt_id ` set (wd_waits db)" using assms(3) by (auto simp: wait_checks_def list_all_iff)
  moreover have "wait_ok (wd_pub db) w" using assms(2,4,5) by (simp add: wait_ok_def open_wait_def)
  moreover have "woken_once (wd_waits db @ [w])"
    using assms(1,5) by (auto simp: wait_inv_def woken_once_def open_wait_def)
  ultimately show ?thesis using inv by (auto simp: wait_inv_def reads_counted_def sums)
qed

lemma moves_inv:
  assumes "moves now db db'" "wait_inv db"
  shows "wait_inv db'"
  using assms(1) moves_tasks [OF assms(1)]
proof cases
  case calmly
  then show ?thesis using calm_inv assms(2) by blast
qed (use assms(2) arming_inv charging_inv waking_inv moves_tasks [OF assms(1)] in \<open>blast+\<close>)

section \<open>Signals stay due\<close>

lemma due_ok_later: "now \<le> now' \<Longrightarrow> due_ok now w \<Longrightarrow> due_ok now' w"
  by (fastforce simp: due_ok_def max_def split: option.splits prod.splits if_splits)

lemma due_ok_quiet: "\<not> signalled w \<or> \<not> open_wait w \<Longrightarrow> due_ok now w"
  by (auto simp: due_ok_def)

lemma claim_row_due [simp]: "due_ok now (claim_row now u n w)"
  by (auto simp: due_ok_def claim_row_def)

lemma consumed_due [simp]: "due_ok now (consumed now' i k d w)"
  by (simp add: due_ok_def open_wait_def)

lemma moves_prompt:
  assumes "moves now db db'" "prompt now (wd_waits db)"
  shows "prompt now (wd_waits db')"
  using assms(1)
proof cases
  case calmly
  then have ws: "list_all2 (wait_keeps now) (wd_waits db) (wd_waits db')" by (simp add: calm_def)
  show ?thesis using rel_before [OF ws] assms(2) by (fastforce simp: prompt_def wait_keeps_def)
next
  case (waking w u t db1 t1 i checks digest)
  then show ?thesis using assms(2) by (auto simp: prompt_def update_waits_def)
next
  case charging
  then show ?thesis using assms(2) by (auto simp: prompt_def charge_tables)
qed (use assms(2) in \<open>auto simp: prompt_def due_ok_quiet\<close>)

lemma moves_rows:
  assumes "moves now db db'" "w \<in> set (wd_waits db)"
  shows "\<exists>w' \<in> set (wd_waits db'). same_wait w w'"
  using assms(1)
proof cases
  case calmly
  then have "list_all2 (wait_keeps now) (wd_waits db) (wd_waits db')" by (simp add: calm_def)
  then have "\<exists>w' \<in> set (wd_waits db'). wait_keeps now w w'" using assms(2) by (induction rule: list_all2_induct) auto
  then show ?thesis by (auto simp: wait_keeps_def)
next
  case (waking w' u t db1 t1 i checks digest)
  then have "wd_waits db' = map (\<lambda>x. if claimed_by (wt_id w') u x then consumed now i checks digest x else x) (wd_waits db)"
    by (simp add: update_waits_def)
  then show ?thesis using assms(2) by (intro bexI [of _ "if claimed_by (wt_id w') u w then consumed now i checks digest w else w"]) auto
next
  case (charging w' c u)
  then have "wd_waits db' = map (\<lambda>x. if wt_id x = wt_id w' then claim_row now u 1 x else x) (wd_waits db)"
    by (simp only: charge_tables)
  then show ?thesis using assms(2)
    by (intro bexI [of _ "if wt_id w = wt_id w' then claim_row now u 1 w else w"]) auto
qed (use assms(2) in \<open>auto intro!: bexI [of _ w]\<close>)

section \<open>Runs keep the invariant\<close>

lemma same_wait_trans: "same_wait a b \<Longrightarrow> same_wait b c \<Longrightarrow> same_wait a c"
  by (simp add: same_wait_def)

definition read_ok :: "'k wait_db \<Rightarrow> claimed_wait \<Rightarrow> bool" where
  "read_ok db cw \<longleftrightarrow> (\<exists>w \<in> set (wd_waits db). same_wait (wv_row (cw_owner cw)) w)"

definition waits_ok :: "'k wait_run \<Rightarrow> bool" where
  "waits_ok r \<longleftrightarrow> wait_inv (wn_db r) \<and> prompt (wn_clock r) (wd_waits (wn_db r)) \<and> run_db (wn_rest r) = wd_pub (wn_db r)
     \<and> (\<forall>cw \<in> set (wn_reads r). read_ok (wn_db r) cw)"

lemma read_ok_moves: "moves now db db' \<Longrightarrow> read_ok db cw \<Longrightarrow> read_ok db' cw"
  unfolding read_ok_def using moves_rows same_wait_trans by blast

lemma waits_ok_moves:
  assumes "waits_ok r" "moves (wn_clock r) (wn_db r) db'"
  shows "waits_ok (with_tables r db')" "\<And>cw. cw \<in> set (wn_reads r) \<Longrightarrow> read_ok db' cw"
  using assms(1) moves_inv [OF assms(2)] moves_prompt [OF assms(2)] read_ok_moves [OF assms(2)] by (auto simp: waits_ok_def)

lemma claimed_read:
  assumes "claim_wait unavailable locked fresh now cd db = Inr (Some cw, db')"
  shows "wv_row (cw_owner cw) \<in> set (wd_waits db)"
proof -
  from assms obtain v where v: "wait_owner now locked (cd_id cd) db = Inr (Some v)"
      "claim_owned unavailable fresh now (cd_fleet cd) (cd_workspace cd) v db = Inr (Some cw, db')"
    by (auto simp: claim_wait_def res_bind_Inr dest!: guard_id_text split: option.splits)
  have "cw_owner cw = v"
    using v(2) by (auto simp: claim_owned_def Let_def res_bind_Inr split: if_splits sum.splits)
  with v(1) show ?thesis by (auto elim: wait_owner_Some)
qed

lemma pub_step_generation:
  assumes "pub_step p p'" "pd_tasks (run_db p) i = Some t" "pd_tasks (run_db p') i = Some t'"
  shows "t_generation t \<le> t_generation t'"
  using assms(1)
proof cases
  case (works db')
  from works(2) show ?thesis
  proof (cases rule: db_step_move)
    case quiet
    then show ?thesis using quiet_move_task [of "run_db p" db' i t'] assms works(1) by simp
  next
    case (fresh e)
    then show ?thesis using fresh_effect_tables(3) [OF fresh, of i t'] assms works(1) by simp
  qed
next
  case (issues x j now l sl pm db')
  show ?thesis
    by (rule issue_facts [OF issues(4,3)]) (use assms(2,3) issues(1) in \<open>auto simp: update_task_at issue_effect_sql_def update_state_def split: if_splits option.splits\<close>)
next
  case (issues_unheard x j now l sl pm db')
  show ?thesis
    by (rule issue_facts [OF issues_unheard(4,3)]) (use assms(2,3) issues_unheard(1) in \<open>auto simp: update_task_at issue_effect_sql_def update_state_def split: if_splits option.splits\<close>)
next
  case pushes
  then show ?thesis using assms(2,3) push_db by fastforce
qed (use assms(2,3) in simp_all)

lemma dropped_fields [simp]:
  "wt_id (dropped p now w) = wt_id w" "wt_task (dropped p now w) = wt_task w" "wt_consumed (dropped p now w) = wt_consumed w"
  "wt_task_generation (dropped p now w) = wt_task_generation w" "wt_fallbacks (dropped p now w) = wt_fallbacks w"
  "same_wait w (dropped p now w)"
  by (simp_all add: dropped_def same_wait_def)

lemma dropped_due: "due_ok now w \<Longrightarrow> due_ok now (dropped p now' w)"
  by (auto simp: dropped_def due_ok_def open_wait_def)

lemma fallbacks_dropped [simp]: "fallbacks_of i (map (dropped p now) ws) = fallbacks_of i ws"
  by (induction ws) (simp_all add: fallbacks_of_def)

lemma fallbacks_none: "(\<And>w. w \<in> set ws \<Longrightarrow> wt_task w \<noteq> i) \<Longrightarrow> fallbacks_of i ws = 0"
  by (induction ws) (simp_all add: fallbacks_of_def)

lemma daemon_inv:
  assumes "waits_ok r" "pub_step (wn_rest r) p" "wd_pub db' = run_db p" "daemon_work (wn_db r) db'"
  shows "waits_ok (r\<lparr>wn_db := db', wn_rest := p\<rparr>)"
proof -
  let ?db = "wn_db r"
  from assms(4) obtain ended now where ws: "wd_waits db' = map (dropped ended now) (wd_waits ?db)" by (auto simp: daemon_work_def)
  have inv: "wait_inv ?db" and ids: "distinct (map wt_id (wd_waits ?db))" and pub: "run_db (wn_rest r) = wd_pub ?db"
    using assms(1) by (simp_all add: waits_ok_def wait_inv_def)
  have "wait_ok (wd_pub db') w" if "w \<in> set (wd_waits ?db)" for w
  proof -
    from inv that obtain t where t: "pd_tasks (wd_pub ?db) (wt_task w) = Some t" "wt_task_generation w \<le> t_generation t"
        "wt_consumed w \<noteq> None \<longrightarrow> wt_task_generation w < t_generation t" by (auto simp: wait_inv_def wait_ok_def)
    from assms(4) that obtain t' where t': "pd_tasks (wd_pub db') (wt_task w) = Some t'" by (auto simp: daemon_work_def)
    then have "t_generation t \<le> t_generation t'"
      using pub_step_generation [OF assms(2), of "wt_task w" t t'] t(1) by (simp add: assms(3) pub)
    with t t' show ?thesis by (auto simp: wait_ok_def)
  qed
  then have rows: "\<forall>w \<in> set (wd_waits db'). wait_ok (wd_pub db') w" by (simp add: ws wait_ok_fields [of "dropped ended now w" w for w])
  have books: "reads_counted (wd_waits db') c'" if "c' \<in> set (wd_columns db')" for c'
  proof -
    from assms(4) that consider c where "c \<in> set (wd_columns ?db)" "same_reads c c'"
      | "tc_used_fallback c' = 0" "0 \<le> tc_max_fallback c'" "\<forall>w \<in> set (wd_waits ?db). wt_task w \<noteq> tc_task c'"
      unfolding daemon_work_def columns_kept_def by blast
    then show ?thesis
    proof cases
      case (1 c)
      with inv have "reads_counted (wd_waits ?db) c" by (simp add: wait_inv_def)
      with 1(2) show ?thesis by (simp add: reads_counted_def same_reads_def ws)
    next
      case 2
      then show ?thesis using fallbacks_none [of "wd_waits ?db" "tc_task c'"] by (simp add: reads_counted_def ws)
    qed
  qed
  have "wait_inv db'"
    using inv assms(4) rows books woken_once_map [of "wd_waits ?db" "dropped ended now"]
    by (simp add: wait_inv_def daemon_work_def columns_kept_def ws comp_def)
  moreover have "prompt (wn_clock r) (wd_waits db')" using assms(1) by (auto simp: ws prompt_def waits_ok_def dropped_due)
  moreover have "read_ok db' cw" if "cw \<in> set (wn_reads r)" for cw
  proof -
    from assms(1) that obtain w where "w \<in> set (wd_waits ?db)" "same_wait (wv_row (cw_owner cw)) w" by (auto simp: waits_ok_def read_ok_def)
    then show ?thesis unfolding read_ok_def by (auto simp: ws intro!: bexI [of _ w] elim: same_wait_trans)
  qed
  ultimately show ?thesis by (simp add: waits_ok_def assms(3))
qed

lemma waits_ok_step:
  assumes "wait_step r r'" "waits_ok r"
  shows "waits_ok r'"
  using assms(1)
proof cases
  case (ticks now)
  then show ?thesis using assms(2) due_ok_later [of "wn_clock r" now] by (auto simp: waits_ok_def prompt_def)
next
  case (reads unavailable locked fresh c cw db')
  note m = waits_ok_moves [OF assms(2) claim_moves [OF reads(2)]]
  have "read_ok (wn_db r) cw" unfolding read_ok_def using claimed_read [OF reads(2)] same_wait_refl by blast
  from read_ok_moves [OF claim_moves [OF reads(2)] this] m(1) show ?thesis by (simp add: reads(1) waits_ok_def)
next
  case (finishes cw env0 seen k q k' env woken db')
  have "set (remove1 cw (wn_reads r)) \<subseteq> set (wn_reads r)" by (rule set_remove1_subset)
  with waits_ok_moves [OF assms(2) finish_moves [OF finishes(4)]] show ?thesis by (auto simp: finishes(1) waits_ok_def)
next
  case (forgets cw)
  have "set (remove1 cw (wn_reads r)) \<subseteq> set (wn_reads r)" by (rule set_remove1_subset)
  with assms(2) show ?thesis by (auto simp: forgets(1) waits_ok_def)
next
  case works
  then show ?thesis using daemon_inv [OF assms(2)] by simp
next
  case arms
  show ?thesis unfolding arms(1) by (rule waits_ok_moves(1) [OF assms(2) arm_moves [OF arms(2)]])
next
  case gives_up
  show ?thesis unfolding gives_up(1) by (rule waits_ok_moves(1) [OF assms(2) claim_moves [OF gives_up(2)]])
next
  case hears
  show ?thesis unfolding hears(1) by (rule waits_ok_moves(1) [OF assms(2) wait_record_moves [OF hears(2)]])
next
  case fans_out
  show ?thesis unfolding fans_out(1) by (rule waits_ok_moves(1) [OF assms(2) fanout_moves [OF fans_out(2)]])
next
  case expires
  show ?thesis unfolding expires(1) by (rule waits_ok_moves(1) [OF assms(2) wait_expire_moves [OF expires(2)]])
next
  case defers
  show ?thesis unfolding defers(1) by (rule waits_ok_moves(1) [OF assms(2) defer_moves])
next
  case collects
  show ?thesis unfolding collects(1) by (rule waits_ok_moves(1) [OF assms(2) collect_moves])
qed

lemma waits_ok_run:
  assumes "wait_step\<^sup>*\<^sup>* (begun now db) r" "blank_waits db"
  shows "waits_ok r"
  using assms(1)
proof (induction rule: rtranclp_induct)
  case base
  show ?case using assms(2)
    by (simp add: begun_def started_def blank_waits_def waits_ok_def wait_inv_def prompt_def woken_once_def reads_counted_def fallbacks_of_def)
qed (rule waits_ok_step)

definition heard :: "int \<Rightarrow> wait \<Rightarrow> wait \<Rightarrow> bool" where
  "heard n w w' \<longleftrightarrow> wt_id w' = wt_id w \<and> wt_signals w' = wt_signals w \<and> (n < wt_signals w \<longrightarrow> signalled w \<longrightarrow> signalled w' \<or> \<not> open_wait w')"

lemma heard_refl [simp]: "heard n w w" by (simp add: heard_def)

lemma heard_map: "(\<And>w. heard n w (f w)) \<Longrightarrow> list_all2 (heard n) ws (map f ws)"
  by (simp add: list_all2_map2 list_all2_same)

lemma stop_wait_waits: "wd_waits (stop_wait now task st why db) = wd_waits (cancel_waits now task db)"
  by (simp add: stop_wait_def retire_def transition_sql_def split: option.splits)

lemma finish_hears:
  assumes "finish_wait env now pb prepared db = Inr (woken, db')"
  shows "list_all2 (heard (wt_signals (wv_row (pb_owner pb)))) (wd_waits db) (wd_waits db')"
  using assms
proof (cases rule: finish_outcomes)
  case same
  then show ?thesis by (simp add: list_all2_same)
next
  case stops
  then show ?thesis
    by (auto simp: stop_wait_waits cancel_waits_def update_waits_def intro!: heard_map simp: heard_def signalled_def open_wait_def)
next
  case keeps
  then show ?thesis
    by (auto simp: keep_waiting_def update_waits_def intro!: heard_map simp: heard_def signalled_def updated_def)
next
  case wakes
  then show ?thesis
    by (auto simp: update_waits_def intro!: heard_map simp: heard_def signalled_def open_wait_def consumed_def)
qed

section \<open>What a run of waits guarantees\<close>

text \<open>C16: The waits and the publications of the daemon do not disturb each other: a run of both, of its arms, claims,
  wakes, fan-outs and expiries with everything the publishing side does in between, is a run of the
  publications alone, so whatever holds of every such run, a publication pushed once among it, holds here.\<close>

theorem waits_refine_the_publications:
  assumes "wait_step\<^sup>*\<^sup>* (begun now db) r" "blank_waits db"
  shows "pub_step\<^sup>*\<^sup>* (started (wd_pub db)) (wn_rest r) \<and> run_db (wn_rest r) = wd_pub (wn_db r)"
  using assms(1)
proof (induction rule: rtranclp_induct)
  case base
  show ?case by (simp add: begun_def started_def)
next
  case (step r r')
  have moved: "pub_step (wn_rest r) (wn_rest (with_tables r db'))" if "moves (wn_clock r) (wn_db r) db'" for db'
  proof -
    have "db_step (run_db (wn_rest r)) (wd_pub db')"
      using step.IH db_step.others [OF tasks_kept_other [OF moves_tasks [OF that]]] by simp
    then show ?thesis by (simp add: with_tables_def pub_step.works)
  qed
  from step(2) have "(\<exists>db'. moves (wn_clock r) (wn_db r) db' \<and> wn_rest r' = wn_rest (with_tables r db') \<and> wn_db r' = db')
      \<or> (wn_rest r' = wn_rest r \<and> wn_db r' = wn_db r) \<or> (pub_step (wn_rest r) (wn_rest r') \<and> wd_pub (wn_db r') = run_db (wn_rest r'))"
    by cases (auto simp: with_tables_def dest: arm_moves claim_moves finish_moves wait_record_moves fanout_moves wait_expire_moves
      intro: defer_moves collect_moves)
  with step.IH moved show ?case by (auto intro: rtranclp.rtrancl_into_rtrancl)
qed

text \<open>C11: A generation of a task is woken once.  However the sweeps, signals, stops and retries interleave, of the
  waits a task ever armed at most one was consumed in each generation, and a consumed one is behind the task.\<close>

theorem a_generation_is_woken_once:
  assumes "wait_step\<^sup>*\<^sup>* (begun now db) r" "blank_waits db" "w \<in> set (wd_waits (wn_db r))" "wt_consumed w = Some (at_instant, i)"
  shows "length (filter (\<lambda>x. wt_task x = wt_task w \<and> wt_task_generation x = wt_task_generation w \<and> wt_consumed x \<noteq> None) (wd_waits (wn_db r))) = 1
    \<and> (\<exists>t. pd_tasks (wd_pub (wn_db r)) (wt_task w) = Some t \<and> wt_task_generation w < t_generation t)"
proof
  have inv: "wait_inv (wn_db r)" using waits_ok_run [OF assms(1,2)] by (simp add: waits_ok_def)
  let ?p = "\<lambda>x. wt_task x = wt_task w \<and> wt_task_generation x = wt_task_generation w \<and> wt_consumed x \<noteq> None"
  have "distinct (filter ?p (wd_waits (wn_db r)))" using inv by (simp add: wait_inv_def distinct_map)
  moreover have "set (filter ?p (wd_waits (wn_db r))) = {w}" using inv assms(3,4) by (auto simp: wait_inv_def woken_once_def)
  ultimately show "length (filter ?p (wd_waits (wn_db r))) = 1" using distinct_card [of "filter ?p (wd_waits (wn_db r))"] by simp
  show "\<exists>t. pd_tasks (wd_pub (wn_db r)) (wt_task w) = Some t \<and> wt_task_generation w < t_generation t"
    using inv assms(3,4) by (auto simp: wait_inv_def wait_ok_def)
qed

text \<open>C15: Reading without being told is rationed over the task's whole life: the fallback reads of all the waits it
  ever armed add up to what the task was charged, and never exceed its limit.\<close>

theorem fallback_reads_are_rationed:
  assumes "wait_step\<^sup>*\<^sup>* (begun now db) r" "blank_waits db" "c \<in> set (wd_columns (wn_db r))"
  shows "tc_used_fallback c = sum_list (map wt_fallbacks (filter (\<lambda>w. wt_task w = tc_task c) (wd_waits (wn_db r))))
    \<and> tc_used_fallback c \<le> tc_max_fallback c"
proof -
  have "reads_counted (wd_waits (wn_db r)) c" using waits_ok_run [OF assms(1,2)] assms(3) by (simp add: waits_ok_def wait_inv_def)
  then show ?thesis unfolding reads_counted_def fallbacks_of_def .
qed

text \<open>C12: No signal is lost.  Whatever came between a completion's signal and now, a wait that is open, was signalled
  since it was last observed and whose task still waits is due as soon as its cooldown and any read's claim
  are over, and its read is not charged to the fallback budget.\<close>

theorem a_signalled_wait_is_read:
  assumes "wait_step\<^sup>*\<^sup>* (begun now0 db) r" "blank_waits db" "w \<in> set (wd_waits (wn_db r))" "open_wait w" "signalled w"
    "wn_clock r \<le> now" "wt_cooldown w \<le> now" "\<And>u until. wt_claim w = Some (u, until) \<Longrightarrow> until \<le> now"
    "pd_tasks (wd_pub (wn_db r)) (wt_task w) = Some t" "columns_of (wn_db r) (wt_task w) = Some c"
    "t_status t = task_state_as_str TsWaiting" "t_generation t = wt_task_generation w" "t_stop_generation t = wt_stop_generation w"
  shows "read_now now (wn_db r) w \<and> \<not> fallback w"
proof -
  have "due_ok (wn_clock r) w" using waits_ok_run [OF assms(1,2)] assms(3) by (simp add: waits_ok_def prompt_def)
  then have "wt_due_at w \<le> now" using assms(4-8) by (cases "wt_claim w") (auto simp: due_ok_def max_def split: if_splits)
  with assms(4,5,7-13) show ?thesis by (auto simp: read_now_def fallback_def split: option.splits)
qed

text \<open>C14: A signal that arrives while its wait is being read is not consumed by that read: whatever the read found, a
  wait still open after it is still signalled.\<close>

theorem a_read_keeps_newer_signals:
  assumes "finish_wait env now pb prepared db = Inr (woken, db')" "w \<in> set (wd_waits db)"
    "wt_signals (wv_row (pb_owner pb)) < wt_signals w" "signalled w"
  shows "\<exists>w' \<in> set (wd_waits db'). wt_id w' = wt_id w \<and> wt_signals w' = wt_signals w \<and> (signalled w' \<or> \<not> open_wait w')"
proof -
  have "\<exists>w' \<in> set (wd_waits db'). heard (wt_signals (wv_row (pb_owner pb))) w w'"
    using finish_hears [OF assms(1)] assms(2) by (induction rule: list_all2_induct) auto
  with assms(3,4) show ?thesis by (auto simp: heard_def)
qed

section \<open>A wake\<close>

lemma wake_of_asked:
  assumes "wake_of v = Inr a"
  shows "ask_producer a = TaskContinuation" "ask_key a = Repeated (continuation_key (wt_task (wv_row v)) (wt_task_generation (wv_row v) + 1))"
  using assms by (auto simp: wake_of_def Let_def res_bind_Inr dest!: guard_id_text split: if_splits)

lemma prepared_asked:
  assumes "prepare_wake env pb k = (Inr (Some q), k')"
  shows "ask_producer (prep_asked q) = TaskContinuation"
    "ask_key (prep_asked q) = Repeated (continuation_key (wt_task (wv_row (pb_owner pb))) (wt_task_generation (wv_row (pb_owner pb)) + 1))"
proof -
  from assms obtain a where a: "wake_of (pb_owner pb) = Inr a" "prep_asked q = a"
    by (auto simp: prepare_wake_def prepare_admission_def split: sum.splits prod.splits if_splits)
  from wake_of_asked [OF a(1)] show "ask_producer (prep_asked q) = TaskContinuation"
    "ask_key (prep_asked q) = Repeated (continuation_key (wt_task (wv_row (pb_owner pb))) (wt_task_generation (wv_row (pb_owner pb)) + 1))"
    by (simp_all add: a(2))
qed

lemma staged_row:
  assumes "stage env q st = (Inr a, st')"
  shows "\<exists>row \<in> set (ledger_rows (in_db st')). ad_id row = ad_id (aa_stored a)
    \<and> keyed (producer_as_str (ask_producer (prep_asked q))) (key_of (ask_key (prep_asked q)) (prep_row_id q)) row"
proof -
  let ?p = "producer_as_str (ask_producer (prep_asked q))" and ?k = "key_of (ask_key (prep_asked q)) (prep_row_id q)"
  from assms obtain l where l: "insert_on (env_faults env) (env_budgets env) (in_db st) (as_str (prep_row_id q)) (prep_asked q) ?k
      (payload_digest (env_sha env) (prep_asked q)) (prep_estimate q) (env_now env) = Inr (in_db st', l)" "aa_stored a = la_row l"
    by (auto simp: stage_def split: sum.splits prod.splits)
  from insert_on_Inr [OF l(1)] show ?thesis
  proof (elim disjE exE conjE)
    fix r
    assume r: "repeated_sql (in_db st) ?p ?k = Some r" "in_db st' = (in_db st)\<lparr>ledger_rows := map (touch ?p ?k (env_now env)) (ledger_rows (in_db st))\<rparr>"
      "l = \<lparr>la_row = r\<lparr>ad_updated_at := env_now env\<rparr>, la_inserted = False\<rparr>"
    from repeated_sql_Some [OF r(1)] show ?thesis
      by (intro bexI [of _ "touch ?p ?k (env_now env) r"]) (auto simp: r(2,3) l(2) keyed_def)
  qed (auto simp: l(2) keyed_def)
qed

definition same_admission_key :: "Intake.admission_row \<Rightarrow> Intake.admission_row \<Rightarrow> bool" where
  "same_admission_key r r' \<longleftrightarrow> ad_id r' = ad_id r \<and> ad_producer r' = ad_producer r \<and> ad_key r' = ad_key r"

lemma same_key_refl [simp]: "same_admission_key r r" by (simp add: same_admission_key_def)

lemma same_key_trans: "same_admission_key a b \<Longrightarrow> same_admission_key b c \<Longrightarrow> same_admission_key a c"
  by (simp add: same_admission_key_def)

abbreviation rows_of :: "'k wait_db \<Rightarrow> Intake.admission_row list" where "rows_of db \<equiv> ledger_rows (in_db (wd_intake db))"

lemma transition_rows [simp]: "rows_of (transition_sql now task st why db) = rows_of db"
  by (simp add: transition_sql_def over_ledger_def move_head_def split: option.splits)

lemma retire_rows: "list_all2 same_admission_key (rows_of db) (rows_of (retire now task db))"
  by (auto simp: retire_def over_ledger_def list_all2_map2 list_all2_same same_admission_key_def split: option.splits)

lemma bind_rows: "list_all2 same_admission_key (rows_of db) (rows_of (bind_admission task i db))"
  by (auto simp: bind_admission_def over_ledger_def list_all2_map2 list_all2_same same_admission_key_def split: option.splits)

lemma woken_rows: "list_all2 same_admission_key (ledger_rows (in_db st)) (rows_of (woken_tables now task i st db))"
proof -
  let ?d = "transition_sql now task TsReady None (db\<lparr>wd_intake := st\<rparr>)"
  have "list_all2 same_admission_key (rows_of ?d) (rows_of (bind_admission task i (retire now task ?d)))"
    by (rule list_all2_trans [OF same_key_trans retire_rows bind_rows])
  then show ?thesis by (simp add: woken_tables_def)
qed

text \<open>C10: A wake is for what the wait awaited.  Whatever happened since its read was claimed, a read that wakes a
  task found the pull request open at the very head the wait names and a check completed there that the
  wait had not seen, while the task still waited in the wait's generation, within its limits and under this
  read's claim; it leaves the task ready in the next generation, the wait consumed, and one continuation in
  the ledger under the key of that generation.\<close>

theorem a_wake_is_for_the_awaited_head:
  assumes "wait_step\<^sup>*\<^sup>* (begun now0 db) r" "blank_waits db" "cw \<in> set (wn_reads r)"
    "prepare_wake env0 (probe_of cw (Inr s)) k = (Inr q, k')"
    "finish_wait env (wn_clock r) (probe_of cw (Inr s)) q (wn_db r) = Inr (True, db')"
  shows "\<exists>w t p until t' w' row. w \<in> set (wd_waits (wn_db r)) \<and> same_wait (wv_row (cw_owner cw)) w \<and> open_wait w
    \<and> wt_claim w = Some (cw_claim cw, until) \<and> wn_clock r < until
    \<and> sp_open s \<and> sp_head s = wt_head w \<and> list_ex (fresh_check (wt_checks w)) (sp_checks s)
    \<and> pd_tasks (wd_pub (wn_db r)) (wt_task w) = Some t \<and> t_status t = task_state_as_str TsWaiting
    \<and> t_generation t = wt_task_generation w \<and> within_limits (wn_clock r) t \<and> pt_target t = ExistingPr p \<and> pr_head p = wt_head w
    \<and> pd_tasks (wd_pub db') (wt_task w) = Some t' \<and> t_status t' = task_state_as_str TsReady \<and> t_generation t' = t_generation t + 1
    \<and> w' \<in> set (wd_waits db') \<and> same_wait w w' \<and> wt_consumed w' = Some (wn_clock r, ad_id row)
    \<and> row \<in> set (ledger_rows (in_db (wd_intake db')))
    \<and> keyed (producer_as_str TaskContinuation) (continuation_key (wt_task w) (t_generation t')) row"
  using assms(5)
proof (cases rule: finish_cases)
  case (wakes v s' q' a st)
  let ?w = "wv_row v" and ?now = "wn_clock r" and ?pb = "probe_of cw (Inr s)"
  have pb: "pb_owner ?pb = cw_owner cw" "pb_claim ?pb = cw_claim cw" "pb_result ?pb = Inr s" by (simp_all add: probe_of_def)
  have ok: "waits_ok r" using waits_ok_run [OF assms(1,2)] .
  from wakes(1-5) show ?thesis
  proof (rule wake_context)
    fix t p until
    assume w: "?w \<in> set (wd_waits (wn_db r))" "wt_id ?w = wt_id (wv_row (pb_owner ?pb))" "claimed_by (wt_id (wv_row (pb_owner ?pb))) (pb_claim ?pb) ?w"
      "wt_claim ?w = Some (pb_claim ?pb, until)" "?now < until" "pd_tasks (wd_pub (wn_db r)) (wt_task ?w) = Some t"
      "t_status t = task_state_as_str TsWaiting" "t_generation t = wt_task_generation ?w" "within_limits ?now t"
      "pt_target t = ExistingPr p" "pr_head p = wt_head ?w"
    from ok assms(3) obtain w0 where w0: "w0 \<in> set (wd_waits (wn_db r))" "same_wait (wv_row (cw_owner cw)) w0"
      by (auto simp: waits_ok_def read_ok_def)
    have "w0 = ?w" by (rule same_id [OF _ w0(1) w(1)]) (use ok w0(2) w(2) pb(1) in \<open>simp_all add: waits_ok_def wait_inv_def same_wait_def\<close>)
    with w0 have same: "same_wait (wv_row (cw_owner cw)) ?w" by simp
    have s: "s' = s" using wakes(6) pb(3) by simp
    note asked = prepared_asked [OF assms(4) [unfolded wakes(8)]]
    let ?db1 = "woken_tables ?now (wt_task ?w) (ad_id (aa_stored a)) st (wn_db r)"
    have "\<exists>row \<in> set (rows_of ?db1). ad_id row = ad_id (aa_stored a)
        \<and> keyed (producer_as_str TaskContinuation) (continuation_key (wt_task ?w) (t_generation t + 1)) row"
    proof -
      from staged_row [OF wakes(9)] obtain row0 where "row0 \<in> set (ledger_rows (in_db st))" "ad_id row0 = ad_id (aa_stored a)"
          "keyed (producer_as_str TaskContinuation) (continuation_key (wt_task ?w) (t_generation t + 1)) row0"
        using asked pb(1) same w(8) by (auto simp: key_of_def same_wait_def)
      moreover have "\<exists>row \<in> set (rows_of ?db1). same_admission_key row0 row"
        using woken_rows [of st ?now "wt_task ?w" "ad_id (aa_stored a)" "wn_db r"] calculation(1) by (induction rule: list_all2_induct) auto
      ultimately show ?thesis by (auto simp: same_admission_key_def keyed_def)
    qed
    then obtain row where row: "row \<in> set (rows_of ?db1)" "ad_id row = ad_id (aa_stored a)"
        "keyed (producer_as_str TaskContinuation) (continuation_key (wt_task ?w) (t_generation t + 1)) row" by blast
    let ?w' = "consumed ?now (ad_id (aa_stored a)) (sp_checks s) (we_digest env s) ?w"
    have db': "db' = update_waits (claimed_by (wt_id ?w) (cw_claim cw)) (consumed ?now (ad_id (aa_stored a)) (sp_checks s) (we_digest env s)) ?db1"
      using wakes(11) pb(2) s by simp
    have "claimed_by (wt_id ?w) (cw_claim cw) ?w" using w(2,3) pb by simp
    then have "?w' \<in> set (wd_waits db')" using w(1) by (simp add: db' update_waits_def)
    moreover have "pd_tasks (wd_pub db') (wt_task ?w) = Some (moved ?now TsReady t)"
      using woken_tables_task [OF w(6)] by (simp add: db' update_waits_def)
    moreover have "row \<in> set (rows_of db')" using row(1) by (simp add: db' update_waits_def)
    moreover have "open_wait ?w" using w(3) by (simp add: claimed_by_def)
    moreover have "sp_open s" "sp_head s = wt_head ?w" "list_ex (fresh_check (wt_checks ?w)) (sp_checks s)"
      using wakes(7) s by (simp_all add: actionable_def)
    ultimately show ?thesis using w row same pb(2)
      by (intro exI [of _ ?w] exI [of _ t] exI [of _ p] exI [of _ until] exI [of _ "moved ?now TsReady t"] exI [of _ ?w'] exI [of _ row]) simp
  qed
qed simp

section \<open>Fan-out\<close>

definition cursor :: "fanout \<Rightarrow> string" where "cursor o' = (case fo_after o' of None \<Rightarrow> zero_uuid | Some a \<Rightarrow> a)"

lemma signal_fields [simp]:
  "wt_id (signal now c w) = wt_id w" "on_head d (signal now c w) = on_head d w" "awaits d (signal now c w) = awaits d w"
  by (simp_all add: signal_def on_head_def awaits_def open_wait_def split: option.splits)

lemma awaits_on_head: "awaits c w \<Longrightarrow> on_head c w" by (simp add: awaits_def)

lemma next_target_None: "next_target c after ws = None \<longleftrightarrow> filter (\<lambda>w. on_head c w \<and> (case after of None \<Rightarrow> zero_uuid | Some a \<Rightarrow> a) < wt_id w) ws = []"
  unfolding next_target_def by (auto split: list.splits) (metis length_sort length_0_conv list.distinct(1))+

lemma next_target_Some:
  assumes "next_target c after ws = Some w"
  shows "w \<in> set ws" "on_head c w" "(case after of None \<Rightarrow> zero_uuid | Some a \<Rightarrow> a) < wt_id w"
    "\<And>x. x \<in> set ws \<Longrightarrow> on_head c x \<Longrightarrow> (case after of None \<Rightarrow> zero_uuid | Some a \<Rightarrow> a) < wt_id x \<Longrightarrow> wt_id w \<le> wt_id x"
proof -
  let ?xs = "filter (\<lambda>w. on_head c w \<and> (case after of None \<Rightarrow> zero_uuid | Some a \<Rightarrow> a) < wt_id w) ws"
  from assms obtain rest where sorted: "sort_key wt_id ?xs = w # rest" by (auto simp: next_target_def split: list.splits)
  then have members: "set ?xs = set (w # rest)" by (metis set_sort)
  then have "w \<in> set ?xs" by simp
  then show "w \<in> set ws" "on_head c w" "(case after of None \<Rightarrow> zero_uuid | Some a \<Rightarrow> a) < wt_id w" by auto
  fix x
  assume "x \<in> set ws" "on_head c x" "(case after of None \<Rightarrow> zero_uuid | Some a \<Rightarrow> a) < wt_id x"
  then have "x \<in> set (w # rest)" using members by auto
  moreover have "sorted (map wt_id (w # rest))" by (metis sorted sorted_sort_key)
  ultimately show "wt_id w \<le> wt_id x" by auto
qed

lemma find_distinct:
  "distinct (map f xs) \<Longrightarrow> x \<in> set xs \<Longrightarrow> p x \<Longrightarrow> f x = i \<Longrightarrow> List.find (\<lambda>y. f y = i \<and> p y) xs = Some x"
  by (induction xs) (auto simp: image_iff)

lemma fewer_pending:
  assumes "w \<in> set ws" "p w" "\<not> q w" "\<And>x. q x \<Longrightarrow> p x"
  shows "length (filter q ws) < length (filter p ws)"
  using assms
proof (induction ws)
  case (Cons x ws)
  have "length (filter q ws) \<le> length (filter p ws)" by (rule filter_fewer) (rule Cons.prems(4))
  with Cons show ?case by auto
qed simp

lemma length_filter_map: "(\<And>x. p (h x) = p x) \<Longrightarrow> length (filter p (map h xs)) = length (filter p xs)"
  by (induction xs) simp_all

lemma update_fanout_tables [simp]:
  "wd_waits (update_fanout i f db) = wd_waits db" "wd_completions (update_fanout i f db) = wd_completions db"
  "wd_fanout (update_fanout i f db) = map (\<lambda>o'. if fo_completion o' = i then f o' else o') (wd_fanout db)"
  by (simp_all add: update_fanout_def)

definition examined :: "fanout \<Rightarrow> instant \<Rightarrow> completion \<Rightarrow> wait \<Rightarrow> 'k wait_db \<Rightarrow> 'k wait_db" where
  "examined o' now c w db = update_fanout (fo_completion o') (\<lambda>o'. o'\<lparr>fo_after := Some (wt_id w), fo_next_at := now\<rparr>)
     (update_waits (\<lambda>x. wt_id x = wt_id w \<and> awaits c x) (signal now c) db)"

lemma fanout_one_step:
  assumes "distinct (map fo_completion (wd_fanout db))" "o' \<in> set (wd_fanout db)" "fo_finished o' = None" "fo_next_at o' \<le> now"
    "List.find (\<lambda>c. cp_id c = fo_completion o') (wd_completions db) = Some c"
  shows "fanout_one (\<lambda>_. False) now (fo_completion o') db = (case next_target c (fo_after o') (wd_waits db) of
      None \<Rightarrow> (Some (True, 0), update_fanout (fo_completion o') (\<lambda>o'. o'\<lparr>fo_finished := Some now, fo_next_at := now\<rparr>) db)
    | Some w \<Rightarrow> (Some (False, if awaits c w then 1 else 0), examined o' now c w db))"
  using find_distinct [of fo_completion "wd_fanout db" o' "\<lambda>o'. fo_finished o' = None \<and> fo_next_at o' \<le> now \<and> \<not> False" "fo_completion o'"] assms
  by (simp add: fanout_one_def examined_def split: option.splits)

text \<open>The waits past a cursor, signalled.\<close>

definition reached :: "instant \<Rightarrow> completion \<Rightarrow> string \<Rightarrow> wait \<Rightarrow> wait" where
  "reached now c a w = (if awaits c w \<and> a < wt_id w then signal now c w else w)"

lemma reached_step:
  assumes "distinct (map wt_id ws)" "w \<in> set ws" "a < wt_id w" "\<And>x. x \<in> set ws \<Longrightarrow> on_head c x \<Longrightarrow> a < wt_id x \<Longrightarrow> wt_id w \<le> wt_id x"
  shows "map (reached now c (wt_id w)) (map (\<lambda>x. if wt_id x = wt_id w \<and> awaits c x then signal now c x else x) ws) = map (reached now c a) ws"
proof -
  have "reached now c (wt_id w) (if wt_id x = wt_id w \<and> awaits c x then signal now c x else x) = reached now c a x" if "x \<in> set ws" for x
  proof (cases "awaits c x \<and> a < wt_id x")
    case True
    with assms(4) [OF that] have "wt_id w \<le> wt_id x" by (simp add: awaits_on_head)
    then show ?thesis using True assms(3) by (cases "wt_id x = wt_id w") (simp_all add: reached_def)
  next
    case False
    with assms(3) show ?thesis by (auto simp: reached_def)
  qed
  then show ?thesis by simp
qed

text \<open>C13: A completion reaches everyone it concerns, once.  From wherever its cursor stands, a pass with room for the
  waits past it, in the order of their identifiers and one per transaction, leaves each of them that awaits
  the completed check signalled exactly once, no other wait changed, and the fan-out finished.\<close>

theorem a_completion_signals_each_wait_once:
  assumes "distinct (map wt_id (wd_waits db))" "distinct (map fo_completion (wd_fanout db))" "o' \<in> set (wd_fanout db)"
    "fo_finished o' = None" "fo_next_at o' \<le> now" "List.find (\<lambda>c. cp_id c = fo_completion o') (wd_completions db) = Some c"
    "length (filter (\<lambda>w. on_head c w \<and> cursor o' < wt_id w) (wd_waits db)) < n"
  shows "wd_waits (fanout_pass n (\<lambda>_. False) (\<lambda>_. False) now [fo_completion o'] db)
      = map (\<lambda>w. if awaits c w \<and> cursor o' < wt_id w then signal now c w else w) (wd_waits db)
    \<and> (\<exists>f \<in> set (wd_fanout (fanout_pass n (\<lambda>_. False) (\<lambda>_. False) now [fo_completion o'] db)).
          fo_completion f = fo_completion o' \<and> fo_finished f = Some now)"
  unfolding reached_def [symmetric]
  using assms
proof (induction n arbitrary: db o')
  case (Suc n)
  note one = fanout_one_step [OF Suc.prems(2-6)]
  show ?case
  proof (cases "next_target c (fo_after o') (wd_waits db)")
    case None
    then have none: "filter (\<lambda>w. on_head c w \<and> cursor o' < wt_id w) (wd_waits db) = []"
      by (simp add: next_target_None cursor_def)
    have "map (reached now c (cursor o')) (wd_waits db) = wd_waits db"
      using none by (intro map_idI) (auto simp: reached_def filter_empty_conv awaits_on_head)
    moreover have "fanout_pass n (\<lambda>_. False) (\<lambda>_. False) now [] d = d" for d :: "'a wait_db" by (cases n) simp_all
    ultimately show ?thesis using one None Suc.prems(3) by (auto intro!: bexI [of _ "o'\<lparr>fo_finished := Some now, fo_next_at := now\<rparr>"])
  next
    case (Some w)
    note next' = next_target_Some [OF Some, folded cursor_def]
    let ?db = "examined o' now c w db" and ?o = "o'\<lparr>fo_after := Some (wt_id w), fo_next_at := now\<rparr>"
    let ?h = "\<lambda>x. if wt_id x = wt_id w \<and> awaits c x then signal now c x else x"
    have ws: "wd_waits ?db = map ?h (wd_waits db)" by (simp add: examined_def update_waits_def)
    have fs: "wd_fanout ?db = map (\<lambda>x. if fo_completion x = fo_completion o' then x\<lparr>fo_after := Some (wt_id w), fo_next_at := now\<rparr> else x) (wd_fanout db)"
      by (simp add: examined_def update_waits_def)
    have room: "length (filter (\<lambda>x. on_head c x \<and> wt_id w < wt_id x) (wd_waits ?db)) < n"
    proof -
      have "length (filter (\<lambda>x. on_head c x \<and> wt_id w < wt_id x) (wd_waits ?db))
          = length (filter (\<lambda>x. on_head c x \<and> wt_id w < wt_id x) (wd_waits db))"
        unfolding ws by (rule length_filter_map) simp
      also have "\<dots> < length (filter (\<lambda>x. on_head c x \<and> cursor o' < wt_id x) (wd_waits db))"
        by (rule fewer_pending [of w]) (use next' in auto)
      finally show ?thesis using Suc.prems(7) by simp
    qed
    have ids: "map wt_id (wd_waits ?db) = map wt_id (wd_waits db)" unfolding ws by (rule map_ids) simp
    have "distinct (map wt_id (wd_waits ?db))" unfolding ids by (rule Suc.prems(1))
    moreover have "distinct (map fo_completion (wd_fanout ?db))"
      unfolding fs using Suc.prems(2) by (simp add: comp_def if_distrib cong: if_cong)
    moreover have "?o \<in> set (wd_fanout ?db)" unfolding fs using Suc.prems(3) by (auto intro!: image_eqI [of _ _ o'])
    moreover have "List.find (\<lambda>c. cp_id c = fo_completion ?o) (wd_completions ?db) = Some c"
      using Suc.prems(6) by (simp add: examined_def update_waits_def)
    ultimately have "wd_waits (fanout_pass n (\<lambda>_. False) (\<lambda>_. False) now [fo_completion ?o] ?db) = map (reached now c (cursor ?o)) (wd_waits ?db)
        \<and> (\<exists>f \<in> set (wd_fanout (fanout_pass n (\<lambda>_. False) (\<lambda>_. False) now [fo_completion ?o] ?db)). fo_completion f = fo_completion ?o \<and> fo_finished f = Some now)"
      using Suc.prems(4) room by (intro Suc.IH) (simp_all add: cursor_def)
    moreover have "map (reached now c (wt_id w)) (map ?h (wd_waits db)) = map (reached now c (cursor o')) (wd_waits db)"
      by (rule reached_step [OF Suc.prems(1) next'(1,3,4)])
    ultimately show ?thesis using one Some by (simp add: ws cursor_def)
  qed
qed simp

section \<open>Which runs count\<close>

definition latest_of :: "execution list \<Rightarrow> (u64 \<rightharpoonup> execution) \<Rightarrow> bool" where
  "latest_of rs m \<longleftrightarrow> (\<forall>w. case m w of None \<Rightarrow> \<forall>r \<in> set rs. ex_workflow r \<noteq> w
     | Some e \<Rightarrow> e \<in> set rs \<and> ex_workflow e = w \<and> (\<forall>r \<in> set rs. ex_workflow r = w \<longrightarrow> \<not> run_after r e))"

lemma run_after_key: "run_after r e \<longleftrightarrow> (ex_number e, ex_attempt e, ex_id e) < (ex_number r, ex_attempt r, ex_id r)"
  by (auto simp: run_after_def order_less_le)

lemma run_after_order: "\<not> run_after a a" "run_after a b \<Longrightarrow> \<not> run_after c b \<Longrightarrow> \<not> run_after c a"
  unfolding run_after_key using less_trans by blast+

lemma latest_of_later:
  assumes "latest_of seen m"
  shows "latest_of (seen @ [r]) (case m (ex_workflow r) of None \<Rightarrow> m(ex_workflow r \<mapsto> r)
       | Some e \<Rightarrow> if run_after r e then m(ex_workflow r \<mapsto> r) else m)" (is "latest_of _ ?m")
  unfolding latest_of_def
proof
  fix w
  have old: "case m w of None \<Rightarrow> \<forall>r \<in> set seen. ex_workflow r \<noteq> w
     | Some e \<Rightarrow> e \<in> set seen \<and> ex_workflow e = w \<and> (\<forall>r \<in> set seen. ex_workflow r = w \<longrightarrow> \<not> run_after r e)"
    using assms by (simp add: latest_of_def)
  show "case ?m w of None \<Rightarrow> \<forall>x \<in> set (seen @ [r]). ex_workflow x \<noteq> w
     | Some e \<Rightarrow> e \<in> set (seen @ [r]) \<and> ex_workflow e = w \<and> (\<forall>x \<in> set (seen @ [r]). ex_workflow x = w \<longrightarrow> \<not> run_after x e)"
  proof (cases "ex_workflow r = w")
    case True
    show ?thesis
    proof (cases "m w")
      case None
      with old True show ?thesis by (simp add: run_after_order)
    next
      case (Some e)
      with old True run_after_order(2) [of r e] show ?thesis by (auto simp: run_after_order(1))
    qed
  next
    case False
    then have "?m w = m w" by (simp split: option.split)
    with old False show ?thesis by (auto split: option.splits)
  qed
qed

lemma latest_runs_from:
  assumes "latest_runs head rs m = Inr m'" "latest_of seen m"
  shows "latest_of (seen @ rs) m' \<and> list_all (\<lambda>r. ex_head r = head) rs"
  using assms
proof (induction rs arbitrary: seen m)
  case (Cons r rs)
  let ?m = "case m (ex_workflow r) of None \<Rightarrow> m(ex_workflow r \<mapsto> r) | Some e \<Rightarrow> if run_after r e then m(ex_workflow r \<mapsto> r) else m"
  from Cons.prems(1) have next': "latest_runs head rs ?m = Inr m'" "ex_head r = head"
    by (simp_all add: invalid_target_def split: if_splits)
  from Cons.IH [OF next'(1) latest_of_later [OF Cons.prems(2)]] next'(2) show ?case by simp
qed simp

text \<open>C17: The checks a wait is judged by are those of the latest runs.  Evidence that carries checks was read at the
  very head the task is bound to while the pull request was open, from a complete list of at most a hundred
  runs of that head, and has one check per bound workflow, in their order, taken from a run of that workflow
  no other of it follows by number, attempt or identifier, or pending where there is none.\<close>

theorem checks_are_of_the_latest_runs:
  assumes "pr_status runs ss p = Inr s" "sp_checks s \<noteq> []"
  shows "\<exists>owner name total listed latest. owner_name (pr_repository p) = Inr (owner, name)
    \<and> runs owner name (pr_head p) = Inr (total, listed) \<and> int (length listed) = uint total \<and> uint total \<le> 100
    \<and> sp_open s \<and> sp_head s = pr_head p \<and> list_all (\<lambda>r. ex_head r = pr_head p) listed
    \<and> sp_checks s = map (check_of latest) (pr_workflows p) \<and> latest_of listed latest"
proof -
  from assms obtain owner name total listed latest where o': "owner_name (pr_repository p) = Inr (owner, name)"
      "runs owner name (pr_head p) = Inr (total, listed)" "\<not> (100 < uint total \<or> int (length listed) \<noteq> uint total)"
      "latest_runs (pr_head p) listed Map.empty = Inr latest"
      "s = \<lparr>sp_open = True, sp_head = pr_head p, sp_checks = map (check_of latest) (pr_workflows p)\<rparr>"
    unfolding pr_status_def by (auto simp: res_bind_Inr Let_def invalid_target_def split: if_splits)
  from latest_runs_from [OF o'(4), of "[]"] have "latest_of listed latest" "list_all (\<lambda>r. ex_head r = pr_head p) listed"
    by (simp_all add: latest_of_def)
  with o' show ?thesis by auto
qed

end
