(* ===== verification/WaitSamples.thy ===== *)
theory WaitSamples
  imports WaitLaws PublicationSamples
begin

text \<open>
  One task waiting on the checks of its pull request: its wait armed, claimed by a reader, signalled while the
  reader is away, and consumed by what the reader found; the witnesses of what waiting guarantees.
\<close>

section \<open>The tables\<close>

definition dock_wait :: uuid7 where "dock_wait = Uuid7 ''01890000-0000-7000-8000-000000000041''"
definition dock_claim :: uuid7 where "dock_claim = Uuid7 ''01890000-0000-7000-8000-000000000042''"
definition dock_source :: uuid7 where "dock_source = Uuid7 ''01890000-0000-7000-8000-000000000043''"
definition dock_next :: uuid7 where "dock_next = Uuid7 ''01890000-0000-7000-8000-000000000044''"

definition dock_task :: pub_task where "dock_task = shop_row\<lparr>t_status := ''waiting''\<rparr>"

definition dock_pub :: "unit pub_db" where "dock_pub = shop_0\<lparr>pd_tasks := [as_str shop_task \<mapsto> dock_task]\<rparr>"

definition dock_columns :: task_columns where
  "dock_columns = \<lparr>tc_task = as_str shop_task, tc_used_fallback = 0, tc_max_fallback = 2, tc_wait_sequence = None,
     tc_reason = None, tc_reply_provider = None, tc_reply_address = None, tc_source = as_str dock_source\<rparr>"

definition dock_check :: "u64 option \<Rightarrow> string \<Rightarrow> string option \<Rightarrow> check" where
  "dock_check run st done' = \<lparr>ck_workflow = 7, ck_run = run, ck_number = run, ck_attempt = map_option (\<lambda>_. 1) run,
     ck_status = st, ck_conclusion = done'\<rparr>"

definition dock_pending :: evidence where
  "dock_pending = \<lparr>sp_open = True, sp_head = ''h0'', sp_checks = [dock_check None ''pending'' None]\<rparr>"

definition dock_green :: evidence where
  "dock_green = \<lparr>sp_open = True, sp_head = ''h0'', sp_checks = [dock_check (Some 5) ''completed'' (Some ''success'')]\<rparr>"

definition dock_completion :: completion where
  "dock_completion = \<lparr>cp_id = ''c1'', cp_workspace = as_str shop_desk, cp_fleet = None, cp_installation = 12, cp_repository = 11,
     cp_head = ''h0'', cp_workflow = 7, cp_run = 5, cp_run_number = 5, cp_attempt = 1, cp_conclusion = ''success'', cp_digest = ''d'',
     cp_received_at = 6\<rparr>"

definition dock_fanout :: fanout where
  "dock_fanout = \<lparr>fo_completion = ''c1'', fo_after = None, fo_next_at = 6, fo_finished = None\<rparr>"

definition dock_intake :: intake_state where
  "dock_intake = \<lparr>in_db = \<lparr>ledger_rows = [], fleet_heads = [\<lparr>fh_id = as_str shop_fleet, fh_workspace = as_str shop_desk,
       fh_policy = Some policy_semantics\<rparr>], task_heads = [\<lparr>th_id = as_str shop_task, th_fleet = as_str shop_fleet,
       th_workspace = as_str shop_desk, th_generation = 1, th_terminal = False\<rparr>]\<rparr>, in_ceiling = ceiling_new\<rparr>"

definition dock_0 :: "unit wait_db" where
  "dock_0 = \<lparr>wd_pub = dock_pub, wd_columns = [dock_columns], wd_waits = [], wd_completions = [dock_completion],
     wd_fanout = [dock_fanout], wd_intake = dock_intake, wd_leased = (\<lambda>_. False)\<rparr>"

definition dock_env :: wait_env where
  "dock_env = \<lparr>we_digest = (\<lambda>_. ''d''), we_unavailable = (\<lambda>_. False), we_cooldown = (\<lambda>_. None), we_locked = (\<lambda>_. False),
     we_intake = \<lparr>env_sha = id, env_budgets = \<lparr>fleet_backlog = 3, deployment_backlog = 10\<rparr>, env_now = 5, env_now_ms = 5,
       env_row_id = Inr dock_next, env_backlog = Inr 0, env_gaps = (\<lambda>_ c. c), env_faults = \<lparr>at_acquire = None, at_begin = None, at_repeated = None,
         at_policy = None, at_budget = None, at_insert = None, at_commit = Committed, at_find = None\<rparr>\<rparr>,
     we_fault = (\<lambda>_. OnRemote)\<rparr>"

section \<open>The run\<close>

definition dock_row :: wait where
  "dock_row = \<lparr>wt_id = as_str dock_wait, wt_task = as_str shop_task, wt_fleet = as_str shop_fleet, wt_workspace = as_str shop_desk,
     wt_lease = as_str shop_lease, wt_task_generation = 1, wt_stop_generation = 0, wt_generation = 1, wt_installation = 12,
     wt_repository = 11, wt_number = 3, wt_head = ''h0'', wt_checks = sp_checks dock_pending, wt_digest = ''d'', wt_due_at = 6,
     wt_expires_at = 900000000000, wt_cooldown = 6, wt_fallbacks = 0, wt_initial_read = None, wt_signalled_at = None,
     wt_observed_at = None, wt_signals = 0, wt_observed = 0, wt_claim = None, wt_consumed = None, wt_cancelled = None\<rparr>"

definition dock_counted :: task_columns where "dock_counted = dock_columns\<lparr>tc_wait_sequence := Some 1\<rparr>"

definition dock_1 :: "unit wait_db" where "dock_1 = dock_0\<lparr>wd_columns := [dock_counted], wd_waits := [dock_row]\<rparr>"

definition dock_held :: wait where "dock_held = claim_row 6 (as_str dock_claim) 0 dock_row"
definition dock_2 :: "unit wait_db" where "dock_2 = dock_1\<lparr>wd_waits := [dock_held]\<rparr>"

definition dock_signalled :: wait where "dock_signalled = signal 6 dock_completion dock_held"

definition dock_3 :: "unit wait_db" where
  "dock_3 = dock_2\<lparr>wd_waits := [dock_signalled], wd_fanout := [dock_fanout\<lparr>fo_after := Some (as_str dock_wait), fo_next_at := 6\<rparr>]\<rparr>"

definition dock_view :: "wait \<Rightarrow> wait_view" where "dock_view w = view_of 6 w dock_task shop_pr dock_counted"

definition dock_candidate :: candidate where
  "dock_candidate = \<lparr>cd_id = as_str dock_wait, cd_task = as_str shop_task, cd_fleet = as_str shop_fleet, cd_workspace = as_str shop_desk\<rparr>"

definition dock_read :: claimed_wait where
  "dock_read = \<lparr>cw_owner = dock_view dock_row, cw_claim = as_str dock_claim,
     cw_permit = permit_for 6 (as_str shop_fleet) (as_str shop_desk) (dock_view dock_row) (projr (read_authority (dock_view dock_row) dock_1))\<rparr>"

lemmas dock_rows = dock_row_def dock_held_def dock_signalled_def claim_row_def signal_def dock_completion_def dock_pending_def dock_check_def
lemmas dock_tables = dock_0_def dock_1_def dock_2_def dock_3_def dock_pub_def dock_columns_def dock_counted_def dock_fanout_def

lemma dock_arms: "arm (\<lambda>_. ''d'') (Inr dock_wait) 6 (as_str shop_task) (as_str shop_lease) shop_pr dock_pending dock_0 = Inr ((), dock_1)"
  by (simp add: arm_def signed_target_def in_i64_def int_width shop_pr_def dock_tables dock_task_def shop_row_def columns_of_def
      update_columns_def dock_row_def wait_checks_def dock_pending_def i32_max_def)

lemma dock_ids: "guard_id (as_str shop_fleet) = Inr shop_fleet" "guard_id (as_str shop_desk) = Inr shop_desk"
  "guard_id (as_str shop_task) = Inr shop_task" "guard_id (as_str dock_source) = Inr dock_source"
  by code_simp+

lemma dock_scope: "lock_scope (as_str shop_fleet) (as_str shop_desk) dock_1 = Inr ()" "lock_scope (as_str shop_fleet) (as_str shop_desk) dock_3 = Inr ()"
  by (simp_all add: lock_scope_def dock_tables shop_0_def)

lemma dock_owner: "wait_owner 6 (\<lambda>_. False) (as_str dock_wait) dock_1 = Inr (Some (dock_view dock_row))"
  "wait_owner 6 (\<lambda>_. False) (as_str dock_wait) dock_3 = Inr (Some (dock_view dock_signalled))"
  by (simp_all add: wait_owner_def dock_tables dock_rows open_wait_def task_at_def dock_task_def shop_row_def columns_of_def dock_view_def)

lemma dock_authority: "\<not> isl (read_authority (dock_view dock_row) dock_1)" "\<not> isl (read_authority (dock_view dock_signalled) dock_3)"
  by code_simp+

lemma dock_current: "current (dock_view dock_row)" "current (dock_view dock_signalled)"
  by (simp_all add: current_def dock_view_def view_of_def dock_task_def dock_rows shop_pr_def shop_row_def)

lemma dock_limits: "wv_within_limits (dock_view w)" "wv_row (dock_view w) = w"
  by (simp_all add: dock_view_def view_of_def within_limits_def dock_task_def shop_row_def)

lemma right_answer: "\<not> isl r \<Longrightarrow> r = Inr (projr r)" by (cases r) simp_all

lemma dock_claims: "claim_wait (\<lambda>_. False) (\<lambda>_. False) (Inr dock_claim) 6 dock_candidate dock_1 = Inr (Some dock_read, dock_2)"
proof -
  have free: "wv_due (dock_view dock_row)" "\<not> wv_claim_valid (dock_view dock_row)" "\<not> fallback dock_row" "wt_id dock_row = as_str dock_wait"
    by (simp_all add: dock_view_def view_of_def dock_row_def fallback_def)
  have sql: "claim_sql 6 (as_str dock_wait) (as_str dock_claim) 0 dock_1 = dock_2"
    by (simp add: claim_sql_def update_waits_def dock_1_def dock_2_def dock_held_def dock_row_def)
  from right_answer [OF dock_authority(1)] obtain b where b: "read_authority (dock_view dock_row) dock_1 = Inr b" by blast
  show ?thesis
    by (simp add: claim_wait_def dock_candidate_def dock_ids dock_scope dock_owner claim_owned_def Let_def dock_current dock_limits free b sql dock_read_def)
qed

lemma dock_awaits: "awaits dock_completion dock_held" "on_head dock_completion dock_held" "zero_uuid < wt_id dock_held"
  by code_simp+

lemma dock_fans_out: "fanout_one (\<lambda>_. False) 6 ''c1'' dock_2 = (Some (False, 1), dock_3)"
proof -
  have "fanout_one (\<lambda>_. False) 6 (fo_completion dock_fanout) dock_2 = (Some (False, 1), examined dock_fanout 6 dock_completion dock_held dock_2)"
    by (subst fanout_one_step [of _ _ _ dock_completion])
      (use dock_awaits in \<open>simp_all add: dock_tables next_target_def dock_completion_def\<close>)
  moreover have "examined dock_fanout 6 dock_completion dock_held dock_2 = dock_3"
    using dock_awaits by (simp add: examined_def update_waits_def update_fanout_def dock_tables dock_signalled_def) (simp add: dock_rows)
  ultimately show ?thesis by (simp add: dock_fanout_def)
qed

section \<open>What the reader brings back\<close>

definition dock_probe :: probe where "dock_probe = probe_of dock_read (Inr dock_green)"

definition dock_asked :: asked where
  "dock_asked = \<lparr>ask_producer = TaskContinuation, ask_key = Repeated (continuation_key (as_str shop_task) 2),
     ask_fleet = as_str shop_fleet, ask_workspace = as_str shop_desk, ask_actor = ''task:'' @ as_str shop_task,
     ask_event_type = ContinuationEvent, ask_request = continuation_payload (as_str shop_task) 2, ask_reply = NoReply\<rparr>"

definition dock_prepared :: prepared_admission where
  "dock_prepared = \<lparr>prep_asked = dock_asked, prep_row_id = dock_next, prep_estimate = 0\<rparr>"

lemma dock_probe_facts: "wv_row (pb_owner dock_probe) = dock_row" "pb_claim dock_probe = as_str dock_claim" "pb_result dock_probe = Inr dock_green"
  by (simp_all add: dock_probe_def probe_of_def dock_read_def dock_limits)

lemma dock_actionable: "actionable dock_green dock_row" "actionable dock_green dock_signalled" "sp_open dock_green" "sp_head dock_green = ''h0''"
  by (simp_all add: actionable_def dock_green_def fresh_check_def ck_completed_def dock_rows)

lemma dock_wakes: "prepare_wake dock_env dock_probe ceiling_new = (Inr (Some dock_prepared), snd (deployment_estimate (env_budgets (we_intake dock_env)) (Inr 0) 5 (\<lambda>_ c. c) ceiling_new))"
proof -
  have "wake_of (dock_view dock_row) = Inr dock_asked"
    by (simp add: wake_of_def Let_def dock_limits dock_row_def dock_ids dock_view_def view_of_def dock_counted_def dock_columns_def recorded_reply_def dock_asked_def)
  then have wake: "wake_of (pb_owner dock_probe) = Inr dock_asked" by (simp add: dock_probe_def probe_of_def dock_read_def)
  have "fst (deployment_estimate (env_budgets (we_intake dock_env)) (Inr 0) 5 (\<lambda>_ c. c) ceiling_new) = 0"
    by (simp add: deployment_estimate_def dock_env_def ceiling_new_def ceiling_due_def ceiling_claim_def claim_flag_def ceiling_estimate_def estimate_of_def
      claim_publish_def claim_drop_def publish_sampled_def publish_read_at_def publish_since_def Let_def)
  then show ?thesis
    by (simp add: prepare_wake_def wake dock_probe_facts dock_actionable prepare_admission_def dock_env_def dock_prepared_def case_prod_beta)
qed

definition dock_admitted :: Intake.admission_row where
  "dock_admitted = new_row (in_db dock_intake) (as_str dock_next) dock_asked (continuation_key (as_str shop_task) 2)
     (payload_digest id dock_asked) 5"

definition dock_staged :: intake_state where
  "dock_staged = \<lparr>in_db = (in_db dock_intake)\<lparr>ledger_rows := [dock_admitted]\<rparr>, in_ceiling = ceiling_admitted ceiling_new\<rparr>"

lemma dock_stages: "stage (we_intake dock_env) dock_prepared dock_intake = (Inr \<lparr>aa_replayed = False, aa_stored = dock_admitted\<rparr>, dock_staged)"
  by (simp add: stage_def dock_env_def dock_prepared_def insert_on_def policy_check_def check_fleet_budget_def faulted_def
      repeated_on_fleet_sql_def installed_policy_sql_def fleet_budget_sql_def insert_admission_sql_def repeated_sql_def to_i64_def in_i64_def
      int_width dock_intake_def dock_asked_def key_of_def Let_def counted_in_def dock_staged_def dock_admitted_def)

definition dock_4 :: "unit wait_db" where
  "dock_4 = update_waits (claimed_by (as_str dock_wait) (as_str dock_claim)) (consumed 6 (as_str dock_next) (sp_checks dock_green) ''d'')
     (woken_tables 6 (as_str shop_task) (as_str dock_next) dock_staged dock_3)"

lemma dock_finishes: "finish_wait dock_env 6 dock_probe (Some dock_prepared) dock_3 = Inr (True, dock_4)"
proof -
  have row: "wt_id dock_row = as_str dock_wait" "wt_fleet dock_row = as_str shop_fleet" "wt_workspace dock_row = as_str shop_desk"
      "wt_id dock_signalled = as_str dock_wait" "wt_task dock_signalled = as_str shop_task" "wt_head dock_signalled = ''h0''"
      "wt_claim dock_signalled = Some (as_str dock_claim, 6 + from_secs claim_ttl)"
    by (simp_all add: dock_rows)
  have env: "we_locked dock_env = (\<lambda>_. False)" "we_digest dock_env = (\<lambda>_. ''d'')" "wd_intake dock_3 = dock_intake" by (simp_all add: dock_env_def dock_tables)
  have live: "wv_claim_valid (dock_view dock_signalled)"
    by (simp add: dock_view_def view_of_def row claim_ttl_def from_secs_def)
  have new: "ad_id dock_admitted = as_str dock_next" by (simp add: dock_admitted_def)
  from right_answer [OF dock_authority(2)] obtain b where b: "read_authority (dock_view dock_signalled) dock_3 = Inr b" by blast
  show ?thesis
    by (simp add: finish_wait_def Let_def dock_probe_facts row env dock_scope dock_owner dock_current dock_limits live apply_probe_def b
      dock_actionable consume_def dock_stages new dock_4_def woken_tables_def)
qed

definition dock_kept :: "unit wait_db" where
  "dock_kept = keep_waiting (\<lambda>_. ''d'') 6 (dock_view dock_signalled) (probe_of dock_read (Inl OnRemote)) None None dock_3"

lemma dock_keeps: "finish_wait dock_env 6 (probe_of dock_read (Inl OnRemote)) None dock_3 = Inr (False, dock_kept)"
proof -
  have row: "wt_id dock_row = as_str dock_wait" "wt_fleet dock_row = as_str shop_fleet" "wt_workspace dock_row = as_str shop_desk"
      "wt_claim dock_signalled = Some (as_str dock_claim, 6 + from_secs claim_ttl)"
    by (simp_all add: dock_rows)
  have env: "we_locked dock_env = (\<lambda>_. False)" "we_digest dock_env = (\<lambda>_. ''d'')" "we_cooldown dock_env = (\<lambda>_. None)" by (simp_all add: dock_env_def)
  have live: "wv_claim_valid (dock_view dock_signalled)"
    by (simp add: dock_view_def view_of_def row claim_ttl_def from_secs_def)
  from right_answer [OF dock_authority(2)] obtain b where b: "read_authority (dock_view dock_signalled) dock_3 = Inr b" by blast
  have pb: "pb_owner (probe_of dock_read (Inl OnRemote)) = dock_view dock_row" "pb_claim (probe_of dock_read (Inl OnRemote)) = as_str dock_claim"
      "pb_result (probe_of dock_read (Inl OnRemote)) = Inl OnRemote" by (simp_all add: probe_of_def dock_read_def)
  show ?thesis
    by (simp add: finish_wait_def Let_def pb row env dock_scope dock_owner dock_current dock_limits live apply_probe_def b dock_kept_def)
qed

section \<open>The run\<close>

definition stage_0 :: "unit wait_run" where "stage_0 = begun 6 dock_0"
definition stage_1 :: "unit wait_run" where "stage_1 = with_tables stage_0 dock_1"
definition stage_2 :: "unit wait_run" where "stage_2 = (with_tables stage_1 dock_2)\<lparr>wn_reads := [dock_read]\<rparr>"
definition stage_3 :: "unit wait_run" where "stage_3 = with_tables stage_2 dock_3"
definition stage_4 :: "unit wait_run" where "stage_4 = (with_tables stage_3 dock_4)\<lparr>wn_reads := []\<rparr>"

lemma stage_facts [simp]:
  "wn_db stage_0 = dock_0" "wn_db stage_1 = dock_1" "wn_db stage_2 = dock_2" "wn_db stage_3 = dock_3" "wn_db stage_4 = dock_4"
  "wn_clock stage_0 = 6" "wn_clock stage_1 = 6" "wn_clock stage_2 = 6" "wn_clock stage_3 = 6" "wn_clock stage_4 = 6"
  "wn_reads stage_0 = []" "wn_reads stage_1 = []" "wn_reads stage_2 = [dock_read]" "wn_reads stage_3 = [dock_read]"
  by (simp_all add: stage_0_def stage_1_def stage_2_def stage_3_def stage_4_def begun_def)

lemma dock_blank: "blank_waits dock_0"
  by (simp add: blank_waits_def dock_tables)

lemma dock_steps: "wait_step stage_0 stage_1" "wait_step stage_1 stage_2" "wait_step stage_2 stage_3" "wait_step stage_3 stage_4"
proof -
  show "wait_step stage_0 stage_1" unfolding stage_1_def by (rule wait_step.arms) (use dock_arms in simp)
  show "wait_step stage_1 stage_2"
    using wait_step.reads [of "\<lambda>_. False" "\<lambda>_. False" "Inr dock_claim" stage_1 dock_candidate dock_read dock_2] dock_claims by (simp add: stage_2_def)
  show "wait_step stage_2 stage_3" unfolding stage_3_def by (rule wait_step.fans_out) (use dock_fans_out in simp)
  show "wait_step stage_3 stage_4"
    using wait_step.finishes [of dock_read stage_3 dock_env "Inr dock_green" ceiling_new "Some dock_prepared" _ dock_env True dock_4] dock_wakes dock_finishes
    by (simp add: stage_4_def dock_probe_def)
qed

lemma dock_runs: "wait_step\<^sup>*\<^sup>* (begun 6 dock_0) stage_2" "wait_step\<^sup>*\<^sup>* (begun 6 dock_0) stage_3" "wait_step\<^sup>*\<^sup>* (begun 6 dock_0) stage_4"
proof -
  have "wait_step\<^sup>*\<^sup>* stage_0 stage_2" using dock_steps(1,2) by (rule converse_rtranclp_into_rtranclp [OF _ r_into_rtranclp])
  then show two: "wait_step\<^sup>*\<^sup>* (begun 6 dock_0) stage_2" by (simp add: stage_0_def)
  show three: "wait_step\<^sup>*\<^sup>* (begun 6 dock_0) stage_3" using two dock_steps(3) by (rule rtranclp.rtrancl_into_rtrancl)
  show "wait_step\<^sup>*\<^sup>* (begun 6 dock_0) stage_4" using three dock_steps(4) by (rule rtranclp.rtrancl_into_rtrancl)
qed

section \<open>Witnesses\<close>

theorem waits_refine_the_publications_witness:
  "pub_step\<^sup>*\<^sup>* (started dock_pub) (wn_rest stage_4) \<and> run_db (wn_rest stage_4) = wd_pub dock_4"
  using waits_refine_the_publications [OF dock_runs(3) dock_blank] by (simp add: dock_0_def)

lemma dock_4_waits: "wd_waits dock_4 = [consumed 6 (as_str dock_next) (sp_checks dock_green) ''d'' dock_signalled]"
  by (simp add: dock_4_def update_waits_def) (simp add: dock_3_def claimed_by_def dock_rows open_wait_def)

theorem a_generation_is_woken_once_witness:
  "\<exists>t. pd_tasks (wd_pub dock_4) (as_str shop_task) = Some t \<and> 1 < t_generation t"
proof -
  let ?w = "consumed 6 (as_str dock_next) (sp_checks dock_green) ''d'' dock_signalled"
  have "wt_task ?w = as_str shop_task" "wt_task_generation ?w = 1" by (simp_all add: dock_rows)
  with a_generation_is_woken_once [OF dock_runs(3) dock_blank, of ?w 6 "as_str dock_next"] show ?thesis by (simp add: dock_4_waits)
qed

theorem fallback_reads_are_rationed_witness:
  "tc_used_fallback dock_counted = sum_list (map wt_fallbacks (filter (\<lambda>w. wt_task w = as_str shop_task) (wd_waits dock_3)))
     \<and> tc_used_fallback dock_counted \<le> 2"
  using fallback_reads_are_rationed [OF dock_runs(2) dock_blank, of dock_counted] by (simp add: dock_tables)

theorem a_signalled_wait_is_read_witness:
  "read_now (from_secs 60) dock_3 dock_signalled \<and> \<not> fallback dock_signalled"
proof (rule a_signalled_wait_is_read [OF dock_runs(2) dock_blank, of _ _ dock_task dock_counted, unfolded stage_facts])
  show "dock_signalled \<in> set (wd_waits dock_3)" by (simp add: dock_3_def)
  show "open_wait dock_signalled" "signalled dock_signalled" "wt_cooldown dock_signalled \<le> from_secs 60" "6 \<le> from_secs 60"
    "t_generation dock_task = wt_task_generation dock_signalled" "t_stop_generation dock_task = wt_stop_generation dock_signalled"
    "t_status dock_task = task_state_as_str TsWaiting"
    by (simp_all add: dock_rows open_wait_def signalled_def from_secs_def dock_task_def shop_row_def)
  show "pd_tasks (wd_pub dock_3) (wt_task dock_signalled) = Some dock_task" "columns_of dock_3 (wt_task dock_signalled) = Some dock_counted"
    by (simp_all add: dock_tables columns_of_def dock_rows)
  fix u until
  assume "wt_claim dock_signalled = Some (u, until)"
  then show "until \<le> from_secs 60" by (auto simp: dock_rows claim_ttl_def from_secs_def)
qed

theorem a_read_keeps_newer_signals_witness:
  "\<exists>w'. w' \<in> set (wd_waits dock_kept) \<and> wt_id w' = as_str dock_wait \<and> (signalled w' \<or> \<not> open_wait w')"
proof -
  have "dock_signalled \<in> set (wd_waits dock_3)" "wt_signals (wv_row (pb_owner (probe_of dock_read (Inl OnRemote)))) < wt_signals dock_signalled"
    "signalled dock_signalled" "wt_id dock_signalled = as_str dock_wait"
    by (simp_all add: dock_3_def probe_of_def dock_read_def dock_limits) (simp_all add: dock_rows signalled_def)
  with a_read_keeps_newer_signals [OF dock_keeps] show ?thesis by metis
qed

theorem a_wake_is_for_the_awaited_head_witness:
  "\<exists>w' row. w' \<in> set (wd_waits dock_4) \<and> wt_consumed w' = Some (6, ad_id row)
     \<and> row \<in> set (ledger_rows (in_db (wd_intake dock_4))) \<and> ad_producer row = producer_as_str TaskContinuation"
proof -
  have read: "dock_read \<in> set (wn_reads stage_3)" by simp
  from a_wake_is_for_the_awaited_head [OF dock_runs(2) dock_blank read dock_wakes [unfolded dock_probe_def], of dock_env dock_4]
    dock_finishes [unfolded dock_probe_def] show ?thesis unfolding keyed_def by (simp only: stage_facts) blast
qed

theorem a_completion_signals_each_wait_once_witness:
  "wd_waits (fanout_pass pass_limit (\<lambda>_. False) (\<lambda>_. False) 6 [''c1''] dock_2) = [dock_signalled]"
proof -
  have "wd_waits (fanout_pass pass_limit (\<lambda>_. False) (\<lambda>_. False) 6 [fo_completion dock_fanout] dock_2)
      = map (\<lambda>w. if awaits dock_completion w \<and> cursor dock_fanout < wt_id w then signal 6 dock_completion w else w) (wd_waits dock_2)"
    by (rule conjunct1, rule a_completion_signals_each_wait_once)
      (simp_all add: dock_tables dock_completion_def pass_limit_def)
  then show ?thesis using dock_awaits by (simp add: dock_tables cursor_def dock_signalled_def)
qed

definition dock_execution :: "u64 \<Rightarrow> u32 \<Rightarrow> execution" where
  "dock_execution i n = \<lparr>ex_id = i, ex_workflow = 7, ex_attempt = n, ex_number = 5, ex_head = ''h0'', ex_status = ''completed'',
     ex_conclusion = Some ''success''\<rparr>"

definition dock_runs_of :: "string \<Rightarrow> string \<Rightarrow> string \<Rightarrow> (u64 \<times> execution list) answer" where
  "dock_runs_of owner name head = Inr (2, [dock_execution 8 2, dock_execution 9 1])"

definition dock_evidence :: evidence where
  "dock_evidence = \<lparr>sp_open = True, sp_head = ''h0'', sp_checks = [\<lparr>ck_workflow = 7, ck_run = Some 8, ck_number = Some 5, ck_attempt = Some 2,
     ck_status = ''completed'', ck_conclusion = Some ''success''\<rparr>]\<rparr>"

theorem checks_are_of_the_latest_runs_witness:
  "\<exists>latest. sp_checks dock_evidence = map (check_of latest) [shop_flow] \<and> latest_of [dock_execution 8 2, dock_execution 9 1] latest"
proof -
  have "pr_status dock_runs_of shop_session shop_pr = Inr dock_evidence"
    by (simp add: pr_status_def read_credential_def shop_defs shop_owner dock_runs_of_def dock_execution_def run_after_def
        check_of_def dock_evidence_def eq_ignore_ascii_case_def Let_def)
  moreover have "sp_checks dock_evidence \<noteq> []" by (simp add: dock_evidence_def)
  ultimately show ?thesis using checks_are_of_the_latest_runs by (fastforce simp: dock_runs_of_def shop_pr_def)
qed

end
