(* ===== verification/Spec2Isabelle.thy ===== *)
theory Spec2Isabelle
  imports ClaimSamples DecisionSamples EgressSamples IngressSamples PublicationSamples WaitSamples
begin

text \<open>
  A model of the agentsfleet daemon's core (\<open>rustd/crates/\<close>): how a fleet's work is gated,
  admitted, leased to a runner, metered while it runs and charged once it ran.

  PARTS.  An event reaches a fleet: a signed delivery at an address its triggers declare
  (\<open>afd_fleet_runtime/src/config/trigger\<close>, \<open>afd_ingress\<close>, \<open>afd_api_ingress\<close>) or a person's steer
  (\<open>afd_events/src/steer\<close>), and it is admitted once, within a budget, as a row of the admission
  ledger (\<open>afd_admission\<close>).  Before it may run, the approval gate asks whether the fleet's
  policy lets it (\<open>afd_gate\<close>), the money gates ask whether its payer and its fleet can afford it
  (\<open>afd_fleet/src/lease/admit\<close>), one runner wins the fleet's slot and its oldest admission under a
  rising fencing token (\<open>afd_fleet/src/lease/assign/ledger.rs\<close>, \<open>lease/sql/lease/claim_admission_head.sql\<close>) and the placement takes one of the host's workers
  (\<open>afd_runner/src/capacity\<close>).  While it runs, every renewal meters the time since the last one,
  prices what was measured (\<open>afd_billing/src/price\<close>) and logs it as usage lines
  (\<open>afd_fleet/src/lease/renew\<close>, \<open>lease/settle.rs\<close>, \<open>lease/billing_sweep.rs\<close>).  A runner that
  asks the daemon for a model's decision has credit reserved, one call issued and its receipt
  accounted (\<open>afd_fleet/src/task/decision\<close>), and one that repaired a task has its change pushed to
  the pull request the task is bound to, once (\<open>afd_fleet/src/task/effects\<close>, \<open>task/github\<close>); the task
  then waits on that head's checks, told by a signed completion or by reading, and is woken through the
  admission ledger (\<open>task/waits\<close>, \<open>task/continuation.rs\<close>).  A relay reads the
  lines that are not settled yet and has a biller charge them (\<open>afd_billing/src/ledger\<close>).
  Who a request comes from and what it may do is decided once, from its bearer credential
  (\<open>afd_auth\<close>); a webhook delivery has no principal and proves itself by a signature
  (\<open>afd_webhook\<close>).
  On the runner, what the agent streams passes the lease's masker (\<open>afr_secrets\<close>), and what its tools
  send passes the outbound guard, redirects included (\<open>afr_egress\<close>, over \<open>afd_core/src/net\<close>).

  THEORIES, each opening with what it holds:
  Prelude (64-bit and 32-bit arithmetic, the result type \<open>'e + 'a\<close>, iterator idioms, decimal text),
  Ids (\<open>afd_core/src/id.rs\<close>), Pricing (the price book, the rater, the decision reservation),
  Ledger (usage lines, the charge, the balance, over the statements of \<open>ledger/sql/\<close>),
  Keyset (paging by key, a locale), Relay (\<open>ledger/sweep.rs\<close>), Slots (winning a slot, releases, fences),
  Claims (the candidate scan, the claim's statement and transaction, the poll, the slots as a state machine),
  Capacity (host census and the alternation of lease kinds), Metering (the metering statement and
  the verbs over it), LeaseLaws (what a lease's passes guarantee together), GatePolicy
  (conditions, rules, anomaly thresholds), Cards (what an approval card shows), Gates (the recorded
  gate, the runaway brake, parking a question), Admission (ceilings and the money gates of issue
  and renewal), Decisions (reserving, issuing, recording and refunding a physical model call),
  DecisionLaws (the invariant of its accounts), DecisionFlow (what follows from it: the lifecycle
  refined, one dispatch, idempotent receipts), Scrub (the masker and the live stream), Net (blocked
  addresses), Placeholders (the \<open>${secrets.NAME.FIELD}\<close> grammar and allowlist entries), Origins (the
  per-host request rules), Outbound (admission, the vault, the request that leaves), OutboundLaws
  (what the guard promises), Redirect (the chain, its privacy and the tool's loop), RedirectLaws,
  Texts (text on its UTF-8 bytes), Auth (scopes, credentials, the one procedure), AuthLaws, Wall
  (schemes and recipes of a signed delivery), WallLaws, Intake (the admission ledger and its ceiling),
  IntakeLaws, CeilingLaws (the ceiling under interleaving callers), Triggers (authored triggers and
  what makes a set of them valid), Ingress (bindings, the proof of a delivery, its admission, the
  fan-out, steers), IngressLaws, Repositories (repository bindings, pull request targets, the review of
  workflows, the reproduction of a tested tree, what is pushed and read back), RepositoryLaws, Publications
  (a publication's rows, its reservation, issue, push and outcomes, its handlers and sweep, and what a person's
  control does to a task), PublicationLaws, PublicationRuns (the handlers as runs of the steps), Waits (check
  evidence, waits, the completion inbox, fan-out, expiry and the sweep), WaitLaws, and Samples, ClaimSamples, DecisionSamples,
  EgressSamples, AccessSamples, IngressSamples, PublicationSamples and WaitSamples (the concrete inputs of the witnesses).

  HOW STATE IS MODELLED.  A table is a map or a list of its rows, a row a record with the columns
  the code reads; a statement is a function from the store and the instant it runs at to its answer
  and the store after it.  A transaction that fails answers an error and no store, so nothing of it
  remains.  A value in Dragonfly is a map entry with the instant it expires at.  Instants and spans
  are integers of nanoseconds.  Counts keep their width as words (\<open>u32\<close>, \<open>u64\<close>), and money is an
  integer with the 64-bit saturation, checking and wrapping of each operation written out.
  A handler of several transactions takes, for each, its instant, what became of its commit (it landed, it was
  rolled back, it landed and nobody heard) and what everybody else did before it; a permit to push is held
  beside the store until it is spent or lost with its handler.
  Text the runner masks or matches is the list of its UTF-8 bytes; the clock and the mint verb thread
  the outside world they read.  What the code only calls is an argument: the entropy source's draws, the serializer's readings,
  the classification of a driver's error, which statement or command was answered, the URL and JSON parsers, SHA-256, the vault, HMAC and the decoders of its tags, the multi-pattern matcher (used
  through its documented leftmost-longest semantics) and the automaton of the redirect masker.

  INTERFACES.  \<open>biller\<close> (Ledger) is what a settlement relies on, interpreted by the built-in ledger
  biller as \<open>lb\<close>; \<open>keyset\<close> (Keyset) is what a paged reader relies on, interpreted by the relay's
  batch query as \<open>relay_pages\<close> and by the recovery of lapsed calls as \<open>lapsed_pages\<close>.

  WHAT THE LEMMAS SHOW.  Pricing brackets a charge by the exact cost, and the price of
  the use a reservation was quoted for by the reservation.
  Ledger and Relay: a line is charged once, by whatever passes run in whatever order, and every
  unsettled line is read once a lap.  Claims, by rule induction over claims with any
  fault, releases and the daemon's other work: tokens rise, a late release by an old holder changes nothing,
  what a claim hands out is the fleet's oldest runnable admission, and no other runner claims it while it runs.  Capacity: no host runs past
  its workers.  LeaseLaws, by rule induction over the passes that meter one lease: no time is
  billed twice or past the granted deadline, deadlines move together, a lease settles once.
  DecisionLaws and DecisionFlow, by rule induction over every operation and the daemon's other
  work: reserved credit is the unresolved calls, one line per known call, and each operation
  refines a move of an abstract lifecycle.  Gates:
  only a recorded human answer or a lapsed deadline decides a gated event, and the brake's count.
  Admission: what each money gate refuses on, and that issue and renewal agree.
  Scrub: streaming chunk by chunk sends what masking the whole text would.  Net: the octet tests are
  the registry's ranges.  OutboundLaws: an admitted request keeps the policy, a credential only goes
  to a host it is bound to, a minted token never leaves the masker.  RedirectLaws: at most three
  continuations, all admitted, no revisits, no header across origins, masking the union of matches.

  AuthLaws: the bitset is the closure of what the claim names, a principal is of its credential's type,
  an outage is neither a rejection nor an admission.  WallLaws: verified is exactly signed under the recipe.

  IntakeLaws, by rule induction over admissions, staged transactions, bindings and settlements with any datastore
  fault and any answer lost after its commit: one row per key, a repeat is answered with it, and a
  fleet's backlog stays within its budget.  CeilingLaws: what an estimate may leave out,
  whose two words are loaded apart while others count and publish.  IngressLaws: a saved trigger is selected by its own source only, nothing
  unsigned changes the ledger, one delivery is one run, a steer is answered with the caller's event.

  PublicationLaws, by rule induction over every transaction, push, crash and unheard commit: an operation is
  pushed at most once, a task keeps to its publications and has one in flight, each step refines a move of an
  abstract lifecycle, and a control cuts off what was prepared before it.  PublicationRuns: the handlers do
  nothing else.  RepositoryLaws: what is pushed touches plain files only, within a mebibyte.

  WaitLaws, by rule induction over every transaction of the waits with the publications and the daemon beside
  them: a wake is for the head that was awaited, in the wait's generation, and happens once in it; fallback
  reads add up to what the task was charged; a signalled wait is due; a completion's fan-out, resumed
  anywhere, signals each wait it concerns once; a run of waits is a run of the publications, whose
  guarantees it so keeps; evidence is of the latest run of each workflow.

  BOUNDS AND FUEL.  The only fuel is the number of pages of \<open>keyset_walk\<close>; a lap needs one page
  more than the rows divided by the page size, which is the hypothesis of the property that uses it.  The count of \<open>fanout_pass\<close> is the code's own limit of
  rows a pass touches; the property that runs it to the end asks for room for the waits past the cursor.
  Every other recursion is structural or has a termination proof; the redirect loop ends by its hop
  budget, the others by the length of what is left to read.

  NOT MODELLED.  Connection pools, deadlines of a datastore call, tracing and the live tail are not;
  neither are the HTTP surface, the rest of the runner (its supervisor, agent loop, sandbox and the
  HTTP client itself), authoring, memory,
  schedules, the credential vault, and of the ingress the reading of GitHub's and the chat connectors'
  event documents, the approval callback and the identity provider's events.  Of a task, its admission from an
  interpreted event, its checkpoints and its report are not; a publication and a wait take a task as its row is,
  and deleting a task that waits, with its fleet, is no step of a run of waits; nor is deleting a fleet, which
  takes its slot with it, a step of the slots.  \<open>Leases::claim\<close> of \<open>lease/affinity.rs\<close>, which only tests call, is
  not modelled.
\<close>

end
